(* ===== verification/Ids.thy ===== *)
theory Ids
  imports Prelude "HOL-Library.List_Lexorder" "HOL-Library.Char_ord"
begin

section \<open>Public identifiers\<close>

text \<open>
  \<^verbatim>\<open>osds/ids.py\<close>: a ULID is a 48-bit millisecond clock followed by 80 random bits, written in 26
  Crockford base-32 digits. The clock and the random bytes are arguments. The lemmas show the
  encoding is injective and that its lexicographic order is the order of creation.
\<close>

definition CROCKFORD32 :: string where
  "CROCKFORD32 = ''0123456789ABCDEFGHJKMNPQRSTVWXYZ''"

text \<open>The loop of \<^verbatim>\<open>new_ulid\<close>, which fills the buffer from its last cell backwards: \<open>w\<close> cells are
  left to fill.\<close>

fun ulid_digits :: "nat \<Rightarrow> nat \<Rightarrow> string" where
  "ulid_digits 0 value = []"
| "ulid_digits (Suc w) value = ulid_digits w (value div 32) @ [CROCKFORD32 ! (value mod 32)]"

definition new_ulid :: "nat \<Rightarrow> nat \<Rightarrow> string" where
  "new_ulid millis rnd = ulid_digits 26 (millis * 2 ^ 80 + rnd)"

definition prefixed :: "string \<Rightarrow> string \<Rightarrow> string" where
  "prefixed p ulid = p @ ulid"

subsection \<open>The digits\<close>

lemma crockford_less:
  assumes "i < j" "j < 32"
  shows "CROCKFORD32 ! i < CROCKFORD32 ! j"
proof -
  have sd: "sorted_wrt (<) CROCKFORD32"
    by (simp add: CROCKFORD32_def less_char_def)
  have len: "length CROCKFORD32 = 32" by (simp add: CROCKFORD32_def)
  from sd assms len show ?thesis by (simp add: sorted_wrt_iff_nth_less)
qed

lemma length_ulid_digits [simp]: "length (ulid_digits w v) = w"
  by (induction w v rule: ulid_digits.induct) auto

lemma append_lex_less:
  fixes xs ys :: "'a::linorder list"
  assumes "length xs = length ys"
  shows "xs @ [a] < ys @ [b] \<longleftrightarrow> xs < ys \<or> xs = ys \<and> a < b"
  using assms by (induction xs ys rule: list_induct2) auto

lemma ulid_digits_mono:
  "v < v' \<Longrightarrow> v' < 32 ^ w \<Longrightarrow> ulid_digits w v < ulid_digits w v'"
proof (induction w arbitrary: v v')
  case 0
  then show ?case by simp
next
  case (Suc w)
  have bound: "v' div 32 < 32 ^ w" using Suc.prems(2) by (simp add: less_mult_imp_div_less mult.commute)
  show ?case
  proof (cases "v div 32 = v' div 32")
    case True
    with Suc.prems(1) have "v mod 32 < v' mod 32"
      by (metis div_mult_mod_eq nat_add_left_cancel_less)
    then have "CROCKFORD32 ! (v mod 32) < CROCKFORD32 ! (v' mod 32)" by (simp add: crockford_less)
    with True show ?thesis by (simp add: append_lex_less)
  next
    case False
    with Suc.prems(1) have "v div 32 < v' div 32" by (meson div_le_mono leD le_neq_implies_less less_imp_le)
    with bound have "ulid_digits w (v div 32) < ulid_digits w (v' div 32)" by (intro Suc.IH)
    then show ?thesis by (simp add: append_lex_less)
  qed
qed

lemma ulid_value_bound:
  assumes "millis < 2 ^ 48" "rnd < 2 ^ 80"
  shows "millis * 2 ^ 80 + rnd < (32::nat) ^ 26"
proof -
  have "millis * 2 ^ 80 + rnd < 2 ^ 48 * 2 ^ 80 + 2 ^ 80" using assms by (intro add_less_le_mono mult_strict_right_mono) auto
  also have "\<dots> < (32::nat) ^ 26" by simp
  finally show ?thesis .
qed

lemma new_ulid_length [simp]: "length (new_ulid m r) = 26"
  by (simp add: new_ulid_def)

subsection \<open>Order and uniqueness\<close>

lemma ulid_digits_inj: "v < 32 ^ w \<Longrightarrow> v' < 32 ^ w \<Longrightarrow> ulid_digits w v = ulid_digits w v' \<Longrightarrow> v = v'"
  by (metis less_irrefl nat_neq_iff ulid_digits_mono)

text \<open>Identifiers sort by creation time: of two ULIDs the one drawn in an earlier millisecond is
  lexicographically smaller whatever its random part; and two equal ULIDs have the same clock and the same
  random bits.\<close>
theorem new_ulid_order:
  assumes "millis < 2 ^ 48" "millis' < 2 ^ 48" "rnd < 2 ^ 80" "rnd' < 2 ^ 80"
  shows "(millis < millis' \<longrightarrow> new_ulid millis rnd < new_ulid millis' rnd')
    \<and> (new_ulid millis rnd = new_ulid millis' rnd' \<longrightarrow> millis = millis' \<and> rnd = rnd')"
proof
  note b = ulid_value_bound [OF assms(1,3)] and b' = ulid_value_bound [OF assms(2,4)]
  show "millis < millis' \<longrightarrow> new_ulid millis rnd < new_ulid millis' rnd'"
  proof
    assume "millis < millis'"
    then have "Suc millis * 2 ^ 80 \<le> millis' * 2 ^ 80" by (intro mult_le_mono) simp_all
    with assms(3) have "millis * 2 ^ 80 + rnd < millis' * 2 ^ 80 + rnd'" by simp
    with b' show "new_ulid millis rnd < new_ulid millis' rnd'" unfolding new_ulid_def by (intro ulid_digits_mono)
  qed
  show "new_ulid millis rnd = new_ulid millis' rnd' \<longrightarrow> millis = millis' \<and> rnd = rnd'"
  proof
    assume "new_ulid millis rnd = new_ulid millis' rnd'"
    with b b' have eq: "millis * 2 ^ 80 + rnd = millis' * 2 ^ 80 + rnd'" unfolding new_ulid_def by (intro ulid_digits_inj)
    have "(millis * 2 ^ 80 + rnd) div 2 ^ 80 = millis" "(millis' * 2 ^ 80 + rnd') div 2 ^ 80 = millis'"
      using assms(3,4) by simp_all
    with eq have "millis = millis'" by metis
    with eq show "millis = millis' \<and> rnd = rnd'" by simp
  qed
qed

theorem new_ulid_order_witness: "new_ulid 1 5 < new_ulid 2 0"
  using new_ulid_order [of 1 2 5 0] by simp

end
