(* ===== verification/Audit_Store.thy ===== *)
theory Audit_Store
  imports Ids
begin

section \<open>The audit tables and their writers\<close>

text \<open>
  The state the audit app owns (\<^verbatim>\<open>audit/models.py\<close>) and the functions every other component writes
  it through: \<^verbatim>\<open>audit/outbox.py\<close> (\<open>emit\<close>), \<^verbatim>\<open>audit/mail.py\<close> (\<open>enqueue\<close>), \<^verbatim>\<open>audit/command_log.py\<close>
  (\<open>log_received\<close>, \<open>log_conclude\<close>, \<open>log_replay\<close>), \<^verbatim>\<open>audit/envelope.py\<close> (\<open>to_wire\<close>) and
  \<^verbatim>\<open>audit/events.py\<close> (the registry of event types).

  The database is the record \<open>core_db\<close>, extended by the components that own more tables. Beside
  the tables it holds what a command reads from its environment: \<open>wall\<close> is the value of
  \<^verbatim>\<open>timezone.now()\<close> while the command runs, \<open>entropy\<close> and \<open>draws\<close> are the stream of
  \<^verbatim>\<open>os.urandom(10)\<close> values and how many were used, \<open>seq\<close> is the last primary key handed out (one
  sequence for all tables: only the order inside a table is ever used), and \<open>in_atomic\<close> is
  \<^verbatim>\<open>connection.in_atomic_block\<close>. A transaction that raises leaves no state behind, so an atomic
  function returns \<open>Inl\<close> of its exception and no database.
\<close>

subsection \<open>Rows\<close>

record tenant =
  tn_pk :: nat
  tn_public_id :: string
  tn_slug :: string
  tn_name :: string
  primary_domain :: "string option"
  domain_verified_at :: "instant option"
  tn_settings :: dict
  tn_mode :: string
  tn_status :: string
  tn_created_by :: "nat option"

record operator =
  op_pk :: nat
  op_public_id :: string
  op_email :: string
  op_is_active :: bool
  op_name :: string
  op_password :: "string option"
  op_is_superadmin :: bool
  op_is_staff :: bool
  op_is_superuser :: bool

datatype membership_status = MbPending | MbActive

record membership =
  mb_operator :: nat
  mb_tenant :: nat
  mb_role :: int
  mb_status :: membership_status
  mb_pk :: nat
  mb_invited_by :: "nat option"
  mb_accepted_at :: "instant option"

text \<open>\<^verbatim>\<open>StaffMembership.Role\<close>, the ranks the modelled commands compare with.\<close>

definition ROLE_MODERATOR :: int where
  "ROLE_MODERATOR = 1"

definition ROLE_EDITOR :: int where
  "ROLE_EDITOR = 2"

definition ROLE_MANAGER :: int where
  "ROLE_MANAGER = 3"

definition ROLE_ADMIN :: int where
  "ROLE_ADMIN = 4"

datatype event_status = EvPending | EvDispatched | EvDelivered | EvDead

record outbox_event =
  ev_pk :: nat
  event_id :: string
  ev_type :: string
  ev_version :: int
  occurred_at :: instant
  ev_subject :: string
  ev_tenant :: nat
  ev_actor :: dict
  ev_origin :: string
  ev_trace_id :: string
  ev_data :: dict
  ev_status :: event_status
  payload_nulled_at :: "instant option"
  ev_created_at :: instant
  dispatched_at :: "instant option"
  ev_delivered_at :: "instant option"

datatype delivery_status = DlPending | DlDelivered | DlDead

record delivery =
  dl_pk :: nat
  dl_event :: nat
  dl_tenant :: "nat option"
  dl_subject :: string
  dl_adapter_id :: string
  dl_status :: delivery_status
  dl_attempt :: nat
  dl_next_attempt_at :: instant
  dl_first_attempted_at :: "instant option"
  dl_last_attempted_at :: "instant option"
  dl_last_error :: string
  dl_delivered_at :: "instant option"
  dl_created_at :: instant

datatype message_status = MsPending | MsSent | MsDead | MsExpired

record message =
  ms_pk :: nat
  message_id :: string
  ms_tenant :: nat
  ms_kind :: string
  to_address :: "string option"
  ms_subject :: string
  body_text :: "string option"
  ms_status :: message_status
  ms_attempt :: nat
  ms_next_attempt_at :: instant
  ms_expires_at :: instant
  ms_first_attempted_at :: "instant option"
  ms_last_attempted_at :: "instant option"
  ms_last_error :: string
  sent_at :: "instant option"
  ms_created_at :: instant

record rate_counter =
  rc_pk :: nat
  rc_tenant :: nat
  rc_rule :: string
  rc_subject_hash :: string
  rc_window_start :: instant
  rc_count :: nat

record command_row =
  cmd_pk :: nat
  cmd_command :: string
  cmd_idempotency_key :: "string option"
  cmd_tenant :: "nat option"
  cmd_adapter_id :: string
  cmd_actor :: dict
  cmd_trace_id :: string
  cmd_payload :: "json option"
  cmd_received_at :: instant
  cmd_outcome :: "string option"
  cmd_result_event_id :: string
  cmd_problem :: "json option"
  cmd_concluded_at :: "instant option"

record access_row =
  ac_pk :: nat
  ac_tenant :: "nat option"
  ac_actor :: dict
  ac_action :: string
  ac_resource_type :: string
  ac_resource_id :: string
  ac_ip :: "string option"
  ac_user_agent :: string
  ac_occurred_at :: instant
  ac_extra :: dict

record core_db =
  wall :: instant
  entropy :: "nat \<Rightarrow> nat"
  draws :: nat
  seq :: nat
  in_atomic :: bool
  tenants :: "tenant list"
  memberships :: "membership list"
  outbox :: "outbox_event list"
  deliveries :: "delivery list"
  mail :: "message list"
  counters :: "rate_counter list"
  commands :: "command_row list"
  accesses :: "access_row list"

subsection \<open>Drawing identifiers, and transactions\<close>

definition draw_ulid :: "'z core_db_scheme \<Rightarrow> string" where
  "draw_ulid db = new_ulid (nat (wall db div 1000)) (entropy db (draws db))"

text \<open>\<^verbatim>\<open>with transaction.atomic():\<close> around a body that may raise.\<close>

definition atomic :: "('z core_db_scheme \<Rightarrow> 'e + 'r \<times> 'z core_db_scheme) \<Rightarrow> 'z core_db_scheme
    \<Rightarrow> 'e + 'r \<times> 'z core_db_scheme" where
  "atomic body db = (case body (db\<lparr>in_atomic := True\<rparr>) of
     Inl e \<Rightarrow> Inl e
   | Inr (x, db') \<Rightarrow> Inr (x, db'\<lparr>in_atomic := in_atomic db\<rparr>))"

lemma atomic_Inr:
  "atomic body db = Inr (x, db') \<longleftrightarrow> (\<exists>d. body (db\<lparr>in_atomic := True\<rparr>) = Inr (x, d) \<and> db' = d\<lparr>in_atomic := in_atomic db\<rparr>)"
  by (auto simp: atomic_def split: sum.splits)

lemma atomic_Inl: "atomic body db = Inl e \<longleftrightarrow> body (db\<lparr>in_atomic := True\<rparr>) = Inl e"
  by (auto simp: atomic_def split: sum.splits)

subsection \<open>The registry of event types\<close>

definition LISTING_CREATED :: string where
  "LISTING_CREATED = ''listing.created''"

definition LISTING_UPDATED :: string where
  "LISTING_UPDATED = ''listing.updated''"

definition LISTING_PUBLISHED :: string where
  "LISTING_PUBLISHED = ''listing.published''"

definition LISTING_UNPUBLISHED :: string where
  "LISTING_UNPUBLISHED = ''listing.unpublished''"

definition LISTING_MERGED :: string where
  "LISTING_MERGED = ''listing.merged''"

definition LISTING_DELETED :: string where
  "LISTING_DELETED = ''listing.deleted''"

definition LISTING_OWNER_ASSIGNED :: string where
  "LISTING_OWNER_ASSIGNED = ''listing.owner_assigned''"

definition LISTING_TIER_CHANGED :: string where
  "LISTING_TIER_CHANGED = ''listing.tier_changed''"

definition LISTING_EXPIRING_SOON :: string where
  "LISTING_EXPIRING_SOON = ''listing.expiring_soon''"

definition LISTING_EXPIRED :: string where
  "LISTING_EXPIRED = ''listing.expired''"

definition CLAIM_SUBMITTED :: string where
  "CLAIM_SUBMITTED = ''claim.submitted''"

definition CLAIM_VERIFICATION_STARTED :: string where
  "CLAIM_VERIFICATION_STARTED = ''claim.verification_started''"

definition CLAIM_VERIFICATION_FAILED :: string where
  "CLAIM_VERIFICATION_FAILED = ''claim.verification_failed''"

definition CLAIM_APPROVED :: string where
  "CLAIM_APPROVED = ''claim.approved''"

definition CLAIM_REJECTED :: string where
  "CLAIM_REJECTED = ''claim.rejected''"

definition CLAIM_ABANDONED :: string where
  "CLAIM_ABANDONED = ''claim.abandoned''"

definition CLAIM_NOTIFIED_EXISTING_CONTACTS :: string where
  "CLAIM_NOTIFIED_EXISTING_CONTACTS = ''claim.notified_existing_contacts''"

definition CLAIM_DISPUTED :: string where
  "CLAIM_DISPUTED = ''claim.disputed''"

definition USER_CREATED :: string where
  "USER_CREATED = ''user.created''"

definition STAFF_INVITED :: string where
  "STAFF_INVITED = ''staff.invited''"

definition STAFF_ACCEPTED :: string where
  "STAFF_ACCEPTED = ''staff.accepted''"

definition STAFF_ROLE_CHANGED :: string where
  "STAFF_ROLE_CHANGED = ''staff.role_changed''"

definition STAFF_REMOVED :: string where
  "STAFF_REMOVED = ''staff.removed''"

definition BILLING_CHECKOUT_STARTED :: string where
  "BILLING_CHECKOUT_STARTED = ''billing.checkout_started''"

definition BILLING_SUBSCRIPTION_STARTED :: string where
  "BILLING_SUBSCRIPTION_STARTED = ''billing.subscription_started''"

definition BILLING_SUBSCRIPTION_CHANGED :: string where
  "BILLING_SUBSCRIPTION_CHANGED = ''billing.subscription_changed''"

definition BILLING_PAYMENT_SUCCEEDED :: string where
  "BILLING_PAYMENT_SUCCEEDED = ''billing.payment_succeeded''"

definition BILLING_PAYMENT_FAILED :: string where
  "BILLING_PAYMENT_FAILED = ''billing.payment_failed''"

definition BILLING_SUBSCRIPTION_CANCELED :: string where
  "BILLING_SUBSCRIPTION_CANCELED = ''billing.subscription_canceled''"

definition BILLING_REFUND_ISSUED :: string where
  "BILLING_REFUND_ISSUED = ''billing.refund_issued''"

definition ENTITLEMENT_STARTED :: string where
  "ENTITLEMENT_STARTED = ''entitlement.started''"

definition ENTITLEMENT_TRIAL_CONVERTED :: string where
  "ENTITLEMENT_TRIAL_CONVERTED = ''entitlement.trial_converted''"

definition ENTITLEMENT_DUNNING_STARTED :: string where
  "ENTITLEMENT_DUNNING_STARTED = ''entitlement.dunning_started''"

definition ENTITLEMENT_RECOVERED :: string where
  "ENTITLEMENT_RECOVERED = ''entitlement.recovered''"

definition ENTITLEMENT_DOWNGRADED :: string where
  "ENTITLEMENT_DOWNGRADED = ''entitlement.downgraded''"

definition ENTITLEMENT_RESTORED :: string where
  "ENTITLEMENT_RESTORED = ''entitlement.restored''"

definition ENTITLEMENT_RENEWAL_DUE :: string where
  "ENTITLEMENT_RENEWAL_DUE = ''entitlement.renewal_due''"

definition ENTITLEMENT_EXPIRED :: string where
  "ENTITLEMENT_EXPIRED = ''entitlement.expired''"

definition ENTITLEMENT_CANCELED :: string where
  "ENTITLEMENT_CANCELED = ''entitlement.canceled''"

definition ENTITLEMENT_OVERRIDDEN :: string where
  "ENTITLEMENT_OVERRIDDEN = ''entitlement.overridden''"

definition SLOT_HELD :: string where
  "SLOT_HELD = ''slot.held''"

definition SLOT_HOLD_RELEASED :: string where
  "SLOT_HOLD_RELEASED = ''slot.hold_released''"

definition SLOT_OCCUPIED :: string where
  "SLOT_OCCUPIED = ''slot.occupied''"

definition SLOT_RELEASED :: string where
  "SLOT_RELEASED = ''slot.released''"

definition SLOT_WAITLIST_JOINED :: string where
  "SLOT_WAITLIST_JOINED = ''slot.waitlist_joined''"

definition SLOT_WAITLIST_NOTIFIED :: string where
  "SLOT_WAITLIST_NOTIFIED = ''slot.waitlist_notified''"

definition SLOT_WAITLIST_CLEARED :: string where
  "SLOT_WAITLIST_CLEARED = ''slot.waitlist_cleared''"

definition SLOT_CAPACITY_CHANGED :: string where
  "SLOT_CAPACITY_CHANGED = ''slot.capacity_changed''"

definition LEAD_CAPTURED :: string where
  "LEAD_CAPTURED = ''lead.captured''"

definition LEAD_DELIVERED :: string where
  "LEAD_DELIVERED = ''lead.delivered''"

definition LEAD_DELIVERY_FAILED :: string where
  "LEAD_DELIVERY_FAILED = ''lead.delivery_failed''"

definition LEAD_MARKED_SPAM :: string where
  "LEAD_MARKED_SPAM = ''lead.marked_spam''"

definition CALL_TRACKED :: string where
  "CALL_TRACKED = ''call.tracked''"

definition REVIEW_SUBMITTED :: string where
  "REVIEW_SUBMITTED = ''review.submitted''"

definition REVIEW_PUBLISHED :: string where
  "REVIEW_PUBLISHED = ''review.published''"

definition REVIEW_FLAGGED :: string where
  "REVIEW_FLAGGED = ''review.flagged''"

definition REVIEW_REMOVED :: string where
  "REVIEW_REMOVED = ''review.removed''"

definition REVIEW_RESPONDED :: string where
  "REVIEW_RESPONDED = ''review.responded''"

definition MODERATION_QUEUED :: string where
  "MODERATION_QUEUED = ''moderation.queued''"

definition MODERATION_DECIDED :: string where
  "MODERATION_DECIDED = ''moderation.decided''"

definition COMPLIANCE_REMOVAL_REQUESTED :: string where
  "COMPLIANCE_REMOVAL_REQUESTED = ''compliance.removal_requested''"

definition COMPLIANCE_REMOVAL_COMPLETED :: string where
  "COMPLIANCE_REMOVAL_COMPLETED = ''compliance.removal_completed''"

definition COMPLIANCE_DATA_EXPORTED :: string where
  "COMPLIANCE_DATA_EXPORTED = ''compliance.data_exported''"

definition COMPLIANCE_CONSENT_CHANGED :: string where
  "COMPLIANCE_CONSENT_CHANGED = ''compliance.consent_changed''"

definition AGENT_ACTION_TAKEN :: string where
  "AGENT_ACTION_TAKEN = ''agent.action_taken''"

definition AGENT_ESCALATION_REQUESTED :: string where
  "AGENT_ESCALATION_REQUESTED = ''agent.escalation_requested''"

definition AGENT_ESCALATION_RESOLVED :: string where
  "AGENT_ESCALATION_RESOLVED = ''agent.escalation_resolved''"

definition AGENT_BLOCKED :: string where
  "AGENT_BLOCKED = ''agent.blocked''"

definition TENANT_CREATED :: string where
  "TENANT_CREATED = ''tenant.created''"

definition TENANT_DOMAIN_VERIFIED :: string where
  "TENANT_DOMAIN_VERIFIED = ''tenant.domain_verified''"

definition TENANT_SETTINGS_CHANGED :: string where
  "TENANT_SETTINGS_CHANGED = ''tenant.settings_changed''"

definition TENANT_SUSPENDED :: string where
  "TENANT_SUSPENDED = ''tenant.suspended''"

definition IMPORT_STARTED :: string where
  "IMPORT_STARTED = ''import.started''"

definition IMPORT_COMPLETED :: string where
  "IMPORT_COMPLETED = ''import.completed''"

definition IMPORT_ROLLED_BACK :: string where
  "IMPORT_ROLLED_BACK = ''import.rolled_back''"

definition POSTAL_DISPATCHED :: string where
  "POSTAL_DISPATCHED = ''postal.dispatched''"

definition POSTAL_FAILED :: string where
  "POSTAL_FAILED = ''postal.failed''"

definition ALL_EVENT_TYPES :: "string list" where
  "ALL_EVENT_TYPES =
    [LISTING_CREATED, LISTING_UPDATED, LISTING_PUBLISHED, LISTING_UNPUBLISHED,
     LISTING_MERGED, LISTING_DELETED, LISTING_OWNER_ASSIGNED, LISTING_TIER_CHANGED,
     LISTING_EXPIRING_SOON, LISTING_EXPIRED, CLAIM_SUBMITTED, CLAIM_VERIFICATION_STARTED,
     CLAIM_VERIFICATION_FAILED, CLAIM_APPROVED, CLAIM_REJECTED, CLAIM_ABANDONED,
     CLAIM_NOTIFIED_EXISTING_CONTACTS, CLAIM_DISPUTED, USER_CREATED, STAFF_INVITED,
     STAFF_ACCEPTED, STAFF_ROLE_CHANGED, STAFF_REMOVED, BILLING_CHECKOUT_STARTED,
     BILLING_SUBSCRIPTION_STARTED, BILLING_SUBSCRIPTION_CHANGED, BILLING_PAYMENT_SUCCEEDED,
     BILLING_PAYMENT_FAILED, BILLING_SUBSCRIPTION_CANCELED, BILLING_REFUND_ISSUED,
     ENTITLEMENT_STARTED, ENTITLEMENT_TRIAL_CONVERTED, ENTITLEMENT_DUNNING_STARTED,
     ENTITLEMENT_RECOVERED, ENTITLEMENT_DOWNGRADED, ENTITLEMENT_RESTORED,
     ENTITLEMENT_RENEWAL_DUE, ENTITLEMENT_EXPIRED, ENTITLEMENT_CANCELED,
     ENTITLEMENT_OVERRIDDEN, SLOT_HELD, SLOT_HOLD_RELEASED, SLOT_OCCUPIED, SLOT_RELEASED,
     SLOT_WAITLIST_JOINED, SLOT_WAITLIST_NOTIFIED, SLOT_WAITLIST_CLEARED,
     SLOT_CAPACITY_CHANGED, LEAD_CAPTURED, LEAD_DELIVERED, LEAD_DELIVERY_FAILED,
     LEAD_MARKED_SPAM, CALL_TRACKED, REVIEW_SUBMITTED, REVIEW_PUBLISHED, REVIEW_FLAGGED,
     REVIEW_REMOVED, REVIEW_RESPONDED, MODERATION_QUEUED, MODERATION_DECIDED,
     COMPLIANCE_REMOVAL_REQUESTED, COMPLIANCE_REMOVAL_COMPLETED, COMPLIANCE_DATA_EXPORTED,
     COMPLIANCE_CONSENT_CHANGED, AGENT_ACTION_TAKEN, AGENT_ESCALATION_REQUESTED,
     AGENT_ESCALATION_RESOLVED, AGENT_BLOCKED, TENANT_CREATED, TENANT_DOMAIN_VERIFIED,
     TENANT_SETTINGS_CHANGED, TENANT_SUSPENDED, IMPORT_STARTED, IMPORT_COMPLETED,
     IMPORT_ROLLED_BACK, POSTAL_DISPATCHED, POSTAL_FAILED]"

definition is_known_event_type :: "string \<Rightarrow> bool" where
  "is_known_event_type t = (t \<in> set ALL_EVENT_TYPES)"

lemma known_event_types [simp]:
  "LISTING_CREATED \<in> set ALL_EVENT_TYPES"
  "LISTING_UPDATED \<in> set ALL_EVENT_TYPES"
  "LISTING_PUBLISHED \<in> set ALL_EVENT_TYPES"
  "LISTING_UNPUBLISHED \<in> set ALL_EVENT_TYPES"
  "LISTING_MERGED \<in> set ALL_EVENT_TYPES"
  "LISTING_DELETED \<in> set ALL_EVENT_TYPES"
  "LISTING_OWNER_ASSIGNED \<in> set ALL_EVENT_TYPES"
  "LISTING_TIER_CHANGED \<in> set ALL_EVENT_TYPES"
  "LISTING_EXPIRING_SOON \<in> set ALL_EVENT_TYPES"
  "LISTING_EXPIRED \<in> set ALL_EVENT_TYPES"
  "CLAIM_SUBMITTED \<in> set ALL_EVENT_TYPES"
  "CLAIM_VERIFICATION_STARTED \<in> set ALL_EVENT_TYPES"
  "CLAIM_VERIFICATION_FAILED \<in> set ALL_EVENT_TYPES"
  "CLAIM_APPROVED \<in> set ALL_EVENT_TYPES"
  "CLAIM_REJECTED \<in> set ALL_EVENT_TYPES"
  "CLAIM_ABANDONED \<in> set ALL_EVENT_TYPES"
  "CLAIM_NOTIFIED_EXISTING_CONTACTS \<in> set ALL_EVENT_TYPES"
  "CLAIM_DISPUTED \<in> set ALL_EVENT_TYPES"
  "USER_CREATED \<in> set ALL_EVENT_TYPES"
  "STAFF_INVITED \<in> set ALL_EVENT_TYPES"
  "STAFF_ACCEPTED \<in> set ALL_EVENT_TYPES"
  "STAFF_ROLE_CHANGED \<in> set ALL_EVENT_TYPES"
  "STAFF_REMOVED \<in> set ALL_EVENT_TYPES"
  "BILLING_CHECKOUT_STARTED \<in> set ALL_EVENT_TYPES"
  "BILLING_SUBSCRIPTION_STARTED \<in> set ALL_EVENT_TYPES"
  "BILLING_SUBSCRIPTION_CHANGED \<in> set ALL_EVENT_TYPES"
  "BILLING_PAYMENT_SUCCEEDED \<in> set ALL_EVENT_TYPES"
  "BILLING_PAYMENT_FAILED \<in> set ALL_EVENT_TYPES"
  "BILLING_SUBSCRIPTION_CANCELED \<in> set ALL_EVENT_TYPES"
  "BILLING_REFUND_ISSUED \<in> set ALL_EVENT_TYPES"
  "ENTITLEMENT_STARTED \<in> set ALL_EVENT_TYPES"
  "ENTITLEMENT_TRIAL_CONVERTED \<in> set ALL_EVENT_TYPES"
  "ENTITLEMENT_DUNNING_STARTED \<in> set ALL_EVENT_TYPES"
  "ENTITLEMENT_RECOVERED \<in> set ALL_EVENT_TYPES"
  "ENTITLEMENT_DOWNGRADED \<in> set ALL_EVENT_TYPES"
  "ENTITLEMENT_RESTORED \<in> set ALL_EVENT_TYPES"
  "ENTITLEMENT_RENEWAL_DUE \<in> set ALL_EVENT_TYPES"
  "ENTITLEMENT_EXPIRED \<in> set ALL_EVENT_TYPES"
  "ENTITLEMENT_CANCELED \<in> set ALL_EVENT_TYPES"
  "ENTITLEMENT_OVERRIDDEN \<in> set ALL_EVENT_TYPES"
  "SLOT_HELD \<in> set ALL_EVENT_TYPES"
  "SLOT_HOLD_RELEASED \<in> set ALL_EVENT_TYPES"
  "SLOT_OCCUPIED \<in> set ALL_EVENT_TYPES"
  "SLOT_RELEASED \<in> set ALL_EVENT_TYPES"
  "SLOT_WAITLIST_JOINED \<in> set ALL_EVENT_TYPES"
  "SLOT_WAITLIST_NOTIFIED \<in> set ALL_EVENT_TYPES"
  "SLOT_WAITLIST_CLEARED \<in> set ALL_EVENT_TYPES"
  "SLOT_CAPACITY_CHANGED \<in> set ALL_EVENT_TYPES"
  "LEAD_CAPTURED \<in> set ALL_EVENT_TYPES"
  "LEAD_DELIVERED \<in> set ALL_EVENT_TYPES"
  "LEAD_DELIVERY_FAILED \<in> set ALL_EVENT_TYPES"
  "LEAD_MARKED_SPAM \<in> set ALL_EVENT_TYPES"
  "CALL_TRACKED \<in> set ALL_EVENT_TYPES"
  "REVIEW_SUBMITTED \<in> set ALL_EVENT_TYPES"
  "REVIEW_PUBLISHED \<in> set ALL_EVENT_TYPES"
  "REVIEW_FLAGGED \<in> set ALL_EVENT_TYPES"
  "REVIEW_REMOVED \<in> set ALL_EVENT_TYPES"
  "REVIEW_RESPONDED \<in> set ALL_EVENT_TYPES"
  "MODERATION_QUEUED \<in> set ALL_EVENT_TYPES"
  "MODERATION_DECIDED \<in> set ALL_EVENT_TYPES"
  "COMPLIANCE_REMOVAL_REQUESTED \<in> set ALL_EVENT_TYPES"
  "COMPLIANCE_REMOVAL_COMPLETED \<in> set ALL_EVENT_TYPES"
  "COMPLIANCE_DATA_EXPORTED \<in> set ALL_EVENT_TYPES"
  "COMPLIANCE_CONSENT_CHANGED \<in> set ALL_EVENT_TYPES"
  "AGENT_ACTION_TAKEN \<in> set ALL_EVENT_TYPES"
  "AGENT_ESCALATION_REQUESTED \<in> set ALL_EVENT_TYPES"
  "AGENT_ESCALATION_RESOLVED \<in> set ALL_EVENT_TYPES"
  "AGENT_BLOCKED \<in> set ALL_EVENT_TYPES"
  "TENANT_CREATED \<in> set ALL_EVENT_TYPES"
  "TENANT_DOMAIN_VERIFIED \<in> set ALL_EVENT_TYPES"
  "TENANT_SETTINGS_CHANGED \<in> set ALL_EVENT_TYPES"
  "TENANT_SUSPENDED \<in> set ALL_EVENT_TYPES"
  "IMPORT_STARTED \<in> set ALL_EVENT_TYPES"
  "IMPORT_COMPLETED \<in> set ALL_EVENT_TYPES"
  "IMPORT_ROLLED_BACK \<in> set ALL_EVENT_TYPES"
  "POSTAL_DISPATCHED \<in> set ALL_EVENT_TYPES"
  "POSTAL_FAILED \<in> set ALL_EVENT_TYPES"
  by (simp_all add: ALL_EVENT_TYPES_def)

subsection \<open>Errors of the audit layer\<close>

datatype audit_error =
    UnknownEventType string
  | MustBeInTransaction
  | MustNotBeInTransaction

subsection \<open>Emitting an event\<close>

definition new_event :: "string \<Rightarrow> string \<Rightarrow> nat \<Rightarrow> dict \<Rightarrow> dict \<Rightarrow> string \<Rightarrow> string \<Rightarrow> 'z core_db_scheme \<Rightarrow> outbox_event" where
  "new_event event_type subject tenant data actor origin trace_id db =
     \<lparr>ev_pk = Suc (seq db), event_id = draw_ulid db, ev_type = event_type, ev_version = 1,
      occurred_at = wall db, ev_subject = subject, ev_tenant = tenant, ev_actor = actor,
      ev_origin = origin, ev_trace_id = trace_id, ev_data = data, ev_status = EvPending,
      payload_nulled_at = None, ev_created_at = wall db, dispatched_at = None, ev_delivered_at = None\<rparr>"

text \<open>\<^verbatim>\<open>emit\<close>: one \<^verbatim>\<open>OutboxEvent\<close> row in the caller's transaction. \<open>version\<close> is its default, which no
  caller changes; the \<^verbatim>\<open>pg_notify\<close> on commit is a wake-up hint without state.\<close>

definition emit :: "string \<Rightarrow> string \<Rightarrow> nat \<Rightarrow> dict \<Rightarrow> dict \<Rightarrow> string \<Rightarrow> string \<Rightarrow> 'z core_db_scheme
    \<Rightarrow> audit_error + outbox_event \<times> 'z core_db_scheme" where
  "emit event_type subject tenant data actor origin trace_id db =
     (if event_type \<notin> set ALL_EVENT_TYPES then Inl (UnknownEventType event_type)
      else let event = new_event event_type subject tenant data actor origin trace_id db
           in Inr (event, db\<lparr>outbox := outbox db @ [event], seq := Suc (seq db), draws := Suc (draws db)\<rparr>))"

subsection \<open>Queueing a message\<close>

definition new_message :: "nat \<Rightarrow> string \<Rightarrow> string \<Rightarrow> string \<Rightarrow> string \<Rightarrow> instant \<Rightarrow> 'z core_db_scheme \<Rightarrow> message" where
  "new_message tenant kind address subject body expires_at db =
     \<lparr>ms_pk = Suc (seq db), message_id = draw_ulid db, ms_tenant = tenant, ms_kind = kind,
      to_address = Some address, ms_subject = subject, body_text = Some body, ms_status = MsPending,
      ms_attempt = 0, ms_next_attempt_at = wall db, ms_expires_at = expires_at,
      ms_first_attempted_at = None, ms_last_attempted_at = None, ms_last_error = [],
      sent_at = None, ms_created_at = wall db\<rparr>"

text \<open>\<^verbatim>\<open>enqueue\<close>: refused outside a transaction. That \<open>expires_at\<close> is present and aware is in its
  type.\<close>

definition enqueue :: "nat \<Rightarrow> string \<Rightarrow> string \<Rightarrow> string \<Rightarrow> string \<Rightarrow> instant \<Rightarrow> 'z core_db_scheme
    \<Rightarrow> audit_error + message \<times> 'z core_db_scheme" where
  "enqueue tenant kind address subject body expires_at db =
     (if \<not> in_atomic db then Inl MustBeInTransaction
      else let m = new_message tenant kind address subject body expires_at db
           in Inr (m, db\<lparr>mail := mail db @ [m], seq := Suc (seq db), draws := Suc (draws db)\<rparr>))"

subsection \<open>The command log\<close>

definition require_autocommit :: "'z core_db_scheme \<Rightarrow> audit_error + unit" where
  "require_autocommit db = (if in_atomic db then Inl MustNotBeInTransaction else Inr ())"

text \<open>\<^verbatim>\<open>key or None\<close>: an empty idempotency key is stored as null.\<close>

definition or_none :: "string option \<Rightarrow> string option" where
  "or_none k = (if k = Some [] then None else k)"

text \<open>\<open>log_received\<close> returns the unconcluded row. Its JSON coercion is the identity on the documents
  the commands pass.\<close>

definition log_received :: "string \<Rightarrow> nat option \<Rightarrow> string option \<Rightarrow> dict \<Rightarrow> string \<Rightarrow> string \<Rightarrow> json option
    \<Rightarrow> 'z core_db_scheme \<Rightarrow> command_row \<times> 'z core_db_scheme" where
  "log_received command tenant key actor trace_id origin payload db =
     (let row = \<lparr>cmd_pk = Suc (seq db), cmd_command = command, cmd_idempotency_key = or_none key,
                 cmd_tenant = tenant, cmd_adapter_id = origin, cmd_actor = actor, cmd_trace_id = trace_id,
                 cmd_payload = payload, cmd_received_at = wall db, cmd_outcome = None,
                 cmd_result_event_id = [], cmd_problem = None, cmd_concluded_at = None\<rparr>
      in (row, db\<lparr>commands := commands db @ [row], seq := Suc (seq db)\<rparr>))"

text \<open>\<open>new_payload = None\<close> is the sentinel \<^verbatim>\<open>_KEEP\<close>.\<close>

definition log_conclude :: "command_row \<Rightarrow> string \<Rightarrow> string \<Rightarrow> json option \<Rightarrow> json option
    \<Rightarrow> 'z core_db_scheme \<Rightarrow> 'z core_db_scheme" where
  "log_conclude row outcome result_event_id problem new_payload db =
     db\<lparr>commands := update_where (\<lambda>r. cmd_pk r = cmd_pk row)
       (\<lambda>r. (case new_payload of None \<Rightarrow> r | Some p \<Rightarrow> r\<lparr>cmd_payload := Some p\<rparr>)
          \<lparr>cmd_outcome := Some outcome, cmd_result_event_id := result_event_id,
           cmd_problem := problem, cmd_concluded_at := Some (wall db)\<rparr>) (commands db)\<rparr>"

definition log_replay :: "string \<Rightarrow> nat option \<Rightarrow> string option \<Rightarrow> dict \<Rightarrow> string \<Rightarrow> command_row
    \<Rightarrow> 'z core_db_scheme \<Rightarrow> 'z core_db_scheme" where
  "log_replay command tenant key actor trace_id prior db =
     db\<lparr>commands := commands db @
          [\<lparr>cmd_pk = Suc (seq db), cmd_command = command, cmd_idempotency_key = or_none key,
            cmd_tenant = tenant, cmd_adapter_id = [], cmd_actor = actor, cmd_trace_id = trace_id,
            cmd_payload = None, cmd_received_at = wall db, cmd_outcome = Some ''applied'',
            cmd_result_event_id = cmd_result_event_id prior,
            cmd_problem = Some (JObj [(''idempotent_replay'', JBool True)]),
            cmd_concluded_at = Some (wall db)\<rparr>],
        seq := Suc (seq db)\<rparr>"

subsection \<open>Who an operator is\<close>

definition active_membership :: "nat \<Rightarrow> operator \<Rightarrow> 'z core_db_scheme \<Rightarrow> membership option" where
  "active_membership tenant operator db =
     find (\<lambda>m. mb_operator m = op_pk operator \<and> mb_tenant m = tenant \<and> mb_status m = MbActive) (memberships db)"

text \<open>The actor document of a staff command.\<close>

definition staff_actor :: "operator \<Rightarrow> membership option \<Rightarrow> dict" where
  "staff_actor operator m =
     [(''type'', JStr (if (case m of None \<Rightarrow> False | Some mb \<Rightarrow> ROLE_ADMIN \<le> mb_role mb) then ''admin'' else ''staff'')),
      (''id'', JStr (op_public_id operator))]"

end
