(* ===== verification/Machine.thy ===== *)
theory Machine
  imports Audit_Store
begin

section \<open>The entitlement state machine\<close>

text \<open>
  \<^verbatim>\<open>billing/machine.py\<close>: the transition table as data. \<open>build\<close> replays the loops and the
  \<^verbatim>\<open>add\<close> calls of \<^verbatim>\<open>_build\<close> in their order, with the assertion that no key is added twice as
  the failure \<open>None\<close>; \<open>TRANSITIONS\<close> is its result, \<open>rule_for\<close> the guarded lookup and \<open>is_due\<close> the
  clock conditions. The entitlement row (\<^verbatim>\<open>billing/models.py\<close>) is here because \<open>is_due\<close> reads it.
  The lemmas show that the table is well built, what it allows, that a due clock trigger is always
  legal, and that at most one clock trigger is due at a time.
\<close>

named_theorems machine_simps \<open>evaluation of the transition table\<close>

subsection \<open>Statuses, triggers and the row\<close>

datatype status =
  S_NONE | S_TRIALING | S_ACTIVE | S_PAST_DUE | S_GRACE | S_EXPIRED | S_CANCELED | S_COMPED

datatype billing_mode = B_RECURRING | B_TERM | B_COMP | B_NONE

datatype trigger =
    T_START | T_START_TRIAL | T_PAYMENT_SUCCEEDED | T_PAYMENT_FAILED | T_REFUND | T_SUBSCRIPTION_ENDED
  | T_CANCEL
  | T_TERM_ENDED | T_DUNNING_ELAPSED | T_GRACE_ELAPSED | T_PERIOD_ELAPSED | T_COMP_EXPIRED | T_TRIAL_OVERDUE
  | T_GRANT | T_REVOKE | T_OVERRIDE

text \<open>The stored text of a status (\<^verbatim>\<open>S.values\<close>) and its inverse.\<close>

fun status_value :: "status \<Rightarrow> string" where
  "status_value S_NONE = ''none''"
| "status_value S_TRIALING = ''trialing''"
| "status_value S_ACTIVE = ''active''"
| "status_value S_PAST_DUE = ''past_due''"
| "status_value S_GRACE = ''grace''"
| "status_value S_EXPIRED = ''expired''"
| "status_value S_CANCELED = ''canceled''"
| "status_value S_COMPED = ''comped''"

definition ANY_STATUS :: "status list" where
  "ANY_STATUS = [S_NONE, S_TRIALING, S_ACTIVE, S_PAST_DUE, S_GRACE, S_EXPIRED, S_CANCELED, S_COMPED]"

definition status_of :: "string \<Rightarrow> status option" where
  "status_of s = find (\<lambda>st. status_value st = s) ANY_STATUS"

fun mode_value :: "billing_mode \<Rightarrow> string" where
  "mode_value B_RECURRING = ''recurring''"
| "mode_value B_TERM = ''term''"
| "mode_value B_COMP = ''comp''"
| "mode_value B_NONE = ''none''"

record entitlement =
  ent_pk :: nat
  ent_tenant :: nat
  ent_listing :: nat
  ent_public_id :: string
  ent_tier :: nat
  ent_status :: status
  ent_billing_mode :: billing_mode
  term_days :: "int option"
  started_at :: "instant option"
  current_period_end :: "instant option"
  trial_ends_at :: "instant option"
  dunning_started_at :: "instant option"
  grace_ends_at :: "instant option"
  cancel_at_period_end :: bool
  dunning_ends_at :: "instant option"
  failed_attempts :: int
  last_failure_code :: string
  canceled_at :: "instant option"
  canceled_by :: string
  renewal_notified_at :: "instant option"
  hidden_by_expiry :: bool
  comp_granted_by :: "string option"
  comp_reason :: string
  comp_expires_at :: "instant option"
  payment_ref :: dict
  ent_updated_at :: instant

subsection \<open>Windows\<close>

definition DUNNING :: duration where
  [time_simps]: "DUNNING = days 14"

definition GRACE :: duration where
  [time_simps]: "GRACE = days 30"

definition TRIAL_OVERDUE :: duration where
  [time_simps]: "TRIAL_OVERDUE = days 3"

definition RENEWAL_NOTICE :: duration where
  [time_simps]: "RENEWAL_NOTICE = days 10"

subsection \<open>The table\<close>

definition PERK_STATUSES :: "status list" where
  "PERK_STATUSES = [S_TRIALING, S_ACTIVE, S_PAST_DUE, S_CANCELED, S_COMPED]"

definition PAID_STATUSES :: "status list" where
  "PAID_STATUSES = [S_TRIALING, S_ACTIVE, S_PAST_DUE, S_GRACE, S_CANCELED]"

text \<open>\<open>rule_to = None\<close> is the table's \<^verbatim>\<open>"*"\<close>: an override lands where its parameter says.\<close>

record rule =
  rule_to :: "status option"
  rule_events :: "string list"
  expired_cause :: string
  tier_cause :: string
  rule_row :: string

definition mk_rule :: "status \<Rightarrow> string list \<Rightarrow> string \<Rightarrow> string \<Rightarrow> string \<Rightarrow> rule" where
  "mk_rule to evs cause tier row =
     \<lparr>rule_to = Some to, rule_events = evs, expired_cause = cause, tier_cause = tier, rule_row = row\<rparr>"

definition STARTED :: string where
  "STARTED = ''entitlement.started''"
definition CONVERTED :: string where
  "CONVERTED = ''entitlement.trial_converted''"
definition DUNNING_STARTED :: string where
  "DUNNING_STARTED = ''entitlement.dunning_started''"
definition RECOVERED :: string where
  "RECOVERED = ''entitlement.recovered''"
definition DOWNGRADED :: string where
  "DOWNGRADED = ''entitlement.downgraded''"
definition RESTORED :: string where
  "RESTORED = ''entitlement.restored''"
definition EXPIRED :: string where
  "EXPIRED = ''entitlement.expired''"
definition CANCELED :: string where
  "CANCELED = ''entitlement.canceled''"
definition OVERRIDDEN :: string where
  "OVERRIDDEN = ''entitlement.overridden''"

type_synonym table = "((status \<times> trigger) \<times> rule) list"

text \<open>The calls of \<^verbatim>\<open>add\<close>, in the order \<^verbatim>\<open>_build\<close> makes them.\<close>

definition table_entries :: table where
  "table_entries =
     map (\<lambda>frm. ((frm, T_START), mk_rule S_ACTIVE [STARTED] [] ''purchase''
                   (if frm = S_NONE then ''2'' else ''G1/G2/G5'')))
       [S_NONE, S_EXPIRED, S_COMPED, S_CANCELED]
   @ map (\<lambda>frm. ((frm, T_START_TRIAL), mk_rule S_TRIALING [STARTED] [] ''purchase''
                   (if frm = S_NONE then ''1'' else ''G1'')))
       [S_NONE, S_EXPIRED]
   @ [((S_TRIALING, T_PAYMENT_SUCCEEDED), mk_rule S_ACTIVE [CONVERTED] [] [] ''3''),
      ((S_TRIALING, T_PAYMENT_FAILED), mk_rule S_PAST_DUE [DUNNING_STARTED] [] [] ''4''),
      ((S_TRIALING, T_CANCEL), mk_rule S_CANCELED [CANCELED] [] [] ''5''),
      ((S_TRIALING, T_TRIAL_OVERDUE), mk_rule S_PAST_DUE [DUNNING_STARTED] [] [] ''G8''),
      ((S_ACTIVE, T_PAYMENT_SUCCEEDED), mk_rule S_ACTIVE [] [] ''upgrade'' ''G6''),
      ((S_ACTIVE, T_PAYMENT_FAILED), mk_rule S_PAST_DUE [DUNNING_STARTED] [] [] ''6''),
      ((S_ACTIVE, T_CANCEL), mk_rule S_CANCELED [CANCELED] [] [] ''7''),
      ((S_ACTIVE, T_TERM_ENDED), mk_rule S_EXPIRED [EXPIRED] ''term_ended'' ''expiry'' ''9''),
      ((S_PAST_DUE, T_PAYMENT_SUCCEEDED), mk_rule S_ACTIVE [RECOVERED] [] [] ''10''),
      ((S_PAST_DUE, T_PAYMENT_FAILED), mk_rule S_PAST_DUE [] [] [] ''G6''),
      ((S_PAST_DUE, T_DUNNING_ELAPSED), mk_rule S_GRACE [DOWNGRADED] [] ''grace'' ''11''),
      ((S_PAST_DUE, T_CANCEL), mk_rule S_CANCELED [CANCELED] [] [] ''G3''),
      ((S_GRACE, T_PAYMENT_SUCCEEDED), mk_rule S_ACTIVE [RESTORED] [] ''restore'' ''12''),
      ((S_GRACE, T_PAYMENT_FAILED), mk_rule S_GRACE [] [] [] ''G6''),
      ((S_GRACE, T_GRACE_ELAPSED), mk_rule S_EXPIRED [EXPIRED] ''grace_elapsed'' ''expiry'' ''13''),
      ((S_GRACE, T_CANCEL), mk_rule S_EXPIRED [CANCELED, EXPIRED] ''canceled'' ''expiry'' ''G3''),
      ((S_CANCELED, T_PAYMENT_SUCCEEDED), mk_rule S_ACTIVE [RESTORED] [] [] ''G2''),
      ((S_CANCELED, T_PERIOD_ELAPSED), mk_rule S_EXPIRED [EXPIRED] ''period_ended'' ''expiry'' ''14''),
      ((S_COMPED, T_PAYMENT_SUCCEEDED), mk_rule S_ACTIVE [] [] ''purchase'' ''G5''),
      ((S_COMPED, T_COMP_EXPIRED), mk_rule S_EXPIRED [EXPIRED] ''comp_expired'' ''expiry'' ''15''),
      ((S_COMPED, T_REVOKE), mk_rule S_EXPIRED [OVERRIDDEN, EXPIRED] ''revoked'' ''revoke'' ''G9'')]
   @ concat (map (\<lambda>frm.
       [((frm, T_REFUND), mk_rule S_EXPIRED [EXPIRED] ''refund'' ''refund''
                            (if frm = S_ACTIVE then ''8'' else ''G4'')),
        ((frm, T_SUBSCRIPTION_ENDED), mk_rule S_EXPIRED [EXPIRED] ''canceled'' ''expiry'' ''G7'')])
       PAID_STATUSES)
   @ concat (map (\<lambda>frm.
       [((frm, T_GRANT), mk_rule S_COMPED [OVERRIDDEN] [] ''comp'' ''16''),
        ((frm, T_OVERRIDE), (mk_rule S_NONE [OVERRIDDEN] [] ''override'' ''16'')\<lparr>rule_to := None\<rparr>)])
       ANY_STATUS)"

text \<open>\<^verbatim>\<open>add\<close> asserts that its key is new: a second entry for a key is \<open>None\<close>.\<close>

fun add_all :: "table \<Rightarrow> table \<Rightarrow> table option" where
  "add_all t [] = Some t"
| "add_all t ((key, r) # es) = (if key \<in> fst ` set t then None else add_all (t @ [(key, r)]) es)"

definition build :: "table option" where
  "build = add_all [] table_entries"

definition TRANSITIONS :: "status \<times> trigger \<rightharpoonup> rule" where
  "TRANSITIONS = (case build of None \<Rightarrow> Map.empty | Some t \<Rightarrow> map_of t)"

datatype machine_error = InvalidTransition status trigger | NotDue trigger

definition rule_for :: "status \<Rightarrow> trigger \<Rightarrow> machine_error + rule" where
  "rule_for st tr = (case TRANSITIONS (st, tr) of
     None \<Rightarrow> Inl (InvalidTransition st tr) | Some r \<Rightarrow> Inr r)"

subsection \<open>The clock\<close>

definition at_or_before :: "instant option \<Rightarrow> instant \<Rightarrow> bool" where
  "at_or_before d now = (case d of None \<Rightarrow> False | Some t \<Rightarrow> t \<le> now)"

lemma at_or_before_simps [simp]: "\<not> at_or_before None now" "at_or_before (Some t) now \<longleftrightarrow> t \<le> now"
  by (simp_all add: at_or_before_def)

fun is_due :: "entitlement \<Rightarrow> trigger \<Rightarrow> instant \<Rightarrow> bool" where
  "is_due ent T_DUNNING_ELAPSED now =
     (ent_status ent = S_PAST_DUE \<and> at_or_before (dunning_ends_at ent) now)"
| "is_due ent T_GRACE_ELAPSED now =
     (ent_status ent = S_GRACE \<and> at_or_before (grace_ends_at ent) now)"
| "is_due ent T_PERIOD_ELAPSED now =
     (ent_status ent = S_CANCELED \<and> at_or_before (current_period_end ent) now)"
| "is_due ent T_COMP_EXPIRED now =
     (ent_status ent = S_COMPED \<and> at_or_before (comp_expires_at ent) now)"
| "is_due ent T_TERM_ENDED now =
     (ent_status ent = S_ACTIVE \<and> ent_billing_mode ent = B_TERM \<and> at_or_before (current_period_end ent) now)"
| "is_due ent T_TRIAL_OVERDUE now =
     (ent_status ent = S_TRIALING \<and>
      at_or_before (map_option (\<lambda>t. t + TRIAL_OVERDUE) (trial_ends_at ent)) now)"
| "is_due ent _ now = True"

definition CLOCK_TRIGGERS :: "trigger list" where
  "CLOCK_TRIGGERS = [T_DUNNING_ELAPSED, T_GRACE_ELAPSED, T_PERIOD_ELAPSED, T_COMP_EXPIRED, T_TERM_ENDED,
     T_TRIAL_OVERDUE]"

subsection \<open>The table is well built\<close>

lemma add_all_distinct:
  "distinct (map fst (t @ es)) \<Longrightarrow> add_all t es = Some (t @ es)"
  by (induction t es rule: add_all.induct) auto

lemma distinct_table_entries: "distinct (map fst table_entries)"
  by (simp add: table_entries_def PAID_STATUSES_def ANY_STATUS_def)

lemma build_eq: "build = Some table_entries"
  by (simp add: build_def add_all_distinct distinct_table_entries)

lemma rule_for_map_of:
  "rule_for st tr = (case map_of table_entries (st, tr) of
     None \<Rightarrow> Inl (InvalidTransition st tr) | Some r \<Rightarrow> Inr r)"
  by (simp add: rule_for_def TRANSITIONS_def build_eq)

text \<open>The entries of one trigger; the lookups below evaluate these short lists.\<close>

definition entries_for :: "trigger \<Rightarrow> (status \<times> rule) list" where
  "entries_for tr = map (\<lambda>e. (fst (fst e), snd e)) (filter (\<lambda>e. snd (fst e) = tr) table_entries)"

lemma map_of_entries_aux:
  "map_of es (st, tr) = map_of (map (\<lambda>e. (fst (fst e), snd e)) (filter (\<lambda>e. snd (fst e) = tr) es)) st"
  by (induction es) auto

lemma rule_for_entries:
  "rule_for st tr = (case map_of (entries_for tr) st of
     None \<Rightarrow> Inl (InvalidTransition st tr) | Some r \<Rightarrow> Inr r)"
  by (simp only: rule_for_map_of entries_for_def map_of_entries_aux [of table_entries])

lemma entries_for_simps:
  "entries_for T_START =
     [(S_NONE, mk_rule S_ACTIVE [STARTED] [] ''purchase'' ''2''),
      (S_EXPIRED, mk_rule S_ACTIVE [STARTED] [] ''purchase'' ''G1/G2/G5''),
      (S_COMPED, mk_rule S_ACTIVE [STARTED] [] ''purchase'' ''G1/G2/G5''),
      (S_CANCELED, mk_rule S_ACTIVE [STARTED] [] ''purchase'' ''G1/G2/G5'')]"
  "entries_for T_START_TRIAL =
     [(S_NONE, mk_rule S_TRIALING [STARTED] [] ''purchase'' ''1''),
      (S_EXPIRED, mk_rule S_TRIALING [STARTED] [] ''purchase'' ''G1'')]"
  "entries_for T_PAYMENT_SUCCEEDED =
     [(S_TRIALING, mk_rule S_ACTIVE [CONVERTED] [] [] ''3''),
      (S_ACTIVE, mk_rule S_ACTIVE [] [] ''upgrade'' ''G6''),
      (S_PAST_DUE, mk_rule S_ACTIVE [RECOVERED] [] [] ''10''),
      (S_GRACE, mk_rule S_ACTIVE [RESTORED] [] ''restore'' ''12''),
      (S_CANCELED, mk_rule S_ACTIVE [RESTORED] [] [] ''G2''),
      (S_COMPED, mk_rule S_ACTIVE [] [] ''purchase'' ''G5'')]"
  "entries_for T_PAYMENT_FAILED =
     [(S_TRIALING, mk_rule S_PAST_DUE [DUNNING_STARTED] [] [] ''4''),
      (S_ACTIVE, mk_rule S_PAST_DUE [DUNNING_STARTED] [] [] ''6''),
      (S_PAST_DUE, mk_rule S_PAST_DUE [] [] [] ''G6''),
      (S_GRACE, mk_rule S_GRACE [] [] [] ''G6'')]"
  "entries_for T_REFUND =
     [(S_TRIALING, mk_rule S_EXPIRED [EXPIRED] ''refund'' ''refund'' ''G4''),
      (S_ACTIVE, mk_rule S_EXPIRED [EXPIRED] ''refund'' ''refund'' ''8''),
      (S_PAST_DUE, mk_rule S_EXPIRED [EXPIRED] ''refund'' ''refund'' ''G4''),
      (S_GRACE, mk_rule S_EXPIRED [EXPIRED] ''refund'' ''refund'' ''G4''),
      (S_CANCELED, mk_rule S_EXPIRED [EXPIRED] ''refund'' ''refund'' ''G4'')]"
  "entries_for T_SUBSCRIPTION_ENDED =
     [(S_TRIALING, mk_rule S_EXPIRED [EXPIRED] ''canceled'' ''expiry'' ''G7''),
      (S_ACTIVE, mk_rule S_EXPIRED [EXPIRED] ''canceled'' ''expiry'' ''G7''),
      (S_PAST_DUE, mk_rule S_EXPIRED [EXPIRED] ''canceled'' ''expiry'' ''G7''),
      (S_GRACE, mk_rule S_EXPIRED [EXPIRED] ''canceled'' ''expiry'' ''G7''),
      (S_CANCELED, mk_rule S_EXPIRED [EXPIRED] ''canceled'' ''expiry'' ''G7'')]"
  "entries_for T_CANCEL =
     [(S_TRIALING, mk_rule S_CANCELED [CANCELED] [] [] ''5''),
      (S_ACTIVE, mk_rule S_CANCELED [CANCELED] [] [] ''7''),
      (S_PAST_DUE, mk_rule S_CANCELED [CANCELED] [] [] ''G3''),
      (S_GRACE, mk_rule S_EXPIRED [CANCELED, EXPIRED] ''canceled'' ''expiry'' ''G3'')]"
  "entries_for T_TERM_ENDED =
     [(S_ACTIVE, mk_rule S_EXPIRED [EXPIRED] ''term_ended'' ''expiry'' ''9'')]"
  "entries_for T_DUNNING_ELAPSED =
     [(S_PAST_DUE, mk_rule S_GRACE [DOWNGRADED] [] ''grace'' ''11'')]"
  "entries_for T_GRACE_ELAPSED =
     [(S_GRACE, mk_rule S_EXPIRED [EXPIRED] ''grace_elapsed'' ''expiry'' ''13'')]"
  "entries_for T_PERIOD_ELAPSED =
     [(S_CANCELED, mk_rule S_EXPIRED [EXPIRED] ''period_ended'' ''expiry'' ''14'')]"
  "entries_for T_COMP_EXPIRED =
     [(S_COMPED, mk_rule S_EXPIRED [EXPIRED] ''comp_expired'' ''expiry'' ''15'')]"
  "entries_for T_TRIAL_OVERDUE =
     [(S_TRIALING, mk_rule S_PAST_DUE [DUNNING_STARTED] [] [] ''G8'')]"
  "entries_for T_REVOKE =
     [(S_COMPED, mk_rule S_EXPIRED [OVERRIDDEN, EXPIRED] ''revoked'' ''revoke'' ''G9'')]"
  "entries_for T_GRANT = map (\<lambda>st. (st, mk_rule S_COMPED [OVERRIDDEN] [] ''comp'' ''16'')) ANY_STATUS"
  "entries_for T_OVERRIDE =
     map (\<lambda>st. (st, (mk_rule S_NONE [OVERRIDDEN] [] ''override'' ''16'')\<lparr>rule_to := None\<rparr>)) ANY_STATUS"
  by (simp_all add: entries_for_def table_entries_def PAID_STATUSES_def ANY_STATUS_def)

lemmas table_eval = rule_for_entries entries_for_simps PAID_STATUSES_def ANY_STATUS_def

text \<open>The table read one trigger at a time: where it is legal and with which rule.\<close>

lemma rule_for_starting [machine_simps]:
  "rule_for st T_START =
     (if st \<in> {S_NONE, S_EXPIRED, S_COMPED, S_CANCELED}
      then Inr (mk_rule S_ACTIVE [STARTED] [] ''purchase'' (if st = S_NONE then ''2'' else ''G1/G2/G5''))
      else Inl (InvalidTransition st T_START))"
  "rule_for st T_START_TRIAL =
     (if st \<in> {S_NONE, S_EXPIRED}
      then Inr (mk_rule S_TRIALING [STARTED] [] ''purchase'' (if st = S_NONE then ''1'' else ''G1''))
      else Inl (InvalidTransition st T_START_TRIAL))"
  by (cases st; simp add: table_eval)+

lemma rule_for_payment [machine_simps]:
  "rule_for st T_PAYMENT_SUCCEEDED = (case st of
      S_TRIALING \<Rightarrow> Inr (mk_rule S_ACTIVE [CONVERTED] [] [] ''3'')
    | S_ACTIVE \<Rightarrow> Inr (mk_rule S_ACTIVE [] [] ''upgrade'' ''G6'')
    | S_PAST_DUE \<Rightarrow> Inr (mk_rule S_ACTIVE [RECOVERED] [] [] ''10'')
    | S_GRACE \<Rightarrow> Inr (mk_rule S_ACTIVE [RESTORED] [] ''restore'' ''12'')
    | S_CANCELED \<Rightarrow> Inr (mk_rule S_ACTIVE [RESTORED] [] [] ''G2'')
    | S_COMPED \<Rightarrow> Inr (mk_rule S_ACTIVE [] [] ''purchase'' ''G5'')
    | _ \<Rightarrow> Inl (InvalidTransition st T_PAYMENT_SUCCEEDED))"
  "rule_for st T_PAYMENT_FAILED = (case st of
      S_TRIALING \<Rightarrow> Inr (mk_rule S_PAST_DUE [DUNNING_STARTED] [] [] ''4'')
    | S_ACTIVE \<Rightarrow> Inr (mk_rule S_PAST_DUE [DUNNING_STARTED] [] [] ''6'')
    | S_PAST_DUE \<Rightarrow> Inr (mk_rule S_PAST_DUE [] [] [] ''G6'')
    | S_GRACE \<Rightarrow> Inr (mk_rule S_GRACE [] [] [] ''G6'')
    | _ \<Rightarrow> Inl (InvalidTransition st T_PAYMENT_FAILED))"
  by (cases st; simp add: table_eval)+

lemma rule_for_ending [machine_simps]:
  "rule_for st T_CANCEL = (case st of
      S_TRIALING \<Rightarrow> Inr (mk_rule S_CANCELED [CANCELED] [] [] ''5'')
    | S_ACTIVE \<Rightarrow> Inr (mk_rule S_CANCELED [CANCELED] [] [] ''7'')
    | S_PAST_DUE \<Rightarrow> Inr (mk_rule S_CANCELED [CANCELED] [] [] ''G3'')
    | S_GRACE \<Rightarrow> Inr (mk_rule S_EXPIRED [CANCELED, EXPIRED] ''canceled'' ''expiry'' ''G3'')
    | _ \<Rightarrow> Inl (InvalidTransition st T_CANCEL))"
  "rule_for st T_REFUND =
     (if st \<in> set PAID_STATUSES
      then Inr (mk_rule S_EXPIRED [EXPIRED] ''refund'' ''refund'' (if st = S_ACTIVE then ''8'' else ''G4''))
      else Inl (InvalidTransition st T_REFUND))"
  "rule_for st T_SUBSCRIPTION_ENDED =
     (if st \<in> set PAID_STATUSES then Inr (mk_rule S_EXPIRED [EXPIRED] ''canceled'' ''expiry'' ''G7'')
      else Inl (InvalidTransition st T_SUBSCRIPTION_ENDED))"
  by (cases st; simp add: table_eval)+

lemma rule_for_clock [machine_simps]:
  "rule_for st T_TERM_ENDED =
     (if st = S_ACTIVE then Inr (mk_rule S_EXPIRED [EXPIRED] ''term_ended'' ''expiry'' ''9'')
      else Inl (InvalidTransition st T_TERM_ENDED))"
  "rule_for st T_DUNNING_ELAPSED =
     (if st = S_PAST_DUE then Inr (mk_rule S_GRACE [DOWNGRADED] [] ''grace'' ''11'')
      else Inl (InvalidTransition st T_DUNNING_ELAPSED))"
  "rule_for st T_GRACE_ELAPSED =
     (if st = S_GRACE then Inr (mk_rule S_EXPIRED [EXPIRED] ''grace_elapsed'' ''expiry'' ''13'')
      else Inl (InvalidTransition st T_GRACE_ELAPSED))"
  "rule_for st T_PERIOD_ELAPSED =
     (if st = S_CANCELED then Inr (mk_rule S_EXPIRED [EXPIRED] ''period_ended'' ''expiry'' ''14'')
      else Inl (InvalidTransition st T_PERIOD_ELAPSED))"
  "rule_for st T_COMP_EXPIRED =
     (if st = S_COMPED then Inr (mk_rule S_EXPIRED [EXPIRED] ''comp_expired'' ''expiry'' ''15'')
      else Inl (InvalidTransition st T_COMP_EXPIRED))"
  "rule_for st T_TRIAL_OVERDUE =
     (if st = S_TRIALING then Inr (mk_rule S_PAST_DUE [DUNNING_STARTED] [] [] ''G8'')
      else Inl (InvalidTransition st T_TRIAL_OVERDUE))"
  by (cases st; simp add: table_eval)+

lemma rule_for_operator [machine_simps]:
  "rule_for st T_GRANT = Inr (mk_rule S_COMPED [OVERRIDDEN] [] ''comp'' ''16'')"
  "rule_for st T_REVOKE =
     (if st = S_COMPED then Inr (mk_rule S_EXPIRED [OVERRIDDEN, EXPIRED] ''revoked'' ''revoke'' ''G9'')
      else Inl (InvalidTransition st T_REVOKE))"
  "rule_for st T_OVERRIDE =
     Inr ((mk_rule S_NONE [OVERRIDDEN] [] ''override'' ''16'')\<lparr>rule_to := None\<rparr>)"
  by (cases st; simp add: table_eval)+

lemma mk_rule_simps [simp]:
  "rule_to (mk_rule to evs cause tier row) = Some to"
  "rule_events (mk_rule to evs cause tier row) = evs"
  "expired_cause (mk_rule to evs cause tier row) = cause"
  "tier_cause (mk_rule to evs cause tier row) = tier"
  by (simp_all add: mk_rule_def)

lemma rule_for_Inl: "rule_for st tr = Inl e \<Longrightarrow> e = InvalidTransition st tr"
  by (auto simp: rule_for_def split: option.splits)

subsection \<open>Status text\<close>

lemma status_of_value [simp]: "status_of (status_value st) = Some st"
  by (cases st) (simp_all add: status_of_def ANY_STATUS_def)

lemma status_of_SomeD: "status_of s = Some st \<Longrightarrow> status_value st = s"
  by (auto simp: status_of_def dest: find_SomeD)

subsection \<open>Event names\<close>

lemmas machine_events = STARTED_def CONVERTED_def DUNNING_STARTED_def RECOVERED_def DOWNGRADED_def
  RESTORED_def EXPIRED_def CANCELED_def OVERRIDDEN_def

lemma machine_events_known [simp]:
  "STARTED \<in> set ALL_EVENT_TYPES" "CONVERTED \<in> set ALL_EVENT_TYPES"
  "DUNNING_STARTED \<in> set ALL_EVENT_TYPES" "RECOVERED \<in> set ALL_EVENT_TYPES"
  "DOWNGRADED \<in> set ALL_EVENT_TYPES" "RESTORED \<in> set ALL_EVENT_TYPES"
  "EXPIRED \<in> set ALL_EVENT_TYPES" "CANCELED \<in> set ALL_EVENT_TYPES"
  "OVERRIDDEN \<in> set ALL_EVENT_TYPES"
  using known_event_types
  by (simp_all add: machine_events ENTITLEMENT_STARTED_def ENTITLEMENT_TRIAL_CONVERTED_def
      ENTITLEMENT_DUNNING_STARTED_def ENTITLEMENT_RECOVERED_def ENTITLEMENT_DOWNGRADED_def
      ENTITLEMENT_RESTORED_def ENTITLEMENT_EXPIRED_def ENTITLEMENT_CANCELED_def
      ENTITLEMENT_OVERRIDDEN_def)

lemma machine_events_distinct [simp]:
  "distinct [STARTED, CONVERTED, DUNNING_STARTED, RECOVERED, DOWNGRADED, RESTORED, EXPIRED, CANCELED,
     OVERRIDDEN]"
  by (simp add: machine_events)

lemma rule_events_known:
  "rule_for st tr = Inr r \<Longrightarrow> set (rule_events r) \<subseteq> set ALL_EVENT_TYPES"
  by (cases tr; cases st) (auto simp: machine_simps PAID_STATUSES_def)

subsection \<open>The clock against the table\<close>

lemma due_legal:
  "tr \<in> set CLOCK_TRIGGERS \<Longrightarrow> is_due ent tr now \<Longrightarrow> \<exists>r. rule_for (ent_status ent) tr = Inr r"
  by (cases tr) (auto simp: CLOCK_TRIGGERS_def machine_simps)

lemma due_unique:
  "tr \<in> set CLOCK_TRIGGERS \<Longrightarrow> tr' \<in> set CLOCK_TRIGGERS \<Longrightarrow> is_due ent tr now \<Longrightarrow> is_due ent tr' now
   \<Longrightarrow> tr = tr'"
  by (cases tr; cases tr') (auto simp: CLOCK_TRIGGERS_def)

lemma is_due_mono:
  "is_due ent tr now \<Longrightarrow> now \<le> now' \<Longrightarrow> is_due ent tr now'"
  by (cases tr) (auto simp: at_or_before_def split: option.splits)

text \<open>C8: The clock never fights the table: a clock trigger that is due is legal for the entitlement's
  status, stays due as time passes, and no other clock trigger is due at the same time.\<close>
theorem clock_due_legal_unique:
  assumes "tr \<in> set CLOCK_TRIGGERS" "is_due ent tr now"
  shows "(\<exists>r. rule_for (ent_status ent) tr = Inr r) \<and> (\<forall>now'. now \<le> now' \<longrightarrow> is_due ent tr now')
    \<and> (\<forall>tr' \<in> set CLOCK_TRIGGERS. is_due ent tr' now \<longrightarrow> tr' = tr)"
  using assms due_legal due_unique is_due_mono by blast

definition sample_overdue :: entitlement where
  "sample_overdue = \<lparr>ent_pk = 1, ent_tenant = 1, ent_listing = 1, ent_public_id = ''ent_1'', ent_tier = 1,
     ent_status = S_PAST_DUE, ent_billing_mode = B_RECURRING, term_days = None, started_at = Some 0,
     current_period_end = Some 0, trial_ends_at = None, dunning_started_at = Some 0, grace_ends_at = None,
     cancel_at_period_end = False, dunning_ends_at = Some DUNNING, failed_attempts = 1,
     last_failure_code = [], canceled_at = None, canceled_by = [], renewal_notified_at = None,
     hidden_by_expiry = False, comp_granted_by = None, comp_reason = [], comp_expires_at = None,
     payment_ref = [], ent_updated_at = 0\<rparr>"

theorem clock_due_legal_unique_witness:
  "is_due sample_overdue T_DUNNING_ELAPSED (days 14) \<and> (\<exists>r. rule_for S_PAST_DUE T_DUNNING_ELAPSED = Inr r)"
  using clock_due_legal_unique [of T_DUNNING_ELAPSED sample_overdue "days 14"]
  by (simp add: CLOCK_TRIGGERS_def sample_overdue_def DUNNING_def)

end
