(* ===== verification/Listings.thy ===== *)
theory Listings
  imports Audit_Store
begin

section \<open>Listings: the row, its projection, its visibility\<close>

text \<open>
  The part of the directory app that billing and redaction rest on: the listing row and its owner
  (\<^verbatim>\<open>directory/models.py\<close>), the projection and the JSON patch of \<^verbatim>\<open>directory/patch.py\<close>, absolute URLs
  (\<^verbatim>\<open>directory/routing.py\<close>) and \<^verbatim>\<open>set_listing_visibility\<close> of \<^verbatim>\<open>directory/services.py\<close>, which
  publishes and hides a listing and emits the matching event. A listing's categories are kept as
  their slugs and its media as the document the media service writes.
\<close>

subsection \<open>Rows\<close>

datatype visibility = V_DRAFT | V_PUBLISHED | V_HIDDEN

fun visibility_value :: "visibility \<Rightarrow> string" where
  "visibility_value V_DRAFT = ''draft''"
| "visibility_value V_PUBLISHED = ''published''"
| "visibility_value V_HIDDEN = ''hidden''"

datatype listing_status = L_UNCLAIMED | L_CLAIMED | L_SUSPENDED

record media =
  logo :: json
  cover :: json
  gallery :: "json list"

record listing =
  ls_pk :: nat
  ls_tenant :: nat
  ls_type_key :: string
  ls_public_id :: string
  ls_slug :: string
  ls_name :: string
  description :: string
  ls_status :: listing_status
  visibility :: visibility
  current_tier :: "nat option"
  ls_owner :: "nat option"
  categories :: "string list"
  address_line1 :: string
  address_line2 :: string
  locality :: string
  region :: string
  postal_code :: string
  country :: string
  lat :: "int option"
  lon :: "int option"
  geo_precision :: string
  phone_e164 :: string
  email :: string
  website :: string
  social :: "json list"
  external_profiles :: dict
  attributes :: dict
  custom_fields :: dict
  ls_media :: media
  reviews_disabled :: bool
  source :: string
  provenance_notes :: string
  ls_updated_at :: instant
  ls_created_at :: instant
  ls_import_batch :: "nat option"
  ls_submitted_by :: "nat option"

text \<open>Of a listing type, what the redaction of its events reads.\<close>

record listing_type_row =
  lt_tenant :: nat
  lt_key :: string
  lt_fields :: "dict list"

record user =
  usr_pk :: nat
  usr_tenant :: nat
  usr_public_id :: string
  usr_email :: string
  usr_name :: string
  usr_phone_e164 :: string
  usr_created_at :: instant

record directory_db = core_db +
  listings :: "listing list"
  users :: "user list"

subsection \<open>Absolute URLs\<close>

definition has_absolute_base :: "tenant \<Rightarrow> bool" where
  "has_absolute_base tn =
     ((case primary_domain tn of None \<Rightarrow> False | Some d \<Rightarrow> d \<noteq> []) \<and> domain_verified_at tn \<noteq> None)"

definition absolute_url :: "tenant \<Rightarrow> string \<Rightarrow> string" where
  "absolute_url tn path =
     (if has_absolute_base tn
      then ''https://'' @ (case primary_domain tn of None \<Rightarrow> [] | Some d \<Rightarrow> d) @ path else path)"

subsection \<open>The projection and the patch\<close>

text \<open>\<^verbatim>\<open>_s\<close>: an empty string is null.\<close>

definition str_or_null :: "string \<Rightarrow> json" where
  "str_or_null s = (if s = [] then JNull else JStr s)"

definition num_or_null :: "int option \<Rightarrow> json" where
  "num_or_null n = jopt JDec n"

definition project :: "listing \<Rightarrow> dict" where
  "project l =
    [(''slug'', JStr (ls_slug l)),
     (''name'', JStr (ls_name l)),
     (''description'', str_or_null (description l)),
     (''categories'', JList (map JStr (sort (categories l)))),
     (''location'', JObj
        [(''address_line1'', str_or_null (address_line1 l)),
         (''address_line2'', str_or_null (address_line2 l)),
         (''locality'', str_or_null (locality l)),
         (''region'', str_or_null (region l)),
         (''postal_code'', str_or_null (postal_code l)),
         (''country'', str_or_null (country l)),
         (''lat'', num_or_null (lat l)),
         (''lon'', num_or_null (lon l)),
         (''geo_precision'', JStr (geo_precision l))]),
     (''contact'', JObj
        [(''phone_e164'', str_or_null (phone_e164 l)),
         (''email'', str_or_null (email l)),
         (''website'', str_or_null (website l)),
         (''social'', JList (social l))]),
     (''external_profiles'', JObj (external_profiles l)),
     (''attributes'', JObj (attributes l)),
     (''media'', JObj
        [(''logo'', logo (ls_media l)), (''cover'', cover (ls_media l)),
         (''gallery'', JList (gallery (ls_media l)))]),
     (''reviews_disabled'', JBool (reviews_disabled l)),
     (''custom_fields'', JObj (custom_fields l)),
     (''provenance'', JObj
        [(''source'', JStr (source l)), (''notes'', str_or_null (provenance_notes l))])]"

subsection \<open>Visibility\<close>

definition save_visibility :: "listing \<Rightarrow> visibility \<Rightarrow> 'z directory_db_scheme \<Rightarrow> 'z directory_db_scheme" where
  "save_visibility l v db =
     db\<lparr>listings := update_where (\<lambda>r. ls_pk r = ls_pk l)
         (\<lambda>r. r\<lparr>visibility := v, ls_updated_at := wall db\<rparr>) (listings db)\<rparr>"

text \<open>\<^verbatim>\<open>set_listing_visibility\<close>. The check that the value is one of the three visibilities is in the
  type of \<open>v\<close>.\<close>

definition set_listing_visibility :: "listing \<Rightarrow> visibility \<Rightarrow> dict \<Rightarrow> string \<Rightarrow> 'z directory_db_scheme
    \<Rightarrow> audit_error + listing \<times> 'z directory_db_scheme" where
  "set_listing_visibility l v actor reason =
     atomic (\<lambda>db.
       if visibility l = v then Inr (l, db)
       else
         let old = visibility l;
             l' = l\<lparr>visibility := v, ls_updated_at := wall db\<rparr>;
             db' = save_visibility l v db
         in if v = V_PUBLISHED then
              bind_result
                (emit LISTING_PUBLISHED (ls_public_id l) (ls_tenant l)
                   (dict_merge [(''from'', JStr (visibility_value old)), (''type'', JStr (ls_type_key l))] (project l'))
                   actor [] [] db')
                (\<lambda>(ev, db''). Inr (l', db''))
            else if old = V_PUBLISHED then
              bind_result
                (emit LISTING_UNPUBLISHED (ls_public_id l) (ls_tenant l)
                   [(''from'', JStr (visibility_value old)), (''to'', JStr (visibility_value v)),
                    (''reason'', JStr reason), (''type'', JStr (ls_type_key l))]
                   actor [] [] db')
                (\<lambda>(ev, db''). Inr (l', db''))
            else Inr (l', db'))"

end
