(* ===== verification/Entitlements.thy ===== *)
theory Entitlements
  imports Machine Listings
begin

section \<open>The entitlement service\<close>

text \<open>
  \<^verbatim>\<open>billing/entitlements.py\<close> and the mail of \<^verbatim>\<open>billing/notices.py\<close>: \<open>apply_trigger\<close> is the one function
  that moves an entitlement, \<open>set_tier\<close> the one writer of a listing's tier. Every step of
  \<^verbatim>\<open>apply_trigger\<close> is here, in its order: the two locked reads, the creation of a missing row, the
  table lookup and the clock check, the field changes (\<open>mutate\<close>), the save, the events
  (\<open>event_data\<close>), the tier, the visibility (\<open>visibility_after\<close>) and the owner's mail
  (\<open>after_transition\<close>). The lemmas are in \<^verbatim>\<open>Entitlement_Props\<close>.
\<close>

subsection \<open>Tables\<close>

record tier =
  tier_pk :: nat
  tier_tenant :: nat
  tier_public_id :: string
  tier_key :: string
  tier_name :: string
  tier_rank :: int
  purchasable :: bool
  uses_slot :: bool
  price_minor :: "int option"
  currency :: string
  interval :: string
  trial_days :: "int option"
  perks :: json
  badge_label :: string

datatype attempt_status = A_STARTED | A_COMPLETED | A_FAILED

record checkout_attempt =
  ca_pk :: nat
  ca_tenant :: nat
  ca_listing :: nat
  ca_tier :: nat
  ca_public_id :: string
  ca_status :: attempt_status
  ca_adapter_id :: string
  external_ref :: string
  started_by :: "nat option"
  ca_created_at :: instant
  ca_expires_at :: instant
  completed_at :: "instant option"

datatype receipt_outcome = R_APPLIED | R_IGNORED

record receipt =
  rcp_pk :: nat
  rcp_tenant :: nat
  rcp_adapter_id :: string
  rcp_external_event_id :: string
  rcp_kind :: string
  rcp_listing :: "nat option"
  rcp_outcome :: receipt_outcome
  rcp_reason :: string
  rcp_received_at :: instant

record billing_db = directory_db +
  tiers :: "tier list"
  entitlements :: "entitlement list"
  checkouts :: "checkout_attempt list"
  receipts :: "receipt list"

datatype ent_error =
    MachineError machine_error
  | EntitlementError string
  | ListingDoesNotExist
  | EntIntegrityError
  | FactKeyError string
  | EntAuditError audit_error

definition lift_audit :: "audit_error + 'a \<Rightarrow> ent_error + 'a" where
  "lift_audit r = (case r of Inl e \<Rightarrow> Inl (EntAuditError e) | Inr x \<Rightarrow> Inr x)"

lemma lift_audit_simps [simp]: "lift_audit (Inl e) = Inl (EntAuditError e)" "lift_audit (Inr x) = Inr x"
  by (simp_all add: lift_audit_def)

text \<open>The outcome of a transition, and the keyword parameters of a trigger.\<close>

record outcome =
  from_status :: status
  to_status :: status
  out_events :: "string list"
  tier_changed :: bool
  hid_listing :: bool
  unhid_listing :: bool

record params =
  p_tier :: "tier option"
  p_period_end :: "instant option"
  p_trial_ends_at :: "instant option"
  p_billing_mode :: "billing_mode option"
  p_term_days :: "int option"
  p_payment_ref :: "dict option"
  p_failure_code :: string
  p_attempt :: "int option"
  p_canceled_by :: string
  p_reason :: "string option"
  p_operator :: "operator option"
  p_expires_at :: "instant option"
  p_to_status :: "string option"

definition no_params :: params where
  "no_params = \<lparr>p_tier = None, p_period_end = None, p_trial_ends_at = None, p_billing_mode = None,
     p_term_days = None, p_payment_ref = None, p_failure_code = [], p_attempt = None, p_canceled_by = [],
     p_reason = None, p_operator = None, p_expires_at = None, p_to_status = None\<rparr>"

definition SYSTEM_ACTOR :: dict where
  "SYSTEM_ACTOR = [(''type'', JStr ''system''), (''id'', JStr ''billing'')]"

subsection \<open>The effective tier and its one writer\<close>

definition tier_by_pk :: "'z billing_db_scheme \<Rightarrow> nat \<Rightarrow> tier option" where
  "tier_by_pk db pk = find_by tier_pk pk (tiers db)"

definition rank0_tier :: "'z billing_db_scheme \<Rightarrow> nat \<Rightarrow> tier option" where
  "rank0_tier db tenant = find (\<lambda>t. tier_tenant t = tenant \<and> tier_rank t = 0) (tiers db)"

definition effective_tier :: "'z billing_db_scheme \<Rightarrow> nat \<Rightarrow> entitlement \<Rightarrow> tier option" where
  "effective_tier db tenant ent =
     (if ent_status ent \<in> set PERK_STATUSES then tier_by_pk db (ent_tier ent) else rank0_tier db tenant)"

abbreviation key_of :: "tier option \<Rightarrow> string option" where
  "key_of \<equiv> map_option tier_key"

abbreviation jstr :: "string option \<Rightarrow> json" where
  "jstr \<equiv> jopt JStr"

definition save_current_tier :: "listing \<Rightarrow> nat option \<Rightarrow> 'z billing_db_scheme \<Rightarrow> 'z billing_db_scheme" where
  "save_current_tier l t db =
     db\<lparr>listings := update_where (\<lambda>r. ls_pk r = ls_pk l)
         (\<lambda>r. r\<lparr>current_tier := t, ls_updated_at := wall db\<rparr>) (listings db)\<rparr>"

definition set_tier :: "nat \<Rightarrow> listing \<Rightarrow> tier option \<Rightarrow> string \<Rightarrow> instant \<Rightarrow> dict \<Rightarrow> string \<Rightarrow> 'z billing_db_scheme
    \<Rightarrow> ent_error + (bool \<times> listing) \<times> 'z billing_db_scheme" where
  "set_tier tenant l target cause now actor origin db =
     (let new_id = map_option tier_pk target in
      if current_tier l = new_id then Inr ((False, l), db)
      else
        let before = (case current_tier l of None \<Rightarrow> None | Some pk \<Rightarrow> tier_by_pk db pk);
            db' = save_current_tier l new_id db
        in bind_result
             (lift_audit (emit LISTING_TIER_CHANGED (ls_public_id l) tenant
                [(''from_tier'', jstr (key_of before)), (''to_tier'', jstr (key_of target)),
                 (''effective_at'', JStr (isoformat now)), (''cause'', JStr cause)]
                actor origin [] db'))
             (\<lambda>(ev, db''). Inr ((True, l\<lparr>current_tier := new_id, ls_updated_at := wall db\<rparr>), db'')))"

subsection \<open>The field changes of a trigger\<close>

text \<open>\<^verbatim>\<open>_need\<close>: the names of the parameters that are absent, joined.\<close>

fun comma_join :: "string list \<Rightarrow> string" where
  "comma_join [] = []"
| "comma_join [s] = s"
| "comma_join (s # t # ss) = s @ '', '' @ comma_join (t # ss)"

definition need :: "(string \<times> bool) list \<Rightarrow> ent_error + unit" where
  "need ps = (let missing = map fst (filter (\<lambda>(n, present). \<not> present) ps) in
     if missing \<noteq> [] then Inl (EntitlementError (''missing parameter(s): '' @ comma_join missing)) else Inr ())"

definition reset_lifecycle :: "entitlement \<Rightarrow> entitlement" where
  "reset_lifecycle ent = ent\<lparr>dunning_started_at := None, dunning_ends_at := None, grace_ends_at := None,
     failed_attempts := 0, last_failure_code := [], cancel_at_period_end := False, canceled_at := None,
     canceled_by := [], renewal_notified_at := None\<rparr>"

definition clear_comp :: "entitlement \<Rightarrow> entitlement" where
  "clear_comp ent = ent\<lparr>comp_granted_by := None, comp_reason := [], comp_expires_at := None\<rparr>"

text \<open>\<^verbatim>\<open>int(attempt) if attempt else failed_attempts + 1\<close>: an absent attempt, and attempt 0, count up.\<close>

definition attempts_after :: "entitlement \<Rightarrow> int option \<Rightarrow> int" where
  "attempts_after ent attempt = (case attempt of
     None \<Rightarrow> failed_attempts ent + 1 | Some n \<Rightarrow> if n = 0 then failed_attempts ent + 1 else n)"

definition enter_dunning :: "entitlement \<Rightarrow> instant \<Rightarrow> string \<Rightarrow> int option \<Rightarrow> entitlement" where
  "enter_dunning ent now code attempt =
     ent\<lparr>dunning_started_at := Some now, dunning_ends_at := Some (now + DUNNING),
         failed_attempts := attempts_after ent attempt, last_failure_code := code\<rparr>"

text \<open>What the events need to know beside the row; an unset fact is \<open>None\<close>.\<close>

record facts =
  f_from_tier :: "string option"
  f_to_tier :: "string option"
  f_days_in_dunning :: "int option"
  f_days_in_grace :: "int option"
  f_attempt :: "int option"
  f_dunning_ends_at :: "instant option"
  f_failure_code :: "string option"
  f_grace_ends_at :: "instant option"
  f_canceled_by :: "string option"
  f_reason :: string
  f_at_period_end :: "bool option"
  f_to_status :: status

definition init_facts :: "string option \<Rightarrow> status \<Rightarrow> facts" where
  "init_facts from st = \<lparr>f_from_tier = from, f_to_tier = None, f_days_in_dunning = None, f_days_in_grace = None,
     f_attempt = None, f_dunning_ends_at = None, f_failure_code = None, f_grace_ends_at = None,
     f_canceled_by = None, f_reason = [], f_at_period_end = None, f_to_status = st\<rparr>"

definition set_if :: "'a option \<Rightarrow> ('a \<Rightarrow> 'r \<Rightarrow> 'r) \<Rightarrow> 'r \<Rightarrow> 'r" where
  "set_if x upd r = (case x of None \<Rightarrow> r | Some a \<Rightarrow> upd a r)"

definition or_else :: "'a option \<Rightarrow> 'a option \<Rightarrow> 'a option" where
  "or_else a b = (case a of None \<Rightarrow> b | Some x \<Rightarrow> Some x)"

lemma set_if_simps [simp]: "set_if None upd r = r" "set_if (Some a) upd r = upd a r"
  by (simp_all add: set_if_def)

lemma or_else_simps [simp]: "or_else None b = b" "or_else (Some x) b = Some x"
  by (simp_all add: or_else_def)

abbreviation bump_status :: "entitlement \<times> facts \<Rightarrow> entitlement \<times> facts" where
  "bump_status ef \<equiv> (fst ef, (snd ef)\<lparr>f_to_status := ent_status (fst ef)\<rparr>)"

definition mutate_start :: "bool \<Rightarrow> entitlement \<Rightarrow> facts \<Rightarrow> instant \<Rightarrow> params \<Rightarrow> ent_error + entitlement \<times> facts" where
  "mutate_start trial ent fs now p =
     bind_result (need [(''tier'', p_tier p \<noteq> None)]) (\<lambda>_.
     bind_result (if trial then need [(''trial_ends_at'', p_trial_ends_at p \<noteq> None)]
                  else need [(''period_end'', p_period_end p \<noteq> None)]) (\<lambda>_.
       Inr (clear_comp (reset_lifecycle (ent\<lparr>
              ent_tier := (case p_tier p of None \<Rightarrow> ent_tier ent | Some t \<Rightarrow> tier_pk t),
              ent_billing_mode := (case p_billing_mode p of None \<Rightarrow> B_RECURRING | Some m \<Rightarrow> m),
              term_days := p_term_days p,
              ent_status := (if trial then S_TRIALING else S_ACTIVE),
              started_at := Some now,
              trial_ends_at := (if trial then p_trial_ends_at p else None),
              current_period_end := or_else (p_period_end p) (p_trial_ends_at p),
              payment_ref := (case p_payment_ref p of None \<Rightarrow> [] | Some d \<Rightarrow> d)\<rparr>)), fs)))"

definition mutate_payment_succeeded :: "entitlement \<Rightarrow> facts \<Rightarrow> instant \<Rightarrow> params \<Rightarrow> ent_error + entitlement \<times> facts" where
  "mutate_payment_succeeded ent fs now p =
     bind_result (need [(''period_end'', p_period_end p \<noteq> None)]) (\<lambda>_.
       let prior = ent_status ent;
           fs1 = (if prior = S_PAST_DUE \<and> dunning_started_at ent \<noteq> None
                  then fs\<lparr>f_days_in_dunning := map_option (\<lambda>d. days_of (now - d)) (dunning_started_at ent)\<rparr> else fs);
           fs2 = (if prior = S_GRACE \<and> grace_ends_at ent \<noteq> None
                  then fs1\<lparr>f_days_in_grace := map_option (\<lambda>g. days_of (now - (g - GRACE))) (grace_ends_at ent)\<rparr> else fs1);
           fs3 = (if prior = S_CANCELED then fs2\<lparr>f_days_in_grace := Some 0\<rparr> else fs2);
           ent1 = set_if (p_tier p) (\<lambda>t e. e\<lparr>ent_tier := tier_pk t\<rparr>) ent;
           ent2 = ent1\<lparr>ent_status := S_ACTIVE, current_period_end := p_period_end p\<rparr>;
           ent3 = (case p_payment_ref p of None \<Rightarrow> ent2 | Some d \<Rightarrow> if d = [] then ent2 else ent2\<lparr>payment_ref := d\<rparr>);
           ent4 = (if prior = S_COMPED
                   then clear_comp (ent3\<lparr>ent_billing_mode := (case p_billing_mode p of None \<Rightarrow> B_RECURRING | Some m \<Rightarrow> m)\<rparr>)
                   else ent3)
       in Inr (reset_lifecycle ent4, fs3))"

definition mutate_payment_failed :: "string \<Rightarrow> entitlement \<Rightarrow> facts \<Rightarrow> instant \<Rightarrow> params \<Rightarrow> ent_error + entitlement \<times> facts" where
  "mutate_payment_failed code ent fs now p =
     (if ent_status ent \<in> {S_PAST_DUE, S_GRACE} then
        Inr (ent\<lparr>failed_attempts := attempts_after ent (p_attempt p),
                 last_failure_code := (if code \<noteq> [] then code else last_failure_code ent)\<rparr>, fs)
      else
        let ent1 = (enter_dunning ent now code (p_attempt p))\<lparr>ent_status := S_PAST_DUE\<rparr>
        in Inr (ent1, fs\<lparr>f_attempt := Some (failed_attempts ent1), f_dunning_ends_at := dunning_ends_at ent1,
                         f_failure_code := Some (last_failure_code ent1)\<rparr>))"

definition mutate_cancel :: "rule \<Rightarrow> entitlement \<Rightarrow> facts \<Rightarrow> instant \<Rightarrow> params \<Rightarrow> ent_error + entitlement \<times> facts" where
  "mutate_cancel r ent fs now p =
     (let by = (if p_canceled_by p = [] then ''owner'' else p_canceled_by p);
          ent1 = ent\<lparr>canceled_at := Some now, canceled_by := by\<rparr>;
          fs1 = fs\<lparr>f_canceled_by := Some by, f_reason := (case p_reason p of None \<Rightarrow> [] | Some s \<Rightarrow> s)\<rparr>
      in if rule_to r = Some S_CANCELED then
           Inr (ent1\<lparr>ent_status := S_CANCELED, cancel_at_period_end := True,
                     current_period_end := or_else (current_period_end ent1) (trial_ends_at ent1)\<rparr>,
                fs1\<lparr>f_at_period_end := Some True\<rparr>)
         else Inr (ent1\<lparr>ent_status := S_EXPIRED\<rparr>, fs1\<lparr>f_at_period_end := Some False\<rparr>))"

definition mutate_grant :: "entitlement \<Rightarrow> facts \<Rightarrow> instant \<Rightarrow> params \<Rightarrow> ent_error + entitlement \<times> facts" where
  "mutate_grant ent fs now p =
     bind_result (need [(''tier'', p_tier p \<noteq> None), (''operator'', p_operator p \<noteq> None),
                        (''reason'', p_reason p \<noteq> None)]) (\<lambda>_.
       Inr (reset_lifecycle (ent\<lparr>
              ent_tier := (case p_tier p of None \<Rightarrow> ent_tier ent | Some t \<Rightarrow> tier_pk t),
              ent_status := S_COMPED, ent_billing_mode := B_COMP, term_days := None,
              started_at := or_else (started_at ent) (Some now), current_period_end := None,
              trial_ends_at := None, comp_granted_by := map_option op_public_id (p_operator p),
              comp_reason := (case p_reason p of None \<Rightarrow> [] | Some s \<Rightarrow> s),
              comp_expires_at := p_expires_at p\<rparr>), fs))"

definition mutate_override :: "entitlement \<Rightarrow> facts \<Rightarrow> instant \<Rightarrow> params \<Rightarrow> ent_error + entitlement \<times> facts" where
  "mutate_override ent fs now p =
     bind_result (need [(''to_status'', p_to_status p \<noteq> None), (''operator'', p_operator p \<noteq> None),
                        (''reason'', p_reason p \<noteq> None)]) (\<lambda>_.
     (case p_to_status p of None \<Rightarrow> Inl (EntitlementError []) | Some name \<Rightarrow>
     (case status_of name of
        None \<Rightarrow> Inl (EntitlementError (''unknown status '' @ repr name))
      | Some to \<Rightarrow>
         let ent1 = set_if (p_tier p) (\<lambda>t e. e\<lparr>ent_tier := tier_pk t\<rparr>) ent;
             ent2 = ent1\<lparr>ent_status := to\<rparr>;
             ent3 = set_if (p_period_end p) (\<lambda>t e. e\<lparr>current_period_end := Some t\<rparr>) ent2
         in bind_result (if to = S_TRIALING then need [(''trial_ends_at'', p_trial_ends_at p \<noteq> None)] else Inr ()) (\<lambda>_.
            let ent4 = (if to = S_TRIALING
                        then ent3\<lparr>trial_ends_at := p_trial_ends_at p,
                                  current_period_end := or_else (current_period_end ent3) (p_trial_ends_at p)\<rparr> else ent3);
                ent5 = (if to = S_PAST_DUE then enter_dunning ent4 now ''override'' None else ent4);
                ent6 = (if to = S_GRACE then ent5\<lparr>grace_ends_at := Some (now + GRACE)\<rparr> else ent5)
            in bind_result (if to = S_CANCELED then need [(''period_end'', p_period_end p \<noteq> None)] else Inr ()) (\<lambda>_.
               let ent7 = (if to = S_CANCELED
                           then ent6\<lparr>cancel_at_period_end := True, canceled_at := Some now, canceled_by := ''operator''\<rparr> else ent6);
                   ent8 = (if to \<in> {S_NONE, S_EXPIRED} then reset_lifecycle ent7 else ent7);
                   ent9 = (if to \<noteq> S_COMPED then clear_comp ent8 else ent8)
               in Inr (ent9, fs))))))"

text \<open>\<^verbatim>\<open>_mutate\<close>, one equation per branch.\<close>

fun mutate :: "trigger \<Rightarrow> rule \<Rightarrow> entitlement \<Rightarrow> facts \<Rightarrow> instant \<Rightarrow> params \<Rightarrow> ent_error + entitlement \<times> facts" where
  "mutate T_START r ent fs now p = mutate_start False ent fs now p"
| "mutate T_START_TRIAL r ent fs now p = mutate_start True ent fs now p"
| "mutate T_PAYMENT_SUCCEEDED r ent fs now p = mutate_payment_succeeded ent fs now p"
| "mutate T_PAYMENT_FAILED r ent fs now p = mutate_payment_failed (p_failure_code p) ent fs now p"
| "mutate T_TRIAL_OVERDUE r ent fs now p = mutate_payment_failed ''trial_unreported'' ent fs now p"
| "mutate T_DUNNING_ELAPSED r ent fs now p =
     Inr (ent\<lparr>ent_status := S_GRACE, grace_ends_at := Some (now + GRACE)\<rparr>,
          fs\<lparr>f_grace_ends_at := Some (now + GRACE)\<rparr>)"
| "mutate T_CANCEL r ent fs now p = mutate_cancel r ent fs now p"
| "mutate T_GRANT r ent fs now p = mutate_grant ent fs now p"
| "mutate T_REVOKE r ent fs now p =
     bind_result (need [(''operator'', p_operator p \<noteq> None), (''reason'', p_reason p \<noteq> None)])
       (\<lambda>_. Inr (clear_comp (ent\<lparr>ent_status := S_EXPIRED\<rparr>), fs))"
| "mutate T_OVERRIDE r ent fs now p = mutate_override ent fs now p"
| "mutate _ r ent fs now p = Inr (ent\<lparr>ent_status := S_EXPIRED\<rparr>, fs)"


subsection \<open>The events\<close>

text \<open>A fact the event needs and the trigger did not leave is a \<^verbatim>\<open>KeyError\<close>.\<close>

definition fact :: "string \<Rightarrow> 'a option \<Rightarrow> ('a \<Rightarrow> ent_error + 'b) \<Rightarrow> ent_error + 'b" where
  "fact name x f = (case x of None \<Rightarrow> Inl (FactKeyError name) | Some a \<Rightarrow> f a)"

lemma fact_simps [simp]: "fact n None f = Inl (FactKeyError n)" "fact n (Some a) f = f a"
  by (simp_all add: fact_def)

definition ent_tier_key :: "'z billing_db_scheme \<Rightarrow> entitlement \<Rightarrow> string option" where
  "ent_tier_key db ent = key_of (tier_by_pk db (ent_tier ent))"

definition event_data :: "'z billing_db_scheme \<Rightarrow> entitlement \<Rightarrow> listing \<Rightarrow> string \<Rightarrow> rule \<Rightarrow> facts \<Rightarrow> params \<Rightarrow> status
    \<Rightarrow> ent_error + dict" where
  "event_data db ent l name r fs p prior =
     (let base = [(''entitlement_id'', JStr (ent_public_id ent)), (''listing_id'', JStr (ls_public_id l))];
          tier = jstr (ent_tier_key db ent);
          period_end = jtime (current_period_end ent)
      in if name = STARTED then
           Inr (base @ [(''tier'', tier), (''billing_mode'', JStr (mode_value (ent_billing_mode ent))),
                        (''period_end'', period_end), (''trial_ends_at'', jtime (trial_ends_at ent))])
         else if name = CONVERTED then Inr (base @ [(''tier'', tier), (''period_end'', period_end)])
         else if name = DUNNING_STARTED then
           fact ''attempt'' (f_attempt fs) (\<lambda>a. fact ''dunning_ends_at'' (f_dunning_ends_at fs) (\<lambda>d.
           fact ''failure_code'' (f_failure_code fs) (\<lambda>c.
             Inr (base @ [(''attempt'', JInt a), (''dunning_ends_at'', JStr (isoformat d)), (''failure_code'', JStr c)]))))
         else if name = RECOVERED then
           Inr (base @ [(''days_in_dunning'', JInt (case f_days_in_dunning fs of None \<Rightarrow> 0 | Some n \<Rightarrow> n))])
         else if name = DOWNGRADED then
           fact ''grace_ends_at'' (f_grace_ends_at fs) (\<lambda>g.
             Inr (base @ [(''from_tier'', jstr (f_from_tier fs)), (''to_tier'', jstr (f_to_tier fs)),
                          (''grace_ends_at'', JStr (isoformat g))]))
         else if name = RESTORED then
           Inr (base @ [(''tier'', tier),
                        (''days_in_grace'', JInt (case f_days_in_grace fs of None \<Rightarrow> 0 | Some n \<Rightarrow> n))])
         else if name = EXPIRED then
           Inr (base @ [(''from_tier'', jstr (f_from_tier fs)), (''cause'', JStr (expired_cause r))])
         else if name = CANCELED then
           fact ''at_period_end'' (f_at_period_end fs) (\<lambda>b. fact ''canceled_by'' (f_canceled_by fs) (\<lambda>by.
             Inr (base @ [(''at_period_end'', JBool b), (''reason'', JStr (f_reason fs)), (''canceled_by'', JStr by)])))
         else if name = OVERRIDDEN then
           fact ''operator'' (p_operator p) (\<lambda>oper. fact ''reason'' (p_reason p) (\<lambda>reason.
             Inr (base @ [(''admin_id'', JStr (op_public_id oper)), (''reason'', JStr reason),
                          (''from'', JStr (status_value prior)), (''to'', JStr (status_value (ent_status ent)))])))
         else Inl (EntitlementError (''unknown event '' @ repr name)))"

definition tier_cause_of :: "rule \<Rightarrow> tier option \<Rightarrow> tier option \<Rightarrow> string" where
  "tier_cause_of r prior_tier target =
     (if tier_cause r = [] \<or> tier_cause r = ''upgrade'' then
        (case target of
           None \<Rightarrow> ''downgrade''
         | Some t \<Rightarrow> (case prior_tier of
             None \<Rightarrow> ''upgrade''
           | Some pt \<Rightarrow> if tier_rank pt \<le> tier_rank t then ''upgrade'' else ''downgrade''))
      else tier_cause r)"

subsection \<open>The owner's mail\<close>

definition EXPIRED_TTL :: duration where
  "EXPIRED_TTL = days 7"

definition QUIET_CAUSES :: "string list" where
  "QUIET_CAUSES = [''revoked'', ''comp_expired'']"

definition owner_link :: "tenant \<Rightarrow> listing \<Rightarrow> string" where
  "owner_link tn l =
     (if has_absolute_base tn then absolute_url tn (''/owner/listings/'' @ ls_public_id l @ ''/'') else [])"

definition para_break :: string where
  "para_break = [char_of (10::nat), char_of (10::nat)]"

text \<open>\<^verbatim>\<open>_send\<close>: no owner, or an owner without an address, gets nothing.\<close>

definition send_notice :: "tenant \<Rightarrow> listing \<Rightarrow> string \<Rightarrow> string \<Rightarrow> string list \<Rightarrow> instant \<Rightarrow> 'z billing_db_scheme
    \<Rightarrow> ent_error + unit \<times> 'z billing_db_scheme" where
  "send_notice tn l kind subject lines expires_at db =
     (case (case ls_owner l of None \<Rightarrow> None | Some u \<Rightarrow> find_by usr_pk u (users db)) of
        None \<Rightarrow> Inr ((), db)
      | Some owner \<Rightarrow>
          if usr_email owner = [] then Inr ((), db)
          else
            let url = owner_link tn l;
                closing = (if url \<noteq> [] then ''Manage it here: '' @ url
                           else ''Sign in to your owner page to manage it.'');
                body = concat (map (\<lambda>s. s @ para_break) lines) @ closing
            in bind_result (lift_audit (enqueue (tn_pk tn) kind (usr_email owner) subject body expires_at db))
                 (\<lambda>(m, db'). Inr ((), db')))"

definition KIND_FAILED :: string where
  "KIND_FAILED = ''billing.payment_failed''"

definition KIND_DOWNGRADED :: string where
  "KIND_DOWNGRADED = ''billing.downgraded''"

definition KIND_EXPIRED :: string where
  "KIND_EXPIRED = ''billing.expired''"

definition KIND_CANCELED :: string where
  "KIND_CANCELED = ''billing.canceled''"

text \<open>The three statements of \<^verbatim>\<open>after_transition\<close>, each an \<^verbatim>\<open>if\<close> over the rule's events.\<close>

definition notify_failed :: "tenant \<Rightarrow> entitlement \<Rightarrow> listing \<Rightarrow> rule \<Rightarrow> 'z billing_db_scheme
    \<Rightarrow> ent_error + unit \<times> 'z billing_db_scheme" where
  "notify_failed tn ent l r db =
     (case dunning_ends_at ent of
        Some ends \<Rightarrow>
          if DUNNING_STARTED \<in> set (rule_events r) then
            send_notice tn l KIND_FAILED (''Payment failed for '' @ ls_name l)
              [''We could not take payment for '' @ ls_name l @ '' on '' @ tn_name tn
                 @ ''. Your listing keeps its current perks while you fix it.'',
               ''Please update your payment details before '' @ fmt_date ends
                 @ '' UTC; after that the listing is downgraded.''] ends db
          else Inr ((), db)
      | None \<Rightarrow> Inr ((), db))"

definition notify_downgraded :: "tenant \<Rightarrow> entitlement \<Rightarrow> listing \<Rightarrow> rule \<Rightarrow> 'z billing_db_scheme
    \<Rightarrow> ent_error + unit \<times> 'z billing_db_scheme" where
  "notify_downgraded tn ent l r db =
     (case grace_ends_at ent of
        Some ends \<Rightarrow>
          if DOWNGRADED \<in> set (rule_events r) then
            send_notice tn l KIND_DOWNGRADED (ls_name l @ '' has been downgraded'')
              [''Payment for '' @ ls_name l @ '' on '' @ tn_name tn
                 @ '' is still outstanding, so the listing has been downgraded and its perks are paused. It is still published.'',
               ''You can restore it until '' @ fmt_date ends @ '' UTC.''] ends db
          else Inr ((), db)
      | None \<Rightarrow> Inr ((), db))"

definition notify_ended :: "tenant \<Rightarrow> entitlement \<Rightarrow> listing \<Rightarrow> rule \<Rightarrow> instant \<Rightarrow> 'z billing_db_scheme
    \<Rightarrow> ent_error + unit \<times> 'z billing_db_scheme" where
  "notify_ended tn ent l r now db =
     (if CANCELED \<in> set (rule_events r) then
        (case (if cancel_at_period_end ent then current_period_end ent else None) of
           Some ends \<Rightarrow>
             if now < ends then
               send_notice tn l KIND_CANCELED (''Subscription cancelled for '' @ ls_name l)
                 [''Your subscription for '' @ ls_name l @ '' on '' @ tn_name tn
                    @ '' is cancelled. It stays active until '' @ fmt_date ends @ '' UTC.''] ends db
             else
               send_notice tn l KIND_CANCELED (''Subscription cancelled for '' @ ls_name l)
                 [''Your subscription for '' @ ls_name l @ '' on '' @ tn_name tn @ '' is cancelled and has ended.'']
                 (now + EXPIRED_TTL) db
         | None \<Rightarrow>
             send_notice tn l KIND_CANCELED (''Subscription cancelled for '' @ ls_name l)
               [''Your subscription for '' @ ls_name l @ '' on '' @ tn_name tn @ '' is cancelled and has ended.'']
               (now + EXPIRED_TTL) db)
      else if EXPIRED \<in> set (rule_events r) \<and> expired_cause r \<notin> set QUIET_CAUSES then
        send_notice tn l KIND_EXPIRED (ls_name l @ '' is back on the free listing'')
          [''The paid placement for '' @ ls_name l @ '' on '' @ tn_name tn
             @ '' has ended. The listing is still published; its upgraded perks have stopped.'']
          (now + EXPIRED_TTL) db
      else Inr ((), db))"

definition after_transition :: "tenant \<Rightarrow> entitlement \<Rightarrow> listing \<Rightarrow> rule \<Rightarrow> instant \<Rightarrow> 'z billing_db_scheme
    \<Rightarrow> ent_error + unit \<times> 'z billing_db_scheme" where
  "after_transition tn ent l r now db =
     bind_result (notify_failed tn ent l r db) (\<lambda>(_, db1).
     bind_result (notify_downgraded tn ent l r db1) (\<lambda>(_, db2).
       notify_ended tn ent l r now db2))"

subsection \<open>Applying a trigger\<close>

definition save_ent :: "entitlement \<Rightarrow> 'z billing_db_scheme \<Rightarrow> 'z billing_db_scheme" where
  "save_ent ent db =
     db\<lparr>entitlements := update_where (\<lambda>e. ent_pk e = ent_pk ent) (\<lambda>_. ent\<lparr>ent_updated_at := wall db\<rparr>) (entitlements db)\<rparr>"

definition save_hidden :: "entitlement \<Rightarrow> bool \<Rightarrow> 'z billing_db_scheme \<Rightarrow> 'z billing_db_scheme" where
  "save_hidden ent b db =
     db\<lparr>entitlements := update_where (\<lambda>e. ent_pk e = ent_pk ent)
         (\<lambda>e. e\<lparr>hidden_by_expiry := b, ent_updated_at := wall db\<rparr>) (entitlements db)\<rparr>"

definition visibility_after :: "tenant \<Rightarrow> entitlement \<Rightarrow> listing \<Rightarrow> outcome \<Rightarrow> dict \<Rightarrow> 'z billing_db_scheme
    \<Rightarrow> ent_error + (outcome \<times> listing) \<times> 'z billing_db_scheme" where
  "visibility_after tn ent l out actor db =
     (if ent_status ent = S_EXPIRED \<and> rank0_tier db (tn_pk tn) = None then
        (if visibility l = V_PUBLISHED then
           bind_result (lift_audit (set_listing_visibility l V_HIDDEN actor ''entitlement_expired'' db))
             (\<lambda>(l', db'). Inr ((out\<lparr>hid_listing := True\<rparr>, l'), save_hidden ent True db'))
         else Inr ((out, l), db))
      else if hidden_by_expiry ent \<and> ent_status ent \<in> set PERK_STATUSES then
        (if visibility l = V_HIDDEN then
           bind_result (lift_audit (set_listing_visibility l V_PUBLISHED actor ''entitlement_restored'' db))
             (\<lambda>(l', db'). Inr ((out\<lparr>unhid_listing := True\<rparr>, l'), save_hidden ent False db'))
         else Inr ((out, l), save_hidden ent False db))
      else Inr ((out, l), db))"

definition CREATING :: "trigger list" where
  "CREATING = [T_START, T_START_TRIAL, T_GRANT, T_OVERRIDE]"

definition blank_ent :: "nat \<Rightarrow> nat \<Rightarrow> tier \<Rightarrow> 'z core_db_scheme \<Rightarrow> entitlement" where
  "blank_ent tenant listing_pk t db =
     \<lparr>ent_pk = Suc (seq db), ent_tenant = tenant, ent_listing = listing_pk,
      ent_public_id = prefixed ''ent_'' (draw_ulid db), ent_tier = tier_pk t, ent_status = S_NONE,
      ent_billing_mode = B_NONE, term_days = None, started_at = None, current_period_end = None,
      trial_ends_at = None, dunning_started_at = None, grace_ends_at = None, cancel_at_period_end = False,
      dunning_ends_at = None, failed_attempts = 0, last_failure_code = [], canceled_at = None,
      canceled_by = [], renewal_notified_at = None, hidden_by_expiry = False, comp_granted_by = None,
      comp_reason = [], comp_expires_at = None, payment_ref = [], ent_updated_at = wall db\<rparr>"

text \<open>The row of the listing, created when the trigger may create it. \<^verbatim>\<open>Entitlement.objects\<close> sees the
  ambient tenant's rows; the unique constraint on the listing sees all of them.\<close>

definition find_ent :: "nat \<Rightarrow> nat \<Rightarrow> 'z billing_db_scheme \<Rightarrow> entitlement option" where
  "find_ent tenant listing_pk db =
     find (\<lambda>e. ent_tenant e = tenant \<and> ent_listing e = listing_pk) (entitlements db)"

definition find_listing :: "nat \<Rightarrow> nat \<Rightarrow> 'z directory_db_scheme \<Rightarrow> listing option" where
  "find_listing tenant listing_pk db = find (\<lambda>l. ls_tenant l = tenant \<and> ls_pk l = listing_pk) (listings db)"

definition load_or_create :: "tenant \<Rightarrow> nat \<Rightarrow> trigger \<Rightarrow> params \<Rightarrow> 'z billing_db_scheme
    \<Rightarrow> ent_error + entitlement \<times> 'z billing_db_scheme" where
  "load_or_create tn listing_pk tr p db =
     (case find_ent (tn_pk tn) listing_pk db of
        Some ent \<Rightarrow> Inr (ent, db)
      | None \<Rightarrow>
          if tr \<notin> set CREATING then Inl (MachineError (InvalidTransition S_NONE tr))
          else (case p_tier p of
             None \<Rightarrow> Inl (EntitlementError ''missing parameter(s): tier'')
           | Some t \<Rightarrow>
               if listing_pk \<in> ent_listing ` set (entitlements db) then Inl EntIntegrityError
               else let ent = blank_ent (tn_pk tn) listing_pk t db
                    in Inr (ent, db\<lparr>entitlements := entitlements db @ [ent], seq := Suc (seq db), draws := Suc (draws db)\<rparr>)))"

text \<open>The loop over the rule's events.\<close>

fun emit_all :: "tenant \<Rightarrow> entitlement \<Rightarrow> listing \<Rightarrow> rule \<Rightarrow> facts \<Rightarrow> params \<Rightarrow> status \<Rightarrow> dict \<Rightarrow> string
    \<Rightarrow> string list \<Rightarrow> 'z billing_db_scheme \<Rightarrow> ent_error + unit \<times> 'z billing_db_scheme" where
  "emit_all tn ent l r fs p prior actor origin [] db = Inr ((), db)"
| "emit_all tn ent l r fs p prior actor origin (name # names) db =
     bind_result (event_data db ent l name r fs p prior) (\<lambda>data.
     bind_result (lift_audit (emit name (ent_public_id ent) (tn_pk tn) data actor origin [] db)) (\<lambda>(ev, db').
       emit_all tn ent l r fs p prior actor origin names db'))"

definition due_or_raise :: "entitlement \<Rightarrow> trigger \<Rightarrow> instant \<Rightarrow> ent_error + unit" where
  "due_or_raise ent tr now =
     (if tr \<in> set CLOCK_TRIGGERS \<and> \<not> is_due ent tr now then Inl (MachineError (NotDue tr)) else Inr ())"

definition lift_machine :: "machine_error + 'a \<Rightarrow> ent_error + 'a" where
  "lift_machine r = (case r of Inl e \<Rightarrow> Inl (MachineError e) | Inr x \<Rightarrow> Inr x)"

lemma lift_machine_simps [simp]:
  "lift_machine (Inl e) = Inl (MachineError e)" "lift_machine (Inr x) = Inr x"
  by (simp_all add: lift_machine_def)

text \<open>What follows \<^verbatim>\<open>_mutate\<close>: the save, the events, the tier, the visibility and the mail.\<close>

definition land :: "tenant \<Rightarrow> listing \<Rightarrow> rule \<Rightarrow> status \<Rightarrow> entitlement \<Rightarrow> facts \<Rightarrow> instant \<Rightarrow> dict \<Rightarrow> string
    \<Rightarrow> params \<Rightarrow> 'z billing_db_scheme \<Rightarrow> ent_error + outcome \<times> 'z billing_db_scheme" where
  "land tn l r prior ent fs now actor origin p db =
     (let ent' = ent\<lparr>ent_updated_at := wall db\<rparr>;
          db1 = save_ent ent db;
          target = effective_tier db1 (tn_pk tn) ent';
          fs' = fs\<lparr>f_to_tier := key_of target\<rparr>;
          prior_tier = (case current_tier l of None \<Rightarrow> None | Some pk \<Rightarrow> tier_by_pk db1 pk);
          out = \<lparr>from_status = prior, to_status = ent_status ent', out_events = rule_events r,
                 tier_changed = False, hid_listing = False, unhid_listing = False\<rparr>
      in bind_result (emit_all tn ent' l r fs' p prior actor origin (rule_events r) db1) (\<lambda>(_, db2).
         bind_result (set_tier (tn_pk tn) l target (tier_cause_of r prior_tier target) now actor origin db2)
           (\<lambda>((changed, l'), db3).
         bind_result (visibility_after tn ent' l' (out\<lparr>tier_changed := changed\<rparr>) actor db3)
           (\<lambda>((out', l''), db4).
         bind_result (after_transition tn ent' l'' r now db4) (\<lambda>(_, db5).
           Inr (out', db5))))))"

definition apply_body :: "tenant \<Rightarrow> nat \<Rightarrow> trigger \<Rightarrow> instant \<Rightarrow> dict \<Rightarrow> string \<Rightarrow> params \<Rightarrow> 'z billing_db_scheme
    \<Rightarrow> ent_error + outcome \<times> 'z billing_db_scheme" where
  "apply_body tn listing_pk tr now actor origin p db =
     (case find_listing (tn_pk tn) listing_pk db of
        None \<Rightarrow> Inl ListingDoesNotExist
      | Some l \<Rightarrow>
          bind_result (load_or_create tn listing_pk tr p db) (\<lambda>(ent, db1).
          bind_result (lift_machine (rule_for (ent_status ent) tr)) (\<lambda>r.
          bind_result (due_or_raise ent tr now) (\<lambda>_.
          bind_result (mutate tr r ent (init_facts (ent_tier_key db1 ent) (ent_status ent)) now p) (\<lambda>ef.
            land tn l r (ent_status ent) (fst ef) (snd (bump_status ef)) now actor origin p db1)))))"

definition apply_trigger :: "tenant \<Rightarrow> nat \<Rightarrow> trigger \<Rightarrow> instant \<Rightarrow> dict \<Rightarrow> string \<Rightarrow> params \<Rightarrow> 'z billing_db_scheme
    \<Rightarrow> ent_error + outcome \<times> 'z billing_db_scheme" where
  "apply_trigger tn listing_pk tr now actor origin p =
     atomic (apply_body tn listing_pk tr now actor origin p)"

end
