(* ===== verification/Entitlement_Effects.thy ===== *)
theory Entitlement_Effects
  imports Entitlements
begin

section \<open>The steps of a transition\<close>

text \<open>
  What each step of \<open>apply_trigger\<close> changes, and what it leaves alone (\<open>billing_frame\<close> is everything
  no step touches). \<open>appended\<close> and \<open>mailed\<close> say which events and which messages a step adds;
  \<open>tier_step\<close>, \<open>visibility_step\<close> and \<open>flag_step\<close> are the row updates as functions of the old row.
  \<^verbatim>\<open>Entitlement_Props\<close> puts the steps together.
\<close>

subsection \<open>The tables no step of a transition touches\<close>

definition billing_frame :: "'z billing_db_scheme \<Rightarrow> 'z billing_db_scheme \<Rightarrow> bool" where
  "billing_frame db db' \<longleftrightarrow>
     wall db' = wall db \<and> entropy db' = entropy db \<and> in_atomic db' = in_atomic db \<and> tenants db' = tenants db
   \<and> memberships db' = memberships db \<and> deliveries db' = deliveries db \<and> counters db' = counters db
   \<and> commands db' = commands db \<and> accesses db' = accesses db \<and> users db' = users db \<and> tiers db' = tiers db
   \<and> checkouts db' = checkouts db \<and> receipts db' = receipts db \<and> billing_db.more db' = billing_db.more db
   \<and> seq db \<le> seq db' \<and> draws db \<le> draws db'"

lemma billing_frame_refl [simp]: "billing_frame db db"
  by (simp add: billing_frame_def)

lemma billing_frame_trans:
  "billing_frame db db' \<Longrightarrow> billing_frame db' db'' \<Longrightarrow> billing_frame db db''"
  by (auto simp: billing_frame_def)

lemma billing_frame_wall: "billing_frame db db' \<Longrightarrow> wall db' = wall db"
  by (simp add: billing_frame_def)

lemma billing_frame_atomic: "billing_frame db db' \<Longrightarrow> in_atomic db' = in_atomic db"
  by (simp add: billing_frame_def)

lemma billing_frame_tiers: "billing_frame db db' \<Longrightarrow> tiers db' = tiers db"
  by (simp add: billing_frame_def)

lemma billing_frame_seq: "billing_frame db db' \<Longrightarrow> seq db \<le> seq db'"
  by (simp add: billing_frame_def)

lemmas frame_dests = billing_frame_wall billing_frame_atomic billing_frame_tiers billing_frame_seq

lemma tier_by_pk_cong: "tiers db' = tiers db \<Longrightarrow> tier_by_pk db' = tier_by_pk db"
  by (rule ext) (simp add: tier_by_pk_def)

lemma rank0_tier_cong: "tiers db' = tiers db \<Longrightarrow> rank0_tier db' = rank0_tier db"
  by (rule ext) (simp add: rank0_tier_def)

lemma effective_tier_cong: "tiers db' = tiers db \<Longrightarrow> effective_tier db' = effective_tier db"
  by (intro ext) (simp add: effective_tier_def tier_by_pk_def rank0_tier_def)

lemma effective_tier_row:
  "effective_tier db tn (ent\<lparr>ent_updated_at := t\<rparr>) = effective_tier db tn ent"
  "effective_tier db tn (ent\<lparr>hidden_by_expiry := h\<rparr>) = effective_tier db tn ent"
  by (simp_all add: effective_tier_def)

subsection \<open>One step at a time\<close>

lemma emit_Inr:
  "emit t s tn d a orig tr db = Inr (ev, db') \<longleftrightarrow>
     t \<in> set ALL_EVENT_TYPES \<and> ev = new_event t s tn d a orig tr db \<and>
     db' = db\<lparr>outbox := outbox db @ [ev], seq := Suc (seq db), draws := Suc (draws db)\<rparr>"
  by (auto simp: emit_def Let_def)

lemma lift_audit_Inr: "lift_audit r = Inr x \<longleftrightarrow> r = Inr x"
  by (cases r) auto

lemma lift_machine_Inr: "lift_machine r = Inr x \<longleftrightarrow> r = Inr x"
  by (cases r) auto

lemmas lift_Inr = lift_audit_Inr lift_machine_Inr

lemma new_event_type [simp]:
  "ev_type (new_event t s tn d a orig tr db) = t" "ev_tenant (new_event t s tn d a orig tr db) = tn"
  "ev_subject (new_event t s tn d a orig tr db) = s" "ev_data (new_event t s tn d a orig tr db) = d"
  "ev_status (new_event t s tn d a orig tr db) = EvPending"
  by (simp_all add: new_event_def)

text \<open>A list of events appended by a transaction of a tenant.\<close>

definition appended :: "nat \<Rightarrow> string list \<Rightarrow> 'z core_db_scheme \<Rightarrow> 'z core_db_scheme \<Rightarrow> bool" where
  "appended tn names db db' \<longleftrightarrow>
     (\<exists>evs. outbox db' = outbox db @ evs \<and> map ev_type evs = names \<and>
        (\<forall>ev \<in> set evs. ev_tenant ev = tn \<and> ev_status ev = EvPending))"

lemma appended_Nil: "outbox db' = outbox db \<Longrightarrow> appended tn [] db db'"
  by (simp add: appended_def)

lemma appended_one:
  "outbox db' = outbox db @ [ev] \<Longrightarrow> ev_type ev = t \<Longrightarrow> ev_tenant ev = tn \<Longrightarrow> ev_status ev = EvPending
   \<Longrightarrow> appended tn [t] db db'"
  by (auto simp: appended_def)

lemma appended_trans:
  "appended tn ns db db' \<Longrightarrow> appended tn ms db' db'' \<Longrightarrow> appended tn (ns @ ms) db db''"
  unfolding appended_def by (metis Un_iff append.assoc map_append set_append)

lemma appended_cong:
  "outbox db1 = outbox db \<Longrightarrow> outbox db1' = outbox db' \<Longrightarrow> appended tn ns db1 db1' = appended tn ns db db'"
  by (simp add: appended_def)

lemma emit_all_effect:
  "emit_all tn ent l r fs p prior actor origin names db = Inr (u, db') \<Longrightarrow>
   billing_frame db db' \<and> listings db' = listings db \<and> entitlements db' = entitlements db \<and> mail db' = mail db
   \<and> appended (tn_pk tn) names db db'"
proof (induction names arbitrary: db)
  case Nil
  then show ?case by (simp add: appended_Nil)
next
  case (Cons name names)
  then obtain data ev db1
    where e: "emit name (ent_public_id ent) (tn_pk tn) data actor origin [] db = Inr (ev, db1)"
      and rest: "emit_all tn ent l r fs p prior actor origin names db1 = Inr (u, db')"
    by (auto simp: bind_result_eq_Inr lift_Inr)
  from e have 1: "billing_frame db db1 \<and> listings db1 = listings db \<and> entitlements db1 = entitlements db
      \<and> mail db1 = mail db \<and> appended (tn_pk tn) [name] db db1"
    by (auto simp: emit_Inr billing_frame_def appended_def)
  from 1 Cons.IH [OF rest] appended_trans [of "tn_pk tn" "[name]" db db1 names db']
  show ?case by (auto intro: billing_frame_trans)
qed

definition tier_step :: "instant \<Rightarrow> tier option \<Rightarrow> listing \<Rightarrow> listing \<Rightarrow> listing" where
  "tier_step t target l x =
     (if current_tier l = map_option tier_pk target then x
      else x\<lparr>current_tier := map_option tier_pk target, ls_updated_at := t\<rparr>)"

lemma update_where_id [simp]: "update_where P (\<lambda>x. x) xs = xs"
  by (simp add: update_where_def)

lemma update_where_comp:
  "(\<And>x. P x \<Longrightarrow> P (f x)) \<Longrightarrow> update_where P g (update_where P f xs) = update_where P (\<lambda>x. g (f x)) xs"
  by (simp add: update_where_def)

lemma set_tier_effect:
  assumes "set_tier tn l target cause now actor origin db = Inr ((c, l'), db')"
  shows "billing_frame db db'" and "entitlements db' = entitlements db" and "mail db' = mail db"
    and "c \<longleftrightarrow> current_tier l \<noteq> map_option tier_pk target"
    and "l' = tier_step (wall db) target l l"
    and "listings db' = update_where (\<lambda>x. ls_pk x = ls_pk l) (tier_step (wall db) target l) (listings db)"
    and "appended tn (if c then [LISTING_TIER_CHANGED] else []) db db'"
  using assms
  by (auto simp: set_tier_def Let_def bind_result_eq_Inr lift_Inr emit_Inr save_current_tier_def
      billing_frame_def tier_step_def [abs_def] appended_def split: if_splits)

text \<open>What the visibility rule does with a listing and with the flag.\<close>

definition hides :: "'z billing_db_scheme \<Rightarrow> tenant \<Rightarrow> entitlement \<Rightarrow> listing \<Rightarrow> bool" where
  "hides db tn ent l \<longleftrightarrow> ent_status ent = S_EXPIRED \<and> rank0_tier db (tn_pk tn) = None \<and> visibility l = V_PUBLISHED"

definition clears_flag :: "entitlement \<Rightarrow> bool" where
  "clears_flag ent \<longleftrightarrow> hidden_by_expiry ent \<and> ent_status ent \<in> set PERK_STATUSES"

definition unhides :: "entitlement \<Rightarrow> listing \<Rightarrow> bool" where
  "unhides ent l \<longleftrightarrow> clears_flag ent \<and> visibility l = V_HIDDEN"

definition visibility_step :: "'z billing_db_scheme \<Rightarrow> tenant \<Rightarrow> entitlement \<Rightarrow> listing \<Rightarrow> listing \<Rightarrow> listing" where
  "visibility_step db tn ent l x =
     (if hides db tn ent l then x\<lparr>visibility := V_HIDDEN, ls_updated_at := wall db\<rparr>
      else if unhides ent l then x\<lparr>visibility := V_PUBLISHED, ls_updated_at := wall db\<rparr> else x)"

definition flag_step :: "'z billing_db_scheme \<Rightarrow> tenant \<Rightarrow> entitlement \<Rightarrow> listing \<Rightarrow> entitlement \<Rightarrow> entitlement" where
  "flag_step db tn ent l e =
     (if hides db tn ent l then e\<lparr>hidden_by_expiry := True, ent_updated_at := wall db\<rparr>
      else if clears_flag ent then e\<lparr>hidden_by_expiry := False, ent_updated_at := wall db\<rparr> else e)"

lemma expired_no_perk [simp]: "S_EXPIRED \<notin> set PERK_STATUSES"
  by (simp add: PERK_STATUSES_def)

lemma set_listing_visibility_effect:
  assumes "set_listing_visibility l v actor reason db = Inr (l', db')" and "visibility l \<noteq> v"
    and "v = V_PUBLISHED \<or> visibility l = V_PUBLISHED"
  shows "billing_frame db db' \<and> entitlements db' = entitlements db \<and> mail db' = mail db
    \<and> l' = l\<lparr>visibility := v, ls_updated_at := wall db\<rparr>
    \<and> listings db' = update_where (\<lambda>x. ls_pk x = ls_pk l) (\<lambda>x. x\<lparr>visibility := v, ls_updated_at := wall db\<rparr>) (listings db)
    \<and> appended (ls_tenant l) [if v = V_PUBLISHED then LISTING_PUBLISHED else LISTING_UNPUBLISHED] db db'"
  using assms
  by (auto simp: set_listing_visibility_def atomic_def Let_def bind_result_eq_Inr emit_Inr save_visibility_def
      billing_frame_def appended_def split: sum.splits if_splits prod.splits)

lemma visibility_after_effect:
  assumes "visibility_after tn ent l out actor db = Inr ((out', l'), db')" and "ls_tenant l = tn_pk tn"
  shows "billing_frame db db'" and "mail db' = mail db"
    and "out' = out\<lparr>hid_listing := hid_listing out \<or> hides db tn ent l,
                    unhid_listing := unhid_listing out \<or> unhides ent l\<rparr>"
    and "l' = visibility_step db tn ent l l"
    and "listings db' = update_where (\<lambda>x. ls_pk x = ls_pk l) (visibility_step db tn ent l) (listings db)"
    and "entitlements db' = update_where (\<lambda>x. ent_pk x = ent_pk ent) (flag_step db tn ent l) (entitlements db)"
    and "appended (tn_pk tn) (if hides db tn ent l then [LISTING_UNPUBLISHED]
           else if unhides ent l then [LISTING_PUBLISHED] else []) db db'"
proof -
  consider (hide) "hides db tn ent l" | (unhide) "\<not> hides db tn ent l" "unhides ent l"
    | (clear) "\<not> hides db tn ent l" "\<not> unhides ent l" "clears_flag ent"
    | (none) "\<not> hides db tn ent l" "\<not> unhides ent l" "\<not> clears_flag ent" by blast
  note cases = this
  note defs = visibility_step_def [abs_def] flag_step_def [abs_def]
  have "billing_frame db db' \<and> mail db' = mail db
    \<and> out' = out\<lparr>hid_listing := hid_listing out \<or> hides db tn ent l, unhid_listing := unhid_listing out \<or> unhides ent l\<rparr>
    \<and> l' = visibility_step db tn ent l l
    \<and> listings db' = update_where (\<lambda>x. ls_pk x = ls_pk l) (visibility_step db tn ent l) (listings db)
    \<and> entitlements db' = update_where (\<lambda>x. ent_pk x = ent_pk ent) (flag_step db tn ent l) (entitlements db)
    \<and> appended (tn_pk tn) (if hides db tn ent l then [LISTING_UNPUBLISHED]
           else if unhides ent l then [LISTING_PUBLISHED] else []) db db'"
  proof (cases rule: cases)
    case hide
    then have h: "ent_status ent = S_EXPIRED" "rank0_tier db (tn_pk tn) = None" "visibility l = V_PUBLISHED"
      by (simp_all add: hides_def)
    with assms(1) obtain db1 where
      s: "set_listing_visibility l V_HIDDEN actor ''entitlement_expired'' db = Inr (l', db1)"
      and rest: "out' = out\<lparr>hid_listing := True\<rparr>" "db' = save_hidden ent True db1"
      by (auto simp: visibility_after_def bind_result_eq_Inr lift_Inr)
    have nu: "\<not> unhides ent l" using h by (simp add: unhides_def)
    from set_listing_visibility_effect [OF s] h(3) assms(2) rest hide nu show ?thesis
      by (auto simp: save_hidden_def billing_frame_def appended_def defs)
  next
    case unhide
    then have h: "hidden_by_expiry ent" "ent_status ent \<in> set PERK_STATUSES" "visibility l = V_HIDDEN"
      by (simp_all add: unhides_def clears_flag_def)
    moreover from h(2) have "ent_status ent \<noteq> S_EXPIRED" by auto
    ultimately obtain db1 where
      s: "set_listing_visibility l V_PUBLISHED actor ''entitlement_restored'' db = Inr (l', db1)"
      and rest: "out' = out\<lparr>unhid_listing := True\<rparr>" "db' = save_hidden ent False db1"
      using assms(1) by (auto simp: visibility_after_def bind_result_eq_Inr lift_Inr)
    from set_listing_visibility_effect [OF s] h(3) assms(2) rest unhide show ?thesis
      by (auto simp: save_hidden_def billing_frame_def appended_def defs unhides_def)
  next
    case clear
    then have "ent_status ent \<noteq> S_EXPIRED" "visibility l \<noteq> V_HIDDEN"
      by (auto simp: clears_flag_def unhides_def)
    with clear assms show ?thesis
      by (auto simp: visibility_after_def save_hidden_def billing_frame_def appended_def defs clears_flag_def)
  next
    case none
    then have "out' = out \<and> l' = l \<and> db' = db"
      using assms(1) by (auto simp: visibility_after_def hides_def clears_flag_def split: if_splits)
    with none show ?thesis by (simp add: appended_Nil defs)
  qed
  then show "billing_frame db db'" and "mail db' = mail db"
    and "out' = out\<lparr>hid_listing := hid_listing out \<or> hides db tn ent l,
                    unhid_listing := unhid_listing out \<or> unhides ent l\<rparr>"
    and "l' = visibility_step db tn ent l l"
    and "listings db' = update_where (\<lambda>x. ls_pk x = ls_pk l) (visibility_step db tn ent l) (listings db)"
    and "entitlements db' = update_where (\<lambda>x. ent_pk x = ent_pk ent) (flag_step db tn ent l) (entitlements db)"
    and "appended (tn_pk tn) (if hides db tn ent l then [LISTING_UNPUBLISHED]
           else if unhides ent l then [LISTING_PUBLISHED] else []) db db'"
    by simp_all
qed

text \<open>The mail step appends messages and nothing else.\<close>

definition mailed :: "nat \<Rightarrow> string list \<Rightarrow> 'z billing_db_scheme \<Rightarrow> 'z billing_db_scheme \<Rightarrow> bool" where
  "mailed tn kinds db db' \<longleftrightarrow> billing_frame db db' \<and> listings db' = listings db \<and> entitlements db' = entitlements db
     \<and> outbox db' = outbox db \<and> (\<exists>ms. mail db' = mail db @ ms \<and> map ms_kind ms = kinds
     \<and> (\<forall>m \<in> set ms. ms_tenant m = tn \<and> ms_status m = MsPending))"

lemma mailed_refl: "mailed tn [] db db"
  by (simp add: mailed_def)

lemma mailed_trans: "mailed tn ks db db' \<Longrightarrow> mailed tn ks' db' db'' \<Longrightarrow> mailed tn (ks @ ks') db db''"
  unfolding mailed_def
  apply (elim conjE exE)
  subgoal for ms ms'
    by (intro conjI exI [of _ "ms @ ms'"]) (auto intro: billing_frame_trans)
  done

text \<open>The owner a notice goes to.\<close>

definition reachable_owner :: "'z billing_db_scheme \<Rightarrow> listing \<Rightarrow> bool" where
  "reachable_owner db l \<longleftrightarrow> (\<exists>u owner. ls_owner l = Some u \<and> find_by usr_pk u (users db) = Some owner \<and> usr_email owner \<noteq> [])"

lemma send_notice_effect:
  "send_notice tn l kind subject lines expires db = Inr (u, db') \<Longrightarrow>
   mailed (tn_pk tn) (if reachable_owner db l then [kind] else []) db db'"
  by (auto simp: send_notice_def bind_result_eq_Inr lift_Inr enqueue_def Let_def new_message_def mailed_def
      billing_frame_def reachable_owner_def split: option.splits if_splits)

lemma send_notice_total:
  "in_atomic db \<Longrightarrow> \<exists>db'. send_notice tn l kind subject lines expires db = Inr ((), db')"
  by (auto simp: send_notice_def enqueue_def Let_def split: option.splits)

end
