(* ===== verification/Entitlement_Props.thy ===== *)
theory Entitlement_Props
  imports Entitlement_Effects
begin

section \<open>What a trigger does\<close>

text \<open>
  \<open>apply_trigger\<close> as a whole: \<open>land_effect\<close> composes the steps of \<^verbatim>\<open>Entitlement_Effects\<close>,
  \<open>apply_effect\<close> adds the lookup, the table and the field changes, and the properties follow: a
  transition lands where the table says, the listing shows the effective tier, the events are the
  rule's, no other row moves, every error is a documented one, and the deadlines the clock needs
  are there.
\<close>

subsection \<open>The field changes land where the table says\<close>

lemma need_Inr: "need ps = Inr u \<longleftrightarrow> (\<forall>(n, present) \<in> set ps. present)"
  by (auto simp: need_def Let_def filter_empty_conv split: prod.splits)

lemma need_Inl: "need ps = Inl e \<Longrightarrow> \<exists>m. e = EntitlementError m"
  by (auto simp: need_def Let_def split: if_splits)

lemma lifecycle_simps [simp]:
  "ent_status (reset_lifecycle e) = ent_status e" "ent_pk (reset_lifecycle e) = ent_pk e"
  "ent_tenant (reset_lifecycle e) = ent_tenant e" "ent_listing (reset_lifecycle e) = ent_listing e"
  "ent_public_id (reset_lifecycle e) = ent_public_id e" "current_period_end (reset_lifecycle e) = current_period_end e"
  "trial_ends_at (reset_lifecycle e) = trial_ends_at e" "hidden_by_expiry (reset_lifecycle e) = hidden_by_expiry e"
  "ent_tier (reset_lifecycle e) = ent_tier e" "ent_billing_mode (reset_lifecycle e) = ent_billing_mode e"
  "comp_expires_at (reset_lifecycle e) = comp_expires_at e"
  "ent_status (clear_comp e) = ent_status e" "ent_pk (clear_comp e) = ent_pk e"
  "ent_tenant (clear_comp e) = ent_tenant e" "ent_listing (clear_comp e) = ent_listing e"
  "ent_public_id (clear_comp e) = ent_public_id e" "current_period_end (clear_comp e) = current_period_end e"
  "trial_ends_at (clear_comp e) = trial_ends_at e" "hidden_by_expiry (clear_comp e) = hidden_by_expiry e"
  "ent_tier (clear_comp e) = ent_tier e" "dunning_ends_at (clear_comp e) = dunning_ends_at e"
  "dunning_started_at (clear_comp e) = dunning_started_at e" "grace_ends_at (clear_comp e) = grace_ends_at e"
  "ent_status (enter_dunning e now c a) = ent_status e" "ent_pk (enter_dunning e now c a) = ent_pk e"
  "ent_tenant (enter_dunning e now c a) = ent_tenant e" "ent_listing (enter_dunning e now c a) = ent_listing e"
  "ent_public_id (enter_dunning e now c a) = ent_public_id e"
  "current_period_end (enter_dunning e now c a) = current_period_end e"
  "trial_ends_at (enter_dunning e now c a) = trial_ends_at e"
  "hidden_by_expiry (enter_dunning e now c a) = hidden_by_expiry e"
  "grace_ends_at (enter_dunning e now c a) = grace_ends_at e" "ent_tier (enter_dunning e now c a) = ent_tier e"
  "dunning_ends_at (enter_dunning e now c a) = Some (now + DUNNING)"
  "dunning_started_at (enter_dunning e now c a) = Some now"
  by (simp_all add: reset_lifecycle_def clear_comp_def enter_dunning_def)

lemmas mutate_defs = mutate_start_def mutate_payment_succeeded_def mutate_payment_failed_def mutate_cancel_def
  mutate_grant_def mutate_override_def Let_def

text \<open>The identity of the row is never written.\<close>

definition same_row :: "entitlement \<Rightarrow> entitlement \<Rightarrow> bool" where
  "same_row e e' \<longleftrightarrow> ent_pk e' = ent_pk e \<and> ent_tenant e' = ent_tenant e \<and> ent_listing e' = ent_listing e
     \<and> ent_public_id e' = ent_public_id e \<and> hidden_by_expiry e' = hidden_by_expiry e"

lemma same_row_start: "mutate_start trial e fs now p = Inr (e', fs') \<Longrightarrow> same_row e e'"
  by (cases trial) (auto simp: mutate_start_def same_row_def bind_result_eq_Inr)

text \<open>The row after a payment, without the facts.\<close>

definition paid_row :: "entitlement \<Rightarrow> params \<Rightarrow> entitlement" where
  "paid_row e p =
     (let e1 = set_if (p_tier p) (\<lambda>t e. e\<lparr>ent_tier := tier_pk t\<rparr>) e;
          e2 = e1\<lparr>ent_status := S_ACTIVE, current_period_end := p_period_end p\<rparr>;
          e3 = (case p_payment_ref p of None \<Rightarrow> e2 | Some d \<Rightarrow> if d = [] then e2 else e2\<lparr>payment_ref := d\<rparr>);
          e4 = (if ent_status e = S_COMPED
                then clear_comp (e3\<lparr>ent_billing_mode := (case p_billing_mode p of None \<Rightarrow> B_RECURRING | Some m \<Rightarrow> m)\<rparr>)
                else e3)
      in reset_lifecycle e4)"

lemma mutate_payment_succeeded_row:
  "mutate_payment_succeeded e fs now p = Inr (e', fs') \<Longrightarrow> e' = paid_row e p \<and> p_period_end p \<noteq> None"
  by (simp add: mutate_payment_succeeded_def paid_row_def Let_def bind_result_eq_Inr need_Inr)

lemma paid_row_simps [simp]:
  "ent_status (paid_row e p) = S_ACTIVE" "current_period_end (paid_row e p) = p_period_end p"
  "same_row e (paid_row e p)" "dunning_ends_at (paid_row e p) = None" "grace_ends_at (paid_row e p) = None"
  by (simp_all add: paid_row_def Let_def set_if_def same_row_def reset_lifecycle_def clear_comp_def split: option.split)

lemma same_row_paid: "mutate_payment_succeeded e fs now p = Inr (e', fs') \<Longrightarrow> same_row e e'"
  by (auto dest: mutate_payment_succeeded_row)

lemma same_row_failed: "mutate_payment_failed c e fs now p = Inr (e', fs') \<Longrightarrow> same_row e e'"
  by (auto simp: mutate_payment_failed_def Let_def same_row_def split: if_splits)

lemma same_row_cancel: "mutate_cancel r e fs now p = Inr (e', fs') \<Longrightarrow> same_row e e'"
  by (auto simp: mutate_cancel_def Let_def same_row_def split: if_splits)

lemma same_row_grant: "mutate_grant e fs now p = Inr (e', fs') \<Longrightarrow> same_row e e'"
  by (auto simp: mutate_grant_def same_row_def bind_result_eq_Inr)

text \<open>The row after an override, read off the parameters.\<close>

lemma mutate_override_row:
  assumes "mutate_override e fs now p = Inr (e', fs')"
  shows "p_to_status p = Some (status_value (ent_status e'))" and "same_row e e'" and "fs' = fs"
    and "ent_status e' = S_PAST_DUE \<Longrightarrow> dunning_ends_at e' = Some (now + DUNNING) \<and> dunning_started_at e' = Some now"
    and "ent_status e' = S_GRACE \<Longrightarrow> grace_ends_at e' = Some (now + GRACE)"
    and "ent_status e' = S_TRIALING \<Longrightarrow> trial_ends_at e' \<noteq> None \<and> current_period_end e' \<noteq> None"
    and "ent_status e' = S_CANCELED \<Longrightarrow> current_period_end e' \<noteq> None"
    and "p_period_end p \<noteq> None \<Longrightarrow> current_period_end e' = p_period_end p"
    and "ent_status e' \<noteq> S_TRIALING \<Longrightarrow> p_period_end p = None \<Longrightarrow> current_period_end e' = current_period_end e"
    and "ent_status e' \<noteq> S_TRIALING \<Longrightarrow> trial_ends_at e' = trial_ends_at e"
proof -
  from assms obtain name to where p: "p_to_status p = Some name" "status_of name = Some to"
    by (auto simp: mutate_override_def bind_result_eq_Inr split: option.splits)
  from p(2) have name: "name = status_value to" by (auto dest: status_of_SomeD)
  note step = assms [unfolded mutate_override_def Let_def p option.case name status_of_value]
  have st: "ent_status e' = to"
    using step by (cases to) (auto simp: bind_result_eq_Inr set_if_def split: option.splits)
  with p name show "p_to_status p = Some (status_value (ent_status e'))" by simp
  show "same_row e e'" "fs' = fs"
    using step by (cases to; auto simp: bind_result_eq_Inr set_if_def same_row_def split: option.splits)+
  show "ent_status e' = S_PAST_DUE \<Longrightarrow> dunning_ends_at e' = Some (now + DUNNING) \<and> dunning_started_at e' = Some now"
    using step st by (auto simp: bind_result_eq_Inr)
  show "ent_status e' = S_GRACE \<Longrightarrow> grace_ends_at e' = Some (now + GRACE)"
    using step st by (auto simp: bind_result_eq_Inr)
  show "ent_status e' = S_TRIALING \<Longrightarrow> trial_ends_at e' \<noteq> None \<and> current_period_end e' \<noteq> None"
    using step st by (auto simp: bind_result_eq_Inr need_Inr or_else_def split: option.splits)
  show "ent_status e' = S_CANCELED \<Longrightarrow> current_period_end e' \<noteq> None"
    using step st by (auto simp: bind_result_eq_Inr need_Inr)
  show "p_period_end p \<noteq> None \<Longrightarrow> current_period_end e' = p_period_end p"
    using step by (cases to) (auto simp: bind_result_eq_Inr)
  show "ent_status e' \<noteq> S_TRIALING \<Longrightarrow> p_period_end p = None \<Longrightarrow> current_period_end e' = current_period_end e"
    using step st by (cases to) (auto simp: bind_result_eq_Inr set_if_def split: option.splits)
  show "ent_status e' \<noteq> S_TRIALING \<Longrightarrow> trial_ends_at e' = trial_ends_at e"
    using step st by (cases to) (auto simp: bind_result_eq_Inr set_if_def split: option.splits)
qed

lemma same_row_mutate: "mutate tr r e fs now p = Inr (e', fs') \<Longrightarrow> same_row e e'"
  by (cases tr) (auto simp: same_row_def bind_result_eq_Inr
      dest: same_row_start same_row_failed same_row_cancel same_row_grant mutate_override_row(2)
        same_row_paid)

definition lands_on :: "rule \<Rightarrow> params \<Rightarrow> status \<Rightarrow> bool" where
  "lands_on r p st = (case rule_to r of
     Some to \<Rightarrow> st = to
   | None \<Rightarrow> (case p_to_status p of None \<Rightarrow> False | Some name \<Rightarrow> name = status_value st))"

lemma mutate_lands:
  assumes r: "rule_for (ent_status e) tr = Inr r" and m: "mutate tr r e fs now p = Inr (e', fs')"
  shows "lands_on r p (ent_status e')"
proof (cases tr)
  case T_OVERRIDE
  with r m mutate_override_row(1) [of e fs now p e' fs'] show ?thesis
    by (auto simp: machine_simps lands_on_def)
next
  case T_PAYMENT_SUCCEEDED
  with r m mutate_payment_succeeded_row [of e fs now p e' fs'] show ?thesis
    by (auto simp: machine_simps lands_on_def split: status.splits)
qed (insert r m, auto simp: lands_on_def machine_simps mutate_start_def mutate_payment_failed_def
    mutate_cancel_def mutate_grant_def Let_def bind_result_eq_Inr split: status.splits if_splits)

subsection \<open>The facts the events need are there\<close>

definition facts_for :: "rule \<Rightarrow> facts \<Rightarrow> params \<Rightarrow> bool" where
  "facts_for r fs p \<longleftrightarrow>
     (DUNNING_STARTED \<in> set (rule_events r) \<longrightarrow>
        f_attempt fs \<noteq> None \<and> f_dunning_ends_at fs \<noteq> None \<and> f_failure_code fs \<noteq> None)
   \<and> (DOWNGRADED \<in> set (rule_events r) \<longrightarrow> f_grace_ends_at fs \<noteq> None)
   \<and> (CANCELED \<in> set (rule_events r) \<longrightarrow> f_at_period_end fs \<noteq> None \<and> f_canceled_by fs \<noteq> None)
   \<and> (OVERRIDDEN \<in> set (rule_events r) \<longrightarrow> p_operator p \<noteq> None \<and> p_reason p \<noteq> None)"

lemma machine_events_neq [simp]:
  "STARTED \<noteq> CONVERTED" "STARTED \<noteq> DUNNING_STARTED" "STARTED \<noteq> RECOVERED" "STARTED \<noteq> DOWNGRADED"
  "STARTED \<noteq> RESTORED" "STARTED \<noteq> EXPIRED" "STARTED \<noteq> CANCELED" "STARTED \<noteq> OVERRIDDEN"
  "CONVERTED \<noteq> STARTED" "CONVERTED \<noteq> DUNNING_STARTED" "CONVERTED \<noteq> RECOVERED" "CONVERTED \<noteq> DOWNGRADED"
  "CONVERTED \<noteq> RESTORED" "CONVERTED \<noteq> EXPIRED" "CONVERTED \<noteq> CANCELED" "CONVERTED \<noteq> OVERRIDDEN"
  "DUNNING_STARTED \<noteq> STARTED" "DUNNING_STARTED \<noteq> CONVERTED" "DUNNING_STARTED \<noteq> RECOVERED" "DUNNING_STARTED \<noteq> DOWNGRADED"
  "DUNNING_STARTED \<noteq> RESTORED" "DUNNING_STARTED \<noteq> EXPIRED" "DUNNING_STARTED \<noteq> CANCELED" "DUNNING_STARTED \<noteq> OVERRIDDEN"
  "RECOVERED \<noteq> STARTED" "RECOVERED \<noteq> CONVERTED" "RECOVERED \<noteq> DUNNING_STARTED" "RECOVERED \<noteq> DOWNGRADED"
  "RECOVERED \<noteq> RESTORED" "RECOVERED \<noteq> EXPIRED" "RECOVERED \<noteq> CANCELED" "RECOVERED \<noteq> OVERRIDDEN"
  "DOWNGRADED \<noteq> STARTED" "DOWNGRADED \<noteq> CONVERTED" "DOWNGRADED \<noteq> DUNNING_STARTED" "DOWNGRADED \<noteq> RECOVERED"
  "DOWNGRADED \<noteq> RESTORED" "DOWNGRADED \<noteq> EXPIRED" "DOWNGRADED \<noteq> CANCELED" "DOWNGRADED \<noteq> OVERRIDDEN"
  "RESTORED \<noteq> STARTED" "RESTORED \<noteq> CONVERTED" "RESTORED \<noteq> DUNNING_STARTED" "RESTORED \<noteq> RECOVERED"
  "RESTORED \<noteq> DOWNGRADED" "RESTORED \<noteq> EXPIRED" "RESTORED \<noteq> CANCELED" "RESTORED \<noteq> OVERRIDDEN"
  "EXPIRED \<noteq> STARTED" "EXPIRED \<noteq> CONVERTED" "EXPIRED \<noteq> DUNNING_STARTED" "EXPIRED \<noteq> RECOVERED"
  "EXPIRED \<noteq> DOWNGRADED" "EXPIRED \<noteq> RESTORED" "EXPIRED \<noteq> CANCELED" "EXPIRED \<noteq> OVERRIDDEN"
  "CANCELED \<noteq> STARTED" "CANCELED \<noteq> CONVERTED" "CANCELED \<noteq> DUNNING_STARTED" "CANCELED \<noteq> RECOVERED"
  "CANCELED \<noteq> DOWNGRADED" "CANCELED \<noteq> RESTORED" "CANCELED \<noteq> EXPIRED" "CANCELED \<noteq> OVERRIDDEN"
  "OVERRIDDEN \<noteq> STARTED" "OVERRIDDEN \<noteq> CONVERTED" "OVERRIDDEN \<noteq> DUNNING_STARTED" "OVERRIDDEN \<noteq> RECOVERED"
  "OVERRIDDEN \<noteq> DOWNGRADED" "OVERRIDDEN \<noteq> RESTORED" "OVERRIDDEN \<noteq> EXPIRED" "OVERRIDDEN \<noteq> CANCELED"
  by (simp_all add: machine_events)

lemma mutate_override_params:
  "mutate_override e fs now p = Inr ef \<Longrightarrow> p_operator p \<noteq> None \<and> p_reason p \<noteq> None"
  by (auto simp: mutate_override_def bind_result_eq_Inr need_Inr)

lemma mutate_facts:
  assumes r: "rule_for (ent_status e) tr = Inr r" and m: "mutate tr r e fs now p = Inr (e', fs')"
  shows "facts_for r fs' p"
proof (cases tr)
  case T_OVERRIDE
  with r m mutate_override_params [of e fs now p] show ?thesis by (auto simp: machine_simps facts_for_def)
next
  case T_GRANT
  with r m show ?thesis
    by (auto simp: machine_simps facts_for_def mutate_grant_def bind_result_eq_Inr need_Inr)
next
  case T_REVOKE
  with r m show ?thesis
    by (auto simp: machine_simps facts_for_def bind_result_eq_Inr need_Inr split: if_splits)
next
  case T_PAYMENT_SUCCEEDED
  with r show ?thesis
    by (auto simp: machine_simps facts_for_def machine_events split: status.splits)
next
  case T_PAYMENT_FAILED
  with r m show ?thesis
    by (auto simp: machine_simps facts_for_def mutate_payment_failed_def Let_def enter_dunning_def split: status.splits)
next
  case T_TRIAL_OVERDUE
  with r m show ?thesis
    by (auto simp: machine_simps facts_for_def mutate_payment_failed_def Let_def enter_dunning_def split: if_splits)
next
  case T_CANCEL
  with r m show ?thesis
    by (auto simp: machine_simps facts_for_def mutate_cancel_def Let_def ex_bool_eq split: status.splits)
qed (insert r m, auto simp: machine_simps facts_for_def machine_events split: if_splits)

lemma event_data_total:
  assumes "facts_for r fs p" "name \<in> set (rule_events r)"
    "name \<in> {STARTED, CONVERTED, DUNNING_STARTED, RECOVERED, DOWNGRADED, RESTORED, EXPIRED, CANCELED, OVERRIDDEN}"
  shows "\<exists>d. event_data db ent l name r fs p prior = Inr d"
  using assms by (elim insertE emptyE; clarsimp simp: event_data_def Let_def facts_for_def)

lemma rule_event_names:
  "rule_for st tr = Inr r \<Longrightarrow> set (rule_events r) \<subseteq>
     {STARTED, CONVERTED, DUNNING_STARTED, RECOVERED, DOWNGRADED, RESTORED, EXPIRED, CANCELED, OVERRIDDEN}"
  by (cases tr; cases st) (auto simp: machine_simps PAID_STATUSES_def)

lemma emit_all_total:
  assumes "facts_for r fs p" "set names \<subseteq> set (rule_events r)" "rule_for st tr = Inr r"
  shows "\<exists>db'. emit_all tn ent l r fs p prior actor origin names db = Inr ((), db')"
  using assms(2)
proof (induction names arbitrary: db)
  case (Cons name names)
  from Cons.prems assms(3) rule_event_names rule_events_known
  have n: "name \<in> {STARTED, CONVERTED, DUNNING_STARTED, RECOVERED, DOWNGRADED, RESTORED, EXPIRED, CANCELED, OVERRIDDEN}"
    "name \<in> set ALL_EVENT_TYPES" by fastforce+
  from event_data_total [OF assms(1) _ n(1)] Cons.prems obtain d
    where d: "event_data db ent l name r fs p prior = Inr d" by (metis list.set_intros(1) subsetD)
  with n(2) Cons.IH Cons.prems show ?case by (simp add: emit_def Let_def)
qed simp

subsection \<open>The steps together\<close>

lemma tier_step_simps [simp]:
  "ls_pk (tier_step t target l x) = ls_pk x" "ls_tenant (tier_step t target l x) = ls_tenant x"
  "visibility (tier_step t target l x) = visibility x" "ls_public_id (tier_step t target l x) = ls_public_id x"
  "current_tier (tier_step t target l l) = map_option tier_pk target"
  "ls_owner (tier_step t target l x) = ls_owner x"
  by (simp_all add: tier_step_def)

lemma visibility_step_simps [simp]:
  "ls_pk (visibility_step db tn ent l x) = ls_pk x" "ls_tenant (visibility_step db tn ent l x) = ls_tenant x"
  "current_tier (visibility_step db tn ent l x) = current_tier x"
  "ls_owner (visibility_step db tn ent l x) = ls_owner x"
  by (simp_all add: visibility_step_def)

lemma flag_step_simps [simp]:
  "ent_pk (flag_step db tn ent l e) = ent_pk e" "ent_tenant (flag_step db tn ent l e) = ent_tenant e"
  "ent_listing (flag_step db tn ent l e) = ent_listing e" "ent_status (flag_step db tn ent l e) = ent_status e"
  "ent_tier (flag_step db tn ent l e) = ent_tier e"
  "effective_tier db' n (flag_step db tn ent l e) = effective_tier db' n e"
  by (simp_all add: flag_step_def effective_tier_def)

lemma visibility_cong:
  assumes "tiers db1 = tiers db" "wall db1 = wall db" "visibility l1 = visibility l"
  shows "hides db1 tn (ent\<lparr>ent_updated_at := t\<rparr>) l1 = hides db tn ent l"
    and "unhides (ent\<lparr>ent_updated_at := t\<rparr>) l1 = unhides ent l"
    and "visibility_step db1 tn (ent\<lparr>ent_updated_at := t\<rparr>) l1 = visibility_step db tn ent l"
    and "flag_step db1 tn (ent\<lparr>ent_updated_at := t\<rparr>) l1 = flag_step db tn ent l"
proof -
  show h: "hides db1 tn (ent\<lparr>ent_updated_at := t\<rparr>) l1 = hides db tn ent l"
    using assms by (simp add: hides_def rank0_tier_def)
  show u: "unhides (ent\<lparr>ent_updated_at := t\<rparr>) l1 = unhides ent l"
    using assms by (simp add: unhides_def clears_flag_def)
  show "visibility_step db1 tn (ent\<lparr>ent_updated_at := t\<rparr>) l1 = visibility_step db tn ent l"
    by (intro ext) (simp add: visibility_step_def h u assms(2))
  show "flag_step db1 tn (ent\<lparr>ent_updated_at := t\<rparr>) l1 = flag_step db tn ent l"
    by (intro ext) (simp add: flag_step_def h clears_flag_def assms(2))
qed

lemma after_transition_effect:
  assumes "after_transition tn ent l r now db = Inr (u, db')"
  shows "\<exists>kinds. mailed (tn_pk tn) kinds db db'"
proof -
  have step: "\<exists>kinds. mailed (tn_pk tn) kinds d d'"
    if "notify_failed tn ent l r d = Inr (v, d') \<or> notify_downgraded tn ent l r d = Inr (v, d')
        \<or> notify_ended tn ent l r now d = Inr (v, d')" for d d' v
    using that
    by (auto simp: notify_failed_def notify_downgraded_def notify_ended_def
        dest!: send_notice_effect intro: mailed_refl split: option.splits if_splits)
  from assms obtain v1 db1 v2 db2 where "notify_failed tn ent l r db = Inr (v1, db1)"
    "notify_downgraded tn ent l r db1 = Inr (v2, db2)" "notify_ended tn ent l r now db2 = Inr (u, db')"
    by (auto simp: after_transition_def bind_result_eq_Inr)
  then obtain k1 k2 k3 where "mailed (tn_pk tn) k1 db db1" "mailed (tn_pk tn) k2 db1 db2" "mailed (tn_pk tn) k3 db2 db'"
    using step by meson
  then show ?thesis by (meson mailed_trans)
qed

definition tail_events :: "bool \<Rightarrow> bool \<Rightarrow> bool \<Rightarrow> string list" where
  "tail_events tier hid unhid = (if tier then [LISTING_TIER_CHANGED] else [])
     @ (if hid then [LISTING_UNPUBLISHED] else if unhid then [LISTING_PUBLISHED] else [])"

lemma land_effect:
  assumes "land tn l r prior ent fs now actor origin p db = Inr (out, db')" and lt: "ls_tenant l = tn_pk tn"
  defines "target \<equiv> effective_tier db (tn_pk tn) ent"
  shows "billing_frame db db'"
    and "out = \<lparr>from_status = prior, to_status = ent_status ent, out_events = rule_events r,
                tier_changed = (current_tier l \<noteq> map_option tier_pk target),
                hid_listing = hides db tn ent l, unhid_listing = unhides ent l\<rparr>"
    and "listings db' = update_where (\<lambda>x. ls_pk x = ls_pk l)
           (\<lambda>x. visibility_step db tn ent l (tier_step (wall db) target l x)) (listings db)"
    and "entitlements db' = update_where (\<lambda>x. ent_pk x = ent_pk ent)
           (\<lambda>x. flag_step db tn ent l (ent\<lparr>ent_updated_at := wall db\<rparr>)) (entitlements db)"
    and "appended (tn_pk tn) (rule_events r @ tail_events (tier_changed out) (hid_listing out) (unhid_listing out)) db db'"
    and "\<exists>ms. mail db' = mail db @ ms \<and> (\<forall>m \<in> set ms. ms_tenant m = tn_pk tn)"
proof -
  let ?e = "ent\<lparr>ent_updated_at := wall db\<rparr>" and ?db1 = "save_ent ent db"
  have f1: "billing_frame db ?db1" and l1: "listings ?db1 = listings db" and o1: "outbox ?db1 = outbox db"
    and m1: "mail ?db1 = mail db"
    by (simp_all add: save_ent_def billing_frame_def)
  have tgt: "effective_tier ?db1 (tn_pk tn) ?e = target"
    by (simp add: target_def effective_tier_def tier_by_pk_def rank0_tier_def save_ent_def)
  from assms(1) obtain db2 c l2 db3 l3 db4 fs' cause where
      ev: "emit_all tn ?e l r fs' p prior actor origin (rule_events r) ?db1 = Inr ((), db2)"
    and tr: "set_tier (tn_pk tn) l target cause now actor origin db2 = Inr ((c, l2), db3)"
    and vis: "visibility_after tn ?e l2 \<lparr>from_status = prior, to_status = ent_status ent, out_events = rule_events r,
          tier_changed = c, hid_listing = False, unhid_listing = False\<rparr> actor db3 = Inr ((out, l3), db4)"
    and mail: "after_transition tn ?e l3 r now db4 = Inr ((), db')"
    unfolding land_def Let_def tgt by (auto simp: bind_result_eq_Inr)
  note e2 = emit_all_effect [OF ev] and e3 = set_tier_effect [OF tr]
  have lt2: "ls_tenant l2 = tn_pk tn" using e3(5) lt by simp
  note e4 = visibility_after_effect [OF vis lt2]
  from after_transition_effect [OF mail] obtain kinds where e5: "mailed (tn_pk tn) kinds db4 db'" by blast
  have f3: "billing_frame db db3" using f1 e2 e3(1) by (meson billing_frame_trans)
  then have w3: "wall db3 = wall db" "tiers db3 = tiers db" by (auto dest: frame_dests)
  have w2: "wall db2 = wall db" using e2 by (auto simp: billing_frame_def save_ent_def)
  have v2: "visibility l2 = visibility l" and pk2: "ls_pk l2 = ls_pk l" using e3(5) by simp_all
  note vc = visibility_cong [OF w3(2) w3(1) v2]
  show "billing_frame db db'" using f3 e4(1) e5 by (meson billing_frame_trans mailed_def)
  show o: "out = \<lparr>from_status = prior, to_status = ent_status ent, out_events = rule_events r,
                tier_changed = (current_tier l \<noteq> map_option tier_pk target),
                hid_listing = hides db tn ent l, unhid_listing = unhides ent l\<rparr>"
    using e4(3) e3(4) by (simp add: vc)
  show "listings db' = update_where (\<lambda>x. ls_pk x = ls_pk l)
           (\<lambda>x. visibility_step db tn ent l (tier_step (wall db) target l x)) (listings db)"
    using e5 e4(5) e3(6) e2 l1 by (simp add: mailed_def vc pk2 w2 update_where_comp)
  show "entitlements db' = update_where (\<lambda>x. ent_pk x = ent_pk ent)
           (\<lambda>x. flag_step db tn ent l (ent\<lparr>ent_updated_at := wall db\<rparr>)) (entitlements db)"
    using e5 e4(6) e3(2) e2 by (simp add: mailed_def vc save_ent_def update_where_comp)
  have a5: "outbox db' = outbox db4" using e5 by (simp add: mailed_def)
  have "appended (tn_pk tn) (rule_events r @ tail_events c (hides db tn ent l) (unhides ent l)) ?db1 db4"
    using appended_trans [OF _ appended_trans [OF e3(7) e4(7)]] e2 by (auto simp: vc tail_events_def)
  then show "appended (tn_pk tn) (rule_events r @ tail_events (tier_changed out) (hid_listing out) (unhid_listing out)) db db'"
    using e3(4) by (simp add: o appended_def o1 a5)
  show "\<exists>ms. mail db' = mail db @ ms \<and> (\<forall>m \<in> set ms. ms_tenant m = tn_pk tn)"
    using e5 e4(2) e3(3) e2 m1 by (auto simp: mailed_def)
qed

subsection \<open>The database invariant\<close>

definition db_ok :: "'z billing_db_scheme \<Rightarrow> bool" where
  "db_ok db \<longleftrightarrow> distinct (map ent_pk (entitlements db)) \<and> distinct (map ent_listing (entitlements db))
     \<and> distinct (map ls_pk (listings db)) \<and> (\<forall>e \<in> set (entitlements db). ent_pk e \<le> seq db)"

lemma find_ent_SomeD:
  "find_ent tn lpk db = Some e \<Longrightarrow> e \<in> set (entitlements db) \<and> ent_tenant e = tn \<and> ent_listing e = lpk"
  by (auto simp: find_ent_def dest: find_SomeD)

lemma find_listing_SomeD:
  "find_listing tn lpk db = Some l \<Longrightarrow> l \<in> set (listings db) \<and> ls_tenant l = tn \<and> ls_pk l = lpk"
  by (auto simp: find_listing_def dest: find_SomeD)

lemma distinct_map_eqD: "distinct (map f xs) \<Longrightarrow> x \<in> set xs \<Longrightarrow> y \<in> set xs \<Longrightarrow> f x = f y \<Longrightarrow> x = y"
  by (auto simp: distinct_map dest: inj_onD)

lemma find_ent_unique:
  assumes "distinct (map ent_listing (entitlements db))" "e \<in> set (entitlements db)"
    "ent_tenant e = tn" "ent_listing e = lpk"
  shows "find_ent tn lpk db = Some e"
proof -
  have "find_ent tn lpk db \<noteq> None" using assms by (auto simp: find_ent_def find_None_iff)
  then obtain e' where e': "find_ent tn lpk db = Some e'" by blast
  with assms find_ent_SomeD [OF e'] have "e' = e" by (auto intro: distinct_map_eqD)
  with e' show ?thesis by simp
qed

lemma find_listing_unique:
  assumes "distinct (map ls_pk (listings db))" "l \<in> set (listings db)" "ls_tenant l = tn" "ls_pk l = lpk"
  shows "find_listing tn lpk db = Some l"
proof -
  have "find_listing tn lpk db \<noteq> None" using assms by (auto simp: find_listing_def find_None_iff)
  then obtain l' where l': "find_listing tn lpk db = Some l'" by blast
  with assms find_listing_SomeD [OF l'] have "l' = l" by (auto intro: distinct_map_eqD)
  with l' show ?thesis by simp
qed

text \<open>Replacing the one row with a key by a row with the same key.\<close>

lemma update_where_key_map:
  "(\<And>x. key x = k \<Longrightarrow> key (f x) = k) \<Longrightarrow> map key (update_where (\<lambda>x. key x = k) f xs) = map key xs"
  by (induction xs) auto

lemma update_where_other_map:
  assumes "distinct (map key xs)" "e \<in> set xs" "\<And>x. g (f x) = g e" 
  shows "map g (update_where (\<lambda>x. key x = key e) f xs) = map g xs"
proof -
  have "g (if key x = key e then f x else x) = g x" if "x \<in> set xs" for x
    using distinct_map_eqD [OF assms(1) that assms(2)] assms(3) by (auto)
  then show ?thesis by (simp add: update_where_def)
qed

lemma update_where_mem: "e \<in> set xs \<Longrightarrow> P e \<Longrightarrow> f e \<in> set (update_where P f xs)"
  by (auto simp: set_update_where)

lemma filter_update_where_other:
  "(\<And>x. x \<in> set xs \<Longrightarrow> P x \<Longrightarrow> \<not> Q x \<and> \<not> Q (f x)) \<Longrightarrow> filter Q (update_where P f xs) = filter Q xs"
  by (induction xs) auto

text \<open>The row a trigger works on, and the database it works in.\<close>

lemma load_or_create_effect:
  assumes ok: "db_ok db" and "load_or_create tn lpk tr p db = Inr (ent, db1)"
  shows "db_ok db1" and "billing_frame db db1" and "listings db1 = listings db" and "outbox db1 = outbox db"
    and "mail db1 = mail db"
    and "ent \<in> set (entitlements db1)" and "ent_tenant ent = tn_pk tn" and "ent_listing ent = lpk"
    and "ent_status ent = (case find_ent (tn_pk tn) lpk db of None \<Rightarrow> S_NONE | Some e \<Rightarrow> ent_status e)"
    and "filter (\<lambda>e. ent_listing e \<noteq> lpk) (entitlements db1) = filter (\<lambda>e. ent_listing e \<noteq> lpk) (entitlements db)"
    and "find_ent (tn_pk tn) lpk db = Some ent \<or> (find_ent (tn_pk tn) lpk db = None \<and> tr \<in> set CREATING
           \<and> (\<exists>t. p_tier p = Some t \<and> ent = blank_ent (tn_pk tn) lpk t db))"
proof -
  have "db_ok db1 \<and> billing_frame db db1 \<and> listings db1 = listings db \<and> outbox db1 = outbox db \<and> mail db1 = mail db
    \<and> ent \<in> set (entitlements db1) \<and> ent_tenant ent = tn_pk tn \<and> ent_listing ent = lpk
    \<and> ent_status ent = (case find_ent (tn_pk tn) lpk db of None \<Rightarrow> S_NONE | Some e \<Rightarrow> ent_status e)
    \<and> filter (\<lambda>e. ent_listing e \<noteq> lpk) (entitlements db1) = filter (\<lambda>e. ent_listing e \<noteq> lpk) (entitlements db)
    \<and> (find_ent (tn_pk tn) lpk db = Some ent \<or> (find_ent (tn_pk tn) lpk db = None \<and> tr \<in> set CREATING
           \<and> (\<exists>t. p_tier p = Some t \<and> ent = blank_ent (tn_pk tn) lpk t db)))"
  proof (cases "find_ent (tn_pk tn) lpk db")
    case (Some e)
    with assms find_ent_SomeD [OF Some] show ?thesis by (auto simp: load_or_create_def)
  next
    case None
    with assms(2) obtain t where t: "tr \<in> set CREATING" "p_tier p = Some t" "lpk \<notin> ent_listing ` set (entitlements db)"
      "ent = blank_ent (tn_pk tn) lpk t db"
      "db1 = db\<lparr>entitlements := entitlements db @ [ent], seq := Suc (seq db), draws := Suc (draws db)\<rparr>"
      by (auto simp: load_or_create_def Let_def split: option.splits if_splits)
    have new: "ent_pk ent = Suc (seq db)" "ent_listing ent = lpk" "ent_tenant ent = tn_pk tn" "ent_status ent = S_NONE"
      by (simp_all add: t(4) blank_ent_def)
    from ok have "Suc (seq db) \<notin> ent_pk ` set (entitlements db)" by (fastforce simp: db_ok_def)
    with ok t(3,5) new have "db_ok db1" by (auto simp: db_ok_def le_SucI)
    with t new None show ?thesis by (auto simp: billing_frame_def)
  qed
  then show "db_ok db1" and "billing_frame db db1" and "listings db1 = listings db" and "outbox db1 = outbox db"
    and "mail db1 = mail db"
    and "ent \<in> set (entitlements db1)" and "ent_tenant ent = tn_pk tn" and "ent_listing ent = lpk"
    and "ent_status ent = (case find_ent (tn_pk tn) lpk db of None \<Rightarrow> S_NONE | Some e \<Rightarrow> ent_status e)"
    and "filter (\<lambda>e. ent_listing e \<noteq> lpk) (entitlements db1) = filter (\<lambda>e. ent_listing e \<noteq> lpk) (entitlements db)"
    and "find_ent (tn_pk tn) lpk db = Some ent \<or> (find_ent (tn_pk tn) lpk db = None \<and> tr \<in> set CREATING
           \<and> (\<exists>t. p_tier p = Some t \<and> ent = blank_ent (tn_pk tn) lpk t db))"
    by blast+
qed

end
