(* ===== verification/Samples.thy ===== *)
theory Samples
  imports Entitlements
begin

section \<open>Sample data\<close>

text \<open>
  One small tenant, its tiers, a published listing with an owner, and entitlement rows in the states the
  properties speak of: the concrete inputs at which the properties are instantiated.
\<close>

definition sample_now :: instant where
  "sample_now = 1767225600000000"

definition sample_tenant :: tenant where
  "sample_tenant = \<lparr>tn_pk = 1, tn_public_id = ''tnt_1'', tn_slug = ''acme'', tn_name = ''Acme'',
     primary_domain = Some ''acme.example'', domain_verified_at = Some 0, tn_settings = [], tn_mode = ''single'', tn_status = ''active'', tn_created_by = None\<rparr>"

definition sample_operator :: operator where
  "sample_operator = \<lparr>op_pk = 5, op_public_id = ''op_5'', op_email = ''op@example.com'', op_is_active = True, op_name = [], op_password = Some ''pw'', op_is_superadmin = False, op_is_staff = False, op_is_superuser = False\<rparr>"

definition sample_listing :: listing where
  "sample_listing = \<lparr>ls_pk = 10, ls_tenant = 1, ls_type_key = ''business'', ls_public_id = ''lst_10'',
     ls_slug = ''cafe'', ls_name = ''Cafe'', description = [], ls_status = L_CLAIMED, visibility = V_PUBLISHED,
     current_tier = Some 2, ls_owner = Some 7, categories = [], address_line1 = [], address_line2 = [],
     locality = [], region = [], postal_code = [], country = [], lat = None, lon = None,
     geo_precision = ''none'', phone_e164 = ''+441234567890'', email = ''cafe@example.com'', website = [],
     social = [], external_profiles = [], attributes = [], custom_fields = [],
     ls_media = \<lparr>logo = JNull, cover = JNull, gallery = []\<rparr>, reviews_disabled = False,
     source = ''manual'', provenance_notes = [], ls_updated_at = 0, ls_created_at = 0, ls_import_batch = None, ls_submitted_by = None\<rparr>"

definition sample_user :: user where
  "sample_user = \<lparr>usr_pk = 7, usr_tenant = 1, usr_public_id = ''usr_7'', usr_email = ''owner@example.com'', usr_name = ''Ann'',
     usr_phone_e164 = [], usr_created_at = 0\<rparr>"

definition sample_tier :: tier where
  "sample_tier = \<lparr>tier_pk = 2, tier_tenant = 1, tier_public_id = ''tier_2'', tier_key = ''gold'',
     tier_name = ''Gold'', tier_rank = 2, purchasable = True, uses_slot = False, price_minor = Some 1000,
     currency = ''GBP'', interval = ''month'', trial_days = None, perks = JObj [], badge_label = []\<rparr>"

definition sample_ent :: "status \<Rightarrow> entitlement" where
  "sample_ent st = \<lparr>ent_pk = 20, ent_tenant = 1, ent_listing = 10, ent_public_id = ''ent_20'', ent_tier = 2,
     ent_status = st, ent_billing_mode = B_RECURRING, term_days = None, started_at = Some 0,
     current_period_end = Some sample_now, trial_ends_at = Some (sample_now - days 4),
     dunning_started_at = Some (sample_now - days 14), grace_ends_at = Some sample_now,
     cancel_at_period_end = False, dunning_ends_at = Some sample_now, failed_attempts = 1,
     last_failure_code = ''card_declined'', canceled_at = None, canceled_by = [], renewal_notified_at = None,
     hidden_by_expiry = False, comp_granted_by = None, comp_reason = [], comp_expires_at = Some sample_now,
     payment_ref = [], ent_updated_at = 0\<rparr>"

definition sample_membership :: membership where
  "sample_membership = \<lparr>mb_operator = 5, mb_tenant = 1, mb_role = ROLE_MANAGER, mb_status = MbActive, mb_pk = 1, mb_invited_by = None, mb_accepted_at = None\<rparr>"

definition sample_db :: "entitlement list \<Rightarrow> billing_db" where
  "sample_db ents = \<lparr>wall = sample_now, entropy = (\<lambda>n. n), draws = 0, seq = 100, in_atomic = False,
     tenants = [sample_tenant], memberships = [sample_membership], outbox = [], deliveries = [], mail = [], counters = [],
     commands = [], accesses = [], listings = [sample_listing], users = [sample_user], tiers = [sample_tier],
     entitlements = ents, checkouts = [], receipts = []\<rparr>"

end
