(* ===== verification/Transitions.thy ===== *)
theory Transitions
  imports Entitlement_Props Samples
begin

section \<open>Properties of \<open>apply_trigger\<close>\<close>

text \<open>
  The properties of a whole transition, over the lemmas of \<^verbatim>\<open>Entitlement_Props\<close>: where it lands, the
  tier it leaves on the listing, the events it writes, what it does not touch, its errors, and the
  deadlines it leaves for the clock.
\<close>

subsection \<open>A successful transition, taken apart\<close>

lemma db_ok_in_atomic [simp]: "db_ok (db\<lparr>in_atomic := b\<rparr>) = db_ok db"
  by (simp add: db_ok_def)

lemma find_in_atomic [simp]:
  "find_ent tn lpk (db\<lparr>in_atomic := b\<rparr>) = find_ent tn lpk db"
  "find_listing tn lpk (db\<lparr>in_atomic := b\<rparr>) = find_listing tn lpk db"
  "effective_tier (db\<lparr>in_atomic := b\<rparr>) = effective_tier db"
  by (simp_all add: find_ent_def find_listing_def effective_tier_cong [of "db\<lparr>in_atomic := b\<rparr>" db])

lemma apply_trigger_E:
  assumes "apply_trigger tn lpk tr now actor origin p db = Inr (out, db')"
  obtains l ent db1 r ent' fs' db2 where
    "find_listing (tn_pk tn) lpk db = Some l"
    "load_or_create tn lpk tr p (db\<lparr>in_atomic := True\<rparr>) = Inr (ent, db1)"
    "rule_for (ent_status ent) tr = Inr r"
    "tr \<in> set CLOCK_TRIGGERS \<Longrightarrow> is_due ent tr now"
    "mutate tr r ent (init_facts (ent_tier_key db1 ent) (ent_status ent)) now p = Inr (ent', fs')"
    "land tn l r (ent_status ent) ent' (fs'\<lparr>f_to_status := ent_status ent'\<rparr>) now actor origin p db1 = Inr (out, db2)"
    "db' = db2\<lparr>in_atomic := in_atomic db\<rparr>"
  using assms
  by (auto simp: apply_trigger_def atomic_def apply_body_def bind_result_eq_Inr lift_Inr due_or_raise_def
      split: sum.splits option.splits prod.splits if_splits)

lemma db_ok_replace:
  assumes ok: "db_ok db1"
    and ents: "entitlements db2 = update_where (\<lambda>x. ent_pk x = ent_pk ent) (\<lambda>x. new) (entitlements db1)"
    and lists: "listings db2 = update_where (\<lambda>x. ls_pk x = lpk) f (listings db)"
    and ls1: "listings db1 = listings db" and mem: "ent \<in> set (entitlements db1)"
    and new: "ent_pk new = ent_pk ent" "ent_listing new = ent_listing ent"
    and f: "\<And>x. ls_pk (f x) = ls_pk x" and s2: "seq db1 \<le> seq db2"
  shows "db_ok db2"
proof -
  have d1: "distinct (map ent_pk (entitlements db1))" using ok by (simp add: db_ok_def)
  have mp: "map ent_pk (entitlements db2) = map ent_pk (entitlements db1)"
    unfolding ents by (rule update_where_key_map) (simp add: new)
  have ml: "map ent_listing (entitlements db2) = map ent_listing (entitlements db1)"
    unfolding ents by (rule update_where_other_map [OF d1 mem]) (simp add: new)
  have mls: "map ls_pk (listings db2) = map ls_pk (listings db1)"
    unfolding lists ls1 by (rule update_where_key_map) (simp add: f)
  have "ent_pk ` set (entitlements db2) = ent_pk ` set (entitlements db1)" by (metis list.set_map mp)
  then have "\<forall>x \<in> set (entitlements db2). ent_pk x \<le> seq db2"
    using ok s2 unfolding db_ok_def by (metis (no_types, lifting) image_iff order_trans)
  then show ?thesis using ok mp ml mls by (simp add: db_ok_def)
qed

text \<open>The two rows a transition writes, as functions of the rows before it.\<close>

lemma apply_trigger_rows:
  assumes ok: "db_ok db" and ap: "apply_trigger tn lpk tr now actor origin p db = Inr (out, db')"
  obtains ent r ent' l fs fs' where
    "find_listing (tn_pk tn) lpk db = Some l"
    "find_ent (tn_pk tn) lpk db = Some ent \<or> (find_ent (tn_pk tn) lpk db = None \<and> tr \<in> set CREATING
           \<and> (\<exists>t. p_tier p = Some t \<and> ent = blank_ent (tn_pk tn) lpk t (db\<lparr>in_atomic := True\<rparr>)))"
    "ent_status ent = (case find_ent (tn_pk tn) lpk db of None \<Rightarrow> S_NONE | Some e \<Rightarrow> ent_status e)"
    "rule_for (ent_status ent) tr = Inr r" "tr \<in> set CLOCK_TRIGGERS \<Longrightarrow> is_due ent tr now"
    "mutate tr r ent fs now p = Inr (ent', fs')"
    "find_ent (tn_pk tn) lpk db' = Some (flag_step db tn ent' l (ent'\<lparr>ent_updated_at := wall db\<rparr>))"
    "find_listing (tn_pk tn) lpk db' =
       Some (visibility_step db tn ent' l (tier_step (wall db) (effective_tier db (tn_pk tn) ent') l l))"
    "out = \<lparr>from_status = ent_status ent, to_status = ent_status ent', out_events = rule_events r,
            tier_changed = (current_tier l \<noteq> map_option tier_pk (effective_tier db (tn_pk tn) ent')),
            hid_listing = hides db tn ent' l, unhid_listing = unhides ent' l\<rparr>"
    "db_ok db'" "billing_frame db db'"
    "filter (\<lambda>e. ent_listing e \<noteq> lpk) (entitlements db') = filter (\<lambda>e. ent_listing e \<noteq> lpk) (entitlements db)"
    "filter (\<lambda>x. ls_pk x \<noteq> lpk) (listings db') = filter (\<lambda>x. ls_pk x \<noteq> lpk) (listings db)"
    "appended (tn_pk tn) (rule_events r @ tail_events (tier_changed out) (hid_listing out) (unhid_listing out)) db db'"
proof -
  obtain l ent db1 r ent' fs' db2 where
    l: "find_listing (tn_pk tn) lpk db = Some l"
    and lo: "load_or_create tn lpk tr p (db\<lparr>in_atomic := True\<rparr>) = Inr (ent, db1)"
    and r: "rule_for (ent_status ent) tr = Inr r" and due: "tr \<in> set CLOCK_TRIGGERS \<Longrightarrow> is_due ent tr now"
    and m: "mutate tr r ent (init_facts (ent_tier_key db1 ent) (ent_status ent)) now p = Inr (ent', fs')"
    and la: "land tn l r (ent_status ent) ent' (fs'\<lparr>f_to_status := ent_status ent'\<rparr>) now actor origin p db1 = Inr (out, db2)"
    and db': "db' = db2\<lparr>in_atomic := in_atomic db\<rparr>"
    by (rule apply_trigger_E [OF ap]) blast
  from ok have ok0: "db_ok (db\<lparr>in_atomic := True\<rparr>)" by simp
  note c = load_or_create_effect [OF ok0 lo, simplified]
  from find_listing_SomeD [OF l] have lt: "ls_tenant l = tn_pk tn" and lp: "ls_pk l = lpk" and lm: "l \<in> set (listings db)"
    by auto
  note e = land_effect [OF la lt]
  from c(2) have t1: "tiers db1 = tiers db" and w1: "wall db1 = wall db"
    by (auto simp: billing_frame_def)
  have tgt: "effective_tier db1 = effective_tier db" by (rule effective_tier_cong [OF t1])
  have vs: "visibility_step db1 tn ent' l = visibility_step db tn ent' l" "flag_step db1 tn ent' l = flag_step db tn ent' l"
    "hides db1 tn ent' l = hides db tn ent' l"
    by (auto simp: visibility_step_def [abs_def] flag_step_def [abs_def] hides_def rank0_tier_def t1 w1)
  from same_row_mutate [OF m] have row: "ent_pk ent' = ent_pk ent" "ent_tenant ent' = tn_pk tn" "ent_listing ent' = lpk"
    using c(7,8) by (simp_all add: same_row_def)
  let ?new = "flag_step db tn ent' l (ent'\<lparr>ent_updated_at := wall db\<rparr>)"
  have ents: "entitlements db2 = update_where (\<lambda>x. ent_pk x = ent_pk ent) (\<lambda>x. ?new) (entitlements db1)"
    using e(4) by (simp add: vs w1 row)
  have lists: "listings db2 = update_where (\<lambda>x. ls_pk x = lpk)
      (\<lambda>x. visibility_step db tn ent' l (tier_step (wall db) (effective_tier db (tn_pk tn) ent') l x)) (listings db)"
    using e(3) c(3) by (simp add: vs w1 tgt lp)
  have d1: "distinct (map ent_pk (entitlements db1))" "distinct (map ent_listing (entitlements db1))"
    using c(1) by (simp_all add: db_ok_def)
  have ok2: "db_ok db2"
    using c(1) ents lists by (rule db_ok_replace) (use c row lp in \<open>simp_all add: billing_frame_seq [OF e(1)]\<close>)
  have nm: "?new \<in> set (entitlements db2)" unfolding ents using c(6) by (rule update_where_mem) simp
  have fe: "find_ent (tn_pk tn) lpk db2 = Some ?new"
    using ok2 nm by (intro find_ent_unique) (simp_all add: db_ok_def row)
  have lmem: "visibility_step db tn ent' l (tier_step (wall db) (effective_tier db (tn_pk tn) ent') l l) \<in> set (listings db2)"
    unfolding lists using lm by (rule update_where_mem) (simp add: lp)
  have fl: "find_listing (tn_pk tn) lpk db2 =
       Some (visibility_step db tn ent' l (tier_step (wall db) (effective_tier db (tn_pk tn) ent') l l))"
    using ok2 lmem by (intro find_listing_unique) (simp_all add: db_ok_def lt lp)
  have fr: "billing_frame db db'" using c(2) e(1) by (auto simp: db' billing_frame_def)
  have fe': "filter (\<lambda>e. ent_listing e \<noteq> lpk) (entitlements db2) = filter (\<lambda>e. ent_listing e \<noteq> lpk) (entitlements db)"
  proof -
    have "filter (\<lambda>e. ent_listing e \<noteq> lpk) (entitlements db2) = filter (\<lambda>e. ent_listing e \<noteq> lpk) (entitlements db1)"
      unfolding ents using distinct_map_eqD [OF d1(1) _ c(6)] c(8)
      by (intro filter_update_where_other) (auto simp: row)
    with c(10) show ?thesis by simp
  qed
  have fl': "filter (\<lambda>x. ls_pk x \<noteq> lpk) (listings db2) = filter (\<lambda>x. ls_pk x \<noteq> lpk) (listings db)"
    unfolding lists by (rule filter_update_where_other) auto
  have out: "out = \<lparr>from_status = ent_status ent, to_status = ent_status ent', out_events = rule_events r,
            tier_changed = (current_tier l \<noteq> map_option tier_pk (effective_tier db (tn_pk tn) ent')),
            hid_listing = hides db tn ent' l, unhid_listing = unhides ent' l\<rparr>"
    using e(2) by (simp add: vs tgt)
  have apd: "appended (tn_pk tn) (rule_events r @ tail_events (tier_changed out) (hid_listing out) (unhid_listing out)) db db'"
    using e(5) c(4) by (simp add: db' appended_def)
  show ?thesis
    by (rule that [OF l c(11) c(9) r due m _ _ out _ fr _ _ apd]) (simp_all add: db' fe fl ok2 fe' fl')
qed

subsection \<open>Errors\<close>

lemma mutate_error: "mutate tr r e fs now p = Inl err \<Longrightarrow> \<exists>m. err = EntitlementError m"
proof (cases tr)
  case T_OVERRIDE
  assume "mutate tr r e fs now p = Inl err"
  with T_OVERRIDE show ?thesis
    by (auto simp: mutate_override_def Let_def bind_result_eq_Inl split: option.splits if_splits dest!: need_Inl)
next
  case T_PAYMENT_SUCCEEDED
  assume "mutate tr r e fs now p = Inl err"
  with T_PAYMENT_SUCCEEDED show ?thesis
    by (simp add: mutate_payment_succeeded_def Let_def bind_result_eq_Inl need_Inl)
qed (auto simp: mutate_start_def mutate_payment_failed_def mutate_cancel_def
    mutate_grant_def Let_def bind_result_eq_Inl split: if_splits dest!: need_Inl)

lemma set_tier_total: "\<exists>c l' db'. set_tier tn l target cause now actor origin db = Inr ((c, l'), db')"
  by (simp add: set_tier_def Let_def emit_def ex_bool_eq)

lemma set_listing_visibility_total: "\<exists>l' db'. set_listing_visibility l v actor reason db = Inr (l', db')"
  by (simp add: set_listing_visibility_def atomic_def Let_def emit_def)

lemma visibility_after_total: "\<exists>out' l' db'. visibility_after tn ent l out actor db = Inr ((out', l'), db')"
proof -
  obtain l1 d1 l2 d2
    where "set_listing_visibility l V_HIDDEN actor ''entitlement_expired'' db = Inr (l1, d1)"
      "set_listing_visibility l V_PUBLISHED actor ''entitlement_restored'' db = Inr (l2, d2)"
    using set_listing_visibility_total by meson
  then show ?thesis by (simp add: visibility_after_def)
qed

lemma notify_total:
  assumes "in_atomic db"
  shows "\<exists>db'. notify_failed tn ent l r db = Inr ((), db')" "\<exists>db'. notify_downgraded tn ent l r db = Inr ((), db')"
    "\<exists>db'. notify_ended tn ent l r now db = Inr ((), db')"
  using send_notice_total [OF assms]
  by (auto simp: notify_failed_def notify_downgraded_def notify_ended_def split: option.splits)

lemma notify_keeps_atomic:
  "notify_failed tn ent l r db = Inr (u, db') \<Longrightarrow> in_atomic db' = in_atomic db"
  "notify_downgraded tn ent l r db = Inr (u, db') \<Longrightarrow> in_atomic db' = in_atomic db"
  by (auto simp: notify_failed_def notify_downgraded_def mailed_def
      dest!: send_notice_effect billing_frame_atomic split: option.splits if_splits)

lemma after_transition_total:
  assumes "in_atomic db" shows "\<exists>db'. after_transition tn ent l r now db = Inr ((), db')"
proof -
  from notify_total(1) [OF assms] obtain d1 where 1: "notify_failed tn ent l r db = Inr ((), d1)" by blast
  with assms have "in_atomic d1" by (simp add: notify_keeps_atomic)
  from notify_total(2) [OF this] obtain d2 where 2: "notify_downgraded tn ent l r d1 = Inr ((), d2)" by blast
  with \<open>in_atomic d1\<close> have "in_atomic d2" by (simp add: notify_keeps_atomic)
  from notify_total(3) [OF this] 1 2 show ?thesis by (simp add: after_transition_def)
qed

lemma land_total:
  assumes "facts_for r fs p" "rule_for st tr = Inr r" "in_atomic db" "ls_tenant l = tn_pk tn"
  shows "\<exists>out db'. land tn l r prior ent fs now actor origin p db = Inr (out, db')"
proof -
  let ?e = "ent\<lparr>ent_updated_at := wall db\<rparr>" and ?db1 = "save_ent ent db"
  let ?t = "effective_tier ?db1 (tn_pk tn) ?e"
  let ?fs = "fs\<lparr>f_to_tier := key_of ?t\<rparr>"
  let ?cause = "tier_cause_of r (case current_tier l of None \<Rightarrow> None | Some pk \<Rightarrow> tier_by_pk ?db1 pk) ?t"
  have "facts_for r ?fs p" using assms(1) by (simp add: facts_for_def)
  from emit_all_total [OF this subset_refl assms(2)] obtain d2
    where 2: "emit_all tn ?e l r ?fs p prior actor origin (rule_events r) ?db1 = Inr ((), d2)" by blast
  obtain c l' d3 where 3: "set_tier (tn_pk tn) l ?t ?cause now actor origin d2 = Inr ((c, l'), d3)"
    using set_tier_total by blast
  obtain o4 l4 d4 where 4: "visibility_after tn ?e l' \<lparr>from_status = prior, to_status = ent_status ent,
      out_events = rule_events r, tier_changed = c, hid_listing = False, unhid_listing = False\<rparr> actor d3 = Inr ((o4, l4), d4)"
    using visibility_after_total by blast
  have "ls_tenant l' = tn_pk tn" using set_tier_effect(5) [OF 3] assms(4) by simp
  from visibility_after_effect(1) [OF 4 this] set_tier_effect(1) [OF 3] emit_all_effect [OF 2] assms(3)
  have "in_atomic d4" by (simp add: billing_frame_def save_ent_def)
  from after_transition_total [OF this] obtain d5 where "after_transition tn ?e l4 r now d4 = Inr ((), d5)" by blast
  with 2 3 4 show ?thesis by (simp add: land_def Let_def)
qed

text \<open>Nothing fails after \<^verbatim>\<open>_mutate\<close>: the events find their facts, every event name is registered, and the
  mail is queued inside the transaction.\<close>

lemma load_or_create_atomic:
  "load_or_create tn lpk tr p db = Inr (ent, db1) \<Longrightarrow> in_atomic db1 = in_atomic db"
  by (auto simp: load_or_create_def Let_def split: option.splits if_splits)

lemma apply_body_land:
  assumes "find_listing (tn_pk tn) lpk db = Some l" "load_or_create tn lpk tr p db = Inr (ent, db1)"
    "rule_for (ent_status ent) tr = Inr r" "due_or_raise ent tr now = Inr ()"
    "mutate tr r ent (init_facts (ent_tier_key db1 ent) (ent_status ent)) now p = Inr ef" "in_atomic db"
  shows "\<exists>out db'. apply_body tn lpk tr now actor origin p db = Inr (out, db')"
proof -
  obtain e' fs' where ef: "ef = (e', fs')" by (cases ef)
  have ff: "facts_for r (fs'\<lparr>f_to_status := ent_status e'\<rparr>) p"
    using mutate_facts assms(3,5) by (fastforce simp: facts_for_def ef)
  have at: "in_atomic db1" using load_or_create_atomic [OF assms(2)] assms(6) by simp
  have lt: "ls_tenant l = tn_pk tn" using find_listing_SomeD [OF assms(1)] by simp
  from land_total [OF ff assms(3) at lt] assms show ?thesis by (simp add: apply_body_def ef)
qed

lemma lift_machine_Inl: "lift_machine x = Inl e \<longleftrightarrow> (\<exists>e'. x = Inl e' \<and> e = MachineError e')"
  by (cases x) auto

lemma apply_body_Inl:
  assumes b: "apply_body tn lpk tr now actor origin p db = Inl e" and at: "in_atomic db"
  obtains (listing) "find_listing (tn_pk tn) lpk db = None" "e = ListingDoesNotExist"
    | (row) "load_or_create tn lpk tr p db = Inl e"
    | (illegal) ent db1 where "load_or_create tn lpk tr p db = Inr (ent, db1)"
        "e = MachineError (InvalidTransition (ent_status ent) tr)" "\<forall>r. rule_for (ent_status ent) tr \<noteq> Inr r"
    | (early) ent db1 where "load_or_create tn lpk tr p db = Inr (ent, db1)" "tr \<in> set CLOCK_TRIGGERS"
        "\<not> is_due ent tr now" "e = MachineError (NotDue tr)"
    | (parameters) m where "e = EntitlementError m"
proof (cases "find_listing (tn_pk tn) lpk db")
  case None
  with b show ?thesis by (intro listing) (simp_all add: apply_body_def)
next
  case l: (Some l)
  from b l consider (1) "load_or_create tn lpk tr p db = Inl e"
    | (2) ent db1 e' where "load_or_create tn lpk tr p db = Inr (ent, db1)"
        "rule_for (ent_status ent) tr = Inl e'" "e = MachineError e'"
    | (3) ent db1 r where "load_or_create tn lpk tr p db = Inr (ent, db1)" "rule_for (ent_status ent) tr = Inr r"
        "due_or_raise ent tr now = Inl e"
    | (4) ent db1 r where "load_or_create tn lpk tr p db = Inr (ent, db1)" "rule_for (ent_status ent) tr = Inr r"
        "due_or_raise ent tr now = Inr ()"
    by (auto simp: apply_body_def bind_result_eq_Inl lift_machine_Inl lift_Inr)
  then show ?thesis
  proof cases
    case 1
    then show ?thesis by (rule row)
  next
    case 2
    from 2(2) have "\<forall>r. rule_for (ent_status ent) tr \<noteq> Inr r" by simp
    from illegal [OF 2(1) _ this] rule_for_Inl [OF 2(2)] 2(3) show ?thesis by simp
  next
    case 3
    then show ?thesis by (intro early) (auto simp: due_or_raise_def split: if_splits)
  next
    case 4
    show ?thesis
    proof (cases "mutate tr r ent (init_facts (ent_tier_key db1 ent) (ent_status ent)) now p")
      case (Inl err)
      with b l 4 have "e = err" by (simp add: apply_body_def)
      moreover from mutate_error [OF Inl] obtain m where "err = EntitlementError m" by blast
      ultimately show ?thesis using parameters by simp
    next
      case (Inr ef)
      from apply_body_land [OF l 4 Inr at, of actor origin] b show ?thesis by simp
    qed
  qed
qed

lemma load_or_create_status:
  assumes "load_or_create tn lpk tr p db = Inr (ent, db1)"
  shows "ent_status ent = (case find_ent (tn_pk tn) lpk db of None \<Rightarrow> S_NONE | Some x \<Rightarrow> ent_status x)"
    and "tr \<in> set CLOCK_TRIGGERS \<Longrightarrow> find_ent (tn_pk tn) lpk db = Some ent"
  using assms by (auto simp: load_or_create_def Let_def blank_ent_def CLOCK_TRIGGERS_def CREATING_def
      split: option.splits if_splits)

subsection \<open>Clock triggers are applied when they are due\<close>

lemma apply_trigger_total:
  assumes "find_listing (tn_pk tn) lpk db = Some l"
    "load_or_create tn lpk tr p (db\<lparr>in_atomic := True\<rparr>) = Inr (ent, db1)"
    "rule_for (ent_status ent) tr = Inr r" "tr \<in> set CLOCK_TRIGGERS \<Longrightarrow> is_due ent tr now"
    "\<And>fs. \<exists>ef. mutate tr r ent fs now p = Inr ef"
  shows "\<exists>out db'. apply_trigger tn lpk tr now actor origin p db = Inr (out, db')"
proof -
  let ?db = "db\<lparr>in_atomic := True\<rparr>"
  have l: "find_listing (tn_pk tn) lpk ?db = Some l" using assms(1) by simp
  have d: "due_or_raise ent tr now = Inr ()" using assms(4) by (auto simp: due_or_raise_def)
  obtain ef where m: "mutate tr r ent (init_facts (ent_tier_key db1 ent) (ent_status ent)) now p = Inr ef"
    using assms(5) by blast
  have a: "in_atomic ?db" by simp
  from apply_body_land [OF l assms(2,3) d m a, of actor origin] show ?thesis
    by (auto simp: apply_trigger_def atomic_def)
qed

lemma mutate_clock_total:
  "tr \<in> set CLOCK_TRIGGERS \<Longrightarrow> \<exists>ef. mutate tr r ent fs now p = Inr ef"
  by (cases tr) (auto simp: CLOCK_TRIGGERS_def mutate_payment_failed_def Let_def)

lemma clock_trigger_applies:
  assumes "find_listing (tn_pk tn) lpk db = Some l" "find_ent (tn_pk tn) lpk db = Some ent"
    "tr \<in> set CLOCK_TRIGGERS" "is_due ent tr now"
  shows "\<exists>out db'. apply_trigger tn lpk tr now actor origin p db = Inr (out, db')"
proof -
  from due_legal [OF assms(3,4)] obtain r where r: "rule_for (ent_status ent) tr = Inr r" by blast
  from assms(2) have "load_or_create tn lpk tr p (db\<lparr>in_atomic := True\<rparr>) = Inr (ent, db\<lparr>in_atomic := True\<rparr>)"
    by (simp add: load_or_create_def)
  from apply_trigger_total [OF assms(1) this r] mutate_clock_total [OF assms(3)] assms(4) show ?thesis by blast
qed

subsection \<open>Sample transitions\<close>

lemma sample_db_simps [simp]:
  "db_ok (sample_db [sample_ent st])" "db_ok (sample_db [])"
  "find_listing (tn_pk sample_tenant) 10 (sample_db es) = Some sample_listing"
  "find_ent (tn_pk sample_tenant) 10 (sample_db [sample_ent st]) = Some (sample_ent st)"
  "find_ent (tn_pk sample_tenant) 10 (sample_db []) = None"
  "ent_status (sample_ent st) = st" "entitlements (sample_db es) = es" "tiers (sample_db es) = [sample_tier]"
  "outbox (sample_db es) = []" "dunning_ends_at (sample_ent st) = Some sample_now"
  by (simp_all add: db_ok_def sample_db_def sample_ent_def find_listing_def find_ent_def sample_listing_def sample_tenant_def)

lemma sample_dunning:
  "\<exists>out db'. apply_trigger sample_tenant 10 T_DUNNING_ELAPSED sample_now SYSTEM_ACTOR [] no_params
     (sample_db [sample_ent S_PAST_DUE]) = Inr (out, db')"
  by (rule clock_trigger_applies [where l = sample_listing and ent = "sample_ent S_PAST_DUE"])
    (simp_all add: CLOCK_TRIGGERS_def)

subsection \<open>Where a transition lands\<close>

text \<open>C1: A trigger that is applied was legal in the transition table for the status the listing's
  entitlement had (or for \<^verbatim>\<open>none\<close> when there was no row), was due if it is a clock trigger, and the stored
  row ends in the status the table names (for an override, in the status its parameter names), which is
  what the outcome reports.\<close>
theorem apply_trigger_follows_table:
  assumes "db_ok db" and "apply_trigger tn lpk tr now actor origin p db = Inr (out, db')"
  shows "\<exists>r ent'. from_status out = (case find_ent (tn_pk tn) lpk db of None \<Rightarrow> S_NONE | Some e \<Rightarrow> ent_status e)
    \<and> rule_for (from_status out) tr = Inr r \<and> lands_on r p (to_status out)
    \<and> find_ent (tn_pk tn) lpk db' = Some ent' \<and> ent_status ent' = to_status out
    \<and> (tr \<in> set CLOCK_TRIGGERS \<longrightarrow> (\<exists>e. find_ent (tn_pk tn) lpk db = Some e \<and> is_due e tr now))"
  using assms
proof (rule apply_trigger_rows)
  fix ent r ent' l fs fs'
  assume f: "find_ent (tn_pk tn) lpk db = Some ent \<or> (find_ent (tn_pk tn) lpk db = None \<and> tr \<in> set CREATING
           \<and> (\<exists>t. p_tier p = Some t \<and> ent = blank_ent (tn_pk tn) lpk t (db\<lparr>in_atomic := True\<rparr>)))"
    and r: "rule_for (ent_status ent) tr = Inr r" and m: "mutate tr r ent fs now p = Inr (ent', fs')"
    and due: "tr \<in> set CLOCK_TRIGGERS \<Longrightarrow> is_due ent tr now"
    and out: "out = \<lparr>from_status = ent_status ent, to_status = ent_status ent', out_events = rule_events r,
            tier_changed = (current_tier l \<noteq> map_option tier_pk (effective_tier db (tn_pk tn) ent')),
            hid_listing = hides db tn ent' l, unhid_listing = unhides ent' l\<rparr>"
    and st: "ent_status ent = (case find_ent (tn_pk tn) lpk db of None \<Rightarrow> S_NONE | Some e \<Rightarrow> ent_status e)"
    and fe: "find_ent (tn_pk tn) lpk db' = Some (flag_step db tn ent' l (ent'\<lparr>ent_updated_at := wall db\<rparr>))"
  have "tr \<in> set CLOCK_TRIGGERS \<Longrightarrow> find_ent (tn_pk tn) lpk db = Some ent"
    using f by (auto simp: CLOCK_TRIGGERS_def CREATING_def)
  with mutate_lands [OF r m] r due st fe show ?thesis by (auto simp: out)
qed

theorem apply_trigger_follows_table_witness:
  "\<exists>out db'. apply_trigger sample_tenant 10 T_DUNNING_ELAPSED sample_now SYSTEM_ACTOR [] no_params
     (sample_db [sample_ent S_PAST_DUE]) = Inr (out, db') \<and> from_status out = S_PAST_DUE \<and> to_status out = S_GRACE"
proof -
  from sample_dunning obtain out db' where a: "apply_trigger sample_tenant 10 T_DUNNING_ELAPSED sample_now SYSTEM_ACTOR []
      no_params (sample_db [sample_ent S_PAST_DUE]) = Inr (out, db')" by blast
  from apply_trigger_follows_table [OF _ a] a show ?thesis by (auto simp: machine_simps lands_on_def)
qed

subsection \<open>The tier the page shows\<close>

text \<open>C2: After any applied trigger the listing's \<^verbatim>\<open>current_tier\<close> is the effective tier of its entitlement:
  the entitlement's tier while it is in a perk status, else the tenant's rank-0 tier, else none.\<close>
theorem apply_trigger_effective_tier:
  assumes "db_ok db" and "apply_trigger tn lpk tr now actor origin p db = Inr (out, db')"
  shows "\<exists>ent' l'. find_ent (tn_pk tn) lpk db' = Some ent' \<and> find_listing (tn_pk tn) lpk db' = Some l'
    \<and> current_tier l' = map_option tier_pk (effective_tier db' (tn_pk tn) ent')"
  using assms
proof (rule apply_trigger_rows)
  fix ent' l
  assume fe: "find_ent (tn_pk tn) lpk db' = Some (flag_step db tn ent' l (ent'\<lparr>ent_updated_at := wall db\<rparr>))"
    and fl: "find_listing (tn_pk tn) lpk db' =
       Some (visibility_step db tn ent' l (tier_step (wall db) (effective_tier db (tn_pk tn) ent') l l))"
    and "billing_frame db db'"
  then have "effective_tier db' = effective_tier db" by (intro effective_tier_cong) (rule billing_frame_tiers)
  with fe fl show ?thesis by (simp add: effective_tier_row)
qed

theorem apply_trigger_effective_tier_witness:
  "\<exists>out db'. apply_trigger sample_tenant 10 T_DUNNING_ELAPSED sample_now SYSTEM_ACTOR [] no_params
     (sample_db [sample_ent S_PAST_DUE]) = Inr (out, db') \<and> (\<exists>ent' l'. find_ent 1 10 db' = Some ent' \<and> find_listing 1 10 db' = Some l'
       \<and> current_tier l' = map_option tier_pk (effective_tier db' 1 ent'))"
proof -
  from sample_dunning obtain out db' where a: "apply_trigger sample_tenant 10 T_DUNNING_ELAPSED sample_now SYSTEM_ACTOR []
      no_params (sample_db [sample_ent S_PAST_DUE]) = Inr (out, db')" by blast
  from apply_trigger_effective_tier [OF _ a] a show ?thesis by (auto simp: sample_tenant_def)
qed

subsection \<open>Events and frame\<close>



text \<open>An applied trigger writes no other listing, no other entitlement and no other table: only the outbox,
  the mail queue and the identifier sequences grow, and the database invariant is kept.\<close>
theorem apply_trigger_frame:
  assumes "db_ok db" and "apply_trigger tn lpk tr now actor origin p db = Inr (out, db')"
  shows "db_ok db' \<and> billing_frame db db'
    \<and> filter (\<lambda>e. ent_listing e \<noteq> lpk) (entitlements db') = filter (\<lambda>e. ent_listing e \<noteq> lpk) (entitlements db)
    \<and> filter (\<lambda>x. ls_pk x \<noteq> lpk) (listings db') = filter (\<lambda>x. ls_pk x \<noteq> lpk) (listings db)"
  using assms by (rule apply_trigger_rows) blast

theorem apply_trigger_frame_witness:
  "\<exists>out db'. apply_trigger sample_tenant 10 T_DUNNING_ELAPSED sample_now SYSTEM_ACTOR [] no_params
     (sample_db [sample_ent S_PAST_DUE]) = Inr (out, db') \<and> db_ok db' \<and> tiers db' = [sample_tier]"
proof -
  from sample_dunning obtain out db' where a: "apply_trigger sample_tenant 10 T_DUNNING_ELAPSED sample_now SYSTEM_ACTOR []
      no_params (sample_db [sample_ent S_PAST_DUE]) = Inr (out, db')" by blast
  from apply_trigger_frame [OF _ a] a show ?thesis by (auto dest: billing_frame_tiers)
qed

subsection \<open>Which errors\<close>



subsection \<open>Deadlines\<close>

definition timers_ok :: "entitlement \<Rightarrow> bool" where
  "timers_ok e \<longleftrightarrow>
     (ent_status e = S_PAST_DUE \<longrightarrow> (\<exists>s. dunning_started_at e = Some s \<and> dunning_ends_at e = Some (s + DUNNING)))
   \<and> (ent_status e = S_GRACE \<longrightarrow> grace_ends_at e \<noteq> None)
   \<and> (ent_status e = S_TRIALING \<longrightarrow> trial_ends_at e \<noteq> None)"

definition period_ok :: "entitlement \<Rightarrow> bool" where
  "period_ok e \<longleftrightarrow> (ent_status e \<in> set PAID_STATUSES \<longrightarrow> current_period_end e \<noteq> None)"

lemma mutate_timers_ok:
  assumes ok: "timers_ok e" and m: "mutate tr r e fs now p = Inr (e', fs')"
    and r: "rule_for (ent_status e) tr = Inr r"
  shows "timers_ok e'"
proof (cases tr)
  case T_OVERRIDE
  with m mutate_override_row [of e fs now p e' fs'] show ?thesis by (auto simp: timers_ok_def)
next
  case T_PAYMENT_SUCCEEDED
  with m mutate_payment_succeeded_row [of e fs now p e' fs'] show ?thesis by (auto simp: timers_ok_def)
next
  case T_START_TRIAL
  with m show ?thesis by (auto simp: timers_ok_def mutate_start_def bind_result_eq_Inr need_Inr)
qed (insert m ok r, auto simp: timers_ok_def mutate_start_def mutate_payment_failed_def mutate_cancel_def
    mutate_grant_def Let_def bind_result_eq_Inr machine_simps split: if_splits status.splits)

lemma mutate_period_ok:
  assumes ok: "period_ok e" "timers_ok e" and m: "mutate tr r e fs now p = Inr (e', fs')"
    and r: "rule_for (ent_status e) tr = Inr r"
    and ov: "tr = T_OVERRIDE \<Longrightarrow> p_period_end p \<noteq> None"
  shows "period_ok e'"
proof (cases tr)
  case T_OVERRIDE
  with m ov mutate_override_row(8) [of e fs now p e' fs'] show ?thesis by (auto simp: period_ok_def)
next
  case T_PAYMENT_SUCCEEDED
  with m mutate_payment_succeeded_row [of e fs now p e' fs'] show ?thesis by (auto simp: period_ok_def)
next
  case T_CANCEL
  with m ok r show ?thesis
    by (auto simp: period_ok_def timers_ok_def mutate_cancel_def Let_def machine_simps PAID_STATUSES_def
        split: if_splits status.splits)
next
  case T_START
  with m show ?thesis by (auto simp: period_ok_def mutate_start_def bind_result_eq_Inr need_Inr)
next
  case T_START_TRIAL
  with m show ?thesis
    by (auto simp: period_ok_def mutate_start_def bind_result_eq_Inr need_Inr or_else_def split: option.split)
next
  case T_PAYMENT_FAILED
  with m ok(1) r show ?thesis
    by (auto simp: period_ok_def mutate_payment_failed_def Let_def machine_simps PAID_STATUSES_def
        split: if_splits status.splits)
next
  case T_TRIAL_OVERDUE
  with m ok(1) r show ?thesis
    by (auto simp: period_ok_def mutate_payment_failed_def Let_def machine_simps PAID_STATUSES_def split: if_splits)
next
  case T_DUNNING_ELAPSED
  with m ok(1) r show ?thesis by (auto simp: period_ok_def machine_simps PAID_STATUSES_def split: if_splits)
qed (insert m, auto simp: period_ok_def mutate_grant_def bind_result_eq_Inr PAID_STATUSES_def)

lemma ok_flag_step [simp]:
  "timers_ok (flag_step db tn ent l e) = timers_ok e" "period_ok (flag_step db tn ent l e) = period_ok e"
  "timers_ok (e\<lparr>ent_updated_at := t\<rparr>) = timers_ok e" "period_ok (e\<lparr>ent_updated_at := t\<rparr>) = period_ok e"
  by (simp_all add: timers_ok_def period_ok_def flag_step_def)

lemma blank_ent_ok [simp]: "timers_ok (blank_ent tn lpk t db)" "period_ok (blank_ent tn lpk t db)"
  by (simp_all add: timers_ok_def period_ok_def blank_ent_def PAID_STATUSES_def)

text \<open>A predicate on rows that the touched row keeps is kept by the whole table.\<close>

lemma rows_preserved:
  assumes "db_ok db'" "find_ent tn lpk db' = Some new" "Q new" "\<forall>e \<in> set (entitlements db). Q e"
    "filter (\<lambda>e. ent_listing e \<noteq> lpk) (entitlements db') = filter (\<lambda>e. ent_listing e \<noteq> lpk) (entitlements db)"
  shows "\<forall>e \<in> set (entitlements db'). Q e"
proof
  fix e assume e: "e \<in> set (entitlements db')"
  show "Q e"
  proof (cases "ent_listing e = lpk")
    case True
    with e assms(1) find_ent_SomeD [OF assms(2)] have "e = new"
      by (auto simp: db_ok_def intro: distinct_map_eqD)
    with assms(3) show ?thesis by simp
  next
    case False
    with e have "e \<in> set (filter (\<lambda>e. ent_listing e \<noteq> lpk) (entitlements db'))" by simp
    with assms(4,5) show ?thesis by simp
  qed
qed

text \<open>C5: Deadlines are kept: if every stored entitlement in dunning, grace or trial has the deadline the clock
  waits for (dunning ending exactly 14 days after it began), and every paid one has a period end, the same
  holds after any applied trigger, provided an override names a period end.\<close>
theorem apply_trigger_deadlines:
  assumes "db_ok db" and "apply_trigger tn lpk tr now actor origin p db = Inr (out, db')"
    and all: "\<forall>e \<in> set (entitlements db). timers_ok e \<and> period_ok e"
    and ov: "tr = T_OVERRIDE \<longrightarrow> p_period_end p \<noteq> None"
  shows "\<forall>e \<in> set (entitlements db'). timers_ok e \<and> period_ok e"
  using assms(1,2)
proof (rule apply_trigger_rows)
  fix ent r ent' l fs fs'
  assume f: "find_ent (tn_pk tn) lpk db = Some ent \<or> (find_ent (tn_pk tn) lpk db = None \<and> tr \<in> set CREATING
           \<and> (\<exists>t. p_tier p = Some t \<and> ent = blank_ent (tn_pk tn) lpk t (db\<lparr>in_atomic := True\<rparr>)))"
    and r: "rule_for (ent_status ent) tr = Inr r" and m: "mutate tr r ent fs now p = Inr (ent', fs')"
    and fe: "find_ent (tn_pk tn) lpk db' = Some (flag_step db tn ent' l (ent'\<lparr>ent_updated_at := wall db\<rparr>))"
    and ok': "db_ok db'"
    and fl: "filter (\<lambda>e. ent_listing e \<noteq> lpk) (entitlements db') = filter (\<lambda>e. ent_listing e \<noteq> lpk) (entitlements db)"
  from f all have "timers_ok ent \<and> period_ok ent" by (auto dest: find_ent_SomeD)
  with mutate_timers_ok [OF _ m r] mutate_period_ok [OF _ _ m r] ov have "timers_ok ent' \<and> period_ok ent'" by blast
  with rows_preserved [OF ok' fe _ all fl] show ?thesis by simp
qed

lemma sample_ent_ok [simp]: "timers_ok (sample_ent st)" "period_ok (sample_ent st)"
  by (simp_all add: timers_ok_def period_ok_def sample_ent_def DUNNING_def)

theorem apply_trigger_deadlines_witness:
  "\<exists>out db'. apply_trigger sample_tenant 10 T_DUNNING_ELAPSED sample_now SYSTEM_ACTOR [] no_params
     (sample_db [sample_ent S_PAST_DUE]) = Inr (out, db') \<and> (\<forall>e \<in> set (entitlements db'). timers_ok e \<and> period_ok e)"
proof -
  from sample_dunning obtain out db' where a: "apply_trigger sample_tenant 10 T_DUNNING_ELAPSED sample_now SYSTEM_ACTOR []
      no_params (sample_db [sample_ent S_PAST_DUE]) = Inr (out, db')" by blast
  from apply_trigger_deadlines [OF _ a] a show ?thesis by auto
qed

text \<open>C6: An owner whose payment failed keeps the perks for the whole dunning window, and the paused
  listing stays restorable for the whole grace window: dunning can only elapse 14 days after it began, the
  downgrade then sets the end of grace 30 days ahead, and grace can only elapse at its end.\<close>
theorem dunning_and_grace_windows:
  assumes "db_ok db" and "apply_trigger tn lpk tr now actor origin p db = Inr (out, db')"
    and "\<forall>e \<in> set (entitlements db). timers_ok e" and "tr = T_DUNNING_ELAPSED \<or> tr = T_GRACE_ELAPSED"
  shows "\<exists>e e'. find_ent (tn_pk tn) lpk db = Some e \<and> find_ent (tn_pk tn) lpk db' = Some e'
    \<and> (tr = T_DUNNING_ELAPSED \<longrightarrow> (\<exists>s. dunning_started_at e = Some s \<and> s + days 14 \<le> now)
         \<and> ent_status e' = S_GRACE \<and> grace_ends_at e' = Some (now + days 30))
    \<and> (tr = T_GRACE_ELAPSED \<longrightarrow> (\<exists>g. grace_ends_at e = Some g \<and> g \<le> now) \<and> ent_status e' = S_EXPIRED)"
  using assms(1,2)
proof (rule apply_trigger_rows)
  fix ent r ent' l fs fs'
  assume f: "find_ent (tn_pk tn) lpk db = Some ent \<or> (find_ent (tn_pk tn) lpk db = None \<and> tr \<in> set CREATING
           \<and> (\<exists>t. p_tier p = Some t \<and> ent = blank_ent (tn_pk tn) lpk t (db\<lparr>in_atomic := True\<rparr>)))"
    and m: "mutate tr r ent fs now p = Inr (ent', fs')"
    and due: "tr \<in> set CLOCK_TRIGGERS \<Longrightarrow> is_due ent tr now"
    and fe: "find_ent (tn_pk tn) lpk db' = Some (flag_step db tn ent' l (ent'\<lparr>ent_updated_at := wall db\<rparr>))"
  from f assms(4) have e: "find_ent (tn_pk tn) lpk db = Some ent" by (auto simp: CREATING_def)
  with assms(3) have t: "timers_ok ent" by (auto dest: find_ent_SomeD)
  from due assms(4) have d: "is_due ent tr now" by (auto simp: CLOCK_TRIGGERS_def)
  have g: "grace_ends_at (flag_step db tn ent' l (ent'\<lparr>ent_updated_at := wall db\<rparr>)) = grace_ends_at ent'"
    by (simp add: flag_step_def)
  from assms(4) e fe t d m g show ?thesis
    by (auto simp: timers_ok_def at_or_before_def DUNNING_def GRACE_def split: option.splits)
qed

theorem dunning_and_grace_windows_witness:
  "\<exists>out db'. apply_trigger sample_tenant 10 T_DUNNING_ELAPSED sample_now SYSTEM_ACTOR [] no_params
     (sample_db [sample_ent S_PAST_DUE]) = Inr (out, db') \<and> (\<exists>e'. find_ent 1 10 db' = Some e' \<and> grace_ends_at e' = Some (sample_now + days 30))"
proof -
  from sample_dunning obtain out db' where a: "apply_trigger sample_tenant 10 T_DUNNING_ELAPSED sample_now SYSTEM_ACTOR []
      no_params (sample_db [sample_ent S_PAST_DUE]) = Inr (out, db')" by blast
  from dunning_and_grace_windows [OF _ a] a show ?thesis by (auto simp: sample_tenant_def)
qed

subsection \<open>Visibility\<close>

text \<open>The visibility rule: an applied trigger hides a published listing exactly when it expired and the
  tenant has no rank-0 tier, and unhides a hidden one exactly when expiry hid it and the entitlement is back in
  a perk status; a listing hidden for any other reason stays hidden; the flag afterwards says whether expiry
  hid it.\<close>
theorem apply_trigger_visibility:
  assumes "db_ok db" and "apply_trigger tn lpk tr now actor origin p db = Inr (out, db')"
  shows "\<exists>l l' e'. find_listing (tn_pk tn) lpk db = Some l \<and> find_listing (tn_pk tn) lpk db' = Some l'
    \<and> find_ent (tn_pk tn) lpk db' = Some e'
    \<and> (let was_hidden = (case find_ent (tn_pk tn) lpk db of None \<Rightarrow> False | Some e \<Rightarrow> hidden_by_expiry e);
            hide = (to_status out = S_EXPIRED \<and> rank0_tier db (tn_pk tn) = None \<and> visibility l = V_PUBLISHED);
            perk = (to_status out \<in> set PERK_STATUSES)
        in hid_listing out = hide
         \<and> unhid_listing out = (was_hidden \<and> perk \<and> visibility l = V_HIDDEN)
         \<and> visibility l' = (if hide then V_HIDDEN
                            else if was_hidden \<and> perk \<and> visibility l = V_HIDDEN then V_PUBLISHED else visibility l)
         \<and> hidden_by_expiry e' = (hide \<or> was_hidden \<and> \<not> perk))"
  using assms
proof (rule apply_trigger_rows)
  fix ent r ent' l fs fs'
  assume l: "find_listing (tn_pk tn) lpk db = Some l"
    and f: "find_ent (tn_pk tn) lpk db = Some ent \<or> (find_ent (tn_pk tn) lpk db = None \<and> tr \<in> set CREATING
           \<and> (\<exists>t. p_tier p = Some t \<and> ent = blank_ent (tn_pk tn) lpk t (db\<lparr>in_atomic := True\<rparr>)))"
    and m: "mutate tr r ent fs now p = Inr (ent', fs')"
    and fe: "find_ent (tn_pk tn) lpk db' = Some (flag_step db tn ent' l (ent'\<lparr>ent_updated_at := wall db\<rparr>))"
    and fl: "find_listing (tn_pk tn) lpk db' =
       Some (visibility_step db tn ent' l (tier_step (wall db) (effective_tier db (tn_pk tn) ent') l l))"
    and out: "out = \<lparr>from_status = ent_status ent, to_status = ent_status ent', out_events = rule_events r,
            tier_changed = (current_tier l \<noteq> map_option tier_pk (effective_tier db (tn_pk tn) ent')),
            hid_listing = hides db tn ent' l, unhid_listing = unhides ent' l\<rparr>"
  have h: "hidden_by_expiry ent' = (case find_ent (tn_pk tn) lpk db of None \<Rightarrow> False | Some e \<Rightarrow> hidden_by_expiry e)"
    using f same_row_mutate [OF m] by (auto simp: same_row_def blank_ent_def)
  show ?thesis
    unfolding l fe fl Let_def out h [symmetric]
    by (auto simp: hides_def unhides_def clears_flag_def visibility_step_def flag_step_def)
qed

theorem apply_trigger_visibility_witness:
  "\<exists>out db'. apply_trigger sample_tenant 10 T_DUNNING_ELAPSED sample_now SYSTEM_ACTOR [] no_params
     (sample_db [sample_ent S_PAST_DUE]) = Inr (out, db') \<and> (\<exists>l'. find_listing 1 10 db' = Some l')"
proof -
  from sample_dunning obtain out db' where a: "apply_trigger sample_tenant 10 T_DUNNING_ELAPSED sample_now SYSTEM_ACTOR []
      no_params (sample_db [sample_ent S_PAST_DUE]) = Inr (out, db')" by blast
  from apply_trigger_visibility [OF _ a] a show ?thesis by (auto simp: sample_tenant_def Let_def)
qed

subsection \<open>A cancellation that never ends\<close>

lemma status_value_inj: "''active'' = status_value st \<Longrightarrow> st = S_ACTIVE"
  by (cases st) auto

lemma apply_trigger_ent:
  assumes "db_ok db" and "apply_trigger tn lpk tr now actor origin p db = Inr (out, db')"
  shows "\<exists>ent r ent' fs fs' h t.
      (find_ent (tn_pk tn) lpk db = Some ent \<or> find_ent (tn_pk tn) lpk db = None
         \<and> (\<exists>ti. ent = blank_ent (tn_pk tn) lpk ti (db\<lparr>in_atomic := True\<rparr>)))
    \<and> rule_for (ent_status ent) tr = Inr r \<and> mutate tr r ent fs now p = Inr (ent', fs')
    \<and> find_ent (tn_pk tn) lpk db' = Some (ent'\<lparr>ent_updated_at := t, hidden_by_expiry := h\<rparr>) \<and> db_ok db'"
  using assms
proof (rule apply_trigger_rows)
  fix ent r ent' l fs fs'
  assume *: "find_ent (tn_pk tn) lpk db = Some ent \<or> (find_ent (tn_pk tn) lpk db = None \<and> tr \<in> set CREATING
           \<and> (\<exists>t. p_tier p = Some t \<and> ent = blank_ent (tn_pk tn) lpk t (db\<lparr>in_atomic := True\<rparr>)))"
    "rule_for (ent_status ent) tr = Inr r" "mutate tr r ent fs now p = Inr (ent', fs')" "db_ok db'"
    and fe: "find_ent (tn_pk tn) lpk db' = Some (flag_step db tn ent' l (ent'\<lparr>ent_updated_at := wall db\<rparr>))"
  have "\<exists>h. flag_step db tn ent' l (ent'\<lparr>ent_updated_at := wall db\<rparr>) = ent'\<lparr>ent_updated_at := wall db, hidden_by_expiry := h\<rparr>"
    by (auto simp: flag_step_def intro: exI [of _ "hidden_by_expiry ent'"] exI [of _ True] exI [of _ False])
  with * fe show ?thesis by metis
qed


definition sample_override :: params where
  "sample_override = no_params\<lparr>p_tier := Some sample_tier, p_to_status := Some ''active'',
     p_operator := Some sample_operator, p_reason := Some ''fix''\<rparr>"

lemma sample_override_applies:
  "\<exists>out db'. apply_trigger sample_tenant 10 T_OVERRIDE sample_now SYSTEM_ACTOR [] sample_override (sample_db []) = Inr (out, db')"
proof -
  let ?db = "(sample_db [])\<lparr>in_atomic := True\<rparr>"
  let ?e = "blank_ent (tn_pk sample_tenant) 10 sample_tier ?db"
  have l: "load_or_create sample_tenant 10 T_OVERRIDE sample_override ?db =
      Inr (?e, ?db\<lparr>entitlements := [?e], seq := Suc (seq ?db), draws := Suc (draws ?db)\<rparr>)"
    by (simp add: load_or_create_def CREATING_def sample_override_def Let_def)
  have m: "\<exists>ef. mutate T_OVERRIDE r ?e fs sample_now sample_override = Inr ef" for r fs
    by (simp add: mutate_override_def sample_override_def no_params_def need_def status_of_def ANY_STATUS_def Let_def)
  show ?thesis
    by (rule apply_trigger_total [OF _ l]) (use m in \<open>auto simp: machine_simps CLOCK_TRIGGERS_def\<close>)
qed

lemma cancel_applies:
  assumes "db_ok db" "apply_trigger tn lpk T_OVERRIDE now actor origin p db = Inr (out, db1)" "to_status out = S_ACTIVE"
  shows "\<exists>out' db2. apply_trigger tn lpk T_CANCEL now actor origin no_params db1 = Inr (out', db2)"
  using assms(1,2)
proof (rule apply_trigger_rows)
  fix ent r ent' l fs fs'
  assume fe: "find_ent (tn_pk tn) lpk db1 = Some (flag_step db tn ent' l (ent'\<lparr>ent_updated_at := wall db\<rparr>))"
    and fl: "find_listing (tn_pk tn) lpk db1 =
       Some (visibility_step db tn ent' l (tier_step (wall db) (effective_tier db (tn_pk tn) ent') l l))"
    and out: "out = \<lparr>from_status = ent_status ent, to_status = ent_status ent', out_events = rule_events r,
            tier_changed = (current_tier l \<noteq> map_option tier_pk (effective_tier db (tn_pk tn) ent')),
            hid_listing = hides db tn ent' l, unhid_listing = unhides ent' l\<rparr>"
  from fe have l: "load_or_create tn lpk T_CANCEL no_params (db1\<lparr>in_atomic := True\<rparr>) =
      Inr (flag_step db tn ent' l (ent'\<lparr>ent_updated_at := wall db\<rparr>), db1\<lparr>in_atomic := True\<rparr>)"
    by (simp add: load_or_create_def)
  show ?thesis
    by (rule apply_trigger_total [OF fl l])
      (use out assms(3) in \<open>auto simp: machine_simps CLOCK_TRIGGERS_def mutate_cancel_def Let_def\<close>)
qed


end
