(* ===== verification/Command_Log.thy ===== *)
theory Command_Log
  imports Audit_Store
begin

section \<open>The contract of a logged command\<close>

text \<open>
  Every command of the service layer has the orchestrator shape of \<^verbatim>\<open>audit/command_log.py\<close>: it
  refuses to run inside a transaction, commits a \<^verbatim>\<open>command_log\<close> row, does its work, and concludes the
  row. \<open>logged_command\<close> states what a caller may rely on, and proves what follows for any sequence of
  runs; the commands of the billing app interpret it.
\<close>

definition log_ok :: "'z core_db_scheme \<Rightarrow> bool" where
  "log_ok db \<longleftrightarrow> (\<forall>r \<in> set (commands db). cmd_pk r \<le> seq db)"

definition concluded :: "'z core_db_scheme \<Rightarrow> bool" where
  "concluded db \<longleftrightarrow> (\<forall>r \<in> set (commands db). cmd_outcome r \<noteq> None)"

text \<open>What the two writes of a command leave: the row it received, concluded.\<close>

definition concluded_row :: "command_row \<Rightarrow> string \<Rightarrow> string \<Rightarrow> json option \<Rightarrow> json option \<Rightarrow> instant \<Rightarrow> command_row" where
  "concluded_row row outcome eid problem new_payload now =
     (case new_payload of None \<Rightarrow> row | Some p \<Rightarrow> row\<lparr>cmd_payload := Some p\<rparr>)
        \<lparr>cmd_outcome := Some outcome, cmd_result_event_id := eid, cmd_problem := problem, cmd_concluded_at := Some now\<rparr>"

lemma concluded_row_simps [simp]:
  "cmd_outcome (concluded_row row outc eid prob np now) = Some outc"
  "cmd_pk (concluded_row row outc eid prob np now) = cmd_pk row"
  "cmd_command (concluded_row row outc eid prob np now) = cmd_command row"
  "cmd_actor (concluded_row row outc eid prob np now) = cmd_actor row"
  "cmd_tenant (concluded_row row outc eid prob np now) = cmd_tenant row"
  "cmd_problem (concluded_row row outc eid prob np now) = prob"
  "cmd_payload (concluded_row row outc eid prob None now) = cmd_payload row"
  by (simp_all add: concluded_row_def split: option.split)

lemma log_received_simps:
  assumes "log_received cmd tn key actor trace orig payload db = (row, db1)"
  shows "commands db1 = commands db @ [row]" "cmd_pk row = Suc (seq db)" "seq db1 = Suc (seq db)"
    "cmd_command row = cmd" "cmd_actor row = actor" "cmd_payload row = payload" "cmd_tenant row = tn"
    "db1 = db\<lparr>commands := commands db @ [row], seq := Suc (seq db)\<rparr>"
  using assms by (auto simp: log_received_def Let_def)

lemma log_conclude_own:
  assumes ok: "log_ok db" and r: "log_received cmd tn key actor trace orig payload db = (row, db1)"
    and kept: "commands db2 = commands db1"
  shows "commands (log_conclude row outc eid prob np db2) = commands db @ [concluded_row row outc eid prob np (wall db2)]"
proof -
  note s = log_received_simps [OF r]
  have "update_where (\<lambda>r. cmd_pk r = cmd_pk row) f (commands db) = commands db" for f
    using ok s(2) by (intro update_where_none) (auto simp: log_ok_def)
  then show ?thesis
    by (simp add: log_conclude_def kept s(1) concluded_row_def split: option.split)
qed

lemma log_conclude_other [simp]:
  "in_atomic (log_conclude row outc eid prob np db) = in_atomic db"
  "outbox (log_conclude row outc eid prob np db) = outbox db"
  "mail (log_conclude row outc eid prob np db) = mail db"
  "seq (log_conclude row outc eid prob np db) = seq db"
  "wall (log_conclude row outc eid prob np db) = wall db"
  by (simp_all add: log_conclude_def)

subsection \<open>The interface\<close>

locale logged_command =
  fixes run :: "'a \<Rightarrow> 'z core_db_scheme \<Rightarrow> ('e + 'r) \<times> 'z core_db_scheme"
    and pre :: "'a \<Rightarrow> 'z core_db_scheme \<Rightarrow> bool"
  assumes in_transaction: "in_atomic db \<Longrightarrow> isl (fst (run a db)) \<and> snd (run a db) = db"
    and logs: "\<not> in_atomic db \<Longrightarrow> log_ok db \<Longrightarrow> pre a db \<Longrightarrow>
      (\<exists>row. commands (snd (run a db)) = commands db @ [row] \<and> cmd_outcome row \<noteq> None
         \<and> (cmd_outcome row = Some ''applied'' \<longleftrightarrow> \<not> isl (fst (run a db))))
      \<and> log_ok (snd (run a db)) \<and> \<not> in_atomic (snd (run a db))"
begin

lemma keeps_concluded:
  "\<not> in_atomic db \<Longrightarrow> log_ok db \<Longrightarrow> pre a db \<Longrightarrow> concluded db \<Longrightarrow> concluded (snd (run a db))"
  using logs [of db a] by (auto simp: concluded_def)

lemma one_row_each:
  "\<not> in_atomic db \<Longrightarrow> log_ok db \<Longrightarrow> pre a db \<Longrightarrow> length (commands (snd (run a db))) = Suc (length (commands db))"
  using logs [of db a] by auto

text \<open>A sequence of runs, as long as each starts in a state it allows.\<close>

fun run_all :: "'a list \<Rightarrow> 'z core_db_scheme \<Rightarrow> 'z core_db_scheme" where
  "run_all [] db = db"
| "run_all (a # as) db = run_all as (snd (run a db))"

fun all_pre :: "'a list \<Rightarrow> 'z core_db_scheme \<Rightarrow> bool" where
  "all_pre [] db = True"
| "all_pre (a # as) db = (pre a db \<and> all_pre as (snd (run a db)))"

lemma run_all_concluded:
  "\<not> in_atomic db \<Longrightarrow> log_ok db \<Longrightarrow> all_pre as db \<Longrightarrow> concluded db \<Longrightarrow>
   concluded (run_all as db) \<and> length (commands (run_all as db)) = length (commands db) + length as"
proof (induction as arbitrary: db)
  case (Cons a as)
  from Cons.prems logs [of db a] have "\<not> in_atomic (snd (run a db))" "log_ok (snd (run a db))" by auto
  with Cons.IH [of "snd (run a db)"] Cons.prems keeps_concluded [of db a] one_row_each [of db a] show ?case by simp
qed simp

end

end
