(* ===== verification/Billing_Commands.thy ===== *)
theory Billing_Commands
  imports Transitions Command_Log
begin

section \<open>The operator's entitlement commands\<close>

text \<open>
  \<^verbatim>\<open>billing/commands.py\<close>: comp, revoke and override. \<open>run_command\<close> is \<^verbatim>\<open>_run\<close>, the orchestrator they share;
  each command is its \<^verbatim>\<open>apply\<close> closure and the call. A refusal is a value beside the database, because the
  command log row it concluded stays. An exception \<^verbatim>\<open>_run\<close> does not catch leaves the row unconcluded
  (\<open>Escaped\<close>).
\<close>

datatype cmd_error =
    Refused string
  | CmdAuditError audit_error
  | Escaped ent_error

definition MANAGE_ROLE :: int where
  "MANAGE_ROLE = ROLE_MANAGER"

definition refuse :: "command_row \<Rightarrow> string \<Rightarrow> string \<Rightarrow> 'z core_db_scheme \<Rightarrow> (cmd_error + 'r) \<times> 'z core_db_scheme" where
  "refuse row outc reason db =
     (Inl (Refused reason), log_conclude row outc [] (Some (JObj [(''reason'', JStr reason)])) None db)"

definition below_role :: "membership option \<Rightarrow> bool" where
  "below_role m = (case m of None \<Rightarrow> True | Some mb \<Rightarrow> mb_role mb < MANAGE_ROLE)"

definition run_command :: "tenant \<Rightarrow> string \<Rightarrow> operator \<Rightarrow> listing \<Rightarrow> dict
    \<Rightarrow> (dict \<Rightarrow> 'z billing_db_scheme \<Rightarrow> cmd_error + outcome \<times> 'z billing_db_scheme)
    \<Rightarrow> 'z billing_db_scheme \<Rightarrow> (cmd_error + outcome) \<times> 'z billing_db_scheme" where
  "run_command tn command oper l payload apply_fn db =
     (case require_autocommit db of
        Inl e \<Rightarrow> (Inl (CmdAuditError e), db)
      | Inr u \<Rightarrow>
          let m = active_membership (tn_pk tn) oper db;
              actor = staff_actor oper m;
              (row, db1) = log_received command (Some (tn_pk tn)) None actor [] []
                 (Some (JObj ((''listing_id'', JStr (ls_public_id l)) # payload))) db
          in if below_role m then refuse row ''blocked'' ''forbidden'' db1
             else (case apply_fn actor db1 of
                 Inr (outc, db2) \<Rightarrow> (Inr outc, log_conclude row ''applied'' [] None None db2)
               | Inl (Refused reason) \<Rightarrow>
                   refuse row (if reason = ''forbidden'' then ''blocked'' else ''rejected'') reason db1
               | Inl (Escaped (MachineError (InvalidTransition st tr))) \<Rightarrow> refuse row ''rejected'' ''invalid_state'' db1
               | Inl (Escaped (EntitlementError msg)) \<Rightarrow> refuse row ''rejected'' ''bad_parameters'' db1
               | Inl e \<Rightarrow> (Inl e, db1)))"

definition cmd_tier :: "tenant \<Rightarrow> string \<Rightarrow> 'z billing_db_scheme \<Rightarrow> cmd_error + tier" where
  "cmd_tier tn key db =
     (case (if key \<noteq> [] then find (\<lambda>t. tier_tenant t = tn_pk tn \<and> tier_key t = key) (tiers db) else None) of
        None \<Rightarrow> Inl (Refused ''tier_unknown'')
      | Some t \<Rightarrow> if uses_slot t then Inl (Refused ''tier_slot'') else Inr t)"

definition cmd_reason :: "string \<Rightarrow> cmd_error + string" where
  "cmd_reason reason = (let why = strip reason in if why = [] then Inl (Refused ''reason_required'') else Inr why)"

definition escape :: "ent_error + 'a \<Rightarrow> cmd_error + 'a" where
  "escape r = (case r of Inl e \<Rightarrow> Inl (Escaped e) | Inr x \<Rightarrow> Inr x)"

definition grant_apply :: "tenant \<Rightarrow> listing \<Rightarrow> operator \<Rightarrow> string \<Rightarrow> string \<Rightarrow> instant option \<Rightarrow> instant \<Rightarrow> dict
    \<Rightarrow> 'z billing_db_scheme \<Rightarrow> cmd_error + outcome \<times> 'z billing_db_scheme" where
  "grant_apply tn l oper key reason expires now actor db =
     bind_result (cmd_reason reason) (\<lambda>why.
     bind_result (cmd_tier tn key db) (\<lambda>t.
       if at_or_before expires now then Inl (Refused ''expiry_in_past'')
       else escape (apply_trigger tn (ls_pk l) T_GRANT now actor []
              (no_params\<lparr>p_tier := Some t, p_operator := Some oper, p_reason := Some why, p_expires_at := expires\<rparr>) db)))"

definition grant_comp :: "tenant \<Rightarrow> listing \<Rightarrow> operator \<Rightarrow> string \<Rightarrow> string \<Rightarrow> instant option \<Rightarrow> instant
    \<Rightarrow> 'z billing_db_scheme \<Rightarrow> (cmd_error + outcome) \<times> 'z billing_db_scheme" where
  "grant_comp tn l oper key reason expires now =
     run_command tn ''entitlement.grant'' oper l [(''tier'', JStr key), (''expires'', JBool (expires \<noteq> None))]
       (grant_apply tn l oper key reason expires now)"

definition revoke_apply :: "tenant \<Rightarrow> listing \<Rightarrow> operator \<Rightarrow> string \<Rightarrow> instant \<Rightarrow> dict
    \<Rightarrow> 'z billing_db_scheme \<Rightarrow> cmd_error + outcome \<times> 'z billing_db_scheme" where
  "revoke_apply tn l oper reason now actor db =
     bind_result (cmd_reason reason) (\<lambda>why.
       case find_ent (tn_pk tn) (ls_pk l) db of
         None \<Rightarrow> Inl (Refused ''not_comped'')
       | Some e \<Rightarrow>
           if ent_status e \<noteq> S_COMPED then Inl (Refused ''not_comped'')
           else escape (apply_trigger tn (ls_pk l) T_REVOKE now actor []
                  (no_params\<lparr>p_operator := Some oper, p_reason := Some why\<rparr>) db))"

definition revoke_comp :: "tenant \<Rightarrow> listing \<Rightarrow> operator \<Rightarrow> string \<Rightarrow> instant
    \<Rightarrow> 'z billing_db_scheme \<Rightarrow> (cmd_error + outcome) \<times> 'z billing_db_scheme" where
  "revoke_comp tn l oper reason now =
     run_command tn ''entitlement.revoke'' oper l [] (revoke_apply tn l oper reason now)"

definition override_apply :: "tenant \<Rightarrow> listing \<Rightarrow> operator \<Rightarrow> string \<Rightarrow> string \<Rightarrow> string \<Rightarrow> instant option
    \<Rightarrow> instant option \<Rightarrow> instant \<Rightarrow> dict \<Rightarrow> 'z billing_db_scheme \<Rightarrow> cmd_error + outcome \<times> 'z billing_db_scheme" where
  "override_apply tn l oper to reason key period_end trial now actor db =
     bind_result (cmd_reason reason) (\<lambda>why.
     bind_result (if key = [] then Inr None else (case cmd_tier tn key db of Inl e \<Rightarrow> Inl e | Inr t \<Rightarrow> Inr (Some t))) (\<lambda>t.
       if to = status_value S_COMPED then Inl (Refused ''invalid_state'')
       else escape (apply_trigger tn (ls_pk l) T_OVERRIDE now actor []
              (no_params\<lparr>p_tier := t, p_operator := Some oper, p_reason := Some why, p_to_status := Some to,
                 p_period_end := period_end, p_trial_ends_at := trial\<rparr>) db)))"

definition override_entitlement :: "tenant \<Rightarrow> listing \<Rightarrow> operator \<Rightarrow> string \<Rightarrow> string \<Rightarrow> string \<Rightarrow> instant option
    \<Rightarrow> instant option \<Rightarrow> instant \<Rightarrow> 'z billing_db_scheme \<Rightarrow> (cmd_error + outcome) \<times> 'z billing_db_scheme" where
  "override_entitlement tn l oper to reason key period_end trial now =
     run_command tn ''entitlement.override'' oper l [(''to_status'', JStr to), (''tier'', JStr key)]
       (override_apply tn l oper to reason key period_end trial now)"

subsection \<open>What \<open>run_command\<close> leaves in the log\<close>

text \<open>The errors \<^verbatim>\<open>_run\<close> turns into a refusal.\<close>

definition caught :: "cmd_error \<Rightarrow> bool" where
  "caught e \<longleftrightarrow> (\<exists>r. e = Refused r) \<or> (\<exists>st tr. e = Escaped (MachineError (InvalidTransition st tr)))
     \<or> (\<exists>m. e = Escaped (EntitlementError m))"

lemma refuse_simps [simp]:
  "fst (refuse row outc reason db) = Inl (Refused reason)"
  "snd (refuse row outc reason db) = log_conclude row outc [] (Some (JObj [(''reason'', JStr reason)])) None db"
  by (simp_all add: refuse_def)

lemma run_command_cases:
  assumes na: "\<not> in_atomic db" and ok: "log_ok db"
    and lr: "log_received command (Some (tn_pk tn)) None (staff_actor oper (active_membership (tn_pk tn) oper db)) [] []
        (Some (JObj ((''listing_id'', JStr (ls_public_id l)) # payload))) db = (row, db1)"
  obtains (refused) reason outc where "run_command tn command oper l payload f db =
        (Inl (Refused reason), db\<lparr>commands := commands db @ [concluded_row row outc [] (Some (JObj [(''reason'', JStr reason)])) None (wall db)],
           seq := Suc (seq db)\<rparr>)" "outc = (if reason = ''forbidden'' then ''blocked'' else ''rejected'')"
      "below_role (active_membership (tn_pk tn) oper db) \<Longrightarrow> reason = ''forbidden''"
    | (escaped) e where "\<not> below_role (active_membership (tn_pk tn) oper db)"
        "f (staff_actor oper (active_membership (tn_pk tn) oper db)) db1 = Inl e" "\<not> caught e"
        "run_command tn command oper l payload f db = (Inl e, db1)"
    | (applied) out db2 where "\<not> below_role (active_membership (tn_pk tn) oper db)"
        "f (staff_actor oper (active_membership (tn_pk tn) oper db)) db1 = Inr (out, db2)"
        "run_command tn command oper l payload f db = (Inr out, log_conclude row ''applied'' [] None None db2)"
proof -
  let ?below = "below_role (active_membership (tn_pk tn) oper db)"
  let ?f = "f (staff_actor oper (active_membership (tn_pk tn) oper db)) db1"
  have run: "run_command tn command oper l payload f db =
     (if ?below then refuse row ''blocked'' ''forbidden'' db1
      else (case ?f of
                 Inr (outc, db2) \<Rightarrow> (Inr outc, log_conclude row ''applied'' [] None None db2)
               | Inl (Refused reason) \<Rightarrow>
                   refuse row (if reason = ''forbidden'' then ''blocked'' else ''rejected'') reason db1
               | Inl (Escaped (MachineError (InvalidTransition st tr))) \<Rightarrow> refuse row ''rejected'' ''invalid_state'' db1
               | Inl (Escaped (EntitlementError msg)) \<Rightarrow> refuse row ''rejected'' ''bad_parameters'' db1
               | Inl e \<Rightarrow> (Inl e, db1)))"
    using na by (simp add: run_command_def require_autocommit_def lr)
  have conc: "log_conclude row outc eid prob None db1
      = db\<lparr>commands := commands db @ [concluded_row row outc eid prob None (wall db)], seq := Suc (seq db)\<rparr>" for outc eid prob
  proof -
    have "log_conclude row outc eid prob None db1 = db1\<lparr>commands := commands (log_conclude row outc eid prob None db1)\<rparr>"
      by (simp add: log_conclude_def)
    with log_conclude_own [OF ok lr refl] log_received_simps(8) [OF lr] show ?thesis by simp
  qed
  consider (below) "?below" | (fine) out db2 where "\<not> ?below" "?f = Inr (out, db2)"
    | (ref) r where "\<not> ?below" "?f = Inl (Refused r)"
    | (inv) st tr where "\<not> ?below" "?f = Inl (Escaped (MachineError (InvalidTransition st tr)))"
    | (par) m where "\<not> ?below" "?f = Inl (Escaped (EntitlementError m))"
    | (esc) e where "\<not> ?below" "?f = Inl e" "\<not> caught e"
    by (cases ?f) (auto simp: caught_def, metis)
  then show ?thesis
  proof cases
    case below
    with run show ?thesis by (intro refused [of "''forbidden''" "''blocked''"]) (simp_all add: refuse_def conc)
  next
    case fine
    with run show ?thesis by (intro applied) simp_all
  next
    case (ref r)
    with run show ?thesis
      by (intro refused [of r "if r = ''forbidden'' then ''blocked'' else ''rejected''"]) (simp_all add: refuse_def conc)
  next
    case inv
    with run show ?thesis by (intro refused [of "''invalid_state''" "''rejected''"]) (simp_all add: refuse_def conc)
  next
    case par
    with run show ?thesis by (intro refused [of "''bad_parameters''" "''rejected''"]) (simp_all add: refuse_def conc)
  next
    case (esc e)
    with run have "run_command tn command oper l payload f db = (Inl e, db1)"
      by (cases e) (auto simp: caught_def split: ent_error.splits machine_error.splits)
    with esc show ?thesis by (intro escaped)
  qed
qed

subsection \<open>Refusals\<close>

text \<open>A refused operator command changes nothing: the database is as before except for its own command log row,
  concluded \<^verbatim>\<open>blocked\<close> when the role is too low and \<^verbatim>\<open>rejected\<close> otherwise, with the reason; and an operator below
  manager, or without an active membership, is always refused as forbidden.\<close>
theorem run_command_refusal:
  assumes "\<not> in_atomic db" and "log_ok db"
  shows "(\<forall>reason db'. run_command tn command oper l payload f db = (Inl (Refused reason), db') \<longrightarrow>
      (\<exists>row. db' = db\<lparr>commands := commands db @ [row], seq := Suc (seq db)\<rparr>
        \<and> cmd_outcome row = Some (if reason = ''forbidden'' then ''blocked'' else ''rejected'')
        \<and> cmd_problem row = Some (JObj [(''reason'', JStr reason)])))
    \<and> (below_role (active_membership (tn_pk tn) oper db) \<longrightarrow>
        fst (run_command tn command oper l payload f db) = Inl (Refused ''forbidden''))"
proof -
  obtain row db1 where lr: "log_received command (Some (tn_pk tn)) None (staff_actor oper (active_membership (tn_pk tn) oper db)) [] []
      (Some (JObj ((''listing_id'', JStr (ls_public_id l)) # payload))) db = (row, db1)" by fastforce
  show ?thesis
    by (rule run_command_cases [OF assms lr, of f]) (auto simp: caught_def)
qed

theorem run_command_refusal_witness:
  "fst (run_command sample_tenant ''entitlement.grant'' \<lparr>op_pk = 6, op_public_id = ''op_6'', op_email = ''six@example.com'', op_is_active = True, op_name = [], op_password = Some ''pw'', op_is_superadmin = False, op_is_staff = False, op_is_superuser = False\<rparr> sample_listing []
     (grant_apply sample_tenant sample_listing sample_operator ''gold'' ''thanks'' None sample_now) (sample_db []))
   = Inl (Refused ''forbidden'')"
  using run_command_refusal [of "sample_db []" sample_tenant "''entitlement.grant''" "\<lparr>op_pk = 6, op_public_id = ''op_6'', op_email = ''six@example.com'', op_is_active = True, op_name = [], op_password = Some ''pw'', op_is_superadmin = False, op_is_staff = False, op_is_superuser = False\<rparr>" sample_listing "[]"
      "grant_apply sample_tenant sample_listing sample_operator ''gold'' ''thanks'' None sample_now"]
  by (auto simp: sample_db_def log_ok_def below_role_def active_membership_def sample_membership_def)

subsection \<open>The commands meet the contract\<close>

definition cmd_pre :: "tenant \<Rightarrow> listing \<Rightarrow> 'z billing_db_scheme \<Rightarrow> bool" where
  "cmd_pre tn l db \<longleftrightarrow> db_ok db \<and> find_listing (tn_pk tn) (ls_pk l) db \<noteq> None
     \<and> (find_ent (tn_pk tn) (ls_pk l) db = None \<longrightarrow> ls_pk l \<notin> ent_listing ` set (entitlements db))"

lemma cmd_pre_logged: "cmd_pre tn l db \<Longrightarrow> cmd_pre tn l (db\<lparr>commands := cs, seq := Suc (seq db)\<rparr>)"
  by (auto simp: cmd_pre_def db_ok_def find_listing_def find_ent_def)

lemma apply_trigger_caught:
  assumes pre: "cmd_pre tn l db" and tr: "tr \<notin> set CLOCK_TRIGGERS"
    and e: "apply_trigger tn (ls_pk l) tr now actor origin p db = Inl e"
  shows "caught (Escaped e)"
proof -
  from e have "apply_body tn (ls_pk l) tr now actor origin p (db\<lparr>in_atomic := True\<rparr>) = Inl e"
    by (auto simp: apply_trigger_def atomic_def split: sum.splits prod.splits)
  moreover have "in_atomic (db\<lparr>in_atomic := True\<rparr>)" by simp
  ultimately show ?thesis
  proof (cases rule: apply_body_Inl)
    case row
    with pre show ?thesis
      by (auto simp: load_or_create_def cmd_pre_def caught_def Let_def split: option.splits if_splits)
  qed (use pre tr in \<open>auto simp: cmd_pre_def caught_def\<close>)
qed

lemma escape_Inl: "escape r = Inl e \<longleftrightarrow> (\<exists>x. r = Inl x \<and> e = Escaped x)"
  by (cases r) (auto simp: escape_def)

lemma escape_Inr: "escape r = Inr x \<longleftrightarrow> r = Inr x"
  by (cases r) (auto simp: escape_def)

lemma cmd_reason_Inl: "cmd_reason r = Inl e \<Longrightarrow> caught e"
  by (auto simp: cmd_reason_def Let_def caught_def split: if_splits)

lemma cmd_tier_Inl: "cmd_tier tn key db = Inl e \<Longrightarrow> caught e"
  by (auto simp: cmd_tier_def caught_def split: option.splits if_splits)

lemma caught_Refused [simp]: "caught (Refused r)"
  by (simp add: caught_def)

lemma apply_fns_caught:
  assumes "cmd_pre tn l db"
  shows "grant_apply tn l oper key reason expires now actor db = Inl e \<Longrightarrow> caught e"
    and "revoke_apply tn l oper reason now actor db = Inl e \<Longrightarrow> caught e"
    and "override_apply tn l oper to reason key period_end trial now actor db = Inl e \<Longrightarrow> caught e"
proof -
  have a: "escape (apply_trigger tn (ls_pk l) tr now actor origin p db) = Inl e \<Longrightarrow> caught e"
    if "tr \<in> {T_GRANT, T_REVOKE, T_OVERRIDE}" for tr origin p
    using apply_trigger_caught [OF assms, of tr] that by (auto simp: escape_Inl CLOCK_TRIGGERS_def)
  show "grant_apply tn l oper key reason expires now actor db = Inl e \<Longrightarrow> caught e"
    by (auto simp: grant_apply_def bind_result_eq_Inl split: if_splits dest: cmd_reason_Inl cmd_tier_Inl a [rotated])
  show "revoke_apply tn l oper reason now actor db = Inl e \<Longrightarrow> caught e"
    by (cases "find_ent (tn_pk tn) (ls_pk l) db")
      (auto simp: revoke_apply_def bind_result_eq_Inl split: if_splits dest: cmd_reason_Inl a [rotated])
  show "override_apply tn l oper to reason key period_end trial now actor db = Inl e \<Longrightarrow> caught e"
    by (cases "cmd_tier tn key db")
      (auto simp: override_apply_def bind_result_eq_Inl split: if_splits dest: cmd_reason_Inl cmd_tier_Inl a [rotated])
qed

lemma apply_trigger_keeps:
  assumes "db_ok db" and "apply_trigger tn lpk tr now actor origin p db = Inr (out, db')"
  shows "commands db' = commands db \<and> in_atomic db' = in_atomic db \<and> seq db \<le> seq db' \<and> db_ok db' \<and> wall db' = wall db"
  using assms by (rule apply_trigger_rows) (auto simp: billing_frame_def)

lemma apply_fns_keep:
  assumes "db_ok db"
  shows "grant_apply tn l oper key reason expires now actor db = Inr (out, db') \<Longrightarrow>
      commands db' = commands db \<and> in_atomic db' = in_atomic db \<and> seq db \<le> seq db'"
    and "revoke_apply tn l oper reason now actor db = Inr (out, db') \<Longrightarrow>
      commands db' = commands db \<and> in_atomic db' = in_atomic db \<and> seq db \<le> seq db'"
    and "override_apply tn l oper to reason key period_end trial now actor db = Inr (out, db') \<Longrightarrow>
      commands db' = commands db \<and> in_atomic db' = in_atomic db \<and> seq db \<le> seq db'"
  by (auto simp: grant_apply_def revoke_apply_def override_apply_def bind_result_eq_Inr escape_Inr
      split: if_splits option.splits sum.splits dest!: apply_trigger_keeps [OF assms])

lemma run_command_logged:
  assumes na: "\<not> in_atomic db" and ok: "log_ok db" and pre: "cmd_pre tn l db"
    and caught: "\<And>actor d e. cmd_pre tn l d \<Longrightarrow> f actor d = Inl e \<Longrightarrow> caught e"
    and keep: "\<And>actor d out d'. db_ok d \<Longrightarrow> f actor d = Inr (out, d') \<Longrightarrow>
        commands d' = commands d \<and> in_atomic d' = in_atomic d \<and> seq d \<le> seq d'"
  shows "(\<exists>row. commands (snd (run_command tn command oper l payload f db)) = commands db @ [row] \<and> cmd_outcome row \<noteq> None
         \<and> (cmd_outcome row = Some ''applied'' \<longleftrightarrow> \<not> isl (fst (run_command tn command oper l payload f db))))
      \<and> log_ok (snd (run_command tn command oper l payload f db)) \<and> \<not> in_atomic (snd (run_command tn command oper l payload f db))"
proof -
  obtain row db1 where lr: "log_received command (Some (tn_pk tn)) None (staff_actor oper (active_membership (tn_pk tn) oper db)) [] []
      (Some (JObj ((''listing_id'', JStr (ls_public_id l)) # payload))) db = (row, db1)" by fastforce
  note s = log_received_simps [OF lr]
  have pre1: "cmd_pre tn l db1" unfolding s(8) by (rule cmd_pre_logged [OF pre])
  show ?thesis
  proof (rule run_command_cases [OF na ok lr, of f])
    fix reason outc
    assume "run_command tn command oper l payload f db =
        (Inl (Refused reason), db\<lparr>commands := commands db @ [concluded_row row outc [] (Some (JObj [(''reason'', JStr reason)])) None (wall db)],
           seq := Suc (seq db)\<rparr>)" "outc = (if reason = ''forbidden'' then ''blocked'' else ''rejected'')"
    with ok na s(2) show ?thesis by (auto simp: log_ok_def)
  next
    fix out db2
    assume f: "f (staff_actor oper (active_membership (tn_pk tn) oper db)) db1 = Inr (out, db2)"
      and run: "run_command tn command oper l payload f db = (Inr out, log_conclude row ''applied'' [] None None db2)"
    have k: "commands db2 = commands db1 \<and> in_atomic db2 = in_atomic db1 \<and> seq db1 \<le> seq db2"
      using keep [OF _ f] pre1 by (simp add: cmd_pre_def)
    then have "commands (log_conclude row ''applied'' [] None None db2) = commands db @ [concluded_row row ''applied'' [] None None (wall db2)]"
      by (intro log_conclude_own [OF ok lr]) simp
    with run k s na ok show ?thesis by (auto simp: log_ok_def)
  qed (use caught pre1 in blast)
qed

text \<open>The three commands as interpretations of the contract.\<close>

interpretation grant_cmd: logged_command
  "\<lambda>(tn, l, oper, key, reason, expires, now). grant_comp tn l oper key reason expires now"
  "\<lambda>(tn, l, oper, key, reason, expires, now) db. cmd_pre tn l db"
proof
  fix db :: "'a billing_db_scheme" and a :: "tenant \<times> listing \<times> operator \<times> string \<times> string \<times> instant option \<times> instant"
  obtain tn l oper key reason expires now where a: "a = (tn, l, oper, key, reason, expires, now)" by (metis prod.exhaust)
  let ?run = "(\<lambda>(tn, l, oper, key, reason, expires, now). grant_comp tn l oper key reason expires now) a db"
  show "in_atomic db \<Longrightarrow> isl (fst ?run) \<and> snd ?run = db"
    by (simp add: a grant_comp_def run_command_def require_autocommit_def)
  assume "\<not> in_atomic db" "log_ok db" "(\<lambda>(tn, l, oper, key, reason, expires, now) db. cmd_pre tn l db) a db"
  then show "(\<exists>row. commands (snd ?run) = commands db @ [row] \<and> cmd_outcome row \<noteq> None
      \<and> (cmd_outcome row = Some ''applied'' \<longleftrightarrow> \<not> isl (fst ?run))) \<and> log_ok (snd ?run) \<and> \<not> in_atomic (snd ?run)"
    unfolding a grant_comp_def prod.case
    by (intro run_command_logged) (auto dest: apply_fns_caught apply_fns_keep)
qed

interpretation revoke_cmd: logged_command
  "\<lambda>(tn, l, oper, reason, now). revoke_comp tn l oper reason now"
  "\<lambda>(tn, l, oper, reason, now) db. cmd_pre tn l db"
proof
  fix db :: "'a billing_db_scheme" and a :: "tenant \<times> listing \<times> operator \<times> string \<times> instant"
  obtain tn l oper reason now where a: "a = (tn, l, oper, reason, now)" by (metis prod.exhaust)
  let ?run = "(\<lambda>(tn, l, oper, reason, now). revoke_comp tn l oper reason now) a db"
  show "in_atomic db \<Longrightarrow> isl (fst ?run) \<and> snd ?run = db"
    by (simp add: a revoke_comp_def run_command_def require_autocommit_def)
  assume "\<not> in_atomic db" "log_ok db" "(\<lambda>(tn, l, oper, reason, now) db. cmd_pre tn l db) a db"
  then show "(\<exists>row. commands (snd ?run) = commands db @ [row] \<and> cmd_outcome row \<noteq> None
      \<and> (cmd_outcome row = Some ''applied'' \<longleftrightarrow> \<not> isl (fst ?run))) \<and> log_ok (snd ?run) \<and> \<not> in_atomic (snd ?run)"
    unfolding a revoke_comp_def prod.case
    by (intro run_command_logged) (auto dest: apply_fns_caught apply_fns_keep)
qed

interpretation override_cmd: logged_command
  "\<lambda>(tn, l, oper, to, reason, key, period_end, trial, now). override_entitlement tn l oper to reason key period_end trial now"
  "\<lambda>(tn, l, oper, to, reason, key, period_end, trial, now) db. cmd_pre tn l db"
proof
  fix db :: "'a billing_db_scheme" and a :: "tenant \<times> listing \<times> operator \<times> string \<times> string \<times> string \<times> instant option \<times> instant option \<times> instant"
  obtain tn l oper to reason key period_end trial now where a: "a = (tn, l, oper, to, reason, key, period_end, trial, now)" by (metis prod.exhaust)
  let ?run = "(\<lambda>(tn, l, oper, to, reason, key, period_end, trial, now). override_entitlement tn l oper to reason key period_end trial now) a db"
  show "in_atomic db \<Longrightarrow> isl (fst ?run) \<and> snd ?run = db"
    by (simp add: a override_entitlement_def run_command_def require_autocommit_def)
  assume "\<not> in_atomic db" "log_ok db" "(\<lambda>(tn, l, oper, to, reason, key, period_end, trial, now) db. cmd_pre tn l db) a db"
  then show "(\<exists>row. commands (snd ?run) = commands db @ [row] \<and> cmd_outcome row \<noteq> None
      \<and> (cmd_outcome row = Some ''applied'' \<longleftrightarrow> \<not> isl (fst ?run))) \<and> log_ok (snd ?run) \<and> \<not> in_atomic (snd ?run)"
    unfolding a override_entitlement_def prod.case
    by (intro run_command_logged) (auto dest: apply_fns_caught apply_fns_keep)
qed

subsection \<open>Properties of the commands\<close>

text \<open>Every operator command that runs on a listing of the tenant leaves exactly one new command log row, concluded,
  with the outcome \<^verbatim>\<open>applied\<close> exactly when the command returned its outcome.\<close>
theorem operator_commands_logged:
  assumes "\<not> in_atomic db" and "log_ok db" and "cmd_pre tn l db"
    and "result \<in> {grant_comp tn l oper key reason expires now db, revoke_comp tn l oper reason now db,
      override_entitlement tn l oper to reason key period_end trial now db}"
  shows "\<exists>row. commands (snd result) = commands db @ [row] \<and> cmd_outcome row \<noteq> None
    \<and> (cmd_outcome row = Some ''applied'' \<longleftrightarrow> \<not> isl (fst result))"
  using assms(4) grant_cmd.logs [OF assms(1,2), of "(tn, l, oper, key, reason, expires, now)"]
    revoke_cmd.logs [OF assms(1,2), of "(tn, l, oper, reason, now)"]
    override_cmd.logs [OF assms(1,2), of "(tn, l, oper, to, reason, key, period_end, trial, now)"] assms(3)
  by auto

lemma sample_cmd_pre: "cmd_pre sample_tenant sample_listing (sample_db [sample_ent st])" "log_ok (sample_db es)"
  "\<not> in_atomic (sample_db es)"
  by (simp_all add: cmd_pre_def log_ok_def sample_db_def sample_listing_def find_listing_def find_ent_def sample_tenant_def
      db_ok_def sample_ent_def)

theorem operator_commands_logged_witness:
  "\<exists>row. commands (snd (revoke_comp sample_tenant sample_listing sample_operator ''over'' sample_now (sample_db [sample_ent S_ACTIVE]))) = [row]
    \<and> cmd_outcome row \<noteq> None"
proof -
  have c: "commands (sample_db es) = []" for es by (simp add: sample_db_def)
  have "revoke_comp sample_tenant sample_listing sample_operator ''over'' sample_now (sample_db [sample_ent S_ACTIVE]) \<in>
    {grant_comp sample_tenant sample_listing sample_operator [] ''over'' None sample_now (sample_db [sample_ent S_ACTIVE]),
     revoke_comp sample_tenant sample_listing sample_operator ''over'' sample_now (sample_db [sample_ent S_ACTIVE]),
     override_entitlement sample_tenant sample_listing sample_operator [] ''over'' [] None None sample_now (sample_db [sample_ent S_ACTIVE])}"
    by simp
  from operator_commands_logged [OF sample_cmd_pre(3) sample_cmd_pre(2) sample_cmd_pre(1) this] show ?thesis by (auto simp: c)
qed

lemma run_command_applies:
  assumes "\<not> in_atomic db" "log_ok db" "\<not> below_role (active_membership (tn_pk tn) oper db)" "cmd_pre tn l db"
    "\<And>actor d. cmd_pre tn l d \<Longrightarrow> tiers d = tiers db \<Longrightarrow> entitlements d = entitlements db \<Longrightarrow> \<exists>out d'. f actor d = Inr (out, d')"
  shows "\<exists>out db'. run_command tn command oper l payload f db = (Inr out, db')"
proof -
  obtain row db1 where lr: "log_received command (Some (tn_pk tn)) None (staff_actor oper (active_membership (tn_pk tn) oper db)) [] []
      (Some (JObj ((''listing_id'', JStr (ls_public_id l)) # payload))) db = (row, db1)" by fastforce
  note s = log_received_simps(8) [OF lr]
  have "\<exists>out d'. f (staff_actor oper (active_membership (tn_pk tn) oper db)) db1 = Inr (out, d')"
    using assms(5) [of db1] cmd_pre_logged [OF assms(4)] by (simp add: s)
  with assms(1,3) lr show ?thesis by (auto simp: run_command_def require_autocommit_def)
qed

lemma operator_trigger_applies:
  assumes pre: "cmd_pre tn l db" and tr: "tr \<in> {T_GRANT, T_OVERRIDE}" "p_tier p = Some t"
    and m: "\<And>r ent fs. \<exists>ef. mutate tr r ent fs now p = Inr ef"
  shows "\<exists>out db'. apply_trigger tn (ls_pk l) tr now actor origin p db = Inr (out, db')"
proof -
  from pre obtain x where x: "find_listing (tn_pk tn) (ls_pk l) db = Some x" by (auto simp: cmd_pre_def)
  have "\<exists>ent db1. load_or_create tn (ls_pk l) tr p (db\<lparr>in_atomic := True\<rparr>) = Inr (ent, db1)"
    using pre tr by (auto simp: load_or_create_def cmd_pre_def CREATING_def Let_def split: option.split)
  then obtain ent db1 where lo: "load_or_create tn (ls_pk l) tr p (db\<lparr>in_atomic := True\<rparr>) = Inr (ent, db1)" by blast
  from tr obtain r where "rule_for (ent_status ent) tr = Inr r" by (auto simp: machine_simps)
  from apply_trigger_total [OF x lo this] m tr show ?thesis by (auto simp: CLOCK_TRIGGERS_def)
qed

lemma grant_comp_applies:
  assumes "\<not> in_atomic db" "log_ok db" "\<not> below_role (active_membership (tn_pk tn) oper db)" "cmd_pre tn l db"
    "strip reason \<noteq> []" "cmd_tier tn key db = Inr t" "\<not> at_or_before expires now"
  shows "\<exists>out db'. grant_comp tn l oper key reason expires now db = (Inr out, db')"
  unfolding grant_comp_def
proof (rule run_command_applies [OF assms(1-4)])
  fix actor and d :: "'a billing_db_scheme"
  assume "cmd_pre tn l d" "tiers d = tiers db"
  moreover from this assms(6) have "cmd_tier tn key d = Inr t" by (auto simp: cmd_tier_def split: if_splits)
  moreover have "\<exists>ef. mutate T_GRANT r ent fs now
      (no_params\<lparr>p_tier := Some t, p_operator := Some oper, p_reason := Some why, p_expires_at := expires\<rparr>) = Inr ef" for r ent fs why
    by (simp add: mutate_grant_def need_def)
  ultimately show "\<exists>out d'. grant_apply tn l oper key reason expires now actor d = Inr (out, d')"
    using assms(5,7) by (simp add: grant_apply_def cmd_reason_def Let_def escape_Inr operator_trigger_applies)
qed

text \<open>A comp that is granted was granted by an active manager or admin of the tenant, with a reason that is not blank
  and a tier of the tenant that needs no slot; the entitlement is then comped on that tier, records the operator,
  the reason and the expiry, and no trace of an earlier paid period or dunning remains.\<close>
theorem grant_comp_effect:
  assumes "\<not> in_atomic db" and "log_ok db" and "db_ok db"
    and "grant_comp tn l oper key reason expires now db = (Inr out, db')"
  shows "(\<exists>m. active_membership (tn_pk tn) oper db = Some m \<and> ROLE_MANAGER \<le> mb_role m) \<and> strip reason \<noteq> []
    \<and> (\<exists>t e. t \<in> set (tiers db) \<and> tier_tenant t = tn_pk tn \<and> tier_key t = key \<and> \<not> uses_slot t
        \<and> find_ent (tn_pk tn) (ls_pk l) db' = Some e \<and> ent_status e = S_COMPED \<and> ent_tier e = tier_pk t
        \<and> comp_granted_by e = Some (op_public_id oper) \<and> comp_reason e = strip reason \<and> comp_expires_at e = expires
        \<and> current_period_end e = None \<and> dunning_ends_at e = None \<and> grace_ends_at e = None \<and> canceled_at e = None)"
proof -
  obtain row db1 where lr: "log_received ''entitlement.grant'' (Some (tn_pk tn)) None
      (staff_actor oper (active_membership (tn_pk tn) oper db)) [] []
      (Some (JObj ((''listing_id'', JStr (ls_public_id l)) # [(''tier'', JStr key), (''expires'', JBool (expires \<noteq> None))]))) db = (row, db1)"
    by fastforce
  note s = log_received_simps [OF lr]
  let ?f = "grant_apply tn l oper key reason expires now"
  obtain db2 where nb: "\<not> below_role (active_membership (tn_pk tn) oper db)"
    and f: "?f (staff_actor oper (active_membership (tn_pk tn) oper db)) db1 = Inr (out, db2)"
    and db': "db' = log_conclude row ''applied'' [] None None db2"
    by (rule run_command_cases [OF assms(1,2) lr, of ?f]) (use assms(4) in \<open>auto simp: grant_comp_def\<close>)
  from f obtain why t where why: "cmd_reason reason = Inr why" and t: "cmd_tier tn key db1 = Inr t"
    and a: "apply_trigger tn (ls_pk l) T_GRANT now (staff_actor oper (active_membership (tn_pk tn) oper db)) []
      (no_params\<lparr>p_tier := Some t, p_operator := Some oper, p_reason := Some why, p_expires_at := expires\<rparr>) db1 = Inr (out, db2)"
    by (auto simp: grant_apply_def bind_result_eq_Inr escape_Inr split: if_splits)
  have "db_ok db1" using assms(3) by (auto simp: s(8) db_ok_def)
  from apply_trigger_ent [OF this a] obtain ent r e fs fs' h u
    where m: "mutate T_GRANT r ent fs now (no_params\<lparr>p_tier := Some t, p_operator := Some oper, p_reason := Some why, p_expires_at := expires\<rparr>) = Inr (e, fs')"
      and fe: "find_ent (tn_pk tn) (ls_pk l) db2 = Some (e\<lparr>ent_updated_at := u, hidden_by_expiry := h\<rparr>)" by blast
  have fe': "find_ent (tn_pk tn) (ls_pk l) db' = Some (e\<lparr>ent_updated_at := u, hidden_by_expiry := h\<rparr>)"
    using fe by (simp add: db' find_ent_def log_conclude_def)
  from t have tt: "t \<in> set (tiers db)" "tier_tenant t = tn_pk tn" "tier_key t = key" "\<not> uses_slot t"
    by (auto simp: cmd_tier_def s(8) dest!: find_SomeD split: option.splits if_splits)
  from m have "ent_status e = S_COMPED \<and> ent_tier e = tier_pk t \<and> comp_granted_by e = Some (op_public_id oper)
      \<and> comp_reason e = why \<and> comp_expires_at e = expires \<and> current_period_end e = None \<and> dunning_ends_at e = None
      \<and> grace_ends_at e = None \<and> canceled_at e = None"
    by (auto simp: mutate_grant_def bind_result_eq_Inr reset_lifecycle_def)
  moreover from why have "why = strip reason" "strip reason \<noteq> []" by (auto simp: cmd_reason_def Let_def split: if_splits)
  moreover from nb have "\<exists>m. active_membership (tn_pk tn) oper db = Some m \<and> ROLE_MANAGER \<le> mb_role m"
    by (auto simp: below_role_def MANAGE_ROLE_def split: option.splits)
  ultimately show ?thesis using fe' tt by auto
qed

lemma sample_role: "\<not> below_role (active_membership (tn_pk sample_tenant) sample_operator (sample_db es))"
  by (simp add: below_role_def active_membership_def sample_db_def sample_operator_def sample_tenant_def sample_membership_def
      MANAGE_ROLE_def)

lemma sample_cmd_tier: "cmd_tier sample_tenant ''gold'' (sample_db es) = Inr sample_tier"
  by (simp add: cmd_tier_def sample_tier_def sample_tenant_def sample_db_def)

theorem grant_comp_effect_witness:
  "\<exists>out db' e. grant_comp sample_tenant sample_listing sample_operator ''gold'' ''thanks'' None sample_now (sample_db [sample_ent S_GRACE])
      = (Inr out, db') \<and> find_ent (tn_pk sample_tenant) 10 db' = Some e \<and> ent_status e = S_COMPED \<and> comp_reason e = ''thanks''"
proof -
  have st: "strip ''thanks'' = ''thanks''" by (simp add: strip_def is_space_def Let_def)
  from grant_comp_applies [OF sample_cmd_pre(3) sample_cmd_pre(2) sample_role sample_cmd_pre(1), where reason = "''thanks''"
      and expires = None and now = sample_now, OF _ sample_cmd_tier] st
  have "\<exists>out db'. grant_comp sample_tenant sample_listing sample_operator ''gold'' ''thanks'' None sample_now
      (sample_db [sample_ent S_GRACE]) = (Inr out, db')" by simp
  then obtain out db' where g: "grant_comp sample_tenant sample_listing sample_operator ''gold'' ''thanks'' None sample_now
      (sample_db [sample_ent S_GRACE]) = (Inr out, db')" by blast
  have lp: "ls_pk sample_listing = 10" by (simp add: sample_listing_def)
  from grant_comp_effect [OF sample_cmd_pre(3) sample_cmd_pre(2) _ g] show ?thesis using g by (auto simp: st lp)
qed

text \<open>An override by command never lands on \<^verbatim>\<open>comped\<close> (a comp is granted, with its own expiry and reason); when it is
  applied the stored status is the one asked for.\<close>
theorem override_lands_not_comped:
  assumes "\<not> in_atomic db" and "log_ok db" and "db_ok db"
    and "override_entitlement tn l oper to reason key period_end trial now db = (Inr out, db')"
  shows "\<exists>e. find_ent (tn_pk tn) (ls_pk l) db' = Some e \<and> status_value (ent_status e) = to \<and> ent_status e \<noteq> S_COMPED"
proof -
  obtain row db1 where lr: "log_received ''entitlement.override'' (Some (tn_pk tn)) None
      (staff_actor oper (active_membership (tn_pk tn) oper db)) [] []
      (Some (JObj ((''listing_id'', JStr (ls_public_id l)) # [(''to_status'', JStr to), (''tier'', JStr key)]))) db = (row, db1)"
    by fastforce
  note s = log_received_simps [OF lr]
  let ?f = "override_apply tn l oper to reason key period_end trial now"
  obtain db2 where f: "?f (staff_actor oper (active_membership (tn_pk tn) oper db)) db1 = Inr (out, db2)"
    and db': "db' = log_conclude row ''applied'' [] None None db2"
    by (rule run_command_cases [OF assms(1,2) lr, of ?f]) (use assms(4) in \<open>auto simp: override_entitlement_def\<close>)
  from f obtain why t where nc: "to \<noteq> status_value S_COMPED"
    and a: "apply_trigger tn (ls_pk l) T_OVERRIDE now (staff_actor oper (active_membership (tn_pk tn) oper db)) []
      (no_params\<lparr>p_tier := t, p_operator := Some oper, p_reason := Some why, p_to_status := Some to,
                 p_period_end := period_end, p_trial_ends_at := trial\<rparr>) db1 = Inr (out, db2)"
    by (auto simp: override_apply_def bind_result_eq_Inr escape_Inr split: if_splits sum.splits)
  have "db_ok db1" using assms(3) by (auto simp: s(8) db_ok_def)
  from apply_trigger_ent [OF this a] obtain ent r e fs fs' h u
    where m: "mutate_override ent fs now (no_params\<lparr>p_tier := t, p_operator := Some oper, p_reason := Some why,
        p_to_status := Some to, p_period_end := period_end, p_trial_ends_at := trial\<rparr>) = Inr (e, fs')"
      and fe: "find_ent (tn_pk tn) (ls_pk l) db2 = Some (e\<lparr>ent_updated_at := u, hidden_by_expiry := h\<rparr>)" by auto
  from mutate_override_row(1) [OF m] have "status_value (ent_status e) = to" by simp
  moreover have "find_ent (tn_pk tn) (ls_pk l) db' = Some (e\<lparr>ent_updated_at := u, hidden_by_expiry := h\<rparr>)"
    using fe by (simp add: db' find_ent_def log_conclude_def)
  ultimately show ?thesis using nc by auto
qed

lemma sample_override_cmd:
  "\<exists>out db'. override_entitlement sample_tenant sample_listing sample_operator ''expired'' ''fraud'' ''gold'' None None sample_now
     (sample_db [sample_ent S_GRACE]) = (Inr out, db')"
  unfolding override_entitlement_def
proof (rule run_command_applies [OF sample_cmd_pre(3) sample_cmd_pre(2) sample_role sample_cmd_pre(1)])
  fix actor and d :: billing_db
  assume "cmd_pre sample_tenant sample_listing d" "tiers d = tiers (sample_db [sample_ent S_GRACE])"
  moreover from this sample_cmd_tier have "cmd_tier sample_tenant ''gold'' d = Inr sample_tier" by (simp add: cmd_tier_def)
  moreover have "\<exists>ef. mutate T_OVERRIDE r ent fs sample_now (no_params\<lparr>p_tier := Some sample_tier, p_operator := Some sample_operator,
      p_reason := Some why, p_to_status := Some ''expired'', p_period_end := None, p_trial_ends_at := None\<rparr>) = Inr ef" for r ent fs why
    by (simp add: mutate_override_def need_def status_of_def ANY_STATUS_def Let_def)
  moreover have "strip ''fraud'' = ''fraud''" by (simp add: strip_def is_space_def Let_def)
  ultimately show "\<exists>out d'. override_apply sample_tenant sample_listing sample_operator ''expired'' ''fraud'' ''gold'' None None
      sample_now actor d = Inr (out, d')"
    by (simp add: override_apply_def cmd_reason_def Let_def escape_Inr operator_trigger_applies)
qed

theorem override_lands_not_comped_witness:
  "\<exists>out db' e. override_entitlement sample_tenant sample_listing sample_operator ''expired'' ''fraud'' ''gold'' None None sample_now
     (sample_db [sample_ent S_GRACE]) = (Inr out, db') \<and> find_ent (tn_pk sample_tenant) (ls_pk sample_listing) db' = Some e
     \<and> status_value (ent_status e) = ''expired''"
proof -
  from sample_override_cmd obtain out db' where o: "override_entitlement sample_tenant sample_listing sample_operator ''expired'' ''fraud'' ''gold''
     None None sample_now (sample_db [sample_ent S_GRACE]) = (Inr out, db')" by blast
  from override_lands_not_comped [OF sample_cmd_pre(3) sample_cmd_pre(2) _ o] o show ?thesis by auto
qed

end
