(* ===== verification/Reports.thy ===== *)
theory Reports
  imports Billing_Commands
begin

section \<open>Payment reports\<close>

text \<open>
  \<^verbatim>\<open>billing/reports.py\<close>: \<^verbatim>\<open>entitlement.reportPayment\<close>. A payment adapter reports what happened; core resolves the listing
  and the checkout attempt (\<open>resolve\<close>), maps the report to a trigger (\<open>trigger_of_report\<close>), applies it in one transaction
  together with the receipt (\<open>apply_report\<close>), and answers applied, replayed or ignored (\<open>report_payment\<close>). The report is
  data the adapter built; nothing is assumed of it.
\<close>

record payment_report =
  pr_kind :: string
  pr_external_event_id :: string
  pr_checkout_attempt_id :: string
  pr_listing_id :: string
  pr_tier_key :: string
  pr_period_end :: "instant option"
  pr_trial_ends_at :: "instant option"
  pr_payment_ref :: dict
  pr_amount_minor :: "int option"
  pr_currency :: string
  pr_invoice_ref :: string
  pr_failure_code :: string
  pr_attempt :: "int option"
  pr_next_retry_at :: "instant option"
  pr_at_period_end :: bool
  pr_canceled_by :: string
  pr_reason :: string

definition REPORT_KINDS :: "string list" where
  "REPORT_KINDS = [''checkout_completed'', ''payment_succeeded'', ''payment_failed'', ''refunded'',
     ''subscription_changed'', ''subscription_canceled'']"

definition COMMAND :: string where
  "COMMAND = ''entitlement.reportPayment''"

text \<open>\<open>ReportRefused\<close> carries the attempt that is finished although the report is ignored. \<open>ReportIntegrity\<close> is the
  \<^verbatim>\<open>IntegrityError\<close> of the receipt, or of the entitlement row.\<close>

datatype report_error =
    ReportRefused string "nat option"
  | ReportIntegrity
  | ReportEscaped ent_error

datatype report_result = Applied | Replayed | Ignored string

definition summary :: "payment_report \<Rightarrow> json" where
  "summary rep = JObj [(''kind'', JStr (pr_kind rep)), (''listing_id'', JStr (pr_listing_id rep)),
     (''checkout_attempt_id'', JStr (pr_checkout_attempt_id rep)), (''tier'', JStr (pr_tier_key rep))]"

subsection \<open>Resolution\<close>

text \<open>An attempt with its listing and its tier, as \<^verbatim>\<open>select_related\<close> joins them.\<close>

type_synonym joined_attempt = "checkout_attempt \<times> listing \<times> tier"

definition find_attempt :: "nat \<Rightarrow> string \<Rightarrow> 'z billing_db_scheme \<Rightarrow> joined_attempt option" where
  "find_attempt tenant public_id db =
     (case find (\<lambda>a. ca_tenant a = tenant \<and> ca_public_id a = public_id) (checkouts db) of
        None \<Rightarrow> None
      | Some a \<Rightarrow> (case (find_by ls_pk (ca_listing a) (listings db), tier_by_pk db (ca_tier a)) of
            (Some l, Some t) \<Rightarrow> Some (a, l, t)
          | _ \<Rightarrow> None))"

definition listing_by_public_id :: "nat \<Rightarrow> string \<Rightarrow> 'z directory_db_scheme \<Rightarrow> listing option" where
  "listing_by_public_id tenant pid db = find (\<lambda>l. ls_tenant l = tenant \<and> ls_public_id l = pid) (listings db)"

definition refused :: "string \<Rightarrow> report_error + 'a" where
  "refused reason = Inl (ReportRefused reason None)"

definition resolve :: "tenant \<Rightarrow> payment_report \<Rightarrow> 'z billing_db_scheme \<Rightarrow> report_error + listing \<times> joined_attempt option" where
  "resolve tn rep db =
     bind_result
       (if pr_checkout_attempt_id rep = [] then Inr None
        else (case find_attempt (tn_pk tn) (pr_checkout_attempt_id rep) db of
                None \<Rightarrow> refused ''unknown_checkout'' | Some a \<Rightarrow> Inr (Some a)))
       (\<lambda>attempt.
     bind_result
       (if pr_listing_id rep = [] then Inr None
        else (case listing_by_public_id (tn_pk tn) (pr_listing_id rep) db of
                None \<Rightarrow> refused ''unknown_listing'' | Some l \<Rightarrow> Inr (Some l)))
       (\<lambda>listing.
         case attempt of
           Some (a, al, t) \<Rightarrow>
             if (case listing of None \<Rightarrow> False | Some l \<Rightarrow> ls_pk l \<noteq> ca_listing a) then refused ''checkout_mismatch''
             else Inr (al, Some (a, al, t))
         | None \<Rightarrow> (case listing of None \<Rightarrow> refused ''unknown_listing'' | Some l \<Rightarrow> Inr (l, None))))"

definition report_tier :: "nat \<Rightarrow> string \<Rightarrow> 'z billing_db_scheme \<Rightarrow> report_error + tier option" where
  "report_tier tenant key db =
     (if key = [] then Inr None
      else (case find (\<lambda>t. tier_tenant t = tenant \<and> tier_key t = key) (tiers db) of
              None \<Rightarrow> refused ''unknown_tier'' | Some t \<Rightarrow> Inr (Some t)))"

subsection \<open>From the report to the trigger\<close>

type_synonym plan = "trigger \<times> params \<times> string \<times> dict"

definition str_of :: "json option \<Rightarrow> string" where
  "str_of v = (case v of Some (JStr s) \<Rightarrow> s | _ \<Rightarrow> [])"

definition report_currency :: "payment_report \<Rightarrow> joined_attempt option \<Rightarrow> string" where
  "report_currency rep attempt =
     (if pr_currency rep \<noteq> [] then pr_currency rep
      else (case attempt of None \<Rightarrow> [] | Some (a, l, t) \<Rightarrow> currency t))"

definition plan_checkout :: "joined_attempt option \<Rightarrow> payment_report \<Rightarrow> report_error + plan" where
  "plan_checkout attempt rep =
     (case attempt of
        None \<Rightarrow> refused ''unknown_checkout''
      | Some (a, l, t) \<Rightarrow>
          if ca_status a \<noteq> A_STARTED then refused ''checkout_already_completed''
          else
            let data = (\<lambda>ends. [(''subscription'', JStr (str_of (dict_get (pr_payment_ref rep) ''external_id''))),
                  (''plan'', JStr (tier_key t)), (''current_period_end'', JStr (isoformat ends))])
            in (case pr_trial_ends_at rep of
                  Some trial \<Rightarrow>
                    Inr (T_START_TRIAL,
                      no_params\<lparr>p_tier := Some t, p_trial_ends_at := Some trial, p_payment_ref := Some (pr_payment_ref rep)\<rparr>,
                      BILLING_SUBSCRIPTION_STARTED, data (case pr_period_end rep of None \<Rightarrow> trial | Some e \<Rightarrow> e))
                | None \<Rightarrow>
                    (case pr_period_end rep of
                       None \<Rightarrow> refused ''bad_report''
                     | Some e \<Rightarrow>
                         Inr (T_START,
                           no_params\<lparr>p_tier := Some t, p_period_end := Some e, p_payment_ref := Some (pr_payment_ref rep)\<rparr>,
                           BILLING_SUBSCRIPTION_STARTED, data e))))"

definition plan_paid :: "listing \<Rightarrow> status \<Rightarrow> joined_attempt option \<Rightarrow> payment_report \<Rightarrow> 'z billing_db_scheme \<Rightarrow> report_error + plan" where
  "plan_paid l st attempt rep db =
     (case pr_period_end rep of
        None \<Rightarrow> refused ''bad_report''
      | Some e \<Rightarrow>
          let data = [(''amount'', jopt JInt (pr_amount_minor rep)), (''currency'', JStr (report_currency rep attempt)),
                      (''invoice_ref'', JStr (pr_invoice_ref rep))]
          in if st \<in> {S_NONE, S_EXPIRED} then
               (case attempt of
                  None \<Rightarrow> refused ''no_entitlement''
                | Some (a, al, t) \<Rightarrow>
                    if ca_status a \<noteq> A_STARTED then refused ''no_entitlement''
                    else Inr (T_START, no_params\<lparr>p_tier := Some t, p_period_end := Some e, p_payment_ref := Some (pr_payment_ref rep)\<rparr>,
                           BILLING_PAYMENT_SUCCEEDED, data))
             else
               bind_result (report_tier (ls_tenant l) (pr_tier_key rep) db) (\<lambda>t.
                 Inr (T_PAYMENT_SUCCEEDED, no_params\<lparr>p_period_end := Some e, p_payment_ref := Some (pr_payment_ref rep), p_tier := t\<rparr>,
                   BILLING_PAYMENT_SUCCEEDED, data)))"

definition plan_changed :: "listing \<Rightarrow> entitlement option \<Rightarrow> payment_report \<Rightarrow> 'z billing_db_scheme \<Rightarrow> report_error + plan" where
  "plan_changed l ent rep db =
     (case pr_period_end rep of
        None \<Rightarrow> refused ''bad_report''
      | Some e \<Rightarrow>
          if pr_tier_key rep = [] then refused ''bad_report''
          else bind_result (report_tier (ls_tenant l) (pr_tier_key rep) db) (\<lambda>t.
            Inr (T_PAYMENT_SUCCEEDED, no_params\<lparr>p_tier := t, p_period_end := Some e, p_payment_ref := Some (pr_payment_ref rep)\<rparr>,
              BILLING_SUBSCRIPTION_CHANGED,
              [(''from_plan'', jstr (case ent of None \<Rightarrow> None | Some x \<Rightarrow> ent_tier_key db x)),
               (''to_plan'', jstr (key_of t)), (''proration'', JNull)])))"

definition plan_canceled :: "payment_report \<Rightarrow> plan" where
  "plan_canceled rep =
     (let data = [(''at_period_end'', JBool (pr_at_period_end rep)), (''reason'', JStr (pr_reason rep)),
                  (''canceled_by'', JStr (if pr_canceled_by rep = [] then ''provider'' else pr_canceled_by rep))]
      in if pr_at_period_end rep then
           (T_CANCEL, no_params\<lparr>p_canceled_by := (if pr_canceled_by rep = [] then ''owner'' else pr_canceled_by rep),
              p_reason := Some (pr_reason rep)\<rparr>, BILLING_SUBSCRIPTION_CANCELED, data)
         else (T_SUBSCRIPTION_ENDED, no_params, BILLING_SUBSCRIPTION_CANCELED, data))"

definition trigger_of_report :: "listing \<Rightarrow> entitlement option \<Rightarrow> joined_attempt option \<Rightarrow> payment_report \<Rightarrow> 'z billing_db_scheme
    \<Rightarrow> report_error + plan" where
  "trigger_of_report l ent attempt rep db =
     (let kind = pr_kind rep; st = (case ent of None \<Rightarrow> S_NONE | Some e \<Rightarrow> ent_status e) in
      if kind = ''checkout_completed'' then plan_checkout attempt rep
      else if kind = ''payment_succeeded'' then plan_paid l st attempt rep db
      else if kind = ''payment_failed'' then
        Inr (T_PAYMENT_FAILED, no_params\<lparr>p_failure_code := pr_failure_code rep, p_attempt := pr_attempt rep\<rparr>, BILLING_PAYMENT_FAILED,
          [(''attempt'', jopt JInt (pr_attempt rep)), (''failure_code'', JStr (pr_failure_code rep)),
           (''next_retry_at'', jtime (pr_next_retry_at rep))])
      else if kind = ''refunded'' then
        Inr (T_REFUND, no_params, BILLING_REFUND_ISSUED,
          [(''amount'', jopt JInt (pr_amount_minor rep)), (''currency'', JStr (report_currency rep attempt)),
           (''reason'', JStr (pr_reason rep)), (''issued_by'', JStr ''provider'')])
      else if kind = ''subscription_changed'' then plan_changed l ent rep db
      else if kind = ''subscription_canceled'' then Inr (plan_canceled rep)
      else refused ''unknown_kind'')"

subsection \<open>Applying it\<close>

definition receipt_key :: "nat \<Rightarrow> string \<Rightarrow> string \<Rightarrow> receipt \<Rightarrow> bool" where
  "receipt_key tenant adapter eid r \<longleftrightarrow>
     rcp_tenant r = tenant \<and> rcp_adapter_id r = adapter \<and> rcp_external_event_id r = eid"

definition insert_receipt :: "nat \<Rightarrow> string \<Rightarrow> payment_report \<Rightarrow> receipt_outcome \<Rightarrow> string \<Rightarrow> 'z billing_db_scheme
    \<Rightarrow> report_error + receipt \<times> 'z billing_db_scheme" where
  "insert_receipt tenant adapter rep outc reason db =
     (let eid = take 200 (pr_external_event_id rep) in
      if find (receipt_key tenant adapter eid) (receipts db) \<noteq> None then Inl ReportIntegrity
      else let r = \<lparr>rcp_pk = Suc (seq db), rcp_tenant = tenant, rcp_adapter_id = adapter, rcp_external_event_id = eid,
                    rcp_kind = take 40 (pr_kind rep), rcp_listing = None, rcp_outcome = outc, rcp_reason = take 60 reason,
                    rcp_received_at = wall db\<rparr>
           in Inr (r, db\<lparr>receipts := receipts db @ [r], seq := Suc (seq db)\<rparr>))"

definition complete_attempt :: "checkout_attempt \<Rightarrow> string \<Rightarrow> instant \<Rightarrow> 'z billing_db_scheme \<Rightarrow> 'z billing_db_scheme" where
  "complete_attempt a ref now db =
     db\<lparr>checkouts := update_where (\<lambda>x. ca_pk x = ca_pk a)
         (\<lambda>x. x\<lparr>ca_status := A_COMPLETED, completed_at := Some now,
               external_ref := (if external_ref a \<noteq> [] then external_ref a else take 200 ref)\<rparr>) (checkouts db)\<rparr>"

definition set_receipt_listing :: "receipt \<Rightarrow> nat \<Rightarrow> 'z billing_db_scheme \<Rightarrow> 'z billing_db_scheme" where
  "set_receipt_listing r lpk db =
     db\<lparr>receipts := update_where (\<lambda>x. rcp_pk x = rcp_pk r) (\<lambda>x. x\<lparr>rcp_listing := Some lpk\<rparr>) (receipts db)\<rparr>"

text \<open>What \<^verbatim>\<open>_apply\<close> makes of an exception of \<^verbatim>\<open>apply_trigger\<close>.\<close>

definition report_failure :: "payment_report \<Rightarrow> joined_attempt option \<Rightarrow> ent_error \<Rightarrow> report_error" where
  "report_failure rep attempt e = (case e of
     MachineError (InvalidTransition st tr) \<Rightarrow>
       ReportRefused ''invalid_transition''
         (if pr_kind rep \<in> {''checkout_completed'', ''payment_succeeded''} then map_option (\<lambda>(a, l, t). ca_pk a) attempt else None)
   | EntitlementError m \<Rightarrow> ReportRefused ''bad_report'' None
   | EntIntegrityError \<Rightarrow> ReportIntegrity
   | _ \<Rightarrow> ReportEscaped e)"

definition finish_report :: "tenant \<Rightarrow> string \<Rightarrow> payment_report \<Rightarrow> dict \<Rightarrow> instant \<Rightarrow> receipt \<Rightarrow> listing \<Rightarrow> joined_attempt option \<Rightarrow> plan
    \<Rightarrow> 'z billing_db_scheme \<Rightarrow> report_error + string \<times> 'z billing_db_scheme" where
  "finish_report tn adapter rep actor now rcp l attempt plan db =
     (case plan of (tr, p, name, data) \<Rightarrow>
        let db1 = (case attempt of
              Some (a, al, t) \<Rightarrow>
                if tr \<in> {T_START, T_START_TRIAL}
                then complete_attempt a (str_of (dict_get (pr_payment_ref rep) ''external_id'')) now db else db
            | None \<Rightarrow> db);
            db2 = set_receipt_listing rcp (ls_pk l) db1
        in (case emit name (ls_public_id l) (tn_pk tn) (dict_merge [(''listing_id'', JStr (ls_public_id l))] data) actor adapter [] db2 of
              Inl e \<Rightarrow> Inl (ReportEscaped (EntAuditError e))
            | Inr (ev, db3) \<Rightarrow> Inr (event_id ev, db3)))"

definition apply_report :: "tenant \<Rightarrow> string \<Rightarrow> payment_report \<Rightarrow> dict \<Rightarrow> instant \<Rightarrow> 'z billing_db_scheme
    \<Rightarrow> report_error + string \<times> 'z billing_db_scheme" where
  "apply_report tn adapter rep actor now = atomic (\<lambda>db.
     if pr_kind rep \<notin> set REPORT_KINDS then refused ''unknown_kind''
     else if pr_external_event_id rep = [] then refused ''bad_report''
     else
       bind_result (insert_receipt (tn_pk tn) adapter rep R_APPLIED [] db) (\<lambda>(rcp, db1).
       bind_result (resolve tn rep db1) (\<lambda>(l, attempt).
       bind_result (trigger_of_report l (find_ent (tn_pk tn) (ls_pk l) db1) attempt rep db1) (\<lambda>plan.
         case apply_trigger tn (ls_pk l) (fst plan) now actor adapter (fst (snd plan)) db1 of
           Inl e \<Rightarrow> Inl (report_failure rep attempt e)
         | Inr (out, db2) \<Rightarrow> finish_report tn adapter rep actor now rcp l attempt plan db2))))"

definition ignore_report :: "tenant \<Rightarrow> string \<Rightarrow> payment_report \<Rightarrow> string \<Rightarrow> 'z billing_db_scheme \<Rightarrow> 'z billing_db_scheme" where
  "ignore_report tn adapter rep reason db =
     (case insert_receipt (tn_pk tn) adapter rep R_IGNORED reason db of Inl e \<Rightarrow> db | Inr (r, db') \<Rightarrow> db')"

definition close_attempt :: "nat \<Rightarrow> instant \<Rightarrow> 'z billing_db_scheme \<Rightarrow> 'z billing_db_scheme" where
  "close_attempt pk now db =
     db\<lparr>checkouts := update_where (\<lambda>x. ca_pk x = pk \<and> ca_status x = A_STARTED)
         (\<lambda>x. x\<lparr>ca_status := A_COMPLETED, completed_at := Some now\<rparr>) (checkouts db)\<rparr>"

definition report_key :: "string \<Rightarrow> payment_report \<Rightarrow> string" where
  "report_key adapter rep = adapter @ '':'' @ pr_external_event_id rep"

definition prior_applied :: "tenant \<Rightarrow> string \<Rightarrow> 'z core_db_scheme \<Rightarrow> command_row option" where
  "prior_applied tn key db =
     find (\<lambda>r. cmd_command r = COMMAND \<and> cmd_tenant r = Some (tn_pk tn) \<and> cmd_idempotency_key r = Some key
            \<and> cmd_outcome r = Some ''applied'') (commands db)"

definition report_payment :: "tenant \<Rightarrow> string \<Rightarrow> payment_report \<Rightarrow> instant \<Rightarrow> 'z billing_db_scheme
    \<Rightarrow> (cmd_error + report_result) \<times> 'z billing_db_scheme" where
  "report_payment tn adapter rep now db =
     (case require_autocommit db of
        Inl e \<Rightarrow> (Inl (CmdAuditError e), db)
      | Inr u \<Rightarrow>
          let key = report_key adapter rep;
              actor = [(''type'', JStr ''adapter''), (''id'', JStr adapter)]
          in (case prior_applied tn key db of
                Some prior \<Rightarrow> (Inr Replayed, log_replay COMMAND (Some (tn_pk tn)) (Some key) actor [] prior db)
              | None \<Rightarrow>
                  if find (receipt_key (tn_pk tn) adapter (pr_external_event_id rep)) (receipts db) \<noteq> None then (Inr Replayed, db)
                  else
                    let (row, db1) = log_received COMMAND (Some (tn_pk tn)) (Some key) actor [] adapter (Some (summary rep)) db
                    in (case apply_report tn adapter rep actor now db1 of
                          Inr (eid, db2) \<Rightarrow> (Inr Applied, log_conclude row ''applied'' eid None None db2)
                        | Inl ReportIntegrity \<Rightarrow>
                            (Inr Replayed, log_conclude row ''applied'' [] (Some (JObj [(''idempotent_replay'', JBool True)])) None db1)
                        | Inl (ReportRefused reason attempt_pk) \<Rightarrow>
                            let db2 = log_conclude row ''rejected'' [] (Some (JObj [(''reason'', JStr reason)])) None db1;
                                db3 = ignore_report tn adapter rep reason db2
                            in (Inr (Ignored reason), (case attempt_pk of None \<Rightarrow> db3 | Some pk \<Rightarrow> close_attempt pk now db3))
                        | Inl (ReportEscaped e) \<Rightarrow> (Inl (Escaped e), db1))))"

subsection \<open>A second delivery of an event\<close>

text \<open>What a replay may touch: the command log and its sequence.\<close>

definition only_logged :: "'z billing_db_scheme \<Rightarrow> 'z billing_db_scheme \<Rightarrow> bool" where
  "only_logged db db' \<longleftrightarrow> (\<exists>cs n. db' = db\<lparr>commands := cs, seq := n\<rparr>)"

lemma only_logged_refl [simp]: "only_logged db db"
  unfolding only_logged_def by (rule exI [of _ "commands db"], rule exI [of _ "seq db"]) simp

lemma report_replays:
  assumes "\<not> in_atomic db"
    and "prior_applied tn (report_key adapter rep) db \<noteq> None
       \<or> find (receipt_key (tn_pk tn) adapter (pr_external_event_id rep)) (receipts db) \<noteq> None"
  shows "\<exists>db'. report_payment tn adapter rep now db = (Inr Replayed, db') \<and> only_logged db db'"
proof (cases "prior_applied tn (report_key adapter rep) db")
  case None
  with assms show ?thesis
    by (auto simp: report_payment_def require_autocommit_def)
next
  case (Some prior)
  with assms(1) show ?thesis
    by (auto simp: report_payment_def require_autocommit_def only_logged_def log_replay_def Let_def)
qed

lemma prior_applied_append: "prior_applied tn key db \<noteq> None \<Longrightarrow> commands db' = commands db @ rows \<Longrightarrow> prior_applied tn key db' \<noteq> None"
  by (auto simp: prior_applied_def find_None_iff)

lemma report_key_nonempty [simp]: "report_key adapter rep \<noteq> []"
  by (simp add: report_key_def)

lemma log_received_key:
  "log_received cmd tn (Some key) actor trace orig payload db = (row, db1) \<Longrightarrow> key \<noteq> [] \<Longrightarrow> cmd_idempotency_key row = Some key"
  by (auto simp: log_received_def Let_def or_none_def)

lemma prior_applied_concluded:
  assumes "log_received COMMAND (Some (tn_pk tn)) (Some key) actor [] orig payload db = (row, db1)" "key \<noteq> []"
    "commands db' = commands db @ [concluded_row row ''applied'' eid prob None t]"
  shows "prior_applied tn key db' \<noteq> None"
  unfolding prior_applied_def
  by (rule find_not_None [of "concluded_row row ''applied'' eid prob None t"])
    (use log_received_key [OF assms(1,2)] log_received_simps(4,7) [OF assms(1)] assms(3) in \<open>simp_all add: concluded_row_def\<close>)

lemma insert_receipt_effect:
  assumes "insert_receipt tenant adapter rep outc reason db = Inr (r, db')"
  shows "db' = db\<lparr>receipts := receipts db @ [r], seq := Suc (seq db)\<rparr>"
    and "receipt_key tenant adapter (take 200 (pr_external_event_id rep)) r"
    and "find (receipt_key tenant adapter (take 200 (pr_external_event_id rep))) (receipts db) = None"
  using assms by (auto simp: insert_receipt_def Let_def receipt_key_def split: if_splits)

lemma ignore_report_receipt:
  "find (receipt_key (tn_pk tn) adapter (take 200 (pr_external_event_id rep))) (receipts (ignore_report tn adapter rep reason db)) \<noteq> None"
proof (cases "insert_receipt (tn_pk tn) adapter rep R_IGNORED reason db")
  case (Inl e)
  then show ?thesis by (auto simp: ignore_report_def insert_receipt_def Let_def split: if_splits)
next
  case (Inr x)
  then obtain r db' where x: "insert_receipt (tn_pk tn) adapter rep R_IGNORED reason db = Inr (r, db')" by (cases x) auto
  from insert_receipt_effect [OF x] x show ?thesis by (auto simp: ignore_report_def find_None_iff)
qed

lemma close_attempt_receipts [simp]: "receipts (close_attempt pk now db) = receipts db" "in_atomic (close_attempt pk now db) = in_atomic db"
  by (simp_all add: close_attempt_def)

lemma ignore_report_atomic [simp]: "in_atomic (ignore_report tn adapter rep reason db) = in_atomic db"
  by (auto simp: ignore_report_def insert_receipt_def Let_def split: sum.split if_splits)

lemma finish_report_keeps:
  "finish_report tn adapter rep actor now rcp l attempt plan db = Inr (eid, db') \<Longrightarrow>
   commands db' = commands db \<and> in_atomic db' = in_atomic db"
  by (auto simp: finish_report_def Let_def emit_Inr complete_attempt_def set_receipt_listing_def
      split: prod.splits sum.splits option.splits if_splits)

lemma apply_report_E:
  assumes "apply_report tn adapter rep actor now db = Inr (eid, db')"
  obtains rcp db1 l attempt tr p name data out db2 db3 where
    "insert_receipt (tn_pk tn) adapter rep R_APPLIED [] (db\<lparr>in_atomic := True\<rparr>) = Inr (rcp, db1)"
    "resolve tn rep db1 = Inr (l, attempt)"
    "trigger_of_report l (find_ent (tn_pk tn) (ls_pk l) db1) attempt rep db1 = Inr (tr, p, name, data)"
    "apply_trigger tn (ls_pk l) tr now actor adapter p db1 = Inr (out, db2)"
    "finish_report tn adapter rep actor now rcp l attempt (tr, p, name, data) db2 = Inr (eid, db3)"
    "db' = db3\<lparr>in_atomic := in_atomic db\<rparr>"
proof -
  from assms obtain db3 rcp db1 l attempt plan where
    i: "insert_receipt (tn_pk tn) adapter rep R_APPLIED [] (db\<lparr>in_atomic := True\<rparr>) = Inr (rcp, db1)"
    and r: "resolve tn rep db1 = Inr (l, attempt)"
    and t: "trigger_of_report l (find_ent (tn_pk tn) (ls_pk l) db1) attempt rep db1 = Inr plan"
    and a: "(case apply_trigger tn (ls_pk l) (fst plan) now actor adapter (fst (snd plan)) db1 of
           Inl e \<Rightarrow> Inl (report_failure rep attempt e)
         | Inr (out, db2) \<Rightarrow> finish_report tn adapter rep actor now rcp l attempt plan db2) = Inr (eid, db3)"
    and d: "db' = db3\<lparr>in_atomic := in_atomic db\<rparr>"
    unfolding apply_report_def atomic_Inr by (auto simp: bind_result_eq_Inr refused_def split: if_splits)
  obtain tr p name data where p: "plan = (tr, p, name, data)" by (cases plan)
  from a obtain out db2 where "apply_trigger tn (ls_pk l) tr now actor adapter p db1 = Inr (out, db2)"
    "finish_report tn adapter rep actor now rcp l attempt (tr, p, name, data) db2 = Inr (eid, db3)"
    by (auto simp: p split: sum.splits)
  with i r t d show ?thesis by (intro that) (simp_all add: p)
qed

lemma apply_report_keeps:
  assumes "db_ok db" "apply_report tn adapter rep actor now db = Inr (eid, db')"
  shows "commands db' = commands db \<and> in_atomic db' = in_atomic db"
  using assms(2)
proof (rule apply_report_E)
  fix rcp db1 l attempt tr p name data out db2 db3
  assume i: "insert_receipt (tn_pk tn) adapter rep R_APPLIED [] (db\<lparr>in_atomic := True\<rparr>) = Inr (rcp, db1)"
    and a: "apply_trigger tn (ls_pk l) tr now actor adapter p db1 = Inr (out, db2)"
    and f: "finish_report tn adapter rep actor now rcp l attempt (tr, p, name, data) db2 = Inr (eid, db3)"
    and d: "db' = db3\<lparr>in_atomic := in_atomic db\<rparr>"
  note e = insert_receipt_effect(1) [OF i]
  have "db_ok db1" using assms(1) by (auto simp: e db_ok_def)
  from apply_trigger_keeps [OF this a] finish_report_keeps [OF f] show ?thesis by (simp add: d e)
qed

lemma report_payment_marks:
  assumes "\<not> in_atomic db" and "log_ok db" and "db_ok db" and "length (pr_external_event_id rep) \<le> 200"
    and "report_payment tn adapter rep now db = (Inr res, db')"
  shows "\<not> in_atomic db' \<and> (prior_applied tn (report_key adapter rep) db' \<noteq> None
      \<or> find (receipt_key (tn_pk tn) adapter (pr_external_event_id rep)) (receipts db') \<noteq> None)" (is "_ \<and> (prior_applied tn ?key db' \<noteq> None \<or> _)")
proof -
  have eid: "take 200 (pr_external_event_id rep) = pr_external_event_id rep" using assms(4) by simp
  let ?actor = "[(''type'', JStr ''adapter''), (''id'', JStr adapter)]"
  obtain row db1 where lr: "log_received COMMAND (Some (tn_pk tn)) (Some ?key) ?actor [] adapter (Some (summary rep)) db = (row, db1)"
    by fastforce
  note s = log_received_simps [OF lr]
  show ?thesis
  proof (cases "prior_applied tn ?key db \<noteq> None \<or> find (receipt_key (tn_pk tn) adapter (pr_external_event_id rep)) (receipts db) \<noteq> None")
    case True
    then show ?thesis using assms(1,5)
      by (auto simp: report_payment_def require_autocommit_def Let_def log_replay_def split: option.splits
          intro: prior_applied_append [of tn ?key db _ "[_]", simplified])
  next
    case False
    then have run: "report_payment tn adapter rep now db = (case apply_report tn adapter rep ?actor now db1 of
          Inr (eid, db2) \<Rightarrow> (Inr Applied, log_conclude row ''applied'' eid None None db2)
        | Inl ReportIntegrity \<Rightarrow>
            (Inr Replayed, log_conclude row ''applied'' [] (Some (JObj [(''idempotent_replay'', JBool True)])) None db1)
        | Inl (ReportRefused reason attempt_pk) \<Rightarrow>
            let db2 = log_conclude row ''rejected'' [] (Some (JObj [(''reason'', JStr reason)])) None db1;
                db3 = ignore_report tn adapter rep reason db2
            in (Inr (Ignored reason), (case attempt_pk of None \<Rightarrow> db3 | Some pk \<Rightarrow> close_attempt pk now db3))
        | Inl (ReportEscaped e) \<Rightarrow> (Inl (Escaped e), db1))"
      using assms(1) lr by (simp add: report_payment_def require_autocommit_def Let_def)
    have na: "\<not> in_atomic db1" using assms(1) by (simp add: s(8))
    show ?thesis
    proof (cases "apply_report tn adapter rep ?actor now db1")
      case (Inr x)
      obtain e db2 where x: "apply_report tn adapter rep ?actor now db1 = Inr (e, db2)" using Inr by (cases x) auto
      have "db_ok db1" using assms(3) by (auto simp: s(8) db_ok_def)
      note k = apply_report_keeps [OF this x]
      have d: "db' = log_conclude row ''applied'' e None None db2" using run assms(5) x by simp
      have "prior_applied tn ?key db' \<noteq> None"
        unfolding d by (rule prior_applied_concluded [OF lr _ log_conclude_own [OF assms(2) lr]]) (use k in simp_all)
      with na k show ?thesis by (simp add: d)
    next
      case (Inl e)
      show ?thesis
      proof (cases e)
        case (ReportRefused reason pk)
        with run assms(5) Inl na ignore_report_receipt [of tn adapter rep reason] show ?thesis
          by (auto simp: Let_def eid split: option.splits)
      next
        case ReportIntegrity
        then have d: "db' = log_conclude row ''applied'' [] (Some (JObj [(''idempotent_replay'', JBool True)])) None db1"
          using run assms(5) Inl by simp
        have "prior_applied tn ?key db' \<noteq> None"
          unfolding d by (rule prior_applied_concluded [OF lr _ log_conclude_own [OF assms(2) lr]]) simp_all
        with na show ?thesis by (simp add: d)
      qed (use run assms(5) Inl in simp)
    qed
  qed
qed

text \<open>C9: A payment report is applied at most once: whatever the first delivery of a provider event came to (applied,
  ignored or already a replay), a second delivery of the same event id answers \<^verbatim>\<open>replayed\<close> and writes nothing but the
  command log. (Event ids of up to 200 characters, which is what the receipt stores.)\<close>
theorem report_payment_idempotent:
  assumes "\<not> in_atomic db" and "log_ok db" and "db_ok db" and "length (pr_external_event_id rep) \<le> 200"
    and "report_payment tn adapter rep now db = (Inr res, db')"
    and "pr_external_event_id rep' = pr_external_event_id rep"
  shows "\<exists>db''. report_payment tn adapter rep' now' db' = (Inr Replayed, db'') \<and> only_logged db' db''"
proof -
  have "report_key adapter rep' = report_key adapter rep" by (simp add: report_key_def assms(6))
  with report_payment_marks [OF assms(1-5)] show ?thesis by (intro report_replays) (simp_all add: assms(6))
qed

lemma report_payment_cases:
  assumes "report_payment tn adapter rep now db = (Inr res, db')" and "\<not> in_atomic db"
  obtains (same) "entitlements db' = entitlements db" "res \<noteq> Applied"
    | (applied) row db1 actor eid db2 where "res = Applied"
        "log_received COMMAND (Some (tn_pk tn)) (Some (report_key adapter rep)) actor [] adapter (Some (summary rep)) db = (row, db1)"
        "apply_report tn adapter rep actor now db1 = Inr (eid, db2)" "db' = log_conclude row ''applied'' eid None None db2"
proof -
  let ?actor = "[(''type'', JStr ''adapter''), (''id'', JStr adapter)]"
  obtain row db1 where lr: "log_received COMMAND (Some (tn_pk tn)) (Some (report_key adapter rep)) ?actor [] adapter (Some (summary rep)) db = (row, db1)"
    by fastforce
  have e1: "entitlements db1 = entitlements db" unfolding log_received_simps(8) [OF lr] by simp
  have c: "entitlements (log_conclude row outc eid prob np d) = entitlements d"
    "entitlements (close_attempt pk now d) = entitlements d"
    "entitlements (ignore_report tn adapter rep reason d) = entitlements d" for outc eid prob np d pk reason
    by (auto simp: log_conclude_def close_attempt_def ignore_report_def insert_receipt_def Let_def split: sum.split if_splits)
  show ?thesis
  proof (cases "prior_applied tn (report_key adapter rep) db \<noteq> None
      \<or> find (receipt_key (tn_pk tn) adapter (pr_external_event_id rep)) (receipts db) \<noteq> None")
    case True
    from report_replays [OF assms(2) this, of now] assms(1) show ?thesis by (intro same) (auto simp: only_logged_def)
  next
    case False
    show ?thesis
    proof (cases "apply_report tn adapter rep ?actor now db1")
      case (Inr x)
      with False assms lr show ?thesis
        by (cases x) (auto simp: report_payment_def require_autocommit_def intro: applied)
    next
      case (Inl e)
      with False assms lr show ?thesis
        by (intro same; cases e) (auto simp: report_payment_def require_autocommit_def Let_def c e1 split: option.splits)
    qed
  qed
qed

subsection \<open>Only an offered tier can be bought\<close>

lemma resolve_attempt:
  assumes "resolve tn rep db = Inr (l, attempt)"
  shows "attempt = Some (a, al, t) \<Longrightarrow> al = l \<and> a \<in> set (checkouts db) \<and> ca_tenant a = tn_pk tn
     \<and> ca_public_id a = pr_checkout_attempt_id rep \<and> ca_listing a = ls_pk l \<and> ca_tier a = tier_pk t \<and> t \<in> set (tiers db)"
  using assms
  by (auto simp: resolve_def bind_result_eq_Inr refused_def find_attempt_def tier_by_pk_def
      split: if_splits option.splits prod.splits dest!: find_SomeD find_by_SomeD)

lemma plan_starting:
  assumes "trigger_of_report l ent attempt rep db = Inr (tr, p, name, data)" "tr \<in> {T_START, T_START_TRIAL, T_GRANT, T_OVERRIDE}"
  shows "\<exists>a al t. attempt = Some (a, al, t) \<and> ca_status a = A_STARTED \<and> p_tier p = Some t"
  using assms
  by (auto simp: trigger_of_report_def Let_def plan_checkout_def plan_paid_def plan_changed_def plan_canceled_def refused_def
      bind_result_eq_Inr split: if_splits option.splits prod.splits)

lemma start_from_idle:
  "rule_for st tr = Inr r \<Longrightarrow> st \<in> {S_NONE, S_EXPIRED} \<Longrightarrow> tr \<in> {T_START, T_START_TRIAL, T_GRANT, T_OVERRIDE}"
  by (cases tr) (auto simp: machine_simps PAID_STATUSES_def)

lemma plan_not_operator:
  "trigger_of_report l ent attempt rep db = Inr (tr, p, name, data) \<Longrightarrow> tr \<notin> {T_GRANT, T_OVERRIDE, T_REVOKE} \<and> tr \<notin> set CLOCK_TRIGGERS"
  by (auto simp: trigger_of_report_def Let_def plan_checkout_def plan_paid_def plan_changed_def plan_canceled_def refused_def
      bind_result_eq_Inr CLOCK_TRIGGERS_def split: if_splits option.splits prod.splits)

lemma finish_report_entitlements:
  "finish_report tn adapter rep actor now rcp l attempt plan db = Inr (eid, db') \<Longrightarrow> entitlements db' = entitlements db"
  by (auto simp: finish_report_def Let_def emit_Inr complete_attempt_def set_receipt_listing_def
      split: prod.splits sum.splits option.splits if_splits)

lemma find_ent_other:
  assumes "filter (\<lambda>e. ent_listing e \<noteq> lpk) (entitlements db') = filter (\<lambda>e. ent_listing e \<noteq> lpk) (entitlements db)" "k \<noteq> lpk"
  shows "find_ent tn k db' = find_ent tn k db"
proof -
  have f: "find (\<lambda>e. ent_tenant e = tn \<and> ent_listing e = k) xs
      = find (\<lambda>e. ent_tenant e = tn \<and> ent_listing e = k) (filter (\<lambda>e. ent_listing e \<noteq> lpk) xs)" for xs
    using assms(2) by (induction xs) auto
  from f [of "entitlements db'"] f [of "entitlements db"] assms(1) show ?thesis by (simp only: find_ent_def)
qed

lemma apply_report_purchase:
  assumes ok: "db_ok db" and ap: "apply_report tn adapter rep actor now db = Inr (eid, db')"
    and idle: "case find_ent (tn_pk tn) lpk db of None \<Rightarrow> True | Some e \<Rightarrow> ent_status e \<in> {S_NONE, S_EXPIRED}"
    and e': "find_ent (tn_pk tn) lpk db' = Some e'" "ent_status e' \<notin> {S_NONE, S_EXPIRED}"
  shows "\<exists>a \<in> set (checkouts db). ca_tenant a = tn_pk tn \<and> ca_public_id a = pr_checkout_attempt_id rep
    \<and> ca_status a = A_STARTED \<and> ca_listing a = lpk \<and> ent_tier e' = ca_tier a"
  using ap
proof (rule apply_report_E)
  fix rcp db1 l attempt tr p name data out db2 db3
  assume i: "insert_receipt (tn_pk tn) adapter rep R_APPLIED [] (db\<lparr>in_atomic := True\<rparr>) = Inr (rcp, db1)"
    and rs: "resolve tn rep db1 = Inr (l, attempt)"
    and t: "trigger_of_report l (find_ent (tn_pk tn) (ls_pk l) db1) attempt rep db1 = Inr (tr, p, name, data)"
    and a: "apply_trigger tn (ls_pk l) tr now actor adapter p db1 = Inr (out, db2)"
    and f: "finish_report tn adapter rep actor now rcp l attempt (tr, p, name, data) db2 = Inr (eid, db3)"
    and d: "db' = db3\<lparr>in_atomic := in_atomic db\<rparr>"
  note i1 = insert_receipt_effect(1) [OF i]
  have ok1: "db_ok db1" using ok by (auto simp: i1 db_ok_def)
  have fe1: "find_ent (tn_pk tn) k db1 = find_ent (tn_pk tn) k db" for k by (simp add: i1 find_ent_def)
  have fe2: "find_ent (tn_pk tn) k db' = find_ent (tn_pk tn) k db2" for k
    using finish_report_entitlements [OF f] by (simp add: d find_ent_def)
  have k: "ls_pk l = lpk"
  proof (rule ccontr)
    assume ne: "ls_pk l \<noteq> lpk"
    have "find_ent (tn_pk tn) lpk db2 = find_ent (tn_pk tn) lpk db1"
      by (rule apply_trigger_rows [OF ok1 a]) (use ne in \<open>auto intro: find_ent_other\<close>)
    with idle e' show False by (simp add: fe1 fe2)
  qed
  from apply_trigger_ent [OF ok1 a, unfolded fe1 k] obtain ent r ent' fs fs' h u
    where ent: "find_ent (tn_pk tn) lpk db = Some ent \<or> find_ent (tn_pk tn) lpk db = None
         \<and> (\<exists>ti. ent = blank_ent (tn_pk tn) lpk ti (db1\<lparr>in_atomic := True\<rparr>))"
      and r: "rule_for (ent_status ent) tr = Inr r" and m: "mutate tr r ent fs now p = Inr (ent', fs')"
      and n: "find_ent (tn_pk tn) lpk db2 = Some (ent'\<lparr>ent_updated_at := u, hidden_by_expiry := h\<rparr>)" by blast
  have "ent_status ent \<in> {S_NONE, S_EXPIRED}" using ent idle by (auto simp: blank_ent_def)
  from start_from_idle [OF r this] plan_not_operator [OF t] have tr: "tr \<in> {T_START, T_START_TRIAL}" by auto
  from plan_starting [OF t] tr obtain x al ti where at: "attempt = Some (x, al, ti)" "ca_status x = A_STARTED" "p_tier p = Some ti"
    by auto
  from resolve_attempt [OF rs at(1)] have x: "x \<in> set (checkouts db)" "ca_tenant x = tn_pk tn"
    "ca_public_id x = pr_checkout_attempt_id rep" "ca_listing x = lpk" "ca_tier x = tier_pk ti" by (auto simp: i1 k)
  have "ent_tier ent' = tier_pk ti" using m tr at(3) by (auto simp: mutate_start_def bind_result_eq_Inr)
  with e'(1) n have "ent_tier e' = ca_tier x" by (auto simp: fe2 x)
  with x at(2) show ?thesis by blast
qed

text \<open>C10: A payment report cannot buy what core did not offer: when a report takes an entitlement from nothing (no row,
  \<^verbatim>\<open>none\<close> or \<^verbatim>\<open>expired\<close>) to any other status, the database held a started checkout attempt of this tenant for this very
  listing, named by the report, and the entitlement's tier is the attempt's tier.\<close>
theorem purchase_needs_started_checkout:
  assumes "\<not> in_atomic db" and "db_ok db" and "report_payment tn adapter rep now db = (Inr res, db')"
    and "case find_ent (tn_pk tn) lpk db of None \<Rightarrow> True | Some e \<Rightarrow> ent_status e \<in> {S_NONE, S_EXPIRED}"
    and "find_ent (tn_pk tn) lpk db' = Some e'" and "ent_status e' \<notin> {S_NONE, S_EXPIRED}"
  shows "\<exists>a \<in> set (checkouts db). ca_tenant a = tn_pk tn \<and> ca_public_id a = pr_checkout_attempt_id rep
    \<and> ca_status a = A_STARTED \<and> ca_listing a = lpk \<and> ent_tier e' = ca_tier a"
  using assms(3,1)
proof (rule report_payment_cases)
  assume "entitlements db' = entitlements db"
  with assms(4-6) show ?thesis by (simp add: find_ent_def)
next
  fix row db1 actor eid db2
  assume lr: "log_received COMMAND (Some (tn_pk tn)) (Some (report_key adapter rep)) actor [] adapter (Some (summary rep)) db = (row, db1)"
    and a: "apply_report tn adapter rep actor now db1 = Inr (eid, db2)" and d: "db' = log_conclude row ''applied'' eid None None db2"
  note s = log_received_simps(8) [OF lr]
  have ok1: "db_ok db1" using assms(2) by (auto simp: s db_ok_def)
  have f1: "find_ent (tn_pk tn) lpk db1 = find_ent (tn_pk tn) lpk db" by (simp add: s find_ent_def)
  have f2: "find_ent (tn_pk tn) lpk db2 = Some e'" using assms(5) by (simp add: d find_ent_def log_conclude_def)
  from apply_report_purchase [OF ok1 a _ f2 assms(6)] assms(4) show ?thesis by (simp add: f1) (simp add: s)
qed

subsection \<open>The command answers\<close>

text \<open>An attempt and its listing belong to the same tenant, which is how \<^verbatim>\<open>start_checkout\<close> creates them.\<close>

definition attempts_ok :: "'z billing_db_scheme \<Rightarrow> bool" where
  "attempts_ok db \<longleftrightarrow> (\<forall>a \<in> set (checkouts db). \<forall>l \<in> set (listings db). ls_pk l = ca_listing a \<longrightarrow> ls_tenant l = ca_tenant a)"

lemma resolve_listing:
  assumes "resolve tn rep db = Inr (l, attempt)" "attempts_ok db"
  shows "l \<in> set (listings db) \<and> ls_tenant l = tn_pk tn"
  using assms
  by (auto simp: resolve_def bind_result_eq_Inr refused_def find_attempt_def listing_by_public_id_def attempts_ok_def
      split: if_splits option.splits prod.splits dest!: find_SomeD find_by_SomeD)

lemma plan_names:
  "trigger_of_report l ent attempt rep db = Inr (tr, p, name, data) \<Longrightarrow> name \<in> set ALL_EVENT_TYPES"
  by (auto simp: trigger_of_report_def Let_def plan_checkout_def plan_paid_def plan_changed_def plan_canceled_def refused_def
      bind_result_eq_Inr split: if_splits option.splits prod.splits)

lemma finish_report_total:
  "name \<in> set ALL_EVENT_TYPES \<Longrightarrow> \<exists>eid db'. finish_report tn adapter rep actor now rcp l attempt (tr, p, name, data) db = Inr (eid, db')"
  by (simp add: finish_report_def Let_def emit_def)

lemma plan_refusals:
  "trigger_of_report l ent attempt rep db = Inl e \<Longrightarrow> \<exists>reason. e = ReportRefused reason None"
  by (auto simp: trigger_of_report_def Let_def plan_checkout_def plan_paid_def plan_changed_def plan_canceled_def refused_def
      report_tier_def bind_result_eq_Inl split: if_splits option.splits prod.splits)

lemma resolve_refusals: "resolve tn rep db = Inl e \<Longrightarrow> \<exists>reason. e = ReportRefused reason None"
  by (auto simp: resolve_def bind_result_eq_Inl refused_def split: if_splits option.splits prod.splits)

lemma apply_trigger_failure:
  assumes "apply_trigger tn lpk tr now actor origin p db = Inl e" "find_listing (tn_pk tn) lpk db = Some l" "tr \<notin> set CLOCK_TRIGGERS"
  shows "\<exists>err. report_failure rep attempt e = err \<and> (\<forall>x. err \<noteq> ReportEscaped x)"
proof -
  from assms(1) have "apply_body tn lpk tr now actor origin p (db\<lparr>in_atomic := True\<rparr>) = Inl e"
    by (auto simp: apply_trigger_def atomic_Inl)
  moreover have "in_atomic (db\<lparr>in_atomic := True\<rparr>)" by simp
  ultimately show ?thesis
  proof (cases rule: apply_body_Inl)
    case row
    then show ?thesis by (auto simp: load_or_create_def Let_def report_failure_def split: option.splits if_splits)
  qed (use assms(2,3) in \<open>auto simp: report_failure_def\<close>)
qed

lemma apply_report_never_escapes:
  assumes ok: "db_ok db" "attempts_ok db" and e: "apply_report tn adapter rep actor now db = Inl e"
  shows "e \<noteq> ReportEscaped x"
proof
  assume x: "e = ReportEscaped x"
  from e have "pr_kind rep \<in> set REPORT_KINDS" "pr_external_event_id rep \<noteq> []"
    by (auto simp: x apply_report_def atomic_Inl refused_def split: if_splits)
  with e obtain rcp db1 where i: "insert_receipt (tn_pk tn) adapter rep R_APPLIED [] (db\<lparr>in_atomic := True\<rparr>) = Inr (rcp, db1)"
    and rest: "bind_result (resolve tn rep db1) (\<lambda>(l, attempt).
       bind_result (trigger_of_report l (find_ent (tn_pk tn) (ls_pk l) db1) attempt rep db1) (\<lambda>plan.
         case apply_trigger tn (ls_pk l) (fst plan) now actor adapter (fst (snd plan)) db1 of
           Inl e \<Rightarrow> Inl (report_failure rep attempt e)
         | Inr (out, db2) \<Rightarrow> finish_report tn adapter rep actor now rcp l attempt plan db2)) = Inl e"
    by (auto simp: x apply_report_def atomic_Inl bind_result_eq_Inl insert_receipt_def Let_def split: if_splits)
  note s = insert_receipt_effect(1) [OF i]
  have ok1: "db_ok db1" "attempts_ok db1" using ok by (auto simp: s db_ok_def attempts_ok_def)
  from rest x resolve_refusals obtain l attempt where r: "resolve tn rep db1 = Inr (l, attempt)"
    by (cases "resolve tn rep db1") fastforce+
  from rest x r plan_refusals obtain tr p name data
    where t: "trigger_of_report l (find_ent (tn_pk tn) (ls_pk l) db1) attempt rep db1 = Inr (tr, p, name, data)"
    by (cases "trigger_of_report l (find_ent (tn_pk tn) (ls_pk l) db1) attempt rep db1") fastforce+
  from resolve_listing [OF r ok1(2)] ok1(1) have fl: "find_listing (tn_pk tn) (ls_pk l) db1 = Some l"
    by (intro find_listing_unique) (auto simp: db_ok_def)
  show False
  proof (cases "apply_trigger tn (ls_pk l) tr now actor adapter p db1")
    case (Inl y)
    with apply_trigger_failure [OF Inl fl, of rep attempt] plan_not_operator [OF t] rest x r t show ?thesis by simp
  next
    case (Inr z)
    obtain out db2 where z: "z = (out, db2)" by (cases z)
    from finish_report_total [OF plan_names [OF t], of tn adapter rep actor now rcp l attempt tr p data db2] rest r t Inr
    show ?thesis by (auto simp: z)
  qed
qed

lemma sample_log_ok [simp]: "log_ok (sample_db es)" "\<not> in_atomic (sample_db es)"
  by (simp_all add: log_ok_def sample_db_def)


subsection \<open>A completed checkout starts the entitlement\<close>

text \<open>An entitlement and its listing belong to the same tenant.\<close>

definition ents_ok :: "'z billing_db_scheme \<Rightarrow> bool" where
  "ents_ok db \<longleftrightarrow> (\<forall>e \<in> set (entitlements db). \<forall>l \<in> set (listings db). ls_pk l = ent_listing e \<longrightarrow> ls_tenant l = ent_tenant e)"

lemma start_legal:
  "st \<in> {S_NONE, S_EXPIRED, S_COMPED, S_CANCELED} \<Longrightarrow> \<exists>r. rule_for st T_START = Inr r"
  by (auto simp: machine_simps)

lemma purchase_applies:
  assumes ok: "db_ok db" "ents_ok db" and l: "find_listing (tn_pk tn) lpk db = Some l"
    and st: "(case find_ent (tn_pk tn) lpk db of None \<Rightarrow> S_NONE | Some x \<Rightarrow> ent_status x) \<in> {S_NONE, S_EXPIRED, S_COMPED, S_CANCELED}"
    and p: "p = no_params\<lparr>p_tier := Some t, p_period_end := Some e, p_payment_ref := Some ref\<rparr>"
  shows "\<exists>out db' x. apply_trigger tn lpk T_START now actor origin p db = Inr (out, db')
     \<and> find_ent (tn_pk tn) lpk db' = Some x \<and> ent_status x = S_ACTIVE \<and> ent_tier x = tier_pk t"
proof -
  have "\<exists>ent db1. load_or_create tn lpk T_START p (db\<lparr>in_atomic := True\<rparr>) = Inr (ent, db1)"
  proof (cases "find_ent (tn_pk tn) lpk db")
    case None
    have "lpk \<notin> ent_listing ` set (entitlements db)"
    proof
      assume "lpk \<in> ent_listing ` set (entitlements db)"
      then obtain x where "x \<in> set (entitlements db)" "ent_listing x = lpk" by auto
      with ok(2) find_listing_SomeD [OF l] None show False by (auto simp: ents_ok_def find_ent_def find_None_iff)
    qed
    with None show ?thesis by (simp add: load_or_create_def CREATING_def p Let_def)
  qed (simp add: load_or_create_def)
  then obtain ent db1 where lc: "load_or_create tn lpk T_START p (db\<lparr>in_atomic := True\<rparr>) = Inr (ent, db1)" by blast
  from st load_or_create_status(1) [OF lc] obtain r where r: "rule_for (ent_status ent) T_START = Inr r"
    using start_legal by auto
  have m: "\<exists>ef. mutate T_START r ent fs now p = Inr ef" for fs by (simp add: mutate_start_def p no_params_def need_def)
  have "T_START \<notin> set CLOCK_TRIGGERS" by (simp add: CLOCK_TRIGGERS_def)
  then obtain out db' where a: "apply_trigger tn lpk T_START now actor origin p db = Inr (out, db')"
    using apply_trigger_total [OF l lc r _ m] by blast
  from apply_trigger_ent [OF ok(1) a] obtain x r x' fs fs' h u where
    "mutate T_START r x fs now p = Inr (x', fs')" "find_ent (tn_pk tn) lpk db' = Some (x'\<lparr>ent_updated_at := u, hidden_by_expiry := h\<rparr>)"
    by blast
  with a show ?thesis by (auto simp: mutate_start_def bind_result_eq_Inr p)
qed

lemma checkout_report_applies:
  assumes ok: "db_ok db" "ents_ok db" "\<not> in_atomic db"
    and at: "find_attempt (tn_pk tn) (pr_checkout_attempt_id rep) db = Some (a, l, t)" "ca_status a = A_STARTED" "ls_tenant l = tn_pk tn"
    and rep: "pr_kind rep = ''checkout_completed''" "pr_checkout_attempt_id rep \<noteq> []" "pr_listing_id rep = []"
      "pr_period_end rep = Some e" "pr_trial_ends_at rep = None" "pr_external_event_id rep \<noteq> []"
    and new: "prior_applied tn (report_key adapter rep) db = None"
      "find (receipt_key (tn_pk tn) adapter (pr_external_event_id rep)) (receipts db) = None"
      "find (receipt_key (tn_pk tn) adapter (take 200 (pr_external_event_id rep))) (receipts db) = None"
    and st: "(case find_ent (tn_pk tn) (ls_pk l) db of None \<Rightarrow> S_NONE | Some x \<Rightarrow> ent_status x) \<in> {S_NONE, S_EXPIRED, S_COMPED, S_CANCELED}"
  shows "\<exists>db' x. report_payment tn adapter rep now db = (Inr Applied, db')
     \<and> find_ent (tn_pk tn) (ls_pk l) db' = Some x \<and> ent_status x = S_ACTIVE \<and> ent_tier x = tier_pk t"
proof -
  let ?actor = "[(''type'', JStr ''adapter''), (''id'', JStr adapter)]"
  obtain row db1 where lr: "log_received COMMAND (Some (tn_pk tn)) (Some (report_key adapter rep)) ?actor [] adapter (Some (summary rep)) db = (row, db1)"
    by fastforce
  note s = log_received_simps(8) [OF lr]
  obtain rcp db2 where i: "insert_receipt (tn_pk tn) adapter rep R_APPLIED [] (db1\<lparr>in_atomic := True\<rparr>) = Inr (rcp, db2)"
    by (simp add: insert_receipt_def Let_def s new(3))
  note s2 = insert_receipt_effect(1) [OF i]
  have ok2: "db_ok db2" "ents_ok db2" using ok by (auto simp: s2 s db_ok_def ents_ok_def)
  have lm: "l \<in> set (listings db)" using at(1) by (auto simp: find_attempt_def split: option.splits dest: find_by_SomeD)
  have fl: "find_listing (tn_pk tn) (ls_pk l) db2 = Some l"
    using ok2(1) lm at(3) by (intro find_listing_unique) (auto simp: db_ok_def s2 s)
  have fe: "find_ent (tn_pk tn) (ls_pk l) db2 = find_ent (tn_pk tn) (ls_pk l) db" by (simp add: s2 s find_ent_def)
  have "find_attempt (tn_pk tn) (pr_checkout_attempt_id rep) db2 = Some (a, l, t)"
    using at(1) by (simp add: s2 s find_attempt_def tier_by_pk_def cong: option.case_cong)
  then have r: "resolve tn rep db2 = Inr (l, Some (a, l, t))" by (simp add: resolve_def rep)
  obtain name data where tr: "trigger_of_report l (find_ent (tn_pk tn) (ls_pk l) db2) (Some (a, l, t)) rep db2 = Inr (T_START,
      no_params\<lparr>p_tier := Some t, p_period_end := Some e, p_payment_ref := Some (pr_payment_ref rep)\<rparr>, name, data)"
    and name: "name \<in> set ALL_EVENT_TYPES"
    by (simp add: trigger_of_report_def plan_checkout_def rep at(2) Let_def)
  from purchase_applies [OF ok2 fl, unfolded fe, OF st refl] obtain out db3 x where
    a: "apply_trigger tn (ls_pk l) T_START now ?actor adapter
        (no_params\<lparr>p_tier := Some t, p_period_end := Some e, p_payment_ref := Some (pr_payment_ref rep)\<rparr>) db2 = Inr (out, db3)"
    and x: "find_ent (tn_pk tn) (ls_pk l) db3 = Some x" "ent_status x = S_ACTIVE" "ent_tier x = tier_pk t" by blast
  from finish_report_total [OF name] obtain eid db4 where
    f: "finish_report tn adapter rep ?actor now rcp l (Some (a, l, t))
        (T_START, no_params\<lparr>p_tier := Some t, p_period_end := Some e, p_payment_ref := Some (pr_payment_ref rep)\<rparr>, name, data) db3 = Inr (eid, db4)"
    by blast
  have "apply_report tn adapter rep ?actor now db1 = Inr (eid, db4\<lparr>in_atomic := in_atomic db1\<rparr>)"
    unfolding apply_report_def atomic_Inr by (simp add: rep i r tr a f REPORT_KINDS_def)
  with lr new ok(3) have "report_payment tn adapter rep now db =
      (Inr Applied, log_conclude row ''applied'' eid None None (db4\<lparr>in_atomic := in_atomic db1\<rparr>))"
    by (simp add: report_payment_def require_autocommit_def)
  moreover have "find_ent (tn_pk tn) (ls_pk l) (log_conclude row ''applied'' eid None None (db4\<lparr>in_atomic := in_atomic db1\<rparr>)) = Some x"
    using x(1) finish_report_entitlements [OF f] by (simp add: find_ent_def log_conclude_def)
  ultimately show ?thesis using x(2,3) by auto
qed

subsection \<open>A sample purchase\<close>

definition sample_report :: payment_report where
  "sample_report = \<lparr>pr_kind = ''checkout_completed'', pr_external_event_id = ''evt_1'', pr_checkout_attempt_id = ''chk_1'',
     pr_listing_id = [], pr_tier_key = [], pr_period_end = Some (sample_now + days 30), pr_trial_ends_at = None,
     pr_payment_ref = [(''external_id'', JStr ''sub_1'')], pr_amount_minor = None, pr_currency = [], pr_invoice_ref = [],
     pr_failure_code = [], pr_attempt = None, pr_next_retry_at = None, pr_at_period_end = True, pr_canceled_by = [], pr_reason = []\<rparr>"

definition sample_attempt :: checkout_attempt where
  "sample_attempt = \<lparr>ca_pk = 30, ca_tenant = 1, ca_listing = 10, ca_tier = 2, ca_public_id = ''chk_1'', ca_status = A_STARTED,
     ca_adapter_id = ''stripe'', external_ref = ''cs_1'', started_by = Some 7, ca_created_at = sample_now,
     ca_expires_at = sample_now + hours 24, completed_at = None\<rparr>"

definition sample_shop :: billing_db where
  "sample_shop = (sample_db [])\<lparr>checkouts := [sample_attempt]\<rparr>"

lemma sample_shop_simps [simp]:
  "db_ok sample_shop" "log_ok sample_shop" "\<not> in_atomic sample_shop" "attempts_ok sample_shop" "concluded sample_shop"
  "find_ent (tn_pk sample_tenant) 10 sample_shop = None" "checkouts sample_shop = [sample_attempt]"
  by (simp_all add: sample_shop_def db_ok_def log_ok_def attempts_ok_def concluded_def sample_db_def find_ent_def
      sample_attempt_def sample_listing_def)

lemma sample_purchase:
  "\<exists>db' x. report_payment sample_tenant ''stripe'' sample_report sample_now sample_shop = (Inr Applied, db')
     \<and> find_ent (tn_pk sample_tenant) 10 db' = Some x \<and> ent_status x = S_ACTIVE"
proof -
  have lp: "ls_pk sample_listing = 10" by (simp add: sample_listing_def)
  have "find_attempt (tn_pk sample_tenant) (pr_checkout_attempt_id sample_report) sample_shop
      = Some (sample_attempt, sample_listing, sample_tier)"
    by (simp add: find_attempt_def sample_report_def sample_attempt_def sample_tenant_def sample_shop_def sample_db_def
        sample_listing_def tier_by_pk_def sample_tier_def)
  note at = this
  have "ents_ok sample_shop" "ca_status sample_attempt = A_STARTED" "ls_tenant sample_listing = tn_pk sample_tenant"
    by (simp_all add: ents_ok_def sample_shop_def sample_attempt_def sample_listing_def sample_tenant_def)
  moreover have "pr_kind sample_report = ''checkout_completed''" "pr_checkout_attempt_id sample_report \<noteq> []"
    "pr_listing_id sample_report = []" "pr_period_end sample_report = Some (sample_now + days 30)"
    "pr_trial_ends_at sample_report = None" "pr_external_event_id sample_report \<noteq> []"
    by (simp_all add: sample_report_def)
  moreover have "prior_applied sample_tenant k sample_shop = None" "receipts sample_shop = []" for k
    by (simp_all add: prior_applied_def sample_shop_def sample_db_def)
  ultimately show ?thesis using checkout_report_applies [OF _ _ _ at] by (simp add: lp) blast
qed


theorem report_payment_idempotent_witness:
  "\<exists>db' db''. report_payment sample_tenant ''stripe'' sample_report sample_now sample_shop = (Inr Applied, db')
     \<and> report_payment sample_tenant ''stripe'' sample_report (sample_now + seconds 5) db' = (Inr Replayed, db'') \<and> only_logged db' db''"
proof -
  from sample_purchase obtain db' where r: "report_payment sample_tenant ''stripe'' sample_report sample_now sample_shop = (Inr Applied, db')"
    by blast
  have "length (pr_external_event_id sample_report) \<le> 200" by (simp add: sample_report_def)
  from report_payment_idempotent [OF _ _ _ this r refl, of "sample_now + seconds 5"] r show ?thesis by auto
qed

theorem purchase_needs_started_checkout_witness:
  "\<exists>db' x. report_payment sample_tenant ''stripe'' sample_report sample_now sample_shop = (Inr Applied, db')
     \<and> find_ent (tn_pk sample_tenant) 10 db' = Some x \<and> ent_tier x = ca_tier sample_attempt"
proof -
  from sample_purchase obtain db' x where r: "report_payment sample_tenant ''stripe'' sample_report sample_now sample_shop = (Inr Applied, db')"
    and x: "find_ent (tn_pk sample_tenant) 10 db' = Some x" "ent_status x = S_ACTIVE" by blast
  have "ent_tier x = ca_tier sample_attempt"
    using purchase_needs_started_checkout [OF _ _ r, of 10 x] x by simp
  with r x show ?thesis by blast
qed

end
