(* ===== verification/Ratelimit.thy ===== *)
theory Ratelimit
  imports Audit_Store
begin

section \<open>Fixed-window rate limits\<close>

text \<open>
  \<^verbatim>\<open>audit/ratelimit.py\<close>: the counters, the upsert (\<open>hit\<close>) and \<open>check\<close> with its two loops. The keyed hash
  (Django's \<^verbatim>\<open>salted_hmac\<close>) and the IP bucket (\<^verbatim>\<open>osds.client_ip.ip_bucket\<close>, over Python's
  \<^verbatim>\<open>ipaddress\<close>) are the arguments \<open>hmac\<close> and \<open>bucket\<close>; nothing is assumed of them. Counters are
  committed on their own, so a \<open>check\<close> always returns the new database.
\<close>

record limit_rule =
  lr_name :: string
  lr_limit :: nat
  lr_window :: duration

record verdict =
  allowed :: bool
  v_rule :: "string option"
  retry_after :: int
  first_block :: bool

definition hash_text :: "tenant \<Rightarrow> string \<Rightarrow> string \<Rightarrow> string" where
  "hash_text tn kind v = tn_public_id tn @ [char_of (0::nat)] @ kind @ [char_of (0::nat)] @ v"

definition subject_hash :: "(string \<Rightarrow> string) \<Rightarrow> (string \<Rightarrow> string) \<Rightarrow> tenant \<Rightarrow> string \<Rightarrow> string \<Rightarrow> string" where
  "subject_hash hmac bucket tn kind v = hmac (hash_text tn kind (if kind = ''ip'' then bucket v else v))"

definition window_start :: "instant \<Rightarrow> duration \<Rightarrow> instant" where
  "window_start now window = (let secs = window div 1000000 in now div 1000000 div secs * secs * 1000000)"

definition counter_key :: "tenant \<Rightarrow> limit_rule \<Rightarrow> string \<Rightarrow> instant \<Rightarrow> rate_counter \<Rightarrow> bool" where
  "counter_key tn r digest start c \<longleftrightarrow>
     rc_tenant c = tn_pk tn \<and> rc_rule c = lr_name r \<and> rc_subject_hash c = digest \<and> rc_window_start c = start"

text \<open>\<^verbatim>\<open>INSERT ... ON CONFLICT DO UPDATE SET count = count + 1 RETURNING count\<close>.\<close>

definition hit :: "tenant \<Rightarrow> limit_rule \<Rightarrow> string \<Rightarrow> instant \<Rightarrow> 'z core_db_scheme \<Rightarrow> (nat \<times> instant) \<times> 'z core_db_scheme" where
  "hit tn r digest now db =
     (let start = window_start now (lr_window r); key = counter_key tn r digest start in
      case find key (counters db) of
        Some c \<Rightarrow> ((Suc (rc_count c), start + lr_window r),
                   db\<lparr>counters := update_where key (\<lambda>x. x\<lparr>rc_count := Suc (rc_count x)\<rparr>) (counters db)\<rparr>)
      | None \<Rightarrow> ((1, start + lr_window r),
                 db\<lparr>counters := counters db @ [\<lparr>rc_pk = Suc (seq db), rc_tenant = tn_pk tn, rc_rule = lr_name r,
                      rc_subject_hash = digest, rc_window_start = start, rc_count = 1\<rparr>], seq := Suc (seq db)\<rparr>))"

text \<open>\<^verbatim>\<open>ceil((ends - now).total_seconds())\<close>.\<close>

definition ceil_seconds :: "duration \<Rightarrow> int" where
  "ceil_seconds d = - ((- d) div 1000000)"

definition block :: "limit_rule \<Rightarrow> nat \<Rightarrow> instant \<Rightarrow> instant \<Rightarrow> verdict" where
  "block r cnt ends now = \<lparr>allowed = False, v_rule = Some (lr_name r), retry_after = max 1 (ceil_seconds (ends - now)),
     first_block = (cnt = lr_limit r + 1)\<rparr>"

definition allow :: verdict where
  "allow = \<lparr>allowed = True, v_rule = None, retry_after = 0, first_block = False\<rparr>"

fun check_rules :: "tenant \<Rightarrow> string \<Rightarrow> instant \<Rightarrow> limit_rule list \<Rightarrow> 'z core_db_scheme \<Rightarrow> verdict option \<times> 'z core_db_scheme" where
  "check_rules tn digest now [] db = (None, db)"
| "check_rules tn digest now (r # rs) db =
     (let ((cnt, ends), db1) = hit tn r digest now db in
      if lr_limit r < cnt then (Some (block r cnt ends now), db1) else check_rules tn digest now rs db1)"

fun check_groups :: "(string \<Rightarrow> string) \<Rightarrow> (string \<Rightarrow> string) \<Rightarrow> tenant \<Rightarrow> instant \<Rightarrow> (string \<times> string option \<times> limit_rule list) list
    \<Rightarrow> 'z core_db_scheme \<Rightarrow> verdict \<times> 'z core_db_scheme" where
  "check_groups hmac bucket tn now [] db = (allow, db)"
| "check_groups hmac bucket tn now ((kind, v, rules) # gs) db =
     (case v of
        None \<Rightarrow> check_groups hmac bucket tn now gs db
      | Some s \<Rightarrow>
          if s = [] \<or> (kind = ''ip'' \<and> bucket s = []) then check_groups hmac bucket tn now gs db
          else (case check_rules tn (subject_hash hmac bucket tn kind s) now rules db of
                  (Some verd, db1) \<Rightarrow> (verd, db1)
                | (None, db1) \<Rightarrow> check_groups hmac bucket tn now gs db1))"

definition check :: "(string \<Rightarrow> string) \<Rightarrow> (string \<Rightarrow> string) \<Rightarrow> tenant \<Rightarrow> (string \<times> string option \<times> limit_rule list) list \<Rightarrow> instant
    \<Rightarrow> 'z core_db_scheme \<Rightarrow> audit_error + verdict \<times> 'z core_db_scheme" where
  "check hmac bucket tn checks now db =
     (case require_autocommit db of
        Inl e \<Rightarrow> Inl e
      | Inr u \<Rightarrow> Inr (check_groups hmac bucket tn now checks db))"

subsection \<open>The counter\<close>

definition count_of :: "tenant \<Rightarrow> limit_rule \<Rightarrow> string \<Rightarrow> instant \<Rightarrow> 'z core_db_scheme \<Rightarrow> nat" where
  "count_of tn r digest start db = (case find (counter_key tn r digest start) (counters db) of None \<Rightarrow> 0 | Some c \<Rightarrow> rc_count c)"

lemma hit_result:
  "fst (hit tn r digest now db) = (Suc (count_of tn r digest (window_start now (lr_window r)) db),
     window_start now (lr_window r) + lr_window r)"
  by (simp add: hit_def count_of_def Let_def split: option.split)

lemma hit_counts:
  "count_of tn' r' digest' start' (snd (hit tn r digest now db)) =
     (if tn_pk tn' = tn_pk tn \<and> lr_name r' = lr_name r \<and> digest' = digest \<and> start' = window_start now (lr_window r)
      then Suc (count_of tn r digest (window_start now (lr_window r)) db) else count_of tn' r' digest' start' db)"
proof (cases "find (counter_key tn r digest (window_start now (lr_window r))) (counters db)")
  case None
  then show ?thesis
    by (auto simp: hit_def count_of_def Let_def find_append counter_key_def [abs_def] split: option.split)
next
  case (Some c)
  let ?k = "counter_key tn r digest (window_start now (lr_window r))"
  have "find (counter_key tn' r' digest' start') (update_where ?k (\<lambda>x. x\<lparr>rc_count := Suc (rc_count x)\<rparr>) (counters db))
      = map_option (\<lambda>x. if ?k x then x\<lparr>rc_count := Suc (rc_count x)\<rparr> else x) (find (counter_key tn' r' digest' start') (counters db))"
    by (rule find_update_where_keep) (simp add: counter_key_def)
  moreover have "counter_key tn' r' digest' start' = ?k"
    if "tn_pk tn' = tn_pk tn" "lr_name r' = lr_name r" "digest' = digest" "start' = window_start now (lr_window r)"
    using that by (auto simp: counter_key_def)
  ultimately show ?thesis using Some
    by (auto simp: hit_def count_of_def Let_def dest!: find_SomeD split: option.splits) (auto simp: counter_key_def)
qed

lemma hit_atomic [simp]: "in_atomic (snd (hit tn r digest now db)) = in_atomic db"
  by (simp add: hit_def Let_def split: option.split)

text \<open>What a check writes: counters and their sequence.\<close>

definition only_counted :: "'z core_db_scheme \<Rightarrow> 'z core_db_scheme \<Rightarrow> bool" where
  "only_counted db db' \<longleftrightarrow> (\<exists>cs n. db' = db\<lparr>counters := cs, seq := n\<rparr> \<and> seq db \<le> n)"

lemma only_counted_refl [simp]: "only_counted db db"
  unfolding only_counted_def by (rule exI [of _ "counters db"], rule exI [of _ "seq db"]) simp

lemma only_counted_trans: "only_counted a b \<Longrightarrow> only_counted b c \<Longrightarrow> only_counted a c"
  by (fastforce simp: only_counted_def)

lemma only_counted_hit: "hit tn r digest now db = (x, db') \<Longrightarrow> only_counted db db'"
proof (cases "find (counter_key tn r digest (window_start now (lr_window r))) (counters db)")
  case None
  moreover assume "hit tn r digest now db = (x, db')"
  ultimately have "db' = db\<lparr>counters := counters db', seq := Suc (seq db)\<rparr>" by (auto simp: hit_def Let_def)
  moreover have "seq db \<le> Suc (seq db)" by simp
  ultimately show ?thesis unfolding only_counted_def by blast
next
  case (Some c)
  moreover assume "hit tn r digest now db = (x, db')"
  ultimately have "db' = db\<lparr>counters := counters db', seq := seq db\<rparr>" by (auto simp: hit_def Let_def)
  with le_refl show ?thesis unfolding only_counted_def by blast
qed

lemma only_counted_rules: "check_rules tn digest now rs db = (v, db') \<Longrightarrow> only_counted db db'"
proof (induction rs arbitrary: db)
  case (Cons r rs)
  obtain x db1 where h: "hit tn r digest now db = (x, db1)" by fastforce
  note only_counted_hit [OF h]
  moreover have "only_counted db1 db'" using Cons.prems h Cons.IH [of db1] by (auto split: prod.splits if_splits)
  ultimately show ?case by (rule only_counted_trans)
qed simp

lemma only_counted_groups: "check_groups hmac bucket tn now gs db = (v, db') \<Longrightarrow> only_counted db db'"
proof (induction gs arbitrary: db)
  case (Cons g gs)
  obtain kind s rules where g: "g = (kind, s, rules)" by (cases g)
  from Cons show ?case
    by (auto simp: g split: option.splits if_splits prod.splits dest!: only_counted_rules intro: only_counted_trans)
qed simp

lemma only_counted_check: "check hmac bucket tn checks now db = Inr (v, db') \<Longrightarrow> only_counted db db'"
  by (auto simp: check_def intro: only_counted_groups split: sum.splits)

text \<open>One group with one rule, as the checkout and the inbound webhook use it.\<close>

lemma check_single:
  assumes "\<not> in_atomic db" "s \<noteq> []" "kind \<noteq> ''ip''"
  shows "check hmac bucket tn [(kind, Some s, [r])] now db =
    (let digest = subject_hash hmac bucket tn kind s; h = hit tn r digest now db in
     Inr (if lr_limit r < fst (fst h) then block r (fst (fst h)) (snd (fst h)) now else allow, snd h))"
  using assms by (simp add: check_def require_autocommit_def Let_def split: prod.split)

subsection \<open>Properties\<close>

fun check_seq :: "(string \<Rightarrow> string) \<Rightarrow> (string \<Rightarrow> string) \<Rightarrow> tenant \<Rightarrow> string \<Rightarrow> string \<Rightarrow> limit_rule \<Rightarrow> instant list
    \<Rightarrow> 'z core_db_scheme \<Rightarrow> verdict list" where
  "check_seq hmac bucket tn kind s r [] db = []"
| "check_seq hmac bucket tn kind s r (t # ts) db =
     (case check hmac bucket tn [(kind, Some s, [r])] t db of
        Inl e \<Rightarrow> []
      | Inr (verd, db') \<Rightarrow> verd # check_seq hmac bucket tn kind s r ts db')"

lemma check_seq_verdicts:
  assumes "\<not> in_atomic db" "s \<noteq> []" "kind \<noteq> ''ip''" "\<forall>t \<in> set ts. window_start t (lr_window r) = start"
  shows "map allowed (check_seq hmac bucket tn kind s r ts db) =
      map (\<lambda>i. count_of tn r (subject_hash hmac bucket tn kind s) start db + i < lr_limit r) [0..<length ts]
    \<and> map first_block (check_seq hmac bucket tn kind s r ts db) =
      map (\<lambda>i. count_of tn r (subject_hash hmac bucket tn kind s) start db + i = lr_limit r) [0..<length ts]"
  using assms
proof (induction ts arbitrary: db)
  case Nil
  then show ?case by simp
next
  case (Cons t ts)
  let ?d = "subject_hash hmac bucket tn kind s"
  let ?h = "hit tn r ?d t db"
  let ?c = "count_of tn r ?d start db"
  have st: "window_start t (lr_window r) = start" using Cons.prems(4) by simp
  have cnt: "fst (fst ?h) = Suc ?c" by (simp add: hit_result st)
  have c1: "count_of tn r ?d start (snd ?h) = Suc ?c" by (simp add: hit_counts st)
  have na: "\<not> in_atomic (snd ?h)" using Cons.prems(1) by simp
  from Cons.IH [OF na Cons.prems(2,3)] Cons.prems(4) have IH:
    "map allowed (check_seq hmac bucket tn kind s r ts (snd ?h)) = map (\<lambda>i. Suc ?c + i < lr_limit r) [0..<length ts]"
    "map first_block (check_seq hmac bucket tn kind s r ts (snd ?h)) = map (\<lambda>i. Suc ?c + i = lr_limit r) [0..<length ts]"
    by (simp_all add: c1)
  have up: "[0..<length (t # ts)] = 0 # map Suc [0..<length ts]"
    by (simp add: map_Suc_upt upt_conv_Cons del: upt_Suc)
  show ?case unfolding up
    by (simp add: check_single [OF Cons.prems(1-3)] Let_def cnt IH block_def allow_def comp_def)
qed


definition sample_core :: core_db where
  "sample_core = \<lparr>wall = 0, entropy = (\<lambda>n. n), draws = 0, seq = 0, in_atomic = False, tenants = [], memberships = [],
     outbox = [], deliveries = [], mail = [], counters = [], commands = [], accesses = []\<rparr>"

definition sample_site :: tenant where
  "sample_site = \<lparr>tn_pk = 1, tn_public_id = ''tnt_1'', tn_slug = ''acme'', tn_name = ''Acme'',
     primary_domain = None, domain_verified_at = None, tn_settings = [], tn_mode = ''single'', tn_status = ''active'', tn_created_by = None\<rparr>"


lemma window_start_bounds:
  assumes "1000000 \<le> window" "window mod 1000000 = 0"
  shows "window_start now window \<le> now \<and> now < window_start now window + window"
proof -
  define q where "q = window div 1000000"
  from assms have q: "0 < q" "window = q * 1000000" by (auto simp: q_def)
  let ?n = "now div 1000000"
  have n: "?n * 1000000 \<le> now" "now < ?n * 1000000 + 1000000" by presburger+
  have "?n = ?n div q * q + ?n mod q" by simp
  moreover have "0 \<le> ?n mod q" "?n mod q < q" using q(1) by simp_all
  ultimately have w: "?n div q * q \<le> ?n" "?n + 1 \<le> ?n div q * q + q" by linarith+
  have "window_start now window = ?n div q * q * 1000000" by (simp add: window_start_def Let_def q_def)
  with w n q(2) show ?thesis by (auto simp: algebra_simps)
qed

lemma ceil_seconds_bounds: "d \<le> ceil_seconds d * 1000000" "ceil_seconds d * 1000000 < d + 1000000"
  using mult_div_mod_eq [of 1000000 "- d"] pos_mod_bound [of 1000000 "- d"] pos_mod_sign [of 1000000 "- d"]
  by (simp_all add: ceil_seconds_def)

text \<open>The retry hint of a refusal is honest: it is between one second and the window's length, and once that many
  seconds have passed the blocking window is over and a new one counts.\<close>
theorem retry_after_suffices:
  assumes "1000000 \<le> lr_window r" and "lr_window r mod 1000000 = 0"
    and "fst (hit tn r digest now db) = (cnt, ends)"
  shows "1 \<le> retry_after (block r cnt ends now) \<and> seconds (retry_after (block r cnt ends now)) \<le> lr_window r
    \<and> window_start now (lr_window r) < window_start (now + seconds (retry_after (block r cnt ends now))) (lr_window r)"
proof -
  let ?w = "lr_window r" and ?s = "window_start now (lr_window r)"
  have ends: "ends = ?s + ?w" using assms(3) by (simp add: hit_result)
  note b = window_start_bounds [OF assms(1,2), of now]
  note c = ceil_seconds_bounds [of "ends - now"]
  from b ends have pos: "0 < ends - now" "ends - now \<le> ?w" by linarith+
  with c have k: "1 \<le> ceil_seconds (ends - now)" by linarith
  obtain q where q: "?w = q * 1000000" using assms(2) by (metis div_mult_mod_eq add.right_neutral [of "lr_window r div 1000000 * 1000000"])
  have "ceil_seconds (ends - now) \<le> q" using c(2) pos(2) q by linarith
  then have le: "seconds (ceil_seconds (ends - now)) \<le> ?w" by (simp add: seconds_def q)
  have "ends \<le> now + seconds (ceil_seconds (ends - now))" using c(1) by (simp add: seconds_def)
  moreover from window_start_bounds [OF assms(1,2), of "now + seconds (ceil_seconds (ends - now))"]
  have "now + seconds (ceil_seconds (ends - now)) < window_start (now + seconds (ceil_seconds (ends - now))) ?w + ?w" by simp
  ultimately have "?s < window_start (now + seconds (ceil_seconds (ends - now))) ?w" using ends by linarith
  with k le show ?thesis by (simp add: block_def max_def)
qed

theorem retry_after_suffices_witness:
  "1 \<le> retry_after (block \<lparr>lr_name = ''r'', lr_limit = 0, lr_window = seconds 60\<rparr> 1 60000000 5)"
  using retry_after_suffices [of "\<lparr>lr_name = ''r'', lr_limit = 0, lr_window = seconds 60\<rparr>" sample_site "[]" 5 sample_core 1 60000000]
  by (simp add: hit_def sample_core_def window_start_def seconds_def Let_def)

end
