(* ===== verification/Payments.thy ===== *)
theory Payments
  imports Reports Ratelimit
begin

section \<open>Core's side of the payment seam\<close>

text \<open>
  \<^verbatim>\<open>billing/payments.py\<close>: \<open>available\<close>, \<open>start_checkout\<close> (with \<open>prepare\<close>, \<open>fail_attempt\<close>, \<open>record_started\<close>),
  \<open>cancel_entitlement\<close> (with \<open>apply_cancel\<close>) and \<open>portal_url\<close>. The payment provider is whatever adapter registered
  itself for \<^verbatim>\<open>payments.checkout\<close>: the record \<open>provider\<close> is the contract of \<^verbatim>\<open>osds.adapter_api\<close>, an argument of
  the commands (\<open>None\<close>: none registered), each call already given its context. A provider call is made outside any
  transaction; \<open>net\<close> is what other transactions commit while it runs.
\<close>

record checkout_request =
  rq_attempt_id :: string
  rq_listing_id :: string
  rq_listing_name :: string
  rq_tier_key :: string
  rq_tier_name :: string
  rq_price_minor :: "int option"
  rq_currency :: string
  rq_interval :: string
  rq_trial_days :: "int option"
  rq_customer_email :: string
  rq_success_url :: string
  rq_cancel_url :: string

record checkout_result =
  cr_url :: string
  cr_external_ref :: string

text \<open>What a provider call may raise: the two exceptions of the contract, or anything else.\<close>

datatype provider_error = PaymentError | SecretNotFound | ProviderCrash

record provider =
  pv_adapter_id :: string
  pv_available :: "provider_error + bool"
  pv_create_checkout :: "checkout_request \<Rightarrow> provider_error + checkout_result"
  pv_cancel_subscription :: "dict \<Rightarrow> bool \<Rightarrow> provider_error + unit"
  pv_portal_url :: "dict \<Rightarrow> string \<Rightarrow> provider_error + string option"

datatype pay_error =
    PaymentRefused string
  | RateLimited verdict
  | PayAuditError audit_error
  | PayProviderError provider_error
  | PayEscaped ent_error

definition CHECKOUT_TTL :: duration where
  "CHECKOUT_TTL = hours 24"

definition CHECKOUT_RATE :: "limit_rule list" where
  "CHECKOUT_RATE = [\<lparr>lr_name = ''billing.checkout.owner.1h'', lr_limit = 10, lr_window = hours 1\<rparr>]"

definition available :: "provider option \<Rightarrow> tenant \<Rightarrow> pay_error + bool" where
  "available pv tn =
     (case pv of
        None \<Rightarrow> Inr False
      | Some p \<Rightarrow>
          if \<not> has_absolute_base tn then Inr False
          else (case pv_available p of
                  Inr b \<Rightarrow> Inr b
                | Inl SecretNotFound \<Rightarrow> Inr False
                | Inl e \<Rightarrow> Inl (PayProviderError e)))"

definition owned_listing :: "nat \<Rightarrow> listing \<Rightarrow> user \<Rightarrow> 'z directory_db_scheme \<Rightarrow> pay_error + listing" where
  "owned_listing tenant l u db =
     (case find_listing tenant (ls_pk l) db of
        None \<Rightarrow> Inl (PaymentRefused ''not_owner'')
      | Some fresh \<Rightarrow>
          if ls_owner fresh \<noteq> Some (usr_pk u) then Inl (PaymentRefused ''not_owner'')
          else if ls_status fresh = L_SUSPENDED then Inl (PaymentRefused ''listing_suspended'')
          else Inr fresh)"

subsection \<open>Starting a checkout\<close>

definition new_attempt :: "nat \<Rightarrow> listing \<Rightarrow> tier \<Rightarrow> string \<Rightarrow> user \<Rightarrow> instant \<Rightarrow> 'z core_db_scheme \<Rightarrow> checkout_attempt" where
  "new_attempt tenant fresh t adapter u now db =
     \<lparr>ca_pk = Suc (seq db), ca_tenant = tenant, ca_listing = ls_pk fresh, ca_tier = tier_pk t,
      ca_public_id = prefixed ''chk_'' (draw_ulid db), ca_status = A_STARTED, ca_adapter_id = adapter, external_ref = [],
      started_by = Some (usr_pk u), ca_created_at = wall db, ca_expires_at = now + CHECKOUT_TTL, completed_at = None\<rparr>"

definition return_base :: "listing \<Rightarrow> string" where
  "return_base fresh = ''/owner/listings/'' @ ls_public_id fresh @ ''/billing/return/''"

definition checkout_request_of :: "tenant \<Rightarrow> checkout_attempt \<Rightarrow> listing \<Rightarrow> tier \<Rightarrow> user \<Rightarrow> checkout_request" where
  "checkout_request_of tn a fresh t u =
     \<lparr>rq_attempt_id = ca_public_id a, rq_listing_id = ls_public_id fresh, rq_listing_name = ls_name fresh,
      rq_tier_key = tier_key t, rq_tier_name = tier_name t, rq_price_minor = price_minor t, rq_currency = currency t,
      rq_interval = interval t, rq_trial_days = trial_days t, rq_customer_email = usr_email u,
      rq_success_url = absolute_url tn (return_base fresh @ ''?checkout=success''),
      rq_cancel_url = absolute_url tn (return_base fresh @ ''?checkout=cancel'')\<rparr>"

definition purchase_guard :: "nat \<Rightarrow> nat \<Rightarrow> tier option \<Rightarrow> 'z billing_db_scheme \<Rightarrow> pay_error + tier" where
  "purchase_guard tenant lpk t db =
     (case t of
        None \<Rightarrow> Inl (PaymentRefused ''tier_unknown'')
      | Some ti \<Rightarrow>
          if \<not> purchasable ti \<or> tier_rank ti = 0 \<or> uses_slot ti then Inl (PaymentRefused ''tier_not_for_sale'')
          else
            let st = (case find_ent tenant lpk db of None \<Rightarrow> S_NONE | Some e \<Rightarrow> ent_status e)
            in if st \<in> {S_PAST_DUE, S_GRACE} then Inl (PaymentRefused ''use_portal'')
               else if st \<in> {S_TRIALING, S_ACTIVE} then Inl (PaymentRefused ''already_subscribed'')
               else Inr ti)"

definition prepare :: "provider option \<Rightarrow> tenant \<Rightarrow> listing \<Rightarrow> user \<Rightarrow> string \<Rightarrow> instant \<Rightarrow> 'z billing_db_scheme
    \<Rightarrow> pay_error + (checkout_attempt \<times> listing \<times> tier \<times> provider) \<times> 'z billing_db_scheme" where
  "prepare pv tn l u key now = atomic (\<lambda>db.
     case pv of
       None \<Rightarrow> Inl (PaymentRefused ''unavailable'')
     | Some p \<Rightarrow>
         bind_result (available pv tn) (\<lambda>ok.
           if \<not> ok then Inl (PaymentRefused ''unavailable'')
           else
             bind_result (owned_listing (tn_pk tn) l u db) (\<lambda>fresh.
             bind_result (purchase_guard (tn_pk tn) (ls_pk fresh)
                (if key \<noteq> [] then find (\<lambda>t. tier_tenant t = tn_pk tn \<and> tier_key t = key) (tiers db) else None) db) (\<lambda>t.
               let a = new_attempt (tn_pk tn) fresh t (pv_adapter_id p) u now db
               in Inr ((a, fresh, t, p), db\<lparr>checkouts := checkouts db @ [a], seq := Suc (seq db), draws := Suc (draws db)\<rparr>)))))"

definition fail_attempt :: "checkout_attempt \<Rightarrow> 'z billing_db_scheme \<Rightarrow> 'z billing_db_scheme" where
  "fail_attempt a db = db\<lparr>checkouts := update_where (\<lambda>x. ca_pk x = ca_pk a) (\<lambda>x. x\<lparr>ca_status := A_FAILED\<rparr>) (checkouts db)\<rparr>"

definition record_started :: "tenant \<Rightarrow> checkout_attempt \<Rightarrow> listing \<Rightarrow> tier \<Rightarrow> checkout_result \<Rightarrow> dict \<Rightarrow> 'z billing_db_scheme
    \<Rightarrow> pay_error + string \<times> 'z billing_db_scheme" where
  "record_started tn a fresh t res actor = atomic (\<lambda>db.
     let db1 = db\<lparr>checkouts := update_where (\<lambda>x. ca_pk x = ca_pk a)
            (\<lambda>x. x\<lparr>external_ref := take 200 (cr_external_ref res)\<rparr>) (checkouts db)\<rparr>
     in (case emit BILLING_CHECKOUT_STARTED (ls_public_id fresh) (tn_pk tn)
            [(''plan_id'', JStr (tier_key t)), (''listing_id'', JStr (ls_public_id fresh)),
             (''amount'', jopt JInt (price_minor t)), (''currency'', JStr (currency t))] actor [] [] db1 of
           Inl e \<Rightarrow> Inl (PayAuditError e)
         | Inr (ev, db2) \<Rightarrow> Inr (event_id ev, db2)))"

definition owner_actor :: "user \<Rightarrow> dict" where
  "owner_actor u = [(''type'', JStr ''owner''), (''id'', JStr (usr_public_id u))]"

definition reject_row :: "command_row \<Rightarrow> string \<Rightarrow> string \<Rightarrow> 'z core_db_scheme \<Rightarrow> 'z core_db_scheme" where
  "reject_row row outc reason db = log_conclude row outc [] (Some (JObj [(''reason'', JStr reason)])) None db"

definition run_checkout :: "provider option \<Rightarrow> ('z billing_db_scheme \<Rightarrow> 'z billing_db_scheme) \<Rightarrow> tenant \<Rightarrow> listing \<Rightarrow> user \<Rightarrow> string
    \<Rightarrow> instant \<Rightarrow> dict \<Rightarrow> command_row \<Rightarrow> 'z billing_db_scheme \<Rightarrow> (pay_error + string) \<times> 'z billing_db_scheme" where
  "run_checkout pv net tn l u key now actor row db =
     (case prepare pv tn l u key now db of
        Inl (PaymentRefused reason) \<Rightarrow> (Inl (PaymentRefused reason), reject_row row ''rejected'' reason db)
      | Inl e \<Rightarrow> (Inl e, db)
      | Inr ((a, fresh, t, p), db1) \<Rightarrow>
          (case pv_create_checkout p (checkout_request_of tn a fresh t u) of
             Inl ProviderCrash \<Rightarrow> (Inl (PayProviderError ProviderCrash), net db1)
           | Inl e \<Rightarrow> (Inl (PaymentRefused ''provider_error''),
                        reject_row row ''rejected'' ''provider_error'' (fail_attempt a (net db1)))
           | Inr res \<Rightarrow>
               (case record_started tn a fresh t res actor (net db1) of
                  Inl e \<Rightarrow> (Inl e, net db1)
                | Inr (eid, db2) \<Rightarrow> (Inr (cr_url res), log_conclude row ''applied'' eid None None db2))))"

definition start_checkout :: "(string \<Rightarrow> string) \<Rightarrow> (string \<Rightarrow> string) \<Rightarrow> provider option \<Rightarrow> ('z billing_db_scheme \<Rightarrow> 'z billing_db_scheme)
    \<Rightarrow> tenant \<Rightarrow> listing \<Rightarrow> user \<Rightarrow> string \<Rightarrow> instant \<Rightarrow> 'z billing_db_scheme \<Rightarrow> (pay_error + string) \<times> 'z billing_db_scheme" where
  "start_checkout hmac bucket pv net tn l u key now db =
     (case require_autocommit db of
        Inl e \<Rightarrow> (Inl (PayAuditError e), db)
      | Inr x \<Rightarrow>
          let actor = owner_actor u in
          (case check hmac bucket tn [(''owner'', Some (usr_public_id u), CHECKOUT_RATE)] now db of
             Inl e \<Rightarrow> (Inl (PayAuditError e), db)
           | Inr (verd, db1) \<Rightarrow>
               if \<not> allowed verd then
                 (Inl (RateLimited verd),
                  if first_block verd then
                    let (blocked, db2) = log_received ''billing.start_checkout'' (Some (tn_pk tn)) None actor [] []
                          (Some (JObj [(''listing_id'', JStr (ls_public_id l))])) db1
                    in log_conclude blocked ''blocked'' [] (Some (JObj [(''rate_limited'', jstr (v_rule verd))])) None db2
                  else db1)
               else
                 let (row, db2) = log_received ''billing.start_checkout'' (Some (tn_pk tn)) None actor [] []
                       (Some (JObj [(''listing_id'', JStr (ls_public_id l)), (''tier'', JStr key)])) db1
                 in run_checkout pv net tn l u key now actor row db2))"

subsection \<open>Cancelling\<close>

datatype canceller = ByOwner user | ByOperator operator

definition by_text :: "canceller \<Rightarrow> string" where
  "by_text c = (case c of ByOwner u \<Rightarrow> ''owner'' | ByOperator oper \<Rightarrow> ''operator'')"

definition cancel_actor :: "nat \<Rightarrow> canceller \<Rightarrow> 'z core_db_scheme \<Rightarrow> dict" where
  "cancel_actor tenant c db =
     (case c of ByOwner u \<Rightarrow> owner_actor u | ByOperator oper \<Rightarrow> staff_actor oper (active_membership tenant oper db))"

definition apply_cancel :: "tenant \<Rightarrow> listing \<Rightarrow> string \<Rightarrow> string \<Rightarrow> dict \<Rightarrow> instant \<Rightarrow> 'z billing_db_scheme
    \<Rightarrow> pay_error + string \<times> 'z billing_db_scheme" where
  "apply_cancel tn l by_whom reason actor now = atomic (\<lambda>db.
     case apply_trigger tn (ls_pk l) T_CANCEL now actor []
            (no_params\<lparr>p_canceled_by := by_whom, p_reason := Some (take 200 reason)\<rparr>) db of
       Inl (MachineError (InvalidTransition st tr)) \<Rightarrow> Inl (PaymentRefused ''not_cancelable'')
     | Inl e \<Rightarrow> Inl (PayEscaped e)
     | Inr (out, db1) \<Rightarrow>
         (case emit BILLING_SUBSCRIPTION_CANCELED (ls_public_id l) (tn_pk tn)
                [(''at_period_end'', JBool (to_status out = S_CANCELED)), (''reason'', JStr (take 200 reason)),
                 (''canceled_by'', JStr by_whom), (''listing_id'', JStr (ls_public_id l))] actor [] [] db1 of
            Inl e \<Rightarrow> Inl (PayAuditError e)
          | Inr (ev, db2) \<Rightarrow> Inr (event_id ev, db2)))"

text \<open>Who may cancel, and the entitlement the request is about.\<close>

definition cancel_guard :: "tenant \<Rightarrow> listing \<Rightarrow> canceller \<Rightarrow> membership option \<Rightarrow> 'z billing_db_scheme \<Rightarrow> pay_error + entitlement" where
  "cancel_guard tn l c m db =
     bind_result
       (case c of
          ByOwner u \<Rightarrow> bind_result (owned_listing (tn_pk tn) l u db) (\<lambda>_. Inr ())
        | ByOperator oper \<Rightarrow> (if below_role m then Inl (PaymentRefused ''forbidden'') else Inr ()))
       (\<lambda>_. case find_ent (tn_pk tn) (ls_pk l) db of
          None \<Rightarrow> Inl (PaymentRefused ''not_cancelable'')
        | Some ent \<Rightarrow>
            if ent_status ent \<notin> {S_TRIALING, S_ACTIVE, S_PAST_DUE, S_GRACE} then Inl (PaymentRefused ''not_cancelable'')
            else Inr ent)"

definition ask_provider :: "provider option \<Rightarrow> entitlement \<Rightarrow> pay_error + bool" where
  "ask_provider pv ent =
     (if payment_ref ent = [] then Inr False
      else (case pv of
              None \<Rightarrow> Inl (PaymentRefused ''unavailable'')
            | Some p \<Rightarrow>
                (case pv_cancel_subscription p (payment_ref ent) (ent_status ent \<noteq> S_GRACE) of
                   Inl ProviderCrash \<Rightarrow> Inl (PayProviderError ProviderCrash)
                 | Inl e \<Rightarrow> Inl (PaymentRefused ''provider_error'')
                 | Inr x \<Rightarrow> Inr True)))"

definition cancel_body :: "provider option \<Rightarrow> ('z billing_db_scheme \<Rightarrow> 'z billing_db_scheme) \<Rightarrow> tenant \<Rightarrow> listing \<Rightarrow> canceller
    \<Rightarrow> membership option \<Rightarrow> string \<Rightarrow> dict \<Rightarrow> instant \<Rightarrow> 'z billing_db_scheme \<Rightarrow> (pay_error + string) \<times> 'z billing_db_scheme" where
  "cancel_body pv net tn l c m reason actor now db =
     (case cancel_guard tn l c m db of
        Inl e \<Rightarrow> (Inl e, db)
      | Inr ent \<Rightarrow>
          (case ask_provider pv ent of
             Inl e \<Rightarrow> (Inl e, db)
           | Inr asked \<Rightarrow>
               let db1 = (if asked then net db else db) in
               (case apply_cancel tn l (by_text c) reason actor now db1 of
                  Inl e \<Rightarrow> (Inl e, db1)
                | Inr (eid, db2) \<Rightarrow> (Inr eid, db2))))"

definition cancel_entitlement :: "provider option \<Rightarrow> ('z billing_db_scheme \<Rightarrow> 'z billing_db_scheme) \<Rightarrow> tenant \<Rightarrow> listing \<Rightarrow> canceller
    \<Rightarrow> string \<Rightarrow> instant \<Rightarrow> 'z billing_db_scheme \<Rightarrow> (pay_error + unit) \<times> 'z billing_db_scheme" where
  "cancel_entitlement pv net tn l c reason now db =
     (case require_autocommit db of
        Inl e \<Rightarrow> (Inl (PayAuditError e), db)
      | Inr x \<Rightarrow>
          let m = (case c of ByOwner u \<Rightarrow> None | ByOperator oper \<Rightarrow> active_membership (tn_pk tn) oper db);
              actor = cancel_actor (tn_pk tn) c db;
              (row, db1) = log_received ''entitlement.cancel'' (Some (tn_pk tn)) None actor [] []
                 (Some (JObj [(''listing_id'', JStr (ls_public_id l)), (''by'', JStr (by_text c))])) db
          in (case cancel_body pv net tn l c m reason actor now db1 of
                (Inl (PaymentRefused why), db2) \<Rightarrow>
                  (Inl (PaymentRefused why),
                   reject_row row (if why \<in> {''forbidden'', ''not_owner''} then ''blocked'' else ''rejected'') why db2)
              | (Inl e, db2) \<Rightarrow> (Inl e, db2)
              | (Inr eid, db2) \<Rightarrow> (Inr (), log_conclude row ''applied'' eid None None db2)))"

definition portal_url :: "provider option \<Rightarrow> tenant \<Rightarrow> listing \<Rightarrow> user \<Rightarrow> string \<Rightarrow> 'z billing_db_scheme \<Rightarrow> pay_error + string option" where
  "portal_url pv tn l u return_url db =
     bind_result (owned_listing (tn_pk tn) l u db) (\<lambda>_.
       case (find_ent (tn_pk tn) (ls_pk l) db, pv) of
         (Some ent, Some p) \<Rightarrow>
           if payment_ref ent = [] then Inr None
           else (case pv_portal_url p (payment_ref ent) return_url of
                   Inr u \<Rightarrow> Inr u
                 | Inl ProviderCrash \<Rightarrow> Inl (PayProviderError ProviderCrash)
                 | Inl e \<Rightarrow> Inl (PaymentRefused ''provider_error''))
       | _ \<Rightarrow> Inr None)"

subsection \<open>What a checkout may sell\<close>

lemma prepare_E:
  assumes "prepare pv tn l u key now db = Inr (r, db')"
  obtains p fresh t a where "pv = Some p" "r = (a, fresh, t, p)" "has_absolute_base tn" "pv_available p = Inr True"
    "find_listing (tn_pk tn) (ls_pk l) db = Some fresh" "ls_owner fresh = Some (usr_pk u)" "ls_status fresh \<noteq> L_SUSPENDED"
    "find (\<lambda>t. tier_tenant t = tn_pk tn \<and> tier_key t = key) (tiers db) = Some t"
    "purchasable t" "tier_rank t \<noteq> 0" "\<not> uses_slot t"
    "(case find_ent (tn_pk tn) (ls_pk l) db of None \<Rightarrow> S_NONE | Some e \<Rightarrow> ent_status e) \<in> {S_NONE, S_EXPIRED, S_COMPED, S_CANCELED}"
    "a = new_attempt (tn_pk tn) fresh t (pv_adapter_id p) u now db"
    "db' = db\<lparr>checkouts := checkouts db @ [a], seq := Suc (seq db), draws := Suc (draws db)\<rparr>"
proof -
  let ?db = "db\<lparr>in_atomic := True\<rparr>"
  from assms obtain p fresh t where
    p: "pv = Some p" "has_absolute_base tn" "pv_available p = Inr True"
    and o: "owned_listing (tn_pk tn) l u ?db = Inr fresh"
    and g: "purchase_guard (tn_pk tn) (ls_pk fresh)
        (if key \<noteq> [] then find (\<lambda>t. tier_tenant t = tn_pk tn \<and> tier_key t = key) (tiers db) else None) ?db = Inr t"
    and r: "r = (new_attempt (tn_pk tn) fresh t (pv_adapter_id p) u now ?db, fresh, t, p)"
    and d: "db' = ?db\<lparr>checkouts := checkouts db @ [new_attempt (tn_pk tn) fresh t (pv_adapter_id p) u now ?db],
        seq := Suc (seq db), draws := Suc (draws db)\<rparr>\<lparr>in_atomic := in_atomic db\<rparr>"
    unfolding prepare_def atomic_Inr
    by (auto simp: bind_result_eq_Inr available_def Let_def split: option.splits if_splits sum.splits provider_error.splits)
  have n: "new_attempt (tn_pk tn) fresh t (pv_adapter_id p) u now ?db = new_attempt (tn_pk tn) fresh t (pv_adapter_id p) u now db"
    by (simp add: new_attempt_def draw_ulid_def)
  from o have l: "find_listing (tn_pk tn) (ls_pk l) db = Some fresh" "ls_owner fresh = Some (usr_pk u)" "ls_status fresh \<noteq> L_SUSPENDED"
    by (auto simp: owned_listing_def split: option.splits if_splits)
  have k: "ls_pk fresh = ls_pk l" using find_listing_SomeD [OF l(1)] by simp
  have st: "st \<noteq> S_PAST_DUE \<Longrightarrow> st \<noteq> S_GRACE \<Longrightarrow> st \<noteq> S_TRIALING \<Longrightarrow> st \<noteq> S_ACTIVE \<Longrightarrow>
      st = S_NONE \<or> st = S_EXPIRED \<or> st = S_COMPED \<or> st = S_CANCELED" for st
    by (cases st) auto
  from g have t: "find (\<lambda>t. tier_tenant t = tn_pk tn \<and> tier_key t = key) (tiers db) = Some t"
    "purchasable t" "tier_rank t \<noteq> 0" "\<not> uses_slot t"
    "(case find_ent (tn_pk tn) (ls_pk l) db of None \<Rightarrow> S_NONE | Some e \<Rightarrow> ent_status e) \<in> {S_NONE, S_EXPIRED, S_COMPED, S_CANCELED}"
    by (simp_all add: purchase_guard_def k Let_def st split: if_splits option.splits)
  show ?thesis by (rule that [OF p(1) _ p(2,3) l t refl]) (use r d n in simp_all)
qed

lemma start_checkout_E:
  assumes "start_checkout hmac bucket pv net tn l u key now db = (Inr url, db')"
  obtains row db1 db2 db3 a fresh t p res eid db4 where
    "only_counted db db1" "\<not> in_atomic db"
    "log_received ''billing.start_checkout'' (Some (tn_pk tn)) None (owner_actor u) [] []
        (Some (JObj [(''listing_id'', JStr (ls_public_id l)), (''tier'', JStr key)])) db1 = (row, db2)"
    "prepare pv tn l u key now db2 = Inr ((a, fresh, t, p), db3)"
    "pv_create_checkout p (checkout_request_of tn a fresh t u) = Inr res" "url = cr_url res"
    "record_started tn a fresh t res (owner_actor u) (net db3) = Inr (eid, db4)"
    "db' = log_conclude row ''applied'' eid None None db4"
proof -
  have na: "\<not> in_atomic db" using assms by (auto simp: start_checkout_def require_autocommit_def split: if_splits)
  with assms obtain v db1 where c: "check hmac bucket tn [(''owner'', Some (usr_public_id u), CHECKOUT_RATE)] now db = Inr (v, db1)"
    by (auto simp: start_checkout_def require_autocommit_def Let_def split: sum.splits)
  obtain row db2 where lr: "log_received ''billing.start_checkout'' (Some (tn_pk tn)) None (owner_actor u) [] []
        (Some (JObj [(''listing_id'', JStr (ls_public_id l)), (''tier'', JStr key)])) db1 = (row, db2)" by fastforce
  from assms na c lr have run: "run_checkout pv net tn l u key now (owner_actor u) row db2 = (Inr url, db')"
    by (auto simp: start_checkout_def require_autocommit_def Let_def split: if_splits)
  then obtain a fresh t p db3 where p: "prepare pv tn l u key now db2 = Inr ((a, fresh, t, p), db3)"
    by (auto simp: run_checkout_def split: sum.splits pay_error.splits)
  with run obtain res where r: "pv_create_checkout p (checkout_request_of tn a fresh t u) = Inr res"
    by (auto simp: run_checkout_def split: sum.splits provider_error.splits)
  with run p obtain eid db4 where "record_started tn a fresh t res (owner_actor u) (net db3) = Inr (eid, db4)" "url = cr_url res"
    "db' = log_conclude row ''applied'' eid None None db4"
    by (auto simp: run_checkout_def split: sum.splits)
  with only_counted_check [OF c] na lr p r show ?thesis by (intro that)
qed

lemma before_prepare:
  assumes "only_counted db db1" "log_received cmd tnt ky actor trace orig payload db1 = (row, db2)"
  shows "\<exists>cs n rs. db2 = db\<lparr>counters := cs, seq := n, commands := rs\<rparr> \<and> seq db \<le> n"
proof -
  from assms(1) obtain cs n where d: "db1 = db\<lparr>counters := cs, seq := n\<rparr>" "seq db \<le> n" by (auto simp: only_counted_def)
  have "db2 = db\<lparr>counters := cs, seq := Suc n, commands := commands db @ [row]\<rparr>"
    unfolding log_received_simps(8) [OF assms(2)] by (simp add: d)
  with le_SucI [OF d(2)] show ?thesis by blast
qed

text \<open>A checkout starts only for what core offers: when the command answers with the provider's URL, a provider is
  configured and the tenant has an HTTPS base; the user owns the listing, which is not suspended and has no running
  subscription; the tier is for sale; and the request the provider was given carries the price, currency, interval and
  trial of that tier under an attempt id core drew for it.\<close>
theorem start_checkout_sells_offers:
  assumes "start_checkout hmac bucket pv net tn l u key now db = (Inr url, db')"
  shows "\<exists>p fresh t res req. pv = Some p \<and> pv_available p = Inr True \<and> has_absolute_base tn
    \<and> find_listing (tn_pk tn) (ls_pk l) db = Some fresh \<and> ls_owner fresh = Some (usr_pk u) \<and> ls_status fresh \<noteq> L_SUSPENDED
    \<and> t \<in> set (tiers db) \<and> tier_tenant t = tn_pk tn \<and> tier_key t = key \<and> purchasable t \<and> tier_rank t \<noteq> 0 \<and> \<not> uses_slot t
    \<and> (\<forall>e. find_ent (tn_pk tn) (ls_pk l) db = Some e \<longrightarrow> ent_status e \<notin> {S_TRIALING, S_ACTIVE, S_PAST_DUE, S_GRACE})
    \<and> pv_create_checkout p req = Inr res \<and> url = cr_url res
    \<and> rq_attempt_id req = prefixed ''chk_'' (draw_ulid db) \<and> rq_listing_id req = ls_public_id fresh \<and> rq_tier_key req = key
    \<and> rq_price_minor req = price_minor t \<and> rq_currency req = currency t \<and> rq_interval req = interval t
    \<and> rq_trial_days req = trial_days t"
  using assms
proof (rule start_checkout_E)
  fix row db1 db2 db3 a fresh t p res
  assume c: "only_counted db db1" and lr: "log_received ''billing.start_checkout'' (Some (tn_pk tn)) None (owner_actor u) [] []
        (Some (JObj [(''listing_id'', JStr (ls_public_id l)), (''tier'', JStr key)])) db1 = (row, db2)"
    and p: "prepare pv tn l u key now db2 = Inr ((a, fresh, t, p), db3)"
    and r: "pv_create_checkout p (checkout_request_of tn a fresh t u) = Inr res" "url = cr_url res"
  from before_prepare [OF c lr] obtain cs n rs where d2: "db2 = db\<lparr>counters := cs, seq := n, commands := rs\<rparr>" by blast
  have s: "find_listing x y db2 = find_listing x y db" "find_ent x y db2 = find_ent x y db" "tiers db2 = tiers db"
    "draw_ulid db2 = draw_ulid db" for x y
    by (simp_all add: d2 find_listing_def find_ent_def draw_ulid_def)
  from p show ?thesis
  proof (rule prepare_E, unfold s)
    fix p' fresh' t' a'
    assume *: "pv = Some p'" "(a, fresh, t, p) = (a', fresh', t', p')" "has_absolute_base tn" "pv_available p' = Inr True"
      "find_listing (tn_pk tn) (ls_pk l) db = Some fresh'" "ls_owner fresh' = Some (usr_pk u)" "ls_status fresh' \<noteq> L_SUSPENDED"
      "find (\<lambda>t. tier_tenant t = tn_pk tn \<and> tier_key t = key) (tiers db) = Some t'" "purchasable t'" "tier_rank t' \<noteq> 0" "\<not> uses_slot t'"
      "(case find_ent (tn_pk tn) (ls_pk l) db of None \<Rightarrow> S_NONE | Some e \<Rightarrow> ent_status e) \<in> {S_NONE, S_EXPIRED, S_COMPED, S_CANCELED}"
      "a' = new_attempt (tn_pk tn) fresh' t' (pv_adapter_id p') u now db2"
    from find_SomeD [OF *(8)] have t: "t' \<in> set (tiers db)" "tier_tenant t' = tn_pk tn" "tier_key t' = key" by auto
    show ?thesis
      by (intro exI [of _ p'] exI [of _ fresh'] exI [of _ t'] exI [of _ res] exI [of _ "checkout_request_of tn a' fresh' t' u"])
        (use * t r in \<open>auto simp: checkout_request_of_def new_attempt_def s\<close>)
  qed
qed

subsection \<open>From the checkout to the entitlement\<close>

lemma record_started_effect:
  assumes "record_started tn a fresh t res actor db = Inr (eid, db')"
  shows "db' = db\<lparr>checkouts := update_where (\<lambda>x. ca_pk x = ca_pk a)
            (\<lambda>x. x\<lparr>external_ref := take 200 (cr_external_ref res)\<rparr>) (checkouts db),
       outbox := outbox db', seq := Suc (seq db), draws := Suc (draws db)\<rparr>"
  using assms unfolding record_started_def atomic_Inr
  by (auto simp: Let_def emit_def split: sum.splits prod.splits if_splits)


subsection \<open>Cancelling asks the provider first\<close>

lemma cancel_body_Inr:
  assumes "cancel_body pv net tn l c m reason actor now db = (Inr eid, db')"
  obtains ent asked db1 where "cancel_guard tn l c m db = Inr ent" "ask_provider pv ent = Inr asked"
    "db1 = (if asked then net db else db)" "apply_cancel tn l (by_text c) reason actor now db1 = Inr (eid, db')"
  using assms by (auto simp: cancel_body_def Let_def split: sum.splits)

lemma cancel_entitlement_Inr:
  assumes "cancel_entitlement pv net tn l c reason now db = (Inr u, db')"
  obtains row db1 eid db2 where "\<not> in_atomic db"
    "log_received ''entitlement.cancel'' (Some (tn_pk tn)) None (cancel_actor (tn_pk tn) c db) [] []
       (Some (JObj [(''listing_id'', JStr (ls_public_id l)), (''by'', JStr (by_text c))])) db = (row, db1)"
    "cancel_body pv net tn l c (case c of ByOwner u \<Rightarrow> None | ByOperator oper \<Rightarrow> active_membership (tn_pk tn) oper db) reason
       (cancel_actor (tn_pk tn) c db) now db1 = (Inr eid, db2)"
    "db' = log_conclude row ''applied'' eid None None db2"
proof -
  have na: "\<not> in_atomic db" using assms by (auto simp: cancel_entitlement_def require_autocommit_def split: if_splits)
  obtain row db1 where lr: "log_received ''entitlement.cancel'' (Some (tn_pk tn)) None (cancel_actor (tn_pk tn) c db) [] []
       (Some (JObj [(''listing_id'', JStr (ls_public_id l)), (''by'', JStr (by_text c))])) db = (row, db1)" by fastforce
  obtain r db2 where b: "cancel_body pv net tn l c (case c of ByOwner u \<Rightarrow> None | ByOperator oper \<Rightarrow> active_membership (tn_pk tn) oper db)
       reason (cancel_actor (tn_pk tn) c db) now db1 = (r, db2)" by fastforce
  from assms na lr b obtain eid where "r = Inr eid" "db' = log_conclude row ''applied'' eid None None db2"
    by (auto simp: cancel_entitlement_def require_autocommit_def Let_def split: sum.splits pay_error.splits)
  with na lr b show ?thesis by (intro that) auto
qed

lemma apply_cancel_ent:
  assumes "db_ok db" "apply_cancel tn l by_whom reason actor now db = Inr (eid, db')"
  shows "\<exists>x. find_ent (tn_pk tn) (ls_pk l) db' = Some x \<and> ent_status x \<in> {S_CANCELED, S_EXPIRED}"
proof -
  let ?db = "db\<lparr>in_atomic := True\<rparr>"
  from assms(2) obtain out db1 where
    a: "apply_trigger tn (ls_pk l) T_CANCEL now actor [] (no_params\<lparr>p_canceled_by := by_whom, p_reason := Some (take 200 reason)\<rparr>) ?db = Inr (out, db1)"
    and e: "entitlements db' = entitlements db1"
    unfolding apply_cancel_def atomic_Inr
    by (fastforce simp: emit_def Let_def split: sum.splits prod.splits ent_error.splits machine_error.splits if_splits)
  have "db_ok ?db" using assms(1) by simp
  from apply_trigger_ent [OF this a] obtain x r x' fs fs' h u where
    "mutate T_CANCEL r x fs now (no_params\<lparr>p_canceled_by := by_whom, p_reason := Some (take 200 reason)\<rparr>) = Inr (x', fs')"
    "find_ent (tn_pk tn) (ls_pk l) db1 = Some (x'\<lparr>ent_updated_at := u, hidden_by_expiry := h\<rparr>)" by blast
  then show ?thesis by (auto simp: e find_ent_def mutate_cancel_def Let_def split: if_splits)
qed

text \<open>C13: Core never marks a subscription cancelled while the provider would go on charging it: when
  \<^verbatim>\<open>entitlement.cancel\<close> succeeds, the caller owned the listing or was a manager, the entitlement was running, and if it
  carries a payment reference the provider was asked (at the period's end, at once from grace) and accepted. The stored row
  is then cancelled, or expired. Other transactions may commit anything that keeps the keys unique while the provider is
  asked.\<close>
theorem cancel_asks_provider_first:
  assumes "db_ok db" and "\<And>d. db_ok d \<Longrightarrow> db_ok (net d)"
    and "cancel_entitlement pv net tn l c reason now db = (Inr u, db')"
  shows "\<exists>ent x. find_ent (tn_pk tn) (ls_pk l) db = Some ent \<and> ent_status ent \<in> {S_TRIALING, S_ACTIVE, S_PAST_DUE, S_GRACE}
    \<and> (payment_ref ent \<noteq> [] \<longrightarrow> (\<exists>p. pv = Some p \<and> pv_cancel_subscription p (payment_ref ent) (ent_status ent \<noteq> S_GRACE) = Inr ()))
    \<and> (case c of
         ByOwner usr \<Rightarrow> (\<exists>fresh. find_listing (tn_pk tn) (ls_pk l) db = Some fresh \<and> ls_owner fresh = Some (usr_pk usr))
       | ByOperator oper \<Rightarrow> (\<exists>mb. active_membership (tn_pk tn) oper db = Some mb \<and> ROLE_MANAGER \<le> mb_role mb))
    \<and> find_ent (tn_pk tn) (ls_pk l) db' = Some x \<and> ent_status x \<in> {S_CANCELED, S_EXPIRED}"
  using assms(3)
proof (rule cancel_entitlement_Inr)
  fix row db1 eid db2
  assume lr: "log_received ''entitlement.cancel'' (Some (tn_pk tn)) None (cancel_actor (tn_pk tn) c db) [] []
       (Some (JObj [(''listing_id'', JStr (ls_public_id l)), (''by'', JStr (by_text c))])) db = (row, db1)"
    and b: "cancel_body pv net tn l c (case c of ByOwner u \<Rightarrow> None | ByOperator oper \<Rightarrow> active_membership (tn_pk tn) oper db) reason
       (cancel_actor (tn_pk tn) c db) now db1 = (Inr eid, db2)"
    and d': "db' = log_conclude row ''applied'' eid None None db2"
  note s = log_received_simps(8) [OF lr]
  have same: "find_ent x y db1 = find_ent x y db" "find_listing x y db1 = find_listing x y db" for x y
    by (simp_all add: s find_ent_def find_listing_def)
  have ok1: "db_ok db1" using assms(1) by (auto simp: s db_ok_def)
  from b show ?thesis
  proof (rule cancel_body_Inr)
    fix ent asked db1'
    assume g: "cancel_guard tn l c (case c of ByOwner u \<Rightarrow> None | ByOperator oper \<Rightarrow> active_membership (tn_pk tn) oper db) db1 = Inr ent"
      and k: "ask_provider pv ent = Inr asked" and i: "db1' = (if asked then net db1 else db1)"
      and a: "apply_cancel tn l (by_text c) reason (cancel_actor (tn_pk tn) c db) now db1' = Inr (eid, db2)"
    have "db_ok db1'" using ok1 assms(2) by (simp add: i)
    from apply_cancel_ent [OF this a] obtain x where x: "find_ent (tn_pk tn) (ls_pk l) db' = Some x" "ent_status x \<in> {S_CANCELED, S_EXPIRED}"
      by (auto simp: d' find_ent_def log_conclude_def)
    from k have "payment_ref ent \<noteq> [] \<longrightarrow> (\<exists>p. pv = Some p \<and> pv_cancel_subscription p (payment_ref ent) (ent_status ent \<noteq> S_GRACE) = Inr ())"
      by (auto simp: ask_provider_def split: if_splits option.splits sum.splits provider_error.splits)
    moreover from g have "find_ent (tn_pk tn) (ls_pk l) db = Some ent \<and> ent_status ent \<in> {S_TRIALING, S_ACTIVE, S_PAST_DUE, S_GRACE}"
      by (auto simp: cancel_guard_def bind_result_eq_Inr same split: option.splits if_splits)
    moreover from g have "case c of
         ByOwner usr \<Rightarrow> (\<exists>fresh. find_listing (tn_pk tn) (ls_pk l) db = Some fresh \<and> ls_owner fresh = Some (usr_pk usr))
       | ByOperator oper \<Rightarrow> (\<exists>mb. active_membership (tn_pk tn) oper db = Some mb \<and> ROLE_MANAGER \<le> mb_role mb)"
      by (cases c) (auto simp: cancel_guard_def bind_result_eq_Inr owned_listing_def below_role_def MANAGE_ROLE_def same
          split: option.splits if_splits)
    ultimately show ?thesis using x by blast
  qed
qed

subsection \<open>A sample checkout and a sample cancellation\<close>

definition sample_provider :: provider where
  "sample_provider = \<lparr>pv_adapter_id = ''stripe'', pv_available = Inr True,
     pv_create_checkout = (\<lambda>r. Inr \<lparr>cr_url = ''https://pay.example/1'', cr_external_ref = ''cs_1''\<rparr>),
     pv_cancel_subscription = (\<lambda>ref at_end. Inr ()), pv_portal_url = (\<lambda>ref url. Inr None)\<rparr>"

lemma sample_rate:
  "\<exists>db1. check (\<lambda>s. s) (\<lambda>s. s) sample_tenant [(''owner'', Some (usr_public_id sample_user), CHECKOUT_RATE)] sample_now (sample_db es)
     = Inr (allow, db1) \<and> only_counted (sample_db es) db1"
proof -
  have "usr_public_id sample_user \<noteq> []" by (simp add: sample_user_def)
  then have "\<exists>db1. check (\<lambda>s. s) (\<lambda>s. s) sample_tenant [(''owner'', Some (usr_public_id sample_user), CHECKOUT_RATE)] sample_now (sample_db es)
     = Inr (allow, db1)"
    unfolding CHECKOUT_RATE_def
    by (subst check_single) (simp_all add: Let_def hit_result count_of_def sample_db_def)
  then show ?thesis using only_counted_check by blast
qed

lemma sample_prepare:
  assumes "db2 = (sample_db [])\<lparr>counters := cs, seq := n, commands := rs\<rparr>"
  shows "\<exists>a db3. prepare (Some sample_provider) sample_tenant sample_listing sample_user ''gold'' sample_now db2
     = Inr ((a, sample_listing, sample_tier, sample_provider), db3)"
proof -
  have "available (Some sample_provider) sample_tenant = Inr True"
    by (simp add: available_def sample_provider_def has_absolute_base_def sample_tenant_def)
  moreover have "owned_listing (tn_pk sample_tenant) sample_listing sample_user (db2\<lparr>in_atomic := True\<rparr>) = Inr sample_listing"
    by (simp add: owned_listing_def assms find_listing_def sample_db_def sample_tenant_def sample_listing_def sample_user_def)
  moreover have "purchase_guard (tn_pk sample_tenant) (ls_pk sample_listing) (Some sample_tier) (db2\<lparr>in_atomic := True\<rparr>) = Inr sample_tier"
    by (simp add: purchase_guard_def assms sample_db_def find_ent_def sample_tier_def)
  moreover have "find (\<lambda>t. tier_tenant t = tn_pk sample_tenant \<and> tier_key t = ''gold'') (tiers db2) = Some sample_tier"
    by (simp add: assms sample_tenant_def sample_tier_def)
  ultimately show ?thesis unfolding prepare_def atomic_Inr by (simp add: Let_def)
qed

lemma sample_checkout:
  "\<exists>db'. start_checkout (\<lambda>s. s) (\<lambda>s. s) (Some sample_provider) (\<lambda>d. d) sample_tenant sample_listing sample_user ''gold'' sample_now (sample_db [])
     = (Inr ''https://pay.example/1'', db')"
proof -
  from sample_rate obtain db1 where c: "check (\<lambda>s. s) (\<lambda>s. s) sample_tenant [(''owner'', Some (usr_public_id sample_user), CHECKOUT_RATE)]
      sample_now (sample_db []) = Inr (allow, db1)" and oc: "only_counted (sample_db []) db1" by blast
  obtain row db2 where lr: "log_received ''billing.start_checkout'' (Some (tn_pk sample_tenant)) None (owner_actor sample_user) [] []
        (Some (JObj [(''listing_id'', JStr (ls_public_id sample_listing)), (''tier'', JStr ''gold'')])) db1 = (row, db2)" by fastforce
  from before_prepare [OF oc lr] sample_prepare obtain a db3 where
    p: "prepare (Some sample_provider) sample_tenant sample_listing sample_user ''gold'' sample_now db2
     = Inr ((a, sample_listing, sample_tier, sample_provider), db3)" by blast
  have cc: "pv_create_checkout sample_provider req = Inr \<lparr>cr_url = ''https://pay.example/1'', cr_external_ref = ''cs_1''\<rparr>" for req
    by (simp add: sample_provider_def)
  have "\<exists>eid db4. record_started sample_tenant a sample_listing sample_tier res actor db3 = Inr (eid, db4)" for res actor
    unfolding record_started_def atomic_Inr by (simp add: Let_def emit_def)
  then obtain eid db4 where r: "record_started sample_tenant a sample_listing sample_tier
      \<lparr>cr_url = ''https://pay.example/1'', cr_external_ref = ''cs_1''\<rparr> (owner_actor sample_user) db3 = Inr (eid, db4)" by blast
  have run: "run_checkout (Some sample_provider) (\<lambda>d. d) sample_tenant sample_listing sample_user ''gold'' sample_now (owner_actor sample_user) row db2
      = (Inr ''https://pay.example/1'', log_conclude row ''applied'' eid None None db4)"
    unfolding run_checkout_def p by (simp add: cc r)
  have "\<not> in_atomic (sample_db [])" "allowed allow" by (simp_all add: allow_def)
  with c lr run show ?thesis by (simp add: start_checkout_def require_autocommit_def)
qed

theorem start_checkout_sells_offers_witness:
  "\<exists>p t. Some sample_provider = Some p \<and> t \<in> set (tiers (sample_db [])) \<and> tier_key t = ''gold'' \<and> purchasable t"
proof -
  from sample_checkout obtain db' where "start_checkout (\<lambda>s. s) (\<lambda>s. s) (Some sample_provider) (\<lambda>d. d) sample_tenant sample_listing
      sample_user ''gold'' sample_now (sample_db []) = (Inr ''https://pay.example/1'', db')" by blast
  from start_checkout_sells_offers [OF this] show ?thesis by auto
qed


definition sample_paid :: billing_db where
  "sample_paid = sample_db [(sample_ent S_ACTIVE)\<lparr>payment_ref := [(''external_id'', JStr ''sub_1'')]\<rparr>]"

lemma sample_cancel:
  "\<exists>db'. cancel_entitlement (Some sample_provider) (\<lambda>d. d) sample_tenant sample_listing (ByOwner sample_user) ''closing'' sample_now sample_paid
     = (Inr (), db')"
proof -
  let ?ent = "(sample_ent S_ACTIVE)\<lparr>payment_ref := [(''external_id'', JStr ''sub_1'')]\<rparr>"
  let ?c = "ByOwner sample_user"
  have lp: "ls_pk sample_listing = 10" by (simp add: sample_listing_def)
  obtain row db1 where lr: "log_received ''entitlement.cancel'' (Some (tn_pk sample_tenant)) None (cancel_actor (tn_pk sample_tenant) ?c sample_paid)
      [] [] (Some (JObj [(''listing_id'', JStr (ls_public_id sample_listing)), (''by'', JStr (by_text ?c))])) sample_paid = (row, db1)" by fastforce
  note s = log_received_simps(8) [OF lr]
  let ?p = "no_params\<lparr>p_canceled_by := ''owner'', p_reason := Some (take 200 ''closing'')\<rparr>"
  let ?db = "db1\<lparr>in_atomic := True\<rparr>"
  have fe: "find_ent (tn_pk sample_tenant) 10 d = Some ?ent" if "entitlements d = [?ent]" for d :: billing_db
    using that by (simp add: find_ent_def sample_tenant_def sample_ent_def)
  have fl: "find_listing (tn_pk sample_tenant) 10 d = Some sample_listing" if "listings d = [sample_listing]" for d :: billing_db
    using that by (simp add: find_listing_def sample_tenant_def sample_listing_def)
  have e1: "entitlements db1 = [?ent]" "listings db1 = [sample_listing]" by (simp_all add: s sample_paid_def sample_db_def)
  have lc: "load_or_create sample_tenant 10 T_CANCEL ?p (?db\<lparr>in_atomic := True\<rparr>) = Inr (?ent, ?db\<lparr>in_atomic := True\<rparr>)"
    by (simp add: load_or_create_def fe e1)
  have r: "rule_for (ent_status ?ent) T_CANCEL = Inr (mk_rule S_CANCELED [CANCELED] [] [] ''7'')" by (simp add: machine_simps)
  have fl1: "find_listing (tn_pk sample_tenant) 10 ?db = Some sample_listing" by (simp add: fl e1)
  from apply_trigger_total [OF fl1 lc r, of sample_now "cancel_actor (tn_pk sample_tenant) ?c sample_paid" "[]"] obtain out db2 where
    a: "apply_trigger sample_tenant 10 T_CANCEL sample_now (cancel_actor (tn_pk sample_tenant) ?c sample_paid) [] ?p ?db = Inr (out, db2)"
    by (auto simp: CLOCK_TRIGGERS_def mutate_cancel_def Let_def)
  then have "\<exists>eid db3. apply_cancel sample_tenant sample_listing (by_text ?c) ''closing'' (cancel_actor (tn_pk sample_tenant) ?c sample_paid) sample_now db1
      = Inr (eid, db3)"
    unfolding apply_cancel_def atomic_Inr by (simp add: lp by_text_def emit_def Let_def)
  then obtain eid db3 where ac: "apply_cancel sample_tenant sample_listing (by_text ?c) ''closing''
      (cancel_actor (tn_pk sample_tenant) ?c sample_paid) sample_now db1 = Inr (eid, db3)" by blast
  have "owned_listing (tn_pk sample_tenant) sample_listing sample_user db1 = Inr sample_listing"
    by (simp add: owned_listing_def lp fl e1) (simp add: sample_listing_def sample_user_def)
  then have g: "cancel_guard sample_tenant sample_listing ?c m db1 = Inr ?ent" for m
    by (simp add: cancel_guard_def lp fe e1)
  have k: "ask_provider (Some sample_provider) ?ent = Inr True" by (simp add: ask_provider_def sample_provider_def)
  have "cancel_body (Some sample_provider) (\<lambda>d. d) sample_tenant sample_listing ?c m ''closing''
      (cancel_actor (tn_pk sample_tenant) ?c sample_paid) sample_now db1 = (Inr eid, db3)" for m
    by (simp add: cancel_body_def g k ac)
  moreover have "\<not> in_atomic sample_paid" by (simp add: sample_paid_def)
  ultimately show ?thesis using lr by (simp add: cancel_entitlement_def require_autocommit_def)
qed

theorem cancel_asks_provider_first_witness:
  "\<exists>db' x. cancel_entitlement (Some sample_provider) (\<lambda>d. d) sample_tenant sample_listing (ByOwner sample_user) ''closing'' sample_now sample_paid
     = (Inr (), db') \<and> find_ent (tn_pk sample_tenant) (ls_pk sample_listing) db' = Some x \<and> ent_status x \<in> {S_CANCELED, S_EXPIRED}"
proof -
  from sample_cancel obtain db' where c: "cancel_entitlement (Some sample_provider) (\<lambda>d. d) sample_tenant sample_listing
      (ByOwner sample_user) ''closing'' sample_now sample_paid = (Inr (), db')" by blast
  have "db_ok sample_paid" by (simp add: sample_paid_def db_ok_def sample_ent_def sample_db_def)
  from cancel_asks_provider_first [OF this _ c] c show ?thesis by auto
qed

end
