(* ===== verification/Tick.thy ===== *)
theory Tick
  imports Prelude
begin

section \<open>The worker tick registry\<close>

text \<open>
  \<^verbatim>\<open>audit/worker/tick.py\<close>: \<^verbatim>\<open>TickRegistry\<close> with \<open>register\<close>, \<open>due_job\<close> (\<^verbatim>\<open>_due\<close>) and \<open>run_due\<close>. A job is a function of the pass's
  clock and of the state \<open>'d\<close> it works on; one that raises an \<^verbatim>\<open>Exception\<close> gives \<open>Inl\<close> of the text \<^verbatim>\<open>Class: message\<close>, and whatever it
  wrote before. The dictionary of jobs is the list in registration order, \<^verbatim>\<open>_last_run\<close> a map and \<^verbatim>\<open>_backlog\<close> a set of names.
\<close>

record tick_result =
  tick_done :: nat
  tick_more :: bool

record 'd tick_job =
  tj_name :: string
  tj_fn :: "instant \<Rightarrow> 'd \<Rightarrow> (string + tick_result option) \<times> 'd"
  tj_every :: duration

record tick_stats =
  jobs_run :: nat
  units_done :: nat
  ts_more :: bool
  failures :: "string list"

record 'd tick_registry =
  tr_jobs :: "'d tick_job list"
  last_run :: "string \<rightharpoonup> instant"
  backlog :: "string set"

datatype tick_error = AlreadyRegistered string | CadenceNotPositive string

definition empty_registry :: "'d tick_registry" where
  "empty_registry = \<lparr>tr_jobs = [], last_run = Map.empty, backlog = {}\<rparr>"

definition register_job :: "string \<Rightarrow> (instant \<Rightarrow> 'd \<Rightarrow> (string + tick_result option) \<times> 'd) \<Rightarrow> duration \<Rightarrow> 'd tick_registry
    \<Rightarrow> tick_error + 'd tick_registry" where
  "register_job name fn every reg =
     (if name \<in> tj_name ` set (tr_jobs reg) then Inl (AlreadyRegistered name)
      else if every \<le> 0 then Inl (CadenceNotPositive name)
      else Inr (reg\<lparr>tr_jobs := tr_jobs reg @ [\<lparr>tj_name = name, tj_fn = fn, tj_every = every\<rparr>]\<rparr>))"

definition due_job :: "'d tick_registry \<Rightarrow> instant \<Rightarrow> 'd tick_job \<Rightarrow> bool" where
  "due_job reg now j \<longleftrightarrow> tj_name j \<in> backlog reg
     \<or> (case last_run reg (tj_name j) of None \<Rightarrow> True | Some t \<Rightarrow> tj_every j \<le> now - t)"

text \<open>The two writes before a job is called.\<close>

definition stamp_run :: "string \<Rightarrow> instant \<Rightarrow> 'd tick_registry \<Rightarrow> 'd tick_registry" where
  "stamp_run name now reg = reg\<lparr>last_run := (last_run reg)(name \<mapsto> now), backlog := backlog reg - {name}\<rparr>"

definition note_result :: "string \<Rightarrow> tick_result option \<Rightarrow> 'd tick_registry \<Rightarrow> tick_stats \<Rightarrow> 'd tick_registry \<times> tick_stats" where
  "note_result name res reg st =
     (let st1 = st\<lparr>jobs_run := Suc (jobs_run st)\<rparr> in
      case res of
        None \<Rightarrow> (reg, st1)
      | Some r \<Rightarrow>
          let st2 = st1\<lparr>units_done := units_done st1 + tick_done r\<rparr>
          in if tick_more r then (reg\<lparr>backlog := insert name (backlog reg)\<rparr>, st2\<lparr>ts_more := True\<rparr>) else (reg, st2))"

fun run_jobs :: "instant \<Rightarrow> 'd tick_job list \<Rightarrow> 'd tick_registry \<Rightarrow> tick_stats \<Rightarrow> 'd \<Rightarrow> 'd tick_registry \<times> tick_stats \<times> 'd" where
  "run_jobs now [] reg st db = (reg, st, db)"
| "run_jobs now (j # js) reg st db =
     (if \<not> due_job reg now j then run_jobs now js reg st db
      else (case tj_fn j now db of
              (Inl exc, db1) \<Rightarrow>
                run_jobs now js (stamp_run (tj_name j) now reg) (st\<lparr>failures := failures st @ [tj_name j @ '': '' @ exc]\<rparr>) db1
            | (Inr res, db1) \<Rightarrow>
                (case note_result (tj_name j) res (stamp_run (tj_name j) now reg) st of
                   (reg1, st1) \<Rightarrow> run_jobs now js reg1 st1 db1)))"

definition no_stats :: tick_stats where
  "no_stats = \<lparr>jobs_run = 0, units_done = 0, ts_more = False, failures = []\<rparr>"

definition run_due :: "instant \<Rightarrow> 'd tick_registry \<Rightarrow> 'd \<Rightarrow> 'd tick_registry \<times> tick_stats \<times> 'd" where
  "run_due now reg db = run_jobs now (tr_jobs reg) reg no_stats db"

subsection \<open>Names stay unique\<close>

definition registry_ok :: "'d tick_registry \<Rightarrow> bool" where
  "registry_ok reg \<longleftrightarrow> distinct (map tj_name (tr_jobs reg)) \<and> (\<forall>j \<in> set (tr_jobs reg). 0 < tj_every j)"

lemma registry_ok_empty [simp]: "registry_ok empty_registry"
  by (simp add: registry_ok_def empty_registry_def)

lemma registry_ok_register: "registry_ok reg \<Longrightarrow> register_job name fn every reg = Inr reg' \<Longrightarrow> registry_ok reg'"
  by (auto simp: registry_ok_def register_job_def split: if_splits)

lemma note_result_jobs [simp]: "tr_jobs (fst (note_result name res reg st)) = tr_jobs reg"
  by (simp add: note_result_def Let_def split: option.split)

lemma stamp_run_jobs [simp]: "tr_jobs (stamp_run name now reg) = tr_jobs reg"
  by (simp add: stamp_run_def)

lemma run_jobs_jobs: "tr_jobs (fst (run_jobs now js reg st db)) = tr_jobs reg"
proof (induction js arbitrary: reg st db)
  case (Cons j js)
  show ?case
    by (simp add: Cons.IH case_prod_beta split: sum.split)
qed simp

subsection \<open>The reference: select the due jobs, then run them\<close>

fun exec_jobs :: "instant \<Rightarrow> 'd tick_job list \<Rightarrow> 'd \<Rightarrow> (string \<times> (string + tick_result option)) list \<times> 'd" where
  "exec_jobs now [] db = ([], db)"
| "exec_jobs now (j # js) db =
     (let (r, db1) = tj_fn j now db; (rs, db2) = exec_jobs now js db1 in ((tj_name j, r) # rs, db2))"

definition said_more :: "string + tick_result option \<Rightarrow> bool" where
  "said_more r = (case r of Inr (Some t) \<Rightarrow> tick_more t | _ \<Rightarrow> False)"

definition units_of :: "string + tick_result option \<Rightarrow> nat" where
  "units_of r = (case r of Inr (Some t) \<Rightarrow> tick_done t | _ \<Rightarrow> 0)"

definition summarise :: "(string \<times> (string + tick_result option)) list \<Rightarrow> tick_stats \<Rightarrow> tick_stats" where
  "summarise rs st =
     \<lparr>jobs_run = jobs_run st + length (filter (\<lambda>(n, r). \<not> isl r) rs),
      units_done = units_done st + sum_list (map (units_of \<circ> snd) rs),
      ts_more = (ts_more st \<or> list_ex (said_more \<circ> snd) rs),
      failures = failures st @ map (\<lambda>(n, r). n @ '': '' @ projl r) (filter (isl \<circ> snd) rs)\<rparr>"

text \<open>The registry after the results: a job that ran is stamped, and is in the backlog exactly when it said there is more.\<close>

definition after_run :: "instant \<Rightarrow> (string \<times> (string + tick_result option)) list \<Rightarrow> 'd tick_registry \<Rightarrow> 'd tick_registry" where
  "after_run now rs reg =
     fold (\<lambda>(n, r) g. (stamp_run n now g)\<lparr>backlog := (if said_more r then insert n (backlog g) else backlog g - {n})\<rparr>) rs reg"

lemma summarise_Nil [simp]: "summarise [] st = st"
  by (simp add: summarise_def)

lemma summarise_fail:
  "summarise rs (st\<lparr>failures := failures st @ [n @ CHR '':'' # CHR '' '' # e]\<rparr>) = summarise ((n, Inl e) # rs) st"
  by (simp add: summarise_def units_of_def said_more_def)

lemma note_result_summary:
  assumes "note_result n res (stamp_run n now reg) st = (reg1, st1)"
  shows "summarise rs st1 = summarise ((n, Inr res) # rs) st"
    and "reg1 = (stamp_run n now reg)\<lparr>backlog := (if said_more (Inr res) then insert n (backlog reg) else backlog reg - {n})\<rparr>"
  using assms
  by (auto simp: note_result_def summarise_def units_of_def said_more_def stamp_run_def Let_def split: option.splits if_splits)

lemma due_job_other:
  "tj_name j \<noteq> n \<Longrightarrow> due_job ((stamp_run n now reg)\<lparr>backlog := (if m then insert n (backlog reg) else backlog reg - {n})\<rparr>) t j
     = due_job reg t j"
  by (simp add: due_job_def stamp_run_def)

lemma stamp_run_backlog: "stamp_run n now reg = (stamp_run n now reg)\<lparr>backlog := backlog reg - {n}\<rparr>"
  by (simp add: stamp_run_def)

lemma run_jobs_reference:
  assumes "distinct (map tj_name js)"
  shows "run_jobs now js reg st db =
    (let (rs, db') = exec_jobs now (filter (due_job reg now) js) db in (after_run now rs reg, summarise rs st, db'))"
  using assms
proof (induction js arbitrary: reg st db)
  case Nil
  show ?case by (simp add: after_run_def)
next
  case (Cons j js)
  from Cons.prems have d: "distinct (map tj_name js)" by simp
  have new: "tj_name x \<noteq> tj_name j" if "x \<in> set js" for x using Cons.prems imageI [OF that, of tj_name] by auto
  show ?case
  proof (cases "due_job reg now j")
    case False
    with Cons.IH [OF d] show ?thesis by simp
  next
    case True
    obtain r db1 where r: "tj_fn j now db = (r, db1)" by fastforce
    let ?reg = "(stamp_run (tj_name j) now reg)\<lparr>backlog := (if said_more r then insert (tj_name j) (backlog reg) else backlog reg - {tj_name j})\<rparr>"
    have f: "filter (due_job ?reg now) js = filter (due_job reg now) js"
      by (rule filter_cong) (auto simp only: due_job_other [OF new])
    obtain rs db2 where e: "exec_jobs now (filter (due_job reg now) js) db1 = (rs, db2)" by fastforce
    have step: "run_jobs now js ?reg st1 db1 = (after_run now ((tj_name j, r) # rs) reg, summarise rs st1, db2)" for st1
      by (simp add: Cons.IH [OF d] f e after_run_def del: if_split)
    show ?thesis
    proof (cases r)
      case (Inl exc)
      then have "?reg = stamp_run (tj_name j) now reg" by (simp add: said_more_def stamp_run_def)
      with step True r Inl e show ?thesis by (simp add: summarise_fail)
    next
      case (Inr res)
      obtain reg1 st1 where n: "note_result (tj_name j) res (stamp_run (tj_name j) now reg) st = (reg1, st1)" by fastforce
      from note_result_summary [OF n] step True r Inr e n show ?thesis by (simp del: if_split)
    qed
  qed
qed

lemma exec_jobs_names: "map fst (fst (exec_jobs now js db)) = map tj_name js"
proof (induction js arbitrary: db)
  case (Cons j js)
  obtain r db1 where "tj_fn j now db = (r, db1)" by fastforce
  with Cons.IH [of db1] show ?case by (simp add: case_prod_beta)
qed simp

lemma after_run_Cons:
  "after_run now ((n, r) # rs) reg =
     after_run now rs ((stamp_run n now reg)\<lparr>backlog := (if said_more r then insert n (backlog reg) else backlog reg - {n})\<rparr>)"
  by (simp add: after_run_def)

lemma due_after_run_other: "tj_name j \<notin> fst ` set rs \<Longrightarrow> due_job (after_run now rs reg) t j = due_job reg t j"
proof (induction rs arbitrary: reg)
  case Nil
  show ?case by (simp add: after_run_def)
next
  case (Cons x rs)
  obtain n r where x: "x = (n, r)" by fastforce
  with Cons.prems have "tj_name j \<noteq> n" "tj_name j \<notin> fst ` set rs" by auto
  then show ?case unfolding x after_run_Cons by (simp add: Cons.IH due_job_other del: if_split)
qed

lemma due_after_run:
  "distinct (map fst rs) \<Longrightarrow> (tj_name j, r) \<in> set rs \<Longrightarrow>
   due_job (after_run now rs reg) t j \<longleftrightarrow> said_more r \<or> tj_every j \<le> t - now"
proof (induction rs arbitrary: reg)
  case (Cons x rs)
  obtain n r' where x: "x = (n, r')" by fastforce
  show ?case
  proof (cases "n = tj_name j")
    case True
    then have nin: "tj_name j \<notin> fst ` set rs" using Cons.prems(1) by (simp add: x)
    then have "(tj_name j, r) \<notin> set rs" by force
    with Cons.prems(2) have "r' = r" by (simp add: x)
    with nin True show ?thesis unfolding x after_run_Cons
      by (simp add: due_after_run_other del: if_split) (simp add: due_job_def stamp_run_def)
  next
    case False
    with Cons show ?thesis unfolding x after_run_Cons by (simp del: if_split)
  qed
qed simp

subsection \<open>Property\<close>

text \<open>C38: One call of \<^verbatim>\<open>run_due\<close> runs exactly the jobs that were due when it began, each once and in registration order, whatever
  the jobs before them did or raised; its statistics are the sum of what they reported, with one failure line for each that
  raised. Afterwards a job that ran is due again only once its cadence has passed or if it said there is more, and a job that
  did not run is due when it was before.\<close>
theorem run_due_runs_due_jobs:
  assumes "registry_ok reg" and "run_due now reg db = (reg', st, db')"
  shows "\<exists>rs. exec_jobs now (filter (due_job reg now) (tr_jobs reg)) db = (rs, db') \<and> st = summarise rs no_stats \<and> registry_ok reg'
    \<and> map fst rs = map tj_name (filter (due_job reg now) (tr_jobs reg))
    \<and> (\<forall>j \<in> set (tr_jobs reg). \<forall>t. due_job reg' t j \<longleftrightarrow>
         (if due_job reg now j then tj_every j \<le> t - now \<or> (\<exists>r. (tj_name j, r) \<in> set rs \<and> said_more r) else due_job reg t j))"
proof -
  let ?js = "filter (due_job reg now) (tr_jobs reg)"
  have d: "distinct (map tj_name (tr_jobs reg))" using assms(1) by (simp add: registry_ok_def)
  then have inj: "inj_on tj_name (set (tr_jobs reg))" by (simp add: distinct_map)
  obtain rs db2 where e: "exec_jobs now ?js db = (rs, db2)" by fastforce
  have run: "reg' = after_run now rs reg" "st = summarise rs no_stats" "db' = db2"
    using assms(2) run_jobs_reference [OF d, of now reg no_stats db] by (simp_all add: run_due_def e)
  have names: "map fst rs = map tj_name ?js" using exec_jobs_names [of now ?js db] by (simp add: e)
  then have dr: "distinct (map fst rs)" using d by (simp add: distinct_map_filter)
  have "tr_jobs reg' = tr_jobs reg" using assms(2) run_jobs_jobs [of now "tr_jobs reg" reg no_stats db] by (simp add: run_due_def)
  then have ok: "registry_ok reg'" using assms(1) by (simp add: registry_ok_def)
  have "due_job reg' t j \<longleftrightarrow> (if due_job reg now j then tj_every j \<le> t - now \<or> (\<exists>r. (tj_name j, r) \<in> set rs \<and> said_more r)
      else due_job reg t j)" if j: "j \<in> set (tr_jobs reg)" for j t
  proof (cases "due_job reg now j")
    case True
    with j have "tj_name j \<in> set (map fst rs)" unfolding names by simp
    then obtain r where r: "(tj_name j, r) \<in> set rs" by auto
    then have "(tj_name j, r') \<in> set rs \<longleftrightarrow> r' = r" for r' using dr by (auto dest: eq_key_imp_eq_value)
    with due_after_run [OF dr r] True show ?thesis unfolding run by auto
  next
    case False
    have "tj_name j \<notin> set (map fst rs)" unfolding names using j False inj by (auto dest: inj_onD)
    then show ?thesis unfolding run using False by (subst due_after_run_other) simp_all
  qed
  with e run ok names show ?thesis by blast
qed

theorem run_due_runs_due_jobs_witness:
  "\<exists>st db' reg'. run_due 100 (empty_registry\<lparr>tr_jobs := [\<lparr>tj_name = ''a'', tj_fn = (\<lambda>now d. (Inl ''ValueError: x'', d)), tj_every = 60\<rparr>,
        \<lparr>tj_name = ''b'', tj_fn = (\<lambda>now d. (Inr (Some \<lparr>tick_done = 2, tick_more = True\<rparr>), Suc d)), tj_every = 60\<rparr>]\<rparr>) (0::nat) = (reg', st, db')
     \<and> st = \<lparr>jobs_run = 1, units_done = 2, ts_more = True, failures = [''a: ValueError: x'']\<rparr> \<and> db' = 1"
proof -
  let ?a = "\<lparr>tj_name = ''a'', tj_fn = (\<lambda>now d. (Inl ''ValueError: x'', d)), tj_every = 60\<rparr> :: nat tick_job"
  let ?b = "\<lparr>tj_name = ''b'', tj_fn = (\<lambda>now d. (Inr (Some \<lparr>tick_done = 2, tick_more = True\<rparr>), Suc d)), tj_every = 60\<rparr> :: nat tick_job"
  let ?reg = "(empty_registry :: nat tick_registry)\<lparr>tr_jobs := [?a, ?b]\<rparr>"
  obtain reg' st db' where r: "run_due 100 ?reg (0::nat) = (reg', st, db')" by (metis prod_cases3)
  have ok: "registry_ok ?reg" by (simp add: registry_ok_def)
  have due: "due_job ?reg 100 ?a" "due_job ?reg 100 ?b" by (simp_all add: due_job_def empty_registry_def)
  from run_due_runs_due_jobs [OF ok r] due have "st = summarise [(''a'', Inl ''ValueError: x''), (''b'', Inr (Some \<lparr>tick_done = 2, tick_more = True\<rparr>))] no_stats"
    "db' = 1" by auto
  with r show ?thesis by (auto simp: summarise_def no_stats_def units_of_def said_more_def)
qed

end
