(* ===== verification/Billing_Jobs.thy ===== *)
theory Billing_Jobs
  imports Transitions Tick
begin

section \<open>The clock's jobs\<close>

text \<open>
  \<^verbatim>\<open>billing/jobs.py\<close>: the pass that applies the due clock triggers and the pass that announces
  renewals. Each pass selects its rows once and then works on them one transaction at a time, so
  other transactions run in between: \<open>env i\<close> is what they do to the database before the \<open>i\<close>-th row
  (the identity when nothing interferes). An exception that escapes a pass ends it, and the rows
  already committed stay: a pass returns its result or exception together with the database.
\<close>

subsection \<open>The job of the clock triggers\<close>

definition CHUNK :: nat where
  "CHUNK = 200"

definition due_q :: "instant \<Rightarrow> entitlement \<Rightarrow> bool" where
  "due_q now e \<longleftrightarrow>
     ent_status e = S_PAST_DUE \<and> at_or_before (dunning_ends_at e) now
   \<or> ent_status e = S_GRACE \<and> at_or_before (grace_ends_at e) now
   \<or> ent_status e = S_CANCELED \<and> at_or_before (current_period_end e) now
   \<or> ent_status e = S_COMPED \<and> at_or_before (comp_expires_at e) now
   \<or> ent_status e = S_ACTIVE \<and> ent_billing_mode e = B_TERM \<and> at_or_before (current_period_end e) now
   \<or> ent_status e = S_TRIALING \<and> at_or_before (trial_ends_at e) (now - TRIAL_OVERDUE)"

definition trigger_for :: "entitlement \<Rightarrow> instant \<Rightarrow> trigger option" where
  "trigger_for e now = find (\<lambda>tr. is_due e tr now) CLOCK_TRIGGERS"

text \<open>\<^verbatim>\<open>select_related\<close> joins the tenant and the listing of each row.\<close>

definition joined :: "'z billing_db_scheme \<Rightarrow> entitlement \<Rightarrow> (tenant \<times> nat) option" where
  "joined db e = (case find_by tn_pk (ent_tenant e) (tenants db) of
     None \<Rightarrow> None
   | Some tn \<Rightarrow> if ent_listing e \<in> ls_pk ` set (listings db) then Some (tn, ent_listing e) else None)"

definition select_rows :: "(entitlement \<Rightarrow> bool) \<Rightarrow> 'z billing_db_scheme \<Rightarrow> (entitlement \<times> tenant) list" where
  "select_rows P db = take CHUNK (List.map_filter (\<lambda>e. map_option (\<lambda>(tn, l). (e, tn)) (joined db e))
     (filter P (entitlements db)))"

fun transitions_loop :: "(nat \<Rightarrow> 'z billing_db_scheme \<Rightarrow> 'z billing_db_scheme) \<Rightarrow> instant \<Rightarrow> nat
    \<Rightarrow> (entitlement \<times> tenant) list \<Rightarrow> nat \<Rightarrow> 'z billing_db_scheme \<Rightarrow> (ent_error + nat) \<times> 'z billing_db_scheme" where
  "transitions_loop env now i [] cnt db = (Inr cnt, db)"
| "transitions_loop env now i ((ent, tn) # rows) cnt db =
     (case trigger_for ent now of
        None \<Rightarrow> transitions_loop env now (Suc i) rows cnt db
      | Some tr \<Rightarrow>
          let db1 = env i db in
          (case apply_trigger tn (ent_listing ent) tr now SYSTEM_ACTOR [] no_params db1 of
             Inr (out, db2) \<Rightarrow> transitions_loop env now (Suc i) rows (Suc cnt) db2
           | Inl (MachineError (NotDue tr')) \<Rightarrow> transitions_loop env now (Suc i) rows cnt db1
           | Inl e \<Rightarrow> (Inl e, db1)))"

definition entitlement_transitions :: "(nat \<Rightarrow> 'z billing_db_scheme \<Rightarrow> 'z billing_db_scheme) \<Rightarrow> instant
    \<Rightarrow> 'z billing_db_scheme \<Rightarrow> (ent_error + tick_result) \<times> 'z billing_db_scheme" where
  "entitlement_transitions env now db =
     (let rows = select_rows (due_q now) db in
      (case transitions_loop env now 0 rows 0 db of
         (Inl e, db') \<Rightarrow> (Inl e, db')
       | (Inr cnt, db') \<Rightarrow> (Inr \<lparr>tick_done = cnt, tick_more = (length rows = CHUNK)\<rparr>, db')))"

subsection \<open>The renewal notices\<close>

definition renewal_q :: "instant \<Rightarrow> entitlement \<Rightarrow> bool" where
  "renewal_q now e \<longleftrightarrow> ent_status e = S_ACTIVE \<and> ent_billing_mode e = B_TERM \<and> renewal_notified_at e = None
     \<and> (case current_period_end e of None \<Rightarrow> False | Some t \<Rightarrow> now < t \<and> t \<le> now + RENEWAL_NOTICE)"

definition save_notified :: "entitlement \<Rightarrow> instant \<Rightarrow> 'z billing_db_scheme \<Rightarrow> 'z billing_db_scheme" where
  "save_notified e now db =
     db\<lparr>entitlements := update_where (\<lambda>x. ent_pk x = ent_pk e)
         (\<lambda>x. x\<lparr>renewal_notified_at := Some now, ent_updated_at := wall db\<rparr>) (entitlements db)\<rparr>"

definition notify_renewal :: "tenant \<Rightarrow> entitlement \<Rightarrow> instant \<Rightarrow> 'z billing_db_scheme
    \<Rightarrow> ent_error + bool \<times> 'z billing_db_scheme" where
  "notify_renewal tn ent now = atomic (\<lambda>db.
     case find (\<lambda>x. ent_tenant x = tn_pk tn \<and> ent_pk x = ent_pk ent) (entitlements db) of
       None \<Rightarrow> Inr (False, db)
     | Some locked \<Rightarrow>
         (case current_period_end locked of
            None \<Rightarrow> Inr (False, db)
          | Some ends \<Rightarrow>
              if ent_status locked \<noteq> S_ACTIVE \<or> renewal_notified_at locked \<noteq> None \<or> ends \<le> now then Inr (False, db)
              else
                (case find_by ls_pk (ent_listing ent) (listings db) of
                   None \<Rightarrow> Inl ListingDoesNotExist
                 | Some l \<Rightarrow>
                     bind_result
                       (lift_audit (emit ENTITLEMENT_RENEWAL_DUE (ent_public_id locked) (tn_pk tn)
                         [(''entitlement_id'', JStr (ent_public_id locked)), (''listing_id'', JStr (ls_public_id l)),
                          (''days_remaining'', JInt (max 0 (days_of (ends - now)))),
                          (''term_days'', jopt JInt (term_days locked))]
                         SYSTEM_ACTOR [] [] (save_notified locked now db)))
                       (\<lambda>(ev, db'). Inr (True, db')))))"

fun renewal_loop :: "(nat \<Rightarrow> 'z billing_db_scheme \<Rightarrow> 'z billing_db_scheme) \<Rightarrow> instant \<Rightarrow> nat
    \<Rightarrow> (entitlement \<times> tenant) list \<Rightarrow> nat \<Rightarrow> 'z billing_db_scheme \<Rightarrow> (ent_error + nat) \<times> 'z billing_db_scheme" where
  "renewal_loop env now i [] cnt db = (Inr cnt, db)"
| "renewal_loop env now i ((ent, tn) # rows) cnt db =
     (let db1 = env i db in
      (case notify_renewal tn ent now db1 of
         Inl e \<Rightarrow> (Inl e, db1)
       | Inr (sent, db2) \<Rightarrow> renewal_loop env now (Suc i) rows (if sent then Suc cnt else cnt) db2))"

definition renewal_notices :: "(nat \<Rightarrow> 'z billing_db_scheme \<Rightarrow> 'z billing_db_scheme) \<Rightarrow> instant
    \<Rightarrow> 'z billing_db_scheme \<Rightarrow> (ent_error + tick_result) \<times> 'z billing_db_scheme" where
  "renewal_notices env now db =
     (let rows = select_rows (renewal_q now) db in
      (case renewal_loop env now 0 rows 0 db of
         (Inl e, db') \<Rightarrow> (Inl e, db')
       | (Inr cnt, db') \<Rightarrow> (Inr \<lparr>tick_done = cnt, tick_more = (length rows = CHUNK)\<rparr>, db')))"

subsection \<open>The query and the predicate agree\<close>

lemma trigger_for_Some: "trigger_for e now = Some tr \<Longrightarrow> tr \<in> set CLOCK_TRIGGERS \<and> is_due e tr now"
  by (auto simp: trigger_for_def dest: find_SomeD)

lemma trigger_for_None: "trigger_for e now = None \<longleftrightarrow> (\<forall>tr \<in> set CLOCK_TRIGGERS. \<not> is_due e tr now)"
  by (auto simp: trigger_for_def find_None_iff)

lemma overdue_shift:
  "at_or_before (trial_ends_at e) (now - TRIAL_OVERDUE)
   = at_or_before (map_option (\<lambda>t. t + TRIAL_OVERDUE) (trial_ends_at e)) now"
  by (auto simp: at_or_before_def split: option.splits)

lemma due_q_iff: "due_q now e \<longleftrightarrow> (\<exists>tr \<in> set CLOCK_TRIGGERS. is_due e tr now)"
  by (auto simp: due_q_def CLOCK_TRIGGERS_def overdue_shift)

text \<open>C15: The rows the job selects in SQL are exactly the rows for which a clock trigger is due, and the
  trigger it picks is the one due trigger.\<close>
theorem due_query_equals_predicate:
  "due_q now e \<longleftrightarrow> (\<exists>tr. trigger_for e now = Some tr
     \<and> (\<forall>tr' \<in> set CLOCK_TRIGGERS. is_due e tr' now \<longleftrightarrow> tr' = tr))"
proof
  assume "due_q now e"
  then have "trigger_for e now \<noteq> None" by (auto simp: due_q_iff trigger_for_None)
  then obtain tr where tr: "trigger_for e now = Some tr" by blast
  with trigger_for_Some [OF tr] show "\<exists>tr. trigger_for e now = Some tr
     \<and> (\<forall>tr' \<in> set CLOCK_TRIGGERS. is_due e tr' now \<longleftrightarrow> tr' = tr)" by (auto dest: due_unique)
next
  assume "\<exists>tr. trigger_for e now = Some tr \<and> (\<forall>tr' \<in> set CLOCK_TRIGGERS. is_due e tr' now \<longleftrightarrow> tr' = tr)"
  then show "due_q now e" by (auto simp: due_q_iff dest: trigger_for_Some)
qed

theorem due_query_equals_predicate_witness:
  "\<exists>tr. trigger_for (sample_ent S_PAST_DUE) sample_now = Some tr
     \<and> (\<forall>tr' \<in> set CLOCK_TRIGGERS. is_due (sample_ent S_PAST_DUE) tr' sample_now \<longleftrightarrow> tr' = tr)"
proof -
  have "due_q sample_now (sample_ent S_PAST_DUE)" by (simp add: due_q_def)
  then show ?thesis by (simp only: due_query_equals_predicate)
qed

subsection \<open>A pass without interference\<close>

text \<open>The foreign keys of the entitlement table.\<close>

definition refs_ok :: "'z billing_db_scheme \<Rightarrow> bool" where
  "refs_ok db \<longleftrightarrow> (\<forall>e \<in> set (entitlements db).
     find_listing (ent_tenant e) (ent_listing e) db \<noteq> None \<and> find_by tn_pk (ent_tenant e) (tenants db) \<noteq> None)"

lemma find_listing_other:
  assumes "filter (\<lambda>x. ls_pk x \<noteq> lpk) (listings db') = filter (\<lambda>x. ls_pk x \<noteq> lpk) (listings db)" "k \<noteq> lpk"
  shows "find_listing tn k db' = find_listing tn k db"
proof -
  have h: "find (\<lambda>l. ls_tenant l = tn \<and> ls_pk l = k) xs
      = find (\<lambda>l. ls_tenant l = tn \<and> ls_pk l = k) (filter (\<lambda>x. ls_pk x \<noteq> lpk) xs)" for xs
    by (rule find_filter [symmetric]) (use assms(2) in auto)
  from h [of "listings db'"] h [of "listings db"] assms(1) show ?thesis by (simp only: find_listing_def)
qed

lemma refs_ok_step:
  assumes ok: "refs_ok db" "db_ok db'" and fr: "billing_frame db db'"
    and new: "find_ent tn lpk db' = Some new" "find_listing tn lpk db' \<noteq> None" "find_by tn_pk tn (tenants db) \<noteq> None"
    and ents: "filter (\<lambda>x. ent_listing x \<noteq> lpk) (entitlements db') = filter (\<lambda>x. ent_listing x \<noteq> lpk) (entitlements db)"
    and lst: "filter (\<lambda>x. ls_pk x \<noteq> lpk) (listings db') = filter (\<lambda>x. ls_pk x \<noteq> lpk) (listings db)"
  shows "refs_ok db'"
  unfolding refs_ok_def
proof
  fix x assume x: "x \<in> set (entitlements db')"
  have tns: "tenants db' = tenants db" using fr by (simp add: billing_frame_def)
  show "find_listing (ent_tenant x) (ent_listing x) db' \<noteq> None \<and> find_by tn_pk (ent_tenant x) (tenants db') \<noteq> None"
  proof (cases "ent_listing x = lpk")
    case True
    with x ok(2) find_ent_SomeD [OF new(1)] have "x = new" by (auto simp: db_ok_def intro: distinct_map_eqD)
    with find_ent_SomeD [OF new(1)] True new(2,3) show ?thesis by (simp add: tns)
  next
    case False
    with x have "x \<in> set (filter (\<lambda>x. ent_listing x \<noteq> lpk) (entitlements db'))" by simp
    with ents have "x \<in> set (entitlements db)" by simp
    with False ok(1) show ?thesis by (auto simp: refs_ok_def tns find_listing_other [OF lst])
  qed
qed

lemma DUNNING_GRACE_pos [simp]: "\<not> DUNNING \<le> 0" "\<not> GRACE \<le> 0"
  by (simp_all add: time_simps)

lemma mutate_clock_not_due:
  assumes "tr \<in> set CLOCK_TRIGGERS" "is_due e tr now" "mutate tr r e fs now p = Inr (e', fs')"
  shows "\<not> due_q now e'"
  using assms
  by (cases tr) (auto simp: CLOCK_TRIGGERS_def due_q_def mutate_payment_failed_def Let_def)

lemma due_q_flag [simp]: "due_q now (flag_step db tn ent l e) = due_q now e"
  "due_q now (e\<lparr>ent_updated_at := t\<rparr>) = due_q now e"
  by (simp_all add: due_q_def flag_step_def)

text \<open>One row of the pass.\<close>

lemma clock_row:
  assumes ok: "db_ok db" "refs_ok db" and e: "e \<in> set (entitlements db)" "tn_pk tn = ent_tenant e"
    and tr: "trigger_for e now = Some tr"
  obtains out db' where "apply_trigger tn (ent_listing e) tr now SYSTEM_ACTOR [] no_params db = Inr (out, db')"
    "db_ok db'" "refs_ok db'"
    "filter (\<lambda>x. ent_listing x \<noteq> ent_listing e) (entitlements db') = filter (\<lambda>x. ent_listing x \<noteq> ent_listing e) (entitlements db)"
    "filter (due_q now) (entitlements db') = filter (\<lambda>x. ent_listing x \<noteq> ent_listing e) (filter (due_q now) (entitlements db))"
proof -
  note due = trigger_for_Some [OF tr]
  have fe: "find_ent (tn_pk tn) (ent_listing e) db = Some e"
    using ok(1) e by (intro find_ent_unique) (simp_all add: db_ok_def)
  from ok(2) e obtain l where l: "find_listing (tn_pk tn) (ent_listing e) db = Some l" by (auto simp: refs_ok_def)
  from clock_trigger_applies [OF l fe, of tr now SYSTEM_ACTOR "[]" no_params] due obtain out db'
    where a: "apply_trigger tn (ent_listing e) tr now SYSTEM_ACTOR [] no_params db = Inr (out, db')" by blast
  show thesis
  proof (rule apply_trigger_rows [OF ok(1) a], rule that [OF a])
    fix ent r ent' l2 fs fs'
    assume f: "find_ent (tn_pk tn) (ent_listing e) db = Some ent \<or> (find_ent (tn_pk tn) (ent_listing e) db = None \<and> tr \<in> set CREATING
           \<and> (\<exists>t. p_tier no_params = Some t \<and> ent = blank_ent (tn_pk tn) (ent_listing e) t (db\<lparr>in_atomic := True\<rparr>)))"
      and m: "mutate tr r ent fs now no_params = Inr (ent', fs')"
      and fe': "find_ent (tn_pk tn) (ent_listing e) db' = Some (flag_step db tn ent' l2 (ent'\<lparr>ent_updated_at := wall db\<rparr>))"
      and fl': "find_listing (tn_pk tn) (ent_listing e) db' =
        Some (visibility_step db tn ent' l2 (tier_step (wall db) (effective_tier db (tn_pk tn) ent') l2 l2))"
      and ok': "db_ok db'" and fr: "billing_frame db db'"
      and ents: "filter (\<lambda>x. ent_listing x \<noteq> ent_listing e) (entitlements db') = filter (\<lambda>x. ent_listing x \<noteq> ent_listing e) (entitlements db)"
      and lst: "filter (\<lambda>x. ls_pk x \<noteq> ent_listing e) (listings db') = filter (\<lambda>x. ls_pk x \<noteq> ent_listing e) (listings db)"
    show "db_ok db'" by (rule ok')
    show "filter (\<lambda>x. ent_listing x \<noteq> ent_listing e) (entitlements db') = filter (\<lambda>x. ent_listing x \<noteq> ent_listing e) (entitlements db)"
      by (rule ents)
    let ?new = "flag_step db tn ent' l2 (ent'\<lparr>ent_updated_at := wall db\<rparr>)"
    have only: "x = ?new" if "x \<in> set (entitlements db')" "ent_listing x = ent_listing e" for x
      using that ok' find_ent_SomeD [OF fe'] by (auto simp: db_ok_def intro: distinct_map_eqD)
    have "find_by tn_pk (tn_pk tn) (tenants db) \<noteq> None" using ok(2) e by (auto simp: refs_ok_def)
    with fl' show "refs_ok db'" by (intro refs_ok_step [OF ok(2) ok' fr fe' _ _ ents lst]) auto
    have nd: "\<not> due_q now ?new" using mutate_clock_not_due [OF _ _ m] f fe due by simp
    have "filter (due_q now) (entitlements db') = filter (due_q now) (filter (\<lambda>x. ent_listing x \<noteq> ent_listing e) (entitlements db'))"
      unfolding filter_filter by (intro filter_cong refl) (use only nd in metis)
    then show "filter (due_q now) (entitlements db') = filter (\<lambda>x. ent_listing x \<noteq> ent_listing e) (filter (due_q now) (entitlements db))"
      unfolding ents by (simp add: conj_commute)
  qed
qed

lemma transitions_loop_complete:
  assumes "db_ok db" "refs_ok db" "distinct (map (\<lambda>p. ent_listing (fst p)) rows)"
    "\<forall>(e, tn) \<in> set rows. e \<in> set (entitlements db) \<and> tn_pk tn = ent_tenant e \<and> due_q now e"
  shows "\<exists>db'. transitions_loop (\<lambda>_ d. d) now i rows cnt db = (Inr (cnt + length rows), db') \<and> db_ok db' \<and> refs_ok db'
    \<and> filter (due_q now) (entitlements db')
      = filter (\<lambda>x. ent_listing x \<notin> (\<lambda>p. ent_listing (fst p)) ` set rows) (filter (due_q now) (entitlements db))"
  using assms
proof (induction rows arbitrary: i cnt db)
  case Nil
  then show ?case by simp
next
  case (Cons row rows)
  obtain e tn where row: "row = (e, tn)" by (cases row)
  from Cons.prems(4) have e: "e \<in> set (entitlements db)" "tn_pk tn = ent_tenant e" "due_q now e" by (auto simp: row)
  from e(3) have "trigger_for e now \<noteq> None" by (auto simp: due_q_iff trigger_for_None)
  then obtain tr where tr: "trigger_for e now = Some tr" by blast
  from Cons.prems(1,2) e(1,2) tr obtain out db1
    where a: "apply_trigger tn (ent_listing e) tr now SYSTEM_ACTOR [] no_params db = Inr (out, db1)"
      and ok1: "db_ok db1" "refs_ok db1"
      and ents: "filter (\<lambda>x. ent_listing x \<noteq> ent_listing e) (entitlements db1) = filter (\<lambda>x. ent_listing x \<noteq> ent_listing e) (entitlements db)"
      and due: "filter (due_q now) (entitlements db1) = filter (\<lambda>x. ent_listing x \<noteq> ent_listing e) (filter (due_q now) (entitlements db))"
    by (rule clock_row)
  have rest: "\<forall>(e', tn') \<in> set rows. e' \<in> set (entitlements db1) \<and> tn_pk tn' = ent_tenant e' \<and> due_q now e'"
  proof clarify
    fix e' tn' assume m: "(e', tn') \<in> set rows"
    with Cons.prems(3) have "ent_listing e' \<noteq> ent_listing e" by (force simp: row)
    moreover from m Cons.prems(4) have x: "e' \<in> set (entitlements db)" "tn_pk tn' = ent_tenant e'" "due_q now e'" by auto
    ultimately have "e' \<in> set (filter (\<lambda>x. ent_listing x \<noteq> ent_listing e) (entitlements db1))" unfolding ents by simp
    with x show "e' \<in> set (entitlements db1) \<and> tn_pk tn' = ent_tenant e' \<and> due_q now e'" by simp
  qed
  from Cons.prems(3) have "distinct (map (\<lambda>p. ent_listing (fst p)) rows)" by simp
  from Cons.IH [OF ok1 this rest, of "Suc i" "Suc cnt"] obtain db'
    where db': "transitions_loop (\<lambda>_ d. d) now (Suc i) rows (Suc cnt) db1 = (Inr (Suc cnt + length rows), db')" "db_ok db'" "refs_ok db'"
      "filter (due_q now) (entitlements db')
      = filter (\<lambda>x. ent_listing x \<notin> (\<lambda>p. ent_listing (fst p)) ` set rows) (filter (due_q now) (entitlements db1))"
    by blast
  have "filter (due_q now) (entitlements db')
      = filter (\<lambda>x. ent_listing x \<notin> (\<lambda>p. ent_listing (fst p)) ` set (row # rows)) (filter (due_q now) (entitlements db))"
    unfolding db'(4) due filter_filter by (intro filter_cong refl) (auto simp: row)
  with db' a tr show ?case by (simp add: row)
qed

lemma filter_take_drop:
  "distinct (map f xs) \<Longrightarrow> filter (\<lambda>x. f x \<notin> f ` set (take n xs)) xs = drop n xs"
proof (induction xs arbitrary: n)
  case (Cons x xs)
  show ?case
  proof (cases n)
    case (Suc m)
    have "filter (\<lambda>y. f y \<notin> f ` set (take (Suc m) (x # xs))) xs = filter (\<lambda>y. f y \<notin> f ` set (take m xs)) xs"
      using Cons.prems by (intro filter_cong) (auto, metis imageI)
    with Cons Suc show ?thesis by simp
  qed simp
qed simp

lemma map_filter_Some: "(\<And>x. x \<in> set xs \<Longrightarrow> f x = Some (g x)) \<Longrightarrow> List.map_filter f xs = map g xs"
  by (induction xs) (simp_all add: List.map_filter_simps)

lemma select_rows_refs:
  assumes "refs_ok db"
  shows "select_rows P db = map (\<lambda>e. (e, the (find_by tn_pk (ent_tenant e) (tenants db)))) (take CHUNK (filter P (entitlements db)))"
proof -
  have "joined db e = Some (the (find_by tn_pk (ent_tenant e) (tenants db)), ent_listing e)" if "e \<in> set (entitlements db)" for e
  proof -
    from assms that obtain l tn where l: "find_listing (ent_tenant e) (ent_listing e) db = Some l"
      and "find_by tn_pk (ent_tenant e) (tenants db) = Some tn" by (auto simp: refs_ok_def)
    with find_listing_SomeD [OF l] show ?thesis by (force simp: joined_def)
  qed
  then have "List.map_filter (\<lambda>e. map_option (\<lambda>(tn, l). (e, tn)) (joined db e)) (filter P (entitlements db))
      = map (\<lambda>e. (e, the (find_by tn_pk (ent_tenant e) (tenants db)))) (filter P (entitlements db))"
    by (intro map_filter_Some) simp
  then show ?thesis by (simp add: select_rows_def take_map)
qed


lemma sample_refs_ok [simp]: "refs_ok (sample_db [sample_ent st])"
  by (simp add: refs_ok_def sample_db_def sample_ent_def find_listing_def sample_listing_def sample_tenant_def)


subsection \<open>A payment between the selection and the lock\<close>

text \<open>When a payment recovers a past-due entitlement after the job selected it, \<^verbatim>\<open>apply_trigger\<close> refuses the
  dunning trigger as an invalid transition and not as not due; the job lets that exception escape, and the
  rows after it are not worked on.\<close>
theorem recovered_row_aborts_pass:
  assumes "ent_status ent = S_PAST_DUE" and "due_q now ent"
    and "find_ent (tn_pk tn) (ent_listing ent) (env i db) = Some e" and "ent_status e = S_ACTIVE"
    and "find_listing (tn_pk tn) (ent_listing ent) (env i db) \<noteq> None"
  shows "transitions_loop env now i ((ent, tn) # rows) cnt db
    = (Inl (MachineError (InvalidTransition S_ACTIVE T_DUNNING_ELAPSED)), env i db)
    \<and> \<not> is_due e T_DUNNING_ELAPSED now"
proof -
  from assms(1,2) have "trigger_for ent now = Some T_DUNNING_ELAPSED"
    by (simp add: trigger_for_def CLOCK_TRIGGERS_def due_q_def)
  moreover have "apply_trigger tn (ent_listing ent) T_DUNNING_ELAPSED now SYSTEM_ACTOR [] no_params (env i db)
      = Inl (MachineError (InvalidTransition S_ACTIVE T_DUNNING_ELAPSED))"
    using assms(3-5)
    by (auto simp: apply_trigger_def atomic_def apply_body_def load_or_create_def machine_simps)
  ultimately show ?thesis using assms(4) by simp
qed

theorem recovered_row_aborts_pass_witness:
  "transitions_loop (\<lambda>_ d. d\<lparr>entitlements := [sample_ent S_ACTIVE]\<rparr>) sample_now 0 [(sample_ent S_PAST_DUE, sample_tenant)] 0
     (sample_db [sample_ent S_PAST_DUE])
   = (Inl (MachineError (InvalidTransition S_ACTIVE T_DUNNING_ELAPSED)), sample_db [sample_ent S_ACTIVE])"
proof -
  have e: "(sample_db [sample_ent S_PAST_DUE])\<lparr>entitlements := [sample_ent S_ACTIVE]\<rparr> = sample_db [sample_ent S_ACTIVE]"
    by (simp add: sample_db_def)
  have l: "ent_listing (sample_ent st) = 10" for st by (simp add: sample_ent_def)
  have "due_q sample_now (sample_ent S_PAST_DUE)" by (simp add: due_q_def)
  with recovered_row_aborts_pass [of "sample_ent S_PAST_DUE" sample_now sample_tenant
      "\<lambda>_ d. d\<lparr>entitlements := [sample_ent S_ACTIVE]\<rparr>" 0 "sample_db [sample_ent S_PAST_DUE]" "sample_ent S_ACTIVE" "[]" 0]
  show ?thesis by (simp add: e l)
qed

subsection \<open>Renewal notices\<close>

lemma notify_renewal_True:
  assumes "notify_renewal tn ent now db = Inr (True, db')"
  shows "\<exists>x ends. find (\<lambda>x. ent_tenant x = tn_pk tn \<and> ent_pk x = ent_pk ent) (entitlements db) = Some x
    \<and> current_period_end x = Some ends
    \<and> entitlements db' = update_where (\<lambda>y. ent_pk y = ent_pk x)
        (\<lambda>y. y\<lparr>renewal_notified_at := Some now, ent_updated_at := wall db\<rparr>) (entitlements db)
    \<and> (\<exists>ev. outbox db' = outbox db @ [ev] \<and> ev_type ev = ENTITLEMENT_RENEWAL_DUE
        \<and> dict_get (ev_data ev) ''days_remaining'' = Some (JInt (max 0 (days_of (ends - now)))))"
  using assms
  by (auto simp: notify_renewal_def atomic_def bind_result_def emit_def Let_def lift_audit_def save_notified_def
      dict_get_def split: option.splits if_splits sum.splits)

text \<open>A renewal is announced once a period: after \<^verbatim>\<open>_notify_renewal\<close> announced it, the row carries the time, exactly
  one \<^verbatim>\<open>entitlement.renewal_due\<close> was written with a non-negative number of days, and a second attempt on the row
  writes nothing.\<close>
theorem notify_renewal_once:
  assumes "db_ok db" and "notify_renewal tn ent now db = Inr (True, db')"
  shows "(\<exists>ev. outbox db' = outbox db @ [ev] \<and> ev_type ev = ENTITLEMENT_RENEWAL_DUE
      \<and> (\<exists>n. 0 \<le> n \<and> dict_get (ev_data ev) ''days_remaining'' = Some (JInt n)))
    \<and> (\<exists>e \<in> set (entitlements db'). ent_pk e = ent_pk ent \<and> renewal_notified_at e = Some now)
    \<and> notify_renewal tn ent now' db' = Inr (False, db')"
proof -
  let ?u = "\<lambda>y. y\<lparr>renewal_notified_at := Some now, ent_updated_at := wall db\<rparr>"
  from notify_renewal_True [OF assms(2)] obtain x ends where
    x: "find (\<lambda>x. ent_tenant x = tn_pk tn \<and> ent_pk x = ent_pk ent) (entitlements db) = Some x"
    and ends: "current_period_end x = Some ends"
    and ents: "entitlements db' = update_where (\<lambda>y. ent_pk y = ent_pk x) ?u (entitlements db)"
    and ob: "\<exists>ev. outbox db' = outbox db @ [ev] \<and> ev_type ev = ENTITLEMENT_RENEWAL_DUE
        \<and> dict_get (ev_data ev) ''days_remaining'' = Some (JInt (max 0 (days_of (ends - now))))"
    by blast
  from find_SomeD [OF x] have xm: "x \<in> set (entitlements db)" and xp: "ent_pk x = ent_pk ent" by auto
  have mem: "?u x \<in> set (entitlements db')" unfolding ents using xm by (rule update_where_mem) simp
  have fnd: "find (\<lambda>y. ent_tenant y = tn_pk tn \<and> ent_pk y = ent_pk ent) (entitlements db') = Some (?u x)"
    unfolding ents by (subst find_update_where_keep) (simp_all add: x xp)
  have "notify_renewal tn ent now' db' = Inr (False, db')"
    unfolding notify_renewal_def atomic_def by (simp add: fnd ends)
  moreover have "\<exists>e \<in> set (entitlements db'). ent_pk e = ent_pk ent \<and> renewal_notified_at e = Some now"
    by (rule bexI [OF _ mem]) (simp add: xp)
  moreover have "\<exists>ev. outbox db' = outbox db @ [ev] \<and> ev_type ev = ENTITLEMENT_RENEWAL_DUE
      \<and> (\<exists>n. 0 \<le> n \<and> dict_get (ev_data ev) ''days_remaining'' = Some (JInt n))"
    using ob by (meson max.cobounded1)
  ultimately show ?thesis by blast
qed

definition sample_term :: entitlement where
  "sample_term = (sample_ent S_ACTIVE)\<lparr>ent_billing_mode := B_TERM, term_days := Some 365,
     current_period_end := Some (sample_now + days 5)\<rparr>"

theorem notify_renewal_once_witness:
  "\<exists>db'. notify_renewal sample_tenant sample_term sample_now (sample_db [sample_term]) = Inr (True, db')
    \<and> notify_renewal sample_tenant sample_term (sample_now + days 1) db' = Inr (False, db')"
proof -
  have ok: "db_ok (sample_db [sample_term])"
    by (simp add: db_ok_def sample_db_def sample_term_def sample_ent_def)
  have "\<exists>db'. notify_renewal sample_tenant sample_term sample_now (sample_db [sample_term]) = Inr (True, db')"
    by (simp add: notify_renewal_def atomic_def sample_db_def sample_term_def sample_ent_def sample_tenant_def
        sample_listing_def save_notified_def emit_def Let_def days_def)
  then obtain db' where n: "notify_renewal sample_tenant sample_term sample_now (sample_db [sample_term]) = Inr (True, db')"
    by blast
  from notify_renewal_once [OF ok n, of "sample_now + days 1"] n show ?thesis by blast
qed

end
