(* ===== verification/Adapters.thy ===== *)
theory Adapters
  imports Audit_Store
begin

section \<open>The adapter registry and what an adapter may see\<close>

text \<open>
  \<^verbatim>\<open>osds/adapters.py\<close> (the registry of event subscribers, the pattern match, \<^verbatim>\<open>Result\<close>) and the part of
  \<^verbatim>\<open>osds/adapter_context.py\<close> that decides what a subscriber is given: \<open>adapter_config\<close> and \<open>granted_scopes\<close>. A subscriber
  is adapter code; the record holds what core reads of it (its id, patterns, scopes, config key) and its two callables, which
  may raise. The registry is a list in registration order.
\<close>

subsection \<open>Patterns\<close>

text \<open>\<^verbatim>\<open>fnmatch.fnmatchcase\<close>: \<open>*\<close>, \<open>?\<close>, and a bracket set, which is literal when it is not closed.\<close>

fun in_set :: "string \<Rightarrow> char \<Rightarrow> bool" where
  "in_set [] c = False"
| "in_set [a] c = (c = a)"
| "in_set [a, b] c = (c = a \<or> c = b)"
| "in_set (a # b # d # s) c =
     (if b = CHR ''-'' then (of_char a :: nat) \<le> of_char c \<and> (of_char c :: nat) \<le> of_char d \<or> in_set s c
      else c = a \<or> in_set (b # d # s) c)"

text \<open>The body of a bracket set and what follows it: a \<^verbatim>\<open>]\<close> right after the opening (or after \<^verbatim>\<open>!\<close>) is a member.\<close>

definition close_set :: "string \<Rightarrow> (string \<times> string) option" where
  "close_set p =
     (let neg = (if starts_with p ''!'' then ''!'' else []); q = drop (length neg) p;
          first = (if starts_with q '']'' then '']'' else []); r = drop (length first) q;
          body = takeWhile (\<lambda>c. c \<noteq> CHR '']'') r
      in if length body = length r then None else Some (neg @ first @ body, drop (Suc (length body)) r))"

definition set_matches :: "string \<Rightarrow> char \<Rightarrow> bool" where
  "set_matches body c = (case body of [] \<Rightarrow> False | x # s \<Rightarrow> if x = CHR ''!'' then \<not> in_set s c else in_set (x # s) c)"

lemma close_set_shorter: "close_set p \<noteq> None \<Longrightarrow> length (snd (the (close_set p))) < length p"
  by (cases p) (auto simp: close_set_def Let_def)

function (sequential) glob :: "string \<Rightarrow> string \<Rightarrow> bool" where
  "glob [] s = (s = [])"
| "glob (p # ps) s =
     (if p = CHR ''*'' then glob ps s \<or> (case s of [] \<Rightarrow> False | c # cs \<Rightarrow> glob (p # ps) cs)
      else if p = CHR ''?'' then (case s of [] \<Rightarrow> False | c # cs \<Rightarrow> glob ps cs)
      else if p = CHR ''['' \<and> close_set ps \<noteq> None then
        (case s of [] \<Rightarrow> False
         | c # cs \<Rightarrow> set_matches (fst (the (close_set ps))) c \<and> glob (snd (the (close_set ps))) cs)
      else (case s of [] \<Rightarrow> False | c # cs \<Rightarrow> c = p \<and> glob ps cs))"
  by pat_completeness auto
termination
  by (relation "measure (\<lambda>(p, s). length p + length s)")
    (use close_set_shorter in \<open>fastforce+\<close>)

definition matches :: "string list \<Rightarrow> string \<Rightarrow> bool" where
  "matches patterns event_type = list_ex (\<lambda>p. glob p event_type) patterns"

subsection \<open>Subscribers\<close>

datatype result_status = R_OK | R_SKIPPED | R_RETRY | R_FAILED

definition result_status_value :: "result_status \<Rightarrow> string" where
  "result_status_value st = (case st of R_OK \<Rightarrow> ''ok'' | R_SKIPPED \<Rightarrow> ''skipped'' | R_RETRY \<Rightarrow> ''retry'' | R_FAILED \<Rightarrow> ''failed'')"

record result =
  rs_status :: result_status
  rs_reason :: string
  rs_retry_after_ms :: "int option"
  rs_permanent :: bool

definition result_failed :: "string \<Rightarrow> bool \<Rightarrow> result" where
  "result_failed reason permanent = \<lparr>rs_status = R_FAILED, rs_reason = reason, rs_retry_after_ms = None, rs_permanent = permanent\<rparr>"

text \<open>A callable that raises an \<^verbatim>\<open>Exception\<close> gives \<open>Inl\<close> of the exception's class name. The context a handler gets is
  built by core for the delivery's tenant, or \<open>None\<close>: the tenant stands for it.\<close>

record subscriber =
  sb_id :: string
  sb_subscribes :: "string list"
  sb_scopes :: "string list"
  sb_config_key :: "string option"
  sb_wants :: "(string \<Rightarrow> dict option \<Rightarrow> string + bool) option"
  sb_handle :: "dict \<Rightarrow> tenant option \<Rightarrow> string + result"

definition register :: "subscriber \<Rightarrow> subscriber list \<Rightarrow> subscriber list" where
  "register s registry = (if sb_id s \<in> sb_id ` set registry then registry else registry @ [s])"

definition subscribers_for :: "subscriber list \<Rightarrow> string \<Rightarrow> subscriber list" where
  "subscribers_for registry event_type =
     filter (\<lambda>s. matches (if sb_subscribes s = [] then [''*''] else sb_subscribes s) event_type) registry"

definition subscriber_by_id :: "subscriber list \<Rightarrow> string \<Rightarrow> subscriber option" where
  "subscriber_by_id registry adapter_id = find (\<lambda>s. sb_id s = adapter_id) registry"

subsection \<open>Configuration and grants\<close>

text \<open>\<^verbatim>\<open>d.get(k) or {}\<close> for a value that is an object or absent.\<close>

definition sub_dict :: "dict \<Rightarrow> string \<Rightarrow> dict" where
  "sub_dict d k = (case dict_get d k of Some (JObj o') \<Rightarrow> o' | _ \<Rightarrow> [])"

definition adapter_config :: "tenant \<Rightarrow> string \<Rightarrow> string option \<Rightarrow> dict" where
  "adapter_config tn adapter_id config_key =
     (case config_key of
        Some k \<Rightarrow> if k \<noteq> [] then sub_dict (tn_settings tn) k else sub_dict (sub_dict (tn_settings tn) ''adapters'') adapter_id
      | None \<Rightarrow> sub_dict (sub_dict (tn_settings tn) ''adapters'') adapter_id)"

definition scope_setting :: "string \<Rightarrow> string" where
  "scope_setting scope = ''scope_'' @ map (\<lambda>c. if c = CHR '':'' then CHR ''_'' else c) scope"

definition granted_scopes :: "subscriber \<Rightarrow> tenant option \<Rightarrow> string list" where
  "granted_scopes s tenant =
     (case tenant of
        None \<Rightarrow> []
      | Some tn \<Rightarrow>
          let config = adapter_config tn (sb_id s) (sb_config_key s)
          in filter (\<lambda>sc. dict_get config (scope_setting sc) = Some (JBool True)) (sb_scopes s))"

subsection \<open>Facts\<close>

text \<open>A pattern without special characters is the name itself; \<^verbatim>\<open>*\<close> is everything, and \<^verbatim>\<open>ns.*\<close> the namespace.\<close>

definition plain_char :: "char \<Rightarrow> bool" where
  "plain_char c \<longleftrightarrow> c \<noteq> CHR ''*'' \<and> c \<noteq> CHR ''?'' \<and> c \<noteq> CHR ''[''"

lemma glob_star: "glob [CHR ''*''] s"
  by (induction s) simp_all

lemma glob_plain_append: "list_all plain_char p \<Longrightarrow> glob (p @ q) s \<longleftrightarrow> (\<exists>t. s = p @ t \<and> glob q t)"
proof (induction p arbitrary: s)
  case (Cons c p)
  then show ?case by (cases s) (auto simp: plain_char_def)
qed simp

lemma subscribers_for_registered:
  "s \<in> set (subscribers_for registry t) \<Longrightarrow> s \<in> set registry"
  by (simp add: subscribers_for_def)

lemma register_distinct:
  "distinct (map sb_id registry) \<Longrightarrow> distinct (map sb_id (register s registry))"
  by (auto simp: register_def)

lemma distinct_subscribers_for: "distinct (map sb_id registry) \<Longrightarrow> distinct (map sb_id (subscribers_for registry t))"
  by (simp add: subscribers_for_def distinct_map_filter)

text \<open>Asking is not receiving: a subscriber is granted exactly the scopes it asked for whose switch in its own
  configuration for this tenant is the boolean true; for a delivery without a tenant it is granted none.\<close>
theorem granted_scopes_exact:
  "sc \<in> set (granted_scopes s tenant) \<longleftrightarrow>
     sc \<in> set (sb_scopes s) \<and> (\<exists>tn. tenant = Some tn
       \<and> dict_get (adapter_config tn (sb_id s) (sb_config_key s)) (scope_setting sc) = Some (JBool True))"
  by (auto simp: granted_scopes_def Let_def split: option.splits)

text \<open>What an event pattern selects: a name without special characters selects only itself, and a namespace
  pattern exactly the types that begin with it.\<close>
theorem matches_patterns:
  assumes "list_all plain_char p"
  shows "(matches [p] t \<longleftrightarrow> t = p) \<and> (matches [p @ ''*''] t \<longleftrightarrow> prefix p t) \<and> matches [''*''] t"
proof -
  have "glob p t = (t = p)" using glob_plain_append [OF assms, of "[]" t] by simp
  moreover have "glob (p @ ''*'') t = (\<exists>z. t = p @ z)" unfolding glob_plain_append [OF assms] using glob_star by blast
  ultimately show ?thesis using glob_star [of t] by (simp add: matches_def prefix_def del: glob.simps)
qed

theorem matches_patterns_witness:
  "matches [''claim.'' @ ''*''] ''claim.approved'' \<longleftrightarrow> prefix ''claim.'' ''claim.approved''"
proof -
  have "list_all plain_char ''claim.''" by (simp add: plain_char_def)
  from matches_patterns [OF this, of "''claim.approved''"] show ?thesis by simp
qed

end
