(* ===== verification/Redaction.thy ===== *)
theory Redaction
  imports Adapters Samples "HOL-Library.List_Lexorder" "HOL-Library.Char_ord"
begin

section \<open>The wire envelope and its redaction\<close>

text \<open>
  \<^verbatim>\<open>audit/envelope.py\<close> (\<open>to_wire\<close>) and \<^verbatim>\<open>audit/redaction.py\<close>: what an adapter receives of an event. Mutation of the
  copied document is the new document, and the list of withheld paths the code appends to is returned beside it. The path text
  of a patch operation is a string in every document core emits; for another value the code reads its \<^verbatim>\<open>str()\<close>, which never
  starts with a slash, as the empty text here. A set of keys is a list.
\<close>

subsection \<open>The envelope\<close>

text \<open>\<^verbatim>\<open>isoformat(timespec="milliseconds")\<close> with \<^verbatim>\<open>Z\<close>.\<close>

definition rfc3339 :: "instant \<Rightarrow> string" where
  "rfc3339 t = (let s = (t div 1000000) mod 86400; ms = (t mod 1000000) div 1000 in
     fmt_date t @ ''T'' @ pad 2 (s div 3600) @ '':'' @ pad 2 (s div 60 mod 60) @ '':'' @ pad 2 (s mod 60) @ ''.'' @ pad 3 ms @ ''Z'')"

definition TENANT_PREFIX :: string where
  "TENANT_PREFIX = ''tenant.''"

definition to_wire :: "tenant \<Rightarrow> outbox_event \<Rightarrow> dict" where
  "to_wire tn ev =
     [(''id'', JStr (event_id ev)), (''type'', JStr (ev_type ev)), (''version'', JInt (ev_version ev)),
      (''occurred_at'', JStr (rfc3339 (occurred_at ev))), (''subject'', JStr (ev_subject ev)), (''actor'', JObj (ev_actor ev)),
      (''origin'', str_or_null (ev_origin ev)),
      (''trace_id'', JStr (if ev_trace_id ev \<noteq> [] then ev_trace_id ev else event_id ev)), (''data'', JObj (ev_data ev))]
     @ (if starts_with (ev_type ev) TENANT_PREFIX then []
        else [(''tenant'', JObj [(''id'', JStr (tn_public_id tn)), (''slug'', JStr (tn_slug tn)),
                (''domain'', (case primary_domain tn of None \<Rightarrow> JNull | Some d \<Rightarrow> str_or_null d))])])"

subsection \<open>Classification\<close>

definition CONTACT :: string where
  "CONTACT = ''pii:contact''"

definition MESSAGE :: string where
  "MESSAGE = ''pii:message''"

definition SCOPES :: "string list" where
  "SCOPES = [CONTACT, MESSAGE]"

type_synonym path_rules = "(string \<times> string) list"

definition RULES :: "(string \<times> path_rules) list" where
  "RULES =
    [(''user.created'', [(''user.email'', CONTACT), (''user.name'', CONTACT), (''user.phone_e164'', CONTACT)]),
     (''claim.submitted'', [(''claimant.name'', CONTACT), (''claimant.email'', CONTACT), (''claimant.phone_e164'', CONTACT),
        (''consent.*.ip'', CONTACT)]),
     (''lead.captured'', [(''lead.name'', CONTACT), (''lead.email'', CONTACT), (''lead.phone_e164'', CONTACT),
        (''lead.message'', MESSAGE), (''consent.*.ip'', CONTACT)]),
     (''listing.created'', [(''contact'', CONTACT)]),
     (''listing.updated'', []),
     (''staff.invited'', [(''operator.email'', CONTACT)]),
     (''claim.approved'', [(''manual_verification.notes'', MESSAGE), (''manual_verification.evidence_ref'', MESSAGE)]),
     (''claim.rejected'', [(''reason'', MESSAGE)]),
     (''moderation.decided'', [(''rationale'', MESSAGE)]),
     (''billing.subscription_canceled'', [(''reason'', MESSAGE)]),
     (''entitlement.canceled'', [(''reason'', MESSAGE)]),
     (''entitlement.overridden'', [(''reason'', MESSAGE)]),
     (''import.completed'', [(''errors'', CONTACT)]),
     (''tenant.settings_changed'', [])]"

definition PATCH_RULES :: "(string \<times> path_rules) list" where
  "PATCH_RULES = [(''listing.updated'', [(''/contact'', CONTACT)]), (''tenant.settings_changed'', [(''/'', CONTACT)])]"

definition NO_PII :: "string list" where
  "NO_PII =
    [''claim.verification_started'', ''claim.verification_failed'', ''claim.disputed'', ''claim.notified_existing_contacts'',
     ''listing.owner_assigned'', ''listing.published'', ''listing.unpublished'', ''listing.tier_changed'', ''staff.accepted'',
     ''lead.marked_spam'', ''moderation.queued'', ''tenant.created'', ''tenant.domain_verified'', ''import.started'',
     ''import.rolled_back'', ''billing.checkout_started'', ''billing.subscription_started'', ''billing.subscription_changed'',
     ''billing.payment_succeeded'', ''billing.payment_failed'', ''billing.refund_issued'', ''entitlement.started'',
     ''entitlement.trial_converted'', ''entitlement.dunning_started'', ''entitlement.recovered'', ''entitlement.downgraded'',
     ''entitlement.restored'', ''entitlement.renewal_due'', ''entitlement.expired'']"

definition LISTING_EVENTS :: "string list" where
  "LISTING_EVENTS = [''listing.created'', ''listing.updated'']"

definition classified :: "string \<Rightarrow> bool" where
  "classified t \<longleftrightarrow> map_of RULES t \<noteq> None \<or> t \<in> set NO_PII"

subsection \<open>Withholding\<close>

fun null_path :: "string list \<Rightarrow> string \<Rightarrow> json \<Rightarrow> json \<times> string list" where
  "null_path [] trail node = (node, [])"
| "null_path (key # rest) trail (JObj d) =
     (JObj (map (\<lambda>(k, v). if key = ''*'' \<or> k = key
                  then (k, if rest = [] then JNull else fst (null_path rest (trail @ k @ ''.'') v)) else (k, v)) d),
      concat (map (\<lambda>(k, v). if key = ''*'' \<or> k = key
                  then (if rest = [] then [trail @ k] else snd (null_path rest (trail @ k @ ''.'') v)) else []) d))"
| "null_path (key # rest) trail node = (node, [])"

definition under :: "string \<Rightarrow> string \<Rightarrow> bool" where
  "under path pre \<longleftrightarrow> pre = ''/'' \<or> path = pre \<or> starts_with path (pre @ ''/'')"

text \<open>Setting to null the entries of a dictionary whose key is private, with the paths.\<close>

definition null_keys :: "string list \<Rightarrow> string \<Rightarrow> dict \<Rightarrow> dict \<times> string list" where
  "null_keys priv trail d =
     (map (\<lambda>(k, v). if k \<in> set priv then (k, JNull) else (k, v)) d,
      map (\<lambda>(k, v). trail @ k) (filter (\<lambda>(k, v). k \<in> set priv) d))"

definition op_label :: "nat \<Rightarrow> string" where
  "op_label i = ''changes['' @ nat_text i @ ''].value''"

definition path_of :: "dict \<Rightarrow> string" where
  "path_of p = (case dict_get p ''path'' of Some (JStr s) \<Rightarrow> s | _ \<Rightarrow> [])"

definition private_path :: "string list \<Rightarrow> string \<Rightarrow> bool" where
  "private_path priv path \<longleftrightarrow> starts_with path ''/custom_fields/'' \<and> split_on CHR ''/'' path ! 2 \<in> set priv"

definition redact_op :: "path_rules \<Rightarrow> string list \<Rightarrow> string list \<Rightarrow> nat \<Rightarrow> json \<Rightarrow> json \<times> string list" where
  "redact_op rules granted priv i p =
     (case p of
        JObj d \<Rightarrow>
          (case dict_get d ''value'' of
             None \<Rightarrow> (p, [])
           | Some v \<Rightarrow>
               let path = path_of d;
                   ruled = list_ex (\<lambda>(pre, scope). under path pre \<and> scope \<notin> set granted) rules;
                   look = (\<not> ruled \<and> CONTACT \<notin> set granted \<and> priv \<noteq> [])
               in if ruled \<or> look \<and> path \<noteq> ''/custom_fields'' \<and> private_path priv path
                  then (JObj (dict_set ''value'' JNull d), [op_label i])
                  else if look \<and> path = ''/custom_fields''
                  then (case v of
                          JObj fs \<Rightarrow> (let (fs', ps) = null_keys priv (op_label i @ ''.'') fs in (JObj (dict_set ''value'' (JObj fs') d), ps))
                        | _ \<Rightarrow> (p, []))
                  else (p, []))
      | _ \<Rightarrow> (p, []))"

fun redact_ops :: "path_rules \<Rightarrow> string list \<Rightarrow> string list \<Rightarrow> nat \<Rightarrow> json list \<Rightarrow> json list \<times> string list" where
  "redact_ops rules granted priv i [] = ([], [])"
| "redact_ops rules granted priv i (p # ps) =
     (let (p', r) = redact_op rules granted priv i p; (ps', rs) = redact_ops rules granted priv (Suc i) ps
      in (p' # ps', r @ rs))"

definition redact_patch :: "path_rules \<Rightarrow> string list \<Rightarrow> string list \<Rightarrow> dict \<Rightarrow> dict \<times> string list" where
  "redact_patch rules granted priv d =
     (case dict_get d ''changes'' of
        Some (JList ops) \<Rightarrow> (let (ops', ps) = redact_ops rules granted priv 0 ops in (dict_set ''changes'' (JList ops') d, ps))
      | _ \<Rightarrow> (d, []))"

text \<open>The loop over the rules of an event type.\<close>

fun apply_rules :: "string list \<Rightarrow> path_rules \<Rightarrow> json \<Rightarrow> json \<times> string list" where
  "apply_rules granted [] d = (d, [])"
| "apply_rules granted ((path, scope) # rs) d =
     (if scope \<in> set granted then apply_rules granted rs d
      else let (d1, ps) = null_path (split_on CHR ''.'' path) [] d; (d2, qs) = apply_rules granted rs d1 in (d2, ps @ qs))"

definition obj_of :: "json \<Rightarrow> dict" where
  "obj_of v = (case v of JObj d \<Rightarrow> d | _ \<Rightarrow> [])"

definition redact_custom :: "string list \<Rightarrow> dict \<Rightarrow> dict \<times> string list" where
  "redact_custom priv d =
     (case dict_get d ''custom_fields'' of
        Some (JObj fs) \<Rightarrow> (let (fs', ps) = null_keys priv ''custom_fields.'' fs in (dict_set ''custom_fields'' (JObj fs') d, ps))
      | _ \<Rightarrow> (d, []))"

definition withhold :: "string \<Rightarrow> string list \<Rightarrow> string list \<Rightarrow> dict \<Rightarrow> dict \<times> string list" where
  "withhold event_type granted priv d =
     (let (d1, ps) =
        (case map_of RULES event_type of
           Some rules \<Rightarrow>
             let (d0, ps) = (case apply_rules granted rules (JObj d) of (v, ps) \<Rightarrow> (obj_of v, ps))
             in (case map_of PATCH_RULES event_type of
                   Some prules \<Rightarrow> (case redact_patch prules granted priv d0 of (d', qs) \<Rightarrow> (d', ps @ qs))
                 | None \<Rightarrow> (d0, ps))
         | None \<Rightarrow> if event_type \<notin> set NO_PII \<and> \<not> set SCOPES \<subseteq> set granted then ([], [''data'']) else (d, []))
      in if event_type \<in> set LISTING_EVENTS \<and> CONTACT \<notin> set granted \<and> priv \<noteq> []
         then (case redact_custom priv d1 of (d2, qs) \<Rightarrow> (d2, ps @ qs)) else (d1, ps))"

definition env_type :: "dict \<Rightarrow> string" where
  "env_type env = (case dict_get env ''type'' of Some (JStr s) \<Rightarrow> s | _ \<Rightarrow> [])"

definition env_data :: "dict \<Rightarrow> dict" where
  "env_data env = sub_dict env ''data''"

definition redact :: "string list \<Rightarrow> string list \<Rightarrow> dict \<Rightarrow> dict" where
  "redact granted priv env =
     (case withhold (env_type env) granted priv (env_data env) of
        (d, ps) \<Rightarrow> dict_set ''redacted'' (JList (map JStr (sort (remdups ps)))) (dict_set ''data'' (JObj d) env))"

subsection \<open>What a path names\<close>

text \<open>The reference reading of a dotted path, independent of the code that withholds: all the values it names.\<close>

fun values_at :: "string list \<Rightarrow> json \<Rightarrow> json list" where
  "values_at [] v = [v]"
| "values_at (k # ks) (JObj d) = concat (map (\<lambda>(k', v). if k = ''*'' \<or> k' = k then values_at ks v else []) d)"
| "values_at (k # ks) v = []"

definition nulled :: "string list \<Rightarrow> json \<Rightarrow> bool" where
  "nulled p v \<longleftrightarrow> (\<forall>x \<in> set (values_at p v). x = JNull)"

lemma nulled_Cons_obj:
  "nulled (k # ks) (JObj d) \<longleftrightarrow> (\<forall>(k', v) \<in> set d. k = ''*'' \<or> k' = k \<longrightarrow> nulled ks v)"
  by (auto simp: nulled_def split: if_splits)

lemma nulled_JNull [simp]: "nulled p JNull"
  by (cases p) (simp_all add: nulled_def)

lemma null_path_JNull [simp]: "null_path p trail JNull = (JNull, [])"
  by (cases p) simp_all

lemma null_path_withholds: "p \<noteq> [] \<Longrightarrow> nulled p (fst (null_path p trail v))"
proof (induction p arbitrary: trail v)
  case (Cons k ks)
  show ?case
  proof (cases v)
    case (JObj d)
    have "nulled ks (fst (null_path ks tr x))" if "ks \<noteq> []" for tr x using Cons.IH that by simp
    then show ?thesis by (auto simp: JObj nulled_Cons_obj split: if_splits)
  qed (simp_all add: nulled_def)
qed simp

lemma null_path_keeps: "nulled p v \<Longrightarrow> nulled p (fst (null_path q trail v))"
proof (induction p arbitrary: q trail v)
  case Nil
  then show ?case by (simp add: nulled_def)
next
  case (Cons k ks)
  show ?case
  proof (cases q)
    case (Cons k2 q2)
    note q = this
    show ?thesis
    proof (cases v)
      case (JObj d)
      have "nulled ks (fst (null_path q2 tr x))" if "nulled ks x" for tr x using Cons.IH that by simp
      with Cons.prems show ?thesis by (fastforce simp: JObj q nulled_Cons_obj split: if_splits)
    qed (use Cons.prems in \<open>simp_all add: q\<close>)
  qed (use Cons.prems in simp)
qed

lemma null_path_obj: "\<exists>d'. fst (null_path p trail (JObj d)) = JObj d'"
  by (cases p) simp_all

lemma fst_apply_rules [simp]:
  "fst (apply_rules granted ((path, scope) # rs) d) =
     fst (apply_rules granted rs (if scope \<in> set granted then d else fst (null_path (split_on CHR ''.'' path) [] d)))"
  by (simp split: prod.split)

lemma apply_rules_keeps: "nulled p v \<Longrightarrow> nulled p (fst (apply_rules granted rs v))"
proof (induction rs arbitrary: v)
  case (Cons r rs)
  obtain path scope where r: "r = (path, scope)" by (cases r)
  from Cons.IH [OF null_path_keeps [OF Cons.prems]] Cons show ?case by (simp add: r del: apply_rules.simps)
qed simp

lemma split_on_nonempty [simp]: "split_on c s \<noteq> []"
  by (induction s) (auto split: list.splits)

lemma apply_rules_withholds:
  "(path, scope) \<in> set rs \<Longrightarrow> scope \<notin> set granted \<Longrightarrow> nulled (split_on CHR ''.'' path) (fst (apply_rules granted rs v))"
proof (induction rs arbitrary: v)
  case (Cons r rs)
  obtain path' scope' where r: "r = (path', scope')" by (cases r)
  show ?case
  proof (cases "r = (path, scope)")
    case True
    let ?n = "null_path (split_on CHR ''.'' path) [] v"
    have "nulled (split_on CHR ''.'' path) (fst (apply_rules granted rs (fst ?n)))"
      by (intro apply_rules_keeps null_path_withholds) simp
    with True Cons.prems(2) show ?thesis by (simp del: apply_rules.simps)
  next
    case False
    with Cons show ?thesis by (auto simp: r simp del: apply_rules.simps)
  qed
qed simp

lemma apply_rules_obj: "\<exists>d'. fst (apply_rules granted rs (JObj d)) = JObj d'"
proof (induction rs arbitrary: d)
  case (Cons r rs)
  obtain path scope where r: "r = (path, scope)" by (cases r)
  obtain d1 where d1: "fst (null_path (split_on CHR ''.'' path) [] (JObj d)) = JObj d1" using null_path_obj by blast
  from Cons.IH [of d] Cons.IH [of d1] d1 show ?case by (simp add: r del: apply_rules.simps)
qed simp

lemma nulled_dict_set: "k \<noteq> ''*'' \<Longrightarrow> k \<noteq> k' \<Longrightarrow> nulled (k # ks) (JObj (dict_set k' x d)) \<longleftrightarrow> nulled (k # ks) (JObj d)"
  by (induction k' x d rule: dict_set.induct) (auto simp: nulled_Cons_obj)

lemma env_data_redact: "env_data (redact granted priv env) = fst (withhold (env_type env) granted priv (env_data env))"
  by (simp add: redact_def env_data_def sub_dict_def split: prod.split)

lemma redacted_list:
  "dict_get (redact granted priv env) ''redacted''
     = Some (JList (map JStr (sort (remdups (snd (withhold (env_type env) granted priv (env_data env)))))))"
  by (simp add: redact_def split: prod.split)

text \<open>An event type with path rules has no patch rules unless it has no paths at all, and no rule is about custom fields.\<close>

lemma rules_shape:
  assumes "map_of RULES t = Some rules" "(path, scope) \<in> set rules"
  shows "map_of PATCH_RULES t = None \<and> hd (split_on CHR ''.'' path) \<noteq> ''*'' \<and> hd (split_on CHR ''.'' path) \<noteq> ''custom_fields''
    \<and> scope \<in> set SCOPES"
  using assms by (auto simp: RULES_def PATCH_RULES_def SCOPES_def split: if_splits)

text \<open>C21: Whatever a classified event carries, an adapter that was not granted the scope of a path gets only nulls there:
  every value the dotted path names in the redacted data, through wildcards and at any depth, is null.\<close>
theorem redact_withholds_paths:
  assumes "map_of RULES (env_type env) = Some rules" and "(path, scope) \<in> set rules" and "scope \<notin> set granted"
  shows "nulled (split_on CHR ''.'' path) (JObj (env_data (redact granted priv env)))"
proof -
  note sh = rules_shape [OF assms(1,2)]
  obtain d1 where d1: "fst (apply_rules granted rules (JObj (env_data env))) = JObj d1" using apply_rules_obj by blast
  have n1: "nulled (split_on CHR ''.'' path) (JObj d1)" using apply_rules_withholds [OF assms(2,3), of "JObj (env_data env)"] d1 by simp
  obtain k ks where k: "split_on CHR ''.'' path = k # ks" using split_on_nonempty neq_Nil_conv by metis
  from sh have kk: "k \<noteq> ''*''" "k \<noteq> ''custom_fields''" by (simp_all add: k)
  have c: "nulled (k # ks) (JObj (fst (redact_custom priv d1)))"
    using n1 kk by (auto simp: redact_custom_def k nulled_dict_set split: option.split json.split prod.split)
  show ?thesis unfolding env_data_redact
    using n1 c sh d1 by (auto simp: withhold_def assms(1) k obj_of_def split: prod.splits)
qed

theorem redact_withholds_paths_witness:
  "nulled [''lead'', ''email''] (JObj (env_data (redact [MESSAGE] []
     [(''type'', JStr ''lead.captured''), (''data'', JObj [(''lead'', JObj [(''email'', JStr ''a@example.com''), (''score'', JInt 3)])])])))"
proof -
  let ?env = "[(''type'', JStr ''lead.captured''), (''data'', JObj [(''lead'', JObj [(''email'', JStr ''a@example.com''), (''score'', JInt 3)])])]"
  have r: "map_of RULES (env_type ?env) = Some [(''lead.name'', CONTACT), (''lead.email'', CONTACT), (''lead.phone_e164'', CONTACT),
        (''lead.message'', MESSAGE), (''consent.*.ip'', CONTACT)]"
    by (simp add: env_type_def dict_get_def RULES_def)
  have s: "split_on CHR ''.'' ''lead.email'' = [''lead'', ''email'']" by simp
  have m: "CONTACT \<notin> set [MESSAGE]" by (simp add: CONTACT_def MESSAGE_def)
  have p: "(''lead.email'', CONTACT) \<in> set [(''lead.name'', CONTACT), (''lead.email'', CONTACT), (''lead.phone_e164'', CONTACT),
        (''lead.message'', MESSAGE), (''consent.*.ip'', CONTACT)]" by simp
  from redact_withholds_paths [OF r p m, of "[]"] show ?thesis by (simp only: s)
qed

text \<open>Redaction fails closed: an event type nobody classified reaches an adapter that does not hold both scopes with no
  data at all, and says so.\<close>
theorem redact_fails_closed:
  assumes "\<not> classified (env_type env)" and "\<not> set SCOPES \<subseteq> set granted"
  shows "env_data (redact granted priv env) = []
    \<and> dict_get (redact granted priv env) ''redacted'' = Some (JList [JStr ''data''])"
proof -
  have "env_type env \<notin> set LISTING_EVENTS" using assms(1) by (auto simp: LISTING_EVENTS_def classified_def RULES_def)
  then have "withhold (env_type env) granted priv (env_data env) = ([], [''data''])"
    using assms by (auto simp: withhold_def classified_def)
  then show ?thesis by (simp add: env_data_redact redacted_list)
qed

theorem redact_fails_closed_witness:
  "env_data (redact [CONTACT] [] [(''type'', JStr ''review.submitted''), (''data'', JObj [(''text'', JStr ''hello'')])]) = []"
proof -
  let ?env = "[(''type'', JStr ''review.submitted''), (''data'', JObj [(''text'', JStr ''hello'')])]"
  have "\<not> classified (env_type ?env)" by (simp add: classified_def env_type_def dict_get_def RULES_def NO_PII_def)
  moreover have "\<not> set SCOPES \<subseteq> set [CONTACT]" by (simp add: SCOPES_def CONTACT_def MESSAGE_def)
  ultimately show ?thesis using redact_fails_closed [of ?env "[CONTACT]" "[]"] by simp
qed

subsection \<open>The list of withheld paths is honest\<close>

lemma dict_set_same: "dict_get d k = Some v \<Longrightarrow> dict_set k v d = d"
  by (induction k v d rule: dict_set.induct) (auto simp: dict_get_def split: if_splits)

lemma null_path_silent: "snd (null_path p trail v) = [] \<Longrightarrow> fst (null_path p trail v) = v"
proof (induction p arbitrary: trail v)
  case (Cons k ks)
  show ?case
  proof (cases v)
    case (JObj d)
    have "(k', if ks = [] then JNull else fst (null_path ks (trail @ k' @ ''.'') x)) = (k', x)"
      if "(k', x) \<in> set d" "k = ''*'' \<or> k' = k" for k' x
    proof -
      from Cons.prems that have "(if ks = [] then [trail @ k'] else snd (null_path ks (trail @ k' @ ''.'') x)) = []"
        by (fastforce simp: JObj)
      with Cons.IH show ?thesis by (auto split: if_splits)
    qed
    then show ?thesis by (auto simp: JObj intro!: map_idI)
  qed simp_all
qed simp

lemma apply_rules_silent: "snd (apply_rules granted rs v) = [] \<Longrightarrow> fst (apply_rules granted rs v) = v"
proof (induction rs arbitrary: v)
  case (Cons r rs)
  obtain path scope where r: "r = (path, scope)" by (cases r)
  obtain v1 ps where n: "null_path (split_on CHR ''.'' path) [] v = (v1, ps)" by fastforce
  show ?case
  proof (cases "scope \<in> set granted")
    case False
    with Cons.prems n have "ps = []" "snd (apply_rules granted rs v1) = []" by (auto simp: r split: prod.splits)
    moreover from null_path_silent [of "split_on CHR ''.'' path" "[]" v] n \<open>ps = []\<close> have "v1 = v" by simp
    ultimately show ?thesis using Cons.IH [of v1] False n by (simp add: r del: apply_rules.simps)
  qed (use Cons in \<open>simp add: r\<close>)
qed simp

lemma null_keys_silent: "snd (null_keys priv trail d) = [] \<Longrightarrow> fst (null_keys priv trail d) = d"
  by (auto simp: null_keys_def filter_empty_conv intro!: map_idI)

lemma redact_op_silent: "snd (redact_op rules granted priv i p) = [] \<Longrightarrow> fst (redact_op rules granted priv i p) = p"
proof (cases p)
  case (JObj d)
  assume s: "snd (redact_op rules granted priv i p) = []"
  show ?thesis
  proof (cases "dict_get d ''value''")
    case (Some v)
    show ?thesis
    proof (cases v)
      case (JObj fs)
      from s null_keys_silent [of priv "op_label i @ ''.''" fs] dict_set_same [OF Some] show ?thesis
        by (auto simp: \<open>p = JObj d\<close> Some JObj redact_op_def Let_def split: prod.splits if_splits)
    qed (use s in \<open>auto simp: JObj Some redact_op_def Let_def split: if_splits\<close>)
  qed (use JObj in \<open>simp add: redact_op_def\<close>)
qed (simp_all add: redact_op_def)

lemma redact_ops_Cons:
  "fst (redact_ops rules granted priv i (p # ps)) = fst (redact_op rules granted priv i p) # fst (redact_ops rules granted priv (Suc i) ps)"
  "snd (redact_ops rules granted priv i (p # ps)) = snd (redact_op rules granted priv i p) @ snd (redact_ops rules granted priv (Suc i) ps)"
  by (simp_all split: prod.split)

lemmas redact_ops_simps [simp] = redact_ops.simps(1) redact_ops_Cons
declare redact_ops.simps(2) [simp del]

lemma redact_ops_silent: "snd (redact_ops rules granted priv i ps) = [] \<Longrightarrow> fst (redact_ops rules granted priv i ps) = ps"
proof (induction ps arbitrary: i)
  case (Cons p ps)
  from Cons.IH [of "Suc i"] redact_op_silent [of rules granted priv i p] Cons.prems show ?case by simp
qed simp

lemma redact_patch_silent: "snd (redact_patch rules granted priv d) = [] \<Longrightarrow> fst (redact_patch rules granted priv d) = d"
  by (auto simp: redact_patch_def case_prod_beta redact_ops_silent dict_set_same split: option.splits json.splits)

lemma redact_custom_silent: "snd (redact_custom priv d) = [] \<Longrightarrow> fst (redact_custom priv d) = d"
  by (auto simp: redact_custom_def case_prod_beta null_keys_silent dict_set_same split: option.splits json.splits)

lemma withhold_silent: "snd (withhold t granted priv d) = [] \<Longrightarrow> fst (withhold t granted priv d) = d"
proof -
  assume s: "snd (withhold t granted priv d) = []"
  let ?ar = "\<lambda>rules. apply_rules granted rules (JObj d)"
  have a: "obj_of (fst (?ar rules)) = d" if "snd (?ar rules) = []" for rules
    using apply_rules_silent [OF that] by (simp add: obj_of_def)
  show ?thesis
  proof (cases "map_of RULES t")
    case None
    with s redact_custom_silent [of priv d] show ?thesis by (auto simp: withhold_def split: prod.splits if_splits)
  next
    case (Some rules)
    obtain v ps where v: "?ar rules = (v, ps)" by fastforce
    from s have ps: "ps = []" by (auto simp: withhold_def Some v split: prod.splits option.splits if_splits)
    with a [of rules] v have o: "obj_of v = d" by simp
    show ?thesis
    proof (cases "map_of PATCH_RULES t")
      case None
      with s o redact_custom_silent [of priv d] show ?thesis
        by (auto simp: withhold_def Some v ps split: prod.splits if_splits)
    next
      case p: (Some prules)
      obtain d' qs where r: "redact_patch prules granted priv d = (d', qs)" by fastforce
      from s have "qs = []" by (auto simp: withhold_def Some v ps o p r split: prod.splits if_splits)
      with redact_patch_silent [of prules granted priv d] r have "d' = d" by simp
      with s o redact_custom_silent [of priv d] r \<open>qs = []\<close> show ?thesis
        by (auto simp: withhold_def Some v ps p split: prod.splits if_splits)
    qed
  qed
qed

lemma rules_scopes: "map_of RULES t = Some rules \<Longrightarrow> \<forall>(path, scope) \<in> set rules. scope \<in> set SCOPES"
  using rules_shape by fastforce

lemma apply_rules_granted: "\<forall>(path, scope) \<in> set rs. scope \<in> set granted \<Longrightarrow> apply_rules granted rs v = (v, [])"
  by (induction rs) auto

lemma redact_ops_granted:
  assumes "\<forall>(pre, scope) \<in> set rules. scope \<in> set granted" "CONTACT \<in> set granted"
  shows "snd (redact_ops rules granted priv i ps) = []"
proof -
  have "\<not> list_ex (\<lambda>(pre, scope). under path pre \<and> scope \<notin> set granted) rules" for path
    using assms(1) by (auto simp: list_ex_iff)
  then have op: "snd (redact_op rules granted priv i p) = []" for i p
    using assms(2) by (auto simp: redact_op_def Let_def split: json.split option.split)
  show ?thesis
  proof (induction ps arbitrary: i)
    case (Cons p ps)
    with op [of i p] show ?case by simp
  qed simp
qed

lemma withhold_granted:
  assumes "set SCOPES \<subseteq> set granted"
  shows "snd (withhold t granted priv d) = []"
proof -
  have c: "CONTACT \<in> set granted" using assms by (simp add: SCOPES_def)
  have p: "map_of PATCH_RULES t = Some prules \<Longrightarrow> \<forall>(pre, scope) \<in> set prules. scope \<in> set granted" for prules
    using c by (auto simp: PATCH_RULES_def split: if_splits)
  have r: "map_of PATCH_RULES t = Some prules \<Longrightarrow> snd (redact_patch prules granted priv d) = []" for prules
    by (auto simp: redact_patch_def case_prod_beta redact_ops_granted [OF p c] split: option.split json.split)
  have a: "map_of RULES t = Some rules \<Longrightarrow> apply_rules granted rules (JObj d) = (JObj d, [])" for rules
    using rules_scopes [of t rules] assms by (intro apply_rules_granted) auto
  from r a c assms show ?thesis
    by (auto simp: withhold_def obj_of_def split: option.splits prod.splits)
qed

text \<open>An adapter can tell what was withheld from what was absent: when the envelope names no withheld path, its data
  is the event's data unchanged; and with both scopes granted nothing is withheld.\<close>
theorem redact_reports_withheld:
  "(dict_get (redact granted priv env) ''redacted'' = Some (JList []) \<longrightarrow> env_data (redact granted priv env) = env_data env)
   \<and> (set SCOPES \<subseteq> set granted \<longrightarrow> dict_get (redact granted priv env) ''redacted'' = Some (JList [])
        \<and> env_data (redact granted priv env) = env_data env)"
proof (intro conjI impI)
  assume "dict_get (redact granted priv env) ''redacted'' = Some (JList [])"
  then have "set (sort (remdups (snd (withhold (env_type env) granted priv (env_data env))))) = {}"
    unfolding redacted_list by simp
  then have "snd (withhold (env_type env) granted priv (env_data env)) = []" by simp
  from withhold_silent [OF this] show "env_data (redact granted priv env) = env_data env" by (simp add: env_data_redact)
next
  assume "set SCOPES \<subseteq> set granted"
  note w = withhold_granted [OF this, of "env_type env" priv "env_data env"]
  from w show "dict_get (redact granted priv env) ''redacted'' = Some (JList [])" by (simp add: redacted_list)
  from withhold_silent [OF w] show "env_data (redact granted priv env) = env_data env" by (simp add: env_data_redact)
qed

theorem redact_reports_withheld_witness:
  "env_data (redact [CONTACT, MESSAGE] [] [(''type'', JStr ''claim.rejected''), (''data'', JObj [(''reason'', JStr ''no'')])])
     = [(''reason'', JStr ''no'')]"
  using redact_reports_withheld [of "[CONTACT, MESSAGE]" "[]" "[(''type'', JStr ''claim.rejected''), (''data'', JObj [(''reason'', JStr ''no'')])]"]
  by (simp add: SCOPES_def env_data_def sub_dict_def dict_get_def)

subsection \<open>JSON patches\<close>

lemma length_redact_ops [simp]: "length (fst (redact_ops rules granted priv n ps)) = length ps"
  by (induction ps arbitrary: n) simp_all

lemma redact_ops_nth:
  "i < length ps \<Longrightarrow> fst (redact_ops rules granted priv n ps) ! i = fst (redact_op rules granted priv (n + i) (ps ! i))"
  by (induction ps arbitrary: n i) (auto simp: less_Suc_eq_0_disj)

lemma redact_op_withholds:
  assumes "dict_get d ''value'' \<noteq> None" "CONTACT \<notin> set granted"
    and "(\<exists>pre. (pre, CONTACT) \<in> set rules \<and> under (path_of d) pre) \<or> private_path priv (path_of d)"
  shows "\<exists>d'. fst (redact_op rules granted priv i (JObj d)) = JObj d' \<and> dict_get d' ''value'' = Some JNull"
proof -
  from assms(1) obtain v where v: "dict_get d ''value'' = Some v" by blast
  have "private_path priv (path_of d) \<Longrightarrow> priv \<noteq> [] \<and> path_of d \<noteq> ''/custom_fields''"
    by (auto simp: private_path_def starts_with_def prefix_def)
  with assms(2,3) have "list_ex (\<lambda>(pre, scope). under (path_of d) pre \<and> scope \<notin> set granted) rules
      \<or> private_path priv (path_of d) \<and> priv \<noteq> [] \<and> path_of d \<noteq> ''/custom_fields''"
    by (auto simp: list_ex_iff)
  then show ?thesis using assms(2) by (auto simp: redact_op_def v Let_def)
qed

lemma dict_get_custom [simp]: "dict_get (fst (redact_custom priv d)) ''changes'' = dict_get d ''changes''"
  by (auto simp: redact_custom_def split: option.split json.split prod.split)

text \<open>Without \<^verbatim>\<open>pii:contact\<close>, a listing's JSON patch keeps every operation but loses the value of each one under
  \<^verbatim>\<open>/contact\<close> or on a custom field the operator marked non-public; a settings patch loses every value.\<close>
theorem redact_patch_withholds:
  assumes "dict_get (env_data env) ''changes'' = Some (JList ops)" and "CONTACT \<notin> set granted"
    and "i < length ops" and "ops ! i = JObj d" and "dict_get d ''value'' \<noteq> None"
    and "env_type env = ''listing.updated'' \<and> (under (path_of d) ''/contact'' \<or> private_path priv (path_of d))
       \<or> env_type env = ''tenant.settings_changed''"
  shows "\<exists>ops' d'. dict_get (env_data (redact granted priv env)) ''changes'' = Some (JList ops') \<and> length ops' = length ops
    \<and> ops' ! i = JObj d' \<and> dict_get d' ''value'' = Some JNull"
proof -
  obtain prules where r: "map_of RULES (env_type env) = Some []" "map_of PATCH_RULES (env_type env) = Some prules"
    and w: "(\<exists>pre. (pre, CONTACT) \<in> set prules \<and> under (path_of d) pre) \<or> private_path priv (path_of d)"
    using assms(6) by (auto simp: RULES_def PATCH_RULES_def under_def)
  from redact_op_withholds [OF assms(5,2) w, of i] obtain d' where
    d': "fst (redact_op prules granted priv i (JObj d)) = JObj d'" "dict_get d' ''value'' = Some JNull" by blast
  let ?ops = "fst (redact_ops prules granted priv 0 ops)"
  from redact_ops_nth [OF assms(3), of prules granted priv 0] d' assms(4) have n: "length ?ops = length ops" "?ops ! i = JObj d'" by simp_all
  have "dict_get (env_data (redact granted priv env)) ''changes'' = Some (JList ?ops)"
    by (auto simp: env_data_redact withhold_def r obj_of_def redact_patch_def assms(1) split: prod.split)
       (metis dict_get_custom dict_get_set fst_conv)+
  with n d' show ?thesis by blast
qed

theorem redact_patch_withholds_witness:
  "\<exists>ops' d'. dict_get (env_data (redact [] [''vat''] [(''type'', JStr ''listing.updated''), (''data'', JObj [(''changes'',
       JList [JObj [(''op'', JStr ''replace''), (''path'', JStr ''/contact/email''), (''value'', JStr ''a@example.com'')]])])])) ''changes''
     = Some (JList ops') \<and> ops' ! 0 = JObj d' \<and> dict_get d' ''value'' = Some JNull"
proof -
  let ?d = "[(''op'', JStr ''replace''), (''path'', JStr ''/contact/email''), (''value'', JStr ''a@example.com'')]"
  let ?env = "[(''type'', JStr ''listing.updated''), (''data'', JObj [(''changes'', JList [JObj ?d])])]"
  have "dict_get (env_data ?env) ''changes'' = Some (JList [JObj ?d])" by (simp add: env_data_def sub_dict_def dict_get_def)
  moreover have "dict_get ?d ''value'' \<noteq> None" by (simp add: dict_get_def)
  moreover have "env_type ?env = ''listing.updated''" "under (path_of ?d) ''/contact''"
    by (simp_all add: env_type_def dict_get_def under_def path_of_def)
  ultimately show ?thesis using redact_patch_withholds [of ?env "[JObj ?d]" "[]" 0 ?d "[''vat'']"] by auto
qed

subsection \<open>The publication event\<close>

lemma to_wire_simps [simp]: "env_type (to_wire tn ev) = ev_type ev" "env_data (to_wire tn ev) = ev_data ev"
  by (simp_all add: env_type_def env_data_def sub_dict_def to_wire_def dict_get_def)

lemma dict_get_project:
  "dict_get (dict_merge d (project l)) ''contact'' = Some (JObj [(''phone_e164'', str_or_null (phone_e164 l)),
     (''email'', str_or_null (email l)), (''website'', str_or_null (website l)), (''social'', JList (social l))])"
  "dict_get (dict_merge d (project l)) ''custom_fields'' = Some (JObj (custom_fields l))"
  by (simp_all add: dict_merge_def project_def)

text \<open>Publishing a listing sends its contact details and its custom fields to every adapter, granted or not: the
  \<^verbatim>\<open>listing.published\<close> event carries the listing's whole projection and is classified as carrying no personal data, so redaction
  with no scope granted withholds nothing of it, the fields marked non-public included.\<close>
theorem published_event_leaks_contact:
  assumes "visibility l \<noteq> V_PUBLISHED" and "set_listing_visibility l V_PUBLISHED actor reason db = Inr (l', db')"
  shows "\<exists>ev. outbox db' = outbox db @ [ev]
    \<and> dict_get (env_data (redact [] priv (to_wire tn ev))) ''contact'' = Some (JObj [(''phone_e164'', str_or_null (phone_e164 l)),
        (''email'', str_or_null (email l)), (''website'', str_or_null (website l)), (''social'', JList (social l))])
    \<and> dict_get (env_data (redact [] priv (to_wire tn ev))) ''custom_fields'' = Some (JObj (custom_fields l))
    \<and> dict_get (redact [] priv (to_wire tn ev)) ''redacted'' = Some (JList [])"
proof -
  let ?l = "l\<lparr>visibility := V_PUBLISHED, ls_updated_at := wall db\<rparr>"
  let ?data = "dict_merge [(''from'', JStr (visibility_value (visibility l))), (''type'', JStr (ls_type_key l))] (project ?l)"
  from assms obtain ev where ev: "outbox db' = outbox db @ [ev]" "ev_type ev = LISTING_PUBLISHED" "ev_data ev = ?data"
    unfolding set_listing_visibility_def atomic_Inr
    by (auto simp: Let_def bind_result_eq_Inr emit_def new_event_def save_visibility_def)
  have "withhold LISTING_PUBLISHED [] priv ?data = (?data, [])"
    by (simp add: withhold_def LISTING_PUBLISHED_def RULES_def NO_PII_def LISTING_EVENTS_def)
  then have "env_data (redact [] priv (to_wire tn ev)) = ?data" "dict_get (redact [] priv (to_wire tn ev)) ''redacted'' = Some (JList [])"
    by (simp_all add: env_data_redact redacted_list ev)
  with ev(1) show ?thesis by (auto simp: dict_get_project)
qed

theorem published_event_leaks_contact_witness:
  "\<exists>l' db' ev. set_listing_visibility (sample_listing\<lparr>visibility := V_HIDDEN\<rparr>) V_PUBLISHED [] [] (sample_db []) = Inr (l', db')
     \<and> outbox db' = [ev]
     \<and> (\<exists>fs. dict_get (env_data (redact [] [''vat''] (to_wire sample_tenant ev))) ''contact'' = Some (JObj fs)
          \<and> dict_get fs ''email'' = Some (JStr ''cafe@example.com''))"
proof -
  have "\<exists>l' db'. set_listing_visibility (sample_listing\<lparr>visibility := V_HIDDEN\<rparr>) V_PUBLISHED [] [] (sample_db []) = Inr (l', db')"
    unfolding set_listing_visibility_def atomic_Inr by (simp add: Let_def emit_def)
  then obtain l' db' where s: "set_listing_visibility (sample_listing\<lparr>visibility := V_HIDDEN\<rparr>) V_PUBLISHED [] [] (sample_db []) = Inr (l', db')"
    by blast
  have "visibility (sample_listing\<lparr>visibility := V_HIDDEN\<rparr>) \<noteq> V_PUBLISHED" "outbox (sample_db []) = []" by (simp_all add: sample_db_def)
  with published_event_leaks_contact [OF _ s, of "[''vat'']" sample_tenant] s show ?thesis
    by (auto simp: dict_get_def str_or_null_def sample_listing_def)
qed

end
