(* ===== verification/Work_Queue.thy ===== *)
theory Work_Queue
  imports Prelude
begin

section \<open>A table drained by claims\<close>

text \<open>
  The outbox drain and the mail drain share one protocol (\<^verbatim>\<open>audit/worker/drain.py\<close>, \<^verbatim>\<open>audit/worker/mail_drain.py\<close>): a claim is a
  short transaction that pushes \<^verbatim>\<open>next_attempt_at\<close> of the due rows it takes to a visibility deadline; the handler runs with no
  lock held; its outcome is an update guarded on that deadline. \<open>worker_reach\<close> is every interleaving of claims, outcomes,
  crashed handlers and new rows; \<open>claim_queue\<close> is the contract the two drains give, and what follows from it.
\<close>

text \<open>States of the queue: its rows, and the claims in flight as pairs of a key and the deadline the claim stamped.\<close>

inductive worker_reach :: "('r \<Rightarrow> nat) \<Rightarrow> (instant \<Rightarrow> nat \<Rightarrow> 'r list \<Rightarrow> nat list \<times> 'r list)
    \<Rightarrow> ('o \<Rightarrow> nat \<Rightarrow> instant \<Rightarrow> 'r list \<Rightarrow> bool \<times> 'r list) \<Rightarrow> ('o \<Rightarrow> instant \<Rightarrow> bool) \<Rightarrow> duration \<Rightarrow> 'r list \<Rightarrow> 'r list \<Rightarrow> (nat \<times> instant) list \<Rightarrow> bool"
  for key :: "'r \<Rightarrow> nat" and claim and rec and valid and vis and rows0 where
  start: "worker_reach key claim rec valid vis rows0 rows0 []"
| claimed: "worker_reach key claim rec valid vis rows0 rows flight \<Longrightarrow> claim now n rows = (ks, rows') \<Longrightarrow>
    worker_reach key claim rec valid vis rows0 rows' (flight @ map (\<lambda>k. (k, now + vis)) ks)"
| finished: "worker_reach key claim rec valid vis rows0 rows flight \<Longrightarrow> (k, s) \<in> set flight \<Longrightarrow> valid out s \<Longrightarrow> rec out k s rows = (applied, rows') \<Longrightarrow>
    worker_reach key claim rec valid vis rows0 rows' (remove1 (k, s) flight)"
| died: "worker_reach key claim rec valid vis rows0 rows flight \<Longrightarrow> (k, s) \<in> set flight \<Longrightarrow>
    worker_reach key claim rec valid vis rows0 rows (remove1 (k, s) flight)"
| arrived: "worker_reach key claim rec valid vis rows0 rows flight \<Longrightarrow> distinct (map key (rows @ new)) \<Longrightarrow>
    worker_reach key claim rec valid vis rows0 (rows @ new) flight"

lemma distinct_filter_eq: "distinct xs \<Longrightarrow> length (filter ((=) a) xs) \<le> 1"
  by (induction xs) (auto simp: filter_empty_conv)

text \<open>The laws: a claim takes pending, due rows, each once, and stamps them; an outcome is written only on the row that still
  carries the deadline it was claimed with; a valid one leaves it pending only with a later time than the claim's clock.\<close>

locale claim_queue =
  fixes key :: "'r \<Rightarrow> nat" and due :: "'r \<Rightarrow> instant" and pending :: "'r \<Rightarrow> bool"
    and claim :: "instant \<Rightarrow> nat \<Rightarrow> 'r list \<Rightarrow> nat list \<times> 'r list"
    and rec :: "'o \<Rightarrow> nat \<Rightarrow> instant \<Rightarrow> 'r list \<Rightarrow> bool \<times> 'r list"
    and valid :: "'o \<Rightarrow> instant \<Rightarrow> bool"
    and vis :: duration
  assumes vis_pos: "0 < vis"
    and claim_distinct: "distinct (map key rows) \<Longrightarrow> distinct (fst (claim now n rows))"
    and claim_keys: "map key (snd (claim now n rows)) = map key rows"
    and claim_taken: "distinct (map key rows) \<Longrightarrow> k \<in> set (fst (claim now n rows)) \<Longrightarrow>
      \<exists>r r'. r \<in> set rows \<and> key r = k \<and> pending r \<and> due r \<le> now
        \<and> r' \<in> set (snd (claim now n rows)) \<and> key r' = k \<and> pending r' \<and> due r' = now + vis"
    and claim_others: "distinct (map key rows) \<Longrightarrow> r' \<in> set (snd (claim now n rows)) \<Longrightarrow> key r' \<notin> set (fst (claim now n rows)) \<Longrightarrow> r' \<in> set rows"
    and rec_keys: "map key (snd (rec out k s rows)) = map key rows"
    and rec_stale: "(\<And>r. r \<in> set rows \<Longrightarrow> key r = k \<Longrightarrow> due r \<noteq> s) \<Longrightarrow> snd (rec out k s rows) = rows"
    and rec_others: "r' \<in> set (snd (rec out k s rows)) \<Longrightarrow> key r' \<noteq> k \<Longrightarrow> r' \<in> set rows"
    and rec_row: "valid out s \<Longrightarrow> distinct (map key rows) \<Longrightarrow> r \<in> set rows \<Longrightarrow> key r = k \<Longrightarrow> due r = s \<Longrightarrow> r' \<in> set (snd (rec out k s rows)) \<Longrightarrow> key r' = k \<Longrightarrow>
      (if pending r' then s - vis < due r' else due r' = s)"
begin

text \<open>The invariant: every claim in flight is at most as late as its row; two claims of a row lie a whole visibility window apart;
  a row that is not pending carries the deadline of no claim in flight.\<close>

definition flight_ok :: "'r list \<Rightarrow> (nat \<times> instant) list \<Rightarrow> bool" where
  "flight_ok rows flight \<longleftrightarrow> distinct (map key rows) \<and> distinct flight
     \<and> (\<forall>(k, s) \<in> set flight. \<exists>r \<in> set rows. key r = k \<and> s \<le> due r)
     \<and> (\<forall>(k, s) \<in> set flight. \<forall>(k', s') \<in> set flight. k = k' \<longrightarrow> s = s' \<or> s + vis \<le> s' \<or> s' + vis \<le> s)
     \<and> (\<forall>r \<in> set rows. \<not> pending r \<longrightarrow> (key r, due r) \<notin> set flight)"

lemma unique_row: "distinct (map key rows) \<Longrightarrow> r \<in> set rows \<Longrightarrow> r' \<in> set rows \<Longrightarrow> key r = key r' \<Longrightarrow> r = r'"
  by (auto simp: distinct_map dest: inj_onD)

lemma flight_row:
  assumes "flight_ok rows flight" "(k, s) \<in> set flight" "r \<in> set rows" "key r = k"
  shows "s \<le> due r"
proof -
  from assms(1,2) obtain r' where "r' \<in> set rows" "key r' = k" "s \<le> due r'" unfolding flight_ok_def by blast
  with unique_row [of rows r r'] assms show ?thesis by (auto simp: flight_ok_def)
qed

lemma flight_gap:
  "flight_ok rows flight \<Longrightarrow> (k, s) \<in> set flight \<Longrightarrow> (k, s') \<in> set flight \<Longrightarrow> s = s' \<or> s + vis \<le> s' \<or> s' + vis \<le> s"
  unfolding flight_ok_def by fast

lemma flight_done:
  "flight_ok rows flight \<Longrightarrow> r \<in> set rows \<Longrightarrow> \<not> pending r \<Longrightarrow> (key r, due r) \<notin> set flight"
  unfolding flight_ok_def by fast

lemma flight_okI:
  assumes "distinct (map key rows)" "distinct flight"
    and "\<And>k s. (k, s) \<in> set flight \<Longrightarrow> \<exists>r \<in> set rows. key r = k \<and> s \<le> due r"
    and "\<And>k s s'. (k, s) \<in> set flight \<Longrightarrow> (k, s') \<in> set flight \<Longrightarrow> s = s' \<or> s + vis \<le> s' \<or> s' + vis \<le> s"
    and "\<And>r. r \<in> set rows \<Longrightarrow> \<not> pending r \<Longrightarrow> (key r, due r) \<notin> set flight"
  shows "flight_ok rows flight"
  unfolding flight_ok_def using assms by fast

lemma flight_ok_died: "flight_ok rows flight \<Longrightarrow> flight_ok rows (remove1 x flight)"
proof (rule flight_okI)
  assume ok: "flight_ok rows flight"
  fix k s assume "(k, s) \<in> set (remove1 x flight)"
  with set_remove1_subset [of x flight] have "(k, s) \<in> set flight" by blast
  with ok show "\<exists>r \<in> set rows. key r = k \<and> s \<le> due r" unfolding flight_ok_def by blast
next
  assume ok: "flight_ok rows flight"
  fix k s s' assume "(k, s) \<in> set (remove1 x flight)" "(k, s') \<in> set (remove1 x flight)"
  with set_remove1_subset [of x flight] show "s = s' \<or> s + vis \<le> s' \<or> s' + vis \<le> s" by (intro flight_gap [OF ok]) auto
next
  assume ok: "flight_ok rows flight"
  fix r assume "r \<in> set rows" "\<not> pending r"
  from flight_done [OF ok this] set_remove1_subset [of x flight] show "(key r, due r) \<notin> set (remove1 x flight)" by blast
qed (simp_all add: flight_ok_def)

lemma flight_ok_arrived:
  assumes ok: "flight_ok rows flight" and d: "distinct (map key (rows @ new))"
  shows "flight_ok (rows @ new) flight"
proof (rule flight_okI)
  fix k s assume "(k, s) \<in> set flight"
  with ok show "\<exists>r \<in> set (rows @ new). key r = k \<and> s \<le> due r" unfolding flight_ok_def by fastforce
next
  fix r assume r: "r \<in> set (rows @ new)" "\<not> pending r"
  show "(key r, due r) \<notin> set flight"
  proof
    assume f: "(key r, due r) \<in> set flight"
    with ok obtain r' where r': "r' \<in> set rows" "key r' = key r" unfolding flight_ok_def by blast
    with unique_row [OF d, of r r'] r have "r \<in> set rows" by auto
    with flight_done [OF ok] r(2) f show False by blast
  qed
qed (use ok d flight_gap [OF ok] in \<open>auto simp: flight_ok_def\<close>)

lemma flight_ok_claimed:
  assumes ok: "flight_ok rows flight" and c: "claim now n rows = (ks, rows')"
  shows "flight_ok rows' (flight @ map (\<lambda>k. (k, now + vis)) ks)"
proof -
  have d: "distinct (map key rows)" using ok by (simp add: flight_ok_def)
  have keys: "map key rows' = map key rows" using claim_keys [of now n rows] c by simp
  then have d': "distinct (map key rows')" using d by simp
  have taken: "\<exists>r r'. r \<in> set rows \<and> key r = k \<and> pending r \<and> due r \<le> now \<and> r' \<in> set rows' \<and> key r' = k \<and> pending r' \<and> due r' = now + vis"
    if "k \<in> set ks" for k using claim_taken [OF d, of k now n] that c by simp
  have old: "s \<le> now" if "(k, s) \<in> set flight" "k \<in> set ks" for k s
    using taken [OF that(2)] flight_row [OF ok that(1)] by force
  have others: "r' \<in> set rows" if "r' \<in> set rows'" "key r' \<notin> set ks" for r'
    using claim_others [OF d, of r' now n] that c by simp
  show ?thesis
  proof (rule flight_okI)
    have "distinct ks" using claim_distinct [OF d, of now n] c by simp
    moreover have "(k, now + vis) \<notin> set flight" if "k \<in> set ks" for k using old [OF _ that] vis_pos by force
    ultimately show "distinct (flight @ map (\<lambda>k. (k, now + vis)) ks)"
      using ok by (auto simp: flight_ok_def distinct_map inj_on_def)
  next
    fix k s assume f: "(k, s) \<in> set (flight @ map (\<lambda>k. (k, now + vis)) ks)"
    show "\<exists>r \<in> set rows'. key r = k \<and> s \<le> due r"
    proof (cases "k \<in> set ks")
      case True
      then have "s \<le> now + vis" using f old [of k s] vis_pos by auto
      with taken [OF True] show ?thesis by fastforce
    next
      case False
      with f ok obtain r where r: "r \<in> set rows" "key r = k" "s \<le> due r" unfolding flight_ok_def by fastforce
      then have "k \<in> set (map key rows')" by (auto simp: keys)
      then obtain r' where r': "r' \<in> set rows'" "key r' = k" by auto
      with others False unique_row [OF d, of r r'] r have "r' = r" by metis
      with r r' show ?thesis by blast
    qed
  next
    fix k s s' assume "(k, s) \<in> set (flight @ map (\<lambda>k. (k, now + vis)) ks)" "(k, s') \<in> set (flight @ map (\<lambda>k. (k, now + vis)) ks)"
    with flight_gap [OF ok] old show "s = s' \<or> s + vis \<le> s' \<or> s' + vis \<le> s" by fastforce
  next
    fix r assume r: "r \<in> set rows'" "\<not> pending r"
    have nk: "key r \<notin> set ks"
    proof
      assume "key r \<in> set ks"
      from taken [OF this] obtain r' where "r' \<in> set rows'" "key r' = key r" "pending r'" by blast
      with unique_row [OF d'] r show False by metis
    qed
    with flight_done [OF ok others [OF r(1) nk] r(2)] show "(key r, due r) \<notin> set (flight @ map (\<lambda>k. (k, now + vis)) ks)" by auto
  qed (rule d')
qed

lemma flight_ok_finished:
  assumes ok: "flight_ok rows flight" and f: "(k, s) \<in> set flight" and va: "valid out s" and r: "rec out k s rows = (applied, rows')"
  shows "flight_ok rows' (remove1 (k, s) flight)"
proof (cases "\<exists>r \<in> set rows. key r = k \<and> due r = s")
  case False
  then have "rows' = rows" using rec_stale [of rows k s out] r by auto
  with flight_ok_died [OF ok] show ?thesis by simp
next
  case True
  then obtain r0 where r0: "r0 \<in> set rows" "key r0 = k" "due r0 = s" by blast
  have d: "distinct (map key rows)" "distinct flight" using ok by (auto simp: flight_ok_def)
  have keys: "map key rows' = map key rows" using rec_keys [of out k s rows] r by simp
  have d': "distinct (map key rows')" using d keys by simp
  have others: "r' \<in> set rows" if "r' \<in> set rows'" "key r' \<noteq> k" for r' using rec_others [of r' out k s rows] that r by simp
  have own: "if pending r' then s - vis < due r' else due r' = s" if "r' \<in> set rows'" "key r' = k" for r'
    using rec_row [OF va d(1) r0, of r'] that r by simp
  have fl: "set (remove1 (k, s) flight) = set flight - {(k, s)}" using d(2) by (rule set_remove1_eq)
  have older: "s' \<le> s - vis" if "(k, s') \<in> set flight" "s' \<noteq> s" for s'
    using flight_gap [OF ok that(1) f] flight_row [OF ok that(1) r0(1,2)] that(2) vis_pos r0(3) by auto
  show ?thesis
  proof (rule flight_okI)
    fix k' s' assume "(k', s') \<in> set (remove1 (k, s) flight)"
    then have f': "(k', s') \<in> set flight" "(k', s') \<noteq> (k, s)" by (auto simp: fl)
    from ok f'(1) obtain r1 where r1: "r1 \<in> set rows" "key r1 = k'" "s' \<le> due r1" unfolding flight_ok_def by blast
    then have "k' \<in> set (map key rows')" by (auto simp: keys)
    then obtain r' where r': "r' \<in> set rows'" "key r' = k'" by auto
    show "\<exists>r \<in> set rows'. key r = k' \<and> s' \<le> due r"
    proof (cases "k' = k")
      case True
      with own [of r'] r' older [of s'] f' vis_pos have "s' \<le> due r'" by (auto split: if_splits)
      with r' show ?thesis by blast
    next
      case False
      with others [of r'] r' unique_row [OF d(1), of r1 r'] r1 show ?thesis by metis
    qed
  next
    fix k' s1 s2 assume "(k', s1) \<in> set (remove1 (k, s) flight)" "(k', s2) \<in> set (remove1 (k, s) flight)"
    with flight_gap [OF ok, of k' s1 s2] show "s1 = s2 \<or> s1 + vis \<le> s2 \<or> s2 + vis \<le> s1" by (simp add: fl)
  next
    fix r' assume r': "r' \<in> set rows'" "\<not> pending r'"
    show "(key r', due r') \<notin> set (remove1 (k, s) flight)"
    proof (cases "key r' = k")
      case True
      with own [OF r'(1)] r'(2) show ?thesis by (simp add: fl)
    next
      case False
      with flight_done [OF ok others [OF r'(1) False] r'(2)] show ?thesis by (simp add: fl)
    qed
  qed (use d d' in simp_all)
qed

lemma reach_flight_ok:
  assumes "worker_reach key claim rec valid vis rows0 rows flight" "distinct (map key rows0)"
  shows "flight_ok rows flight"
  using assms
proof (induction rule: worker_reach.induct)
  case start
  then show ?case by (auto simp: flight_ok_def)
next
  case (claimed rows flight now n ks rows')
  then show ?case using flight_ok_claimed by blast
next
  case (finished rows flight k s out applied rows')
  then show ?case using flight_ok_finished by blast
next
  case (died rows flight k s)
  then show ?case using flight_ok_died by blast
next
  case (arrived rows flight new)
  then show ?case using flight_ok_arrived by blast
qed

lemma recorded_once:
  assumes "worker_reach key claim rec valid vis rows0 rows flight" "distinct (map key rows0)" "r \<in> set rows"
  shows "length (filter (\<lambda>(k, s). k = key r \<and> s = due r) flight) \<le> (if pending r then 1 else 0)"
proof -
  note ok = reach_flight_ok [OF assms(1,2)]
  have e: "filter (\<lambda>(k, s). k = key r \<and> s = due r) flight = filter ((=) (key r, due r)) flight"
    by (rule filter_cong) auto
  show ?thesis
  proof (cases "(key r, due r) \<in> set flight")
    case True
    with flight_done [OF ok assms(3)] have "pending r" by blast
    moreover have "length (filter ((=) (key r, due r)) flight) \<le> 1"
      using ok by (intro distinct_filter_eq) (simp add: flight_ok_def)
    ultimately show ?thesis by (simp add: e)
  next
    case False
    then have "filter ((=) (key r, due r)) flight = []" by (auto simp: filter_empty_conv)
    then show ?thesis by (simp add: e)
  qed
qed

end

end
