(* ===== verification/Drain.thy ===== *)
theory Drain
  imports Redaction Work_Queue
begin

section \<open>The outbox drain\<close>

text \<open>
  \<^verbatim>\<open>audit/worker/drain.py\<close>: \<open>fan_out_once\<close>, \<open>claim\<close>, \<open>record\<close>, \<open>attempt_delivery\<close> and \<open>drain_once\<close>. Adapter code comes
  in through the registry of subscribers. \<open>jit\<close> is the draw of \<^verbatim>\<open>random.uniform(0, base)\<close> for a delivery, a duration; \<open>env\<close> is
  what other transactions commit while no lock is held (before an event is locked, while a handler runs). A table is in
  primary-key order, so \<^verbatim>\<open>order_by("id")\<close> is the table's own order; \<^verbatim>\<open>skip_locked\<close> only matters for claims that overlap in
  time, which the database serialises. The listing types that \<^verbatim>\<open>_private_custom_fields\<close> reads are an argument. Building a
  context for a handler reads settings and cannot change the tables.
\<close>

definition MAX_ATTEMPTS :: nat where
  "MAX_ATTEMPTS = 12"

definition BACKOFF_CAP_SECONDS :: int where
  "BACKOFF_CAP_SECONDS = 3600"

definition CLAIM_VISIBILITY :: duration where
  "CLAIM_VISIBILITY = seconds 90"

definition FAN_OUT_CAP :: nat where
  "FAN_OUT_CAP = 1000"

definition backoff :: "(int \<Rightarrow> duration) \<Rightarrow> nat \<Rightarrow> duration" where
  "backoff uniform attempt = uniform (min (2 ^ (attempt - 1)) BACKOFF_CAP_SECONDS)"

subsection \<open>Fan-out\<close>

datatype drain_error = RowDoesNotExist

definition delivery_tenant :: "outbox_event \<Rightarrow> nat option" where
  "delivery_tenant ev = (if starts_with (ev_type ev) TENANT_PREFIX then None else Some (ev_tenant ev))"

definition wants_event :: "subscriber \<Rightarrow> outbox_event \<Rightarrow> 'z core_db_scheme \<Rightarrow> bool" where
  "wants_event s ev db =
     (case sb_wants s of
        None \<Rightarrow> True
      | Some w \<Rightarrow>
          let config = (case delivery_tenant ev of
                None \<Rightarrow> None
              | Some pk \<Rightarrow> map_option (\<lambda>tn. adapter_config tn (sb_id s) (sb_config_key s)) (find_by tn_pk pk (tenants db)))
          in (case w (ev_type ev) config of Inr b \<Rightarrow> b | Inl exc \<Rightarrow> True))"

definition new_delivery :: "outbox_event \<Rightarrow> string \<Rightarrow> instant \<Rightarrow> 'z core_db_scheme \<Rightarrow> delivery" where
  "new_delivery ev adapter now db =
     \<lparr>dl_pk = Suc (seq db), dl_event = ev_pk ev, dl_tenant = delivery_tenant ev, dl_subject = ev_subject ev,
      dl_adapter_id = adapter, dl_status = DlPending, dl_attempt = 0, dl_next_attempt_at = now, dl_first_attempted_at = None,
      dl_last_attempted_at = None, dl_last_error = [], dl_delivered_at = None, dl_created_at = wall db\<rparr>"

text \<open>\<^verbatim>\<open>get_or_create(event=..., adapter_id=..., defaults=...)\<close>.\<close>

definition get_or_create_delivery :: "outbox_event \<Rightarrow> string \<Rightarrow> instant \<Rightarrow> 'z core_db_scheme \<Rightarrow> bool \<times> 'z core_db_scheme" where
  "get_or_create_delivery ev adapter now db =
     (if find (\<lambda>d. dl_event d = ev_pk ev \<and> dl_adapter_id d = adapter) (deliveries db) \<noteq> None then (False, db)
      else (True, db\<lparr>deliveries := deliveries db @ [new_delivery ev adapter now db], seq := Suc (seq db)\<rparr>))"

fun fan_subscribers :: "outbox_event \<Rightarrow> instant \<Rightarrow> subscriber list \<Rightarrow> nat \<Rightarrow> 'z core_db_scheme \<Rightarrow> nat \<times> 'z core_db_scheme" where
  "fan_subscribers ev now [] created db = (created, db)"
| "fan_subscribers ev now (s # ss) created db =
     (if \<not> wants_event s ev db then fan_subscribers ev now ss created db
      else let (made, db1) = get_or_create_delivery ev (sb_id s) now db
           in fan_subscribers ev now ss (created + (if made then 1 else 0)) db1)"

definition dispatch :: "outbox_event \<Rightarrow> instant \<Rightarrow> 'z core_db_scheme \<Rightarrow> 'z core_db_scheme" where
  "dispatch ev now db =
     db\<lparr>outbox := update_where (\<lambda>x. ev_pk x = ev_pk ev) (\<lambda>x. x\<lparr>ev_status := EvDispatched, dispatched_at := Some now\<rparr>) (outbox db)\<rparr>"

fun fan_loop :: "(nat \<Rightarrow> 'z core_db_scheme \<Rightarrow> 'z core_db_scheme) \<Rightarrow> subscriber list \<Rightarrow> instant \<Rightarrow> nat \<Rightarrow> outbox_event list \<Rightarrow> nat \<Rightarrow> nat
    \<Rightarrow> 'z core_db_scheme \<Rightarrow> (drain_error + nat \<times> nat) \<times> 'z core_db_scheme" where
  "fan_loop env reg now i [] events created db = (Inr (events, created), db)"
| "fan_loop env reg now i (e # es) events created db0 =
     (let db = env i db0 in
      case find_by ev_pk (ev_pk e) (outbox db) of
        None \<Rightarrow> (Inl RowDoesNotExist, db)
      | Some locked \<Rightarrow>
          if ev_status locked \<noteq> EvPending then fan_loop env reg now (Suc i) es events created db
          else let (created1, db1) = fan_subscribers locked now (subscribers_for reg (ev_type locked)) created db
               in fan_loop env reg now (Suc i) es (Suc events) created1 (dispatch locked now db1))"

definition pending_events :: "'z core_db_scheme \<Rightarrow> outbox_event list" where
  "pending_events db = take FAN_OUT_CAP (filter (\<lambda>e. ev_status e = EvPending) (outbox db))"

definition fan_out_once :: "(nat \<Rightarrow> 'z core_db_scheme \<Rightarrow> 'z core_db_scheme) \<Rightarrow> subscriber list \<Rightarrow> instant \<Rightarrow> 'z core_db_scheme
    \<Rightarrow> (drain_error + nat \<times> nat) \<times> 'z core_db_scheme" where
  "fan_out_once env reg now db = fan_loop env reg now 0 (pending_events db) 0 0 db"

subsection \<open>Claim and record\<close>

definition claimable :: "instant \<Rightarrow> delivery list \<Rightarrow> delivery \<Rightarrow> bool" where
  "claimable now rows d \<longleftrightarrow> dl_status d = DlPending \<and> dl_next_attempt_at d \<le> now
     \<and> \<not> list_ex (\<lambda>e. dl_adapter_id e = dl_adapter_id d \<and> dl_subject e = dl_subject d \<and> dl_status e = DlPending \<and> dl_pk e < dl_pk d) rows"

definition claim_rows :: "instant \<Rightarrow> nat \<Rightarrow> delivery list \<Rightarrow> nat list \<times> delivery list" where
  "claim_rows now batch rows =
     (let pks = map dl_pk (take batch (filter (claimable now rows) rows))
      in (pks, update_where (\<lambda>d. dl_pk d \<in> set pks) (\<lambda>d. d\<lparr>dl_next_attempt_at := now + CLAIM_VISIBILITY\<rparr>) rows))"

definition claim :: "instant \<Rightarrow> nat \<Rightarrow> 'z core_db_scheme \<Rightarrow> nat list \<times> 'z core_db_scheme" where
  "claim now batch db = (let (pks, rows) = claim_rows now batch (deliveries db) in (pks, db\<lparr>deliveries := rows\<rparr>))"

text \<open>The keyword arguments of \<^verbatim>\<open>_record\<close>.\<close>

record dl_outcome =
  do_now :: instant
  do_status :: delivery_status
  do_attempt :: "nat option"
  do_next_attempt_at :: "instant option"
  do_error :: string

definition write_outcome :: "dl_outcome \<Rightarrow> delivery \<Rightarrow> delivery" where
  "write_outcome out d = d\<lparr>dl_status := do_status out, dl_last_attempted_at := Some (do_now out), dl_last_error := do_error out,
     dl_attempt := (case do_attempt out of None \<Rightarrow> dl_attempt d | Some n \<Rightarrow> n),
     dl_next_attempt_at := (case do_next_attempt_at out of None \<Rightarrow> dl_next_attempt_at d | Some t \<Rightarrow> t),
     dl_delivered_at := (if do_status out = DlDelivered then Some (do_now out) else dl_delivered_at d),
     dl_first_attempted_at := (if dl_first_attempted_at d = None then Some (do_now out) else dl_first_attempted_at d)\<rparr>"

definition record_rows :: "dl_outcome \<Rightarrow> nat \<Rightarrow> instant \<Rightarrow> delivery list \<Rightarrow> bool \<times> delivery list" where
  "record_rows out pk stamp rows =
     (let here = (\<lambda>d. dl_pk d = pk \<and> dl_next_attempt_at d = stamp) in (list_ex here rows, update_where here (write_outcome out) rows))"

definition record_outcome :: "delivery \<Rightarrow> dl_outcome \<Rightarrow> 'z core_db_scheme \<Rightarrow> bool \<times> 'z core_db_scheme" where
  "record_outcome d out db =
     (let (applied, rows) = record_rows out (dl_pk d) (dl_next_attempt_at d) (deliveries db) in (applied, db\<lparr>deliveries := rows\<rparr>))"

subsection \<open>One attempt\<close>

definition private_custom_fields :: "listing_type_row list \<Rightarrow> outbox_event \<Rightarrow> string list" where
  "private_custom_fields types ev =
     (if ev_type ev \<notin> set LISTING_EVENTS then []
      else (case dict_get (ev_data ev) ''type'' of
              Some (JStr type_key) \<Rightarrow>
                if type_key = [] then []
                else (case find (\<lambda>t. lt_tenant t = ev_tenant ev \<and> lt_key t = type_key) types of
                        None \<Rightarrow> []
                      | Some t \<Rightarrow> concat (map (\<lambda>f. case dict_get f ''key'' of
                            Some (JStr k) \<Rightarrow> if k \<noteq> [] \<and> \<not> (case dict_get f ''public'' of None \<Rightarrow> True | Some v \<Rightarrow> truthy v) then [k] else []
                          | _ \<Rightarrow> []) (lt_fields t)))
            | _ \<Rightarrow> []))"

definition subscriber_for :: "subscriber list \<Rightarrow> outbox_event \<Rightarrow> string \<Rightarrow> subscriber option" where
  "subscriber_for reg ev adapter = find (\<lambda>s. sb_id s = adapter) (subscribers_for reg (ev_type ev))"

text \<open>The envelope a subscriber receives.\<close>

definition sent_envelope :: "listing_type_row list \<Rightarrow> subscriber \<Rightarrow> tenant \<Rightarrow> tenant option \<Rightarrow> outbox_event \<Rightarrow> dict" where
  "sent_envelope types s ev_tn tenant ev =
     (let granted = granted_scopes s tenant
      in redact granted (if CONTACT \<notin> set granted then private_custom_fields types ev else []) (to_wire ev_tn ev))"

datatype disposition = D_DELIVERED | D_RETRIED | D_DEAD | D_DISCARDED

definition retry_delay :: "(int \<Rightarrow> duration) \<Rightarrow> nat \<Rightarrow> result \<Rightarrow> duration" where
  "retry_delay uniform completed res =
     (let delay = backoff uniform completed in
      case rs_retry_after_ms res of
        Some ms \<Rightarrow> if ms \<noteq> 0 then min (max delay (ms * 1000)) (seconds BACKOFF_CAP_SECONDS) else delay
      | None \<Rightarrow> delay)"

definition outcome_of :: "(int \<Rightarrow> duration) \<Rightarrow> nat \<Rightarrow> instant \<Rightarrow> result \<Rightarrow> dl_outcome \<times> disposition" where
  "outcome_of uniform attempt now res =
     (let completed = Suc attempt; reason = (if rs_reason res \<noteq> [] then rs_reason res else result_status_value (rs_status res)) in
      if rs_status res = R_OK \<or> rs_status res = R_SKIPPED then
        (\<lparr>do_now = now, do_status = DlDelivered, do_attempt = Some completed, do_next_attempt_at = None, do_error = []\<rparr>, D_DELIVERED)
      else if rs_status res = R_FAILED \<and> rs_permanent res \<or> MAX_ATTEMPTS \<le> completed then
        (\<lparr>do_now = now, do_status = DlDead, do_attempt = Some completed, do_next_attempt_at = None, do_error = reason\<rparr>, D_DEAD)
      else
        (\<lparr>do_now = now, do_status = DlPending, do_attempt = Some completed,
          do_next_attempt_at = Some (now + retry_delay uniform completed res), do_error = reason\<rparr>, D_RETRIED))"

definition unregistered :: "instant \<Rightarrow> dl_outcome" where
  "unregistered now = \<lparr>do_now = now, do_status = DlDead, do_attempt = None, do_next_attempt_at = None,
     do_error = ''subscriber not registered''\<rparr>"

definition attempt_delivery :: "('z core_db_scheme \<Rightarrow> 'z core_db_scheme) \<Rightarrow> listing_type_row list \<Rightarrow> subscriber list \<Rightarrow> (int \<Rightarrow> duration)
    \<Rightarrow> delivery \<Rightarrow> outbox_event \<Rightarrow> tenant \<Rightarrow> tenant option \<Rightarrow> instant \<Rightarrow> 'z core_db_scheme \<Rightarrow> disposition \<times> 'z core_db_scheme" where
  "attempt_delivery env types reg uniform d ev ev_tn tenant now db =
     (case subscriber_for reg ev (dl_adapter_id d) of
        None \<Rightarrow> (let (applied, db1) = record_outcome d (unregistered now) db in (if applied then D_DEAD else D_DISCARDED, db1))
      | Some s \<Rightarrow>
          let res = (case sb_handle s (sent_envelope types s ev_tn tenant ev) tenant of
                       Inr r \<Rightarrow> r | Inl exc \<Rightarrow> result_failed exc False);
              (out, disp) = outcome_of uniform (dl_attempt d) now res;
              (applied, db1) = record_outcome d out (env db)
          in (if applied then disp else D_DISCARDED, db1))"

subsection \<open>One pass\<close>

record drain_stats =
  events_fanned_out :: nat
  deliveries_created :: nat
  deliveries_attempted :: nat
  st_delivered :: nat
  st_retried :: nat
  st_dead_lettered :: nat
  st_stale_discarded :: nat

definition count_disposition :: "disposition \<Rightarrow> drain_stats \<Rightarrow> drain_stats" where
  "count_disposition disp st =
     (let st1 = st\<lparr>deliveries_attempted := Suc (deliveries_attempted st)\<rparr> in
      case disp of
        D_DELIVERED \<Rightarrow> st1\<lparr>st_delivered := Suc (st_delivered st)\<rparr>
      | D_RETRIED \<Rightarrow> st1\<lparr>st_retried := Suc (st_retried st)\<rparr>
      | D_DEAD \<Rightarrow> st1\<lparr>st_dead_lettered := Suc (st_dead_lettered st)\<rparr>
      | D_DISCARDED \<Rightarrow> st1\<lparr>st_stale_discarded := Suc (st_stale_discarded st)\<rparr>)"

text \<open>The row of a claimed key with its event, the event's tenant and its own tenant, as \<^verbatim>\<open>select_related\<close> joins them.\<close>

definition load_delivery :: "nat \<Rightarrow> 'z core_db_scheme \<Rightarrow> (delivery \<times> outbox_event \<times> tenant \<times> tenant option) option" where
  "load_delivery pk db =
     (case find_by dl_pk pk (deliveries db) of
        None \<Rightarrow> None
      | Some d \<Rightarrow> (case find_by ev_pk (dl_event d) (outbox db) of
          None \<Rightarrow> None
        | Some ev \<Rightarrow> (case find_by tn_pk (ev_tenant ev) (tenants db) of
            None \<Rightarrow> None
          | Some tn \<Rightarrow> Some (d, ev, tn, (case dl_tenant d of None \<Rightarrow> None | Some t \<Rightarrow> find_by tn_pk t (tenants db))))))"

fun attempt_loop :: "(nat \<Rightarrow> 'z core_db_scheme \<Rightarrow> 'z core_db_scheme) \<Rightarrow> listing_type_row list \<Rightarrow> subscriber list \<Rightarrow> (nat \<Rightarrow> int \<Rightarrow> duration)
    \<Rightarrow> instant \<Rightarrow> nat list \<Rightarrow> drain_stats \<Rightarrow> 'z core_db_scheme \<Rightarrow> (drain_error + drain_stats) \<times> 'z core_db_scheme" where
  "attempt_loop env types reg jit now [] st db = (Inr st, db)"
| "attempt_loop env types reg jit now (pk # pks) st db =
     (case load_delivery pk db of
        None \<Rightarrow> (Inl RowDoesNotExist, db)
      | Some (d, ev, tn, tenant) \<Rightarrow>
          let (disp, db1) = attempt_delivery (env pk) types reg (jit pk) d ev tn tenant now db
          in attempt_loop env types reg jit now pks (count_disposition disp st) db1)"

definition drain_once :: "(nat \<Rightarrow> 'z core_db_scheme \<Rightarrow> 'z core_db_scheme) \<Rightarrow> (nat \<Rightarrow> 'z core_db_scheme \<Rightarrow> 'z core_db_scheme)
    \<Rightarrow> listing_type_row list \<Rightarrow> subscriber list \<Rightarrow> (nat \<Rightarrow> int \<Rightarrow> duration) \<Rightarrow> instant \<Rightarrow> nat \<Rightarrow> 'z core_db_scheme
    \<Rightarrow> (drain_error + drain_stats) \<times> 'z core_db_scheme" where
  "drain_once fenv env types reg jit now batch db =
     (case fan_out_once fenv reg now db of
        (Inl e, db1) \<Rightarrow> (Inl e, db1)
      | (Inr (events, created), db1) \<Rightarrow>
          let (pks, db2) = claim now batch db1
          in attempt_loop env types reg jit now pks
               \<lparr>events_fanned_out = events, deliveries_created = created, deliveries_attempted = 0, st_delivered = 0, st_retried = 0,
                st_dead_lettered = 0, st_stale_discarded = 0\<rparr> db2)"

end
