(* ===== verification/Drain_Props.thy ===== *)
theory Drain_Props
  imports Drain
begin

section \<open>Properties of the outbox drain\<close>

text \<open>
  Head-of-line order of claims, the interpretation of the queue contract and what it gives for concurrent workers, the retry
  and dead-letter policy, and the completeness of the fan-out.
\<close>

subsection \<open>Claims respect the order of a stream\<close>

lemma claim_rows_pks: "fst (claim_rows now batch rows) = map dl_pk (take batch (filter (claimable now rows) rows))"
  by (simp add: claim_rows_def Let_def)

lemma claim_rows_table:
  "snd (claim_rows now batch rows) =
     update_where (\<lambda>d. dl_pk d \<in> set (fst (claim_rows now batch rows))) (\<lambda>d. d\<lparr>dl_next_attempt_at := now + CLAIM_VISIBILITY\<rparr>) rows"
  by (simp add: claim_rows_def Let_def)

lemma claimed_row:
  assumes "k \<in> set (fst (claim_rows now batch rows))"
  shows "\<exists>d \<in> set rows. dl_pk d = k \<and> claimable now rows d"
  using assms by (auto simp: claim_rows_pks dest!: in_set_takeD)

definition same_stream :: "delivery \<Rightarrow> delivery \<Rightarrow> bool" where
  "same_stream d e \<longleftrightarrow> dl_adapter_id d = dl_adapter_id e \<and> dl_subject d = dl_subject e"

text \<open>C18: A claim takes only deliveries that are pending, due and at the head of their stream: no earlier pending delivery of
  the same adapter and subject exists, so two claimed deliveries never belong to one stream; it takes at most the batch, and
  when it takes fewer it left no claimable delivery behind. Every claimed row gets the visibility deadline and no other row
  changes.\<close>
theorem claim_head_of_line:
  assumes "distinct (map dl_pk (deliveries db))" and "claim now batch db = (pks, db')"
  shows "length pks \<le> batch
    \<and> (\<forall>d \<in> set (deliveries db). dl_pk d \<in> set pks \<longrightarrow> dl_status d = DlPending \<and> dl_next_attempt_at d \<le> now
         \<and> (\<forall>e \<in> set (deliveries db). same_stream e d \<and> dl_status e = DlPending \<longrightarrow> dl_pk d \<le> dl_pk e)
         \<and> (\<forall>e \<in> set (deliveries db). same_stream d e \<and> dl_pk e \<in> set pks \<longrightarrow> d = e))
    \<and> (length pks < batch \<longrightarrow> (\<forall>d \<in> set (deliveries db). claimable now (deliveries db) d \<longrightarrow> dl_pk d \<in> set pks))
    \<and> deliveries db' = update_where (\<lambda>d. dl_pk d \<in> set pks) (\<lambda>d. d\<lparr>dl_next_attempt_at := now + CLAIM_VISIBILITY\<rparr>) (deliveries db)"
proof -
  have c: "claim_rows now batch (deliveries db) = (pks, deliveries db')" using assms(2) by (auto simp: claim_def split: prod.splits)
  have pks: "pks = map dl_pk (take batch (filter (claimable now (deliveries db)) (deliveries db)))"
    using claim_rows_pks [of now batch "deliveries db"] c by simp
  have head: "claimable now (deliveries db) d" if "d \<in> set (deliveries db)" "dl_pk d \<in> set pks" for d
    using claimed_row [of "dl_pk d" now batch "deliveries db"] that c assms(1) by (auto simp: distinct_map dest: inj_onD)
  have order: "dl_status d = DlPending \<and> dl_next_attempt_at d \<le> now
       \<and> (\<forall>e \<in> set (deliveries db). same_stream e d \<and> dl_status e = DlPending \<longrightarrow> dl_pk d \<le> dl_pk e)"
    if "d \<in> set (deliveries db)" "dl_pk d \<in> set pks" for d
    using head [OF that] by (fastforce simp: claimable_def list_ex_iff same_stream_def not_less)
  have one: "d = e" if *: "d \<in> set (deliveries db)" "e \<in> set (deliveries db)" "dl_pk d \<in> set pks" "dl_pk e \<in> set pks" "same_stream d e" for d e
  proof -
    from head [OF *(1,3)] head [OF *(2,4)] * have "\<not> dl_pk d < dl_pk e" "\<not> dl_pk e < dl_pk d"
      by (auto simp: claimable_def list_ex_iff same_stream_def)
    with * assms(1) show "d = e" by (auto simp: distinct_map dest: inj_onD)
  qed
  have "length pks \<le> batch" by (simp add: pks)
  moreover have "length pks < batch \<Longrightarrow> d \<in> set (deliveries db) \<Longrightarrow> claimable now (deliveries db) d \<Longrightarrow> dl_pk d \<in> set pks" for d
    by (auto simp: pks)
  moreover have "deliveries db' = update_where (\<lambda>d. dl_pk d \<in> set pks) (\<lambda>d. d\<lparr>dl_next_attempt_at := now + CLAIM_VISIBILITY\<rparr>) (deliveries db)"
    using claim_rows_table [of now batch "deliveries db"] c by simp
  ultimately show ?thesis using order one by blast
qed

subsection \<open>Sample deliveries\<close>

definition sample_delivery :: "nat \<Rightarrow> nat \<Rightarrow> delivery" where
  "sample_delivery pk n = \<lparr>dl_pk = pk, dl_event = 50, dl_tenant = Some 1, dl_subject = ''lst_10'', dl_adapter_id = ''webhook'',
     dl_status = DlPending, dl_attempt = n, dl_next_attempt_at = sample_now, dl_first_attempted_at = None, dl_last_attempted_at = None,
     dl_last_error = [], dl_delivered_at = None, dl_created_at = sample_now\<rparr>"

definition sample_queue :: billing_db where
  "sample_queue = (sample_db [])\<lparr>deliveries := [sample_delivery 60 0, sample_delivery 61 3]\<rparr>"

theorem claim_head_of_line_witness:
  "fst (claim sample_now 100 sample_queue) = [60] \<and> length [60::nat] \<le> 100"
proof -
  have c: "claim sample_now 100 sample_queue = ([60], snd (claim sample_now 100 sample_queue))"
    by (simp add: claim_def claim_rows_def sample_queue_def sample_delivery_def claimable_def)
  have "distinct (map dl_pk (deliveries sample_queue))" by (simp add: sample_queue_def sample_delivery_def)
  from claim_head_of_line [OF this c] c show ?thesis by (metis fst_conv)
qed

subsection \<open>The queue contract\<close>

text \<open>What an attempt records: a retry in the claim's future, or an end that leaves the deadline alone.\<close>

definition valid_outcome :: "dl_outcome \<Rightarrow> instant \<Rightarrow> bool" where
  "valid_outcome out stamp \<longleftrightarrow>
     (if do_status out = DlPending then (case do_next_attempt_at out of None \<Rightarrow> False | Some t \<Rightarrow> stamp - CLAIM_VISIBILITY < t)
      else do_next_attempt_at out = None)"

lemma distinct_take_filter: "distinct (map f xs) \<Longrightarrow> distinct (map f (take n (filter P xs)))"
  by (metis distinct_map_filter distinct_take take_map)

lemma write_outcome_simps [simp]:
  "dl_pk (write_outcome out d) = dl_pk d" "dl_status (write_outcome out d) = do_status out"
  "dl_next_attempt_at (write_outcome out d) = (case do_next_attempt_at out of None \<Rightarrow> dl_next_attempt_at d | Some t \<Rightarrow> t)"
  "dl_attempt (write_outcome out d) = (case do_attempt out of None \<Rightarrow> dl_attempt d | Some n \<Rightarrow> n)"
  "dl_adapter_id (write_outcome out d) = dl_adapter_id d" "dl_subject (write_outcome out d) = dl_subject d"
  "dl_event (write_outcome out d) = dl_event d"
  by (simp_all add: write_outcome_def)

interpretation dq: claim_queue dl_pk dl_next_attempt_at "\<lambda>d. dl_status d = DlPending" claim_rows record_rows valid_outcome CLAIM_VISIBILITY
proof
  show "0 < CLAIM_VISIBILITY" by (simp add: CLAIM_VISIBILITY_def seconds_def)
next
  fix rows :: "delivery list" and now n
  assume "distinct (map dl_pk rows)"
  then show "distinct (fst (claim_rows now n rows))" by (simp add: claim_rows_pks distinct_take_filter)
next
  fix rows :: "delivery list" and now n
  show "map dl_pk (snd (claim_rows now n rows)) = map dl_pk rows" by (simp add: claim_rows_table table_simps)
next
  fix rows :: "delivery list" and now n k
  assume "k \<in> set (fst (claim_rows now n rows))"
  from claimed_row [OF this] this show "\<exists>r r'. r \<in> set rows \<and> dl_pk r = k \<and> dl_status r = DlPending \<and> dl_next_attempt_at r \<le> now
      \<and> r' \<in> set (snd (claim_rows now n rows)) \<and> dl_pk r' = k \<and> dl_status r' = DlPending \<and> dl_next_attempt_at r' = now + CLAIM_VISIBILITY"
    by (fastforce simp: claim_rows_table set_update_where claimable_def)
next
  fix rows :: "delivery list" and now n r'
  assume "r' \<in> set (snd (claim_rows now n rows))" "dl_pk r' \<notin> set (fst (claim_rows now n rows))"
  then show "r' \<in> set rows" by (auto simp: claim_rows_table set_update_where split: if_splits)
next
  fix out k s and rows :: "delivery list"
  show "map dl_pk (snd (record_rows out k s rows)) = map dl_pk rows" by (simp add: record_rows_def Let_def table_simps)
next
  fix rows :: "delivery list" and k s out
  assume "\<And>r. r \<in> set rows \<Longrightarrow> dl_pk r = k \<Longrightarrow> dl_next_attempt_at r \<noteq> s"
  then show "snd (record_rows out k s rows) = rows" by (auto simp: record_rows_def Let_def intro: update_where_none)
next
  fix r' out k s and rows :: "delivery list"
  assume "r' \<in> set (snd (record_rows out k s rows))" "dl_pk r' \<noteq> k"
  then show "r' \<in> set rows" by (auto simp: record_rows_def Let_def set_update_where split: if_splits)
next
  fix out s and rows :: "delivery list" and r k r'
  assume "valid_outcome out s" "distinct (map dl_pk rows)" "r \<in> set rows" "dl_pk r = k" "dl_next_attempt_at r = s"
    "r' \<in> set (snd (record_rows out k s rows))" "dl_pk r' = k"
  note a = this
  from a(6) obtain x where x: "x \<in> set rows" "r' = (if dl_pk x = k \<and> dl_next_attempt_at x = s then write_outcome out x else x)"
    unfolding record_rows_def Let_def set_update_where snd_conv by blast
  with a(7) have "dl_pk x = k" by (simp split: if_splits)
  with a(2-4) x(1) have "x = r" by (auto simp: distinct_map dest: inj_onD)
  with x(2) a(4,5) have "r' = write_outcome out r" by simp
  with a(1,5) show "if dl_status r' = DlPending then s - CLAIM_VISIBILITY < dl_next_attempt_at r' else dl_next_attempt_at r' = s"
    by (auto simp: valid_outcome_def split: option.splits)
qed

lemma outcome_of_valid:
  assumes "\<And>b. 0 < uniform b"
  shows "valid_outcome (fst (outcome_of uniform attempt now res)) (now + CLAIM_VISIBILITY)"
    and "valid_outcome (unregistered now) (now + CLAIM_VISIBILITY)"
proof -
  have "0 < retry_delay uniform n res" for n
    using assms [of "min (2 ^ (n - 1)) BACKOFF_CAP_SECONDS"]
    by (auto simp: retry_delay_def Let_def backoff_def BACKOFF_CAP_SECONDS_def seconds_def split: option.split)
  then show "valid_outcome (fst (outcome_of uniform attempt now res)) (now + CLAIM_VISIBILITY)"
    by (auto simp: valid_outcome_def outcome_of_def Let_def)
qed (simp add: valid_outcome_def unregistered_def)

text \<open>C17: However many workers claim, hang, crash and report, in any order, an attempt is recorded at most once: of the claims
  in flight for a pending delivery at most one still carries the deadline its record is guarded on, and for a delivered or
  dead one none does, so a late result is discarded and never undoes a delivery. (Recorded outcomes retry strictly later than
  the claim's clock, which holds unless the jitter draws exactly zero.)\<close>
theorem delivery_recorded_once:
  assumes "distinct (map dl_pk rows0)"
    and "worker_reach dl_pk claim_rows record_rows valid_outcome CLAIM_VISIBILITY rows0 rows flight"
    and "d \<in> set rows"
  shows "length (filter (\<lambda>(k, s). k = dl_pk d \<and> s = dl_next_attempt_at d) flight) \<le> (if dl_status d = DlPending then 1 else 0)"
  by (rule dq.recorded_once [OF assms(2,1,3)])

theorem delivery_recorded_once_witness:
  "length (filter (\<lambda>(k, s). k = 60 \<and> s = sample_now + CLAIM_VISIBILITY) [(60::nat, sample_now + CLAIM_VISIBILITY)]) \<le> 1"
proof -
  let ?d = "(sample_delivery 60 0)\<lparr>dl_next_attempt_at := sample_now + CLAIM_VISIBILITY\<rparr>"
  have c: "claim_rows sample_now 100 [sample_delivery 60 0] = ([60], [?d])"
    by (simp add: claim_rows_def sample_delivery_def claimable_def)
  have d: "distinct (map dl_pk [sample_delivery 60 0])" by simp
  have r: "worker_reach dl_pk claim_rows record_rows valid_outcome CLAIM_VISIBILITY [sample_delivery 60 0] [?d]
      [(60, sample_now + CLAIM_VISIBILITY)]"
    using worker_reach.claimed [where claim = claim_rows and rows = "[sample_delivery 60 0]", OF worker_reach.start c] by simp
  have "?d \<in> set [?d]" by simp
  from delivery_recorded_once [OF d r this] show ?thesis by (simp add: sample_delivery_def)
qed

subsection \<open>Retry and dead letter\<close>

definition fair_jitter :: "(int \<Rightarrow> duration) \<Rightarrow> bool" where
  "fair_jitter uniform \<longleftrightarrow> (\<forall>b. 0 \<le> b \<longrightarrow> 0 \<le> uniform b \<and> uniform b \<le> seconds b)"

lemma retry_delay_bounds:
  assumes "fair_jitter uniform"
  shows "0 \<le> retry_delay uniform n res \<and> retry_delay uniform n res \<le> hours 1"
proof -
  let ?b = "min (2 ^ (n - 1)) BACKOFF_CAP_SECONDS"
  have "0 \<le> uniform ?b \<and> uniform ?b \<le> seconds ?b" using assms by (simp add: fair_jitter_def BACKOFF_CAP_SECONDS_def)
  moreover have "seconds ?b \<le> hours 1" by (simp add: time_simps BACKOFF_CAP_SECONDS_def)
  ultimately show ?thesis
    by (auto simp: retry_delay_def Let_def backoff_def BACKOFF_CAP_SECONDS_def time_simps split: option.split)
qed

lemma record_outcome_here:
  assumes "distinct (map dl_pk (deliveries db))" "d \<in> set (deliveries db)"
  shows "\<exists>db'. record_outcome d out db = (True, db') \<and> find_by dl_pk (dl_pk d) (deliveries db') = Some (write_outcome out d)"
proof -
  let ?here = "\<lambda>x. dl_pk x = dl_pk d \<and> dl_next_attempt_at x = dl_next_attempt_at d"
  have "find_by dl_pk (dl_pk d) (update_where ?here (write_outcome out) (deliveries db)) = Some (write_outcome out d)"
    by (subst find_by_update_where) (simp_all add: find_by_distinct [OF assms])
  moreover have "list_ex ?here (deliveries db)" using assms(2) by (auto simp: list_ex_iff)
  ultimately show ?thesis by (simp add: record_outcome_def record_rows_def)
qed

text \<open>C19: The retry policy of one attempt on a row that is where its claim left it: the attempt is counted; an \<^verbatim>\<open>ok\<close> or
  \<^verbatim>\<open>skipped\<close> result delivers; a permanent failure or the twelfth completed attempt dead-letters; anything else, a raised
  exception included, stays pending with fewer than twelve attempts and a next attempt between now and one hour from now,
  whatever delay the adapter asked for.\<close>
theorem attempt_delivery_policy:
  assumes "distinct (map dl_pk (deliveries (env db)))" and "d \<in> set (deliveries (env db))"
    and "subscriber_for reg ev (dl_adapter_id d) = Some s" and "fair_jitter uniform" and "dl_attempt d < MAX_ATTEMPTS"
    and "res = (case sb_handle s (sent_envelope types s ev_tn tenant ev) tenant of Inr r \<Rightarrow> r | Inl exc \<Rightarrow> result_failed exc False)"
    and "attempt_delivery env types reg uniform d ev ev_tn tenant now db = (disp, db')"
  shows "\<exists>d'. find_by dl_pk (dl_pk d) (deliveries db') = Some d' \<and> dl_attempt d' = Suc (dl_attempt d)
    \<and> (if rs_status res \<in> {R_OK, R_SKIPPED} then disp = D_DELIVERED \<and> dl_status d' = DlDelivered \<and> dl_delivered_at d' = Some now
       else if rs_status res = R_FAILED \<and> rs_permanent res \<or> Suc (dl_attempt d) = MAX_ATTEMPTS then disp = D_DEAD \<and> dl_status d' = DlDead
       else disp = D_RETRIED \<and> dl_status d' = DlPending \<and> dl_attempt d' < MAX_ATTEMPTS
         \<and> now \<le> dl_next_attempt_at d' \<and> dl_next_attempt_at d' \<le> now + hours 1)"
proof -
  obtain out disp0 where o: "outcome_of uniform (dl_attempt d) now res = (out, disp0)" by fastforce
  from record_outcome_here [OF assms(1,2), of out] obtain db1 where
    r: "record_outcome d out (env db) = (True, db1)" "find_by dl_pk (dl_pk d) (deliveries db1) = Some (write_outcome out d)" by blast
  from assms(7) r(1) have db: "db' = db1" "disp = disp0"
    by (simp_all add: attempt_delivery_def assms(3) assms(6) [symmetric] o Let_def)
  have b: "0 \<le> retry_delay uniform n res" "retry_delay uniform n res \<le> hours 1" for n using retry_delay_bounds [OF assms(4)] by auto
  show ?thesis
    by (rule exI [of _ "write_outcome out d"])
      (use r(2) o b assms(5) in \<open>auto simp: db outcome_of_def Let_def write_outcome_def split: if_splits\<close>)
qed

definition sample_subscriber :: subscriber where
  "sample_subscriber = \<lparr>sb_id = ''webhook'', sb_subscribes = [], sb_scopes = [], sb_config_key = None, sb_wants = None,
     sb_handle = (\<lambda>env ctx. Inl ''TimeoutError'')\<rparr>"

definition sample_event :: outbox_event where
  "sample_event = \<lparr>ev_pk = 50, event_id = ''01H'', ev_type = ''listing.tier_changed'', ev_version = 1, occurred_at = sample_now,
     ev_subject = ''lst_10'', ev_tenant = 1, ev_actor = [], ev_origin = [], ev_trace_id = [], ev_data = [], ev_status = EvPending,
     payload_nulled_at = None, ev_created_at = sample_now, dispatched_at = None, ev_delivered_at = None\<rparr>"

theorem attempt_delivery_policy_witness:
  "\<exists>db' d'. attempt_delivery (\<lambda>d. d) [] [sample_subscriber] (\<lambda>b. seconds b) (sample_delivery 61 3) sample_event sample_tenant
       (Some sample_tenant) sample_now sample_queue = (D_RETRIED, db')
     \<and> find_by dl_pk 61 (deliveries db') = Some d' \<and> dl_attempt d' = 4"
proof -
  let ?s = sample_subscriber
  have s: "subscriber_for [?s] sample_event (dl_adapter_id (sample_delivery 61 3)) = Some ?s"
    using glob_star [of "ev_type sample_event"]
    by (simp add: subscriber_for_def subscribers_for_def matches_def sample_subscriber_def sample_delivery_def del: glob.simps)
  have q: "distinct (map dl_pk (deliveries sample_queue))" "sample_delivery 61 3 \<in> set (deliveries sample_queue)"
    "dl_attempt (sample_delivery 61 3) < MAX_ATTEMPTS" "dl_pk (sample_delivery 61 3) = 61" "dl_attempt (sample_delivery 61 3) = 3"
    by (simp_all add: sample_queue_def sample_delivery_def MAX_ATTEMPTS_def)
  have f: "fair_jitter (\<lambda>b. seconds b)" by (simp add: fair_jitter_def seconds_def)
  have h: "result_failed ''TimeoutError'' False = (case sb_handle ?s (sent_envelope [] ?s sample_tenant (Some sample_tenant) sample_event)
      (Some sample_tenant) of Inr r \<Rightarrow> r | Inl exc \<Rightarrow> result_failed exc False)" by (simp add: sample_subscriber_def)
  obtain disp db' where a: "attempt_delivery (\<lambda>d. d) [] [?s] (\<lambda>b. seconds b) (sample_delivery 61 3) sample_event sample_tenant
      (Some sample_tenant) sample_now sample_queue = (disp, db')" by fastforce
  from attempt_delivery_policy [where env = "\<lambda>d. d", OF q(1,2) s f q(3) h a] a q(4,5) show ?thesis
    by (auto simp: result_failed_def MAX_ATTEMPTS_def)
qed

subsection \<open>The fan-out loses nothing and repeats nothing\<close>

definition one_each :: "delivery list \<Rightarrow> bool" where
  "one_each rows \<longleftrightarrow> distinct (map (\<lambda>d. (dl_event d, dl_adapter_id d)) rows)"

definition has_delivery :: "delivery list \<Rightarrow> nat \<Rightarrow> string \<Rightarrow> bool" where
  "has_delivery rows ev adapter \<longleftrightarrow> (\<exists>d \<in> set rows. dl_event d = ev \<and> dl_adapter_id d = adapter)"

lemma wants_event_cong: "tenants db' = tenants db \<Longrightarrow> wants_event s ev db' = wants_event s ev db"
  by (simp add: wants_event_def Let_def cong: option.case_cong)

lemma wants_event_tables [simp]:
  "wants_event s ev (db\<lparr>deliveries := ds, seq := n\<rparr>) = wants_event s ev db"
  "wants_event s ev (db\<lparr>outbox := es, deliveries := ds, seq := n\<rparr>) = wants_event s ev db"
  by (rule wants_event_cong, simp)+

lemma fan_subscribers_effect:
  "fan_subscribers ev now ss c db = (c', db') \<Longrightarrow>
   \<exists>new n. db' = db\<lparr>deliveries := deliveries db @ new, seq := n\<rparr> \<and> c' = c + length new
     \<and> (\<forall>s \<in> set ss. wants_event s ev db \<longrightarrow> has_delivery (deliveries db') (ev_pk ev) (sb_id s))
     \<and> (\<forall>d \<in> set new. dl_event d = ev_pk ev \<and> dl_status d = DlPending \<and> dl_attempt d = 0 \<and> dl_next_attempt_at d = now
          \<and> dl_subject d = ev_subject ev \<and> (\<exists>s \<in> set ss. wants_event s ev db \<and> dl_adapter_id d = sb_id s))
     \<and> (one_each (deliveries db) \<longrightarrow> one_each (deliveries db'))"
proof (induction ss arbitrary: c db)
  case Nil
  then show ?case by (intro exI [of _ "[]"] exI [of _ "seq db"]) simp
next
  case (Cons s ss)
  show ?case
  proof (cases "wants_event s ev db \<and> find (\<lambda>d. dl_event d = ev_pk ev \<and> dl_adapter_id d = sb_id s) (deliveries db) = None")
    case True
    let ?d = "new_delivery ev (sb_id s) now db"
    let ?db = "db\<lparr>deliveries := deliveries db @ [?d], seq := Suc (seq db)\<rparr>"
    from True Cons.prems have "fan_subscribers ev now ss (Suc c) ?db = (c', db')" by (simp add: get_or_create_delivery_def)
    from Cons.IH [OF this] obtain new n where
      e: "db' = ?db\<lparr>deliveries := deliveries ?db @ new, seq := n\<rparr>" "c' = Suc c + length new"
        "\<forall>s \<in> set ss. wants_event s ev ?db \<longrightarrow> has_delivery (deliveries db') (ev_pk ev) (sb_id s)"
        "\<forall>d \<in> set new. dl_event d = ev_pk ev \<and> dl_status d = DlPending \<and> dl_attempt d = 0 \<and> dl_next_attempt_at d = now
          \<and> dl_subject d = ev_subject ev \<and> (\<exists>s \<in> set ss. wants_event s ev ?db \<and> dl_adapter_id d = sb_id s)"
        "one_each (deliveries ?db) \<longrightarrow> one_each (deliveries db')" by blast
    have nd: "dl_event ?d = ev_pk ev" "dl_adapter_id ?d = sb_id s" "dl_status ?d = DlPending" "dl_attempt ?d = 0"
      "dl_next_attempt_at ?d = now" "dl_subject ?d = ev_subject ev" by (simp_all add: new_delivery_def)
    have "one_each (deliveries db) \<longrightarrow> one_each (deliveries ?db)" using True by (auto simp: one_each_def nd find_None_iff)
    moreover have "has_delivery (deliveries db') (ev_pk ev) (sb_id s)" by (auto simp: has_delivery_def e(1) nd)
    ultimately show ?thesis using e True nd
      by (intro exI [of _ "?d # new"] exI [of _ n]) auto
  next
    case False
    then have run: "fan_subscribers ev now ss c db = (c', db')" using Cons.prems by (auto simp: get_or_create_delivery_def split: if_splits)
    from Cons.IH [OF run] obtain new n where e: "db' = db\<lparr>deliveries := deliveries db @ new, seq := n\<rparr>" "c' = c + length new"
        "\<forall>s \<in> set ss. wants_event s ev db \<longrightarrow> has_delivery (deliveries db') (ev_pk ev) (sb_id s)"
        "\<forall>d \<in> set new. dl_event d = ev_pk ev \<and> dl_status d = DlPending \<and> dl_attempt d = 0 \<and> dl_next_attempt_at d = now
          \<and> dl_subject d = ev_subject ev \<and> (\<exists>s \<in> set ss. wants_event s ev db \<and> dl_adapter_id d = sb_id s)"
        "one_each (deliveries db) \<longrightarrow> one_each (deliveries db')" by blast
    have "wants_event s ev db \<longrightarrow> has_delivery (deliveries db') (ev_pk ev) (sb_id s)"
      using False by (auto simp: has_delivery_def e(1) find_None_iff)
    with e show ?thesis by (intro exI [of _ new] exI [of _ n]) auto
  qed
qed

lemma one_each_has: "one_each rows \<Longrightarrow> has_delivery rows ev a \<Longrightarrow> \<exists>!d. d \<in> set rows \<and> dl_event d = ev \<and> dl_adapter_id d = a"
  by (auto simp: one_each_def has_delivery_def distinct_map inj_on_def)

text \<open>What the loop over the pending events leaves, when nobody else dispatches them meanwhile.\<close>

definition fanned :: "subscriber list \<Rightarrow> instant \<Rightarrow> outbox_event list \<Rightarrow> 'z core_db_scheme \<Rightarrow> delivery list \<Rightarrow> 'z core_db_scheme \<Rightarrow> bool" where
  "fanned reg now es db new db' \<longleftrightarrow>
     outbox db' = update_where (\<lambda>x. ev_pk x \<in> ev_pk ` set es) (\<lambda>x. x\<lparr>ev_status := EvDispatched, dispatched_at := Some now\<rparr>) (outbox db)
   \<and> deliveries db' = deliveries db @ new \<and> tenants db' = tenants db
   \<and> (\<forall>e \<in> set es. \<forall>s \<in> set (subscribers_for reg (ev_type e)). wants_event s e db \<longrightarrow> has_delivery (deliveries db') (ev_pk e) (sb_id s))
   \<and> (\<forall>d \<in> set new. \<exists>e \<in> set es. dl_event d = ev_pk e \<and> dl_status d = DlPending \<and> dl_attempt d = 0 \<and> dl_next_attempt_at d = now
        \<and> dl_subject d = ev_subject e \<and> (\<exists>s \<in> set (subscribers_for reg (ev_type e)). wants_event s e db \<and> dl_adapter_id d = sb_id s))
   \<and> (one_each (deliveries db) \<longrightarrow> one_each (deliveries db'))"

lemma has_delivery_append: "has_delivery xs ev a \<Longrightarrow> has_delivery (xs @ ys) ev a"
  by (auto simp: has_delivery_def)

lemma update_where_two:
  "(\<And>x. P x \<Longrightarrow> Q (f x) \<Longrightarrow> f (f x) = f x) \<Longrightarrow> (\<And>x. P x \<Longrightarrow> Q (f x) = Q x) \<Longrightarrow>
   update_where Q f (update_where P f xs) = update_where (\<lambda>x. P x \<or> Q x) f xs"
  by (induction xs) auto

lemma fan_loop_effect:
  assumes "distinct (map ev_pk (outbox db))" "set es \<subseteq> set (outbox db)" "\<forall>e \<in> set es. ev_status e = EvPending" "distinct (map ev_pk es)"
  shows "\<exists>new db'. fan_loop (\<lambda>_ d. d) reg now i es n c db = (Inr (n + length es, c + length new), db') \<and> fanned reg now es db new db'"
  using assms
proof (induction es arbitrary: i n c db)
  case Nil
  then show ?case by (intro exI [of _ "[]"] exI [of _ db]) (simp add: fanned_def update_where_none)
next
  case (Cons e es)
  have f: "find_by ev_pk (ev_pk e) (outbox db) = Some e" using Cons.prems by (intro find_by_distinct) auto
  have pend: "ev_status e = EvPending" using Cons.prems by simp
  obtain c1 db1 where fs: "fan_subscribers e now (subscribers_for reg (ev_type e)) c db = (c1, db1)" by fastforce
  from fan_subscribers_effect [OF fs] obtain new m where
    d1: "db1 = db\<lparr>deliveries := deliveries db @ new, seq := m\<rparr>" and c1: "c1 = c + length new"
    and h1: "\<forall>s \<in> set (subscribers_for reg (ev_type e)). wants_event s e db \<longrightarrow> has_delivery (deliveries db1) (ev_pk e) (sb_id s)"
    and n1: "\<forall>d \<in> set new. dl_event d = ev_pk e \<and> dl_status d = DlPending \<and> dl_attempt d = 0 \<and> dl_next_attempt_at d = now
        \<and> dl_subject d = ev_subject e \<and> (\<exists>s \<in> set (subscribers_for reg (ev_type e)). wants_event s e db \<and> dl_adapter_id d = sb_id s)"
    and o1: "one_each (deliveries db) \<longrightarrow> one_each (deliveries db1)" by blast
  let ?f = "\<lambda>x :: outbox_event. x\<lparr>ev_status := EvDispatched, dispatched_at := Some now\<rparr>"
  let ?db2 = "dispatch e now db1"
  have ob: "outbox ?db2 = update_where (\<lambda>x. ev_pk x = ev_pk e) ?f (outbox db)" by (simp add: dispatch_def d1)
  have dl: "deliveries ?db2 = deliveries db @ new" "tenants ?db2 = tenants db" by (simp_all add: dispatch_def d1)
  have "distinct (map ev_pk (outbox ?db2))" using Cons.prems(1) by (simp add: ob table_simps)
  moreover have "set es \<subseteq> set (outbox ?db2)"
  proof
    fix x assume x: "x \<in> set es"
    then have "ev_pk x \<noteq> ev_pk e" using Cons.prems(4) by (force simp: image_iff)
    with x Cons.prems(2) show "x \<in> set (outbox ?db2)" unfolding ob set_update_where by fastforce
  qed
  ultimately obtain new' db' where
    run: "fan_loop (\<lambda>_ d. d) reg now (Suc i) es (Suc n) c1 ?db2 = (Inr (Suc n + length es, c1 + length new'), db')"
    and fn: "fanned reg now es ?db2 new' db'" using Cons.IH [of ?db2 "Suc i" "Suc n" c1] Cons.prems by auto
  have w: "wants_event s x ?db2 = wants_event s x db" for s x by (rule wants_event_cong) (simp add: dl)
  note fn' = fn [unfolded fanned_def ob dl w]
  have "outbox db' = update_where (\<lambda>x. ev_pk x \<in> ev_pk ` set (e # es)) ?f (outbox db)"
    using fn' by (simp add: update_where_two)
  moreover have "deliveries db' = deliveries db @ (new @ new')" "tenants db' = tenants db" using fn' by simp_all
  moreover have "\<forall>x \<in> set (e # es). \<forall>s \<in> set (subscribers_for reg (ev_type x)). wants_event s x db
      \<longrightarrow> has_delivery (deliveries db') (ev_pk x) (sb_id s)"
    using fn' h1 has_delivery_append [of "deliveries db @ new" _ _ new'] by (auto simp: d1)
  moreover have "\<forall>d \<in> set (new @ new'). \<exists>x \<in> set (e # es). dl_event d = ev_pk x \<and> dl_status d = DlPending \<and> dl_attempt d = 0
      \<and> dl_next_attempt_at d = now \<and> dl_subject d = ev_subject x
      \<and> (\<exists>s \<in> set (subscribers_for reg (ev_type x)). wants_event s x db \<and> dl_adapter_id d = sb_id s)"
    using fn' n1 by auto
  moreover have "one_each (deliveries db) \<longrightarrow> one_each (deliveries db')" using fn' o1 by (auto simp: d1)
  ultimately have "fanned reg now (e # es) db (new @ new') db'" by (simp only: fanned_def)
  moreover have "fan_loop (\<lambda>_ d. d) reg now i (e # es) n c db = (Inr (n + length (e # es), c + length (new @ new')), db')"
    using run by (simp add: f pend fs c1 add.assoc)
  ultimately show ?case by blast
qed

text \<open>C20: The fan-out turns every pending event of the pass (at most 1000, oldest first) into exactly one pending delivery per
  subscriber that matches its type and wants it, due at once, and marks it dispatched; it creates a delivery for nobody else,
  and never a second one for an event and adapter.\<close>
theorem fan_out_complete:
  assumes "distinct (map ev_pk (outbox db))" and "one_each (deliveries db)"
    and "fan_out_once (\<lambda>_ d. d) reg now db = (r, db')"
  shows "\<exists>new. r = Inr (length (pending_events db), length new) \<and> deliveries db' = deliveries db @ new \<and> one_each (deliveries db')
    \<and> (\<forall>e \<in> set (pending_events db). (\<exists>e' \<in> set (outbox db'). ev_pk e' = ev_pk e \<and> ev_status e' = EvDispatched)
         \<and> (\<forall>s \<in> set (subscribers_for reg (ev_type e)). wants_event s e db
              \<longrightarrow> (\<exists>!d. d \<in> set (deliveries db') \<and> dl_event d = ev_pk e \<and> dl_adapter_id d = sb_id s)))
    \<and> (\<forall>d \<in> set new. dl_status d = DlPending \<and> dl_next_attempt_at d = now \<and> (\<exists>e \<in> set (pending_events db). dl_event d = ev_pk e
         \<and> dl_subject d = ev_subject e \<and> (\<exists>s \<in> set (subscribers_for reg (ev_type e)). wants_event s e db \<and> dl_adapter_id d = sb_id s)))"
proof -
  have p: "set (pending_events db) \<subseteq> set (outbox db)" "\<forall>e \<in> set (pending_events db). ev_status e = EvPending"
    by (auto simp: pending_events_def dest!: in_set_takeD)
  have d: "distinct (map ev_pk (pending_events db))" using assms(1) by (auto simp: pending_events_def distinct_map_filter take_map [symmetric])
  from fan_loop_effect [OF assms(1) p d, of reg now 0 0 0] assms(3) obtain new where
    r: "r = Inr (length (pending_events db), length new)" and f: "fanned reg now (pending_events db) db new db'"
    by (auto simp: fan_out_once_def)
  have one: "one_each (deliveries db')" using f assms(2) unfolding fanned_def by blast
  have sent: "\<exists>e' \<in> set (outbox db'). ev_pk e' = ev_pk e \<and> ev_status e' = EvDispatched" if e: "e \<in> set (pending_events db)" for e
  proof -
    let ?f = "\<lambda>x :: outbox_event. x\<lparr>ev_status := EvDispatched, dispatched_at := Some now\<rparr>"
    have "outbox db' = update_where (\<lambda>x. ev_pk x \<in> ev_pk ` set (pending_events db)) ?f (outbox db)" using f by (simp add: fanned_def)
    then have "?f e \<in> set (outbox db')" using e p(1) by (auto simp: set_update_where)
    then show ?thesis by (rule bexI [rotated]) simp
  qed
  show ?thesis
    by (rule exI [of _ new]) (use r f one sent one_each_has [OF one] in \<open>fastforce simp: fanned_def\<close>)
qed

theorem fan_out_complete_witness:
  "\<exists>db' d. fan_out_once (\<lambda>_ d. d) [sample_subscriber] sample_now ((sample_db [])\<lparr>outbox := [sample_event]\<rparr>) = (Inr (1, 1), db')
     \<and> deliveries db' = [d] \<and> dl_event d = 50 \<and> dl_adapter_id d = ''webhook''"
proof -
  let ?db = "(sample_db [])\<lparr>outbox := [sample_event]\<rparr>"
  obtain r db' where f: "fan_out_once (\<lambda>_ d. d) [sample_subscriber] sample_now ?db = (r, db')" by fastforce
  have s: "subscribers_for [sample_subscriber] (ev_type sample_event) = [sample_subscriber]"
    using glob_star [of "ev_type sample_event"]
    by (simp add: subscribers_for_def matches_def sample_subscriber_def del: glob.simps)
  have w: "wants_event sample_subscriber sample_event ?db" by (simp add: wants_event_def sample_subscriber_def)
  have p: "pending_events ?db = [sample_event]" by (simp add: pending_events_def FAN_OUT_CAP_def sample_event_def)
  have d0: "distinct (map ev_pk (outbox ?db))" "one_each (deliveries ?db)" "deliveries ?db = []"
    by (simp_all add: one_each_def sample_db_def)
  have i: "ev_pk sample_event = 50" "sb_id sample_subscriber = ''webhook''" by (simp_all add: sample_event_def sample_subscriber_def)
  from fan_out_complete [OF d0(1,2) f] obtain new where n: "r = Inr (1, length new)" "deliveries db' = new" "one_each new"
    "\<exists>!d. d \<in> set new \<and> dl_event d = 50 \<and> dl_adapter_id d = ''webhook''"
    "\<forall>d \<in> set new. dl_event d = 50 \<and> dl_adapter_id d = ''webhook''"
    unfolding p d0(3) append_Nil list.set(2) list.set(1) ball_simps bex_simps s i using w by force
  have "distinct new" using n(3) by (auto simp: one_each_def distinct_map)
  moreover from n(4,5) obtain d where d: "set new = {d}" "dl_event d = 50" "dl_adapter_id d = ''webhook''" by fast
  ultimately have "length new = 1" using distinct_card [of new] by simp
  then obtain x where "new = [x]" by (cases new) auto
  with d(1) have "new = [d]" by simp
  with n(1,2) f d(2,3) show ?thesis by simp
qed

end
