(* ===== verification/Mail_Drain.thy ===== *)
theory Mail_Drain
  imports Drain_Props
begin

section \<open>The mail drain\<close>

text \<open>
  \<^verbatim>\<open>audit/worker/mail_drain.py\<close>: \<open>claim_messages\<close>, \<open>record_message\<close>, \<open>attempt_message\<close> and \<open>mail_drain_once\<close>. The
  \<^verbatim>\<open>email.send\<close> provider is adapter code: \<open>None\<close> when none is registered, else a function from the message and its tenant to
  a result, \<^verbatim>\<open>CapabilityUnconfigured\<close> or another exception. Claim and record keep the contract of \<open>claim_queue\<close>.
\<close>

definition UNCONFIGURED_RECHECK :: duration where
  "UNCONFIGURED_RECHECK = seconds 60"

definition MAIL_CLAIM_VISIBILITY :: duration where
  "MAIL_CLAIM_VISIBILITY = seconds 90"

record mail_message =
  mm_message_id :: string
  mm_kind :: string
  mm_to_address :: string
  mm_subject :: string
  mm_body_text :: string

datatype send_result = SendResult result | Unconfigured string | SendRaised string

type_synonym mail_provider = "mail_message \<Rightarrow> tenant \<Rightarrow> send_result"

subsection \<open>Claim and record\<close>

definition mail_claimable :: "instant \<Rightarrow> message \<Rightarrow> bool" where
  "mail_claimable now m \<longleftrightarrow> ms_status m = MsPending \<and> ms_next_attempt_at m \<le> now"

definition claim_messages :: "instant \<Rightarrow> nat \<Rightarrow> message list \<Rightarrow> nat list \<times> message list" where
  "claim_messages now batch rows =
     (let pks = map ms_pk (take batch (filter (mail_claimable now) rows))
      in (pks, update_where (\<lambda>m. ms_pk m \<in> set pks) (\<lambda>m. m\<lparr>ms_next_attempt_at := now + MAIL_CLAIM_VISIBILITY\<rparr>) rows))"

record ms_outcome =
  mo_now :: instant
  mo_status :: message_status
  mo_attempt :: "nat option"
  mo_next_attempt_at :: "instant option"
  mo_error :: string
  mo_sent :: bool

definition write_message :: "ms_outcome \<Rightarrow> message \<Rightarrow> message" where
  "write_message out m = m\<lparr>ms_status := mo_status out, ms_last_attempted_at := Some (mo_now out), ms_last_error := mo_error out,
     ms_first_attempted_at := (if ms_first_attempted_at m = None then Some (mo_now out) else ms_first_attempted_at m),
     ms_attempt := (case mo_attempt out of None \<Rightarrow> ms_attempt m | Some n \<Rightarrow> n),
     ms_next_attempt_at := (case mo_next_attempt_at out of None \<Rightarrow> ms_next_attempt_at m | Some t \<Rightarrow> t),
     body_text := (if mo_status out \<in> {MsSent, MsDead, MsExpired} then None else body_text m),
     sent_at := (if mo_sent out then Some (mo_now out) else sent_at m)\<rparr>"

definition record_messages :: "ms_outcome \<Rightarrow> nat \<Rightarrow> instant \<Rightarrow> message list \<Rightarrow> bool \<times> message list" where
  "record_messages out pk stamp rows =
     (let here = (\<lambda>m. ms_pk m = pk \<and> ms_next_attempt_at m = stamp) in (list_ex here rows, update_where here (write_message out) rows))"

definition record_message :: "message \<Rightarrow> ms_outcome \<Rightarrow> 'z core_db_scheme \<Rightarrow> bool \<times> 'z core_db_scheme" where
  "record_message m out db =
     (let (applied, rows) = record_messages out (ms_pk m) (ms_next_attempt_at m) (mail db) in (applied, db\<lparr>mail := rows\<rparr>))"

subsection \<open>One attempt\<close>

datatype mail_disposition = M_SENT | M_RETRIED | M_DEAD | M_EXPIRED | M_UNCONFIGURED | M_DISCARDED

definition mail_outcome :: "instant \<Rightarrow> message_status \<Rightarrow> nat option \<Rightarrow> instant option \<Rightarrow> string \<Rightarrow> ms_outcome" where
  "mail_outcome now st attempt nxt err =
     \<lparr>mo_now = now, mo_status = st, mo_attempt = attempt, mo_next_attempt_at = nxt, mo_error = err, mo_sent = False\<rparr>"

definition unconfigured_outcome :: "instant \<Rightarrow> string \<Rightarrow> ms_outcome" where
  "unconfigured_outcome now err = mail_outcome now MsPending None (Some (now + UNCONFIGURED_RECHECK)) err"

definition wire_message :: "message \<Rightarrow> mail_message" where
  "wire_message m = \<lparr>mm_message_id = message_id m, mm_kind = ms_kind m,
     mm_to_address = (case to_address m of None \<Rightarrow> [] | Some a \<Rightarrow> a), mm_subject = ms_subject m,
     mm_body_text = (case body_text m of None \<Rightarrow> [] | Some b \<Rightarrow> b)\<rparr>"

definition sent_outcome :: "(int \<Rightarrow> duration) \<Rightarrow> nat \<Rightarrow> instant \<Rightarrow> result \<Rightarrow> ms_outcome \<times> mail_disposition" where
  "sent_outcome uniform attempt now res =
     (let completed = Suc attempt; reason = (if rs_reason res \<noteq> [] then rs_reason res else result_status_value (rs_status res)) in
      if rs_status res = R_OK then ((mail_outcome now MsSent (Some completed) None [])\<lparr>mo_sent := True\<rparr>, M_SENT)
      else if rs_status res = R_FAILED \<and> rs_permanent res then (mail_outcome now MsDead (Some completed) None reason, M_DEAD)
      else (mail_outcome now MsPending (Some completed) (Some (now + backoff uniform completed)) reason, M_RETRIED))"

text \<open>What an attempt decides to record, before it does.\<close>

definition mail_decision :: "mail_provider option \<Rightarrow> (int \<Rightarrow> duration) \<Rightarrow> message \<Rightarrow> tenant \<Rightarrow> instant \<Rightarrow> ms_outcome \<times> mail_disposition" where
  "mail_decision provider uniform m tn now =
     (if ms_expires_at m \<le> now then (mail_outcome now MsExpired None None [], M_EXPIRED)
      else (case provider of
              None \<Rightarrow> (unconfigured_outcome now ''no email.send provider registered'', M_UNCONFIGURED)
            | Some send \<Rightarrow>
                (case send (wire_message m) tn of
                   Unconfigured text \<Rightarrow>
                     (unconfigured_outcome now (if text \<noteq> [] then text else ''email.send is not configured''), M_UNCONFIGURED)
                 | SendRaised exc \<Rightarrow> sent_outcome uniform (ms_attempt m) now (result_failed exc False)
                 | SendResult res \<Rightarrow> sent_outcome uniform (ms_attempt m) now res)))"

definition attempt_message :: "('z core_db_scheme \<Rightarrow> 'z core_db_scheme) \<Rightarrow> mail_provider option \<Rightarrow> (int \<Rightarrow> duration) \<Rightarrow> message \<Rightarrow> tenant \<Rightarrow> instant
    \<Rightarrow> 'z core_db_scheme \<Rightarrow> mail_disposition \<times> 'z core_db_scheme" where
  "attempt_message env provider uniform m tn now db =
     (let (out, disp) = mail_decision provider uniform m tn now;
          (applied, db1) = record_message m out (env db)
      in (if applied then disp else M_DISCARDED, db1))"

subsection \<open>One pass\<close>

record mail_stats =
  mst_claimed :: nat
  mst_sent :: nat
  mst_retried :: nat
  mst_dead_lettered :: nat
  mst_expired :: nat
  mst_unconfigured :: nat
  mst_stale_discarded :: nat

definition count_mail :: "mail_disposition \<Rightarrow> mail_stats \<Rightarrow> mail_stats" where
  "count_mail disp st0 =
     (let st = st0\<lparr>mst_claimed := Suc (mst_claimed st0)\<rparr> in
      case disp of
        M_SENT \<Rightarrow> st\<lparr>mst_sent := Suc (mst_sent st)\<rparr>
      | M_RETRIED \<Rightarrow> st\<lparr>mst_retried := Suc (mst_retried st)\<rparr>
      | M_DEAD \<Rightarrow> st\<lparr>mst_dead_lettered := Suc (mst_dead_lettered st)\<rparr>
      | M_EXPIRED \<Rightarrow> st\<lparr>mst_expired := Suc (mst_expired st)\<rparr>
      | M_UNCONFIGURED \<Rightarrow> st\<lparr>mst_unconfigured := Suc (mst_unconfigured st)\<rparr>
      | M_DISCARDED \<Rightarrow> st\<lparr>mst_stale_discarded := Suc (mst_stale_discarded st)\<rparr>)"

fun mail_loop :: "(nat \<Rightarrow> 'z core_db_scheme \<Rightarrow> 'z core_db_scheme) \<Rightarrow> mail_provider option \<Rightarrow> (nat \<Rightarrow> int \<Rightarrow> duration) \<Rightarrow> instant \<Rightarrow> nat list
    \<Rightarrow> mail_stats \<Rightarrow> 'z core_db_scheme \<Rightarrow> (drain_error + mail_stats) \<times> 'z core_db_scheme" where
  "mail_loop env provider jit now [] st db = (Inr st, db)"
| "mail_loop env provider jit now (pk # pks) st db =
     (case find_by ms_pk pk (mail db) of
        None \<Rightarrow> (Inl RowDoesNotExist, db)
      | Some m \<Rightarrow>
          (case find_by tn_pk (ms_tenant m) (tenants db) of
             None \<Rightarrow> (Inl RowDoesNotExist, db)
           | Some tn \<Rightarrow>
               let (disp, db1) = attempt_message (env pk) provider (jit pk) m tn now db
               in mail_loop env provider jit now pks (count_mail disp st) db1))"

definition mail_drain_once :: "(nat \<Rightarrow> 'z core_db_scheme \<Rightarrow> 'z core_db_scheme) \<Rightarrow> mail_provider option \<Rightarrow> (nat \<Rightarrow> int \<Rightarrow> duration) \<Rightarrow> instant \<Rightarrow> nat
    \<Rightarrow> 'z core_db_scheme \<Rightarrow> (drain_error + mail_stats) \<times> 'z core_db_scheme" where
  "mail_drain_once env provider jit now batch db =
     (let (pks, rows) = claim_messages now batch (mail db)
      in mail_loop env provider jit now pks
           \<lparr>mst_claimed = 0, mst_sent = 0, mst_retried = 0, mst_dead_lettered = 0, mst_expired = 0, mst_unconfigured = 0,
            mst_stale_discarded = 0\<rparr> (db\<lparr>mail := rows\<rparr>))"

subsection \<open>The queue contract\<close>

definition valid_mail :: "ms_outcome \<Rightarrow> instant \<Rightarrow> bool" where
  "valid_mail out stamp \<longleftrightarrow>
     (if mo_status out = MsPending then (case mo_next_attempt_at out of None \<Rightarrow> False | Some t \<Rightarrow> stamp - MAIL_CLAIM_VISIBILITY < t)
      else mo_next_attempt_at out = None)"

lemma claim_messages_pks: "fst (claim_messages now batch rows) = map ms_pk (take batch (filter (mail_claimable now) rows))"
  by (simp add: claim_messages_def Let_def)

lemma claim_messages_table:
  "snd (claim_messages now batch rows) = update_where (\<lambda>m. ms_pk m \<in> set (fst (claim_messages now batch rows)))
     (\<lambda>m. m\<lparr>ms_next_attempt_at := now + MAIL_CLAIM_VISIBILITY\<rparr>) rows"
  by (simp add: claim_messages_def Let_def)

lemma claimed_message:
  "k \<in> set (fst (claim_messages now batch rows)) \<Longrightarrow> \<exists>m \<in> set rows. ms_pk m = k \<and> mail_claimable now m"
  by (auto simp: claim_messages_pks dest!: in_set_takeD)

lemma write_message_simps [simp]:
  "ms_pk (write_message out m) = ms_pk m" "ms_status (write_message out m) = mo_status out"
  "ms_next_attempt_at (write_message out m) = (case mo_next_attempt_at out of None \<Rightarrow> ms_next_attempt_at m | Some t \<Rightarrow> t)"
  "ms_attempt (write_message out m) = (case mo_attempt out of None \<Rightarrow> ms_attempt m | Some n \<Rightarrow> n)"
  by (simp_all add: write_message_def)

interpretation mq: claim_queue ms_pk ms_next_attempt_at "\<lambda>m. ms_status m = MsPending" claim_messages record_messages valid_mail MAIL_CLAIM_VISIBILITY
proof
  show "0 < MAIL_CLAIM_VISIBILITY" by (simp add: MAIL_CLAIM_VISIBILITY_def seconds_def)
next
  fix rows :: "message list" and now n
  assume "distinct (map ms_pk rows)"
  then show "distinct (fst (claim_messages now n rows))" by (simp add: claim_messages_pks distinct_take_filter)
next
  fix rows :: "message list" and now n
  show "map ms_pk (snd (claim_messages now n rows)) = map ms_pk rows" by (simp add: claim_messages_table table_simps)
next
  fix rows :: "message list" and now n k
  assume "k \<in> set (fst (claim_messages now n rows))"
  from claimed_message [OF this] this show "\<exists>r r'. r \<in> set rows \<and> ms_pk r = k \<and> ms_status r = MsPending \<and> ms_next_attempt_at r \<le> now
      \<and> r' \<in> set (snd (claim_messages now n rows)) \<and> ms_pk r' = k \<and> ms_status r' = MsPending \<and> ms_next_attempt_at r' = now + MAIL_CLAIM_VISIBILITY"
    by (fastforce simp: claim_messages_table set_update_where mail_claimable_def)
next
  fix rows :: "message list" and now n r'
  assume "r' \<in> set (snd (claim_messages now n rows))" "ms_pk r' \<notin> set (fst (claim_messages now n rows))"
  then show "r' \<in> set rows" by (auto simp: claim_messages_table set_update_where split: if_splits)
next
  fix out k s and rows :: "message list"
  show "map ms_pk (snd (record_messages out k s rows)) = map ms_pk rows" by (simp add: record_messages_def Let_def table_simps)
next
  fix rows :: "message list" and k s out
  assume "\<And>r. r \<in> set rows \<Longrightarrow> ms_pk r = k \<Longrightarrow> ms_next_attempt_at r \<noteq> s"
  then show "snd (record_messages out k s rows) = rows" by (auto simp: record_messages_def Let_def intro: update_where_none)
next
  fix r' out k s and rows :: "message list"
  assume "r' \<in> set (snd (record_messages out k s rows))" "ms_pk r' \<noteq> k"
  then show "r' \<in> set rows" by (auto simp: record_messages_def Let_def set_update_where split: if_splits)
next
  fix out s and rows :: "message list" and r k r'
  assume a: "valid_mail out s" "distinct (map ms_pk rows)" "r \<in> set rows" "ms_pk r = k" "ms_next_attempt_at r = s"
    "r' \<in> set (snd (record_messages out k s rows))" "ms_pk r' = k"
  from a(6) obtain x where x: "x \<in> set rows" "r' = (if ms_pk x = k \<and> ms_next_attempt_at x = s then write_message out x else x)"
    unfolding record_messages_def Let_def set_update_where snd_conv by blast
  with a(7) have "ms_pk x = k" by (simp split: if_splits)
  with a(2-4) x(1) have "x = r" by (auto simp: distinct_map dest: inj_onD)
  with x(2) a(4,5) have "r' = write_message out r" by simp
  with a(1,5) show "if ms_status r' = MsPending then s - MAIL_CLAIM_VISIBILITY < ms_next_attempt_at r' else ms_next_attempt_at r' = s"
    by (auto simp: valid_mail_def split: option.splits)
qed

lemma mail_decision_valid:
  assumes "\<And>b. 0 < uniform b"
  shows "valid_mail (fst (mail_decision provider uniform m tn now)) (now + MAIL_CLAIM_VISIBILITY)"
  using assms
  by (auto simp: valid_mail_def mail_decision_def mail_outcome_def unconfigured_outcome_def sent_outcome_def Let_def backoff_def
      UNCONFIGURED_RECHECK_def seconds_def split: option.split send_result.split)

subsection \<open>What an attempt leaves\<close>

lemma record_message_here:
  assumes "distinct (map ms_pk (mail db))" "m \<in> set (mail db)"
  shows "\<exists>db'. record_message m out db = (True, db') \<and> find_by ms_pk (ms_pk m) (mail db') = Some (write_message out m)"
proof -
  let ?here = "\<lambda>x. ms_pk x = ms_pk m \<and> ms_next_attempt_at x = ms_next_attempt_at m"
  have "find_by ms_pk (ms_pk m) (update_where ?here (write_message out) (mail db)) = Some (write_message out m)"
    by (subst find_by_update_where) (simp_all add: find_by_distinct [OF assms])
  moreover have "list_ex ?here (mail db)" using assms(2) by (auto simp: list_ex_iff)
  ultimately show ?thesis by (simp add: record_message_def record_messages_def)
qed

text \<open>The mail policy of one attempt on a row that is where its claim left it. A message at or past its expiry is expired
  whatever the provider would have said; without a configured provider it stays pending, is looked at again in 60 seconds and
  no attempt is counted; otherwise the attempt is counted and the message is sent, dead (a permanent failure only) or
  pending with a next attempt within the hour. A message that will not be tried again keeps no body.\<close>
theorem attempt_message_policy:
  assumes "distinct (map ms_pk (mail (env db)))" and "m \<in> set (mail (env db))" and "fair_jitter uniform"
    and "attempt_message env provider uniform m tn now db = (disp, db')"
  shows "\<exists>m'. find_by ms_pk (ms_pk m) (mail db') = Some m'
    \<and> (ms_expires_at m \<le> now \<longrightarrow> disp = M_EXPIRED \<and> ms_status m' = MsExpired)
    \<and> (now < ms_expires_at m \<and> (case provider of None \<Rightarrow> True | Some send \<Rightarrow> (\<exists>text. send (wire_message m) tn = Unconfigured text)) \<longrightarrow>
         disp = M_UNCONFIGURED \<and> ms_status m' = MsPending \<and> ms_attempt m' = ms_attempt m \<and> ms_next_attempt_at m' = now + seconds 60)
    \<and> (\<forall>send res. now < ms_expires_at m \<and> provider = Some send \<and> send (wire_message m) tn = SendResult res \<longrightarrow>
         ms_attempt m' = Suc (ms_attempt m)
         \<and> (if rs_status res = R_OK then disp = M_SENT \<and> ms_status m' = MsSent \<and> sent_at m' = Some now
            else if rs_status res = R_FAILED \<and> rs_permanent res then disp = M_DEAD \<and> ms_status m' = MsDead
            else disp = M_RETRIED \<and> ms_status m' = MsPending \<and> now \<le> ms_next_attempt_at m' \<and> ms_next_attempt_at m' \<le> now + hours 1))
    \<and> (ms_status m' \<noteq> MsPending \<longrightarrow> body_text m' = None)"
proof -
  obtain out disp0 where o: "mail_decision provider uniform m tn now = (out, disp0)" by fastforce
  from record_message_here [OF assms(1,2), of out] obtain db1 where
    r: "record_message m out (env db) = (True, db1)" "find_by ms_pk (ms_pk m) (mail db1) = Some (write_message out m)" by blast
  from assms(4) r(1) have db: "db' = db1" "disp = disp0" by (simp_all add: attempt_message_def o Let_def)
  let ?b = "\<lambda>n. min (2 ^ (n - 1)) BACKOFF_CAP_SECONDS"
  have b: "0 \<le> backoff uniform n" "backoff uniform n \<le> hours 1" for n
  proof -
    have "0 \<le> uniform (?b n) \<and> uniform (?b n) \<le> seconds (?b n)" using assms(3) by (simp add: fair_jitter_def BACKOFF_CAP_SECONDS_def)
    moreover have "seconds (?b n) \<le> hours 1" by (simp add: time_simps BACKOFF_CAP_SECONDS_def)
    ultimately show "0 \<le> backoff uniform n" "backoff uniform n \<le> hours 1" by (simp_all add: backoff_def)
  qed
  have body: "ms_status (write_message out m) \<noteq> MsPending \<Longrightarrow> body_text (write_message out m) = None"
    by (cases "mo_status out") (simp_all add: write_message_def)
  have e: "ms_expires_at m \<le> now \<Longrightarrow> disp = M_EXPIRED \<and> ms_status (write_message out m) = MsExpired"
    using o by (auto simp: db mail_decision_def mail_outcome_def)
  have u: "disp = M_UNCONFIGURED \<and> ms_status (write_message out m) = MsPending \<and> ms_attempt (write_message out m) = ms_attempt m
      \<and> ms_next_attempt_at (write_message out m) = now + seconds 60"
    if "now < ms_expires_at m" "case provider of None \<Rightarrow> True | Some send \<Rightarrow> (\<exists>text. send (wire_message m) tn = Unconfigured text)"
    using o that by (auto simp: db mail_decision_def unconfigured_outcome_def mail_outcome_def UNCONFIGURED_RECHECK_def
        split: option.splits send_result.splits)
  have s: "ms_attempt (write_message out m) = Suc (ms_attempt m)
      \<and> (if rs_status res = R_OK then disp = M_SENT \<and> ms_status (write_message out m) = MsSent \<and> sent_at (write_message out m) = Some now
         else if rs_status res = R_FAILED \<and> rs_permanent res then disp = M_DEAD \<and> ms_status (write_message out m) = MsDead
         else disp = M_RETRIED \<and> ms_status (write_message out m) = MsPending \<and> now \<le> ms_next_attempt_at (write_message out m)
           \<and> ms_next_attempt_at (write_message out m) \<le> now + hours 1)"
    if "now < ms_expires_at m" "provider = Some send" "send (wire_message m) tn = SendResult res" for send res
    using o that b [of "Suc (ms_attempt m)"]
    by (auto simp: db mail_decision_def sent_outcome_def mail_outcome_def Let_def write_message_def split: if_splits)
  have f: "find_by ms_pk (ms_pk m) (mail db') = Some (write_message out m)" using r(2) db(1) by simp
  show ?thesis by (rule exI [of _ "write_message out m"]) (use f e u s body in blast)
qed

text \<open>The mail queue has the same guarantee as the outbox drain under any interleaving of workers: of the claims in flight
  for a pending message at most one can still record its outcome, and none can once the message was sent, died or expired.\<close>
theorem message_recorded_once:
  assumes "distinct (map ms_pk rows0)"
    and "worker_reach ms_pk claim_messages record_messages valid_mail MAIL_CLAIM_VISIBILITY rows0 rows flight"
    and "m \<in> set rows"
  shows "length (filter (\<lambda>(k, s). k = ms_pk m \<and> s = ms_next_attempt_at m) flight) \<le> (if ms_status m = MsPending then 1 else 0)"
  by (rule mq.recorded_once [OF assms(2,1,3)])

definition sample_message :: message where
  "sample_message = \<lparr>ms_pk = 70, message_id = ''01M'', ms_tenant = 1, ms_kind = ''claim_code'', to_address = Some ''owner@example.com'',
     ms_subject = ''Your code'', body_text = Some ''123456'', ms_status = MsPending, ms_attempt = 2, ms_next_attempt_at = sample_now,
     ms_expires_at = sample_now + minutes 10, ms_first_attempted_at = None, ms_last_attempted_at = None, ms_last_error = [],
     sent_at = None, ms_created_at = sample_now\<rparr>"

theorem attempt_message_policy_witness:
  "\<exists>db' m'. attempt_message (\<lambda>d. d) None (\<lambda>b. seconds b) sample_message sample_tenant sample_now ((sample_db [])\<lparr>mail := [sample_message]\<rparr>)
       = (M_UNCONFIGURED, db') \<and> find_by ms_pk 70 (mail db') = Some m' \<and> ms_attempt m' = 2"
proof -
  let ?db = "(sample_db [])\<lparr>mail := [sample_message]\<rparr>"
  obtain disp db' where a: "attempt_message (\<lambda>d. d) None (\<lambda>b. seconds b) sample_message sample_tenant sample_now ?db = (disp, db')" by fastforce
  have f: "fair_jitter (\<lambda>b. seconds b)" by (simp add: fair_jitter_def seconds_def)
  have s: "ms_pk sample_message = 70" "ms_attempt sample_message = 2" "sample_now < ms_expires_at sample_message"
    by (simp_all add: sample_message_def minutes_def)
  have "distinct (map ms_pk (mail ?db))" "sample_message \<in> set (mail ?db)" by simp_all
  from attempt_message_policy [where env = "\<lambda>d. d", OF this f a] a s show ?thesis by auto
qed

theorem message_recorded_once_witness:
  "length (filter (\<lambda>(k, s). k = 70 \<and> s = sample_now + MAIL_CLAIM_VISIBILITY) [(70::nat, sample_now + MAIL_CLAIM_VISIBILITY)]) \<le> 1"
proof -
  let ?m = "sample_message\<lparr>ms_next_attempt_at := sample_now + MAIL_CLAIM_VISIBILITY\<rparr>"
  have c: "claim_messages sample_now 100 [sample_message] = ([70], [?m])"
    by (simp add: claim_messages_def sample_message_def mail_claimable_def)
  have d: "distinct (map ms_pk [sample_message])" by simp
  have r: "worker_reach ms_pk claim_messages record_messages valid_mail MAIL_CLAIM_VISIBILITY [sample_message] [?m]
      [(70, sample_now + MAIL_CLAIM_VISIBILITY)]"
    using worker_reach.claimed [where claim = claim_messages and rows = "[sample_message]", OF worker_reach.start c] by simp
  have "?m \<in> set [?m]" by simp
  from message_recorded_once [OF d r this] show ?thesis by (simp add: sample_message_def)
qed

end
