(* ===== verification/Deliveries.thy ===== *)
theory Deliveries
  imports Command_Log
begin

section \<open>Deliveries: the status page and replay\<close>

text \<open>
  \<^verbatim>\<open>audit/deliveries.py\<close>: the queries of the status page (\<open>recent\<close>, \<open>health\<close>) and the admin command \<open>replay_delivery\<close>, an
  interpretation of \<open>logged_command\<close>. PostgreSQL sorts nulls first in a descending order; rows with equal keys come in table order.
\<close>

definition REPLAY_ROLE :: int where
  "REPLAY_ROLE = ROLE_ADMIN"

definition HEALTH_WINDOW :: duration where
  "HEALTH_WINDOW = hours 24"

record health =
  h_pending :: nat
  h_retrying :: nat
  h_dead :: nat
  h_delivered :: nat
  h_last_delivered_at :: "instant option"
  h_last_error :: string
  h_failing :: bool

definition adapter_rows :: "tenant \<Rightarrow> string \<Rightarrow> 'z core_db_scheme \<Rightarrow> delivery list" where
  "adapter_rows tn adapter db = filter (\<lambda>d. dl_tenant d = Some (tn_pk tn) \<and> dl_adapter_id d = adapter) (deliveries db)"

definition recent :: "tenant \<Rightarrow> string \<Rightarrow> delivery_status option \<Rightarrow> nat \<Rightarrow> 'z core_db_scheme \<Rightarrow> delivery list" where
  "recent tn adapter st limit db =
     take limit (rev (filter (\<lambda>d. case st of None \<Rightarrow> True | Some s \<Rightarrow> dl_status d = s) (adapter_rows tn adapter db)))"

text \<open>\<^verbatim>\<open>order_by("-key").first()\<close>.\<close>

fun newer :: "instant option \<Rightarrow> instant option \<Rightarrow> bool" where
  "newer a None = False"
| "newer None (Some t) = True"
| "newer (Some s) (Some t) = (t < s)"

fun latest :: "('r \<Rightarrow> instant option) \<Rightarrow> 'r list \<Rightarrow> 'r option" where
  "latest key [] = None"
| "latest key (x # xs) = (case latest key xs of None \<Rightarrow> Some x | Some y \<Rightarrow> if newer (key y) (key x) then Some y else Some x)"

definition health_of :: "tenant \<Rightarrow> string \<Rightarrow> instant option \<Rightarrow> 'z core_db_scheme \<Rightarrow> health" where
  "health_of tn adapter at db =
     (let now = (case at of None \<Rightarrow> wall db | Some t \<Rightarrow> t);
          rows = adapter_rows tn adapter db;
          pending = filter (\<lambda>d. dl_status d = DlPending) rows;
          dead = length (filter (\<lambda>d. dl_status d = DlDead) rows);
          retrying = length (filter (\<lambda>d. 0 < dl_attempt d) pending);
          ok = filter (\<lambda>d. dl_status d = DlDelivered) rows
      in \<lparr>h_pending = length (filter (\<lambda>d. dl_attempt d = 0) pending), h_retrying = retrying, h_dead = dead,
          h_delivered = length (filter (\<lambda>d. case dl_delivered_at d of None \<Rightarrow> False | Some t \<Rightarrow> now - HEALTH_WINDOW \<le> t) ok),
          h_last_delivered_at = (case latest dl_delivered_at ok of None \<Rightarrow> None | Some d \<Rightarrow> dl_delivered_at d),
          h_last_error = (case latest dl_last_attempted_at (filter (\<lambda>d. dl_last_error d \<noteq> []) rows) of None \<Rightarrow> [] | Some d \<Rightarrow> dl_last_error d),
          h_failing = (retrying \<noteq> 0 \<or> dead \<noteq> 0)\<rparr>)"

subsection \<open>Replay\<close>

datatype replay_error = ReplayRefused string | ReplayAudit audit_error

definition role_of :: "membership option \<Rightarrow> int" where
  "role_of m = (case m of None \<Rightarrow> -1 | Some mb \<Rightarrow> mb_role mb)"

definition event_of :: "delivery \<Rightarrow> 'z core_db_scheme \<Rightarrow> outbox_event option" where
  "event_of d db = find_by ev_pk (dl_event d) (outbox db)"

definition find_replay :: "tenant \<Rightarrow> string \<Rightarrow> string \<Rightarrow> 'z core_db_scheme \<Rightarrow> delivery option" where
  "find_replay tn adapter eid db =
     find (\<lambda>d. dl_tenant d = Some (tn_pk tn) \<and> dl_adapter_id d = adapter
        \<and> (case event_of d db of None \<Rightarrow> False | Some ev \<Rightarrow> event_id ev = eid)) (deliveries db)"

definition requeue :: "instant \<Rightarrow> delivery \<Rightarrow> delivery" where
  "requeue t d = d\<lparr>dl_status := DlPending, dl_attempt := 0, dl_next_attempt_at := t, dl_last_error := [], dl_delivered_at := None\<rparr>"

definition apply_replay :: "tenant \<Rightarrow> string \<Rightarrow> string \<Rightarrow> int \<Rightarrow> instant option \<Rightarrow> 'z core_db_scheme \<Rightarrow> replay_error + delivery \<times> 'z core_db_scheme" where
  "apply_replay tn adapter eid role at = atomic (\<lambda>db.
     if role < REPLAY_ROLE then Inl (ReplayRefused ''forbidden'')
     else (case find_replay tn adapter eid db of
        None \<Rightarrow> Inl (ReplayRefused ''not_found'')
      | Some d \<Rightarrow>
          if dl_status d \<noteq> DlDead then Inl (ReplayRefused ''not_dead'')
          else (case event_of d db of
             None \<Rightarrow> Inl (ReplayRefused ''not_found'')
           | Some ev \<Rightarrow>
               if payload_nulled_at ev \<noteq> None then Inl (ReplayRefused ''payload_nulled'')
               else let d' = requeue (case at of None \<Rightarrow> wall db | Some t \<Rightarrow> t) d
                    in Inr (d', db\<lparr>deliveries := update_where (\<lambda>x. dl_pk x = dl_pk d) (requeue (dl_next_attempt_at d')) (deliveries db)\<rparr>))))"

definition replay_delivery :: "tenant \<Rightarrow> string \<Rightarrow> string \<Rightarrow> operator \<Rightarrow> instant option \<Rightarrow> 'z core_db_scheme
    \<Rightarrow> (replay_error + delivery) \<times> 'z core_db_scheme" where
  "replay_delivery tn adapter eid oper at db =
     (case require_autocommit db of
        Inl e \<Rightarrow> (Inl (ReplayAudit e), db)
      | Inr u \<Rightarrow>
          let m = active_membership (tn_pk tn) oper db;
              (row, db1) = log_received ''delivery.replay'' (Some (tn_pk tn)) None (staff_actor oper m) [] []
                 (Some (JObj [(''adapter_id'', JStr adapter), (''event_id'', JStr eid)])) db
          in (case apply_replay tn adapter eid (role_of m) at db1 of
                Inr (d, db2) \<Rightarrow> (Inr d, log_conclude row ''applied'' [] None None db2)
              | Inl (ReplayRefused reason) \<Rightarrow>
                  (Inl (ReplayRefused reason),
                   log_conclude row (if reason = ''forbidden'' then ''blocked'' else ''rejected'') [] (Some (JObj [(''reason'', JStr reason)])) None db1)
              | Inl e \<Rightarrow> (Inl e, db1)))"

subsection \<open>Facts\<close>

lemma apply_replay_Inr:
  assumes "apply_replay tn adapter eid role at db = Inr (d', db')"
  obtains d ev t where "REPLAY_ROLE \<le> role" "find_replay tn adapter eid db = Some d" "dl_status d = DlDead" "event_of d db = Some ev"
    "payload_nulled_at ev = None" "t = (case at of None \<Rightarrow> wall db | Some t \<Rightarrow> t)" "d' = requeue t d"
    "db' = db\<lparr>deliveries := update_where (\<lambda>x. dl_pk x = dl_pk d) (requeue t) (deliveries db)\<rparr>"
  using assms that
  by (auto simp: apply_replay_def atomic_Inr find_replay_def event_of_def requeue_def Let_def split: if_splits option.splits)

lemma apply_replay_Inl: "apply_replay tn adapter eid role at db = Inl e \<Longrightarrow> \<exists>reason. e = ReplayRefused reason"
  by (auto simp: apply_replay_def atomic_Inl Let_def split: if_splits option.splits)

lemma find_replay_log [simp]:
  "find_replay tn adapter eid (db\<lparr>commands := cs, seq := n\<rparr>) = find_replay tn adapter eid db"
  "event_of d (db\<lparr>commands := cs, seq := n\<rparr>) = event_of d db"
  by (simp_all add: find_replay_def event_of_def)

interpretation replay_cmd: logged_command
  "\<lambda>(tn, adapter, eid, oper, at). replay_delivery tn adapter eid oper at" "\<lambda>a db. True"
proof
  fix db :: "'a core_db_scheme" and a :: "tenant \<times> string \<times> string \<times> operator \<times> instant option"
  obtain tn adapter eid oper at where a: "a = (tn, adapter, eid, oper, at)" by (metis prod.exhaust)
  let ?run = "(\<lambda>(tn, adapter, eid, oper, at). replay_delivery tn adapter eid oper at) a db"
  show "in_atomic db \<Longrightarrow> isl (fst ?run) \<and> snd ?run = db" by (simp add: a replay_delivery_def require_autocommit_def)
  assume na: "\<not> in_atomic db" and ok: "log_ok db"
  obtain row db1 where lr: "log_received ''delivery.replay'' (Some (tn_pk tn)) None (staff_actor oper (active_membership (tn_pk tn) oper db)) [] []
      (Some (JObj [(''adapter_id'', JStr adapter), (''event_id'', JStr eid)])) db = (row, db1)" by fastforce
  note s = log_received_simps [OF lr]
  let ?a = "apply_replay tn adapter eid (role_of (active_membership (tn_pk tn) oper db)) at db1"
  show "(\<exists>row. commands (snd ?run) = commands db @ [row] \<and> cmd_outcome row \<noteq> None
      \<and> (cmd_outcome row = Some ''applied'' \<longleftrightarrow> \<not> isl (fst ?run))) \<and> log_ok (snd ?run) \<and> \<not> in_atomic (snd ?run)"
  proof (cases ?a)
    case (Inl e)
    then obtain reason where e: "e = ReplayRefused reason" by (auto dest: apply_replay_Inl)
    let ?o = "if reason = ''forbidden'' then ''blocked'' else ''rejected''"
    have run: "?run = (Inl (ReplayRefused reason), log_conclude row ?o [] (Some (JObj [(''reason'', JStr reason)])) None db1)"
      using na lr Inl by (simp add: a e replay_delivery_def require_autocommit_def)
    have c: "commands (snd ?run) = commands db @ [concluded_row row ?o [] (Some (JObj [(''reason'', JStr reason)])) None (wall db1)]"
      unfolding run snd_conv by (rule log_conclude_own [OF ok lr]) simp
    moreover have "\<forall>x \<in> set (commands (snd ?run)). cmd_pk x \<le> seq (snd ?run)"
      unfolding c using ok s(2,3) by (auto simp: run log_ok_def)
    ultimately show ?thesis using na s(8) by (auto simp: run log_ok_def)
  next
    case (Inr r)
    obtain d db2 where r: "r = (d, db2)" by fastforce
    have run: "?run = (Inr d, log_conclude row ''applied'' [] None None db2)"
      using na lr Inr by (simp add: a r replay_delivery_def require_autocommit_def)
    from Inr r have k: "commands db2 = commands db1" "seq db2 = seq db1" "in_atomic db2 = in_atomic db1" by (auto elim!: apply_replay_Inr)
    have c: "commands (snd ?run) = commands db @ [concluded_row row ''applied'' [] None None (wall db2)]"
      unfolding run snd_conv by (rule log_conclude_own [OF ok lr k(1)])
    moreover have "\<forall>x \<in> set (commands (snd ?run)). cmd_pk x \<le> seq (snd ?run)"
      unfolding c using ok s(2,3) k(2) by (auto simp: run log_ok_def)
    ultimately show ?thesis using na s(8) k(3) by (auto simp: run log_ok_def)
  qed
qed

lemma replay_delivery_Inr:
  assumes "\<not> in_atomic db" "replay_delivery tn adapter eid oper at db = (Inr d', db')"
  obtains d ev t m where "active_membership (tn_pk tn) oper db = Some m" "ROLE_ADMIN \<le> mb_role m"
    "find_replay tn adapter eid db = Some d" "dl_status d = DlDead" "event_of d db = Some ev"
    "payload_nulled_at ev = None" "t = (case at of None \<Rightarrow> wall db | Some t \<Rightarrow> t)" "d' = requeue t d"
    "deliveries db' = update_where (\<lambda>x. dl_pk x = dl_pk d) (requeue t) (deliveries db)" "outbox db' = outbox db" "mail db' = mail db"
proof -
  let ?m = "active_membership (tn_pk tn) oper db"
  obtain row db1 where lr: "log_received ''delivery.replay'' (Some (tn_pk tn)) None (staff_actor oper ?m) [] []
      (Some (JObj [(''adapter_id'', JStr adapter), (''event_id'', JStr eid)])) db = (row, db1)" by fastforce
  note s = log_received_simps(8) [OF lr]
  from assms lr obtain db2 where a: "apply_replay tn adapter eid (role_of ?m) at db1 = Inr (d', db2)"
    and db': "db' = log_conclude row ''applied'' [] None None db2"
    by (auto simp: replay_delivery_def require_autocommit_def split: sum.splits replay_error.splits)
  from a obtain d ev t where *: "REPLAY_ROLE \<le> role_of ?m" "find_replay tn adapter eid db1 = Some d" "dl_status d = DlDead"
    "event_of d db1 = Some ev" "payload_nulled_at ev = None" "t = (case at of None \<Rightarrow> wall db1 | Some t \<Rightarrow> t)" "d' = requeue t d"
    "db2 = db1\<lparr>deliveries := update_where (\<lambda>x. dl_pk x = dl_pk d) (requeue t) (deliveries db1)\<rparr>"
    by (rule apply_replay_Inr)
  from *(1) obtain m where m: "?m = Some m" "ROLE_ADMIN \<le> mb_role m"
    by (cases ?m) (auto simp: REPLAY_ROLE_def ROLE_ADMIN_def role_of_def)
  have w: "t = (case at of None \<Rightarrow> wall db | Some t \<Rightarrow> t)" using *(6) by (cases at) (simp_all add: s)
  show ?thesis
  proof (rule that [OF m])
    show "deliveries db' = update_where (\<lambda>x. dl_pk x = dl_pk d) (requeue t) (deliveries db)"
      by (simp add: db' log_conclude_def *(8) s)
  qed (use *(2-5,7,8) w in \<open>simp_all add: db' log_conclude_def s\<close>)
qed

subsection \<open>Properties\<close>

text \<open>A replay that is accepted was asked for by an active admin of the tenant and names a dead-lettered delivery of that
  tenant and adapter whose event still has its payload; that delivery keeps its id and its place in the queue, is pending, due
  at once and has all its attempts again; no other delivery, no event and no mail changes, and one applied command row is left.\<close>
theorem replay_delivery_effect:
  assumes "\<not> in_atomic db" and "log_ok db" and "distinct (map dl_pk (deliveries db))"
    and "replay_delivery tn adapter eid oper at db = (Inr d', db')"
  shows "(\<exists>m. active_membership (tn_pk tn) oper db = Some m \<and> ROLE_ADMIN \<le> mb_role m)
    \<and> (\<exists>d ev. d \<in> set (deliveries db) \<and> dl_tenant d = Some (tn_pk tn) \<and> dl_adapter_id d = adapter \<and> dl_status d = DlDead
        \<and> event_of d db = Some ev \<and> event_id ev = eid \<and> payload_nulled_at ev = None
        \<and> dl_pk d' = dl_pk d \<and> dl_subject d' = dl_subject d \<and> dl_status d' = DlPending \<and> dl_attempt d' = 0
        \<and> dl_next_attempt_at d' = (case at of None \<Rightarrow> wall db | Some t \<Rightarrow> t)
        \<and> deliveries db' = map (\<lambda>x. if x = d then d' else x) (deliveries db))
    \<and> outbox db' = outbox db \<and> mail db' = mail db
    \<and> (\<exists>row. commands db' = commands db @ [row] \<and> cmd_outcome row = Some ''applied'')"
proof -
  from assms(1,4) obtain d ev t m where m: "active_membership (tn_pk tn) oper db = Some m" "ROLE_ADMIN \<le> mb_role m"
    and d: "find_replay tn adapter eid db = Some d" "dl_status d = DlDead" "event_of d db = Some ev" "payload_nulled_at ev = None"
    and t: "t = (case at of None \<Rightarrow> wall db | Some t \<Rightarrow> t)" "d' = requeue t d"
    and db': "deliveries db' = update_where (\<lambda>x. dl_pk x = dl_pk d) (requeue t) (deliveries db)" "outbox db' = outbox db" "mail db' = mail db"
    by (rule replay_delivery_Inr)
  from d(1,3) have in_d: "d \<in> set (deliveries db)" "dl_tenant d = Some (tn_pk tn)" "dl_adapter_id d = adapter" "event_id ev = eid"
    by (auto simp: find_replay_def dest!: find_SomeD)
  have "dl_pk x = dl_pk d \<longleftrightarrow> x = d" if "x \<in> set (deliveries db)" for x
    using assms(3) in_d(1) that by (auto simp: distinct_map dest: inj_onD)
  then have "deliveries db' = map (\<lambda>x. if x = d then d' else x) (deliveries db)"
    unfolding db'(1) t(2) update_where_def by (intro map_cong) auto
  moreover have "\<exists>row. commands db' = commands db @ [row] \<and> cmd_outcome row = Some ''applied''"
    using replay_cmd.logs [OF assms(1,2), of "(tn, adapter, eid, oper, at)"] assms(4) by auto
  moreover have "dl_pk d' = dl_pk d" "dl_subject d' = dl_subject d" "dl_status d' = DlPending" "dl_attempt d' = 0" "dl_next_attempt_at d' = t"
    by (simp_all add: t(2) requeue_def)
  ultimately show ?thesis using m d in_d t(1) db'(2,3) by blast
qed

definition dead_delivery :: delivery where
  "dead_delivery = \<lparr>dl_pk = 4, dl_event = 3, dl_tenant = Some 1, dl_subject = ''lst_1'', dl_adapter_id = ''webhook'', dl_status = DlDead,
     dl_attempt = 12, dl_next_attempt_at = 50, dl_first_attempted_at = Some 10, dl_last_attempted_at = Some 50, dl_last_error = ''500'',
     dl_delivered_at = None, dl_created_at = 5\<rparr>"

definition replay_event :: outbox_event where
  "replay_event = \<lparr>ev_pk = 3, event_id = ''01E'', ev_type = ''lead.captured'', ev_version = 1, occurred_at = 5, ev_subject = ''lst_1'',
     ev_tenant = 1, ev_actor = [], ev_origin = [], ev_trace_id = [], ev_data = [(''lead'', JObj [])], ev_status = EvDispatched,
     payload_nulled_at = None, ev_created_at = 5, dispatched_at = Some 6, ev_delivered_at = None\<rparr>"

definition replay_tenant :: tenant where
  "replay_tenant = \<lparr>tn_pk = 1, tn_public_id = ''tnt_1'', tn_slug = ''acme'', tn_name = ''Acme'', primary_domain = None,
     domain_verified_at = None, tn_settings = [], tn_mode = ''single'', tn_status = ''active'', tn_created_by = None\<rparr>"

definition replay_admin :: operator where
  "replay_admin = \<lparr>op_pk = 5, op_public_id = ''op_5'', op_email = ''admin@example.com'', op_is_active = True, op_name = [], op_password = Some ''pw'', op_is_superadmin = False, op_is_staff = False, op_is_superuser = False\<rparr>"

definition replay_db :: core_db where
  "replay_db = \<lparr>wall = 100, entropy = (\<lambda>n. n), draws = 0, seq = 10, in_atomic = False, tenants = [replay_tenant],
     memberships = [\<lparr>mb_operator = 5, mb_tenant = 1, mb_role = ROLE_ADMIN, mb_status = MbActive, mb_pk = 1, mb_invited_by = None, mb_accepted_at = None\<rparr>],
     outbox = [replay_event], deliveries = [dead_delivery], mail = [], counters = [], commands = [], accesses = []\<rparr>"

lemma replay_sample: "fst (replay_delivery replay_tenant ''webhook'' ''01E'' replay_admin (Some t) replay_db) = Inr (requeue t dead_delivery)"
  by (simp add: replay_delivery_def replay_db_def require_autocommit_def log_received_def Let_def apply_replay_def atomic_def find_replay_def
      event_of_def dead_delivery_def replay_event_def replay_tenant_def replay_admin_def active_membership_def role_of_def REPLAY_ROLE_def requeue_def)

theorem replay_delivery_effect_witness:
  "\<exists>db'. replay_delivery replay_tenant ''webhook'' ''01E'' replay_admin (Some 100) replay_db = (Inr (requeue 100 dead_delivery), db')
     \<and> dl_status (requeue 100 dead_delivery) = DlPending \<and> outbox db' = outbox replay_db"
proof -
  obtain db' where r: "replay_delivery replay_tenant ''webhook'' ''01E'' replay_admin (Some 100) replay_db = (Inr (requeue 100 dead_delivery), db')"
    using replay_sample [of 100] by (metis prod.collapse)
  have "\<not> in_atomic replay_db" "log_ok replay_db" "distinct (map dl_pk (deliveries replay_db))" by (simp_all add: replay_db_def log_ok_def)
  from replay_delivery_effect [OF this r] r show ?thesis by blast
qed

end
