(* ===== verification/Retention.thy ===== *)
theory Retention
  imports Deliveries Ratelimit Tick
begin

section \<open>Retention sweeps\<close>

text \<open>
  \<^verbatim>\<open>audit/worker/retention.py\<close>: the five sweeps of the tick. A sweep reads the keys of the first thousand due rows and then writes
  with a second statement; \<open>env\<close> is what other transactions commit in between. The sweeps are interpretations of
  \<open>retention_sweep\<close>, which says when a backlog is cleared.
\<close>

definition RETENTION :: duration where
  "RETENTION = days 90"

definition RETENTION_CHUNK :: nat where
  "RETENTION_CHUNK = 1000"

definition first_ids :: "('r \<Rightarrow> nat) \<Rightarrow> ('r \<Rightarrow> bool) \<Rightarrow> 'r list \<Rightarrow> nat list" where
  "first_ids key due rows = map key (take RETENTION_CHUNK (filter due rows))"

definition swept :: "nat list \<Rightarrow> nat \<Rightarrow> tick_result" where
  "swept ids n = \<lparr>tick_done = n, tick_more = (length ids = RETENTION_CHUNK)\<rparr>"

definition has_address :: "message \<Rightarrow> bool" where
  "has_address m \<longleftrightarrow> to_address m \<noteq> None \<and> ms_status m \<in> {MsSent, MsDead, MsExpired}"

definition address_due :: "instant \<Rightarrow> message \<Rightarrow> bool" where
  "address_due now m \<longleftrightarrow> ms_created_at m < now - RETENTION \<and> has_address m"

definition null_outbound_addresses :: "('z core_db_scheme \<Rightarrow> 'z core_db_scheme) \<Rightarrow> instant \<Rightarrow> 'z core_db_scheme \<Rightarrow> tick_result \<times> 'z core_db_scheme" where
  "null_outbound_addresses env now db =
     (let ids = first_ids ms_pk (address_due now) (mail db); db1 = env db; chosen = (\<lambda>m. ms_pk m \<in> set ids \<and> has_address m)
      in (swept ids (length (filter chosen (mail db1))), db1\<lparr>mail := update_where chosen (\<lambda>m. m\<lparr>to_address := None\<rparr>) (mail db1)\<rparr>))"

definition has_pending_delivery :: "outbox_event \<Rightarrow> 'z core_db_scheme \<Rightarrow> bool" where
  "has_pending_delivery e db = list_ex (\<lambda>d. dl_event d = ev_pk e \<and> dl_status d = DlPending) (deliveries db)"

definition payload_due :: "instant \<Rightarrow> 'z core_db_scheme \<Rightarrow> outbox_event \<Rightarrow> bool" where
  "payload_due now db e \<longleftrightarrow> ev_created_at e < now - RETENTION \<and> payload_nulled_at e = None \<and> ev_status e \<noteq> EvPending
     \<and> \<not> has_pending_delivery e db"

definition null_event_payloads :: "('z core_db_scheme \<Rightarrow> 'z core_db_scheme) \<Rightarrow> instant \<Rightarrow> 'z core_db_scheme \<Rightarrow> tick_result \<times> 'z core_db_scheme" where
  "null_event_payloads env now db =
     (let ids = first_ids ev_pk (payload_due now db) (outbox db); db1 = env db; chosen = (\<lambda>e. ev_pk e \<in> set ids \<and> payload_nulled_at e = None)
      in (swept ids (length (filter chosen (outbox db1))),
          db1\<lparr>outbox := update_where chosen (\<lambda>e. e\<lparr>ev_data := [], payload_nulled_at := Some now\<rparr>) (outbox db1)\<rparr>))"

definition command_due :: "instant \<Rightarrow> command_row \<Rightarrow> bool" where
  "command_due now c \<longleftrightarrow> cmd_received_at c < now - RETENTION \<and> cmd_payload c \<noteq> None"

definition null_command_payloads :: "('z core_db_scheme \<Rightarrow> 'z core_db_scheme) \<Rightarrow> instant \<Rightarrow> 'z core_db_scheme \<Rightarrow> tick_result \<times> 'z core_db_scheme" where
  "null_command_payloads env now db =
     (let ids = first_ids cmd_pk (command_due now) (commands db); db1 = env db; chosen = (\<lambda>c. cmd_pk c \<in> set ids \<and> cmd_payload c \<noteq> None)
      in (swept ids (length (filter chosen (commands db1))), db1\<lparr>commands := update_where chosen (\<lambda>c. c\<lparr>cmd_payload := None\<rparr>) (commands db1)\<rparr>))"

definition RATE_LIMIT_KEEP :: duration where
  "RATE_LIMIT_KEEP = hours 48"

definition counter_due :: "instant \<Rightarrow> rate_counter \<Rightarrow> bool" where
  "counter_due now c \<longleftrightarrow> rc_window_start c < now - RATE_LIMIT_KEEP"

definition prune_rate_limit_counters :: "('z core_db_scheme \<Rightarrow> 'z core_db_scheme) \<Rightarrow> instant \<Rightarrow> 'z core_db_scheme \<Rightarrow> tick_result \<times> 'z core_db_scheme" where
  "prune_rate_limit_counters env now db =
     (let ids = first_ids rc_pk (counter_due now) (counters db); db1 = env db; chosen = (\<lambda>c. rc_pk c \<in> set ids)
      in (swept ids (length (filter chosen (counters db1))), db1\<lparr>counters := filter (\<lambda>c. \<not> chosen c) (counters db1)\<rparr>))"

definition ACCESS_LOG_KEEP :: duration where
  "ACCESS_LOG_KEEP = days 730"

definition access_due :: "instant \<Rightarrow> access_row \<Rightarrow> bool" where
  "access_due now a \<longleftrightarrow> ac_occurred_at a < now - ACCESS_LOG_KEEP"

definition prune_access_log :: "('z core_db_scheme \<Rightarrow> 'z core_db_scheme) \<Rightarrow> instant \<Rightarrow> 'z core_db_scheme \<Rightarrow> tick_result \<times> 'z core_db_scheme" where
  "prune_access_log env now db =
     (let ids = first_ids ac_pk (access_due now) (accesses db); db1 = env db; chosen = (\<lambda>a. ac_pk a \<in> set ids)
      in (swept ids (length (filter chosen (accesses db1))), db1\<lparr>accesses := filter (\<lambda>a. \<not> chosen a) (accesses db1)\<rparr>))"

subsection \<open>What a bounded sweep does to a table\<close>

lemma take_filter_hit:
  assumes "distinct (map key rows)" "x \<in> set rows"
  shows "key x \<in> set (first_ids key due rows) \<longleftrightarrow> x \<in> set (take RETENTION_CHUNK (filter due rows))"
proof -
  have inj: "inj_on key (set rows)" using assms(1) by (simp add: distinct_map)
  have sub: "set (take RETENTION_CHUNK (filter due rows)) \<subseteq> set rows" by (auto dest: in_set_takeD)
  show ?thesis unfolding first_ids_def using inj sub assms(2) by (auto dest: inj_onD)
qed

lemma filter_not_take: "distinct xs \<Longrightarrow> filter (\<lambda>x. x \<notin> set (take n xs)) xs = drop n xs"
proof -
  assume d: "distinct xs"
  have "filter (\<lambda>x. x \<notin> set (take n xs)) (take n xs @ drop n xs) = drop n xs"
    using set_take_disj_set_drop_if_distinct [OF d, of n n] by (auto simp: filter_empty_conv filter_id_conv simp del: append_take_drop_id)
  then show ?thesis by simp
qed

text \<open>The rows that remain due after the chosen ones were blanked or deleted.\<close>

lemma due_after_blank:
  assumes d: "distinct (map key rows)" and off: "\<And>x. \<not> due (f x)" and chosen: "\<And>x. x \<in> set rows \<Longrightarrow> chosen x \<longleftrightarrow> x \<in> set (take n (filter due rows))"
  shows "filter due (update_where chosen f rows) = drop n (filter due rows)"
proof -
  have "filter due (update_where chosen f rows) = filter due (filter (\<lambda>x. \<not> chosen x) rows)"
    using off by (induction rows) auto
  also have "\<dots> = filter (\<lambda>x. x \<notin> set (take n (filter due rows))) (filter due rows)"
    using chosen by (auto simp: filter_filter intro: filter_cong)
  also have "\<dots> = drop n (filter due rows)" using d by (intro filter_not_take) (simp add: distinct_map)
  finally show ?thesis .
qed

lemma due_after_delete:
  assumes d: "distinct (map key rows)" and chosen: "\<And>x. x \<in> set rows \<Longrightarrow> chosen x \<longleftrightarrow> x \<in> set (take n (filter due rows))"
  shows "filter due (filter (\<lambda>x. \<not> chosen x) rows) = drop n (filter due rows)"
proof -
  have "filter due (filter (\<lambda>x. \<not> chosen x) rows) = filter (\<lambda>x. x \<notin> set (take n (filter due rows))) (filter due rows)"
    using chosen by (auto simp: filter_filter intro: filter_cong)
  also have "\<dots> = drop n (filter due rows)" using d by (intro filter_not_take) (simp add: distinct_map)
  finally show ?thesis .
qed

lemma count_hit:
  assumes d: "distinct (map key rows)" and chosen: "\<And>x. x \<in> set rows \<Longrightarrow> chosen x \<longleftrightarrow> x \<in> set (take n (filter due rows))"
  shows "length (filter chosen rows) = min n (length (filter due rows))"
proof -
  have dr: "distinct rows" using d by (simp add: distinct_map)
  have "set (take n (filter due rows)) \<subseteq> set rows" by (auto dest: in_set_takeD)
  then have "set (filter chosen rows) = set (take n (filter due rows))" using chosen by auto
  then have "card (set (filter chosen rows)) = card (set (take n (filter due rows)))" by simp
  moreover have "card (set (filter chosen rows)) = length (filter chosen rows)" using dr by (intro distinct_card) simp
  moreover have "card (set (take n (filter due rows))) = length (take n (filter due rows))" using dr by (intro distinct_card) simp
  ultimately show ?thesis by (simp add: min.commute)
qed

subsection \<open>The contract of a sweep\<close>

primrec sweep_passes :: "nat \<Rightarrow> ('d \<Rightarrow> tick_result \<times> 'd) \<Rightarrow> 'd \<Rightarrow> 'd" where
  "sweep_passes 0 sweep db = db"
| "sweep_passes (Suc n) sweep db = sweep_passes n sweep (snd (sweep db))"

locale retention_sweep =
  fixes key :: "'r \<Rightarrow> nat" and rows_of :: "'d \<Rightarrow> 'r list" and due :: "'d \<Rightarrow> 'r \<Rightarrow> bool" and sweep :: "'d \<Rightarrow> tick_result \<times> 'd"
  assumes keys_kept: "distinct (map key (rows_of d)) \<Longrightarrow> distinct (map key (rows_of (snd (sweep d))))"
    and due_left: "distinct (map key (rows_of d)) \<Longrightarrow>
      filter (due (snd (sweep d))) (rows_of (snd (sweep d))) = drop RETENTION_CHUNK (filter (due d) (rows_of d))"
    and reports: "distinct (map key (rows_of d)) \<Longrightarrow> fst (sweep d) =
      \<lparr>tick_done = min RETENTION_CHUNK (length (filter (due d) (rows_of d))), tick_more = (RETENTION_CHUNK \<le> length (filter (due d) (rows_of d)))\<rparr>"
    and spares: "distinct (map key (rows_of d)) \<Longrightarrow> x \<in> set (rows_of d) \<Longrightarrow> \<not> due d x \<Longrightarrow> x \<in> set (rows_of (snd (sweep d)))"
begin

lemma passes_keys: "distinct (map key (rows_of d)) \<Longrightarrow> distinct (map key (rows_of (sweep_passes n sweep d)))"
  by (induction n arbitrary: d) (simp_all add: keys_kept)

lemma passes_left:
  "distinct (map key (rows_of d)) \<Longrightarrow>
   filter (due (sweep_passes n sweep d)) (rows_of (sweep_passes n sweep d)) = drop (n * RETENTION_CHUNK) (filter (due d) (rows_of d))"
proof (induction n arbitrary: d)
  case (Suc n)
  from Suc.IH [OF keys_kept [OF Suc.prems]] show ?case by (simp add: due_left [OF Suc.prems] add.commute)
qed simp

lemma passes_spare:
  "distinct (map key (rows_of d)) \<Longrightarrow> x \<in> set (rows_of d) \<Longrightarrow> \<not> due d x \<Longrightarrow> x \<in> set (rows_of (sweep_passes n sweep d))"
proof (induction n arbitrary: d)
  case (Suc n)
  let ?d = "snd (sweep d)"
  have "x \<in> set (rows_of ?d)" by (rule spares [OF Suc.prems])
  moreover have "\<not> due ?d x"
  proof
    assume "due ?d x"
    with calculation have "x \<in> set (filter (due ?d) (rows_of ?d))" by simp
    with due_left [OF Suc.prems(1)] have "x \<in> set (filter (due d) (rows_of d))" by (auto dest: in_set_dropD)
    with Suc.prems(3) show False by simp
  qed
  ultimately show ?case using Suc.IH [OF keys_kept [OF Suc.prems(1)]] by simp
qed simp

text \<open>Enough passes clear the backlog, the last one says so, and no other row is touched.\<close>

lemma cleared:
  assumes d: "distinct (map key (rows_of d))" and n: "length (filter (due d) (rows_of d)) < n * RETENTION_CHUNK"
  shows "filter (due (sweep_passes n sweep d)) (rows_of (sweep_passes n sweep d)) = []
    \<and> fst (sweep (sweep_passes n sweep d)) = \<lparr>tick_done = 0, tick_more = False\<rparr>
    \<and> (\<forall>x \<in> set (rows_of d). \<not> due d x \<longrightarrow> x \<in> set (rows_of (sweep_passes n sweep d)))"
proof -
  have e: "filter (due (sweep_passes n sweep d)) (rows_of (sweep_passes n sweep d)) = []"
    using n by (simp add: passes_left [OF d])
  have "0 < RETENTION_CHUNK" using n by (cases RETENTION_CHUNK) simp_all
  with reports [OF passes_keys [OF d], of n] e show ?thesis by (simp add: passes_spare [OF d])
qed

end

lemma swept_ids:
  "length (first_ids key due rows) = RETENTION_CHUNK \<longleftrightarrow> RETENTION_CHUNK \<le> length (filter due rows)"
  by (auto simp: first_ids_def)

text \<open>A sweep that blanks the chosen rows with \<open>f\<close>, and one that deletes them, keep the contract.\<close>

lemma blank_sweep:
  fixes rows_of :: "'d \<Rightarrow> 'r list"
  assumes f: "\<And>x. key (f x) = key x" and off: "\<And>d x. \<not> due d (f x)"
    and same: "\<And>d rows x. due (put d rows) x = due d x" and get: "\<And>d rows. rows_of (put d rows) = rows"
    and chosen: "\<And>d x. chosen d x \<longleftrightarrow> key x \<in> set (first_ids key (due d) (rows_of d)) \<and> ok x" and ok: "\<And>d x. due d x \<Longrightarrow> ok x"
    and sweep: "\<And>d. sweep d = (swept (first_ids key (due d) (rows_of d)) (length (filter (chosen d) (rows_of d))),
        put d (update_where (chosen d) f (rows_of d)))"
  shows "retention_sweep key rows_of due sweep"
proof
  fix d assume d: "distinct (map key (rows_of d))"
  have h: "chosen d x \<longleftrightarrow> x \<in> set (take RETENTION_CHUNK (filter (due d) (rows_of d)))" if "x \<in> set (rows_of d)" for x
    using that ok by (auto simp: chosen take_filter_hit [OF d] dest: in_set_takeD)
  show "distinct (map key (rows_of (snd (sweep d))))" using d f by (simp add: sweep get map_update_where)
  show "filter (due (snd (sweep d))) (rows_of (snd (sweep d))) = drop RETENTION_CHUNK (filter (due d) (rows_of d))"
    using due_after_blank [OF d, of "due d" f "chosen d" RETENTION_CHUNK] off h by (simp add: sweep get same [abs_def])
  show "fst (sweep d) = \<lparr>tick_done = min RETENTION_CHUNK (length (filter (due d) (rows_of d))),
      tick_more = (RETENTION_CHUNK \<le> length (filter (due d) (rows_of d)))\<rparr>"
    using count_hit [OF d, of "chosen d" RETENTION_CHUNK "due d"] h by (simp add: sweep swept_def swept_ids)
  show "x \<in> set (rows_of (snd (sweep d)))" if "x \<in> set (rows_of d)" "\<not> due d x" for x
  proof -
    have "\<not> chosen d x" using h [OF that(1)] that(2) by (auto dest: in_set_takeD)
    with that(1) show ?thesis by (auto simp: sweep get set_update_where)
  qed
qed

lemma delete_sweep:
  fixes rows_of :: "'d \<Rightarrow> 'r list"
  assumes same: "\<And>d rows x. due (put d rows) x = due d x" and get: "\<And>d rows. rows_of (put d rows) = rows"
    and sweep: "\<And>d. sweep d = (swept (first_ids key (due d) (rows_of d)) (length (filter (\<lambda>x. key x \<in> set (first_ids key (due d) (rows_of d))) (rows_of d))),
        put d (filter (\<lambda>x. key x \<notin> set (first_ids key (due d) (rows_of d))) (rows_of d)))"
  shows "retention_sweep key rows_of due sweep"
proof
  fix d assume d: "distinct (map key (rows_of d))"
  let ?chosen = "\<lambda>x. key x \<in> set (first_ids key (due d) (rows_of d))"
  have h: "?chosen x \<longleftrightarrow> x \<in> set (take RETENTION_CHUNK (filter (due d) (rows_of d)))" if "x \<in> set (rows_of d)" for x
    using that by (rule take_filter_hit [OF d])
  show "distinct (map key (rows_of (snd (sweep d))))" using d by (simp add: sweep get distinct_map_filter)
  show "filter (due (snd (sweep d))) (rows_of (snd (sweep d))) = drop RETENTION_CHUNK (filter (due d) (rows_of d))"
    using due_after_delete [OF d, of ?chosen RETENTION_CHUNK "due d"] h by (simp add: sweep get same [abs_def])
  show "fst (sweep d) = \<lparr>tick_done = min RETENTION_CHUNK (length (filter (due d) (rows_of d))),
      tick_more = (RETENTION_CHUNK \<le> length (filter (due d) (rows_of d)))\<rparr>"
    using count_hit [OF d, of ?chosen RETENTION_CHUNK "due d"] h by (simp add: sweep swept_def swept_ids)
  show "x \<in> set (rows_of (snd (sweep d)))" if "x \<in> set (rows_of d)" "\<not> due d x" for x
    using h [OF that(1)] that by (auto simp: sweep get dest: in_set_takeD)
qed

interpretation address_sweep: retention_sweep ms_pk mail "\<lambda>db. address_due now" "null_outbound_addresses (\<lambda>d. d) now" for now
  by (rule blank_sweep [where f = "\<lambda>m. m\<lparr>to_address := None\<rparr>" and put = "\<lambda>db rows. db\<lparr>mail := rows\<rparr>" and ok = has_address
        and chosen = "\<lambda>db m. ms_pk m \<in> set (first_ids ms_pk (address_due now) (mail db)) \<and> has_address m"])
    (auto simp: address_due_def has_address_def null_outbound_addresses_def Let_def)

interpretation payload_sweep: retention_sweep ev_pk outbox "payload_due now" "null_event_payloads (\<lambda>d. d) now" for now
  by (rule blank_sweep [where f = "\<lambda>e. e\<lparr>ev_data := [], payload_nulled_at := Some now\<rparr>" and put = "\<lambda>db rows. db\<lparr>outbox := rows\<rparr>"
        and ok = "\<lambda>e. payload_nulled_at e = None"
        and chosen = "\<lambda>db e. ev_pk e \<in> set (first_ids ev_pk (payload_due now db) (outbox db)) \<and> payload_nulled_at e = None"])
    (auto simp: payload_due_def has_pending_delivery_def null_event_payloads_def Let_def)

interpretation command_sweep: retention_sweep cmd_pk commands "\<lambda>db. command_due now" "null_command_payloads (\<lambda>d. d) now" for now
  by (rule blank_sweep [where f = "\<lambda>c. c\<lparr>cmd_payload := None\<rparr>" and put = "\<lambda>db rows. db\<lparr>commands := rows\<rparr>" and ok = "\<lambda>c. cmd_payload c \<noteq> None"
        and chosen = "\<lambda>db c. cmd_pk c \<in> set (first_ids cmd_pk (command_due now) (commands db)) \<and> cmd_payload c \<noteq> None"])
    (auto simp: command_due_def null_command_payloads_def Let_def)

interpretation counter_sweep: retention_sweep rc_pk counters "\<lambda>db. counter_due now" "prune_rate_limit_counters (\<lambda>d. d) now" for now
  by (rule delete_sweep [where put = "\<lambda>db rows. db\<lparr>counters := rows\<rparr>"]) (simp_all add: prune_rate_limit_counters_def Let_def)

interpretation access_sweep: retention_sweep ac_pk accesses "\<lambda>db. access_due now" "prune_access_log (\<lambda>d. d) now" for now
  by (rule delete_sweep [where put = "\<lambda>db rows. db\<lparr>accesses := rows\<rparr>"]) (simp_all add: prune_access_log_def Let_def)

subsection \<open>Properties\<close>

lemma few_due: "length xs < n * 1000 \<Longrightarrow> length (filter P xs) < n * RETENTION_CHUNK"
  unfolding RETENTION_CHUNK_def by (rule le_less_trans [OF length_filter_le])



subsection \<open>Pruning and the rate limiter\<close>

lemma window_start_recent:
  assumes "seconds 1 \<le> w"
  shows "t - w < window_start t w"
proof -
  let ?s = "w div 1000000" and ?u = "t div 1000000"
  have s: "1 \<le> ?s" using assms by (simp add: seconds_def)
  have "?u div ?s * ?s = ?u - ?u mod ?s" by (simp only: minus_mod_eq_div_mult)
  moreover have "?u mod ?s < ?s" using s by (intro pos_mod_bound) linarith
  ultimately have "?u - ?s + 1 \<le> ?u div ?s * ?s" by linarith
  then have "(?u - ?s + 1) * 1000000 \<le> ?u div ?s * ?s * 1000000" by (rule mult_right_mono) simp
  moreover have "t \<le> ?u * 1000000 + 999999" by presburger
  moreover have "?s * 1000000 \<le> w" by presburger
  ultimately show ?thesis by (simp add: window_start_def Let_def algebra_simps)
qed

lemma find_filter_in: "(\<And>x. x \<in> set xs \<Longrightarrow> P x \<Longrightarrow> Q x) \<Longrightarrow> find P (filter Q xs) = find P xs"
  by (induction xs) auto

text \<open>Two states the limiter cannot tell apart at time \<open>t\<close>.\<close>

definition short_rule :: "limit_rule \<Rightarrow> bool" where
  "short_rule r \<longleftrightarrow> seconds 1 \<le> lr_window r \<and> lr_window r \<le> RATE_LIMIT_KEEP"

definition same_counts :: "instant \<Rightarrow> 'z core_db_scheme \<Rightarrow> 'z core_db_scheme \<Rightarrow> bool" where
  "same_counts t db db' \<longleftrightarrow> in_atomic db = in_atomic db'
     \<and> (\<forall>tn r digest. short_rule r \<longrightarrow> count_of tn r digest (window_start t (lr_window r)) db = count_of tn r digest (window_start t (lr_window r)) db')"

lemma same_counts_prune:
  assumes d: "distinct (map rc_pk (counters db))" and t: "now \<le> t"
  shows "same_counts t db (snd (prune_rate_limit_counters (\<lambda>d. d) now db))"
proof -
  let ?ids = "first_ids rc_pk (counter_due now) (counters db)"
  have "find (counter_key tn r digest (window_start t (lr_window r))) (filter (\<lambda>c. rc_pk c \<notin> set ?ids) (counters db))
      = find (counter_key tn r digest (window_start t (lr_window r))) (counters db)" if "short_rule r" for tn r digest
  proof (rule find_filter_in)
    fix c assume c: "c \<in> set (counters db)" "counter_key tn r digest (window_start t (lr_window r)) c"
    have "\<not> counter_due now c"
      using c(2) that t window_start_recent [of "lr_window r" t] by (simp add: counter_key_def counter_due_def short_rule_def)
    then show "rc_pk c \<notin> set ?ids" by (auto simp: take_filter_hit [OF d c(1)] dest: in_set_takeD)
  qed
  then show ?thesis by (simp add: same_counts_def count_of_def prune_rate_limit_counters_def Let_def)
qed

lemma same_counts_hit:
  assumes "same_counts t db db'" "short_rule r"
  shows "fst (hit tn r digest t db) = fst (hit tn r digest t db') \<and> same_counts t (snd (hit tn r digest t db)) (snd (hit tn r digest t db'))"
  using assms by (simp add: same_counts_def hit_result hit_counts)

lemma same_counts_rules:
  "same_counts t db db' \<Longrightarrow> \<forall>r \<in> set rs. short_rule r \<Longrightarrow>
   fst (check_rules tn digest t rs db) = fst (check_rules tn digest t rs db')
   \<and> same_counts t (snd (check_rules tn digest t rs db)) (snd (check_rules tn digest t rs db'))"
proof (induction rs arbitrary: db db')
  case (Cons r rs)
  from same_counts_hit [OF Cons.prems(1), of r tn digest] Cons.prems(2)
  have h: "fst (hit tn r digest t db) = fst (hit tn r digest t db')" "same_counts t (snd (hit tn r digest t db)) (snd (hit tn r digest t db'))" by simp_all
  show ?case using h(1) Cons.IH [OF h(2)] Cons.prems(2) h(2) by (simp add: case_prod_beta)
qed simp

lemma same_counts_groups:
  "same_counts t db db' \<Longrightarrow> \<forall>(kind, v, rules) \<in> set gs. \<forall>r \<in> set rules. short_rule r \<Longrightarrow>
   fst (check_groups hmac bucket tn t gs db) = fst (check_groups hmac bucket tn t gs db')"
proof (induction gs arbitrary: db db')
  case (Cons g gs)
  obtain kind v rules where g: "g = (kind, v, rules)" by (cases g)
  from Cons.prems(2) have s: "\<forall>r \<in> set rules. short_rule r" "\<forall>(kind, v, rules) \<in> set gs. \<forall>r \<in> set rules. short_rule r" by (auto simp: g)
  show ?case
  proof (cases v)
    case (Some s')
    let ?c = "check_rules tn (subject_hash hmac bucket tn kind s') t rules"
    note c = same_counts_rules [OF Cons.prems(1) s(1), of tn "subject_hash hmac bucket tn kind s'"]
    have "fst (check_groups hmac bucket tn t gs (snd (?c db))) = fst (check_groups hmac bucket tn t gs (snd (?c db')))"
      by (rule Cons.IH [OF _ s(2)]) (simp add: c)
    with c Cons.IH [OF Cons.prems(1) s(2)] show ?thesis by (auto simp: g Some case_prod_beta split: option.splits)
  qed (use Cons.IH [OF Cons.prems(1) s(2)] in \<open>simp add: g\<close>)
qed simp

text \<open>Pruning rate-limit counters never changes an answer of the limiter: a check at the time of the sweep or later, of rules with
  windows between a second and 48 hours, gives the verdict it would have given.\<close>
theorem prune_keeps_verdicts:
  assumes "distinct (map rc_pk (counters db))" and "now \<le> t"
    and "\<forall>(kind, v, rules) \<in> set checks. \<forall>r \<in> set rules. seconds 1 \<le> lr_window r \<and> lr_window r \<le> hours 48"
    and "check hmac bucket tn checks t db = Inr (verd, db1)"
  shows "\<exists>db2. check hmac bucket tn checks t (snd (prune_rate_limit_counters (\<lambda>d. d) now db)) = Inr (verd, db2)"
proof -
  have s: "\<forall>(kind, v, rules) \<in> set checks. \<forall>r \<in> set rules. short_rule r" using assms(3) by (simp add: short_rule_def RATE_LIMIT_KEEP_def)
  note p = same_counts_prune [OF assms(1,2)]
  from same_counts_groups [OF p s, of hmac bucket tn] p assms(4) show ?thesis
    by (auto simp: check_def require_autocommit_def same_counts_def split: if_splits) (metis prod.collapse fst_conv)
qed

theorem prune_keeps_verdicts_witness:
  "\<exists>verd db1 db2. check (\<lambda>x. x) (\<lambda>x. x) replay_tenant [(''email'', Some ''a'', [\<lparr>lr_name = ''r'', lr_limit = 1, lr_window = hours 24\<rparr>])] 5 replay_db = Inr (verd, db1)
     \<and> check (\<lambda>x. x) (\<lambda>x. x) replay_tenant [(''email'', Some ''a'', [\<lparr>lr_name = ''r'', lr_limit = 1, lr_window = hours 24\<rparr>])] 5
         (snd (prune_rate_limit_counters (\<lambda>d. d) 5 replay_db)) = Inr (verd, db2)"
proof -
  let ?checks = "[(''email'', Some ''a'', [\<lparr>lr_name = ''r'', lr_limit = 1, lr_window = hours 24\<rparr>])]"
  have "\<exists>verd db1. check (\<lambda>x. x) (\<lambda>x. x) replay_tenant ?checks 5 replay_db = Inr (verd, db1)"
    by (simp add: check_def require_autocommit_def replay_db_def del: check_groups.simps)
  then obtain verd db1 where c: "check (\<lambda>x. x) (\<lambda>x. x) replay_tenant ?checks 5 replay_db = Inr (verd, db1)" by blast
  have d: "distinct (map rc_pk (counters replay_db))" by (simp add: replay_db_def)
  have w: "\<forall>(kind, v, rules) \<in> set ?checks. \<forall>r \<in> set rules. seconds 1 \<le> lr_window r \<and> lr_window r \<le> hours 48"
    by (simp add: time_simps)
  from prune_keeps_verdicts [OF d order_refl w c] c show ?thesis by blast
qed

subsection \<open>A replay during the payload sweep\<close>

text \<open>C40: The sweep of event payloads re-checks only the stamp, not the deliveries: when an admin replays a dead-lettered delivery
  between the sweep's selection and its update, the replay is accepted (the payload is still there) and the sweep then blanks it,
  so the delivery waits in the queue for an event without data.\<close>
theorem replay_races_payload_sweep:
  assumes "\<not> in_atomic db" and "distinct (map dl_pk (deliveries db))" and "distinct (map ev_pk (outbox db))" and "length (outbox db) \<le> 1000"
    and "replay_delivery tn adapter eid oper at db = (Inr d, db1)"
    and "event_of d db = Some ev" and "payload_due now db ev"
  shows "(case snd (null_event_payloads (\<lambda>_. db1) now db) of db' \<Rightarrow>
      d \<in> set (deliveries db') \<and> dl_status d = DlPending
      \<and> event_of d db' = Some (ev\<lparr>ev_data := [], payload_nulled_at := Some now\<rparr>))"
proof -
  from assms(1,5) obtain d0 ev0 t where r: "find_replay tn adapter eid db = Some d0" "event_of d0 db = Some ev0" "d = requeue t d0"
    "deliveries db1 = update_where (\<lambda>x. dl_pk x = dl_pk d0) (requeue t) (deliveries db)" "outbox db1 = outbox db"
    by (rule replay_delivery_Inr)
  have "d0 \<in> set (deliveries db)" using r(1) by (auto simp: find_replay_def dest: find_SomeD)
  then have d: "d \<in> set (deliveries db1)" unfolding r(3,4) set_update_where by auto
  have ev: "ev \<in> set (outbox db)" "find_by ev_pk (dl_event d) (outbox db) = Some ev"
    using assms(6) by (auto simp: event_of_def dest: find_by_SomeD)
  have "ev_pk ev \<in> set (first_ids ev_pk (payload_due now db) (outbox db))"
  proof -
    have "length (filter (payload_due now db) (outbox db)) \<le> RETENTION_CHUNK"
      using le_trans [OF length_filter_le assms(4)] by (simp add: RETENTION_CHUNK_def)
    with ev(1) assms(7) show ?thesis by (simp add: take_filter_hit [OF assms(3) ev(1)])
  qed
  moreover have "payload_nulled_at ev = None" using assms(7) by (simp add: payload_due_def)
  ultimately have "event_of d (snd (null_event_payloads (\<lambda>_. db1) now db)) = Some (ev\<lparr>ev_data := [], payload_nulled_at := Some now\<rparr>)"
    using ev(2) by (simp add: event_of_def null_event_payloads_def Let_def r(5) find_by_update_where)
  with d r(3) show ?thesis by (simp add: null_event_payloads_def Let_def requeue_def)
qed

theorem replay_races_payload_sweep_witness:
  "\<exists>db1. replay_delivery replay_tenant ''webhook'' ''01E'' replay_admin (Some 100) replay_db = (Inr (requeue 100 dead_delivery), db1)
     \<and> requeue 100 dead_delivery \<in> set (deliveries (snd (null_event_payloads (\<lambda>_. db1) (days 200) replay_db)))
     \<and> event_of (requeue 100 dead_delivery) (snd (null_event_payloads (\<lambda>_. db1) (days 200) replay_db))
         = Some (replay_event\<lparr>ev_data := [], payload_nulled_at := Some (days 200)\<rparr>)"
proof -
  let ?d = "requeue 100 dead_delivery"
  obtain db1 where r: "replay_delivery replay_tenant ''webhook'' ''01E'' replay_admin (Some 100) replay_db = (Inr ?d, db1)"
    using replay_sample [of 100] by (metis prod.collapse)
  have p: "\<not> in_atomic replay_db" "distinct (map dl_pk (deliveries replay_db))" "distinct (map ev_pk (outbox replay_db))" "length (outbox replay_db) \<le> 1000"
    by (simp_all add: replay_db_def)
  have e: "event_of ?d replay_db = Some replay_event"
    by (simp add: event_of_def requeue_def replay_db_def dead_delivery_def replay_event_def)
  have due: "payload_due (days 200) replay_db replay_event"
    by (simp add: payload_due_def has_pending_delivery_def replay_db_def dead_delivery_def replay_event_def RETENTION_def time_simps)
  from replay_races_payload_sweep [OF p r e due] r show ?thesis by auto
qed

end
