(* ===== verification/Claim_Store.thy ===== *)
theory Claim_Store
  imports Listings Ratelimit Command_Log
begin

section \<open>Claims: rows, eligibility, masking, limits\<close>

text \<open>
  What the claim commands share: the rows of \<^verbatim>\<open>directory/models.py\<close> (\<^verbatim>\<open>Claim\<close>, \<^verbatim>\<open>ClaimVerificationGuard\<close>,
  \<^verbatim>\<open>ModerationItem\<close>, \<^verbatim>\<open>ConsentText\<close>, \<^verbatim>\<open>Consent\<close>), \<^verbatim>\<open>directory/claims.py\<close> (hosts and eligibility), \<^verbatim>\<open>directory/masking.py\<close>,
  \<^verbatim>\<open>directory/claim_limits.py\<close> and the parts of \<^verbatim>\<open>directory/normalize.py\<close> a claim uses.

  The record \<open>world\<close> holds the code a command calls that is not in the repository: the keyed hash of a code (\<open>w_hash\<close>), the
  rate limiter's keyed hash and address bucket, whether mail is configured for a tenant, whether \<^verbatim>\<open>urlsplit\<close> accepts a
  bracketed host, and which claims another transaction holds a lock on (\<open>w_locked\<close>, for \<^verbatim>\<open>skip_locked\<close>). Strings are ASCII, on which
  IDNA encoding is the identity; the bullets of a mask are their UTF-8 bytes.
\<close>

subsection \<open>Rows\<close>

datatype claim_status = C_PENDING | C_APPROVED | C_REJECTED | C_ABANDONED | C_DISPUTED | C_SUPERSEDED

fun claim_status_value :: "claim_status \<Rightarrow> string" where
  "claim_status_value C_PENDING = ''pending_verification''"
| "claim_status_value C_APPROVED = ''approved''"
| "claim_status_value C_REJECTED = ''rejected''"
| "claim_status_value C_ABANDONED = ''abandoned''"
| "claim_status_value C_DISPUTED = ''disputed''"
| "claim_status_value C_SUPERSEDED = ''superseded''"

datatype claim_method = CM_MANUAL | CM_PHONE_OTP | CM_DOMAIN_EMAIL | CM_GBP_OAUTH | CM_POSTCARD

fun claim_method_value :: "claim_method \<Rightarrow> string" where
  "claim_method_value CM_MANUAL = ''manual''"
| "claim_method_value CM_PHONE_OTP = ''phone_otp''"
| "claim_method_value CM_DOMAIN_EMAIL = ''domain_email''"
| "claim_method_value CM_GBP_OAUTH = ''gbp_oauth''"
| "claim_method_value CM_POSTCARD = ''postcard''"

definition claim_method_of :: "string \<Rightarrow> claim_method option" where
  "claim_method_of s = find (\<lambda>m. claim_method_value m = s) [CM_MANUAL, CM_PHONE_OTP, CM_DOMAIN_EMAIL, CM_GBP_OAUTH, CM_POSTCARD]"

definition MANUAL_METHODS :: "string list" where
  "MANUAL_METHODS = [''phone'', ''email'', ''postcard'', ''website'', ''social'', ''in_person'', ''document'', ''other'']"

record claim =
  cl_pk :: nat
  cl_tenant :: nat
  cl_listing :: nat
  cl_claimant :: nat
  cl_public_id :: string
  cl_status :: claim_status
  cl_method :: claim_method
  role_claimed :: string
  verification_started_at :: "instant option"
  cl_expires_at :: "instant option"
  cl_attempts :: nat
  code_hash :: string
  code_message :: "nat option"
  manual_method_used :: string
  verified_by :: "nat option"
  verified_at :: "instant option"
  verification_notes :: string
  evidence_ref :: string
  cl_decided_at :: "instant option"
  cl_decided_by :: "nat option"
  rejection_reason :: string
  requested_method :: string
  review_reason :: string
  last_step :: string
  cl_created_at :: instant
  cl_updated_at :: instant

record guard =
  gd_pk :: nat
  gd_tenant :: nat
  gd_listing :: nat
  gd_claimant :: nat
  wrong_entries :: nat
  cooldowns :: nat
  cooldown_until :: "instant option"
  verification_locked_at :: "instant option"
  rejections :: nat
  claim_blocked_at :: "instant option"
  last_code_sent_at :: "instant option"
  codes_sent_window_start :: "instant option"
  codes_sent_in_window :: nat

datatype item_type = I_DISPUTE | I_LOCK | I_BLOCK

fun item_type_value :: "item_type \<Rightarrow> string" where
  "item_type_value I_DISPUTE = ''claim_dispute''"
| "item_type_value I_LOCK = ''verification_lock''"
| "item_type_value I_BLOCK = ''claim_block''"

record moderation_item =
  it_pk :: nat
  it_tenant :: nat
  it_public_id :: string
  it_type :: item_type
  it_open :: bool
  it_listing :: nat
  it_claimant :: nat
  it_claim :: "nat option"
  rules_triggered :: "string list"
  priority :: string
  it_created_at :: instant
  it_decided_at :: "instant option"
  it_decided_by :: "nat option"
  decision :: string
  rationale :: string

record consent_text =
  ct_pk :: nat
  ct_tenant :: nat
  ct_key :: string
  ct_version :: string
  ct_body :: string

record consent =
  cn_pk :: nat
  cn_tenant :: nat
  cn_public_id :: string
  cn_claim :: "nat option"
  cn_lead :: "nat option"
  cn_channel :: string
  cn_granted :: bool
  cn_granted_at :: "instant option"
  cn_ip :: "string option"
  cn_text_version :: string

record claim_db = directory_db +
  operators :: "operator list"
  claims :: "claim list"
  guards :: "guard list"
  items :: "moderation_item list"
  consent_texts :: "consent_text list"
  consents :: "consent list"

datatype claim_error =
    VerificationRefused string
  | ReviewRefused string
  | ClaimSchemaError "string list"
  | ConsentRequired string
  | RateLimited verdict
  | InvalidUrl
  | ClaimIntegrity
  | DoesNotExist
  | ClaimAudit audit_error

definition lift_claim :: "audit_error + 'a \<Rightarrow> claim_error + 'a" where
  "lift_claim r = (case r of Inl e \<Rightarrow> Inl (ClaimAudit e) | Inr x \<Rightarrow> Inr x)"

lemma lift_claim_simps [simp]: "lift_claim (Inl e) = Inl (ClaimAudit e)" "lift_claim (Inr x) = Inr x"
  by (simp_all add: lift_claim_def)

record world =
  w_hash :: "string \<Rightarrow> string \<Rightarrow> string"
  w_hmac :: "string \<Rightarrow> string"
  w_bucket :: "string \<Rightarrow> string"
  w_mail :: "tenant \<Rightarrow> bool"
  w_ipv6 :: "string \<Rightarrow> bool"
  w_locked :: "nat \<Rightarrow> bool"

subsection \<open>Text\<close>

definition lower_char :: "char \<Rightarrow> char" where
  "lower_char c = (let n = of_char c :: nat in if 65 \<le> n \<and> n \<le> 90 then char_of (n + 32) else c)"

definition lower :: "string \<Rightarrow> string" where
  "lower s = map lower_char s"

definition nl :: string where
  "nl = [char_of (10::nat)]"

text \<open>\<^verbatim>\<open>s.partition(c)\<close> before and after, and \<^verbatim>\<open>s.rpartition(c)[2]\<close>.\<close>

definition before :: "char \<Rightarrow> string \<Rightarrow> string" where
  "before c s = takeWhile (\<lambda>x. x \<noteq> c) s"

definition after :: "char \<Rightarrow> string \<Rightarrow> string" where
  "after c s = drop 1 (dropWhile (\<lambda>x. x \<noteq> c) s)"

definition after_last :: "char \<Rightarrow> string \<Rightarrow> string" where
  "after_last c s = rev (takeWhile (\<lambda>x. x \<noteq> c) (rev s))"

fun contains :: "string \<Rightarrow> string \<Rightarrow> bool" where
  "contains p [] = (p = [])"
| "contains p (c # s) = (starts_with (c # s) p \<or> contains p s)"

definition normalize_text :: "string \<Rightarrow> string option" where
  "normalize_text s = (let t = strip s in if t = [] then None else Some t)"

definition normalize_email :: "string \<Rightarrow> string option" where
  "normalize_email s = map_option lower (normalize_text s)"

text \<open>\<^verbatim>\<open>normalize.phone_e164\<close> of a string: \<open>Inl ()\<close> is the \<^verbatim>\<open>ValueError\<close>.\<close>

definition normalize_phone :: "string \<Rightarrow> unit + string option" where
  "normalize_phone s =
     (case normalize_text s of
        None \<Rightarrow> Inr None
      | Some t \<Rightarrow>
          let cleaned = filter (\<lambda>c. is_digit c \<or> c = CHR ''+'') t;
              num = (if starts_with cleaned ''+'' then ''+'' @ dropWhile (\<lambda>c. c = CHR ''+'') cleaned else cleaned);
              ds = drop 1 num
          in if starts_with num ''+'' \<and> list_all is_digit ds \<and> 8 \<le> length ds \<and> length ds \<le> 15 then Inr (Some num) else Inl ())"

subsection \<open>Hosts and eligibility\<close>

definition PLATFORM_HOSTS :: "string list" where
  "PLATFORM_HOSTS =
    [''facebook.com'', ''instagram.com'', ''x.com'', ''twitter.com'', ''linkedin.com'', ''yelp.com'', ''youtube.com'', ''tiktok.com'',
     ''pinterest.com'', ''etsy.com'', ''amazon.com'', ''ebay.com'', ''wixsite.com'', ''squarespace.com'', ''weebly.com'',
     ''godaddysites.com'', ''business.site'', ''wordpress.com'', ''blogspot.com'', ''carrd.co'', ''linktr.ee'', ''google.com'', ''g.page'',
     ''square.site'']"

definition normalize_host :: "bool \<Rightarrow> string \<Rightarrow> string" where
  "normalize_host strip_www host =
     (let h = lower (strip host) in
      if h = [] then h
      else let h1 = before CHR '':'' h; h2 = rev (dropWhile (\<lambda>c. c = CHR ''.'') (rev h1))
           in if strip_www \<and> starts_with h2 ''www.'' then drop 4 h2 else h2)"

text \<open>\<^verbatim>\<open>urllib.parse.urlsplit(url).hostname\<close>: \<open>Inl ()\<close> is its \<^verbatim>\<open>ValueError\<close>.\<close>

definition is_scheme_char :: "char \<Rightarrow> bool" where
  "is_scheme_char c \<longleftrightarrow> is_lower c \<or> is_upper c \<or> is_digit c \<or> c = CHR ''+'' \<or> c = CHR ''-'' \<or> c = CHR ''.''"

definition after_scheme :: "string \<Rightarrow> string" where
  "after_scheme url =
     (let s = before CHR '':'' url in
      if length s < length url \<and> s \<noteq> [] \<and> (is_lower (hd s) \<or> is_upper (hd s)) \<and> list_all is_scheme_char s then after CHR '':'' url else url)"

definition bracket_host :: "(string \<Rightarrow> bool) \<Rightarrow> string \<Rightarrow> unit + string option" where
  "bracket_host ipv6 info =
     (let inside = after CHR ''['' info; name = before CHR '']'' inside; port = after CHR '']'' inside in
      if CHR '']'' \<notin> set info \<or> CHR ''['' \<notin> set info \<or> before CHR ''['' info \<noteq> [] \<or> (port \<noteq> [] \<and> \<not> starts_with port '':'') \<or> \<not> ipv6 name
      then Inl () else Inr (if name = [] then None else Some (lower name)))"

definition url_host :: "(string \<Rightarrow> bool) \<Rightarrow> string \<Rightarrow> unit + string option" where
  "url_host ipv6 raw =
     (let url = filter (\<lambda>c. (of_char c :: nat) \<notin> {9, 10, 13}) (dropWhile (\<lambda>c. (of_char c :: nat) \<le> 32) raw);
          rest = after_scheme url
      in if \<not> starts_with rest ''//'' then Inr None
         else let netloc = takeWhile (\<lambda>c. c \<notin> {CHR ''/'', CHR ''?'', CHR ''#''}) (drop 2 rest);
                  info = after_last CHR ''@'' netloc
              in if CHR ''['' \<in> set netloc \<or> CHR '']'' \<in> set netloc then bracket_host ipv6 info
                 else let name = before CHR '':'' info in Inr (if name = [] then None else Some (lower name)))"

definition website_host :: "(string \<Rightarrow> bool) \<Rightarrow> listing \<Rightarrow> unit + string option" where
  "website_host ipv6 l =
     (let site = strip (website l) in
      if site = [] then Inr None else url_host ipv6 (if contains ''//'' site then site else ''//'' @ site))"

text \<open>\<^verbatim>\<open>".".join(labels[i:])\<close> for \<open>i\<close> from 1.\<close>

fun label_suffixes :: "string \<Rightarrow> string list" where
  "label_suffixes [] = []"
| "label_suffixes (c # s) = (if c = CHR ''.'' then s # label_suffixes s else label_suffixes s)"

definition platform_host :: "string \<Rightarrow> bool" where
  "platform_host host \<longleftrightarrow> host \<in> set PLATFORM_HOSTS \<or> list_ex (\<lambda>h. h \<in> set PLATFORM_HOSTS) (label_suffixes host)"

definition domain_email_host :: "(string \<Rightarrow> bool) \<Rightarrow> listing \<Rightarrow> unit + string option" where
  "domain_email_host ipv6 l =
     (case website_host ipv6 l of
        Inl e \<Rightarrow> Inl e
      | Inr None \<Rightarrow> Inr None
      | Inr (Some h) \<Rightarrow> let host = normalize_host True h in Inr (if platform_host host then None else Some host))"

definition pair_locked :: "nat \<Rightarrow> listing \<Rightarrow> string \<Rightarrow> 'z claim_db_scheme \<Rightarrow> bool" where
  "pair_locked tenant l mail_address db =
     (case find (\<lambda>g. gd_tenant g = tenant \<and> gd_listing g = ls_pk l
          \<and> (case find_by usr_pk (gd_claimant g) (users db) of None \<Rightarrow> False | Some u \<Rightarrow> usr_email u = mail_address)) (guards db) of
        None \<Rightarrow> False
      | Some g \<Rightarrow> verification_locked_at g \<noteq> None)"

definition domain_matches :: "string \<Rightarrow> string \<Rightarrow> bool" where
  "domain_matches mail_address host \<longleftrightarrow>
     (let domain = after_last CHR ''@'' mail_address in domain \<noteq> [] \<and> normalize_host False domain = host)"

definition domain_email_eligible :: "world \<Rightarrow> tenant \<Rightarrow> listing \<Rightarrow> string \<Rightarrow> 'z claim_db_scheme \<Rightarrow> unit + bool" where
  "domain_email_eligible w tn l mail_address db =
     (case domain_email_host (w_ipv6 w) l of
        Inl e \<Rightarrow> Inl e
      | Inr None \<Rightarrow> Inr False
      | Inr (Some host) \<Rightarrow> Inr (domain_matches mail_address host \<and> \<not> pair_locked (tn_pk tn) l mail_address db))"

definition domain_email_ineligibility :: "world \<Rightarrow> tenant \<Rightarrow> listing \<Rightarrow> string \<Rightarrow> 'z claim_db_scheme \<Rightarrow> claim_error + string option" where
  "domain_email_ineligibility w tn l mail_address db =
     (case domain_email_host (w_ipv6 w) l of
        Inl e \<Rightarrow> Inl InvalidUrl
      | Inr None \<Rightarrow> Inr (Some ''no_website'')
      | Inr (Some host) \<Rightarrow>
          Inr (if pair_locked (tn_pk tn) l mail_address db then Some ''locked''
               else if \<not> w_mail w tn then Some ''mail_unavailable''
               else if \<not> domain_matches mail_address host then Some ''address_mismatch''
               else None))"

text \<open>\<^verbatim>\<open>secrets.randbelow(10**6)\<close>, zero-padded.\<close>

definition generate_code :: "'z core_db_scheme \<Rightarrow> string \<times> 'z core_db_scheme" where
  "generate_code db = (digits_of 6 (entropy db (draws db) mod 1000000), db\<lparr>draws := Suc (draws db)\<rparr>)"

subsection \<open>Masking\<close>

definition MASK_RUN :: string where
  "MASK_RUN = concat (replicate 4 (map char_of [226::nat, 128, 162]))"

definition mask_phone_e164 :: "string \<Rightarrow> string" where
  "mask_phone_e164 phone =
     (if phone = [] \<or> \<not> starts_with phone ''+'' then phone
      else let digits = drop 1 phone; code_len = (if take 1 digits \<in> {''1'', ''7''} then 1 else 2 :: nat)
           in if length digits < code_len + 2 then ''+'' @ MASK_RUN
              else ''+'' @ take code_len digits @ MASK_RUN @ drop (length digits - 2) digits)"

definition mask_email :: "string \<Rightarrow> string" where
  "mask_email e =
     (if e = [] \<or> CHR ''@'' \<notin> set e then e
      else let name = before CHR ''@'' e; domain = after CHR ''@'' e
           in if name = [] \<or> domain = [] then e else [hd name] @ MASK_RUN @ ''@'' @ domain)"

subsection \<open>Rate limits\<close>

definition SUBMIT_IP :: "limit_rule list" where
  "SUBMIT_IP = [\<lparr>lr_name = ''claim.submit.ip.10m'', lr_limit = 5, lr_window = minutes 10\<rparr>,
     \<lparr>lr_name = ''claim.submit.ip.24h'', lr_limit = 20, lr_window = hours 24\<rparr>]"

definition SUBMIT_EMAIL :: "limit_rule list" where
  "SUBMIT_EMAIL = [\<lparr>lr_name = ''claim.submit.email.24h'', lr_limit = 5, lr_window = hours 24\<rparr>]"

definition VERIFY_IP :: "limit_rule list" where
  "VERIFY_IP = [\<lparr>lr_name = ''claim.verify.ip.15m'', lr_limit = 30, lr_window = minutes 15\<rparr>]"

definition RESEND_IP :: "limit_rule list" where
  "RESEND_IP = [\<lparr>lr_name = ''claim.resend.ip.1h'', lr_limit = 10, lr_window = hours 1\<rparr>]"

definition RESEND_EMAIL :: "limit_rule list" where
  "RESEND_EMAIL = [\<lparr>lr_name = ''claim.resend.email.24h'', lr_limit = 10, lr_window = hours 24\<rparr>]"

definition check_submit :: "world \<Rightarrow> tenant \<Rightarrow> string option \<Rightarrow> string \<Rightarrow> instant \<Rightarrow> 'z core_db_scheme \<Rightarrow> audit_error + verdict \<times> 'z core_db_scheme" where
  "check_submit w tn ip mail_address = check (w_hmac w) (w_bucket w) tn [(''ip'', ip, SUBMIT_IP), (''email'', Some mail_address, SUBMIT_EMAIL)]"

definition check_verify :: "world \<Rightarrow> tenant \<Rightarrow> string option \<Rightarrow> instant \<Rightarrow> 'z core_db_scheme \<Rightarrow> audit_error + verdict \<times> 'z core_db_scheme" where
  "check_verify w tn ip = check (w_hmac w) (w_bucket w) tn [(''ip'', ip, VERIFY_IP)]"

definition check_resend :: "world \<Rightarrow> tenant \<Rightarrow> string option \<Rightarrow> string \<Rightarrow> instant \<Rightarrow> 'z core_db_scheme \<Rightarrow> audit_error + verdict \<times> 'z core_db_scheme" where
  "check_resend w tn ip mail_address = check (w_hmac w) (w_bucket w) tn [(''ip'', ip, RESEND_IP), (''email'', Some mail_address, RESEND_EMAIL)]"

end
