(* ===== verification/Claim_Review.thy ===== *)
theory Claim_Review
  imports Claim_Store
begin

section \<open>Claim review\<close>

text \<open>
  \<^verbatim>\<open>directory/claim_review.py\<close>: the primitives the claim commands share (\<open>lock_guard\<close>, \<open>expire_pending_code\<close>, \<open>open_item\<close>,
  \<open>dispute\<close>), the one writer of a listing's owner (\<open>assign_owner\<close>, reached from \<open>approve_row\<close>, the source's
  \<^verbatim>\<open>_approve_claim\<close>), the notices, and the operator commands \<open>approve_claim\<close>, \<open>reject_claim\<close>, \<open>unlock_verification\<close> and
  \<open>unblock_claims\<close>. A claim, its listing and its claimant are read together (\<open>load_claim\<close>); a missing row is \<open>DoesNotExist\<close>,
  which the foreign keys rule out. \<^verbatim>\<open>save(update_fields=...)\<close> writes the named columns only, so \<^verbatim>\<open>updated_at\<close> keeps its value.
\<close>

subsection \<open>Constants\<close>

definition REJECTION_BLOCK_THRESHOLD :: nat where
  "REJECTION_BLOCK_THRESHOLD = 3"

definition ANTI_HIJACK_NOTICE_TTL :: duration where
  "ANTI_HIJACK_NOTICE_TTL = days 7"

definition REJECTION_NOTICE_TTL :: duration where
  "REJECTION_NOTICE_TTL = days 7"

definition LOSER_REASON :: string where
  "LOSER_REASON = ''Another claim for this listing was approved.''"

definition OPERATOR_NOTICE_KIND :: string where
  "OPERATOR_NOTICE_KIND = ''claim.review_notice''"

definition OPERATOR_NOTICE_TTL :: duration where
  "OPERATOR_NOTICE_TTL = hours 48"

definition OPERATOR_NOTICE_THROTTLE :: duration where
  "OPERATOR_NOTICE_THROTTLE = minutes 15"

definition ALREADY_CLEARED :: string where
  "ALREADY_CLEARED = ''already_cleared''"

definition DECIDE_ROLE :: int where
  "DECIDE_ROLE = ROLE_EDITOR"

definition QUEUE_ROLE :: int where
  "QUEUE_ROLE = ROLE_MODERATOR"

definition OPEN_CLAIM_STATUSES :: "claim_status list" where
  "OPEN_CLAIM_STATUSES = [C_PENDING, C_DISPUTED]"

subsection \<open>Writing rows\<close>

definition save_claim :: "claim \<Rightarrow> (claim \<Rightarrow> claim) \<Rightarrow> 'z claim_db_scheme \<Rightarrow> 'z claim_db_scheme" where
  "save_claim c f db = db\<lparr>claims := update_where (\<lambda>r. cl_pk r = cl_pk c) f (claims db)\<rparr>"

definition save_guard :: "guard \<Rightarrow> (guard \<Rightarrow> guard) \<Rightarrow> 'z claim_db_scheme \<Rightarrow> 'z claim_db_scheme" where
  "save_guard g f db = db\<lparr>guards := update_where (\<lambda>r. gd_pk r = gd_pk g) f (guards db)\<rparr>"

definition save_item :: "moderation_item \<Rightarrow> (moderation_item \<Rightarrow> moderation_item) \<Rightarrow> 'z claim_db_scheme \<Rightarrow> 'z claim_db_scheme" where
  "save_item it f db = db\<lparr>items := update_where (\<lambda>r. it_pk r = it_pk it) f (items db)\<rparr>"

definition claim_emit :: "string \<Rightarrow> string \<Rightarrow> tenant \<Rightarrow> dict \<Rightarrow> dict \<Rightarrow> 'z claim_db_scheme \<Rightarrow> claim_error + outbox_event \<times> 'z claim_db_scheme" where
  "claim_emit event_type subject tn actor data db = lift_claim (emit event_type subject (tn_pk tn) data actor [] [] db)"

definition claim_mail :: "tenant \<Rightarrow> string \<Rightarrow> string \<Rightarrow> string \<Rightarrow> string \<Rightarrow> instant \<Rightarrow> 'z claim_db_scheme \<Rightarrow> claim_error + message \<times> 'z claim_db_scheme" where
  "claim_mail tn kind to subject body expires db = lift_claim (enqueue (tn_pk tn) kind to subject body expires db)"

text \<open>\<^verbatim>\<open>Claim.objects.select_for_update().get(pk=...)\<close> with the rows it points at.\<close>

definition load_claim :: "tenant \<Rightarrow> nat \<Rightarrow> 'z claim_db_scheme \<Rightarrow> claim_error + claim \<times> listing \<times> user" where
  "load_claim tn pk db =
     (case find (\<lambda>c. cl_pk c = pk \<and> cl_tenant c = tn_pk tn) (claims db) of
        None \<Rightarrow> Inl DoesNotExist
      | Some c \<Rightarrow> (case (find_by ls_pk (cl_listing c) (listings db), find_by usr_pk (cl_claimant c) (users db)) of
          (Some l, Some u) \<Rightarrow> Inr (c, l, u)
        | _ \<Rightarrow> Inl DoesNotExist))"

definition expire_pending_code :: "claim \<Rightarrow> instant \<Rightarrow> 'z claim_db_scheme \<Rightarrow> 'z claim_db_scheme" where
  "expire_pending_code c now db =
     (case code_message c of
        None \<Rightarrow> db
      | Some pk \<Rightarrow> db\<lparr>mail := update_where (\<lambda>m. ms_pk m = pk \<and> ms_status m = MsPending) (\<lambda>m. m\<lparr>ms_expires_at := now\<rparr>) (mail db)\<rparr>)"

definition fresh_guard :: "nat \<Rightarrow> nat \<Rightarrow> nat \<Rightarrow> nat \<Rightarrow> guard" where
  "fresh_guard pk tenant lpk upk =
     \<lparr>gd_pk = pk, gd_tenant = tenant, gd_listing = lpk, gd_claimant = upk, wrong_entries = 0, cooldowns = 0, cooldown_until = None,
      verification_locked_at = None, rejections = 0, claim_blocked_at = None, last_code_sent_at = None,
      codes_sent_window_start = None, codes_sent_in_window = 0\<rparr>"

definition find_guard :: "nat \<Rightarrow> nat \<Rightarrow> nat \<Rightarrow> 'z claim_db_scheme \<Rightarrow> guard option" where
  "find_guard tenant lpk upk db = find (\<lambda>g. gd_tenant g = tenant \<and> gd_listing g = lpk \<and> gd_claimant g = upk) (guards db)"

definition lock_guard :: "tenant \<Rightarrow> nat \<Rightarrow> nat \<Rightarrow> 'z claim_db_scheme \<Rightarrow> guard \<times> 'z claim_db_scheme" where
  "lock_guard tn lpk upk db =
     (case find_guard (tn_pk tn) lpk upk db of
        Some g \<Rightarrow> (g, db)
      | None \<Rightarrow> let g = fresh_guard (Suc (seq db)) (tn_pk tn) lpk upk in (g, db\<lparr>guards := guards db @ [g], seq := Suc (seq db)\<rparr>))"

definition claim_ref :: "claim \<Rightarrow> listing \<Rightarrow> json" where
  "claim_ref c l = JObj [(''id'', JStr (cl_public_id c)), (''listing_id'', JStr (ls_public_id l)),
     (''status'', JStr (claim_status_value (cl_status c))), (''method'', JStr (claim_method_value (cl_method c)))]"

definition link :: "tenant \<Rightarrow> string \<Rightarrow> string option" where
  "link tn path = (if has_absolute_base tn then Some (absolute_url tn path) else None)"

subsection \<open>Moderation items\<close>

definition existing_item :: "tenant \<Rightarrow> item_type \<Rightarrow> listing \<Rightarrow> user \<Rightarrow> claim option \<Rightarrow> 'z claim_db_scheme \<Rightarrow> moderation_item option" where
  "existing_item tn typ l u c db =
     find (\<lambda>it. it_tenant it = tn_pk tn \<and> it_type it = typ \<and> it_open it
       \<and> (if typ = I_DISPUTE then it_claim it = map_option cl_pk c else it_listing it = ls_pk l \<and> it_claimant it = usr_pk u)) (items db)"

definition new_item :: "tenant \<Rightarrow> item_type \<Rightarrow> listing \<Rightarrow> user \<Rightarrow> claim option \<Rightarrow> string list \<Rightarrow> 'z claim_db_scheme \<Rightarrow> moderation_item" where
  "new_item tn typ l u c rules db =
     \<lparr>it_pk = Suc (seq db), it_tenant = tn_pk tn, it_public_id = prefixed ''mod_'' (draw_ulid db), it_type = typ, it_open = True,
      it_listing = ls_pk l, it_claimant = usr_pk u, it_claim = map_option cl_pk c, rules_triggered = rules, priority = ''normal'',
      it_created_at = wall db, it_decided_at = None, it_decided_by = None, decision = [], rationale = []\<rparr>"

definition open_item :: "tenant \<Rightarrow> item_type \<Rightarrow> listing \<Rightarrow> user \<Rightarrow> claim option \<Rightarrow> string list \<Rightarrow> dict \<Rightarrow> 'z claim_db_scheme
    \<Rightarrow> claim_error + moderation_item \<times> 'z claim_db_scheme" where
  "open_item tn typ l u c rules actor db =
     (case existing_item tn typ l u c db of
        Some it \<Rightarrow> Inr (it, db)
      | None \<Rightarrow>
          let it = new_item tn typ l u c rules db
          in then_do (claim_emit MODERATION_QUEUED (it_public_id it) tn actor
                [(''item_type'', JStr (item_type_value typ)), (''item_id'', JStr (it_public_id it)),
                 (''claim_id'', jopt (\<lambda>x. JStr (cl_public_id x)) c), (''listing_id'', JStr (ls_public_id l)),
                 (''rules_triggered'', JList (map JStr rules)), (''priority'', JStr (priority it))])
              (\<lambda>ev d. Inr (it, d)) (db\<lparr>items := items db @ [it], seq := Suc (seq db), draws := Suc (draws db)\<rparr>))"

definition decide_item :: "tenant \<Rightarrow> moderation_item \<Rightarrow> string \<Rightarrow> operator \<Rightarrow> string \<Rightarrow> dict \<Rightarrow> instant \<Rightarrow> 'z claim_db_scheme
    \<Rightarrow> claim_error + outbox_event \<times> 'z claim_db_scheme" where
  "decide_item tn it dec oper why actor now db =
     claim_emit MODERATION_DECIDED (it_public_id it) tn actor
       [(''item_type'', JStr (item_type_value (it_type it))), (''item_id'', JStr (it_public_id it)),
        (''claim_id'', (case it_claim it of None \<Rightarrow> JNull | Some pk \<Rightarrow> jopt (\<lambda>x. JStr (cl_public_id x)) (find_by cl_pk pk (claims db)))),
        (''decision'', JStr dec), (''decided_by'', JStr ''human''), (''rationale'', JStr why)]
       (save_item it (\<lambda>r. r\<lparr>it_open := False, decision := dec, it_decided_by := Some (op_pk oper), it_decided_at := Some now, rationale := why\<rparr>) db)"

definition decide_claim_item :: "tenant \<Rightarrow> claim \<Rightarrow> string \<Rightarrow> operator \<Rightarrow> string \<Rightarrow> dict \<Rightarrow> instant \<Rightarrow> 'z claim_db_scheme
    \<Rightarrow> claim_error + unit \<times> 'z claim_db_scheme" where
  "decide_claim_item tn c dec oper why actor now db =
     (case find (\<lambda>it. it_tenant it = tn_pk tn \<and> it_claim it = Some (cl_pk c) \<and> it_type it = I_DISPUTE \<and> it_open it) (items db) of
        None \<Rightarrow> Inr ((), db)
      | Some it \<Rightarrow> then_do (decide_item tn it dec oper why actor now) (\<lambda>ev d. Inr ((), d)) db)"

subsection \<open>The queue and the operator notice\<close>

definition review_claims :: "tenant \<Rightarrow> 'z claim_db_scheme \<Rightarrow> claim list" where
  "review_claims tn db =
     sort_key cl_created_at (filter (\<lambda>c. cl_tenant c = tn_pk tn \<and> cl_status c = C_PENDING
        \<and> (cl_method c = CM_MANUAL \<or> verified_at c \<noteq> None)) (claims db))"

definition open_items :: "tenant \<Rightarrow> item_type list \<Rightarrow> 'z claim_db_scheme \<Rightarrow> moderation_item list" where
  "open_items tn types db = sort_key it_created_at (filter (\<lambda>it. it_tenant it = tn_pk tn \<and> it_open it \<and> it_type it \<in> set types) (items db))"

definition dispute_items :: "tenant \<Rightarrow> 'z claim_db_scheme \<Rightarrow> moderation_item list" where
  "dispute_items tn = open_items tn [I_DISPUTE]"

definition lock_items :: "tenant \<Rightarrow> 'z claim_db_scheme \<Rightarrow> moderation_item list" where
  "lock_items tn = open_items tn [I_LOCK, I_BLOCK]"

definition open_count :: "tenant \<Rightarrow> 'z claim_db_scheme \<Rightarrow> nat" where
  "open_count tn db = length (review_claims tn db) + length (dispute_items tn db) + length (lock_items tn db)"

definition waiting_claims_count :: "tenant \<Rightarrow> 'z claim_db_scheme \<Rightarrow> nat" where
  "waiting_claims_count tn db = length (review_claims tn db) + length (dispute_items tn db)"

definition add_address :: "string \<Rightarrow> string list \<Rightarrow> string list" where
  "add_address a xs = (if a \<noteq> [] \<and> a \<notin> set xs then xs @ [a] else xs)"

definition operator_recipients :: "tenant \<Rightarrow> 'z claim_db_scheme \<Rightarrow> string list" where
  "operator_recipients tn db =
     fold (\<lambda>m xs. if mb_tenant m = tn_pk tn \<and> mb_status m = MbActive \<and> DECIDE_ROLE \<le> mb_role m
        then (case find_by op_pk (mb_operator m) (operators db) of
                None \<Rightarrow> xs
              | Some oper \<Rightarrow> if op_is_active oper then add_address (lower (strip (op_email oper))) xs else xs)
        else xs) (memberships db) []"

fun mail_each :: "tenant \<Rightarrow> string \<Rightarrow> string \<Rightarrow> string \<Rightarrow> instant \<Rightarrow> string list \<Rightarrow> 'z claim_db_scheme \<Rightarrow> claim_error + unit \<times> 'z claim_db_scheme" where
  "mail_each tn kind subject body expires [] db = Inr ((), db)"
| "mail_each tn kind subject body expires (a # as) db =
     then_do (claim_mail tn kind a subject body expires) (\<lambda>m. mail_each tn kind subject body expires as) db"

definition operator_notice_text :: "tenant \<Rightarrow> nat \<Rightarrow> string" where
  "operator_notice_text tn waiting =
     nat_text waiting @ '' '' @ (if waiting = 1 then ''claim is'' else ''claims are'') @ '' waiting for review on '' @ tn_name tn @ ''.''
     @ (case link tn ''/admin/claims/'' of None \<Rightarrow> [] | Some url \<Rightarrow> nl @ nl @ ''Review them at: '' @ url)
     @ nl @ nl @ ''You get at most one of these every 15 minutes, so the number may be higher by the time you open the queue.''"

definition send_operator_notice :: "tenant \<Rightarrow> string list \<Rightarrow> instant \<Rightarrow> 'z claim_db_scheme \<Rightarrow> claim_error + nat \<times> 'z claim_db_scheme" where
  "send_operator_notice tn addresses now db =
     then_do (mail_each tn OPERATOR_NOTICE_KIND (''Claims waiting for review on '' @ tn_name tn)
        (operator_notice_text tn (waiting_claims_count tn db)) (now + OPERATOR_NOTICE_TTL) addresses) (\<lambda>u d. Inr (length addresses, d)) db"

definition operator_notices :: "tenant \<Rightarrow> string \<Rightarrow> 'z claim_db_scheme \<Rightarrow> message list" where
  "operator_notices tn address db =
     filter (\<lambda>m. ms_tenant m = tn_pk tn \<and> ms_kind m = OPERATOR_NOTICE_KIND \<and> to_address m = Some address) (mail db)"

definition notify_operators :: "tenant \<Rightarrow> instant option \<Rightarrow> 'z claim_db_scheme \<Rightarrow> claim_error + nat \<times> 'z claim_db_scheme" where
  "notify_operators tn at db =
     (let now = (case at of None \<Rightarrow> wall db | Some t \<Rightarrow> t);
          due = filter (\<lambda>a. \<not> list_ex (\<lambda>m. now - OPERATOR_NOTICE_THROTTLE < ms_created_at m) (operator_notices tn a db)) (operator_recipients tn db)
      in if due = [] then Inr (0, db) else send_operator_notice tn due now db)"

definition entered_review_since :: "tenant \<Rightarrow> instant \<Rightarrow> 'z claim_db_scheme \<Rightarrow> bool" where
  "entered_review_since tn since db \<longleftrightarrow>
     list_ex (\<lambda>c. since < cl_updated_at c) (review_claims tn db) \<or> list_ex (\<lambda>it. since < it_created_at it) (dispute_items tn db)"

definition last_notice :: "tenant \<Rightarrow> string \<Rightarrow> 'z claim_db_scheme \<Rightarrow> instant option" where
  "last_notice tn address db =
     (case operator_notices tn address db of [] \<Rightarrow> None | m # ms \<Rightarrow> Some (fold max (map ms_created_at ms) (ms_created_at m)))"

definition flush_operator_notices :: "tenant \<Rightarrow> instant \<Rightarrow> 'z claim_db_scheme \<Rightarrow> claim_error + nat \<times> 'z claim_db_scheme" where
  "flush_operator_notices tn now db =
     (let fl = now - OPERATOR_NOTICE_TTL;
          due = filter (\<lambda>a. case last_notice tn a db of
                   None \<Rightarrow> entered_review_since tn fl db
                 | Some t \<Rightarrow> \<not> now - OPERATOR_NOTICE_THROTTLE < t \<and> entered_review_since tn (max t fl) db) (operator_recipients tn db)
      in if due = [] then Inr (0, db) else send_operator_notice tn due now db)"

subsection \<open>Disputes\<close>

definition dispute_fields :: "claim \<Rightarrow> claim" where
  "dispute_fields r = r\<lparr>cl_status := C_DISPUTED, review_reason := ''disputed''\<rparr>"

definition dispute :: "tenant \<Rightarrow> claim \<Rightarrow> listing \<Rightarrow> user \<Rightarrow> dict \<Rightarrow> 'z claim_db_scheme \<Rightarrow> claim_error + (outbox_event \<times> claim) \<times> 'z claim_db_scheme" where
  "dispute tn c l u actor db =
     then_do (claim_emit CLAIM_DISPUTED (cl_public_id c) tn actor
        [(''claim'', JObj [(''id'', JStr (cl_public_id c)), (''listing_id'', JStr (ls_public_id l))])]) (\<lambda>ev.
     then_do (open_item tn I_DISPUTE l u (Some c) [''duplicate_claim''] actor) (\<lambda>it.
     then_do (notify_operators tn None) (\<lambda>n d. Inr ((ev, dispute_fields c), d))))
       (save_claim c dispute_fields db)"

subsection \<open>Approval\<close>

definition assign_owner :: "listing \<Rightarrow> user \<Rightarrow> 'z claim_db_scheme \<Rightarrow> 'z claim_db_scheme" where
  "assign_owner l u db =
     db\<lparr>listings := update_where (\<lambda>r. ls_pk r = ls_pk l) (\<lambda>r. r\<lparr>ls_owner := Some (usr_pk u), ls_status := L_CLAIMED\<rparr>) (listings db)\<rparr>"

definition contact_addresses :: "listing \<Rightarrow> user \<Rightarrow> user option \<Rightarrow> string list" where
  "contact_addresses l u prev =
     fold (\<lambda>raw xs. let a = lower (strip raw) in if a \<noteq> [] \<and> a \<noteq> usr_email u \<and> a \<notin> set xs then xs @ [a] else xs)
       [email l, (case prev of None \<Rightarrow> [] | Some p \<Rightarrow> usr_email p)] []"

definition hijack_text :: "tenant \<Rightarrow> listing \<Rightarrow> string" where
  "hijack_text tn l =
     ''The listing '' @ ls_name l @ '' on '' @ tn_name tn @ '' was just claimed by someone else. You are receiving this because this address is already on the listing.''
     @ nl @ nl @ ''If you or someone you authorised did this, no action is needed.''
     @ (case link tn (''/claim/'' @ ls_public_id l @ ''/'') of
          Some url \<Rightarrow> nl @ nl @ ''If this was not you, the genuine owner can dispute the claim by submitting one at: '' @ url
        | None \<Rightarrow> nl @ nl @ ''If this was not you, contact the directory to dispute the claim.'')"

definition notify_existing_contacts :: "tenant \<Rightarrow> listing \<Rightarrow> user \<Rightarrow> user option \<Rightarrow> instant \<Rightarrow> 'z claim_db_scheme
    \<Rightarrow> claim_error + json list \<times> 'z claim_db_scheme" where
  "notify_existing_contacts tn l u prev now db =
     (let addresses = contact_addresses l u prev in
      then_do (mail_each tn ''claim.existing_contact_notice'' (''Your listing '' @ ls_name l @ '' was just claimed'') (hijack_text tn l)
          (now + ANTI_HIJACK_NOTICE_TTL) addresses)
        (\<lambda>v d. Inr (map (\<lambda>a. JObj [(''channel'', JStr ''email''), (''destination'', JStr (mask_email a))]) addresses, d)) db)"

definition rejection_next :: "tenant \<Rightarrow> listing \<Rightarrow> bool \<Rightarrow> bool \<Rightarrow> string" where
  "rejection_next tn l blocked lost =
     (case link tn (''/claim/'' @ ls_public_id l @ ''/'') of
        Some url \<Rightarrow>
          if lost then nl @ nl @ ''If you believe the listing is yours, you can dispute the approved claim by submitting a new one at: '' @ url
          else if blocked then nl @ nl @ ''After repeated rejections this address can no longer claim this listing. Contact the directory if you think this is a mistake.''
          else nl @ nl @ ''You may submit a new claim with more information at: '' @ url
      | None \<Rightarrow>
          if lost then nl @ nl @ ''If you believe the listing is yours, contact the directory.''
          else if blocked then nl @ nl @ ''After repeated rejections this address can no longer claim this listing. Contact the directory if you think this is a mistake.''
          else nl @ nl @ ''You may submit a new claim with more information.'')"

definition mail_rejection :: "tenant \<Rightarrow> listing \<Rightarrow> user \<Rightarrow> string \<Rightarrow> bool \<Rightarrow> bool \<Rightarrow> instant \<Rightarrow> 'z claim_db_scheme
    \<Rightarrow> claim_error + message \<times> 'z claim_db_scheme" where
  "mail_rejection tn l u reason blocked lost now =
     claim_mail tn ''claim.rejected'' (usr_email u) (''Update on your claim for '' @ ls_name l)
       (''Your claim for '' @ ls_name l @ '' on '' @ tn_name tn @ '' was not approved.'' @ nl @ nl @ ''The reviewer wrote:'' @ nl @ reason
        @ rejection_next tn l blocked lost) (now + REJECTION_NOTICE_TTL)"

definition loser_fields :: "instant \<Rightarrow> claim \<Rightarrow> claim" where
  "loser_fields now r = r\<lparr>cl_status := C_REJECTED, cl_decided_at := Some now, rejection_reason := LOSER_REASON, code_hash := []\<rparr>"

definition reject_loser :: "tenant \<Rightarrow> listing \<Rightarrow> instant \<Rightarrow> claim \<Rightarrow> 'z claim_db_scheme \<Rightarrow> claim_error + unit \<times> 'z claim_db_scheme" where
  "reject_loser tn l now c db =
     (case find_by usr_pk (cl_claimant c) (users db) of
        None \<Rightarrow> Inl DoesNotExist
      | Some u \<Rightarrow>
          then_do (claim_emit CLAIM_REJECTED (cl_public_id c) tn [(''type'', JStr ''system''), (''id'', JStr ''claim.approve'')]
             [(''claim'', claim_ref (loser_fields now c) l), (''reason'', JStr LOSER_REASON), (''decided_by'', JStr ''system'')]) (\<lambda>ev.
          then_do (mail_rejection tn l u LOSER_REASON False True now) (\<lambda>m d. Inr ((), d)))
            (save_claim c (loser_fields now) (expire_pending_code c now db)))"

fun reject_each :: "tenant \<Rightarrow> listing \<Rightarrow> instant \<Rightarrow> claim list \<Rightarrow> 'z claim_db_scheme \<Rightarrow> claim_error + unit \<times> 'z claim_db_scheme" where
  "reject_each tn l now [] db = Inr ((), db)"
| "reject_each tn l now (c # cs) db = then_do (reject_loser tn l now c) (\<lambda>u. reject_each tn l now cs) db"

definition reject_losers :: "world \<Rightarrow> tenant \<Rightarrow> claim \<Rightarrow> listing \<Rightarrow> instant \<Rightarrow> 'z claim_db_scheme \<Rightarrow> claim_error + unit \<times> 'z claim_db_scheme" where
  "reject_losers w tn winner l now db =
     reject_each tn l now (filter (\<lambda>c. cl_tenant c = tn_pk tn \<and> cl_listing c = ls_pk l \<and> cl_status c = C_PENDING \<and> cl_pk c \<noteq> cl_pk winner
        \<and> \<not> w_locked w (cl_pk c)) (claims db)) db"

record manual_facts =
  mf_method_used :: string
  mf_notes :: string
  mf_evidence_ref :: string
  mf_operator :: operator

definition supersede :: "tenant \<Rightarrow> listing \<Rightarrow> claim \<Rightarrow> 'z claim_db_scheme \<Rightarrow> 'z claim_db_scheme" where
  "supersede tn l c db = db\<lparr>claims := update_where
     (\<lambda>r. cl_tenant r = tn_pk tn \<and> cl_listing r = ls_pk l \<and> cl_status r = C_APPROVED \<and> cl_pk r \<noteq> cl_pk c) (\<lambda>r. r\<lparr>cl_status := C_SUPERSEDED\<rparr>) (claims db)\<rparr>"

definition approve_fields :: "instant \<Rightarrow> manual_facts option \<Rightarrow> claim \<Rightarrow> claim" where
  "approve_fields now manual r =
     (let r1 = r\<lparr>cl_status := C_APPROVED, cl_decided_at := Some now, code_hash := []\<rparr> in
      case manual of
        None \<Rightarrow> r1
      | Some f \<Rightarrow> r1\<lparr>cl_method := CM_MANUAL, manual_method_used := mf_method_used f, verification_notes := mf_notes f,
          evidence_ref := mf_evidence_ref f, verified_by := Some (op_pk (mf_operator f)), verified_at := Some now,
          cl_decided_by := Some (op_pk (mf_operator f))\<rparr>)"

definition approval_data :: "claim \<Rightarrow> listing \<Rightarrow> bool \<Rightarrow> bool \<Rightarrow> instant \<Rightarrow> manual_facts option \<Rightarrow> dict" where
  "approval_data c l transfer notified now manual =
     [(''claim'', JObj [(''id'', JStr (cl_public_id c)), (''listing_id'', JStr (ls_public_id l)), (''method'', JStr (claim_method_value (cl_method c)))]),
      (''transfer'', JBool transfer), (''existing_contacts_notified'', JBool notified),
      (case manual of
         Some f \<Rightarrow> (''manual_verification'', JObj [(''method_used'', JStr (mf_method_used f)), (''verified_by'', JStr (op_public_id (mf_operator f))),
            (''verified_at'', JStr (isoformat now)), (''notes'', JStr (mf_notes f)), (''evidence_ref'', str_or_null (mf_evidence_ref f))])
       | None \<Rightarrow> (''verification'', JObj [(''method'', JStr (claim_method_value (cl_method c))), (''verified_at'', jtime (verified_at c))]))]"

definition owner_events :: "tenant \<Rightarrow> claim \<Rightarrow> listing \<Rightarrow> user \<Rightarrow> user option \<Rightarrow> json list \<Rightarrow> dict \<Rightarrow> 'z claim_db_scheme
    \<Rightarrow> claim_error + unit \<times> 'z claim_db_scheme" where
  "owner_events tn c l u prev channels actor =
     then_do (claim_emit LISTING_OWNER_ASSIGNED (ls_public_id l) tn actor
        [(''listing_id'', JStr (ls_public_id l)), (''owner'', JObj [(''id'', JStr (usr_public_id u))]), (''claim_id'', JStr (cl_public_id c)),
         (''previous_owner_id'', jopt (\<lambda>p. JStr (usr_public_id p)) prev)]) (\<lambda>e1.
     then_do (claim_emit LISTING_UPDATED (ls_public_id l) tn actor
        [(''changes'', JList [JObj [(''op'', JStr ''replace''), (''path'', JStr ''/status''), (''value'', JStr ''claimed'')],
            JObj [(''op'', JStr (if prev = None then ''add'' else ''replace'')), (''path'', JStr ''/owner_id''), (''value'', JStr (usr_public_id u))]]),
         (''type'', JStr (ls_type_key l))]) (\<lambda>e2 db.
     if channels = [] then Inr ((), db)
     else then_do (claim_emit CLAIM_NOTIFIED_EXISTING_CONTACTS (cl_public_id c) tn actor
        [(''claim_id'', JStr (cl_public_id c)), (''listing_id'', JStr (ls_public_id l)), (''channels'', JList channels)]) (\<lambda>e3 d. Inr ((), d)) db))"

definition approve_row :: "world \<Rightarrow> tenant \<Rightarrow> claim \<Rightarrow> listing \<Rightarrow> user \<Rightarrow> dict \<Rightarrow> instant \<Rightarrow> manual_facts option \<Rightarrow> 'z claim_db_scheme
    \<Rightarrow> claim_error + (string \<times> claim) \<times> 'z claim_db_scheme" where
  "approve_row w tn c l u actor now manual db =
     (let prev = (case ls_owner l of None \<Rightarrow> None | Some pk \<Rightarrow> find_by usr_pk pk (users db));
          c' = approve_fields now manual c;
          db1 = assign_owner l u (save_claim c (approve_fields now manual) (expire_pending_code c now (supersede tn l c db)))
      in then_do (notify_existing_contacts tn l u prev now) (\<lambda>channels.
         then_do (claim_emit CLAIM_APPROVED (cl_public_id c) tn actor (approval_data c' l (prev \<noteq> None) (channels \<noteq> []) now manual)) (\<lambda>approved.
         then_do (owner_events tn c' l u prev channels actor) (\<lambda>v.
         then_do (reject_losers w tn c l now) (\<lambda>v.
         then_do (case manual of None \<Rightarrow> (\<lambda>d. Inr ((), d)) | Some f \<Rightarrow> decide_claim_item tn c' ''approved'' (mf_operator f) (mf_notes f) actor now)
           (\<lambda>v d. Inr ((event_id approved, c'), d)))))) db1)"

text \<open>The result is the concluding event id, empty for none, and the claim as it now is.\<close>

definition resolve_verified_claim :: "world \<Rightarrow> tenant \<Rightarrow> claim \<Rightarrow> user \<Rightarrow> instant \<Rightarrow> 'z claim_db_scheme
    \<Rightarrow> claim_error + (string \<times> claim) \<times> 'z claim_db_scheme" where
  "resolve_verified_claim w tn c u now db =
     (case find (\<lambda>l. ls_pk l = cl_listing c \<and> ls_tenant l = tn_pk tn) (listings db) of
        None \<Rightarrow> Inl DoesNotExist
      | Some l \<Rightarrow>
          let actor = [(''type'', JStr ''visitor''), (''id'', JStr (usr_public_id u))] in
          (case ls_status l of
             L_SUSPENDED \<Rightarrow> Inr (([], c), db)
           | L_CLAIMED \<Rightarrow> then_do (dispute tn c l u actor) (\<lambda>(ev, c') d. Inr ((event_id ev, c'), d)) db
           | L_UNCLAIMED \<Rightarrow> approve_row w tn c l u actor now None db))"

subsection \<open>Operator commands\<close>

definition require_role :: "membership option \<Rightarrow> int \<Rightarrow> claim_error + unit" where
  "require_role m role = (case m of None \<Rightarrow> Inl (ReviewRefused ''forbidden'')
     | Some mb \<Rightarrow> if mb_role mb < role then Inl (ReviewRefused ''forbidden'') else Inr ())"

text \<open>The shape the four commands share: the received row, the transaction, the conclusion.\<close>

definition review_command :: "tenant \<Rightarrow> string \<Rightarrow> operator \<Rightarrow> dict
    \<Rightarrow> (membership option \<Rightarrow> dict \<Rightarrow> 'z claim_db_scheme \<Rightarrow> claim_error + ('r \<times> string) \<times> 'z claim_db_scheme)
    \<Rightarrow> 'z claim_db_scheme \<Rightarrow> (claim_error + 'r) \<times> 'z claim_db_scheme" where
  "review_command tn command oper payload apply_fn db =
     (case require_autocommit db of
        Inl e \<Rightarrow> (Inl (ClaimAudit e), db)
      | Inr u \<Rightarrow>
          let m = active_membership (tn_pk tn) oper db; actor = staff_actor oper m;
              (row, db1) = log_received command (Some (tn_pk tn)) None actor [] [] (Some (JObj payload)) db
          in (case atomic (apply_fn m actor) db1 of
                Inr ((x, eid), db2) \<Rightarrow> (Inr x, log_conclude row ''applied'' eid None None db2)
              | Inl (ReviewRefused reason) \<Rightarrow>
                  (Inl (ReviewRefused reason),
                   log_conclude row (if reason = ''forbidden'' then ''blocked'' else ''rejected'') [] (Some (JObj [(''reason'', JStr reason)])) None db1)
              | Inl e \<Rightarrow> (Inl e, db1)))"

definition apply_approve :: "world \<Rightarrow> tenant \<Rightarrow> nat \<Rightarrow> operator \<Rightarrow> string \<Rightarrow> string \<Rightarrow> string \<Rightarrow> bool \<Rightarrow> membership option \<Rightarrow> dict \<Rightarrow> 'z claim_db_scheme
    \<Rightarrow> claim_error + ((claim \<times> string) \<times> string) \<times> 'z claim_db_scheme" where
  "apply_approve w tn pk oper method_used notes ev_ref transfer m actor db =
     bind_result (require_role m DECIDE_ROLE) (\<lambda>_.
       let why = strip notes in
       if why = [] then Inl (ReviewRefused ''notes_required'')
       else if method_used \<notin> set MANUAL_METHODS then Inl (ReviewRefused ''method_used_invalid'')
       else bind_result (load_claim tn pk db) (\<lambda>(c, l, u).
         if cl_status c \<notin> set OPEN_CLAIM_STATUSES then Inl (ReviewRefused ''status'')
         else if ls_status l = L_SUSPENDED then Inl (ReviewRefused ''listing_suspended'')
         else if cl_status c = C_PENDING \<and> ls_status l = L_CLAIMED then
           then_do (dispute tn c l u actor) (\<lambda>(ev, c') d. Inr (((c', ''disputed''), event_id ev), d)) db
         else if ls_status l = L_CLAIMED \<and> \<not> transfer then Inl (ReviewRefused ''transfer_unconfirmed'')
         else then_do (approve_row w tn c l u actor (wall db)
             (Some \<lparr>mf_method_used = method_used, mf_notes = why, mf_evidence_ref = strip ev_ref, mf_operator = oper\<rparr>))
             (\<lambda>(eid, c') d. Inr (((c', ''approved''), eid), d)) db))"

definition approve_claim :: "world \<Rightarrow> tenant \<Rightarrow> claim \<Rightarrow> operator \<Rightarrow> string \<Rightarrow> string \<Rightarrow> string \<Rightarrow> bool \<Rightarrow> 'z claim_db_scheme
    \<Rightarrow> (claim_error + claim \<times> string) \<times> 'z claim_db_scheme" where
  "approve_claim w tn c oper method_used notes ev_ref transfer =
     review_command tn ''claim.approve'' oper [(''claim_id'', JStr (cl_public_id c)), (''manual_method_used'', JStr method_used)]
       (apply_approve w tn (cl_pk c) oper method_used notes ev_ref transfer)"

definition reject_fields :: "operator \<Rightarrow> string \<Rightarrow> instant \<Rightarrow> claim \<Rightarrow> claim" where
  "reject_fields oper reason now r = r\<lparr>cl_status := C_REJECTED, cl_decided_at := Some now, cl_decided_by := Some (op_pk oper),
     rejection_reason := reason, code_hash := []\<rparr>"

definition count_rejection :: "instant \<Rightarrow> guard \<Rightarrow> guard" where
  "count_rejection now g =
     (let g1 = g\<lparr>rejections := Suc (rejections g)\<rparr> in
      if REJECTION_BLOCK_THRESHOLD \<le> rejections g1 \<and> claim_blocked_at g1 = None then g1\<lparr>claim_blocked_at := Some now\<rparr> else g1)"

definition reject_notices :: "tenant \<Rightarrow> operator \<Rightarrow> string \<Rightarrow> bool \<Rightarrow> dict \<Rightarrow> instant \<Rightarrow> claim \<Rightarrow> listing \<Rightarrow> user \<Rightarrow> 'z claim_db_scheme
    \<Rightarrow> claim_error + (claim \<times> string) \<times> 'z claim_db_scheme" where
  "reject_notices tn oper why blocked actor now c' l u =
     then_do (claim_emit CLAIM_REJECTED (cl_public_id c') tn actor
        [(''claim'', claim_ref c' l), (''reason'', JStr why), (''decided_by'', JStr (op_public_id oper))]) (\<lambda>ev.
     then_do (decide_claim_item tn c' ''rejected'' oper why actor now) (\<lambda>v.
     then_do (if blocked then then_do (open_item tn I_BLOCK l u (Some c') [''repeated_rejection''] actor) (\<lambda>it d. Inr ((), d)) else (\<lambda>d. Inr ((), d))) (\<lambda>v.
     then_do (mail_rejection tn l u why blocked False now) (\<lambda>msg d. Inr ((c', event_id ev), d)))))"

definition reject_open :: "tenant \<Rightarrow> guard \<Rightarrow> operator \<Rightarrow> string \<Rightarrow> dict \<Rightarrow> claim \<times> listing \<times> user \<Rightarrow> 'z claim_db_scheme
    \<Rightarrow> claim_error + (claim \<times> string) \<times> 'z claim_db_scheme" where
  "reject_open tn g oper why actor row db =
     (case row of (c, l, u) \<Rightarrow>
       if cl_status c \<notin> set OPEN_CLAIM_STATUSES then Inl (ReviewRefused ''status'')
       else
         let now = wall db; c' = reject_fields oper why now c;
             blocked = (claim_blocked_at g = None \<and> claim_blocked_at (count_rejection now g) \<noteq> None)
         in reject_notices tn oper why blocked actor now c' l u
              (save_guard g (count_rejection now) (save_claim c (reject_fields oper why now) (expire_pending_code c now db))))"

definition apply_reject :: "tenant \<Rightarrow> claim \<Rightarrow> operator \<Rightarrow> string \<Rightarrow> membership option \<Rightarrow> dict \<Rightarrow> 'z claim_db_scheme
    \<Rightarrow> claim_error + (claim \<times> string) \<times> 'z claim_db_scheme" where
  "apply_reject tn arg oper reason m actor db0 =
     bind_result (require_role m DECIDE_ROLE) (\<lambda>_.
       if strip reason = [] then Inl (ReviewRefused ''reason_required'')
       else let (g, db) = lock_guard tn (cl_listing arg) (cl_claimant arg) db0 in
       bind_result (load_claim tn (cl_pk arg) db) (\<lambda>row. reject_open tn g oper (strip reason) actor row db))"

definition reject_claim :: "tenant \<Rightarrow> claim \<Rightarrow> operator \<Rightarrow> string \<Rightarrow> 'z claim_db_scheme \<Rightarrow> (claim_error + claim) \<times> 'z claim_db_scheme" where
  "reject_claim tn c oper reason =
     review_command tn ''claim.reject'' oper [(''claim_id'', JStr (cl_public_id c))] (apply_reject tn c oper reason)"

definition unlock_fields :: "guard \<Rightarrow> guard" where
  "unlock_fields g = g\<lparr>verification_locked_at := None, cooldowns := 0, wrong_entries := 0, cooldown_until := None\<rparr>"

text \<open>What the command clears on the guard, and the decision it records.\<close>

definition clear_guard :: "item_type \<Rightarrow> string \<Rightarrow> guard \<Rightarrow> (guard \<Rightarrow> guard) \<times> string" where
  "clear_guard typ dec g =
     (if typ = I_LOCK then (if verification_locked_at g = None then (\<lambda>r. r, ALREADY_CLEARED) else (unlock_fields, dec))
      else (if claim_blocked_at g = None then (\<lambda>r. r, ALREADY_CLEARED) else (\<lambda>r. r\<lparr>claim_blocked_at := None\<rparr>, dec)))"

definition apply_queue_command :: "tenant \<Rightarrow> moderation_item \<Rightarrow> operator \<Rightarrow> string \<Rightarrow> item_type \<Rightarrow> string \<Rightarrow> membership option \<Rightarrow> dict \<Rightarrow> 'z claim_db_scheme
    \<Rightarrow> claim_error + (moderation_item \<times> string) \<times> 'z claim_db_scheme" where
  "apply_queue_command tn arg oper why0 typ dec m actor db0 =
     bind_result (require_role m QUEUE_ROLE) (\<lambda>_.
       let why = strip why0 in
       if why = [] then Inl (ReviewRefused ''rationale_required'')
       else if it_type arg \<noteq> typ then Inl (ReviewRefused ''wrong_type'')
       else let (g, db) = lock_guard tn (it_listing arg) (it_claimant arg) db0 in
       (case find (\<lambda>it. it_pk it = it_pk arg \<and> it_tenant it = tn_pk tn) (items db) of
          None \<Rightarrow> Inl DoesNotExist
        | Some it \<Rightarrow>
            if \<not> it_open it then Inl (ReviewRefused ''item_not_open'')
            else let now = wall db; (f, dec') = clear_guard typ dec g
                 in then_do (decide_item tn it dec' oper why actor now)
                      (\<lambda>ev d. Inr ((it\<lparr>it_open := False, decision := dec', it_decided_by := Some (op_pk oper), it_decided_at := Some now,
                          rationale := why\<rparr>, event_id ev), d)) (save_guard g f db)))"

definition queue_command :: "tenant \<Rightarrow> moderation_item \<Rightarrow> operator \<Rightarrow> string \<Rightarrow> string \<Rightarrow> item_type \<Rightarrow> string \<Rightarrow> 'z claim_db_scheme
    \<Rightarrow> (claim_error + moderation_item) \<times> 'z claim_db_scheme" where
  "queue_command tn it oper why command typ dec =
     review_command tn command oper [(''item_id'', JStr (it_public_id it))] (apply_queue_command tn it oper why typ dec)"

definition unlock_verification :: "tenant \<Rightarrow> moderation_item \<Rightarrow> operator \<Rightarrow> string \<Rightarrow> 'z claim_db_scheme \<Rightarrow> (claim_error + moderation_item) \<times> 'z claim_db_scheme" where
  "unlock_verification tn it oper why = queue_command tn it oper why ''claim.unlock_verification'' I_LOCK ''unlocked''"

definition unblock_claims :: "tenant \<Rightarrow> moderation_item \<Rightarrow> operator \<Rightarrow> string \<Rightarrow> 'z claim_db_scheme \<Rightarrow> (claim_error + moderation_item) \<times> 'z claim_db_scheme" where
  "unblock_claims tn it oper why = queue_command tn it oper why ''claim.unblock'' I_BLOCK ''unblocked''"

end
