(* ===== verification/Claims.thy ===== *)
theory Claims
  imports Claim_Review
begin

section \<open>The claim commands of a claimant\<close>

text \<open>
  The claim part of \<^verbatim>\<open>directory/services.py\<close>: \<open>submit_claim\<close>, \<open>start_claim_verification\<close> and \<open>verify_claim_code\<close> with their
  transactions. A visitor's \<^verbatim>\<open>claimant\<close> and \<^verbatim>\<open>consent\<close> arguments are JSON values, since the command checks their types itself;
  the listing of a submission is the row the caller read. \<open>timezone.now()\<close> is the wall clock of the state.
\<close>

subsection \<open>Consent and settings\<close>

definition CONSENT_TEXT_KEY :: string where
  "CONSENT_TEXT_KEY = ''consent''"

definition CONSENT_CHANNELS :: "string list" where
  "CONSENT_CHANNELS = [''marketing_email'', ''marketing_sms'', ''automated_calls'']"

definition DEFAULT_CONSENT_BODY :: string where
  "DEFAULT_CONSENT_BODY =
     ''PLACEHOLDER -- the operator must replace this with reviewed legal wording before enabling claims in production.'' @ nl @ nl
     @ ''By submitting this claim, you confirm you are authorised to manage this listing on behalf of the business named above. Each consent below is independent and you may decline any of them without affecting your claim.''"

definition get_default_consent_text :: "tenant \<Rightarrow> 'z claim_db_scheme \<Rightarrow> consent_text \<times> 'z claim_db_scheme" where
  "get_default_consent_text tn db =
     (case find (\<lambda>t. ct_tenant t = tn_pk tn \<and> ct_key t = CONSENT_TEXT_KEY \<and> ct_version t = ''v1'') (consent_texts db) of
        Some t \<Rightarrow> (t, db)
      | None \<Rightarrow>
          let t = \<lparr>ct_pk = Suc (seq db), ct_tenant = tn_pk tn, ct_key = CONSENT_TEXT_KEY, ct_version = ''v1'', ct_body = DEFAULT_CONSENT_BODY\<rparr>
          in (t, db\<lparr>consent_texts := consent_texts db @ [t], seq := Suc (seq db)\<rparr>))"

definition consent_label :: "consent_text \<Rightarrow> string" where
  "consent_label t = ct_key t @ ''-'' @ ct_version t"

definition settings_dict :: "dict \<Rightarrow> string \<Rightarrow> dict" where
  "settings_dict d k = (case dict_get d k of Some (JObj o') \<Rightarrow> o' | _ \<Rightarrow> [])"

definition enabled_claim_methods :: "tenant \<Rightarrow> string list" where
  "enabled_claim_methods tn =
     (case dict_get (settings_dict (tn_settings tn) ''claim_verification'') ''enabled_methods'' of
        Some (JList xs) \<Rightarrow> if xs = [] then [''manual''] else concat (map (\<lambda>x. case x of JStr s \<Rightarrow> [s] | _ \<Rightarrow> []) xs)
      | _ \<Rightarrow> [''manual''])"

text \<open>A phone that was only white space is normalised to null, which the column refuses.\<close>

definition match_or_create_user :: "tenant \<Rightarrow> string \<Rightarrow> string \<Rightarrow> string option \<Rightarrow> 'z claim_db_scheme \<Rightarrow> claim_error + (user \<times> bool) \<times> 'z claim_db_scheme" where
  "match_or_create_user tn mail_address name phone db =
     (case find (\<lambda>u. usr_tenant u = tn_pk tn \<and> usr_email u = mail_address) (users db) of
        Some u \<Rightarrow> Inr ((u, False), db)
      | None \<Rightarrow> (case phone of None \<Rightarrow> Inl ClaimIntegrity | Some ph \<Rightarrow>
          let u = \<lparr>usr_pk = Suc (seq db), usr_tenant = tn_pk tn, usr_public_id = prefixed ''usr_'' (draw_ulid db),
                   usr_email = lower mail_address, usr_name = name, usr_phone_e164 = ph, usr_created_at = wall db\<rparr>
          in Inr ((u, True), db\<lparr>users := users db @ [u], seq := Suc (seq db), draws := Suc (draws db)\<rparr>)))"

subsection \<open>Sending a code\<close>

definition COOLDOWN_MINUTES :: int where
  "COOLDOWN_MINUTES = 15"

definition MAX_WRONG_ENTRIES :: nat where
  "MAX_WRONG_ENTRIES = 5"

definition MAX_COOLDOWNS :: nat where
  "MAX_COOLDOWNS = 3"

definition MIN_SECONDS_BETWEEN_SENDS :: int where
  "MIN_SECONDS_BETWEEN_SENDS = 60"

definition MAX_SENDS_PER_WINDOW :: nat where
  "MAX_SENDS_PER_WINDOW = 5"

definition SEND_WINDOW :: duration where
  "SEND_WINDOW = hours 24"

definition VERIFIABLE_STATUSES :: "claim_status list" where
  "VERIFIABLE_STATUSES = [C_PENDING, C_DISPUTED]"

definition resolve_domain_email_ttl :: "tenant \<Rightarrow> duration" where
  "resolve_domain_email_ttl tn =
     (case dict_get (settings_dict (settings_dict (tn_settings tn) ''claim_verification'') ''ttl'') ''domain_email_minutes'' of
        Some (JInt m) \<Rightarrow> if 15 \<le> m \<and> m \<le> 48 * 60 then minutes m else minutes (24 * 60)
      | _ \<Rightarrow> minutes (24 * 60))"

definition flip_fields :: "string \<Rightarrow> claim \<Rightarrow> claim" where
  "flip_fields reason r = r\<lparr>cl_method := CM_MANUAL, code_hash := [], review_reason := (if review_reason r = [] then reason else review_reason r)\<rparr>"

definition flip_to_manual :: "claim \<Rightarrow> instant \<Rightarrow> string \<Rightarrow> 'z claim_db_scheme \<Rightarrow> 'z claim_db_scheme" where
  "flip_to_manual c now reason db = save_claim c (flip_fields reason) (expire_pending_code c now db)"

definition visitor :: "user \<Rightarrow> dict" where
  "visitor u = [(''type'', JStr ''visitor''), (''id'', JStr (usr_public_id u))]"

definition verification_failed :: "tenant \<Rightarrow> claim \<Rightarrow> listing \<Rightarrow> user \<Rightarrow> string \<Rightarrow> nat option \<Rightarrow> nat option \<Rightarrow> 'z claim_db_scheme
    \<Rightarrow> claim_error + outbox_event \<times> 'z claim_db_scheme" where
  "verification_failed tn c l u reason attempt cools =
     claim_emit CLAIM_VERIFICATION_FAILED (cl_public_id c) tn (visitor u)
       [(''claim'', claim_ref c l), (''method'', JStr ''domain_email''), (''reason'', JStr reason),
        (''attempt'', jopt (\<lambda>n. JInt (int n)) attempt), (''cooldowns'', jopt (\<lambda>n. JInt (int n)) cools)]"

definition fmt_minute :: "instant \<Rightarrow> string" where
  "fmt_minute t = (let s = (t div 1000000) mod 86400 in fmt_date t @ '' '' @ pad 2 (s div 3600) @ '':'' @ pad 2 (s div 60 mod 60))"

definition code_mail_text :: "tenant \<Rightarrow> claim \<Rightarrow> listing \<Rightarrow> string \<Rightarrow> instant \<Rightarrow> string" where
  "code_mail_text tn c l code expires =
     ''A request was made on '' @ tn_name tn @ '' to claim the listing '' @ ls_name l @ '' using this email address.'' @ nl @ nl
     @ ''Your verification code is: '' @ code @ nl @ nl
     @ ''It expires at '' @ fmt_minute expires @ '' UTC. Only the most recent code works.''
     @ (if has_absolute_base tn then nl @ nl @ ''Enter it at: '' @ absolute_url tn (''/claim/'' @ cl_public_id c @ ''/verify/'') else [])
     @ nl @ nl @ ''If you did not make this request, you can ignore this email. Nothing changes unless the code is entered.''"

definition code_fields :: "string \<Rightarrow> instant \<Rightarrow> instant \<Rightarrow> nat \<Rightarrow> claim \<Rightarrow> claim" where
  "code_fields hash now expires msg r =
     r\<lparr>code_hash := hash, verification_started_at := Some now, cl_expires_at := Some expires, code_message := Some msg\<rparr>"

definition sent_fields :: "instant \<Rightarrow> instant \<Rightarrow> nat \<Rightarrow> guard \<Rightarrow> guard" where
  "sent_fields now start n g = g\<lparr>last_code_sent_at := Some now, codes_sent_window_start := Some start, codes_sent_in_window := Suc n\<rparr>"

text \<open>The window a send is counted in, and how many it already holds.\<close>

definition send_window :: "instant \<Rightarrow> guard \<Rightarrow> instant \<times> nat" where
  "send_window now g =
     (case codes_sent_window_start g of
        None \<Rightarrow> (now, 0)
      | Some s \<Rightarrow> if SEND_WINDOW \<le> now - s then (now, 0) else (s, codes_sent_in_window g))"

definition cooling :: "instant \<Rightarrow> guard \<Rightarrow> bool" where
  "cooling now g = (case cooldown_until g of None \<Rightarrow> False | Some t \<Rightarrow> now < t)"

definition too_soon :: "instant \<Rightarrow> guard \<Rightarrow> bool" where
  "too_soon now g = (case last_code_sent_at g of None \<Rightarrow> False | Some t \<Rightarrow> now - t < seconds MIN_SECONDS_BETWEEN_SENDS)"

definition send_code :: "world \<Rightarrow> tenant \<Rightarrow> guard \<Rightarrow> claim \<Rightarrow> listing \<Rightarrow> user \<Rightarrow> instant \<Rightarrow> nat \<Rightarrow> 'z claim_db_scheme
    \<Rightarrow> claim_error + (claim \<times> string \<times> string) \<times> 'z claim_db_scheme" where
  "send_code w tn g c l u start n db0 =
     (let now = wall db0; (code, db) = generate_code (expire_pending_code c now db0);
          hash = w_hash w (cl_public_id c) code; expires = now + resolve_domain_email_ttl tn
      in then_do (claim_mail tn ''claim.verification_code'' (usr_email u) (''Your verification code for '' @ ls_name l) (code_mail_text tn c l code expires) expires) (\<lambda>msg d.
         let c' = code_fields hash now expires (ms_pk msg) c
         in then_do (claim_emit CLAIM_VERIFICATION_STARTED (cl_public_id c) tn (visitor u)
              [(''claim'', claim_ref c' l), (''method'', JStr ''domain_email''), (''expires_at'', JStr (isoformat expires)),
               (''destination'', JStr (mask_email (usr_email u)))])
              (\<lambda>ev d'. Inr ((c', ''sent'', event_id ev), d'))
              (save_guard g (sent_fields now start n) (save_claim c (code_fields hash now expires (ms_pk msg)) d))) db)"

text \<open>The result is the claim, \<^verbatim>\<open>sent\<close>, \<^verbatim>\<open>ineligible\<close>, \<^verbatim>\<open>cooldown\<close> or \<^verbatim>\<open>cap\<close>, and the event id, empty for none.\<close>

definition start_ineligible :: "tenant \<Rightarrow> claim \<Rightarrow> listing \<Rightarrow> user \<Rightarrow> string \<Rightarrow> 'z claim_db_scheme
    \<Rightarrow> claim_error + (claim \<times> string \<times> string) \<times> 'z claim_db_scheme" where
  "start_ineligible tn c l u reason db =
     (let c' = flip_fields reason c
      in then_do (if cl_status c = C_DISPUTED then (\<lambda>d. Inr (0, d)) else notify_operators tn None) (\<lambda>n.
         then_do (verification_failed tn c' l u ''ineligible'' None None) (\<lambda>ev d. Inr ((c', ''ineligible'', event_id ev), d)))
           (flip_to_manual c (wall db) reason db))"

definition start_eligible :: "world \<Rightarrow> tenant \<Rightarrow> guard \<Rightarrow> claim \<Rightarrow> listing \<Rightarrow> user \<Rightarrow> 'z claim_db_scheme
    \<Rightarrow> claim_error + (claim \<times> string \<times> string) \<times> 'z claim_db_scheme" where
  "start_eligible w tn g c l u db =
     (if cooling (wall db) g then Inr ((c, ''cooldown'', []), db)
      else if too_soon (wall db) g then Inr ((c, ''cap'', []), db)
      else (case send_window (wall db) g of (start, n) \<Rightarrow>
        if MAX_SENDS_PER_WINDOW \<le> n then Inr ((c, ''cap'', []), db) else send_code w tn g c l u start n db))"

definition start_checked :: "world \<Rightarrow> tenant \<Rightarrow> guard \<Rightarrow> claim \<times> listing \<times> user \<Rightarrow> 'z claim_db_scheme
    \<Rightarrow> claim_error + (claim \<times> string \<times> string) \<times> 'z claim_db_scheme" where
  "start_checked w tn g row db =
     (case row of (c, l, u) \<Rightarrow>
       if cl_status c \<notin> set VERIFIABLE_STATUSES then Inl (VerificationRefused ''status'')
       else if cl_method c \<noteq> CM_DOMAIN_EMAIL then Inl (VerificationRefused ''method'')
       else if verified_at c \<noteq> None then Inl (VerificationRefused ''verified'')
       else bind_result (domain_email_ineligibility w tn l (usr_email u) db) (\<lambda>why.
         case why of Some reason \<Rightarrow> start_ineligible tn c l u reason db | None \<Rightarrow> start_eligible w tn g c l u db))"

definition apply_start_verification :: "world \<Rightarrow> tenant \<Rightarrow> claim \<Rightarrow> 'z claim_db_scheme
    \<Rightarrow> claim_error + (claim \<times> string \<times> string) \<times> 'z claim_db_scheme" where
  "apply_start_verification w tn arg = atomic (\<lambda>db0.
     let (g, db) = lock_guard tn (cl_listing arg) (cl_claimant arg) db0 in
     bind_result (load_claim tn (cl_pk arg) db) (\<lambda>row. start_checked w tn g row db))"

text \<open>The rate-limited shell of the visitor commands: one blocked row per window, else the received row.\<close>

definition blocked_row :: "string \<Rightarrow> tenant \<Rightarrow> dict \<Rightarrow> dict \<Rightarrow> verdict \<Rightarrow> 'z claim_db_scheme \<Rightarrow> 'z claim_db_scheme" where
  "blocked_row command tn actor payload v db =
     (if first_block v
      then (case log_received command (Some (tn_pk tn)) None actor [] [] (Some (JObj payload)) db of
              (row, d) \<Rightarrow> log_conclude row ''blocked'' [] (Some (JObj [(''rate_limited'', jopt JStr (v_rule v))])) None d)
      else db)"

definition claimant_of :: "claim \<Rightarrow> 'z claim_db_scheme \<Rightarrow> user option" where
  "claimant_of c db = find_by usr_pk (cl_claimant c) (users db)"

definition start_claim_verification :: "world \<Rightarrow> tenant \<Rightarrow> claim \<Rightarrow> string option \<Rightarrow> 'z claim_db_scheme \<Rightarrow> (claim_error + claim) \<times> 'z claim_db_scheme" where
  "start_claim_verification w tn c ip db =
     (case require_autocommit db of
        Inl e \<Rightarrow> (Inl (ClaimAudit e), db)
      | Inr _ \<Rightarrow>
     (case claimant_of c db of
        None \<Rightarrow> (Inl DoesNotExist, db)
      | Some u \<Rightarrow>
     (case check_resend w tn ip (usr_email u) (wall db) db of
        Inl e \<Rightarrow> (Inl (ClaimAudit e), db)
      | Inr (v, db1) \<Rightarrow>
          if \<not> allowed v then (Inl (RateLimited v), blocked_row ''claim.start_verification'' tn (visitor u) [(''claim_id'', JStr (cl_public_id c))] v db1)
          else (case log_received ''claim.start_verification'' (Some (tn_pk tn)) None (visitor u) [] [] (Some (JObj [(''claim_id'', JStr (cl_public_id c))])) db1 of
            (row, db2) \<Rightarrow>
              (case apply_start_verification w tn c db2 of
                 Inl (VerificationRefused reason) \<Rightarrow>
                   (Inl (VerificationRefused reason), log_conclude row ''rejected'' [] (Some (JObj [(''reason'', JStr reason)])) None db2)
               | Inl e \<Rightarrow> (Inl e, db2)
               | Inr ((c', result, eid), db3) \<Rightarrow>
                   if result \<in> {''cooldown'', ''cap''}
                   then (Inl (VerificationRefused result), log_conclude row ''rejected'' [] (Some (JObj [(''reason'', JStr result)])) None db3)
                   else (Inr c', log_conclude row ''applied'' eid None None db3))))))"

subsection \<open>Entering a code\<close>

definition verified_fields :: "instant \<Rightarrow> claim \<Rightarrow> claim" where
  "verified_fields now r = r\<lparr>verified_at := Some now, code_hash := []\<rparr>"

text \<open>The counters after a wrong entry, and the reason the event gives.\<close>

definition count_wrong :: "instant \<Rightarrow> guard \<Rightarrow> guard \<times> string" where
  "count_wrong now g =
     (let g1 = g\<lparr>wrong_entries := Suc (wrong_entries g)\<rparr> in
      if MAX_WRONG_ENTRIES \<le> wrong_entries g1 then
        let g2 = g1\<lparr>cooldown_until := Some (now + minutes COOLDOWN_MINUTES), cooldowns := Suc (cooldowns g1), wrong_entries := 0\<rparr>
        in if MAX_COOLDOWNS \<le> cooldowns g2 then (g2\<lparr>verification_locked_at := Some now\<rparr>, ''locked'') else (g2, ''cooldown'')
      else (g1, ''wrong_code''))"

definition wrong_fields :: "string \<Rightarrow> claim \<Rightarrow> claim" where
  "wrong_fields reason r =
     (let r1 = r\<lparr>cl_attempts := Suc (cl_attempts r)\<rparr>; r2 = (if reason = ''wrong_code'' then r1 else r1\<lparr>code_hash := []\<rparr>) in
      if reason = ''locked'' then r2\<lparr>cl_method := CM_MANUAL, review_reason := (if review_reason r = [] then ''locked'' else review_reason r)\<rparr> else r2)"

definition wrong_entry :: "tenant \<Rightarrow> guard \<Rightarrow> claim \<Rightarrow> listing \<Rightarrow> user \<Rightarrow> 'z claim_db_scheme \<Rightarrow> claim_error + (claim \<times> bool \<times> string) \<times> 'z claim_db_scheme" where
  "wrong_entry tn g c l u db =
     (let now = wall db; (g', reason) = count_wrong now g; c' = wrong_fields reason c;
          db1 = (if reason = ''locked'' then expire_pending_code c now db else db);
          db2 = save_guard g (\<lambda>r. fst (count_wrong now r)) (save_claim c (wrong_fields reason) db1)
      in then_do (verification_failed tn c' l u reason (Some (Suc (wrong_entries g))) (Some (cooldowns g'))) (\<lambda>ev d.
           if reason = ''locked'' then
             then_do (open_item tn I_LOCK l u (Some c') [''verification_cooldowns_exhausted''] (visitor u)) (\<lambda>it.
             then_do (if cl_status c = C_DISPUTED then (\<lambda>d. Inr (0, d)) else notify_operators tn None)
               (\<lambda>n d'. Inr ((c', False, event_id ev), d'))) d
           else Inr ((c', False, event_id ev), d)) db2)"

definition correct_entry :: "world \<Rightarrow> tenant \<Rightarrow> claim \<Rightarrow> user \<Rightarrow> 'z claim_db_scheme \<Rightarrow> claim_error + (claim \<times> bool \<times> string) \<times> 'z claim_db_scheme" where
  "correct_entry w tn c u db =
     (let now = wall db; c' = verified_fields now c; db1 = save_claim c (verified_fields now) db
      in if cl_status c = C_DISPUTED then Inr ((c', True, []), db1)
         else then_do (resolve_verified_claim w tn c' u now) (\<lambda>(eid, c'') d. Inr ((c'', True, eid), d)) db1)"

text \<open>Why an entry is refused before the code is looked at.\<close>

definition entry_refusal :: "instant \<Rightarrow> guard \<Rightarrow> claim \<Rightarrow> string option" where
  "entry_refusal now g c =
     (if cl_status c \<notin> set VERIFIABLE_STATUSES then Some ''status''
      else if cl_method c \<noteq> CM_DOMAIN_EMAIL then Some ''method''
      else if verified_at c \<noteq> None then Some ''verified''
      else if verification_locked_at g \<noteq> None then Some ''locked''
      else if cooling now g then Some ''cooldown''
      else if code_hash c = [] then Some ''no_active_code''
      else if (case cl_expires_at c of None \<Rightarrow> False | Some t \<Rightarrow> t \<le> now) then Some ''expired''
      else None)"

definition verify_checked :: "world \<Rightarrow> tenant \<Rightarrow> guard \<Rightarrow> string \<Rightarrow> claim \<times> listing \<times> user \<Rightarrow> 'z claim_db_scheme
    \<Rightarrow> claim_error + (claim \<times> bool \<times> string) \<times> 'z claim_db_scheme" where
  "verify_checked w tn g code row db =
     (case row of (c, l, u) \<Rightarrow>
       (case entry_refusal (wall db) g c of
          Some reason \<Rightarrow> Inl (VerificationRefused reason)
        | None \<Rightarrow> if code_hash c = w_hash w (cl_public_id c) code then correct_entry w tn c u db else wrong_entry tn g c l u db))"

definition apply_verify_claim_code :: "world \<Rightarrow> tenant \<Rightarrow> claim \<Rightarrow> string \<Rightarrow> 'z claim_db_scheme
    \<Rightarrow> claim_error + (claim \<times> bool \<times> string) \<times> 'z claim_db_scheme" where
  "apply_verify_claim_code w tn arg code = atomic (\<lambda>db0.
     let (g, db) = lock_guard tn (cl_listing arg) (cl_claimant arg) db0 in
     bind_result (load_claim tn (cl_pk arg) db) (\<lambda>row. verify_checked w tn g code row db))"

definition verify_claim_code :: "world \<Rightarrow> tenant \<Rightarrow> claim \<Rightarrow> string \<Rightarrow> string option \<Rightarrow> 'z claim_db_scheme \<Rightarrow> (claim_error + claim \<times> bool) \<times> 'z claim_db_scheme" where
  "verify_claim_code w tn c code ip db =
     (case require_autocommit db of
        Inl e \<Rightarrow> (Inl (ClaimAudit e), db)
      | Inr _ \<Rightarrow>
     (case claimant_of c db of
        None \<Rightarrow> (Inl DoesNotExist, db)
      | Some u \<Rightarrow>
     (case check_verify w tn ip (wall db) db of
        Inl e \<Rightarrow> (Inl (ClaimAudit e), db)
      | Inr (v, db1) \<Rightarrow>
          if \<not> allowed v then (Inl (RateLimited v), blocked_row ''claim.verify'' tn (visitor u) [(''claim_id'', JStr (cl_public_id c))] v db1)
          else (case log_received ''claim.verify'' (Some (tn_pk tn)) None (visitor u) [] [] (Some (JObj [(''claim_id'', JStr (cl_public_id c))])) db1 of
            (row, db2) \<Rightarrow>
              (case apply_verify_claim_code w tn c code db2 of
                 Inl (VerificationRefused reason) \<Rightarrow>
                   (Inl (VerificationRefused reason), log_conclude row ''rejected'' [] (Some (JObj [(''reason'', JStr reason)])) None db2)
               | Inl e \<Rightarrow> (Inl e, db2)
               | Inr ((c', correct, eid), db3) \<Rightarrow> (Inr (c', correct), log_conclude row ''applied'' eid None None db3))))))"

subsection \<open>Submitting a claim\<close>

record claimant_facts =
  cf_name :: string
  cf_email :: string
  cf_phone :: "string option"
  cf_role :: string

definition text_arg :: "dict \<Rightarrow> string \<Rightarrow> string \<Rightarrow> string + string" where
  "text_arg d key field = (case dict_get d key of None \<Rightarrow> Inr [] | Some JNull \<Rightarrow> Inr [] | Some (JStr s) \<Rightarrow> Inr s | _ \<Rightarrow> Inl (field @ '' must be text''))"

definition mapping_arg :: "json \<Rightarrow> string \<Rightarrow> string + dict" where
  "mapping_arg v field = (case v of JObj d \<Rightarrow> Inr d | _ \<Rightarrow> Inl (field @ '' must be an object''))"

text \<open>The block that raises \<^verbatim>\<open>ValueError\<close>: \<open>Inl\<close> of its message, else the normalised claimant and the consent object.\<close>

definition normalize_claimant :: "json \<Rightarrow> json \<Rightarrow> string + claimant_facts \<times> dict" where
  "normalize_claimant claimant consent =
     bind_result (mapping_arg claimant ''claimant'') (\<lambda>d.
     bind_result (mapping_arg consent ''consent'') (\<lambda>cs.
     if \<not> list_all (\<lambda>(k, v). case v of JObj o' \<Rightarrow> True | _ \<Rightarrow> False) cs then Inl ''consent entries must be objects''
     else
     bind_result (text_arg d ''email'' ''email'') (\<lambda>e.
     bind_result (text_arg d ''name'' ''name'') (\<lambda>name.
     bind_result (text_arg d ''phone_e164'' ''phone'') (\<lambda>phone.
     bind_result (text_arg d ''role_claimed'' ''role'') (\<lambda>role.
     case normalize_email e of
       None \<Rightarrow> Inl ''claimant email is required''
     | Some addr \<Rightarrow>
         bind_result (case normalize_phone phone of Inl _ \<Rightarrow> Inl ''phone is not a valid E.164 number'' | Inr p \<Rightarrow> Inr (if phone = [] then Some [] else p)) (\<lambda>p.
         let r = strip (if role = [] then ''owner'' else role)
         in Inr (\<lparr>cf_name = strip name, cf_email = addr, cf_phone = p, cf_role = (if r = [] then ''owner'' else r)\<rparr>, cs))))))))"

definition granted :: "dict \<Rightarrow> string \<Rightarrow> bool" where
  "granted cs channel = (case dict_get cs channel of
     Some (JObj d) \<Rightarrow> (case dict_get d ''granted'' of None \<Rightarrow> False | Some v \<Rightarrow> truthy v) | _ \<Rightarrow> False)"

definition new_consent :: "tenant \<Rightarrow> claim \<Rightarrow> dict \<Rightarrow> string option \<Rightarrow> string \<Rightarrow> string \<Rightarrow> 'z claim_db_scheme \<Rightarrow> consent" where
  "new_consent tn c cs ip label channel db =
     (let ok = granted cs channel in
      \<lparr>cn_pk = Suc (seq db), cn_tenant = tn_pk tn, cn_public_id = prefixed ''cns_'' (draw_ulid db), cn_claim = Some (cl_pk c), cn_lead = None, cn_channel = channel,
       cn_granted = ok, cn_granted_at = (if ok then Some (wall db) else None), cn_ip = (if ok then ip else None), cn_text_version = label\<rparr>)"

fun record_consents :: "tenant \<Rightarrow> claim \<Rightarrow> dict \<Rightarrow> string option \<Rightarrow> string \<Rightarrow> string list \<Rightarrow> 'z claim_db_scheme \<Rightarrow> 'z claim_db_scheme" where
  "record_consents tn c cs ip label [] db = db"
| "record_consents tn c cs ip label (ch # chs) db =
     record_consents tn c cs ip label chs
       (db\<lparr>consents := consents db @ [new_consent tn c cs ip label ch db], seq := Suc (seq db), draws := Suc (draws db)\<rparr>)"

definition consent_payload :: "dict \<Rightarrow> string option \<Rightarrow> string \<Rightarrow> instant \<Rightarrow> dict" where
  "consent_payload cs ip label now =
     map (\<lambda>ch. (ch, JObj [(''granted'', JBool (granted cs ch)), (''at'', if granted cs ch then JStr (isoformat now) else JNull),
        (''ip'', if granted cs ch then (case ip of Some s \<Rightarrow> str_or_null s | None \<Rightarrow> JNull) else JNull), (''text_version'', JStr label)])) CONSENT_CHANNELS"

definition new_claim :: "tenant \<Rightarrow> string \<Rightarrow> listing \<Rightarrow> user \<Rightarrow> claim_method \<Rightarrow> string \<Rightarrow> string \<Rightarrow> string \<Rightarrow> 'z claim_db_scheme \<Rightarrow> claim" where
  "new_claim tn pid l u method requested why role db =
     \<lparr>cl_pk = Suc (seq db), cl_tenant = tn_pk tn, cl_listing = ls_pk l, cl_claimant = usr_pk u, cl_public_id = pid, cl_status = C_PENDING,
      cl_method = method, role_claimed = role, verification_started_at = None, cl_expires_at = None, cl_attempts = 0, code_hash = [],
      code_message = None, manual_method_used = [], verified_by = None, verified_at = None, verification_notes = [], evidence_ref = [],
      cl_decided_at = None, cl_decided_by = None, rejection_reason = [], requested_method = requested, review_reason = why,
      last_step = ''submitted'', cl_created_at = wall db, cl_updated_at = wall db\<rparr>"

text \<open>The checks of a submission that raise a \<^verbatim>\<open>SchemaError\<close> or \<^verbatim>\<open>ConsentRequired\<close> before anything is written.\<close>

definition submit_guard :: "tenant \<Rightarrow> string \<Rightarrow> dict \<Rightarrow> claim_error + claim_method" where
  "submit_guard tn method cs =
     (case claim_method_of method of
        None \<Rightarrow> Inl (ClaimSchemaError [''method is not one of domain_email, gbp_oauth, manual, phone_otp, postcard''])
      | Some m \<Rightarrow>
          if method \<notin> set (enabled_claim_methods tn) then Inl (ClaimSchemaError [''verification method '' @ repr method @ '' is not enabled for this tenant''])
          else (case find (\<lambda>ch. dict_get cs ch = None) CONSENT_CHANNELS of Some ch \<Rightarrow> Inl (ConsentRequired ch) | None \<Rightarrow> Inr m))"

definition user_created :: "tenant \<Rightarrow> user \<Rightarrow> bool \<Rightarrow> 'z claim_db_scheme \<Rightarrow> claim_error + unit \<times> 'z claim_db_scheme" where
  "user_created tn u minted db =
     (if \<not> minted then Inr ((), db)
      else then_do (claim_emit USER_CREATED (usr_public_id u) tn (visitor u)
          [(''user'', JObj [(''id'', JStr (usr_public_id u)), (''email'', JStr (usr_email u)), (''name'', JStr (usr_name u)), (''phone_e164'', JStr (usr_phone_e164 u))]),
           (''created_by'', JStr ''claim.submit'')]) (\<lambda>ev d. Inr ((), d)) db)"

definition effective_method :: "world \<Rightarrow> tenant \<Rightarrow> listing \<Rightarrow> claimant_facts \<Rightarrow> claim_method \<Rightarrow> 'z claim_db_scheme \<Rightarrow> claim_error + claim_method \<times> string" where
  "effective_method w tn l cf m db =
     (if m = CM_DOMAIN_EMAIL then
        bind_result (domain_email_ineligibility w tn l (cf_email cf) db) (\<lambda>why. Inr (case why of None \<Rightarrow> (m, []) | Some r \<Rightarrow> (CM_MANUAL, r)))
      else Inr (m, if m = CM_MANUAL then ''chosen'' else []))"

definition submitted_data :: "claim \<Rightarrow> listing \<Rightarrow> user \<Rightarrow> claimant_facts \<Rightarrow> dict \<Rightarrow> dict" where
  "submitted_data c l u cf payload =
     [(''claim'', claim_ref c l),
      (''claimant'', JObj [(''id'', JStr (usr_public_id u)), (''name'', JStr (cf_name cf)), (''email'', JStr (cf_email cf)),
         (''phone_e164'', jopt JStr (cf_phone cf)), (''role_claimed'', JStr (cf_role cf))]),
      (''consent'', JObj payload)]"

text \<open>What follows the submission event: the code of an eligible claim, the dispute of an owned listing, or the operators' notice.\<close>

definition after_submit :: "world \<Rightarrow> tenant \<Rightarrow> claim \<Rightarrow> listing \<Rightarrow> user \<Rightarrow> 'z claim_db_scheme \<Rightarrow> claim_error + claim \<times> 'z claim_db_scheme" where
  "after_submit w tn c l u =
     then_do (if cl_method c = CM_DOMAIN_EMAIL then then_do (apply_start_verification w tn c) (\<lambda>(c', r, eid) d. Inr (c', d)) else (\<lambda>d. Inr (c, d))) (\<lambda>c'.
       if ls_status l = L_CLAIMED then then_do (dispute tn c' l u (visitor u)) (\<lambda>(ev, c'') d. Inr (c'', d))
       else if cl_method c' = CM_MANUAL then then_do (notify_operators tn None) (\<lambda>n d. Inr (c', d))
       else (\<lambda>d. Inr (c', d)))"

definition submit_insert :: "world \<Rightarrow> tenant \<Rightarrow> listing \<Rightarrow> string \<Rightarrow> claimant_facts \<Rightarrow> dict \<Rightarrow> string option \<Rightarrow> string \<Rightarrow> string \<Rightarrow> user
    \<Rightarrow> claim_method \<times> string \<Rightarrow> 'z claim_db_scheme \<Rightarrow> claim_error + (claim \<times> string) \<times> 'z claim_db_scheme" where
  "submit_insert w tn l method cf cs ip pid label u em db3 =
     (let c = new_claim tn pid l u (fst em) method (snd em) (cf_role cf) db3;
          db4 = record_consents tn c cs ip label CONSENT_CHANNELS (db3\<lparr>claims := claims db3 @ [c], seq := Suc (seq db3)\<rparr>)
      in then_do (claim_emit CLAIM_SUBMITTED pid tn (visitor u) (submitted_data c l u cf (consent_payload cs ip label (wall db4)))) (\<lambda>ev.
         then_do (after_submit w tn c l u) (\<lambda>c' d. Inr ((c', event_id ev), d))) db4)"

definition pair_blocked :: "tenant \<Rightarrow> listing \<Rightarrow> user \<Rightarrow> 'z claim_db_scheme \<Rightarrow> bool" where
  "pair_blocked tn l u db = (case find_guard (tn_pk tn) (ls_pk l) (usr_pk u) db of None \<Rightarrow> False | Some g \<Rightarrow> claim_blocked_at g \<noteq> None)"

definition submit_checked :: "world \<Rightarrow> tenant \<Rightarrow> listing \<Rightarrow> string \<Rightarrow> claimant_facts \<Rightarrow> dict \<Rightarrow> string option \<Rightarrow> string \<Rightarrow> string \<Rightarrow> claim_method
    \<Rightarrow> user \<times> bool \<Rightarrow> 'z claim_db_scheme \<Rightarrow> claim_error + (claim \<times> string) \<times> 'z claim_db_scheme" where
  "submit_checked w tn l method cf cs ip pid label m who db2 =
     (if pair_blocked tn l (fst who) db2 then Inl (ClaimSchemaError [''this address is blocked from claiming this listing''])
      else then_do (user_created tn (fst who) (snd who)) (\<lambda>v db3.
        bind_result (effective_method w tn l cf m db3) (\<lambda>em. submit_insert w tn l method cf cs ip pid label (fst who) em db3)) db2)"

definition apply_submit_claim :: "world \<Rightarrow> tenant \<Rightarrow> listing \<Rightarrow> string \<Rightarrow> claimant_facts \<Rightarrow> dict \<Rightarrow> string option \<Rightarrow> string \<Rightarrow> 'z claim_db_scheme
    \<Rightarrow> claim_error + (claim \<times> string) \<times> 'z claim_db_scheme" where
  "apply_submit_claim w tn l method cf cs ip pid = atomic (\<lambda>db0.
     bind_result (submit_guard tn method cs) (\<lambda>m.
     let (txt, db1) = get_default_consent_text tn db0 in
     then_do (match_or_create_user tn (cf_email cf) (cf_name cf) (cf_phone cf)) (submit_checked w tn l method cf cs ip pid (consent_label txt) m) db1))"

definition submit_claim :: "world \<Rightarrow> tenant \<Rightarrow> listing \<Rightarrow> string \<Rightarrow> json \<Rightarrow> json \<Rightarrow> string option \<Rightarrow> 'z claim_db_scheme \<Rightarrow> (claim_error + claim) \<times> 'z claim_db_scheme" where
  "submit_claim w tn l method claimant consent ip db0 =
     (case require_autocommit db0 of
        Inl e \<Rightarrow> (Inl (ClaimAudit e), db0)
      | Inr _ \<Rightarrow>
     (case normalize_claimant claimant consent of
        Inl text \<Rightarrow>
          (case log_received ''claim.submit'' (Some (tn_pk tn)) None [(''type'', JStr ''visitor''), (''id'', JStr [])] [] [] None db0 of
             (row, d) \<Rightarrow> (Inl (ClaimSchemaError [text]), log_conclude row ''rejected'' [] (Some (JObj [(''payload'', JStr text)])) None d))
      | Inr (cf, cs) \<Rightarrow>
          let pid = prefixed ''claim_'' (draw_ulid db0); db = db0\<lparr>draws := Suc (draws db0)\<rparr>;
              payload = [(''listing_id'', JStr (ls_public_id l)), (''method'', if claim_method_of method = None then JNull else JStr method),
                 (''claim_id'', JStr pid), (''consent'', JObj cs)];
              actor = [(''type'', JStr ''visitor''), (''id'', JStr (''claimant:'' @ pid))]
          in (case check_submit w tn ip (cf_email cf) (wall db) db of
                Inl e \<Rightarrow> (Inl (ClaimAudit e), db)
              | Inr (v, db1) \<Rightarrow>
                  if \<not> allowed v then (Inl (RateLimited v), blocked_row ''claim.submit'' tn actor payload v db1)
                  else (case log_received ''claim.submit'' (Some (tn_pk tn)) None actor [] [] (Some (JObj payload)) db1 of
                    (row, db2) \<Rightarrow>
                      (case apply_submit_claim w tn l method cf cs ip pid db2 of
                         Inl (ConsentRequired ch) \<Rightarrow> (Inl (ConsentRequired ch), log_conclude row ''rejected'' [] (Some (JObj [(''missing_consent'', JStr ch)])) None db2)
                       | Inl (ClaimSchemaError es) \<Rightarrow> (Inl (ClaimSchemaError es), log_conclude row ''rejected'' [] (Some (JObj [(''errors'', JList (map JStr es))])) None db2)
                       | Inl e \<Rightarrow> (Inl e, db2)
                       | Inr ((c, eid), db3) \<Rightarrow> (Inr c, log_conclude row ''applied'' eid None None db3))))))"

end
