(* ===== verification/Claim_Frames.thy ===== *)
theory Claim_Frames
  imports Claims
begin

section \<open>What the steps of the claim commands write\<close>

text \<open>
  Most steps of a claim command only append: an event, a message, a moderation item. \<open>quiet\<close> says so of a statement, and that it
  cannot fail inside a transaction; it is closed under sequencing. The lemmas after it say exactly what the remaining steps do to the
  claims, the guards and the listings.
\<close>

named_theorems quiet_rules \<open>statements that only append\<close>

definition aux_only :: "'z claim_db_scheme \<Rightarrow> 'z claim_db_scheme \<Rightarrow> bool" where
  "aux_only db db' \<longleftrightarrow> guards db' = guards db \<and> claims db' = claims db \<and> listings db' = listings db \<and> users db' = users db
     \<and> memberships db' = memberships db \<and> operators db' = operators db \<and> tenants db' = tenants db \<and> commands db' = commands db
     \<and> wall db' = wall db \<and> in_atomic db' = in_atomic db \<and> seq db \<le> seq db'"

lemma aux_only_refl [simp]: "aux_only db db"
  by (simp add: aux_only_def)

lemma aux_only_trans: "aux_only a b \<Longrightarrow> aux_only b c \<Longrightarrow> aux_only a c"
  by (auto simp: aux_only_def)

lemma aux_onlyD:
  assumes "aux_only db db'"
  shows "guards db' = guards db" "claims db' = claims db" "listings db' = listings db" "users db' = users db" "memberships db' = memberships db"
    "operators db' = operators db" "commands db' = commands db" "wall db' = wall db" "in_atomic db' = in_atomic db" "seq db \<le> seq db'"
  using assms by (simp_all add: aux_only_def)

definition quiet :: "('z claim_db_scheme \<Rightarrow> claim_error + 'a \<times> 'z claim_db_scheme) \<Rightarrow> bool" where
  "quiet m \<longleftrightarrow> (\<forall>db x db'. m db = Inr (x, db') \<longrightarrow> aux_only db db') \<and> (\<forall>db. in_atomic db \<longrightarrow> (\<exists>x db'. m db = Inr (x, db')))"

lemma quietI: "(\<And>db x db'. m db = Inr (x, db') \<Longrightarrow> aux_only db db') \<Longrightarrow> (\<And>db. in_atomic db \<Longrightarrow> \<exists>x db'. m db = Inr (x, db')) \<Longrightarrow> quiet m"
  by (simp add: quiet_def)

lemma quietD: "quiet m \<Longrightarrow> m db = Inr (x, db') \<Longrightarrow> aux_only db db'"
  by (auto simp: quiet_def)

lemma quiet_total: "quiet m \<Longrightarrow> in_atomic db \<Longrightarrow> \<exists>x db'. m db = Inr (x, db') \<and> aux_only db db'"
  by (auto simp: quiet_def)

lemma quiet_return [quiet_rules]: "quiet (\<lambda>d. Inr (x, d))"
  by (auto simp: quiet_def)

lemma quiet_then_do [quiet_rules]:
  fixes m :: "'z claim_db_scheme \<Rightarrow> claim_error + 'a \<times> 'z claim_db_scheme"
  assumes q: "quiet m" "\<And>x. quiet (f x)"
  shows "quiet (then_do m f)"
proof (rule quietI)
  fix db x db' assume "then_do m f db = Inr (x, db')"
  then show "aux_only db db'" using q by (auto simp: then_do_Inr dest!: quietD intro: aux_only_trans)
next
  fix db :: "'z claim_db_scheme" assume a: "in_atomic db"
  from quiet_total [OF q(1) a] obtain x db1 where m: "m db = Inr (x, db1)" "aux_only db db1" by blast
  with a have "in_atomic db1" by (simp add: aux_only_def)
  from quiet_total [OF q(2) this, of x] m show "\<exists>x db'. then_do m f db = Inr (x, db')" by (auto simp: then_do_Inr)
qed

lemma quiet_if [quiet_rules]: "quiet m \<Longrightarrow> quiet n \<Longrightarrow> quiet (if b then m else n)"
  by simp

lemma quiet_if_db [quiet_rules]: "quiet m \<Longrightarrow> quiet n \<Longrightarrow> quiet (\<lambda>db. if P db then m db else n db)"
  by (auto simp: quiet_def)

lemma quiet_emit [quiet_rules]:
  assumes "t \<in> set ALL_EVENT_TYPES"
  shows "quiet (claim_emit t subject tn actor data)"
  using assms by (auto simp: quiet_def claim_emit_def emit_def Let_def aux_only_def)

lemma quiet_mail [quiet_rules]: "quiet (claim_mail tn kind to subject body expires)"
  by (auto simp: quiet_def claim_mail_def enqueue_def Let_def aux_only_def split: if_splits)

lemma claim_event_types [simp, quiet_rules]:
  "MODERATION_QUEUED \<in> set ALL_EVENT_TYPES" "MODERATION_DECIDED \<in> set ALL_EVENT_TYPES" "CLAIM_DISPUTED \<in> set ALL_EVENT_TYPES"
  "CLAIM_REJECTED \<in> set ALL_EVENT_TYPES" "CLAIM_APPROVED \<in> set ALL_EVENT_TYPES" "LISTING_OWNER_ASSIGNED \<in> set ALL_EVENT_TYPES"
  "LISTING_UPDATED \<in> set ALL_EVENT_TYPES" "CLAIM_NOTIFIED_EXISTING_CONTACTS \<in> set ALL_EVENT_TYPES"
  "CLAIM_VERIFICATION_FAILED \<in> set ALL_EVENT_TYPES" "CLAIM_VERIFICATION_STARTED \<in> set ALL_EVENT_TYPES"
  "CLAIM_SUBMITTED \<in> set ALL_EVENT_TYPES" "USER_CREATED \<in> set ALL_EVENT_TYPES"
  by (simp_all add: ALL_EVENT_TYPES_def)

lemma quiet_mail_each [quiet_rules]: "quiet (mail_each tn kind subject body expires as)"
proof (induction as)
  case Nil
  show ?case by (auto simp: quiet_def)
next
  case (Cons a as)
  have e: "mail_each tn kind subject body expires (a # as) = then_do (claim_mail tn kind a subject body expires) (\<lambda>m. mail_each tn kind subject body expires as)"
    by (rule ext) simp
  show ?case unfolding e by (intro quiet_rules Cons)
qed

text \<open>A statement chosen by what it reads is quiet when every choice is.\<close>

lemma quiet_read: "(\<And>k. quiet (m k)) \<Longrightarrow> quiet (\<lambda>db. m (k db) db)"
  by (rule quietI) (blast dest: quietD quiet_total)+

lemma quiet_notice [quiet_rules]: "quiet (send_operator_notice tn addresses now)"
proof -
  have "quiet (\<lambda>db. then_do (mail_each tn kind subject (body db) expires addresses) (\<lambda>u d. Inr (length addresses, d)) db)" for kind subject body expires
    by (rule quiet_read) (intro quiet_rules)
  then show ?thesis by (simp add: send_operator_notice_def [abs_def])
qed

lemma quiet_send_when: "quiet (\<lambda>db. if due db = [] then Inr (0, db) else send_operator_notice tn (due db) (at db) db)"
proof -
  have "quiet (\<lambda>db. (\<lambda>(xs, t) d. if xs = [] then Inr (0, d) else send_operator_notice tn xs t d) (due db, at db) db)"
    by (rule quiet_read) (auto split: prod.split intro!: quiet_rules)
  then show ?thesis by simp
qed

lemma quiet_notify [quiet_rules]: "quiet (notify_operators tn at)"
  unfolding notify_operators_def [abs_def] Let_def by (rule quiet_send_when)

lemma quiet_flush: "quiet (flush_operator_notices tn now)"
  unfolding flush_operator_notices_def [abs_def] Let_def by (rule quiet_send_when)

text \<open>A statement that follows an append.\<close>

lemma quiet_shift:
  fixes f :: "'z claim_db_scheme \<Rightarrow> 'z claim_db_scheme"
  assumes q: "quiet m" and f: "\<And>db. aux_only db (f db)"
  shows "quiet (\<lambda>db. m (f db))"
proof (rule quietI)
  fix db x db' assume "m (f db) = Inr (x, db')"
  then show "aux_only db db'" using q f by (blast dest: quietD intro: aux_only_trans)
next
  fix db :: "'z claim_db_scheme" assume "in_atomic db"
  then have "in_atomic (f db)" using f [of db] by (simp add: aux_only_def)
  from quiet_total [OF q this] show "\<exists>x db'. m (f db) = Inr (x, db')" by blast
qed

lemma quiet_open_item [quiet_rules]: "quiet (open_item tn typ l u c rules actor)"
proof -
  let ?put = "\<lambda>it db. (case it of Inl old \<Rightarrow> db | Inr new \<Rightarrow> db\<lparr>items := items db @ [new], seq := Suc (seq db), draws := Suc (draws db)\<rparr>)"
  let ?say = "\<lambda>it. (case it of Inl old \<Rightarrow> (\<lambda>d. Inr (old, d))
     | Inr new \<Rightarrow> then_do (claim_emit MODERATION_QUEUED (it_public_id new) tn actor
                [(''item_type'', JStr (item_type_value typ)), (''item_id'', JStr (it_public_id new)),
                 (''claim_id'', jopt (\<lambda>x. JStr (cl_public_id x)) c), (''listing_id'', JStr (ls_public_id l)),
                 (''rules_triggered'', JList (map JStr rules)), (''priority'', JStr (priority new))]) (\<lambda>ev d. Inr (new, d)))"
  have "quiet (?say it)" for it by (cases it) (auto intro!: quiet_rules)
  then have "quiet (\<lambda>db. ?say it (?put it db))" for it
    by (rule quiet_shift) (simp add: aux_only_def split: sum.split)
  then have "quiet (\<lambda>db. ?say (k db) (?put (k db) db))" for k by (rule quiet_read)
  from this [of "\<lambda>db. case existing_item tn typ l u c db of Some it \<Rightarrow> Inl it | None \<Rightarrow> Inr (new_item tn typ l u c rules db)"]
  show ?thesis
    by (rule back_subst [where P = quiet]) (rule ext, simp add: open_item_def Let_def split: option.split)
qed

lemma quiet_decide_item [quiet_rules]: "quiet (decide_item tn it dec oper why actor now :: 'z claim_db_scheme \<Rightarrow> _)"
proof (rule quietI)
  fix db x db' assume "decide_item tn it dec oper why actor now db = Inr (x, db')"
  then show "aux_only db db'"
    unfolding decide_item_def by (auto dest!: quietD [OF quiet_emit, rotated] simp: save_item_def aux_only_def)
next
  fix db :: "'z claim_db_scheme" assume "in_atomic db"
  then show "\<exists>x db'. decide_item tn it dec oper why actor now db = Inr (x, db')"
    by (simp add: decide_item_def claim_emit_def emit_def save_item_def Let_def)
qed

lemma quiet_decide_claim_item [quiet_rules]: "quiet (decide_claim_item tn c dec oper why actor now)"
proof -
  have q: "quiet (case o' of None \<Rightarrow> (\<lambda>d. Inr ((), d)) | Some it \<Rightarrow> then_do (decide_item tn it dec oper why actor now) (\<lambda>ev d. Inr ((), d)))"
    for o' :: "moderation_item option"
    by (cases o') (auto intro!: quiet_rules)
  have e: "decide_claim_item tn c dec oper why actor now =
    (\<lambda>db. (case find (\<lambda>it. it_tenant it = tn_pk tn \<and> it_claim it = Some (cl_pk c) \<and> it_type it = I_DISPUTE \<and> it_open it) (items db) of
        None \<Rightarrow> (\<lambda>d. Inr ((), d)) | Some it \<Rightarrow> then_do (decide_item tn it dec oper why actor now) (\<lambda>ev d. Inr ((), d))) db)"
    by (rule ext) (simp add: decide_claim_item_def split: option.split)
  show ?thesis unfolding e using quiet_read [OF q] .
qed

lemma quiet_rest [quiet_rules]:
  "quiet (mail_rejection tn l u reason blocked lost now)"
  "quiet (notify_existing_contacts tn l u prev now)"
  "quiet (verification_failed tn c l u reason attempt cools)"
  unfolding mail_rejection_def notify_existing_contacts_def [abs_def] verification_failed_def Let_def
  by (intro quiet_rules)+

lemma quiet_owner_events [quiet_rules]: "quiet (owner_events tn c l u prev channels actor)"
  unfolding owner_events_def by (intro quiet_rules)

lemma quiet_user_created [quiet_rules]: "quiet (user_created tn u minted)"
  unfolding user_created_def [abs_def] by (intro quiet_rules)

subsection \<open>Rows and codes\<close>

lemma expire_frame [simp]:
  "guards (expire_pending_code c now db) = guards db" "claims (expire_pending_code c now db) = claims db"
  "listings (expire_pending_code c now db) = listings db" "users (expire_pending_code c now db) = users db"
  "memberships (expire_pending_code c now db) = memberships db" "operators (expire_pending_code c now db) = operators db"
  "commands (expire_pending_code c now db) = commands db" "wall (expire_pending_code c now db) = wall db"
  "in_atomic (expire_pending_code c now db) = in_atomic db" "seq (expire_pending_code c now db) = seq db" "tenants (expire_pending_code c now db) = tenants db"
  by (simp_all add: expire_pending_code_def split: option.split)

lemma lock_guard_cases:
  assumes "lock_guard tn lpk upk db = (g, db1)"
  obtains (found) "find_guard (tn_pk tn) lpk upk db = Some g" "db1 = db"
  | (made) "find_guard (tn_pk tn) lpk upk db = None" "g = fresh_guard (Suc (seq db)) (tn_pk tn) lpk upk"
      "db1 = db\<lparr>guards := guards db @ [g], seq := Suc (seq db)\<rparr>"
  using assms by (auto simp: lock_guard_def Let_def split: option.splits)

lemma load_claimD:
  assumes "load_claim tn pk db = Inr (c, l, u)"
  shows "find (\<lambda>c. cl_pk c = pk \<and> cl_tenant c = tn_pk tn) (claims db) = Some c" "c \<in> set (claims db)" "cl_pk c = pk" "cl_tenant c = tn_pk tn"
    "find_by ls_pk (cl_listing c) (listings db) = Some l" "find_by usr_pk (cl_claimant c) (users db) = Some u" "usr_pk u = cl_claimant c" "ls_pk l = cl_listing c"
  using assms by (auto simp: load_claim_def split: option.splits dest!: find_SomeD find_by_SomeD)

text \<open>Everything but the claims: what a dispute, and the disposal of the losers, leave alone.\<close>

definition but_claims :: "'z claim_db_scheme \<Rightarrow> 'z claim_db_scheme \<Rightarrow> bool" where
  "but_claims db db' \<longleftrightarrow> aux_only (db\<lparr>claims := []\<rparr>) (db'\<lparr>claims := []\<rparr>)"

lemma but_claims_trans: "but_claims a b \<Longrightarrow> but_claims b c \<Longrightarrow> but_claims a c"
  unfolding but_claims_def by (rule aux_only_trans)

lemma but_claims_aux: "aux_only a b \<Longrightarrow> but_claims a b"
  by (simp add: but_claims_def aux_only_def)

lemma but_claimsD:
  assumes "but_claims db db'"
  shows "guards db' = guards db" "listings db' = listings db" "users db' = users db" "memberships db' = memberships db"
    "operators db' = operators db" "commands db' = commands db" "wall db' = wall db" "in_atomic db' = in_atomic db" "seq db \<le> seq db'"
  using assms by (simp_all add: but_claims_def aux_only_def)

lemma dispute_effect:
  assumes "dispute tn c l u actor db = Inr ((ev, c'), db')"
  shows "claims db' = update_where (\<lambda>r. cl_pk r = cl_pk c) dispute_fields (claims db)" "but_claims db db'" "c' = dispute_fields c"
proof -
  let ?m = "then_do (claim_emit CLAIM_DISPUTED (cl_public_id c) tn actor
        [(''claim'', JObj [(''id'', JStr (cl_public_id c)), (''listing_id'', JStr (ls_public_id l))])]) (\<lambda>ev.
     then_do (open_item tn I_DISPUTE l u (Some c) [''duplicate_claim''] actor) (\<lambda>it.
     then_do (notify_operators tn None) (\<lambda>n d. Inr ((ev, dispute_fields c), d))))"
  have "quiet ?m" by (intro quiet_rules)
  from quietD [OF this] assms have "aux_only (save_claim c dispute_fields db) db'" by (simp add: dispute_def)
  then show "claims db' = update_where (\<lambda>r. cl_pk r = cl_pk c) dispute_fields (claims db)" "but_claims db db'"
    by (simp_all add: aux_only_def but_claims_def save_claim_def)
  show "c' = dispute_fields c" using assms by (auto simp: dispute_def then_do_Inr)
qed

lemma dispute_total: "in_atomic db \<Longrightarrow> \<exists>r db'. dispute tn c l u actor db = Inr (r, db')"
proof -
  assume "in_atomic db"
  then have a: "in_atomic (save_claim c dispute_fields db)" by (simp add: save_claim_def)
  have "quiet (then_do (claim_emit CLAIM_DISPUTED (cl_public_id c) tn actor
        [(''claim'', JObj [(''id'', JStr (cl_public_id c)), (''listing_id'', JStr (ls_public_id l))])]) (\<lambda>ev.
     then_do (open_item tn I_DISPUTE l u (Some c) [''duplicate_claim''] actor) (\<lambda>it.
     then_do (notify_operators tn None) (\<lambda>n d. Inr ((ev, dispute_fields c), d)))))" by (intro quiet_rules)
  from quiet_total [OF this a] show ?thesis by (auto simp: dispute_def)
qed

subsection \<open>Losers\<close>

lemma loser_fields_simps [simp]:
  "cl_pk (loser_fields now r) = cl_pk r" "cl_tenant (loser_fields now r) = cl_tenant r" "cl_listing (loser_fields now r) = cl_listing r"
  "cl_claimant (loser_fields now r) = cl_claimant r" "cl_status (loser_fields now r) = C_REJECTED" "loser_fields now (loser_fields now r) = loser_fields now r"
  by (simp_all add: loser_fields_def)

lemma reject_loser_steps:
  assumes "find_by usr_pk (cl_claimant c) (users db) = Some u"
  obtains m where "quiet m" "reject_loser tn l now c db = m (save_claim c (loser_fields now) (expire_pending_code c now db))"
proof
  show "reject_loser tn l now c db =
    then_do (claim_emit CLAIM_REJECTED (cl_public_id c) tn [(''type'', JStr ''system''), (''id'', JStr ''claim.approve'')]
             [(''claim'', claim_ref (loser_fields now c) l), (''reason'', JStr LOSER_REASON), (''decided_by'', JStr ''system'')]) (\<lambda>ev.
          then_do (mail_rejection tn l u LOSER_REASON False True now) (\<lambda>m d. Inr ((), d)))
            (save_claim c (loser_fields now) (expire_pending_code c now db))"
    using assms by (simp add: reject_loser_def)
qed (intro quiet_rules)

lemma reject_loser_effect:
  assumes "reject_loser tn l now c db = Inr (x, db')"
  shows "claims db' = update_where (\<lambda>r. cl_pk r = cl_pk c) (loser_fields now) (claims db) \<and> but_claims db db'"
proof -
  from assms obtain u where u: "find_by usr_pk (cl_claimant c) (users db) = Some u" by (auto simp: reject_loser_def split: option.splits)
  from reject_loser_steps [OF u] obtain m where "quiet m" "m (save_claim c (loser_fields now) (expire_pending_code c now db)) = Inr (x, db')"
    using assms by metis
  from quietD [OF this] show ?thesis by (simp add: aux_only_def but_claims_def save_claim_def)
qed

lemma reject_loser_total:
  assumes "in_atomic db" "find_by usr_pk (cl_claimant c) (users db) \<noteq> None"
  shows "\<exists>db'. reject_loser tn l now c db = Inr ((), db')"
proof -
  from assms(2) obtain u where u: "find_by usr_pk (cl_claimant c) (users db) = Some u" by blast
  from reject_loser_steps [OF u] obtain m where m: "quiet m"
    "reject_loser tn l now c db = m (save_claim c (loser_fields now) (expire_pending_code c now db))" by metis
  have "in_atomic (save_claim c (loser_fields now) (expire_pending_code c now db))" using assms(1) by (simp add: save_claim_def)
  from quiet_total [OF m(1) this] m(2) show ?thesis by auto
qed

lemma reject_each_effect:
  "reject_each tn l now cs db = Inr (x, db') \<Longrightarrow>
   claims db' = update_where (\<lambda>r. cl_pk r \<in> cl_pk ` set cs) (loser_fields now) (claims db) \<and> but_claims db db'"
proof (induction cs arbitrary: db)
  case Nil
  then show ?case by (simp add: but_claims_def update_where_none)
next
  case (Cons c cs)
  then obtain db1 where r: "reject_loser tn l now c db = Inr ((), db1)" "reject_each tn l now cs db1 = Inr (x, db')"
    by (auto simp: then_do_Inr)
  from reject_loser_effect [OF r(1)] Cons.IH [OF r(2)] show ?case
    by (auto simp: update_where_def intro: but_claims_trans)
qed

lemma reject_each_total:
  "in_atomic db \<Longrightarrow> \<forall>c \<in> set cs. find_by usr_pk (cl_claimant c) (users db) \<noteq> None \<Longrightarrow> \<exists>db'. reject_each tn l now cs db = Inr ((), db')"
proof (induction cs arbitrary: db)
  case (Cons c cs)
  then obtain db1 where r: "reject_loser tn l now c db = Inr ((), db1)" using reject_loser_total by fastforce
  from reject_loser_effect [OF r] have "in_atomic db1" "users db1 = users db" using Cons.prems(1) by (auto dest: but_claimsD)
  with Cons r show ?case by (auto simp: then_do_Inr)
qed simp

end
