(* ===== verification/Claim_Steps.thy ===== *)
theory Claim_Steps
  imports Claim_Frames
begin

section \<open>Claim commands as sequences of row steps\<close>

text \<open>
  A claim command is a sequence of small writes of the claim tables. \<open>row_step\<close> lists them with the label of the two that concern
  code guessing; \<open>row_steps\<close> is a sequence with its labels. Every transaction of the claim commands is such a sequence, so an
  invariant of the tables is proved once, step by step. \<open>claims_ok\<close> is that invariant.
\<close>

subsection \<open>The invariant\<close>

definition guard_ok :: "guard \<Rightarrow> bool" where
  "guard_ok g \<longleftrightarrow> wrong_entries g < MAX_WRONG_ENTRIES \<and> cooldowns g \<le> MAX_COOLDOWNS
     \<and> (cooldowns g = MAX_COOLDOWNS \<longrightarrow> wrong_entries g = 0 \<and> verification_locked_at g \<noteq> None)"

definition pair_of :: "guard \<Rightarrow> nat \<times> nat \<times> nat" where
  "pair_of g = (gd_tenant g, gd_listing g, gd_claimant g)"

definition keys_ok :: "'z claim_db_scheme \<Rightarrow> bool" where
  "keys_ok db \<longleftrightarrow> distinct (map cl_pk (claims db)) \<and> distinct (map gd_pk (guards db)) \<and> distinct (map pair_of (guards db))
     \<and> distinct (map usr_pk (users db)) \<and> distinct (map ls_pk (listings db))
     \<and> (\<forall>c \<in> set (claims db). cl_pk c \<le> seq db) \<and> (\<forall>g \<in> set (guards db). gd_pk g \<le> seq db) \<and> (\<forall>u \<in> set (users db). usr_pk u \<le> seq db)"

definition fk_ok :: "'z claim_db_scheme \<Rightarrow> claim \<Rightarrow> bool" where
  "fk_ok db c \<longleftrightarrow> (cl_listing c, cl_tenant c) \<in> (\<lambda>l. (ls_pk l, ls_tenant l)) ` set (listings db) \<and> cl_claimant c \<in> usr_pk ` set (users db)"

definition owner_ok :: "'z claim_db_scheme \<Rightarrow> claim \<Rightarrow> bool" where
  "owner_ok db c \<longleftrightarrow> (cl_status c = C_APPROVED \<longrightarrow>
     (\<forall>l \<in> set (listings db). ls_pk l = cl_listing c \<longrightarrow> ls_owner l = Some (cl_claimant c))
     \<and> (\<forall>c' \<in> set (claims db). cl_status c' = C_APPROVED \<and> cl_listing c' = cl_listing c \<longrightarrow> c' = c))"

definition claims_ok :: "'z claim_db_scheme \<Rightarrow> bool" where
  "claims_ok db \<longleftrightarrow> keys_ok db \<and> (\<forall>g \<in> set (guards db). guard_ok g) \<and> (\<forall>c \<in> set (claims db). fk_ok db c \<and> owner_ok db c)"

subsection \<open>Steps\<close>

text \<open>Writes of other tables, and of listing columns other than key, tenant and owner.\<close>

definition outside :: "'z claim_db_scheme \<Rightarrow> 'z claim_db_scheme \<Rightarrow> bool" where
  "outside db db' \<longleftrightarrow> guards db' = guards db \<and> claims db' = claims db \<and> users db' = users db
     \<and> map (\<lambda>l. (ls_pk l, ls_tenant l, ls_owner l)) (listings db') = map (\<lambda>l. (ls_pk l, ls_tenant l, ls_owner l)) (listings db) \<and> seq db \<le> seq db'"

lemma outside_refl [simp]: "outside db db"
  by (simp add: outside_def)

lemma outside_aux: "aux_only db db' \<Longrightarrow> outside db db'"
  by (simp add: outside_def aux_only_def)

lemma outside_counted: "only_counted db db' \<Longrightarrow> outside db db'"
  by (auto simp: outside_def only_counted_def)

lemma outside_log [simp]:
  "outside db (log_conclude row outc eid prob np db')  = outside db db'"
  "outside db (expire_pending_code c now db') = outside db db'"
  "outside db (db'\<lparr>in_atomic := b\<rparr>) = outside db db'"
  "outside (db\<lparr>in_atomic := b\<rparr>) db' = outside db db'"
  by (simp_all add: outside_def log_conclude_def)

datatype label = Wrong nat nat nat | Unlocked nat nat nat

text \<open>Which updates of a claim row and of a guard row a step may make without a label.\<close>

definition keeps_claim :: "(claim \<Rightarrow> claim) \<Rightarrow> bool" where
  "keeps_claim f \<longleftrightarrow> (\<forall>r. cl_pk (f r) = cl_pk r \<and> cl_tenant (f r) = cl_tenant r \<and> cl_listing (f r) = cl_listing r \<and> cl_claimant (f r) = cl_claimant r
     \<and> (cl_status (f r) = C_APPROVED \<longrightarrow> cl_status r = C_APPROVED))"

definition keeps_guard :: "(guard \<Rightarrow> guard) \<Rightarrow> bool" where
  "keeps_guard f \<longleftrightarrow> (\<forall>r. gd_pk (f r) = gd_pk r \<and> pair_of (f r) = pair_of r \<and> wrong_entries (f r) = wrong_entries r \<and> cooldowns (f r) = cooldowns r
     \<and> verification_locked_at (f r) = verification_locked_at r)"

inductive row_step :: "label option \<Rightarrow> 'z claim_db_scheme \<Rightarrow> 'z claim_db_scheme \<Rightarrow> bool" where
  other: "outside db db' \<Longrightarrow> row_step None db db'"
| new_guard: "find_guard t lpk upk db = None \<Longrightarrow>
    row_step None db (db\<lparr>guards := guards db @ [fresh_guard (Suc (seq db)) t lpk upk], seq := Suc (seq db)\<rparr>)"
| new_user: "usr_pk u = Suc (seq db) \<Longrightarrow> row_step None db (db\<lparr>users := users db @ [u], seq := Suc (seq db), draws := n\<rparr>)"
| insert_claim: "cl_pk c = Suc (seq db) \<Longrightarrow> cl_status c = C_PENDING \<Longrightarrow> fk_ok db c \<Longrightarrow>
    row_step None db (db\<lparr>claims := claims db @ [c], seq := Suc (seq db)\<rparr>)"
| claim_write: "keeps_claim f \<Longrightarrow> row_step None db (save_claim c f db)"
| guard_write: "keeps_guard f \<Longrightarrow> row_step None db (save_guard g f db)"
| wrong: "find_guard t lpk upk db = Some g \<Longrightarrow> verification_locked_at g = None \<Longrightarrow>
    row_step (Some (Wrong t lpk upk)) db (save_guard g (\<lambda>r. fst (count_wrong now r)) db)"
| unlocked: "find_guard t lpk upk db = Some g \<Longrightarrow> row_step (Some (Unlocked t lpk upk)) db (save_guard g unlock_fields db)"
| approved: "r \<in> set (claims db) \<Longrightarrow> cl_pk r = cl_pk c \<Longrightarrow> cl_tenant r = tn_pk tn \<Longrightarrow> cl_listing r = ls_pk l \<Longrightarrow> cl_claimant r = usr_pk u \<Longrightarrow>
    row_step None db (assign_owner l u (save_claim c (approve_fields now manual) (supersede tn l c db)))"

fun labels :: "label option \<Rightarrow> label list" where
  "labels None = []"
| "labels (Some x) = [x]"

inductive row_steps :: "label list \<Rightarrow> 'z claim_db_scheme \<Rightarrow> 'z claim_db_scheme \<Rightarrow> bool" where
  done_steps: "row_steps [] db db"
| more_steps: "row_step x db db1 \<Longrightarrow> row_steps xs db1 db2 \<Longrightarrow> row_steps (labels x @ xs) db db2"

lemma row_steps_trans: "row_steps xs a b \<Longrightarrow> row_steps ys b c \<Longrightarrow> row_steps (xs @ ys) a c"
  by (induction rule: row_steps.induct) (auto intro: row_steps.more_steps)

lemma row_steps_one: "row_step x a b \<Longrightarrow> row_steps (labels x) a b"
  using row_steps.more_steps [OF _ done_steps] by simp

lemma row_steps_silent: "row_step None a b \<Longrightarrow> row_steps [] a b"
  using row_steps_one [of None] by simp

lemma row_steps_before: "row_steps [] a b \<Longrightarrow> row_steps xs b c \<Longrightarrow> row_steps xs a c"
  using row_steps_trans [of "[]"] by simp

lemma row_steps_after: "row_steps xs a b \<Longrightarrow> row_steps [] b c \<Longrightarrow> row_steps xs a c"
  using row_steps_trans [of xs _ _ "[]"] by simp

lemma row_steps_outside: "outside a b \<Longrightarrow> row_steps [] a b"
  by (rule row_steps_silent) (rule other)

subsection \<open>Every step keeps the invariant\<close>

lemma same_key: "distinct (map key xs) \<Longrightarrow> x \<in> set xs \<Longrightarrow> y \<in> set xs \<Longrightarrow> key x = key y \<Longrightarrow> x = y"
  by (auto simp: distinct_map dest: inj_onD)

lemma save_claim_rows: "claims (save_claim c f db) = map (\<lambda>r. if cl_pk r = cl_pk c then f r else r) (claims db)"
  by (simp add: save_claim_def update_where_def)

lemma guard_ok_fresh [simp]: "guard_ok (fresh_guard pk t lpk upk)"
  by (simp add: guard_ok_def fresh_guard_def MAX_WRONG_ENTRIES_def MAX_COOLDOWNS_def)

lemma guard_ok_wrong: "guard_ok g \<Longrightarrow> verification_locked_at g = None \<Longrightarrow> guard_ok (fst (count_wrong now g))"
  by (auto simp: guard_ok_def count_wrong_def Let_def MAX_WRONG_ENTRIES_def MAX_COOLDOWNS_def)

lemma guard_ok_unlock [simp]: "guard_ok (unlock_fields g)"
  by (simp add: guard_ok_def unlock_fields_def MAX_WRONG_ENTRIES_def MAX_COOLDOWNS_def)

lemma guard_ok_keeps: "keeps_guard f \<Longrightarrow> guard_ok (f g) = guard_ok g"
  by (simp add: keeps_guard_def guard_ok_def)

lemma count_wrong_keys [simp]: "gd_pk (fst (count_wrong now g)) = gd_pk g" "pair_of (fst (count_wrong now g)) = pair_of g"
  by (simp_all add: count_wrong_def Let_def pair_of_def)

lemma unlock_keys [simp]: "gd_pk (unlock_fields g) = gd_pk g" "pair_of (unlock_fields g) = pair_of g"
  by (simp_all add: unlock_fields_def pair_of_def)

lemma find_guard_pair: "find_guard t lpk upk db = find (\<lambda>g. pair_of g = (t, lpk, upk)) (guards db)"
  by (simp add: find_guard_def pair_of_def)

text \<open>An update of one guard by its key touches the row that was read and no other.\<close>

lemma guards_save:
  assumes ok: "claims_ok db" and g: "find_guard t lpk upk db = Some g"
    and f: "\<And>r. gd_pk (f r) = gd_pk r" "\<And>r. pair_of (f r) = pair_of r" and new: "guard_ok (f g)"
  shows "claims_ok (save_guard g f db)"
proof -
  from g have gin: "g \<in> set (guards db)" by (auto simp: find_guard_def dest: find_SomeD)
  have only: "r = g" if "r \<in> set (guards db)" "gd_pk r = gd_pk g" for r
    using that gin ok same_key [of gd_pk "guards db" r g] by (simp add: claims_ok_def keys_ok_def)
  have m: "map gd_pk (update_where P f (guards db)) = map gd_pk (guards db)" "map pair_of (update_where P f (guards db)) = map pair_of (guards db)" for P
    by (simp_all add: map_update_where f)
  have "guard_ok r \<and> gd_pk r \<le> seq db" if "r \<in> set (update_where (\<lambda>r. gd_pk r = gd_pk g) f (guards db))" for r
    using that only new ok by (auto simp: set_update_where f claims_ok_def keys_ok_def split: if_splits)
  with ok show ?thesis unfolding claims_ok_def
    by (simp add: keys_ok_def save_guard_def m fk_ok_def owner_ok_def)
qed

lemma claims_ok_guard_write:
  assumes ok: "claims_ok db" and f: "keeps_guard f"
  shows "claims_ok (save_guard g f db)"
proof -
  have m: "map gd_pk (update_where P f (guards db)) = map gd_pk (guards db)" "map pair_of (update_where P f (guards db)) = map pair_of (guards db)" for P
    using f by (simp_all add: map_update_where keeps_guard_def)
  have "gd_pk (f r) = gd_pk r" for r using f by (simp add: keeps_guard_def)
  with ok show ?thesis unfolding claims_ok_def
    by (auto simp: keys_ok_def save_guard_def m set_update_where fk_ok_def owner_ok_def guard_ok_keeps [OF f])
qed

lemma claims_ok_new_guard:
  assumes ok: "claims_ok db" and "find_guard t lpk upk db = None"
  shows "claims_ok (db\<lparr>guards := guards db @ [fresh_guard (Suc (seq db)) t lpk upk], seq := Suc (seq db)\<rparr>)"
proof -
  have "(t, lpk, upk) \<notin> pair_of ` set (guards db)" using assms(2) by (auto simp: find_guard_pair find_None_iff)
  moreover have "pair_of (fresh_guard k t lpk upk) = (t, lpk, upk)" "gd_pk (fresh_guard k t lpk upk) = k" for k
    by (simp_all add: pair_of_def fresh_guard_def)
  ultimately show ?thesis using ok
    by (auto simp: claims_ok_def keys_ok_def fk_ok_def owner_ok_def)
qed

lemma claims_ok_outside:
  fixes db db' :: "'z claim_db_scheme"
  assumes ok: "claims_ok db" and o': "outside db db'"
  shows "claims_ok db'"
proof -
  from o' have eq: "guards db' = guards db" "claims db' = claims db" "users db' = users db" "seq db \<le> seq db'"
    and m: "map (\<lambda>l. (ls_pk l, ls_tenant l, ls_owner l)) (listings db') = map (\<lambda>l. (ls_pk l, ls_tenant l, ls_owner l)) (listings db)"
    by (simp_all add: outside_def)
  have pk: "map ls_pk (listings db') = map ls_pk (listings db)" using arg_cong [OF m, of "map fst"] by (simp add: comp_def)
  have tn: "(\<lambda>l. (ls_pk l, ls_tenant l)) ` set (listings db') = (\<lambda>l. (ls_pk l, ls_tenant l)) ` set (listings db)"
    using arg_cong [OF m, of "\<lambda>xs. (\<lambda>(a, b, c). (a, b)) ` set xs"] by (simp add: image_image)
  have ow: "(\<lambda>l. (ls_pk l, ls_owner l)) ` set (listings db') = (\<lambda>l. (ls_pk l, ls_owner l)) ` set (listings db)"
    using arg_cong [OF m, of "\<lambda>xs. (\<lambda>(a, b, c). (a, c)) ` set xs"] by (simp add: image_image)
  have own: "(\<forall>l \<in> set (listings db'). ls_pk l = k \<longrightarrow> ls_owner l = v) = (\<forall>l \<in> set (listings db). ls_pk l = k \<longrightarrow> ls_owner l = v)" for k v
  proof -
    have e: "(\<forall>l \<in> set (listings d). ls_pk l = k \<longrightarrow> ls_owner l = v) = (\<forall>(a, b) \<in> (\<lambda>l. (ls_pk l, ls_owner l)) ` set (listings d). a = k \<longrightarrow> b = v)"
      for d :: "'z claim_db_scheme" by auto
    show ?thesis unfolding e [of db'] e [of db] ow ..
  qed
  from ok eq show ?thesis
    unfolding claims_ok_def keys_ok_def fk_ok_def owner_ok_def pk tn own by (auto intro: order_trans)
qed

lemma claims_ok_claim_write:
  assumes ok: "claims_ok db" and f: "keeps_claim f"
  shows "claims_ok (save_claim c f db)"
proof -
  have k: "cl_pk (f r) = cl_pk r" "cl_tenant (f r) = cl_tenant r" "cl_listing (f r) = cl_listing r" "cl_claimant (f r) = cl_claimant r"
    "cl_status (f r) = C_APPROVED \<Longrightarrow> cl_status r = C_APPROVED" for r using f by (simp_all add: keeps_claim_def)
  have m: "map cl_pk (update_where P f (claims db)) = map cl_pk (claims db)" for P by (simp add: map_update_where k)
  have own: "owner_ok (save_claim c f db) (if cl_pk r = cl_pk c then f r else r)" if r: "r \<in> set (claims db)" for r
  proof -
    have "owner_ok db r" using ok r by (simp add: claims_ok_def)
    then show ?thesis using r by (auto simp: owner_ok_def save_claim_def set_update_where k dest!: k(5))
  qed
  have "fk_ok (save_claim c f db) (if cl_pk r = cl_pk c then f r else r)" if r: "r \<in> set (claims db)" for r
    using ok r by (auto simp: claims_ok_def fk_ok_def save_claim_def k)
  with own have "fk_ok (save_claim c f db) (if cl_pk r = cl_pk c then f r else r) \<and> owner_ok (save_claim c f db) (if cl_pk r = cl_pk c then f r else r)"
    if "r \<in> set (claims db)" for r using that by blast
  then have "\<forall>r \<in> set (claims (save_claim c f db)). fk_ok (save_claim c f db) r \<and> owner_ok (save_claim c f db) r"
    unfolding save_claim_rows set_map by (intro ballI) (elim imageE, blast)
  moreover have "keys_ok (save_claim c f db)" "guards (save_claim c f db) = guards db"
    using ok by (auto simp: claims_ok_def keys_ok_def save_claim_def m set_update_where k)
  ultimately show ?thesis using ok by (simp add: claims_ok_def)
qed

lemma claims_ok_approved:
  assumes ok: "claims_ok db" and r: "r \<in> set (claims db)" "cl_pk r = cl_pk c" "cl_tenant r = tn_pk tn" "cl_listing r = ls_pk l" "cl_claimant r = usr_pk u"
  shows "claims_ok (assign_owner l u (save_claim c (approve_fields now manual) (supersede tn l c db)))" (is "claims_ok ?db'")
proof -
  define h where "h x = (if cl_pk x = cl_pk c then approve_fields now manual x
    else if cl_tenant x = tn_pk tn \<and> cl_listing x = ls_pk l \<and> cl_status x = C_APPROVED then x\<lparr>cl_status := C_SUPERSEDED\<rparr> else x)" for x
  have af: "cl_pk (approve_fields now manual x) = cl_pk x" "cl_tenant (approve_fields now manual x) = cl_tenant x"
    "cl_listing (approve_fields now manual x) = cl_listing x" "cl_claimant (approve_fields now manual x) = cl_claimant x" for x
    by (simp_all add: approve_fields_def Let_def split: option.split)
  have cs: "claims ?db' = map h (claims db)"
    by (simp add: assign_owner_def save_claim_def supersede_def update_where_def h_def)
  have ls: "listings ?db' = update_where (\<lambda>r. ls_pk r = ls_pk l) (\<lambda>r. r\<lparr>ls_owner := Some (usr_pk u), ls_status := L_CLAIMED\<rparr>) (listings db)"
    by (simp add: assign_owner_def save_claim_def supersede_def)
  have rest: "guards ?db' = guards db" "users ?db' = users db" "seq ?db' = seq db"
    by (simp_all add: assign_owner_def save_claim_def supersede_def)
  have hk: "cl_pk (h x) = cl_pk x" "cl_tenant (h x) = cl_tenant x" "cl_listing (h x) = cl_listing x" "cl_claimant (h x) = cl_claimant x" for x
    by (simp_all add: h_def af)
  have pks: "map cl_pk (claims ?db') = map cl_pk (claims db)" unfolding cs by (simp add: comp_def hk)
  have lpks: "map ls_pk (listings ?db') = map ls_pk (listings db)" unfolding ls by (simp add: map_update_where)
  have only: "x = r" if "x \<in> set (claims db)" "cl_pk x = cl_pk c" for x
    using that r ok same_key [of cl_pk "claims db" x r] by (simp add: claims_ok_def keys_ok_def)
  have tenant: "cl_tenant x = tn_pk tn" if "x \<in> set (claims db)" "cl_listing x = ls_pk l" for x
  proof -
    have "fk_ok db x" "fk_ok db r" "distinct (map ls_pk (listings db))" using ok that r by (simp_all add: claims_ok_def keys_ok_def)
    then show ?thesis using that r by (auto simp: fk_ok_def distinct_map dest: inj_onD)
  qed
  have fk: "fk_ok ?db' (h x)" if "x \<in> set (claims db)" for x
  proof -
    have "(\<lambda>l. (ls_pk l, ls_tenant l)) ` set (listings ?db') = (\<lambda>l. (ls_pk l, ls_tenant l)) ` set (listings db)"
      unfolding ls update_where_def set_map image_image by (rule image_cong) auto
    moreover have "fk_ok db x" using ok that by (simp add: claims_ok_def)
    ultimately show ?thesis unfolding fk_ok_def hk rest by simp
  qed
  have own: "owner_ok ?db' (h x)" if x: "x \<in> set (claims db)" for x
  proof (cases "cl_listing x = ls_pk l")
    case True
    then have "cl_status (h x) = C_APPROVED \<longleftrightarrow> x = r"
      using only [OF x] r tenant [OF x] by (auto simp: h_def approve_fields_def Let_def split: option.splits)
    moreover have "y = r" if "y \<in> set (claims db)" "cl_status (h y) = C_APPROVED" "cl_listing y = ls_pk l" for y
      using that only [of y] tenant [of y] by (auto simp: h_def split: if_splits)
    moreover have "ls_owner k = Some (usr_pk u)" if "k \<in> set (listings ?db')" "ls_pk k = ls_pk l" for k
      using that by (auto simp: ls update_where_def split: if_splits)
    ultimately show ?thesis using True r(4,5) unfolding owner_ok_def cs set_map by (metis hk(3,4) imageE)
  next
    case False
    then have hx: "h x = x" using only [OF x] r by (auto simp: h_def)
    have o': "owner_ok db x" using ok x by (simp add: claims_ok_def)
    have keep: "h y = y" if "y \<in> set (claims db)" "cl_listing y \<noteq> ls_pk l" for y using only [OF that(1)] r that by (auto simp: h_def)
    have old: "k \<in> set (listings db)" if "k \<in> set (listings ?db')" "ls_pk k \<noteq> ls_pk l" for k
      using that by (auto simp: ls set_update_where split: if_splits)
    show ?thesis unfolding hx owner_ok_def
    proof (intro impI conjI ballI)
      fix k assume "cl_status x = C_APPROVED" "k \<in> set (listings ?db')" "ls_pk k = cl_listing x"
      with old [of k] False o' show "ls_owner k = Some (cl_claimant x)" by (simp add: owner_ok_def)
    next
      fix y' assume a: "cl_status x = C_APPROVED" "y' \<in> set (claims ?db')" "cl_status y' = C_APPROVED \<and> cl_listing y' = cl_listing x"
      then obtain y where y: "y \<in> set (claims db)" "y' = h y" unfolding cs by auto
      with a(3) False keep [OF y(1)] have "y' = y" "cl_listing y = cl_listing x" by (simp_all add: hk)
      with a y o' show "y' = x" by (simp add: owner_ok_def)
    qed
  qed
  have "keys_ok ?db'" using ok unfolding claims_ok_def keys_ok_def lpks rest cs by (simp add: hk comp_def)
  then show ?thesis using ok fk own unfolding claims_ok_def rest cs by auto
qed

lemma claims_ok_new_user:
  assumes "claims_ok db" "usr_pk u = Suc (seq db)"
  shows "claims_ok (db\<lparr>users := users db @ [u], seq := Suc (seq db), draws := n\<rparr>)"
  using assms by (auto simp: claims_ok_def keys_ok_def fk_ok_def owner_ok_def)

lemma claims_ok_insert:
  assumes "claims_ok db" "cl_pk c = Suc (seq db)" "cl_status c = C_PENDING" "fk_ok db c"
  shows "claims_ok (db\<lparr>claims := claims db @ [c], seq := Suc (seq db)\<rparr>)"
  using assms by (auto simp: claims_ok_def keys_ok_def fk_ok_def owner_ok_def)

lemma claims_ok_step: "row_step x db db' \<Longrightarrow> claims_ok db \<Longrightarrow> claims_ok db'"
proof (induction rule: row_step.induct)
  case (wrong t lpk upk db g now)
  then have "guard_ok g" by (auto simp: claims_ok_def find_guard_def dest: find_SomeD)
  with wrong show ?case by (intro guards_save) (simp_all add: guard_ok_wrong)
next
  case (unlocked t lpk upk db g)
  then show ?case by (intro guards_save) simp_all
qed (simp_all add: claims_ok_outside claims_ok_new_guard claims_ok_new_user claims_ok_insert claims_ok_claim_write claims_ok_guard_write claims_ok_approved)

lemma claims_ok_steps: "row_steps xs db db' \<Longrightarrow> claims_ok db \<Longrightarrow> claims_ok db'"
  by (induction rule: row_steps.induct) (auto intro: claims_ok_step)

end
