(* ===== verification/Claim_Traces.thy ===== *)
theory Claim_Traces
  imports Claim_Steps
begin

section \<open>What the claim transactions may write\<close>

text \<open>
  The statements of the claim commands are built from a few writes. \<open>claim_frame\<close> is the contract of a relation between states that
  is closed under those writes and under sequencing: every statement that makes no labelled write (\<open>stays\<close>) then stays within the
  relation. \<open>guard_frame\<close> adds any write of a guard. The theory \<open>Claim_Runs\<close> uses two relations: a sequence of unlabelled row steps, and equality of
  the listings.
\<close>

definition log_only :: "'z claim_db_scheme \<Rightarrow> 'z claim_db_scheme \<Rightarrow> bool" where
  "log_only db db' \<longleftrightarrow> guards db' = guards db \<and> claims db' = claims db \<and> users db' = users db \<and> listings db' = listings db
     \<and> wall db' = wall db \<and> seq db \<le> seq db'"

lemma log_only_refl [simp]: "log_only db db"
  by (simp add: log_only_def)

lemma log_only_trans: "log_only a b \<Longrightarrow> log_only b c \<Longrightarrow> log_only a c"
  by (auto simp: log_only_def)

lemma log_only_aux: "aux_only db db' \<Longrightarrow> log_only db db'"
  by (simp add: log_only_def aux_only_def)

lemma log_only_counted: "only_counted db db' \<Longrightarrow> log_only db db'"
  by (auto simp: log_only_def only_counted_def)

lemma log_only_outside: "log_only db db' \<Longrightarrow> outside db db'"
  by (simp add: log_only_def outside_def)

lemma log_only_simps [simp]:
  "log_only db (log_conclude row outc eid prob np db')  = log_only db db'"
  "log_only db (expire_pending_code c now db') = log_only db db'"
  "log_only db (db'\<lparr>in_atomic := b\<rparr>) = log_only db db'"
  "log_only (db\<lparr>in_atomic := b\<rparr>) db' = log_only db db'"
  by (simp_all add: log_only_def log_conclude_def)

definition stays :: "('z claim_db_scheme \<Rightarrow> 'z claim_db_scheme \<Rightarrow> bool) \<Rightarrow> ('z claim_db_scheme \<Rightarrow> claim_error + 'a \<times> 'z claim_db_scheme) \<Rightarrow> bool" where
  "stays R m \<longleftrightarrow> (\<forall>db x db'. m db = Inr (x, db') \<longrightarrow> R db db')"

lemma staysI: "(\<And>db x db'. m db = Inr (x, db') \<Longrightarrow> R db db') \<Longrightarrow> stays R m"
  by (simp add: stays_def)

lemma staysD: "stays R m \<Longrightarrow> m db = Inr (x, db') \<Longrightarrow> R db db'"
  by (simp add: stays_def)

lemma keeps_claim_rules [simp]:
  "keeps_claim dispute_fields" "keeps_claim (loser_fields now)" "keeps_claim (flip_fields reason)" "keeps_claim (verified_fields now)"
  "keeps_claim (wrong_fields reason)" "keeps_claim (code_fields hash now expires msg)" "keeps_claim (reject_fields oper why now)"
  by (simp_all add: keeps_claim_def dispute_fields_def loser_fields_def flip_fields_def verified_fields_def wrong_fields_def code_fields_def reject_fields_def Let_def)

lemma keeps_guard_rules [simp]:
  "keeps_guard (sent_fields now start n)" "keeps_guard (count_rejection now)" "keeps_guard (\<lambda>r. r)" "keeps_guard (\<lambda>r. r\<lparr>claim_blocked_at := None\<rparr>)"
  by (simp_all add: keeps_guard_def sent_fields_def count_rejection_def Let_def pair_of_def)

definition listing_known :: "tenant \<Rightarrow> listing \<Rightarrow> 'z claim_db_scheme \<Rightarrow> bool" where
  "listing_known tn l db \<longleftrightarrow> (ls_pk l, tn_pk tn) \<in> (\<lambda>r. (ls_pk r, ls_tenant r)) ` set (listings db)"

text \<open>The statements after the writes of an approval, and of a rejection.\<close>

definition approval_tail :: "world \<Rightarrow> tenant \<Rightarrow> claim \<Rightarrow> listing \<Rightarrow> user \<Rightarrow> dict \<Rightarrow> instant \<Rightarrow> manual_facts option \<Rightarrow> user option
    \<Rightarrow> 'z claim_db_scheme \<Rightarrow> claim_error + (string \<times> claim) \<times> 'z claim_db_scheme" where
  "approval_tail w tn c l u actor now manual prev =
     then_do (notify_existing_contacts tn l u prev now) (\<lambda>channels.
     then_do (claim_emit CLAIM_APPROVED (cl_public_id c) tn actor (approval_data (approve_fields now manual c) l (prev \<noteq> None) (channels \<noteq> []) now manual)) (\<lambda>approved.
     then_do (owner_events tn (approve_fields now manual c) l u prev channels actor) (\<lambda>v.
     then_do (reject_losers w tn c l now) (\<lambda>v.
     then_do (case manual of None \<Rightarrow> (\<lambda>d. Inr ((), d))
        | Some f \<Rightarrow> decide_claim_item tn (approve_fields now manual c) ''approved'' (mf_operator f) (mf_notes f) actor now)
       (\<lambda>v d. Inr ((event_id approved, approve_fields now manual c), d))))))"

lemma quiet_reject_notices: "quiet (reject_notices tn oper why blocked actor now c l u)"
  unfolding reject_notices_def by (intro quiet_rules)

lemma log_only_consents: "log_only db (record_consents tn c cs ip label chs db)"
proof (induction chs arbitrary: db)
  case (Cons ch chs)
  from Cons [of "db\<lparr>consents := consents db @ [new_consent tn c cs ip label ch db], seq := Suc (seq db), draws := Suc (draws db)\<rparr>"]
  show ?case by (simp add: log_only_def)
qed simp

text \<open>The message a lock expires, and the statements after the writes of a wrong entry.\<close>

definition wrong_mail :: "string \<Rightarrow> claim \<Rightarrow> instant \<Rightarrow> 'z claim_db_scheme \<Rightarrow> 'z claim_db_scheme" where
  "wrong_mail reason c now db = (if reason = ''locked'' then expire_pending_code c now db else db)"

lemma wrong_entry_steps_of:
  assumes cw: "count_wrong (wall db) g = (g', reason)"
  shows "\<exists>m. quiet m \<and> (\<forall>d x d'. m d = Inr (x, d') \<longrightarrow> fst (snd x) = False) \<and> wrong_entry tn g c l u db =
    m (save_guard g (\<lambda>r. fst (count_wrong (wall db) r)) (save_claim c (wrong_fields reason) (wrong_mail reason c (wall db) db)))"
proof (intro exI conjI)
  let ?c = "wrong_fields reason c"
  let ?m = "then_do (verification_failed tn ?c l u reason (Some (Suc (wrong_entries g))) (Some (cooldowns g'))) (\<lambda>ev.
           if reason = ''locked'' then
             then_do (open_item tn I_LOCK l u (Some ?c) [''verification_cooldowns_exhausted''] (visitor u)) (\<lambda>it.
             then_do (if cl_status c = C_DISPUTED then (\<lambda>d. Inr (0, d)) else notify_operators tn None)
               (\<lambda>n d'. Inr ((?c, False, event_id ev), d')))
           else (\<lambda>d. Inr ((?c, False, event_id ev), d)))"
  show "quiet ?m" by (intro quiet_rules)
  show "\<forall>d x d'. ?m d = Inr (x, d') \<longrightarrow> fst (snd x) = False" by (auto simp: then_do_Inr split: if_splits)
  show "wrong_entry tn g c l u db =
    ?m (save_guard g (\<lambda>r. fst (count_wrong (wall db) r)) (save_claim c (wrong_fields reason) (wrong_mail reason c (wall db) db)))"
    using cw by (cases "reason = ''locked''") (simp_all add: wrong_entry_def wrong_mail_def Let_def)
qed

lemma wrong_entry_tail:
  assumes d: "wrong_entry tn g c l u db = Inr (x, db')" and cw: "count_wrong (wall db) g = (g', reason)"
  obtains m where "quiet m"
    "m (save_guard g (\<lambda>r. fst (count_wrong (wall db) r)) (save_claim c (wrong_fields reason) (wrong_mail reason c (wall db) db))) = Inr (x, db')"
    "fst (snd x) = False"
  using wrong_entry_steps_of [OF cw, of tn c l u] d by metis

lemma wrong_entry_total:
  assumes "in_atomic db"
  shows "\<exists>c' eid db'. wrong_entry tn g c l u db = Inr ((c', False, eid), db')"
proof -
  obtain g' reason where cw: "count_wrong (wall db) g = (g', reason)" by fastforce
  let ?db2 = "save_guard g (\<lambda>r. fst (count_wrong (wall db) r)) (save_claim c (wrong_fields reason) (wrong_mail reason c (wall db) db))"
  from wrong_entry_steps_of [OF cw, of tn c l u] obtain m where m: "quiet m" "\<forall>d x d'. m d = Inr (x, d') \<longrightarrow> fst (snd x) = False"
    "wrong_entry tn g c l u db = m ?db2" by blast
  have "in_atomic ?db2" using assms by (simp add: save_guard_def save_claim_def wrong_mail_def)
  from quiet_total [OF m(1) this] obtain x db' where "wrong_entry tn g c l u db = Inr (x, db')" "fst (snd x) = False" using m(2,3) by metis
  then show ?thesis by (cases x) auto
qed

locale claim_frame =
  fixes R :: "'z claim_db_scheme \<Rightarrow> 'z claim_db_scheme \<Rightarrow> bool"
  assumes others: "log_only db db' \<Longrightarrow> R db db'"
    and joined: "R d1 d2 \<Longrightarrow> R d2 d3 \<Longrightarrow> R d1 d3"
    and guard_row: "find_guard t lpk upk db = None \<Longrightarrow> R db (db\<lparr>guards := guards db @ [fresh_guard (Suc (seq db)) t lpk upk], seq := Suc (seq db)\<rparr>)"
    and user_row: "usr_pk u = Suc (seq db) \<Longrightarrow> R db (db\<lparr>users := users db @ [u], seq := Suc (seq db), draws := n\<rparr>)"
    and claim_row: "cl_pk c = Suc (seq db) \<Longrightarrow> cl_status c = C_PENDING \<Longrightarrow> fk_ok db c \<Longrightarrow> R db (db\<lparr>claims := claims db @ [c], seq := Suc (seq db)\<rparr>)"
    and claim_save: "keeps_claim f \<Longrightarrow> R db (save_claim c f db)"
    and guard_save: "keeps_guard h \<Longrightarrow> R db (save_guard g h db)"
begin

lemma stays_quiet: "quiet m \<Longrightarrow> stays R m"
  by (rule staysI) (blast dest: quietD intro: others log_only_aux)

lemma stays_return: "stays R (\<lambda>d. Inr (x, d))"
  by (rule staysI) (auto intro: others)

lemma stays_then_do: "stays R m \<Longrightarrow> (\<And>x. stays R (f x)) \<Longrightarrow> stays R (then_do m f)"
  unfolding stays_def then_do_Inr by (blast intro: joined)

lemma stays_after: "R db db1 \<Longrightarrow> stays R m \<Longrightarrow> m db1 = Inr (x, db') \<Longrightarrow> R db db'"
  by (blast dest: staysD intro: joined)

lemma stays_quiet_after: "R db db1 \<Longrightarrow> quiet m \<Longrightarrow> m db1 = Inr (x, db') \<Longrightarrow> R db db'"
  by (rule stays_after [OF _ stays_quiet])

lemma stays_if: "stays R m \<Longrightarrow> stays R n \<Longrightarrow> stays R (if b then m else n)"
  by simp

lemma stays_case_prod: "(\<And>a b. stays R (f a b)) \<Longrightarrow> stays R (case p of (a, b) \<Rightarrow> f a b)"
  by (cases p) simp

lemmas stays_rules = stays_return stays_then_do stays_if stays_case_prod

lemma lock_guard_R: "lock_guard tn lpk upk db = (g, db1) \<Longrightarrow> R db db1"
  by (erule lock_guard_cases) (auto intro: others guard_row)

lemma save_expired: "keeps_claim f \<Longrightarrow> R db (save_claim c f (expire_pending_code k now db))"
  by (rule joined [OF others claim_save]) simp_all

lemma stays_dispute: "stays R (dispute tn c l u actor)"
proof (rule staysI)
  fix db db' :: "'z claim_db_scheme" and x assume d: "dispute tn c l u actor db = Inr (x, db')"
  have "quiet (then_do (claim_emit CLAIM_DISPUTED (cl_public_id c) tn actor
        [(''claim'', JObj [(''id'', JStr (cl_public_id c)), (''listing_id'', JStr (ls_public_id l))])]) (\<lambda>ev.
     then_do (open_item tn I_DISPUTE l u (Some c) [''duplicate_claim''] actor) (\<lambda>it.
     then_do (notify_operators tn None) (\<lambda>n d. Inr ((ev, dispute_fields c), d)))))" by (intro quiet_rules)
  from stays_quiet_after [OF claim_save [of dispute_fields] this] d show "R db db'" by (simp add: dispute_def)
qed

lemma stays_reject_loser: "stays R (reject_loser tn l now c)"
proof (rule staysI)
  fix db db' :: "'z claim_db_scheme" and x assume d: "reject_loser tn l now c db = Inr (x, db')"
  then obtain u where u: "find_by usr_pk (cl_claimant c) (users db) = Some u" by (auto simp: reject_loser_def split: option.splits)
  from reject_loser_steps [OF u] obtain m where m: "quiet m" "m (save_claim c (loser_fields now) (expire_pending_code c now db)) = Inr (x, db')"
    using d by metis
  show "R db db'" by (rule stays_quiet_after [OF save_expired m]) simp
qed

lemma stays_reject_each: "stays R (reject_each tn l now cs)"
proof (induction cs)
  case Nil
  show ?case by (auto intro!: staysI others)
next
  case (Cons c cs)
  have e: "reject_each tn l now (c # cs) = then_do (reject_loser tn l now c) (\<lambda>u. reject_each tn l now cs)" by (rule ext) simp
  show ?case unfolding e by (intro stays_rules stays_reject_loser Cons)
qed

lemma stays_reject_losers: "stays R (reject_losers w tn c l now)"
  by (rule staysI) (auto simp: reject_losers_def intro: staysD [OF stays_reject_each])

lemma stays_approval_tail: "stays R (approval_tail w tn c l u actor now manual prev)"
  unfolding approval_tail_def
  by (intro stays_rules stays_quiet [OF quiet_emit] stays_quiet [OF quiet_rest(2)] stays_quiet [OF quiet_owner_events] claim_event_types stays_reject_losers)
     (auto split: option.split intro: stays_return stays_quiet quiet_decide_claim_item)

lemma send_code_R:
  assumes d: "send_code w tn g c l u start n db0 = Inr (x, db')"
  shows "R db0 db'"
proof -
  obtain code db where gc: "generate_code (expire_pending_code c (wall db0) db0) = (code, db)" by fastforce
  let ?exp = "wall db0 + resolve_domain_email_ttl tn"
  let ?hash = "w_hash w (cl_public_id c) code"
  from d gc obtain msg d1 ev where m: "claim_mail tn ''claim.verification_code'' (usr_email u) (''Your verification code for '' @ ls_name l)
        (code_mail_text tn c l code ?exp) ?exp db = Inr (msg, d1)"
    and e: "claim_emit CLAIM_VERIFICATION_STARTED (cl_public_id c) tn (visitor u)
        [(''claim'', claim_ref (code_fields ?hash (wall db0) ?exp (ms_pk msg) c) l), (''method'', JStr ''domain_email''), (''expires_at'', JStr (isoformat ?exp)),
         (''destination'', JStr (mask_email (usr_email u)))]
        (save_guard g (sent_fields (wall db0) start n) (save_claim c (code_fields ?hash (wall db0) ?exp (ms_pk msg)) d1)) = Inr (ev, db')"
    by (auto simp: send_code_def Let_def then_do_Inr)
  have "R db0 db" using gc by (intro others) (auto simp: generate_code_def log_only_def)
  then have "R db0 d1" by (rule stays_quiet_after [OF _ quiet_mail m])
  then have "R db0 (save_claim c (code_fields ?hash (wall db0) ?exp (ms_pk msg)) d1)" by (rule joined) (simp add: claim_save)
  then have "R db0 (save_guard g (sent_fields (wall db0) start n) (save_claim c (code_fields ?hash (wall db0) ?exp (ms_pk msg)) d1))"
    by (rule joined) (simp add: guard_save)
  then show ?thesis by (rule stays_quiet_after [OF _ quiet_emit e]) simp
qed

lemma start_checked_R:
  assumes "start_checked w tn g (c, l, u) db = Inr (x, d)"
  shows "R db d"
proof -
  from assms consider (no) reason where "start_ineligible tn c l u reason db = Inr (x, d)" | (yes) "start_eligible w tn g c l u db = Inr (x, d)"
    by (auto simp: start_checked_def bind_result_eq_Inr split: if_splits option.splits)
  then show ?thesis
  proof cases
    case yes
    then show ?thesis by (auto simp: start_eligible_def split: if_splits prod.splits intro: others send_code_R)
  next
    case (no reason)
    have q: "quiet (then_do (if cl_status c = C_DISPUTED then (\<lambda>d. Inr (0, d)) else notify_operators tn None) (\<lambda>n.
                then_do (verification_failed tn (flip_fields reason c) l u ''ineligible'' None None) (\<lambda>ev d. Inr ((flip_fields reason c, ''ineligible'', event_id ev), d))))"
      by (intro quiet_rules)
    have "R db (flip_to_manual c (wall db) reason db)" unfolding flip_to_manual_def by (rule save_expired) simp
    from stays_quiet_after [OF this q] no show ?thesis by (simp add: start_ineligible_def Let_def)
  qed
qed

lemma stays_start: "stays R (apply_start_verification w tn arg)"
proof (rule staysI)
  fix db0 db' :: "'z claim_db_scheme" and x assume s: "apply_start_verification w tn arg db0 = Inr (x, db')"
  obtain g db where lg: "lock_guard tn (cl_listing arg) (cl_claimant arg) (db0\<lparr>in_atomic := True\<rparr>) = (g, db)" by fastforce
  from s lg obtain c l u d where d: "db' = d\<lparr>in_atomic := in_atomic db0\<rparr>" and r: "start_checked w tn g (c, l, u) db = Inr (x, d)"
    by (auto simp: apply_start_verification_def atomic_Inr bind_result_eq_Inr)
  have "R db0 (db0\<lparr>in_atomic := True\<rparr>)" "R d db'" by (auto simp: d intro!: others)
  then show "R db0 db'" using lock_guard_R [OF lg] start_checked_R [OF r] by (blast intro: joined)
qed

lemma stays_after_submit: "stays R (after_submit w tn c l u)"
  unfolding after_submit_def by (intro stays_rules stays_quiet [OF quiet_notify] stays_start stays_dispute)

lemma submit_insert_R:
  assumes d: "submit_insert w tn l method cf cs ip pid label u em db = Inr (x, db')"
    and l: "listing_known tn l db" and u: "u \<in> set (users db)"
  shows "R db db'"
proof -
  let ?c = "new_claim tn pid l u (fst em) method (snd em) (cf_role cf) db"
  let ?db1 = "db\<lparr>claims := claims db @ [?c], seq := Suc (seq db)\<rparr>"
  let ?db2 = "record_consents tn ?c cs ip label CONSENT_CHANNELS ?db1"
  have "R db ?db1" by (rule claim_row) (use l u in \<open>auto simp: new_claim_def fk_ok_def listing_known_def\<close>)
  then have "R db ?db2" by (rule joined) (rule others [OF log_only_consents])
  moreover have "stays R (then_do (claim_emit CLAIM_SUBMITTED pid tn (visitor u) (submitted_data ?c l u cf (consent_payload cs ip label (wall ?db2)))) (\<lambda>ev.
         then_do (after_submit w tn ?c l u) (\<lambda>c' d. Inr ((c', event_id ev), d))))"
    by (intro stays_rules stays_quiet [OF quiet_emit] claim_event_types stays_after_submit)
  ultimately show ?thesis using d unfolding submit_insert_def Let_def by (rule stays_after)
qed

lemma match_user_R:
  assumes "match_or_create_user tn addr name phone db = Inr ((u, minted), db')"
  shows "R db db' \<and> u \<in> set (users db') \<and> listings db' = listings db"
proof (cases "find (\<lambda>u. usr_tenant u = tn_pk tn \<and> usr_email u = addr) (users db)")
  case (Some v)
  with assms show ?thesis by (auto simp: match_or_create_user_def intro: others dest: find_SomeD)
next
  case None
  with assms have u: "usr_pk u = Suc (seq db)" and d: "db' = db\<lparr>users := users db @ [u], seq := Suc (seq db), draws := Suc (draws db)\<rparr>"
    by (auto simp: match_or_create_user_def Let_def split: option.splits)
  from user_row [OF u] d show ?thesis by simp
qed

lemma submit_R:
  assumes s: "apply_submit_claim w tn l method cf cs ip pid db = Inr (x, db')" and l: "listing_known tn l db"
  shows "R db db'"
proof -
  obtain ct db1 where t: "get_default_consent_text tn (db\<lparr>in_atomic := True\<rparr>) = (ct, db1)" by fastforce
  then have o1: "log_only (db\<lparr>in_atomic := True\<rparr>) db1"
    by (auto simp: get_default_consent_text_def log_only_def Let_def split: option.splits)
  from s t obtain m u minted db2 d where mu: "match_or_create_user tn (cf_email cf) (cf_name cf) (cf_phone cf) db1 = Inr ((u, minted), db2)"
    and c: "submit_checked w tn l method cf cs ip pid (consent_label ct) m (u, minted) db2 = Inr (x, d)" and d: "db' = d\<lparr>in_atomic := in_atomic db\<rparr>"
    by (auto simp: apply_submit_claim_def atomic_Inr bind_result_eq_Inr then_do_Inr)
  from c obtain v db3 em where uc: "user_created tn u minted db2 = Inr (v, db3)"
    and ins: "submit_insert w tn l method cf cs ip pid (consent_label ct) u em db3 = Inr (x, d)"
    by (auto simp: submit_checked_def then_do_Inr bind_result_eq_Inr split: if_splits)
  note q = quietD [OF quiet_user_created uc]
  from match_user_R [OF mu] have m: "R db1 db2" "u \<in> set (users db3)" "listings db3 = listings db"
    using q o1 by (auto simp: aux_only_def log_only_def)
  have "R db db1" using o1 by (intro others) simp
  moreover have "R db2 db3" using q by (blast intro: others log_only_aux)
  moreover have "R db3 d" using ins by (rule submit_insert_R) (use l m in \<open>auto simp: listing_known_def\<close>)
  moreover have "R d db'" unfolding d by (rule others) simp
  ultimately show ?thesis using m(1) by (blast intro: joined)
qed

lemma stays_reject: "stays R (apply_reject tn arg oper reason m actor)"
proof (rule staysI)
  fix db0 db' :: "'z claim_db_scheme" and x assume s: "apply_reject tn arg oper reason m actor db0 = Inr (x, db')"
  obtain g db where lg: "lock_guard tn (cl_listing arg) (cl_claimant arg) db0 = (g, db)" by fastforce
  from s lg obtain c l u where r: "reject_open tn g oper (strip reason) actor (c, l, u) db = Inr (x, db')"
    by (auto simp: apply_reject_def bind_result_eq_Inr split: if_splits)
  let ?f = "reject_fields oper (strip reason) (wall db)"
  have "R db (save_claim c ?f (expire_pending_code c (wall db) db))" by (rule save_expired) simp
  then have "R db (save_guard g (count_rejection (wall db)) (save_claim c ?f (expire_pending_code c (wall db) db)))"
    by (rule joined) (simp add: guard_save)
  then have "R db db'" using r unfolding reject_open_def Let_def
    by (auto split: if_splits elim!: stays_quiet_after [OF _ quiet_reject_notices])
  then show "R db0 db'" by (rule joined [OF lock_guard_R [OF lg]])
qed

end

locale guard_frame = claim_frame +
  assumes any_guard: "R db (save_guard g h db)"
begin

lemma wrong_entry_R:
  assumes d: "wrong_entry tn g c l u db = Inr (x, db')"
  shows "R db db'"
proof -
  obtain g' reason where cw: "count_wrong (wall db) g = (g', reason)" by fastforce
  from wrong_entry_tail [OF d cw] obtain m where m: "quiet m"
    "m (save_guard g (\<lambda>r. fst (count_wrong (wall db) r)) (save_claim c (wrong_fields reason) (wrong_mail reason c (wall db) db))) = Inr (x, db')"
    by metis
  have "R db (wrong_mail reason c (wall db) db)" by (rule others) (simp add: wrong_mail_def)
  then have "R db (save_claim c (wrong_fields reason) (wrong_mail reason c (wall db) db))" by (rule joined) (simp add: claim_save)
  then show ?thesis by (rule stays_quiet_after [OF joined [OF _ any_guard] m])
qed

lemma queue_R: "apply_queue_command tn arg oper why0 typ dec m actor db0 = Inr (x, db') \<Longrightarrow> R db0 db'"
proof -
  assume s: "apply_queue_command tn arg oper why0 typ dec m actor db0 = Inr (x, db')"
  obtain g db where lg: "lock_guard tn (it_listing arg) (it_claimant arg) db0 = (g, db)" by fastforce
  obtain f dec' where cg: "clear_guard typ dec g = (f, dec')" by fastforce
  from s lg cg obtain it ev where it: "decide_item tn it dec' oper (strip why0) actor (wall db) (save_guard g f db) = Inr (ev, db')"
    unfolding apply_queue_command_def Let_def by (auto simp: bind_result_eq_Inr then_do_Inr split: if_splits option.splits)
  show "R db0 db'" by (rule stays_quiet_after [OF joined [OF lock_guard_R [OF lg] any_guard] quiet_decide_item it])
qed

end

subsection \<open>The two frames\<close>

interpretation steps: claim_frame "row_steps []"
  by unfold_locales
     (auto intro: row_steps_outside log_only_outside row_steps_before row_steps_silent new_guard new_user insert_claim claim_write guard_write)

interpretation same_listings: guard_frame "\<lambda>db db'. listings db' = listings db"
  by unfold_locales (auto simp: log_only_def save_claim_def save_guard_def)

end
