(* ===== verification/Claim_Runs.thy ===== *)
theory Claim_Runs
  imports Claim_Traces
begin

section \<open>The claim commands as steps of the tables\<close>

text \<open>
  Each transaction of a claim command is a sequence of row steps (\<open>verify_steps\<close>, \<open>approve_steps\<close>, \<open>queue_steps\<close> and the facts of the frame \<open>steps\<close>), and a
  command is its transaction between writes of other tables, or nothing (\<open>start_shell\<close>, \<open>verify_shell\<close>, \<open>submit_shell\<close>,
  \<open>review_shell\<close>). \<open>exec_claim\<close> runs one command.
\<close>

subsection \<open>Approval\<close>

definition names_row :: "tenant \<Rightarrow> claim \<Rightarrow> listing \<Rightarrow> user \<Rightarrow> 'z claim_db_scheme \<Rightarrow> bool" where
  "names_row tn c l u db \<longleftrightarrow> (\<exists>r \<in> set (claims db). cl_pk r = cl_pk c \<and> cl_tenant r = tn_pk tn \<and> cl_listing r = ls_pk l \<and> cl_claimant r = usr_pk u)"

lemma names_row_save: "keeps_claim f \<Longrightarrow> names_row tn c l u (save_claim k f db) = names_row tn c l u db"
  unfolding names_row_def save_claim_rows set_map ball_simps bex_simps
  by (rule bex_cong [OF refl]) (simp add: keeps_claim_def)

lemma names_row_load: "load_claim tn pk db = Inr (c, l, u) \<Longrightarrow> names_row tn c l u db"
  by (auto simp: names_row_def dest: load_claimD intro!: bexI [of _ c])

definition approval_rows :: "tenant \<Rightarrow> claim \<Rightarrow> listing \<Rightarrow> user \<Rightarrow> instant \<Rightarrow> manual_facts option \<Rightarrow> 'z claim_db_scheme \<Rightarrow> 'z claim_db_scheme" where
  "approval_rows tn c l u now manual db =
     assign_owner l u (save_claim c (approve_fields now manual) (expire_pending_code c now (supersede tn l c db)))"

lemma approve_row_steps:
  "approve_row w tn c l u actor now manual db =
     approval_tail w tn c l u actor now manual (case ls_owner l of None \<Rightarrow> None | Some pk \<Rightarrow> find_by usr_pk pk (users db)) (approval_rows tn c l u now manual db)"
  by (simp add: approve_row_def approval_tail_def approval_rows_def Let_def)

lemma row_steps_approval: "names_row tn c l u db \<Longrightarrow> row_steps [] db (approval_rows tn c l u now manual db)"
proof -
  assume "names_row tn c l u db"
  then obtain r where "r \<in> set (claims db)" "cl_pk r = cl_pk c" "cl_tenant r = tn_pk tn" "cl_listing r = ls_pk l" "cl_claimant r = usr_pk u"
    by (auto simp: names_row_def)
  from row_steps_silent [OF approved [OF this]]
  have "row_steps [] db (assign_owner l u (save_claim c (approve_fields now manual) (supersede tn l c db)))" .
  moreover have "outside (assign_owner l u (save_claim c (approve_fields now manual) (supersede tn l c db))) (approval_rows tn c l u now manual db)"
    by (simp add: outside_def approval_rows_def assign_owner_def save_claim_def supersede_def)
  ultimately show ?thesis by (blast intro: row_steps_after row_steps_outside)
qed

lemma row_steps_approve_row:
  assumes "names_row tn c l u db" "approve_row w tn c l u actor now manual db = Inr (x, db')"
  shows "row_steps [] db db'"
  using staysD [OF steps.stays_approval_tail assms(2) [unfolded approve_row_steps]] row_steps_approval [OF assms(1)] by (rule row_steps_before [rotated])

lemma row_steps_resolve:
  assumes n: "names_row tn c l u db" and d: "resolve_verified_claim w tn c u now db = Inr (x, db')" and c: "cl_listing c = ls_pk l"
  shows "row_steps [] db db'"
proof -
  from d obtain k where k: "find (\<lambda>l. ls_pk l = cl_listing c \<and> ls_tenant l = tn_pk tn) (listings db) = Some k"
    by (auto simp: resolve_verified_claim_def split: option.splits)
  then have "ls_pk k = ls_pk l" using c by (auto dest: find_SomeD)
  with n have n': "names_row tn c k u db" by (simp add: names_row_def)
  show ?thesis
  proof (cases "ls_status k")
    case L_UNCLAIMED
    with d k row_steps_approve_row [OF n'] show ?thesis by (simp add: resolve_verified_claim_def)
  next
    case L_CLAIMED
    with d k show ?thesis
      by (auto simp: resolve_verified_claim_def then_do_Inr intro: staysD [OF steps.stays_dispute])
  next
    case L_SUSPENDED
    with d k show ?thesis by (simp add: resolve_verified_claim_def done_steps)
  qed
qed

subsection \<open>Codes\<close>

lemma row_steps_lock_guard: "lock_guard tn lpk upk db = (g, db1) \<Longrightarrow> row_steps [] db db1 \<and> find_guard (tn_pk tn) lpk upk db1 = Some g"
  by (frule steps.lock_guard_R) (erule lock_guard_cases, auto simp: find_guard_def find_append fresh_guard_def)

lemma row_steps_read: "row_steps xs (db\<lparr>in_atomic := b\<rparr>) db' \<Longrightarrow> row_steps xs db db'"
  by (rule row_steps_before [OF row_steps_outside]) simp_all

lemma wrong_entry_steps:
  assumes d: "wrong_entry tn g c l u db = Inr (x, db')" and g: "find_guard (tn_pk tn) lpk upk db = Some g" "verification_locked_at g = None"
  shows "row_steps [Wrong (tn_pk tn) lpk upk] db db' \<and> fst (snd x) = False"
proof -
  obtain g' reason where cw: "count_wrong (wall db) g = (g', reason)" by fastforce
  let ?db1 = "save_claim c (wrong_fields reason) (wrong_mail reason c (wall db) db)"
  let ?db2 = "save_guard g (\<lambda>r. fst (count_wrong (wall db) r)) ?db1"
  from wrong_entry_tail [OF d cw] obtain m where m: "quiet m" "m ?db2 = Inr (x, db')" and x: "fst (snd x) = False" by metis
  have "outside db (wrong_mail reason c (wall db) db)" by (simp add: wrong_mail_def)
  then have pre: "row_steps [] db ?db1" by (intro row_steps_before [OF row_steps_outside steps.claim_save]) simp_all
  have "find_guard (tn_pk tn) lpk upk ?db1 = Some g" using g(1) by (simp add: find_guard_def save_claim_def wrong_mail_def)
  from row_steps_one [OF wrong [OF this g(2), of "wall db"]] have "row_steps [Wrong (tn_pk tn) lpk upk] ?db1 ?db2" by simp
  then have "row_steps [Wrong (tn_pk tn) lpk upk] db ?db2" by (rule row_steps_before [OF pre])
  then have "row_steps [Wrong (tn_pk tn) lpk upk] db db'"
    using staysD [OF steps.stays_quiet [OF m(1)] m(2)] by (rule row_steps_after)
  with x show ?thesis by simp
qed

lemma verify_steps:
  assumes "apply_verify_claim_code w tn arg code db0 = Inr ((c', correct, eid), db')"
  shows "row_steps (if correct then [] else [Wrong (tn_pk tn) (cl_listing arg) (cl_claimant arg)]) db0 db'"
proof -
  let ?a = "db0\<lparr>in_atomic := True\<rparr>"
  obtain g db where lg: "lock_guard tn (cl_listing arg) (cl_claimant arg) ?a = (g, db)" by fastforce
  from row_steps_lock_guard [OF lg] have pre: "row_steps [] db0 db" and g: "find_guard (tn_pk tn) (cl_listing arg) (cl_claimant arg) db = Some g"
    by (auto intro: row_steps_read)
  from assms lg obtain c l u d where lc: "load_claim tn (cl_pk arg) db = Inr (c, l, u)" and d: "db' = d\<lparr>in_atomic := in_atomic db0\<rparr>"
    and v: "verify_checked w tn g code (c, l, u) db = Inr ((c', correct, eid), d)"
    by (auto simp: apply_verify_claim_code_def atomic_Inr bind_result_eq_Inr)
  from v have unlocked: "verification_locked_at g = None" by (auto simp: verify_checked_def entry_refusal_def split: if_splits option.splits)
  from v have r: "(if code_hash c = w_hash w (cl_public_id c) code then correct_entry w tn c u db else wrong_entry tn g c l u db) = Inr ((c', correct, eid), d)"
    by (auto simp: verify_checked_def split: option.splits)
  have "row_steps (if correct then [] else [Wrong (tn_pk tn) (cl_listing arg) (cl_claimant arg)]) db d"
  proof (cases "code_hash c = w_hash w (cl_public_id c) code")
    case False
    with r have "wrong_entry tn g c l u db = Inr ((c', correct, eid), d)" by simp
    from wrong_entry_steps [OF this g unlocked] show ?thesis by simp
  next
    case True
    let ?db1 = "save_claim c (verified_fields (wall db)) db"
    have s: "row_steps [] db ?db1" by (rule steps.claim_save) simp
    have n: "names_row tn (verified_fields (wall db) c) l u ?db1"
      using names_row_load [OF lc] names_row_save [of "verified_fields (wall db)" tn "verified_fields (wall db) c" l u c db]
      by (simp add: names_row_def verified_fields_def)
    have k: "cl_listing (verified_fields (wall db) c) = ls_pk l" using load_claimD [OF lc] by (simp add: verified_fields_def)
    show ?thesis
    proof (cases "cl_status c = C_DISPUTED")
      case disputed: True
      with True r s show ?thesis by (auto simp: correct_entry_def Let_def)
    next
      case False
      with True r obtain y where y: "correct" "resolve_verified_claim w tn (verified_fields (wall db) c) u (wall db) ?db1 = Inr (y, d)"
        by (auto simp: correct_entry_def Let_def then_do_Inr split: prod.splits)
      from row_steps_before [OF s row_steps_resolve [OF n y(2) k]] y(1) show ?thesis by simp
    qed
  qed
  then have "row_steps (if correct then [] else [Wrong (tn_pk tn) (cl_listing arg) (cl_claimant arg)]) db0 d" by (rule row_steps_before [OF pre])
  moreover have "outside d db'" by (simp add: d)
  ultimately show ?thesis by (blast intro: row_steps_after row_steps_outside)
qed

subsection \<open>Review\<close>

lemma approve_steps:
  assumes "apply_approve w tn pk oper method_used notes ev_ref transfer m actor db = Inr (x, db')"
  shows "row_steps [] db db'"
proof -
  from assms obtain c l u where lc: "load_claim tn pk db = Inr (c, l, u)"
    and r: "(\<exists>y. dispute tn c l u actor db = Inr (y, db')) \<or> (\<exists>f y. approve_row w tn c l u actor (wall db) f db = Inr (y, db'))"
    by (fastforce simp: apply_approve_def bind_result_eq_Inr Let_def then_do_Inr split: if_splits prod.splits)
  from r show ?thesis
    by (blast intro: staysD [OF steps.stays_dispute] row_steps_approve_row [OF names_row_load [OF lc]])
qed

lemma queue_steps:
  assumes "apply_queue_command tn arg oper why0 typ dec m actor db0 = Inr (x, db')"
  shows "\<exists>xs. row_steps xs db0 db' \<and> set xs \<subseteq> (if typ = I_LOCK then {Unlocked (tn_pk tn) (it_listing arg) (it_claimant arg)} else {})"
proof -
  obtain g db where lg: "lock_guard tn (it_listing arg) (it_claimant arg) db0 = (g, db)" by fastforce
  from row_steps_lock_guard [OF lg] have pre: "row_steps [] db0 db" and g: "find_guard (tn_pk tn) (it_listing arg) (it_claimant arg) db = Some g" by simp_all
  obtain f dec' where cg: "clear_guard typ dec g = (f, dec')" by fastforce
  from assms lg cg obtain it ev where it: "decide_item tn it dec' oper (strip why0) actor (wall db) (save_guard g f db) = Inr (ev, db')"
    unfolding apply_queue_command_def Let_def by (auto simp: bind_result_eq_Inr then_do_Inr split: if_splits option.splits)
  from cg consider (same) "keeps_guard f" | (clear) "typ = I_LOCK" "f = unlock_fields"
    by (auto simp: clear_guard_def split: if_splits)
  then obtain xs where "row_steps xs db (save_guard g f db)" "set xs \<subseteq> (if typ = I_LOCK then {Unlocked (tn_pk tn) (it_listing arg) (it_claimant arg)} else {})"
  proof cases
    case same
    then show ?thesis by (intro that [OF row_steps_silent [OF guard_write]]) simp_all
  next
    case clear
    have "row_steps [Unlocked (tn_pk tn) (it_listing arg) (it_claimant arg)] db (save_guard g f db)"
      using row_steps_one [OF unlocked [OF g]] clear by simp
    from that [OF this] clear show ?thesis by simp
  qed
  moreover have "row_steps [] (save_guard g f db) db'" using it by (rule staysD [OF steps.stays_quiet [OF quiet_decide_item]])
  ultimately show ?thesis using pre by (blast intro: row_steps_before row_steps_after)
qed

subsection \<open>Shells\<close>

text \<open>A command either writes none of the claim tables, and then did not succeed, or runs its transaction once.\<close>

lemma log_only_received: "log_received cmd tn key actor trace orig payload db = (row, db1) \<Longrightarrow> log_only db0 db \<Longrightarrow> log_only db0 db1"
  by (auto simp: log_only_def dest!: log_received_simps(8))

lemma log_only_blocked_row: "log_only db db1 \<Longrightarrow> log_only db (blocked_row command tn actor payload v db1)"
  by (auto simp: blocked_row_def split: prod.splits dest: log_only_received)

lemma log_only_checks:
  "check_submit w tn ip addr now db = Inr (v, db') \<Longrightarrow> log_only db db'"
  "check_verify w tn ip now db = Inr (v, db') \<Longrightarrow> log_only db db'"
  "check_resend w tn ip addr now db = Inr (v, db') \<Longrightarrow> log_only db db'"
  by (auto simp: check_submit_def check_verify_def check_resend_def intro!: log_only_counted dest: only_counted_check)

lemma verify_shell:
  assumes "verify_claim_code w tn c code ip db = (r, db')"
  obtains (refused) e where "r = Inl e" "log_only db db'"
  | (ran) db2 c' ok eid db3 where "log_only db db2" "apply_verify_claim_code w tn c code db2 = Inr ((c', ok, eid), db3)" "r = Inr (c', ok)" "log_only db3 db'"
proof (cases "in_atomic db \<or> claimant_of c db = None")
  case True
  then show thesis using assms by (intro refused [of "projl r"]) (auto simp: verify_claim_code_def require_autocommit_def split: option.splits if_splits)
next
  case False
  then obtain u where u: "claimant_of c db = Some u" "\<not> in_atomic db" by blast
  then obtain v db1 where v: "check_verify w tn ip (wall db) db = Inr (v, db1)"
    by (cases "check_verify w tn ip (wall db) db") (auto simp: check_verify_def check_def require_autocommit_def)
  note o1 = log_only_checks(2) [OF v]
  obtain row db2 where rec: "log_received ''claim.verify'' (Some (tn_pk tn)) None (visitor u) [] [] (Some (JObj [(''claim_id'', JStr (cl_public_id c))])) db1 = (row, db2)"
    by fastforce
  note o2 = log_only_received [OF rec o1]
  show thesis
  proof (cases "allowed v")
    case False
    with assms u v show thesis by (intro refused) (auto simp: verify_claim_code_def require_autocommit_def intro: log_only_blocked_row o1)
  next
    case True
    show thesis
    proof (cases "apply_verify_claim_code w tn c code db2")
      case (Inl e)
      with assms u v rec True o2 show thesis
        by (intro refused [of e]) (auto simp: verify_claim_code_def require_autocommit_def split: claim_error.splits)
    next
      case (Inr y)
      obtain c' ok eid db3 where y: "y = ((c', ok, eid), db3)" by (metis prod.exhaust)
      with assms u v rec True o2 Inr show thesis
        by (intro ran [of db2 c' ok eid db3]) (auto simp: verify_claim_code_def require_autocommit_def)
    qed
  qed
qed

lemma start_shell:
  assumes "start_claim_verification w tn c ip db = (r, db')"
  obtains (refused) e where "r = Inl e" "log_only db db'"
  | (ran) db2 c' res eid db3 where "log_only db db2" "apply_start_verification w tn c db2 = Inr ((c', res, eid), db3)" "log_only db3 db'"
proof (cases "in_atomic db \<or> claimant_of c db = None")
  case True
  then show thesis using assms by (intro refused [of "projl r"]) (auto simp: start_claim_verification_def require_autocommit_def split: option.splits if_splits)
next
  case False
  then obtain u where u: "claimant_of c db = Some u" "\<not> in_atomic db" by blast
  then obtain v db1 where v: "check_resend w tn ip (usr_email u) (wall db) db = Inr (v, db1)"
    by (cases "check_resend w tn ip (usr_email u) (wall db) db") (auto simp: check_resend_def check_def require_autocommit_def)
  note o1 = log_only_checks(3) [OF v]
  obtain row db2 where rec: "log_received ''claim.start_verification'' (Some (tn_pk tn)) None (visitor u) [] [] (Some (JObj [(''claim_id'', JStr (cl_public_id c))])) db1 = (row, db2)"
    by fastforce
  note o2 = log_only_received [OF rec o1]
  show thesis
  proof (cases "allowed v")
    case False
    with assms u v show thesis by (intro refused) (auto simp: start_claim_verification_def require_autocommit_def intro: log_only_blocked_row o1)
  next
    case True
    show thesis
    proof (cases "apply_start_verification w tn c db2")
      case (Inl e)
      with assms u v rec True o2 show thesis
        by (intro refused [of e]) (auto simp: start_claim_verification_def require_autocommit_def split: claim_error.splits)
    next
      case (Inr y)
      obtain c' res eid db3 where y: "y = ((c', res, eid), db3)" by (metis prod.exhaust)
      with assms u v rec True o2 Inr show thesis
        by (intro ran [of db2 c' res eid db3]) (auto simp: start_claim_verification_def require_autocommit_def split: if_splits)
    qed
  qed
qed

lemma submit_shell:
  assumes "submit_claim w tn l method claimant consent ip db = (r, db')"
  obtains (refused) e where "r = Inl e" "log_only db db'"
  | (ran) db2 cf cs pid c eid db3 where "log_only db db2" "normalize_claimant claimant consent = Inr (cf, cs)"
      "apply_submit_claim w tn l method cf cs ip pid db2 = Inr ((c, eid), db3)" "r = Inr c" "log_only db3 db'"
proof (cases "in_atomic db \<or> isl (normalize_claimant claimant consent)")
  case True
  then show thesis using assms
    by (intro refused [of "projl r"])
       (auto simp: submit_claim_def require_autocommit_def isl_def split: prod.splits if_splits dest!: log_only_received [OF _ log_only_refl])
next
  case False
  then obtain cf cs where n: "normalize_claimant claimant consent = Inr (cf, cs)" "\<not> in_atomic db"
    by (cases "normalize_claimant claimant consent") auto
  let ?pid = "prefixed ''claim_'' (draw_ulid db)"
  let ?db = "db\<lparr>draws := Suc (draws db)\<rparr>"
  from n obtain v db1 where v: "check_submit w tn ip (cf_email cf) (wall db) ?db = Inr (v, db1)"
    by (cases "check_submit w tn ip (cf_email cf) (wall db) ?db") (auto simp: check_submit_def check_def require_autocommit_def)
  have "log_only db ?db" by (simp add: log_only_def)
  with log_only_checks(1) [OF v] have o1: "log_only db db1" by (simp add: log_only_def)
  define payload where "payload = JObj [(''listing_id'', JStr (ls_public_id l)), (''method'', if claim_method_of method = None then JNull else JStr method),
                 (''claim_id'', JStr ?pid), (''consent'', JObj cs)]"
  obtain row db2 where rec: "log_received ''claim.submit'' (Some (tn_pk tn)) None [(''type'', JStr ''visitor''), (''id'', JStr (''claimant:'' @ ?pid))] [] [] (Some payload) db1 = (row, db2)"
    by fastforce
  note o2 = log_only_received [OF rec o1]
  show thesis
  proof (cases "allowed v")
    case False
    with assms n v show thesis by (intro refused) (auto simp: submit_claim_def require_autocommit_def Let_def intro: log_only_blocked_row o1)
  next
    case True
    show thesis
    proof (cases "apply_submit_claim w tn l method cf cs ip ?pid db2")
      case (Inl e)
      with assms n v rec True o2 show thesis
        by (intro refused [of e]) (auto simp: submit_claim_def require_autocommit_def Let_def payload_def split: claim_error.splits)
    next
      case (Inr y)
      obtain c eid db3 where y: "y = ((c, eid), db3)" by (metis prod.exhaust)
      with assms n v rec True o2 Inr show thesis
        by (intro ran [of db2 cf cs ?pid c eid db3]) (auto simp: submit_claim_def require_autocommit_def Let_def payload_def)
    qed
  qed
qed

lemma review_shell:
  assumes "review_command tn command oper payload apply_fn db = (r, db')"
  obtains (refused) e where "r = Inl e" "log_only db db'"
  | (ran) db1 x eid d where "log_only db db1"
      "apply_fn (active_membership (tn_pk tn) oper db) (staff_actor oper (active_membership (tn_pk tn) oper db)) (db1\<lparr>in_atomic := True\<rparr>) = Inr ((x, eid), d)"
      "r = Inr x" "log_only d db'"
proof (cases "in_atomic db")
  case True
  then show thesis using assms by (intro refused) (auto simp: review_command_def require_autocommit_def)
next
  case False
  let ?m = "active_membership (tn_pk tn) oper db"
  obtain row db1 where rec: "log_received command (Some (tn_pk tn)) None (staff_actor oper ?m) [] [] (Some (JObj payload)) db = (row, db1)" by fastforce
  note o1 = log_only_received [OF rec log_only_refl]
  show thesis
  proof (cases "apply_fn ?m (staff_actor oper ?m) (db1\<lparr>in_atomic := True\<rparr>)")
    case (Inl e)
    with assms False rec o1 show thesis
      by (intro refused [of e]) (auto simp: review_command_def require_autocommit_def Let_def atomic_def split: claim_error.splits)
  next
    case (Inr y)
    obtain x eid d where y: "y = ((x, eid), d)" by (metis prod.exhaust)
    with assms False rec o1 Inr show thesis
      by (intro ran [of db1 x eid d]) (auto simp: review_command_def require_autocommit_def Let_def atomic_def log_conclude_def log_only_def)
  qed
qed

end
