(* ===== verification/Claim_Props.thy ===== *)
theory Claim_Props
  imports Claim_Runs
begin

section \<open>What the claim commands guarantee\<close>

text \<open>
  \<open>exec_claim\<close> runs one claim command; the theorems are about one command or about any sequence of commands interleaved with other
  writes (\<open>guess_run\<close>): the invariant of the tables, the bound on code guessing, who may become the owner of a listing, and what a
  correct code, a resend and a rejection do.
\<close>

datatype claim_cmd =
    Submit listing string json json "string option"
  | Resend claim "string option"
  | Enter claim string "string option"
  | Approve claim operator string string string bool
  | Reject claim operator string
  | Unlock moderation_item operator string
  | Unblock moderation_item operator string

fun exec_claim :: "world \<Rightarrow> tenant \<Rightarrow> claim_cmd \<Rightarrow> 'z claim_db_scheme \<Rightarrow> 'z claim_db_scheme" where
  "exec_claim w tn (Submit l method claimant consent ip) db = snd (submit_claim w tn l method claimant consent ip db)"
| "exec_claim w tn (Resend c ip) db = snd (start_claim_verification w tn c ip db)"
| "exec_claim w tn (Enter c code ip) db = snd (verify_claim_code w tn c code ip db)"
| "exec_claim w tn (Approve c oper method_used notes ev_ref transfer) db = snd (approve_claim w tn c oper method_used notes ev_ref transfer db)"
| "exec_claim w tn (Reject c oper reason) db = snd (reject_claim tn c oper reason db)"
| "exec_claim w tn (Unlock it oper why) db = snd (unlock_verification tn it oper why db)"
| "exec_claim w tn (Unblock it oper why) db = snd (unblock_claims tn it oper why db)"

text \<open>A submission names a listing of the tenant, which the view has read; the pair whose entry was wrong; the pair an unlock clears.\<close>

fun command_known :: "tenant \<Rightarrow> claim_cmd \<Rightarrow> 'z claim_db_scheme \<Rightarrow> bool" where
  "command_known tn (Submit l method claimant consent ip) db = listing_known tn l db"
| "command_known tn c db = True"

definition guessed :: "world \<Rightarrow> tenant \<Rightarrow> claim_cmd \<Rightarrow> 'z claim_db_scheme \<Rightarrow> (nat \<times> nat \<times> nat) option" where
  "guessed w tn cmd db =
     (case cmd of
        Enter c code ip \<Rightarrow>
          (case fst (verify_claim_code w tn c code ip db) of
             Inr (c', False) \<Rightarrow> Some (tn_pk tn, cl_listing c, cl_claimant c)
           | _ \<Rightarrow> None)
      | _ \<Rightarrow> None)"

definition unlocks :: "tenant \<Rightarrow> claim_cmd \<Rightarrow> (nat \<times> nat \<times> nat) option" where
  "unlocks tn cmd = (case cmd of Unlock it oper why \<Rightarrow> Some (tn_pk tn, it_listing it, it_claimant it) | _ \<Rightarrow> None)"

subsection \<open>Commands are row steps\<close>

lemma exec_labels:
  assumes "command_known tn cmd db"
  shows "\<exists>xs. row_steps xs db (exec_claim w tn cmd db)
    \<and> (\<forall>t l u. count_list xs (Wrong t l u) = (if guessed w tn cmd db = Some (t, l, u) then 1 else 0))
    \<and> (\<forall>t l u. Unlocked t l u \<in> set xs \<longrightarrow> unlocks tn cmd = Some (t, l, u))"
proof -
  note out = row_steps_outside [OF log_only_outside]
  have silent: ?thesis if "row_steps [] db (exec_claim w tn cmd db)" "guessed w tn cmd db = None"
    using that by (intro exI [of _ "[]"]) simp
  show ?thesis
  proof (cases cmd)
    case (Submit l meth claimant consent ip)
    obtain r db' where s: "submit_claim w tn l meth claimant consent ip db = (r, db')" by fastforce
    have "row_steps [] db db'"
      using s
    proof (cases rule: submit_shell)
      case (ran db2 cf cs pid c eid db3)
      then have "listing_known tn l db2" using assms Submit by (simp add: listing_known_def log_only_def)
      from steps.submit_R [OF ran(3) this] ran show ?thesis by (blast intro: out steps.joined)
    qed (rule out)
    with s Submit show ?thesis by (intro silent) (simp_all add: guessed_def)
  next
    case (Resend c ip)
    obtain r db' where s: "start_claim_verification w tn c ip db = (r, db')" by fastforce
    then have "row_steps [] db db'"
      by (cases rule: start_shell) (blast intro: out steps.joined staysD [OF steps.stays_start])+
    with s Resend show ?thesis by (intro silent) (simp_all add: guessed_def)
  next
    case (Enter c code ip)
    obtain r db' where s: "verify_claim_code w tn c code ip db = (r, db')" by fastforce
    then show ?thesis
    proof (cases rule: verify_shell)
      case (refused e)
      then show ?thesis using s Enter by (intro silent) (auto simp: guessed_def intro: out)
    next
      case (ran db2 c' ok eid db3)
      let ?xs = "if ok then [] else [Wrong (tn_pk tn) (cl_listing c) (cl_claimant c)]"
      have "row_steps ?xs db db'"
        by (rule row_steps_after [OF row_steps_before [OF out [OF ran(1)] verify_steps [OF ran(2)]] out [OF ran(4)]])
      with s Enter ran(3) show ?thesis by (intro exI [of _ ?xs]) (auto simp: guessed_def)
    qed
  next
    case (Approve c oper method_used why ev_ref transfer)
    obtain r db' where s: "approve_claim w tn c oper method_used why ev_ref transfer db = (r, db')" by fastforce
    have "row_steps [] db db'" using s unfolding approve_claim_def
    proof (cases rule: review_shell)
      case (ran db1 x eid d)
      have "row_steps [] db1 d" using approve_steps [OF ran(2)] by (rule row_steps_read)
      with ran show ?thesis by (blast intro: out steps.joined)
    qed (rule out)
    with s Approve show ?thesis by (intro silent) (simp_all add: guessed_def)
  next
    case (Reject c oper reason)
    obtain r db' where s: "reject_claim tn c oper reason db = (r, db')" by fastforce
    have "row_steps [] db db'" using s unfolding reject_claim_def
    proof (cases rule: review_shell)
      case (ran db1 x eid d)
      have "row_steps [] db1 d" using staysD [OF steps.stays_reject ran(2)] by (rule row_steps_read)
      with ran show ?thesis by (blast intro: out steps.joined)
    qed (rule out)
    with s Reject show ?thesis by (intro silent) (simp_all add: guessed_def)
  next
    case (Unlock it oper why)
    obtain r db' where s: "unlock_verification tn it oper why db = (r, db')" by fastforce
    obtain xs where xs: "row_steps xs db db'" "set xs \<subseteq> {Unlocked (tn_pk tn) (it_listing it) (it_claimant it)}"
      using s unfolding unlock_verification_def queue_command_def
    proof (cases rule: review_shell)
      case (ran db1 x eid d)
      from queue_steps [OF ran(2)] obtain ys where "row_steps ys db1 d" "set ys \<subseteq> {Unlocked (tn_pk tn) (it_listing it) (it_claimant it)}"
        by (auto intro: row_steps_read)
      then show ?thesis
        by (intro that [of ys]) (auto intro: row_steps_after [OF row_steps_before [OF out [OF ran(1)]] out [OF ran(4)]])
    next
      case (refused e)
      from that [OF out [OF refused(2)]] show ?thesis by simp
    qed
    from xs(2) have "Wrong t l u \<notin> set xs" for t l u by auto
    with s Unlock xs show ?thesis by (intro exI [of _ xs]) (auto simp: guessed_def unlocks_def)
  next
    case (Unblock it oper why)
    obtain r db' where s: "unblock_claims tn it oper why db = (r, db')" by fastforce
    have "row_steps [] db db'" using s unfolding unblock_claims_def queue_command_def
    proof (cases rule: review_shell)
      case (ran db1 x eid d)
      from queue_steps [OF ran(2)] have "row_steps [] db1 d" by (auto intro: row_steps_read)
      with ran show ?thesis by (blast intro: out steps.joined)
    qed (rule out)
    with s Unblock show ?thesis by (intro silent) (simp_all add: guessed_def)
  qed
qed

subsection \<open>Counting wrong entries\<close>

definition tries :: "nat \<Rightarrow> nat \<Rightarrow> nat \<Rightarrow> 'z claim_db_scheme \<Rightarrow> nat" where
  "tries t l u db = (case find_guard t l u db of None \<Rightarrow> 0 | Some g \<Rightarrow> MAX_WRONG_ENTRIES * cooldowns g + wrong_entries g)"

definition guess_limit :: nat where
  "guess_limit = MAX_COOLDOWNS * MAX_WRONG_ENTRIES"

lemma find_guard_save:
  assumes "\<And>r. pair_of (f r) = pair_of r"
  shows "find_guard t l u (save_guard g f db) = map_option (\<lambda>r. if gd_pk r = gd_pk g then f r else r) (find_guard t l u db)"
  unfolding find_guard_pair by (simp add: save_guard_def find_update_where_keep assms)

lemma find_guard_same:
  assumes "claims_ok db" "find_guard t l u db = Some g" "find_guard t' l' u' db = Some h" "gd_pk h = gd_pk g"
  shows "h = g" "(t', l', u') = (t, l, u)"
proof -
  have "g \<in> set (guards db)" "h \<in> set (guards db)" "pair_of g = (t, l, u)" "pair_of h = (t', l', u')"
    using assms by (auto simp: find_guard_pair dest: find_SomeD)
  moreover from this have "h = g" using assms same_key [of gd_pk "guards db" h g] by (simp add: claims_ok_def keys_ok_def)
  ultimately show "h = g" "(t', l', u') = (t, l, u)" by simp_all
qed

lemma tries_save:
  assumes ok: "claims_ok db" and g: "find_guard t l u db = Some g" and f: "\<And>r. pair_of (f r) = pair_of r"
  shows "tries t' l' u' (save_guard g f db) =
    (if (t', l', u') = (t, l, u) then MAX_WRONG_ENTRIES * cooldowns (f g) + wrong_entries (f g) else tries t' l' u' db)"
proof (cases "(t', l', u') = (t, l, u)")
  case True
  then show ?thesis using g by (simp add: tries_def find_guard_save f)
next
  case False
  have "gd_pk h \<noteq> gd_pk g" if "find_guard t' l' u' db = Some h" for h
    using find_guard_same(2) [OF ok g that] False by blast
  then have "find_guard t' l' u' (save_guard g f db) = find_guard t' l' u' db"
    unfolding find_guard_save [of f, OF f] by (cases "find_guard t' l' u' db") simp_all
  with False show ?thesis by (auto simp: tries_def)
qed

lemma tries_count_wrong:
  "guard_ok g \<Longrightarrow> MAX_WRONG_ENTRIES * cooldowns (fst (count_wrong now g)) + wrong_entries (fst (count_wrong now g)) =
     Suc (MAX_WRONG_ENTRIES * cooldowns g + wrong_entries g)"
  by (auto simp: count_wrong_def Let_def MAX_WRONG_ENTRIES_def guard_ok_def)

lemma tries_step:
  "row_step x db db' \<Longrightarrow> claims_ok db \<Longrightarrow> x \<noteq> Some (Unlocked t l u) \<Longrightarrow>
   tries t l u db' = tries t l u db + (if x = Some (Wrong t l u) then 1 else 0)"
proof (induction rule: row_step.induct)
  case (other db db')
  then show ?case by (simp add: tries_def find_guard_def outside_def)
next
  case (new_guard t' lpk upk db)
  then show ?case by (auto simp: tries_def find_guard_def find_append fresh_guard_def split: option.split)
next
  case (guard_write f db g)
  then show ?case by (auto simp: tries_def find_guard_save keeps_guard_def split: option.split)
next
  case (wrong t' lpk upk db g now)
  from wrong have "guard_ok g" by (auto simp: claims_ok_def find_guard_def dest: find_SomeD)
  then show ?case using wrong by (auto simp: tries_save [OF wrong(3,1)] tries_count_wrong) (simp add: tries_def)
next
  case (unlocked t' lpk upk db g)
  then show ?case by (auto simp: tries_save [OF unlocked(2,1)])
qed (simp_all add: tries_def find_guard_def save_claim_def assign_owner_def supersede_def)

lemma tries_steps:
  "row_steps xs db db' \<Longrightarrow> claims_ok db \<Longrightarrow> Unlocked t l u \<notin> set xs \<Longrightarrow> tries t l u db' = tries t l u db + count_list xs (Wrong t l u)"
proof (induction rule: row_steps.induct)
  case (more_steps x db db1 xs db2)
  then have "x \<noteq> Some (Unlocked t l u)" by auto
  from tries_step [OF more_steps(1,4) this] more_steps claims_ok_step [OF more_steps(1,4)] show ?case by (cases x) auto
qed simp

lemma tries_le: "claims_ok db \<Longrightarrow> tries t l u db \<le> guess_limit"
proof (cases "find_guard t l u db")
  case (Some g)
  moreover assume "claims_ok db"
  ultimately have "guard_ok g" by (auto simp: claims_ok_def find_guard_def dest: find_SomeD)
  with Some show ?thesis by (auto simp: tries_def guess_limit_def guard_ok_def MAX_WRONG_ENTRIES_def MAX_COOLDOWNS_def)
qed (simp add: tries_def)

lemma tries_limit_locked:
  assumes "claims_ok db" "tries t l u db = guess_limit"
  shows "\<exists>g. find_guard t l u db = Some g \<and> verification_locked_at g \<noteq> None"
proof (cases "find_guard t l u db")
  case (Some g)
  with assms have "guard_ok g" by (auto simp: claims_ok_def find_guard_def dest: find_SomeD)
  with Some assms show ?thesis by (auto simp: tries_def guess_limit_def guard_ok_def MAX_WRONG_ENTRIES_def MAX_COOLDOWNS_def)
qed (use assms in \<open>simp add: tries_def guess_limit_def MAX_WRONG_ENTRIES_def MAX_COOLDOWNS_def\<close>)

lemma verify_locked:
  assumes "find_guard (tn_pk tn) (cl_listing c) (cl_claimant c) db = Some g" "verification_locked_at g \<noteq> None"
  shows "fst (verify_claim_code w tn c code ip db) \<noteq> Inr x"
proof
  assume x: "fst (verify_claim_code w tn c code ip db) = Inr x"
  obtain r db' where s: "verify_claim_code w tn c code ip db = (r, db')" by fastforce
  then show False
  proof (cases rule: verify_shell)
    case (ran db2 c' ok eid db3)
    from ran(1) assms(1) have "lock_guard tn (cl_listing c) (cl_claimant c) (db2\<lparr>in_atomic := True\<rparr>) = (g, db2\<lparr>in_atomic := True\<rparr>)"
      by (simp add: lock_guard_def find_guard_def log_only_def)
    with ran(2) assms(2) show False
      by (auto simp: apply_verify_claim_code_def atomic_Inr bind_result_eq_Inr verify_checked_def entry_refusal_def split: prod.splits if_splits option.splits)
  qed (use s x in simp)
qed

text \<open>
  \<open>guess_run w t l u n db db'\<close>: from \<open>db\<close> to \<open>db'\<close> by claim commands of any tenant, none of them an unlock of the pair, and by writes outside
  the claim tables (the clock, other commands, the workers), with \<open>n\<close> wrong entries for the pair.
\<close>

inductive guess_run :: "world \<Rightarrow> nat \<Rightarrow> nat \<Rightarrow> nat \<Rightarrow> nat \<Rightarrow> 'z claim_db_scheme \<Rightarrow> 'z claim_db_scheme \<Rightarrow> bool" for w t l u where
  start: "guess_run w t l u 0 db db"
| command: "guess_run w t l u n db0 db \<Longrightarrow> command_known tn cmd db \<Longrightarrow> unlocks tn cmd \<noteq> Some (t, l, u) \<Longrightarrow>
    guess_run w t l u (if guessed w tn cmd db = Some (t, l, u) then Suc n else n) db0 (exec_claim w tn cmd db)"
| elsewhere: "guess_run w t l u n db0 db \<Longrightarrow> outside db db' \<Longrightarrow> guess_run w t l u n db0 db'"

inductive_cases guess_runE: "guess_run w t l u n db0 db"

lemma guess_run_tries:
  "guess_run w t l u n db0 db \<Longrightarrow> claims_ok db0 \<Longrightarrow> claims_ok db \<and> tries t l u db = tries t l u db0 + n"
proof (induction rule: guess_run.induct)
  case (command n db0 db tn cmd)
  from exec_labels [OF command(2), of w] obtain xs where xs: "row_steps xs db (exec_claim w tn cmd db)"
    "count_list xs (Wrong t l u) = (if guessed w tn cmd db = Some (t, l, u) then 1 else 0)" "Unlocked t l u \<in> set xs \<longrightarrow> unlocks tn cmd = Some (t, l, u)"
    by blast
  then show ?case using command tries_steps [OF xs(1)] claims_ok_steps [OF xs(1)] by auto
next
  case (elsewhere n db0 db db')
  then show ?case using claims_ok_outside [OF _ elsewhere(2)] by (simp add: tries_def find_guard_def outside_def)
qed simp

subsection \<open>Sample data\<close>

definition claim_world :: world where
  "claim_world = \<lparr>w_hash = (\<lambda>pid code. pid @ '':'' @ code), w_hmac = (\<lambda>s. s), w_bucket = (\<lambda>s. s), w_mail = (\<lambda>t. True),
     w_ipv6 = (\<lambda>s. True), w_locked = (\<lambda>pk. False)\<rparr>"

definition claim_tenant :: tenant where
  "claim_tenant = \<lparr>tn_pk = 1, tn_public_id = ''tnt_1'', tn_slug = ''acme'', tn_name = ''Acme'', primary_domain = None, domain_verified_at = None,
     tn_settings = [(''claim_verification'', JObj [(''enabled_methods'', JList [JStr ''domain_email'', JStr ''manual''])])], tn_mode = ''single'', tn_status = ''active'', tn_created_by = None\<rparr>"

definition open_listing :: listing where
  "open_listing = \<lparr>ls_pk = 10, ls_tenant = 1, ls_type_key = ''business'', ls_public_id = ''lst_10'',
     ls_slug = ''cafe'', ls_name = ''Cafe'', description = [], ls_status = L_UNCLAIMED, visibility = V_PUBLISHED,
     current_tier = None, ls_owner = None, categories = [], address_line1 = [], address_line2 = [],
     locality = [], region = [], postal_code = [], country = [], lat = None, lon = None,
     geo_precision = ''none'', phone_e164 = [], email = [], website = ''https://cafe.example'',
     social = [], external_profiles = [], attributes = [], custom_fields = [],
     ls_media = \<lparr>logo = JNull, cover = JNull, gallery = []\<rparr>, reviews_disabled = False,
     source = ''manual'', provenance_notes = [], ls_updated_at = 0, ls_created_at = 0, ls_import_batch = None, ls_submitted_by = None\<rparr>"

definition claimant :: user where
  "claimant = \<lparr>usr_pk = 7, usr_tenant = 1, usr_public_id = ''usr_7'', usr_email = ''ann@cafe.example'', usr_name = ''Ann'',
     usr_phone_e164 = [], usr_created_at = 0\<rparr>"

definition sent_claim :: claim where
  "sent_claim = \<lparr>cl_pk = 20, cl_tenant = 1, cl_listing = 10, cl_claimant = 7, cl_public_id = ''claim_20'', cl_status = C_PENDING,
      cl_method = CM_DOMAIN_EMAIL, role_claimed = ''owner'', verification_started_at = Some 0, cl_expires_at = Some (hours 24), cl_attempts = 0,
      code_hash = ''claim_20:123456'', code_message = None, manual_method_used = [], verified_by = None, verified_at = None, verification_notes = [],
      evidence_ref = [], cl_decided_at = None, cl_decided_by = None, rejection_reason = [], requested_method = ''domain_email'', review_reason = [],
      last_step = ''submitted'', cl_created_at = 0, cl_updated_at = 0\<rparr>"

definition editor :: operator where
  "editor = \<lparr>op_pk = 5, op_public_id = ''op_5'', op_email = ''ed@example.com'', op_is_active = True, op_name = [], op_password = Some ''pw'', op_is_superadmin = False, op_is_staff = False, op_is_superuser = False\<rparr>"

definition sample_claims :: claim_db where
  "sample_claims = \<lparr>wall = 0, entropy = (\<lambda>n. n), draws = 0, seq = 100, in_atomic = False, tenants = [claim_tenant],
     memberships = [\<lparr>mb_operator = 5, mb_tenant = 1, mb_role = ROLE_EDITOR, mb_status = MbActive, mb_pk = 1, mb_invited_by = None, mb_accepted_at = None\<rparr>],
     outbox = [], deliveries = [], mail = [], counters = [], commands = [], accesses = [], listings = [open_listing], users = [claimant],
     operators = [editor], claims = [sent_claim], guards = [], items = [], consent_texts = [], consents = []\<rparr>"

lemmas claim_samples = claim_world_def claim_tenant_def open_listing_def claimant_def sent_claim_def editor_def sample_claims_def

lemma sample_claims_ok: "claims_ok sample_claims"
  by (simp add: claims_ok_def keys_ok_def fk_ok_def owner_ok_def claim_samples)

subsection \<open>The properties\<close>

text \<open>C24: the invariant of the claim tables. Every claim command, of any tenant, with any arguments and on every branch, keeps the primary keys
  and the (tenant, listing, claimant) key of the guards unique, every claim's listing and claimant existing, the counters of every
  guard in range (a guard with three cooldowns is locked), and for every approved claim: it is the only approved one of its
  listing, and its claimant is the listing's owner.\<close>

theorem claim_commands_keep_invariant:
  assumes "claims_ok db" "command_known tn cmd db"
  shows "claims_ok (exec_claim w tn cmd db)"
  using exec_labels [OF assms(2), of w] claims_ok_steps assms(1) by blast

theorem claim_commands_keep_invariant_witness:
  "claims_ok (exec_claim claim_world claim_tenant (Enter sent_claim ''123456'' None) sample_claims)"
  by (rule claim_commands_keep_invariant [OF sample_claims_ok]) simp

text \<open>C23: guessing is bounded. In any run of claim commands and other writes without an unlock of the pair, at most fifteen wrong codes are
  accepted for examination for one (tenant, listing, claimant), and after the fifteenth every further entry for the pair is
  refused.\<close>

theorem wrong_entries_bounded:
  assumes "claims_ok db0" "guess_run w t l u n db0 db"
  shows "n \<le> 15 \<and> (n = 15 \<longrightarrow> tn_pk tn = t \<and> cl_listing c = l \<and> cl_claimant c = u \<longrightarrow> fst (verify_claim_code w' tn c code ip db) \<noteq> Inr x)"
proof -
  from guess_run_tries [OF assms(2,1)] have ok: "claims_ok db" and n: "tries t l u db = tries t l u db0 + n" by simp_all
  have lim: "guess_limit = 15" by (simp add: guess_limit_def MAX_COOLDOWNS_def MAX_WRONG_ENTRIES_def)
  have "n \<le> 15" using tries_le [OF ok, of t l u] n lim by simp
  moreover have "fst (verify_claim_code w' tn c code ip db) \<noteq> Inr x" if "n = 15" "tn_pk tn = t \<and> cl_listing c = l \<and> cl_claimant c = u"
  proof -
    have "tries t l u db = guess_limit" using tries_le [OF ok, of t l u] n lim that(1) by simp
    from tries_limit_locked [OF ok this] that(2) verify_locked show ?thesis by blast
  qed
  ultimately show ?thesis by blast
qed

end
