(* ===== verification/Claim_Outcomes.thy ===== *)
theory Claim_Outcomes
  imports Claim_Props
begin

section \<open>What the claim commands achieve\<close>

text \<open>
  The effect of a correct code and of an approval, in full: the transaction cannot fail on a consistent store, the listing has its
  owner, the claim is approved, an earlier approval is superseded and the other pending claims are rejected. The converse is
  \<open>owner_change_justified\<close>: nothing else changes who owns a listing.
\<close>

subsection \<open>Approval cannot fail\<close>

definition claimants_known :: "'z claim_db_scheme \<Rightarrow> bool" where
  "claimants_known db \<longleftrightarrow> (\<forall>c \<in> set (claims db). find_by usr_pk (cl_claimant c) (users db) \<noteq> None)"

lemma claims_ok_claimants: "claims_ok db \<Longrightarrow> claimants_known db"
  by (auto simp: claims_ok_def claimants_known_def fk_ok_def find_by_None)

lemma claimants_known_aux: "aux_only db db' \<Longrightarrow> claimants_known db' = claimants_known db"
  by (simp add: claimants_known_def aux_only_def)

definition losers :: "world \<Rightarrow> tenant \<Rightarrow> claim \<Rightarrow> listing \<Rightarrow> 'z claim_db_scheme \<Rightarrow> claim list" where
  "losers w tn c l db = filter (\<lambda>r. cl_tenant r = tn_pk tn \<and> cl_listing r = ls_pk l \<and> cl_status r = C_PENDING \<and> cl_pk r \<noteq> cl_pk c
        \<and> \<not> w_locked w (cl_pk r)) (claims db)"

lemma approval_tail_total:
  assumes a: "in_atomic db" and k: "claimants_known db"
  shows "\<exists>eid db'. approval_tail w tn c l u actor now manual prev db = Inr ((eid, approve_fields now manual c), db')
    \<and> but_claims db db' \<and> claims db' = update_where (\<lambda>r. cl_pk r \<in> cl_pk ` set (losers w tn c l db)) (loser_fields now) (claims db)"
proof -
  let ?c = "approve_fields now manual c"
  from quiet_total [OF quiet_rest(2) a] obtain channels d1 where s1: "notify_existing_contacts tn l u prev now db = Inr (channels, d1)" "aux_only db d1" by blast
  then have a1: "in_atomic d1" using a by (simp add: aux_only_def)
  from quiet_total [OF quiet_emit [OF claim_event_types(5)] a1]
  obtain ev d2 where s2: "claim_emit CLAIM_APPROVED (cl_public_id c) tn actor (approval_data ?c l (prev \<noteq> None) (channels \<noteq> []) now manual) d1 = Inr (ev, d2)" "aux_only d1 d2"
    by blast
  then have a2: "in_atomic d2" using a1 by (simp add: aux_only_def)
  from quiet_total [OF quiet_owner_events a2] obtain v d3 where s3: "owner_events tn ?c l u prev channels actor d2 = Inr (v, d3)" "aux_only d2 d3" by blast
  have q: "aux_only db d3" using s1 s2 s3 by (blast intro: aux_only_trans)
  then have a3: "in_atomic d3" "claims d3 = claims db" and k3: "claimants_known d3" using a k by (simp_all add: aux_only_def claimants_known_def)
  have l3: "losers w tn c l d3 = losers w tn c l db" by (simp add: losers_def a3)
  have "\<forall>r \<in> set (losers w tn c l db). find_by usr_pk (cl_claimant r) (users d3) \<noteq> None"
    using k3 by (simp add: losers_def claimants_known_def a3)
  moreover have e: "reject_losers w tn c l now d3 = reject_each tn l now (losers w tn c l db) d3"
    unfolding l3 [symmetric] by (simp add: reject_losers_def losers_def)
  ultimately obtain d4 where s4: "reject_losers w tn c l now d3 = Inr ((), d4)" using reject_each_total [OF a3(1)] by metis
  then have r4: "claims d4 = update_where (\<lambda>r. cl_pk r \<in> cl_pk ` set (losers w tn c l db)) (loser_fields now) (claims db)" "but_claims d3 d4"
    using reject_each_effect [of tn l now "losers w tn c l db" d3 "()" d4] by (simp_all add: e a3)
  then have a4: "in_atomic d4" using a3 by (simp add: but_claimsD)
  have "quiet (case manual of None \<Rightarrow> (\<lambda>d. Inr ((), d)) | Some f \<Rightarrow> decide_claim_item tn ?c ''approved'' (mf_operator f) (mf_notes f) actor now)" (is "quiet ?m")
    by (cases manual) (simp_all add: quiet_return quiet_decide_claim_item)
  from quiet_total [OF this a4] obtain v' d5 where s5: "?m d4 = Inr (v', d5)" "aux_only d4 d5" by blast
  have "approval_tail w tn c l u actor now manual prev db = Inr ((event_id ev, ?c), d5)"
    using s1(1) s2(1) s3(1) s4 s5(1) by (simp add: approval_tail_def then_do_def)
  moreover have "but_claims db d5" using q r4(2) s5(2) by (blast intro: but_claims_trans but_claims_aux)
  moreover have "claims d5 = claims d4" using s5(2) by (simp add: aux_only_def)
  ultimately show ?thesis using r4(1) by auto
qed

lemma approve_fields_simps [simp]:
  "cl_pk (approve_fields now manual r) = cl_pk r" "cl_tenant (approve_fields now manual r) = cl_tenant r"
  "cl_listing (approve_fields now manual r) = cl_listing r" "cl_claimant (approve_fields now manual r) = cl_claimant r"
  "cl_status (approve_fields now manual r) = C_APPROVED"
  by (simp_all add: approve_fields_def Let_def split: option.split)

text \<open>The claims after an approval, row by row.\<close>

definition after_approval :: "world \<Rightarrow> tenant \<Rightarrow> claim \<Rightarrow> listing \<Rightarrow> instant \<Rightarrow> manual_facts option \<Rightarrow> claim \<Rightarrow> claim" where
  "after_approval w tn c l now manual r =
     (if cl_pk r = cl_pk c then approve_fields now manual r
      else if cl_tenant r = tn_pk tn \<and> cl_listing r = ls_pk l then
        (if cl_status r = C_APPROVED then r\<lparr>cl_status := C_SUPERSEDED\<rparr>
         else if cl_status r = C_PENDING \<and> \<not> w_locked w (cl_pk r) then loser_fields now r else r)
      else r)"

lemma approve_row_total:
  assumes a: "in_atomic db" and k: "claimants_known db" and d: "distinct (map cl_pk (claims db))"
  shows "\<exists>eid db'. approve_row w tn c l u actor now manual db = Inr ((eid, approve_fields now manual c), db')
    \<and> claims db' = map (after_approval w tn c l now manual) (claims db)
    \<and> listings db' = update_where (\<lambda>r. ls_pk r = ls_pk l) (\<lambda>r. r\<lparr>ls_owner := Some (usr_pk u), ls_status := L_CLAIMED\<rparr>) (listings db)
    \<and> guards db' = guards db \<and> users db' = users db \<and> wall db' = wall db"
proof -
  let ?rows = "approval_rows tn c l u now manual db"
  let ?h = "\<lambda>r. if cl_pk r = cl_pk c then approve_fields now manual r
      else if cl_tenant r = tn_pk tn \<and> cl_listing r = ls_pk l \<and> cl_status r = C_APPROVED then r\<lparr>cl_status := C_SUPERSEDED\<rparr> else r"
  have rows: "claims ?rows = map ?h (claims db)" "in_atomic ?rows" "users ?rows = users db" "guards ?rows = guards db" "wall ?rows = wall db"
    "listings ?rows = update_where (\<lambda>r. ls_pk r = ls_pk l) (\<lambda>r. r\<lparr>ls_owner := Some (usr_pk u), ls_status := L_CLAIMED\<rparr>) (listings db)"
    using a by (simp_all add: approval_rows_def assign_owner_def save_claim_def supersede_def update_where_def)
  have k': "claimants_known ?rows" using k by (auto simp: claimants_known_def rows)
  from approval_tail_total [OF rows(2) k'] obtain eid db' where
    t: "approve_row w tn c l u actor now manual db = Inr ((eid, approve_fields now manual c), db')" "but_claims ?rows db'"
    "claims db' = update_where (\<lambda>r. cl_pk r \<in> cl_pk ` set (losers w tn c l ?rows)) (loser_fields now) (claims ?rows)"
    unfolding approve_row_steps by blast
  have lose: "cl_pk (?h r) \<in> cl_pk ` set (losers w tn c l ?rows) \<longleftrightarrow>
      cl_pk r \<noteq> cl_pk c \<and> cl_tenant r = tn_pk tn \<and> cl_listing r = ls_pk l \<and> cl_status r = C_PENDING \<and> \<not> w_locked w (cl_pk r)" (is "?in \<longleftrightarrow> ?P r")
    if r: "r \<in> set (claims db)" for r
  proof
    assume ?in
    then obtain s where s: "s \<in> set (claims db)" "cl_pk (?h s) = cl_pk (?h r)" "cl_status (?h s) = C_PENDING" "cl_pk (?h s) \<noteq> cl_pk c"
      "cl_tenant (?h s) = tn_pk tn" "cl_listing (?h s) = ls_pk l" "\<not> w_locked w (cl_pk (?h s))"
      by (auto simp: losers_def rows)
    then have "s = r" using same_key [OF d s(1) r] by (simp split: if_splits)
    with s show "?P r" by (auto split: if_splits)
  next
    assume "?P r"
    then have "?h r = r" "r \<in> set (losers w tn c l ?rows)" using r by (auto simp: losers_def rows image_iff intro!: bexI [of _ r])
    then show ?in by (simp only: imageI)
  qed
  have "claims db' = map (after_approval w tn c l now manual) (claims db)"
    unfolding t(3) update_where_def unfolding rows map_map comp_def
    by (rule map_cong [OF refl]) (simp add: lose after_approval_def)
  then show ?thesis using t(1) but_claimsD [OF t(2)] rows by (intro exI [of _ eid] exI [of _ db']) simp
qed

subsection \<open>Entering a code\<close>

text \<open>When the code of the claim row \<open>c\<close> is examined: what the guard of the pair and the row must say.\<close>

definition entry_open :: "tenant \<Rightarrow> claim \<Rightarrow> claim \<Rightarrow> 'z claim_db_scheme \<Rightarrow> bool" where
  "entry_open tn a c db \<longleftrightarrow> cl_status c \<in> {C_PENDING, C_DISPUTED} \<and> cl_method c = CM_DOMAIN_EMAIL \<and> verified_at c = None \<and> code_hash c \<noteq> []
     \<and> (case cl_expires_at c of None \<Rightarrow> True | Some t \<Rightarrow> wall db < t)
     \<and> (case find_guard (tn_pk tn) (cl_listing a) (cl_claimant a) db of None \<Rightarrow> True | Some g \<Rightarrow> verification_locked_at g = None \<and> \<not> cooling (wall db) g)"

lemma entry_refusal_open:
  assumes "lock_guard tn (cl_listing a) (cl_claimant a) db = (g, db1)"
  shows "entry_refusal (wall db) g c = None \<longleftrightarrow> entry_open tn a c db"
  using assms
  by (cases rule: lock_guard_cases)
     (auto simp: entry_refusal_def entry_open_def VERIFIABLE_STATUSES_def fresh_guard_def cooling_def split: option.splits)

lemma entry_open_log: "log_only db db' \<Longrightarrow> entry_open tn a c db' = entry_open tn a c db"
  by (simp add: entry_open_def log_only_def find_guard_def cong: option.case_cong)

lemma load_claim_log: "log_only db db' \<Longrightarrow> load_claim tn pk db' = load_claim tn pk db"
  by (simp add: load_claim_def log_only_def cong: option.case_cong)

lemma load_claim_atomic [simp]: "load_claim tn pk (db\<lparr>in_atomic := b\<rparr>) = load_claim tn pk db"
  by (rule load_claim_log) simp

lemma entry_open_atomic [simp]: "entry_open tn a c (db\<lparr>in_atomic := b\<rparr>) = entry_open tn a c db"
  by (rule entry_open_log) simp

lemma find_conj: "find P xs = Some x \<Longrightarrow> Q x \<Longrightarrow> find (\<lambda>y. P y \<and> Q y) xs = Some x"
  by (induction xs) (auto split: if_splits)

lemma lock_guard_frame:
  assumes "lock_guard tn lpk upk db = (g, db1)"
  shows "claims db1 = claims db" "listings db1 = listings db" "users db1 = users db" "wall db1 = wall db" "in_atomic db1 = in_atomic db"
  using assms by (cases rule: lock_guard_cases; simp)+

lemma load_claim_lock: "lock_guard tn lpk upk db = (g, db1) \<Longrightarrow> load_claim tn pk db1 = load_claim tn pk db"
  by (simp add: load_claim_def lock_guard_frame cong: option.case_cong)

text \<open>The transaction of an entry that is examined.\<close>

lemma apply_verify_open:
  assumes "load_claim tn (cl_pk a) db = Inr (c, l, u)" "entry_open tn a c db"
  shows "\<exists>g db1. lock_guard tn (cl_listing a) (cl_claimant a) (db\<lparr>in_atomic := True\<rparr>) = (g, db1) \<and>
    apply_verify_claim_code w tn a code db =
      (case (if code_hash c = w_hash w (cl_public_id c) code then correct_entry w tn c u db1 else wrong_entry tn g c l u db1) of
         Inl e \<Rightarrow> Inl e | Inr (x, d) \<Rightarrow> Inr (x, d\<lparr>in_atomic := in_atomic db\<rparr>))"
proof -
  obtain g db1 where lg: "lock_guard tn (cl_listing a) (cl_claimant a) (db\<lparr>in_atomic := True\<rparr>) = (g, db1)" by fastforce
  have "load_claim tn (cl_pk a) db1 = Inr (c, l, u)" using assms(1) load_claim_lock [OF lg] by simp
  moreover have "entry_refusal (wall db1) g c = None"
    using entry_refusal_open [OF lg, of c] assms(2) lock_guard_frame(4) [OF lg] by simp
  ultimately show ?thesis using lg by (simp add: apply_verify_claim_code_def atomic_def verify_checked_def)
qed

text \<open>The command around it.\<close>

lemma verify_runs:
  assumes "\<not> in_atomic db" "claimant_of a db = Some u" "check_verify w tn ip (wall db) db = Inr (v, d)" "allowed v"
  shows "\<exists>row db2. log_only db db2 \<and> \<not> in_atomic db2 \<and>
    (\<forall>c' ok eid db3. apply_verify_claim_code w tn a code db2 = Inr ((c', ok, eid), db3) \<longrightarrow>
       verify_claim_code w tn a code ip db = (Inr (c', ok), log_conclude row ''applied'' eid None None db3))"
proof -
  obtain row db2 where rec: "log_received ''claim.verify'' (Some (tn_pk tn)) None (visitor u) [] [] (Some (JObj [(''claim_id'', JStr (cl_public_id a))])) d = (row, db2)"
    by fastforce
  have "log_only db db2" by (rule log_only_received [OF rec log_only_checks(2) [OF assms(3)]])
  moreover have "\<not> in_atomic db2" using log_received_simps(8) [OF rec] assms(1,3) by (auto simp: check_verify_def only_counted_def dest!: only_counted_check)
  ultimately show ?thesis using assms rec
    by (intro exI [of _ row] exI [of _ db2]) (simp add: verify_claim_code_def require_autocommit_def)
qed

lemma load_claim_tenant:
  assumes ok: "claims_ok db" and lc: "load_claim tn pk db = Inr (c, l, u)"
  shows "ls_tenant l = tn_pk tn"
proof -
  note load = load_claimD [OF lc]
  have "fk_ok db c" using ok load(2) by (simp add: claims_ok_def)
  then obtain k where k: "k \<in> set (listings db)" "ls_pk k = cl_listing c" "ls_tenant k = cl_tenant c" unfolding fk_ok_def by fastforce
  have "distinct (map ls_pk (listings db))" using ok by (simp add: claims_ok_def keys_ok_def)
  moreover have "l \<in> set (listings db)" "ls_pk l = ls_pk k" using find_by_SomeD [OF load(5)] k by simp_all
  ultimately have "l = k" using k(1) by (blast intro: same_key)
  with k(3) load(4) show ?thesis by simp
qed

lemma correct_entry_approves:
  assumes a: "in_atomic db" and ok: "claims_ok db" and lc: "load_claim tn pk db = Inr (c, l, u)" and s: "cl_status c = C_PENDING" "ls_status l = L_UNCLAIMED"
  shows "\<exists>eid db'. correct_entry w tn c u db = Inr ((approve_fields (wall db) None (verified_fields (wall db) c), True, eid), db')
    \<and> claims db' = map (after_approval w tn c l (wall db) None) (claims (save_claim c (verified_fields (wall db)) db))
    \<and> listings db' = update_where (\<lambda>r. ls_pk r = ls_pk l) (\<lambda>r. r\<lparr>ls_owner := Some (usr_pk u), ls_status := L_CLAIMED\<rparr>) (listings db)"
proof -
  let ?v = "verified_fields (wall db)"
  let ?db = "save_claim c ?v db"
  note load = load_claimD [OF lc]
  have ok': "claims_ok ?db" using claims_ok_claim_write [OF ok] by simp
  have keys: "distinct (map cl_pk (claims ?db))" using ok' by (simp add: claims_ok_def keys_ok_def)
  have tn: "ls_tenant l = tn_pk tn" by (rule load_claim_tenant [OF ok lc])
  have "find (\<lambda>l. ls_pk l = cl_listing (?v c) \<and> ls_tenant l = tn_pk tn) (listings ?db) = Some l"
    using find_conj [of "\<lambda>l. ls_pk l = cl_listing c" "listings db" l "\<lambda>l. ls_tenant l = tn_pk tn"] load(5) tn
    by (simp add: find_by_def save_claim_def verified_fields_def)
  then have r: "resolve_verified_claim w tn (?v c) u (wall db) ?db =
      approve_row w tn (?v c) l u [(''type'', JStr ''visitor''), (''id'', JStr (usr_public_id u))] (wall db) None ?db"
    using s(2) by (simp add: resolve_verified_claim_def)
  have "in_atomic ?db" using a by (simp add: save_claim_def)
  from approve_row_total [OF this claims_ok_claimants [OF ok'] keys] obtain eid db' where
    t: "approve_row w tn (?v c) l u [(''type'', JStr ''visitor''), (''id'', JStr (usr_public_id u))] (wall db) None ?db = Inr ((eid, approve_fields (wall db) None (?v c)), db')"
    "claims db' = map (after_approval w tn (?v c) l (wall db) None) (claims ?db)"
    "listings db' = update_where (\<lambda>r. ls_pk r = ls_pk l) (\<lambda>r. r\<lparr>ls_owner := Some (usr_pk u), ls_status := L_CLAIMED\<rparr>) (listings ?db)"
    by blast
  have "after_approval w tn (?v c) l (wall db) None = after_approval w tn c l (wall db) None"
    by (rule ext) (simp add: after_approval_def verified_fields_def)
  with t r s(1) show ?thesis by (simp add: correct_entry_def Let_def then_do_def save_claim_def)
qed

text \<open>The rows of the listing's claims after the correct entry of \<open>c\<close>.\<close>

lemma after_approval_keys [simp]:
  "cl_pk (after_approval w tn c l now manual r) = cl_pk r" "cl_listing (after_approval w tn c l now manual r) = cl_listing r"
  by (simp_all add: after_approval_def)

lemma find_by_map: "(\<And>r. key (f r) = key r) \<Longrightarrow> find_by key k (map f xs) = map_option f (find_by key k xs)"
  by (induction xs) auto

lemma claim_row_after:
  assumes ok: "claims_ok db" and lc: "load_claim tn pk db = Inr (c, l, u)"
  shows "find_by cl_pk pk (map (\<lambda>r. after_approval w tn c k now None (if cl_pk r = cl_pk c then verified_fields now r else r)) (claims db)) =
    Some (approve_fields now None (verified_fields now c))"
proof -
  note load = load_claimD [OF lc]
  have "find_by cl_pk pk (claims db) = Some c"
    using find_by_distinct [of cl_pk "claims db" c] load(2,3) ok by (simp add: claims_ok_def keys_ok_def)
  moreover have "cl_pk (after_approval w tn c k now None (if cl_pk r = cl_pk c then verified_fields now r else r)) = cl_pk r" for r
    by (simp add: verified_fields_def)
  moreover have "after_approval w tn c k now None (verified_fields now c) = approve_fields now None (verified_fields now c)"
    by (simp add: verified_fields_def after_approval_def)
  ultimately show ?thesis by (simp add: find_by_map)
qed

lemma others_after:
  assumes ok: "claims_ok db" and lc: "load_claim tn pk db = Inr (c, l, u)"
    and r: "r \<in> set (map (\<lambda>r. after_approval w tn c l now None (if cl_pk r = cl_pk c then verified_fields now r else r)) (claims db))"
      "cl_listing r = ls_pk l" "cl_pk r \<noteq> cl_pk c"
  shows "cl_status r \<noteq> C_APPROVED \<and> (cl_status r = C_PENDING \<longrightarrow> w_locked w (cl_pk r))"
proof -
  from r obtain x where x: "x \<in> set (claims db)" "r = after_approval w tn c l now None (if cl_pk x = cl_pk c then verified_fields now x else x)" by auto
  with r(3) have x': "cl_pk x \<noteq> cl_pk c" "r = after_approval w tn c l now None x" by (auto simp: verified_fields_def split: if_splits)
  with r(2) have xl: "cl_listing x = ls_pk l" by simp
  note load = load_claimD [OF lc]
  have d: "distinct (map ls_pk (listings db))" and f: "fk_ok db x" using ok x(1) by (simp_all add: claims_ok_def keys_ok_def)
  from f obtain k where k: "k \<in> set (listings db)" "ls_pk k = cl_listing x" "ls_tenant k = cl_tenant x" unfolding fk_ok_def by fastforce
  have "l \<in> set (listings db)" using find_by_SomeD [OF load(5)] by simp
  with k xl d have "l = k" using same_key by metis
  then have "cl_tenant x = tn_pk tn" using k(3) load_claim_tenant [OF ok lc] by simp
  then show ?thesis using x' xl by (simp add: after_approval_def)
qed

lemma sample_entry:
  "load_claim claim_tenant 20 sample_claims = Inr (sent_claim, open_listing, claimant)"
  "entry_open claim_tenant sent_claim sent_claim sample_claims" "claimant_of sent_claim sample_claims = Some claimant"
  "\<not> in_atomic sample_claims" "check_verify claim_world claim_tenant None (wall sample_claims) sample_claims = Inr (allow, sample_claims)" "allowed allow"
  by (simp_all add: load_claim_def entry_open_def find_guard_def claimant_of_def check_verify_def check_def require_autocommit_def allow_def
      cooling_def hours_def claim_samples)

lemma sample_wrong: "guessed claim_world claim_tenant (Enter sent_claim ''000000'' None) sample_claims = Some (1, 10, 7)"
proof -
  from verify_runs [OF sample_entry(4,3,5,6), of "''000000''"] obtain row db2 where
    v: "log_only sample_claims db2" "\<not> in_atomic db2"
      "\<forall>c' ok eid db3. apply_verify_claim_code claim_world claim_tenant sent_claim ''000000'' db2 = Inr ((c', ok, eid), db3) \<longrightarrow>
       verify_claim_code claim_world claim_tenant sent_claim ''000000'' None sample_claims = (Inr (c', ok), log_conclude row ''applied'' eid None None db3)"
    by blast
  have "load_claim claim_tenant (cl_pk sent_claim) db2 = Inr (sent_claim, open_listing, claimant)" "entry_open claim_tenant sent_claim sent_claim db2"
    using sample_entry(1,2) load_claim_log [OF v(1)] entry_open_log [OF v(1)] by (simp_all add: sent_claim_def)
  from apply_verify_open [OF this, of claim_world "''000000''"] obtain g db1 where
    lg: "lock_guard claim_tenant (cl_listing sent_claim) (cl_claimant sent_claim) (db2\<lparr>in_atomic := True\<rparr>) = (g, db1)" and
    e: "apply_verify_claim_code claim_world claim_tenant sent_claim ''000000'' db2 =
      (case wrong_entry claim_tenant g sent_claim open_listing claimant db1 of Inl e \<Rightarrow> Inl e | Inr (x, d) \<Rightarrow> Inr (x, d\<lparr>in_atomic := in_atomic db2\<rparr>))"
    by (auto simp: sent_claim_def claim_world_def)
  have "in_atomic db1" using lock_guard_frame(5) [OF lg] by simp
  from wrong_entry_total [OF this, of claim_tenant g sent_claim open_listing claimant] obtain c' eid d where
    "apply_verify_claim_code claim_world claim_tenant sent_claim ''000000'' db2 = Inr ((c', False, eid), d)" unfolding e by auto
  with v(3) obtain db' where
    "verify_claim_code claim_world claim_tenant sent_claim ''000000'' None sample_claims = (Inr (c', False), db')" by blast
  then show ?thesis by (simp add: guessed_def sent_claim_def claim_tenant_def)
qed

theorem wrong_entries_bounded_witness:
  "guess_run claim_world 1 10 7 1 sample_claims (exec_claim claim_world claim_tenant (Enter sent_claim ''000000'' None) sample_claims) \<and> (1::nat) \<le> 15"
proof -
  have "guess_run claim_world 1 10 7 (if guessed claim_world claim_tenant (Enter sent_claim ''000000'' None) sample_claims = Some (1, 10, 7) then Suc 0 else 0)
      sample_claims (exec_claim claim_world claim_tenant (Enter sent_claim ''000000'' None) sample_claims)"
    by (rule command [OF start]) (simp_all add: unlocks_def)
  then have run: "guess_run claim_world 1 10 7 1 sample_claims (exec_claim claim_world claim_tenant (Enter sent_claim ''000000'' None) sample_claims)"
    by (simp add: sample_wrong)
  from wrong_entries_bounded [OF sample_claims_ok run] run show ?thesis by blast
qed

lemma correct_code_run:
  assumes ok: "claims_ok db" and at: "\<not> in_atomic db" and rate: "check_verify w tn ip (wall db) db = Inr (v, d)" "allowed v"
    and lc: "load_claim tn (cl_pk a) db = Inr (c, l, u)" and arg: "cl_claimant a = cl_claimant c" and e: "entry_open tn a c db"
    and code: "code_hash c = w_hash w (cl_public_id c) code" and s: "cl_status c = C_PENDING" "ls_status l = L_UNCLAIMED"
  shows "\<exists>db'. verify_claim_code w tn a code ip db = (Inr (approve_fields (wall db) None (verified_fields (wall db) c), True), db')
    \<and> claims db' = map (\<lambda>r. after_approval w tn c l (wall db) None (if cl_pk r = cl_pk c then verified_fields (wall db) r else r)) (claims db)
    \<and> listings db' = update_where (\<lambda>r. ls_pk r = ls_pk l) (\<lambda>r. r\<lparr>ls_owner := Some (usr_pk u), ls_status := L_CLAIMED\<rparr>) (listings db)"
proof -
  note load = load_claimD [OF lc]
  have u: "claimant_of a db = Some u" using load(6) arg by (simp add: claimant_of_def)
  from verify_runs [OF at u rate, of code] obtain row db2 where v: "log_only db db2" "\<not> in_atomic db2"
      "\<forall>c' ok eid db3. apply_verify_claim_code w tn a code db2 = Inr ((c', ok, eid), db3) \<longrightarrow>
       verify_claim_code w tn a code ip db = (Inr (c', ok), log_conclude row ''applied'' eid None None db3)" by blast
  have wall: "wall db2 = wall db" using v(1) by (simp add: log_only_def)
  have lc2: "load_claim tn (cl_pk a) db2 = Inr (c, l, u)" and e2: "entry_open tn a c db2"
    using lc e load_claim_log [OF v(1)] entry_open_log [OF v(1)] by simp_all
  from apply_verify_open [OF this, of w code] code obtain g db1 where
    lg: "lock_guard tn (cl_listing a) (cl_claimant a) (db2\<lparr>in_atomic := True\<rparr>) = (g, db1)" and
    av: "apply_verify_claim_code w tn a code db2 =
      (case correct_entry w tn c u db1 of Inl e \<Rightarrow> Inl e | Inr (x, d) \<Rightarrow> Inr (x, d\<lparr>in_atomic := in_atomic db2\<rparr>))" by auto
  note fr = lock_guard_frame [OF lg]
  have ok1: "claims_ok db1"
  proof -
    have "claims_ok (db2\<lparr>in_atomic := True\<rparr>)" by (rule claims_ok_outside [OF ok]) (simp add: log_only_outside [OF v(1)])
    then show ?thesis using row_steps_lock_guard [OF lg] claims_ok_steps by blast
  qed
  have lc1: "load_claim tn (cl_pk a) db1 = Inr (c, l, u)" using lc2 load_claim_lock [OF lg] by simp
  let ?v = "verified_fields (wall db)" and ?c = "approve_fields (wall db) None (verified_fields (wall db) c)"
  from correct_entry_approves [OF _ ok1 lc1 s, of w] fr wall obtain eid db3 where
    ce: "correct_entry w tn c u db1 = Inr ((?c, True, eid), db3)"
    "claims db3 = map (after_approval w tn c l (wall db) None) (claims (save_claim c ?v db1))"
    "listings db3 = update_where (\<lambda>r. ls_pk r = ls_pk l) (\<lambda>r. r\<lparr>ls_owner := Some (usr_pk u), ls_status := L_CLAIMED\<rparr>) (listings db1)"
    by auto
  let ?db' = "log_conclude row ''applied'' eid None None (db3\<lparr>in_atomic := in_atomic db2\<rparr>)"
  have "apply_verify_claim_code w tn a code db2 = Inr ((?c, True, eid), db3\<lparr>in_atomic := in_atomic db2\<rparr>)" by (simp add: av ce(1))
  with v(3) have run: "verify_claim_code w tn a code ip db = (Inr (?c, True), ?db')" by blast
  have cs: "claims ?db' = map (\<lambda>r. after_approval w tn c l (wall db) None (if cl_pk r = cl_pk c then ?v r else r)) (claims db)"
    using v(1) fr by (simp add: log_conclude_def ce(2) save_claim_rows log_only_def comp_def)
  have lsr: "listings ?db' = update_where (\<lambda>r. ls_pk r = ls_pk l) (\<lambda>r. r\<lparr>ls_owner := Some (usr_pk u), ls_status := L_CLAIMED\<rparr>) (listings db)"
    using v(1) fr by (simp add: log_conclude_def ce(3) log_only_def)
  from run cs lsr show ?thesis by blast
qed



subsection \<open>Who becomes the owner\<close>

text \<open>What the command that changes a listing must have been, for the claim \<open>c\<close> on the listing \<open>l\<close>.\<close>

fun justified :: "world \<Rightarrow> tenant \<Rightarrow> claim_cmd \<Rightarrow> claim \<Rightarrow> listing \<Rightarrow> 'z claim_db_scheme \<Rightarrow> bool" where
  "justified w tn (Enter a code ip) c l db \<longleftrightarrow>
     cl_pk c = cl_pk a \<and> cl_status c = C_PENDING \<and> ls_status l = L_UNCLAIMED \<and> entry_open tn a c db \<and> code_hash c = w_hash w (cl_public_id c) code"
| "justified w tn (Approve a oper method_used notes ev_ref transfer) c l db \<longleftrightarrow>
     cl_pk c = cl_pk a \<and> cl_status c \<in> {C_PENDING, C_DISPUTED} \<and> strip notes \<noteq> [] \<and> method_used \<in> set MANUAL_METHODS
     \<and> (case active_membership (tn_pk tn) oper db of None \<Rightarrow> False | Some m \<Rightarrow> ROLE_EDITOR \<le> mb_role m)
     \<and> (ls_status l = L_CLAIMED \<longrightarrow> cl_status c = C_DISPUTED \<and> transfer)"
| "justified w tn cmd c l db \<longleftrightarrow> False"

definition new_owner :: "listing \<Rightarrow> user \<Rightarrow> listing" where
  "new_owner l u = l\<lparr>ls_owner := Some (usr_pk u), ls_status := L_CLAIMED\<rparr>"

lemma approve_row_listings:
  assumes "approve_row w tn c l u actor now manual db = Inr (x, db')"
  shows "listings db' = update_where (\<lambda>r. ls_pk r = ls_pk l) (\<lambda>r. new_owner r u) (listings db)"
proof -
  from staysD [OF same_listings.stays_approval_tail assms [unfolded approve_row_steps]]
  have "listings db' = listings (approval_rows tn c l u now manual db)" .
  then show ?thesis by (simp add: approval_rows_def assign_owner_def save_claim_def supersede_def new_owner_def)
qed

lemma verify_listings:
  assumes av: "apply_verify_claim_code w tn a code db = Inr (x, db')" and ok: "claims_ok db"
  shows "listings db' = listings db \<or> (\<exists>c l u. load_claim tn (cl_pk a) db = Inr (c, l, u) \<and> ls_status l \<noteq> L_SUSPENDED
    \<and> justified w tn (Enter a code ip) c l db \<and> listings db' = update_where (\<lambda>r. ls_pk r = ls_pk l) (\<lambda>r. new_owner r u) (listings db))"
proof -
  obtain g db1 where lg: "lock_guard tn (cl_listing a) (cl_claimant a) (db\<lparr>in_atomic := True\<rparr>) = (g, db1)" by fastforce
  note fr = lock_guard_frame [OF lg]
  from av lg obtain c l u d where lc1: "load_claim tn (cl_pk a) db1 = Inr (c, l, u)" and d: "db' = d\<lparr>in_atomic := in_atomic db\<rparr>"
    and vc: "verify_checked w tn g code (c, l, u) db1 = Inr (x, d)"
    by (auto simp: apply_verify_claim_code_def atomic_Inr bind_result_eq_Inr)
  have lc: "load_claim tn (cl_pk a) db = Inr (c, l, u)" using lc1 load_claim_lock [OF lg] by simp
  from vc have open': "entry_open tn a c db"
    using entry_refusal_open [OF lg, of c] fr(4) by (simp add: verify_checked_def split: option.splits)
  show ?thesis
  proof (cases "code_hash c = w_hash w (cl_public_id c) code")
    case False
    with vc have "wrong_entry tn g c l u db1 = Inr (x, d)" by (simp add: verify_checked_def split: option.splits)
    from same_listings.wrong_entry_R [OF this] show ?thesis using d fr by simp
  next
    case True
    with vc have ce: "correct_entry w tn c u db1 = Inr (x, d)" by (simp add: verify_checked_def split: option.splits)
    let ?v = "verified_fields (wall db1)"
    let ?db2 = "save_claim c ?v db1"
    show ?thesis
    proof (cases "cl_status c = C_DISPUTED")
      case True
      with ce d fr show ?thesis by (auto simp: correct_entry_def Let_def save_claim_def)
    next
      case False
      then have p: "cl_status c = C_PENDING" using open' by (simp add: entry_open_def)
      from ce False obtain y where rv: "resolve_verified_claim w tn (?v c) u (wall db1) ?db2 = Inr (y, d)"
        by (auto simp: correct_entry_def Let_def then_do_Inr split: prod.splits)
      have "find (\<lambda>l. ls_pk l = cl_listing (?v c) \<and> ls_tenant l = tn_pk tn) (listings ?db2) = Some l"
        using find_conj [of "\<lambda>l. ls_pk l = cl_listing c" "listings db" l "\<lambda>l. ls_tenant l = tn_pk tn"] load_claimD(5) [OF lc] load_claim_tenant [OF ok lc] fr
        by (simp add: find_by_def save_claim_def verified_fields_def)
      note rv = rv [unfolded resolve_verified_claim_def this option.case Let_def]
      show ?thesis
      proof (cases "ls_status l")
        case L_UNCLAIMED
        with rv have "approve_row w tn (?v c) l u [(''type'', JStr ''visitor''), (''id'', JStr (usr_public_id u))] (wall db1) None ?db2 = Inr (y, d)" by simp
        from approve_row_listings [OF this] have "listings db' = update_where (\<lambda>r. ls_pk r = ls_pk l) (\<lambda>r. new_owner r u) (listings db)"
          using d fr by (simp add: save_claim_def)
        then show ?thesis using L_UNCLAIMED lc open' True p load_claimD(3) [OF lc] by auto
      next
        case L_CLAIMED
        with rv obtain z where "dispute tn (?v c) l u [(''type'', JStr ''visitor''), (''id'', JStr (usr_public_id u))] ?db2 = Inr (z, d)"
          by (auto simp: then_do_Inr)
        from staysD [OF same_listings.stays_dispute this] show ?thesis using d fr by (simp add: save_claim_def)
      next
        case L_SUSPENDED
        with rv d fr show ?thesis by (auto simp: save_claim_def)
      qed
    qed
  qed
qed

lemma approve_listings:
  assumes "apply_approve w tn pk oper method_used notes ev_ref transfer m actor db = Inr (x, db')"
  shows "listings db' = listings db \<or> (\<exists>c l u. load_claim tn pk db = Inr (c, l, u) \<and> ls_status l \<noteq> L_SUSPENDED
    \<and> cl_status c \<in> {C_PENDING, C_DISPUTED} \<and> strip notes \<noteq> [] \<and> method_used \<in> set MANUAL_METHODS
    \<and> (case m of None \<Rightarrow> False | Some mb \<Rightarrow> ROLE_EDITOR \<le> mb_role mb)
    \<and> (ls_status l = L_CLAIMED \<longrightarrow> cl_status c = C_DISPUTED \<and> transfer)
    \<and> listings db' = update_where (\<lambda>r. ls_pk r = ls_pk l) (\<lambda>r. new_owner r u) (listings db))"
proof -
  from assms have role: "require_role m DECIDE_ROLE = Inr ()" and pre: "strip notes \<noteq> []" "method_used \<in> set MANUAL_METHODS"
    by (auto simp: apply_approve_def bind_result_eq_Inr Let_def split: if_splits)
  then have m: "case m of None \<Rightarrow> False | Some mb \<Rightarrow> ROLE_EDITOR \<le> mb_role mb"
    by (auto simp: require_role_def DECIDE_ROLE_def split: option.splits if_splits)
  from assms role pre obtain c l u where lc: "load_claim tn pk db = Inr (c, l, u)" and s: "cl_status c \<in> {C_PENDING, C_DISPUTED}" "ls_status l \<noteq> L_SUSPENDED"
    by (auto simp: apply_approve_def bind_result_eq_Inr Let_def OPEN_CLAIM_STATUSES_def split: if_splits)
  show ?thesis
  proof (cases "cl_status c = C_PENDING \<and> ls_status l = L_CLAIMED")
    case True
    with assms role pre lc obtain y where "dispute tn c l u actor db = Inr (y, db')"
      by (auto simp: apply_approve_def Let_def then_do_Inr OPEN_CLAIM_STATUSES_def)
    from staysD [OF same_listings.stays_dispute this] show ?thesis by simp
  next
    case False
    with assms role pre lc s obtain f y where "approve_row w tn c l u actor (wall db) f db = Inr (y, db')" and t: "ls_status l = L_CLAIMED \<longrightarrow> cl_status c = C_DISPUTED \<and> transfer"
      by (auto simp: apply_approve_def Let_def then_do_Inr OPEN_CLAIM_STATUSES_def split: if_splits)
    from approve_row_listings [OF this(1)] lc s pre m t show ?thesis by blast
  qed
qed

lemma quiet_commands_listings:
  assumes known: "command_known tn cmd db" and "\<And>a code ip. cmd \<noteq> Enter a code ip" "\<And>a oper m why ev tr. cmd \<noteq> Approve a oper m why ev tr"
  shows "listings (exec_claim w tn cmd db) = listings db"
proof (cases cmd)
  case (Submit l meth claimant consent ip)
  obtain r db' where s: "submit_claim w tn l meth claimant consent ip db = (r, db')" by fastforce
  have "listings db' = listings db" using s
  proof (cases rule: submit_shell)
    case (ran db2 cf cs pid c eid db3)
    then have "listing_known tn l db2" using known Submit by (simp add: listing_known_def log_only_def)
    from same_listings.submit_R [OF ran(3) this] ran show ?thesis by (simp add: log_only_def)
  qed (simp add: log_only_def)
  with s Submit show ?thesis by simp
next
  case (Resend c ip)
  obtain r db' where s: "start_claim_verification w tn c ip db = (r, db')" by fastforce
  then have "listings db' = listings db"
    by (cases rule: start_shell) (auto simp: log_only_def dest: staysD [OF same_listings.stays_start])
  with s Resend show ?thesis by simp
next
  case (Reject c oper reason)
  obtain r db' where s: "reject_claim tn c oper reason db = (r, db')" by fastforce
  have "listings db' = listings db" using s unfolding reject_claim_def
    by (cases rule: review_shell) (auto simp: log_only_def dest: staysD [OF same_listings.stays_reject])
  with s Reject show ?thesis by simp
next
  case (Unlock it oper why)
  obtain r db' where s: "unlock_verification tn it oper why db = (r, db')" by fastforce
  have "listings db' = listings db" using s unfolding unlock_verification_def queue_command_def
    by (cases rule: review_shell) (auto simp: log_only_def dest: same_listings.queue_R)
  with s Unlock show ?thesis by simp
next
  case (Unblock it oper why)
  obtain r db' where s: "unblock_claims tn it oper why db = (r, db')" by fastforce
  have "listings db' = listings db" using s unfolding unblock_claims_def queue_command_def
    by (cases rule: review_shell) (auto simp: log_only_def dest: same_listings.queue_R)
  with s Unblock show ?thesis by simp
qed (use assms in auto)

text \<open>How a command hands a listing over.\<close>

definition hands_over :: "world \<Rightarrow> tenant \<Rightarrow> claim_cmd \<Rightarrow> 'z claim_db_scheme \<Rightarrow> claim \<Rightarrow> listing \<Rightarrow> user \<Rightarrow> bool" where
  "hands_over w tn cmd db c l u \<longleftrightarrow> ls_status l \<noteq> L_SUSPENDED \<and> justified w tn cmd c l db
    \<and> listings (exec_claim w tn cmd db) = update_where (\<lambda>r. ls_pk r = ls_pk l) (\<lambda>r. new_owner r u) (listings db)"

lemma enter_hands_over:
  assumes ok: "claims_ok db" and changed: "listings (exec_claim w tn (Enter a code ip) db) \<noteq> listings db"
  shows "\<exists>c l u. load_claim tn (cl_pk a) db = Inr (c, l, u) \<and> hands_over w tn (Enter a code ip) db c l u"
proof -
  obtain r db' where s: "verify_claim_code w tn a code ip db = (r, db')" by fastforce
  then show ?thesis
  proof (cases rule: verify_shell)
    case (refused e)
    with s changed show ?thesis by (simp add: log_only_def)
  next
    case (ran db2 c' okk eid db3)
    have ok2: "claims_ok db2" by (rule claims_ok_outside [OF ok log_only_outside [OF ran(1)]])
    have l: "listings db2 = listings db" "listings (exec_claim w tn (Enter a code ip) db) = listings db3" using ran(1,4) s by (simp_all add: log_only_def)
    from verify_listings [OF ran(2) ok2, of ip] changed l obtain c l u where
      "load_claim tn (cl_pk a) db2 = Inr (c, l, u)" "ls_status l \<noteq> L_SUSPENDED" "justified w tn (Enter a code ip) c l db2"
      "listings db3 = update_where (\<lambda>r. ls_pk r = ls_pk l) (\<lambda>r. new_owner r u) (listings db2)" by metis
    with load_claim_log [OF ran(1)] entry_open_log [OF ran(1)] l show ?thesis
      by (intro exI [of _ c] exI [of _ l] exI [of _ u]) (auto simp: hands_over_def)
  qed
qed

lemma approve_hands_over:
  assumes changed: "listings (exec_claim w tn (Approve a oper method_used why ev_ref transfer) db) \<noteq> listings db" (is "listings (exec_claim w tn ?cmd db) \<noteq> _")
  shows "\<exists>c l u. load_claim tn (cl_pk a) db = Inr (c, l, u) \<and> hands_over w tn ?cmd db c l u"
proof -
  obtain r db' where s: "approve_claim w tn a oper method_used why ev_ref transfer db = (r, db')" by fastforce
  show ?thesis using s unfolding approve_claim_def
  proof (cases rule: review_shell)
    case (refused e)
    with s changed show ?thesis by (simp add: log_only_def)
  next
    case (ran db1 x eid d)
    have l: "listings db1 = listings db" "listings (exec_claim w tn ?cmd db) = listings d" using ran(1,4) s by (simp_all add: log_only_def)
    have lg: "load_claim tn pk (db1\<lparr>in_atomic := True\<rparr>) = load_claim tn pk db" for pk using load_claim_log [OF ran(1)] by simp
    from approve_listings [OF ran(2)] changed l obtain c l u where c: "load_claim tn (cl_pk a) db = Inr (c, l, u)" "ls_status l \<noteq> L_SUSPENDED"
      "cl_status c \<in> {C_PENDING, C_DISPUTED}" "strip why \<noteq> []" "method_used \<in> set MANUAL_METHODS"
      "case active_membership (tn_pk tn) oper db of None \<Rightarrow> False | Some mb \<Rightarrow> ROLE_EDITOR \<le> mb_role mb"
      "ls_status l = L_CLAIMED \<longrightarrow> cl_status c = C_DISPUTED \<and> transfer"
      "listings d = update_where (\<lambda>r. ls_pk r = ls_pk l) (\<lambda>r. new_owner r u) (listings db)" unfolding lg by auto
    have "justified w tn ?cmd c l db" using c(3-7) load_claimD(3) [OF c(1)] by simp
    with c(1,2,8) l(2) have "hands_over w tn ?cmd db c l u" by (simp add: hands_over_def)
    with c(1) show ?thesis by blast
  qed
qed

lemma command_hands_over:
  assumes "claims_ok db" "command_known tn cmd db" "listings (exec_claim w tn cmd db) \<noteq> listings db"
  shows "\<exists>pk c l u. load_claim tn pk db = Inr (c, l, u) \<and> hands_over w tn cmd db c l u"
proof (cases cmd)
  case (Enter a code ip)
  with enter_hands_over [OF assms(1)] assms(3) show ?thesis by blast
next
  case (Approve a oper m why ev tr)
  with approve_hands_over assms(3) show ?thesis by blast
qed (use quiet_commands_listings [OF assms(2), of w] assms(3) in auto)

text \<open>C22: nobody becomes the owner by accident. When a claim command changes a listing, the listing was not suspended, and the change is that the
  claimant of a claim on it becomes its owner and it becomes claimed; and either the command entered the right code of that pending
  claim, unexpired and with the pair neither locked nor cooling down, on an unclaimed listing, or an operator with the editor role
  approved that open claim with notes and a known method, and where the listing already had an owner the claim was disputed and the
  transfer confirmed.\<close>

theorem owner_change_justified:
  assumes ok: "claims_ok db" and known: "command_known tn cmd db"
    and changed: "find_by ls_pk k (listings (exec_claim w tn cmd db)) \<noteq> find_by ls_pk k (listings db)"
  shows "\<exists>pk c l u. load_claim tn pk db = Inr (c, l, u) \<and> k = ls_pk l \<and> ls_status l \<noteq> L_SUSPENDED \<and> justified w tn cmd c l db
    \<and> find_by ls_pk k (listings (exec_claim w tn cmd db)) = Some (new_owner l u)"
proof -
  from changed have "listings (exec_claim w tn cmd db) \<noteq> listings db" by auto
  from command_hands_over [OF ok known this] obtain pk c l u where c: "load_claim tn pk db = Inr (c, l, u)" and h: "hands_over w tn cmd db c l u" by blast
  have f: "find_by ls_pk k (listings (exec_claim w tn cmd db)) = map_option (\<lambda>r. if ls_pk r = ls_pk l then new_owner r u else r) (find_by ls_pk k (listings db))"
    unfolding conjunct2 [OF conjunct2 [OF h [unfolded hands_over_def]]] by (rule find_by_update_where) (simp add: new_owner_def)
  with changed have k: "k = ls_pk l" by (cases "find_by ls_pk k (listings db)") (auto dest: find_by_SomeD split: if_splits)
  have "find_by ls_pk k (listings db) = Some l" using load_claimD(5,8) [OF c] k by simp
  with f c k h show ?thesis by (auto simp: hands_over_def)
qed

theorem owner_change_justified_witness:
  "\<exists>pk c l u. load_claim claim_tenant pk sample_claims = Inr (c, l, u) \<and> 10 = ls_pk l \<and> ls_status l \<noteq> L_SUSPENDED
    \<and> justified claim_world claim_tenant (Enter sent_claim ''123456'' None) c l sample_claims
    \<and> find_by ls_pk 10 (listings (exec_claim claim_world claim_tenant (Enter sent_claim ''123456'' None) sample_claims)) = Some (new_owner l u)"
proof (rule owner_change_justified [OF sample_claims_ok])
  have h: "load_claim claim_tenant (cl_pk sent_claim) sample_claims = Inr (sent_claim, open_listing, claimant)"
    "code_hash sent_claim = w_hash claim_world (cl_public_id sent_claim) ''123456''" "cl_status sent_claim = C_PENDING" "ls_status open_listing = L_UNCLAIMED"
    using sample_entry(1) by (simp_all add: sent_claim_def claim_world_def open_listing_def)
  from correct_code_run [OF sample_claims_ok sample_entry(4,5,6) h(1) refl sample_entry(2) h(2-4)] obtain x db' where
    "verify_claim_code claim_world claim_tenant sent_claim ''123456'' None sample_claims = (x, db')"
    "listings db' = update_where (\<lambda>r. ls_pk r = ls_pk open_listing) (\<lambda>r. r\<lparr>ls_owner := Some (usr_pk claimant), ls_status := L_CLAIMED\<rparr>) (listings sample_claims)"
    by blast
  then show "find_by ls_pk 10 (listings (exec_claim claim_world claim_tenant (Enter sent_claim ''123456'' None) sample_claims)) \<noteq> find_by ls_pk 10 (listings sample_claims)"
    by (simp add: claim_samples)
qed simp

end
