(* ===== verification/Claim_Limits.thy ===== *)
theory Claim_Limits
  imports Claim_Outcomes
begin

section \<open>Rejections that block, and the notice that is not sent\<close>

text \<open>
  A third rejection blocks the pair from claiming the listing until an operator lifts the block. The last property is about the
  operators' catch-up notice: it looks at \<^verbatim>\<open>updated_at\<close>, which the partial saves of the claim commands do not write.
\<close>

subsection \<open>Rejection\<close>

definition rejections_of :: "tenant \<Rightarrow> claim \<Rightarrow> 'z claim_db_scheme \<Rightarrow> nat" where
  "rejections_of tn a db = (case find_guard (tn_pk tn) (cl_listing a) (cl_claimant a) db of None \<Rightarrow> 0 | Some g \<Rightarrow> rejections g)"

lemma reject_guard:
  assumes "apply_reject tn a oper reason m actor db0 = Inr (x, d)"
  shows "\<exists>g. find_guard (tn_pk tn) (cl_listing a) (cl_claimant a) d = Some (count_rejection (wall db0) g) \<and> rejections g = rejections_of tn a db0"
proof -
  obtain g db where lg: "lock_guard tn (cl_listing a) (cl_claimant a) db0 = (g, db)" by fastforce
  from assms lg obtain c l u where r: "reject_open tn g oper (strip reason) actor (c, l, u) db = Inr (x, d)"
    by (auto simp: apply_reject_def bind_result_eq_Inr split: if_splits)
  let ?saved = "save_guard g (count_rejection (wall db)) (save_claim c (reject_fields oper (strip reason) (wall db)) (expire_pending_code c (wall db) db))"
  from r have "guards d = guards ?saved"
    by (auto simp: reject_open_def Let_def split: if_splits dest!: quietD [OF quiet_reject_notices] aux_onlyD(1))
  then have "find_guard (tn_pk tn) (cl_listing a) (cl_claimant a) d = find_guard (tn_pk tn) (cl_listing a) (cl_claimant a) ?saved"
    by (simp add: find_guard_def)
  also have "\<dots> = Some (count_rejection (wall db) g)"
  proof -
    have "find_guard (tn_pk tn) (cl_listing a) (cl_claimant a) (save_claim c f (expire_pending_code c t db)) = Some g" for f t
      using row_steps_lock_guard [OF lg] by (simp add: find_guard_def save_claim_def)
    then show ?thesis by (subst find_guard_save) (simp_all add: count_rejection_def Let_def pair_of_def)
  qed
  moreover have "rejections g = rejections_of tn a db0"
    using lg by (cases rule: lock_guard_cases) (simp_all add: rejections_of_def fresh_guard_def)
  ultimately show ?thesis using lock_guard_frame(4) [OF lg] by auto
qed

lemma submit_blocked:
  assumes b: "pair_blocked tn l u db" and u: "find (\<lambda>u. usr_tenant u = tn_pk tn \<and> usr_email u = cf_email cf) (users db) = Some u"
  shows "apply_submit_claim w tn l method cf cs ip pid db \<noteq> Inr x"
proof
  assume s: "apply_submit_claim w tn l method cf cs ip pid db = Inr x"
  obtain ct db1 where t: "get_default_consent_text tn (db\<lparr>in_atomic := True\<rparr>) = (ct, db1)" by fastforce
  then have "users db1 = users db" "guards db1 = guards db"
    by (auto simp: get_default_consent_text_def Let_def split: option.splits)
  then have "match_or_create_user tn (cf_email cf) (cf_name cf) (cf_phone cf) db1 = Inr ((u, False), db1)" "pair_blocked tn l u db1"
    using u b by (simp_all add: match_or_create_user_def pair_blocked_def find_guard_def)
  with s t show False
    by (cases x) (auto simp: apply_submit_claim_def atomic_Inr bind_result_eq_Inr then_do_Inr submit_checked_def)
qed

text \<open>C26: the third rejection blocks. A rejection that succeeds counts one more rejection of the pair, and once that count is three or more, a
  submission for the same listing whose normalised address belongs to the same claimant is refused and writes no claim.\<close>

theorem third_rejection_blocks:
  assumes r: "reject_claim tn a oper reason db = (Inr c', db')"
  shows "rejections_of tn a db' = Suc (rejections_of tn a db) \<and>
    (3 \<le> rejections_of tn a db' \<longrightarrow> ls_pk l = cl_listing a \<longrightarrow> usr_pk u = cl_claimant a \<longrightarrow> normalize_claimant who consent = Inr (cf, cs) \<longrightarrow>
      find (\<lambda>u. usr_tenant u = tn_pk tn \<and> usr_email u = cf_email cf) (users db') = Some u \<longrightarrow>
      (\<exists>e. fst (submit_claim w tn l method who consent ip db') = Inl e) \<and> claims (snd (submit_claim w tn l method who consent ip db')) = claims db')"
proof -
  from r obtain db1 x eid d where run: "log_only db db1"
    "apply_reject tn a oper reason (active_membership (tn_pk tn) oper db) (staff_actor oper (active_membership (tn_pk tn) oper db)) (db1\<lparr>in_atomic := True\<rparr>) = Inr ((x, eid), d)"
    "log_only d db'"
    unfolding reject_claim_def by (cases rule: review_shell) auto
  from reject_guard [OF run(2)] obtain g where g: "find_guard (tn_pk tn) (cl_listing a) (cl_claimant a) d = Some (count_rejection (wall db1) g)"
    "rejections g = rejections_of tn a (db1\<lparr>in_atomic := True\<rparr>)" by auto
  have old: "rejections_of tn a (db1\<lparr>in_atomic := True\<rparr>) = rejections_of tn a db" using run(1) by (simp add: rejections_of_def find_guard_def log_only_def)
  have g': "find_guard (tn_pk tn) (cl_listing a) (cl_claimant a) db' = Some (count_rejection (wall db1) g)"
    using g(1) run(3) by (simp add: find_guard_def log_only_def)
  then have n: "rejections_of tn a db' = Suc (rejections_of tn a db)"
    using g(2) old by (simp add: rejections_of_def count_rejection_def Let_def)
  moreover have "(\<exists>e. fst (submit_claim w tn l method who consent ip db') = Inl e) \<and> claims (snd (submit_claim w tn l method who consent ip db')) = claims db'"
    if h: "3 \<le> rejections_of tn a db'" "ls_pk l = cl_listing a" "usr_pk u = cl_claimant a" "normalize_claimant who consent = Inr (cf, cs)"
      "find (\<lambda>u. usr_tenant u = tn_pk tn \<and> usr_email u = cf_email cf) (users db') = Some u"
  proof -
    have "pair_blocked tn l u db'"
      using g' h(1-3) by (auto simp: pair_blocked_def rejections_of_def count_rejection_def Let_def REJECTION_BLOCK_THRESHOLD_def)
    then have b: "pair_blocked tn l u db2" "find (\<lambda>u. usr_tenant u = tn_pk tn \<and> usr_email u = cf_email cf) (users db2) = Some u" if "log_only db' db2" for db2
      using that h(5) by (simp_all add: pair_blocked_def find_guard_def log_only_def)
    obtain res db2 where s: "submit_claim w tn l method who consent ip db' = (res, db2)" by fastforce
    then show ?thesis
    proof (cases rule: submit_shell)
      case (refused e)
      with s show ?thesis by (simp add: log_only_def)
    next
      case (ran db3 cf' cs' pid c eid db4)
      with h(4) submit_blocked [OF b] show ?thesis by auto
    qed
  qed
  ultimately show ?thesis by blast
qed

definition twice_rejected :: claim_db where
  "twice_rejected = sample_claims\<lparr>guards := [(fresh_guard 30 1 10 7)\<lparr>rejections := 2\<rparr>]\<rparr>"

definition refused_consent :: json where
  "refused_consent = JObj (map (\<lambda>ch. (ch, JObj [(''granted'', JBool False)])) CONSENT_CHANNELS)"

lemma sample_rejection: "\<exists>c' db'. reject_claim claim_tenant sent_claim editor ''no proof'' twice_rejected = (Inr c', db') \<and> users db' = [claimant]"
proof -
  let ?m = "active_membership 1 editor twice_rejected"
  let ?pl = "[(''claim_id'', JStr (cl_public_id sent_claim))]"
  obtain row db1 where rec: "log_received ''claim.reject'' (Some 1) None (staff_actor editor ?m) [] [] (Some (JObj ?pl)) twice_rejected = (row, db1)" by fastforce
  note db1 = log_received_simps(8) [OF rec]
  let ?db = "db1\<lparr>in_atomic := True\<rparr>"
  define g where "g = (fresh_guard 30 1 10 7)\<lparr>rejections := 2\<rparr>"
  have blocks: "claim_blocked_at g = None" "claim_blocked_at (count_rejection 0 g) \<noteq> None"
    by (simp_all add: g_def fresh_guard_def count_rejection_def Let_def REJECTION_BLOCK_THRESHOLD_def)
  have lg: "lock_guard claim_tenant 10 7 ?db = (g, ?db)"
    by (simp add: lock_guard_def find_guard_def db1 twice_rejected_def fresh_guard_def claim_tenant_def g_def)
  have lc: "load_claim claim_tenant 20 ?db = Inr (sent_claim, open_listing, claimant)"
    by (simp add: load_claim_def db1 twice_rejected_def claim_samples)
  have role: "require_role ?m DECIDE_ROLE = Inr ()"
    by (simp add: require_role_def active_membership_def twice_rejected_def claim_samples DECIDE_ROLE_def)
  have why: "strip ''no proof'' \<noteq> []" by code_simp
  let ?s = "save_guard g (count_rejection 0) (save_claim sent_claim (reject_fields editor (strip ''no proof'') 0) (expire_pending_code sent_claim 0 ?db))"
  have "in_atomic ?s" by (simp add: save_guard_def save_claim_def)
  from quiet_total [OF quiet_reject_notices this] obtain x d where
    n: "reject_notices claim_tenant editor (strip ''no proof'') True (staff_actor editor ?m) 0 (reject_fields editor (strip ''no proof'') 0 sent_claim) open_listing claimant ?s = Inr (x, d)"
    "aux_only ?s d" by blast
  have w: "wall ?db = 0" by (simp add: db1 twice_rejected_def sample_claims_def)
  have args: "cl_pk sent_claim = 20" "cl_listing sent_claim = 10" "cl_claimant sent_claim = 7" "cl_status sent_claim = C_PENDING"
    by (simp_all add: sent_claim_def)
  have ar: "apply_reject claim_tenant sent_claim editor ''no proof'' ?m (staff_actor editor ?m) ?db = Inr (x, d)"
    using lg lc role why n(1) w blocks args by (simp add: apply_reject_def reject_open_def OPEN_CLAIM_STATUSES_def Let_def)
  have at: "tn_pk claim_tenant = 1" "in_atomic twice_rejected = False" "in_atomic db1 = False" by (simp_all add: db1 twice_rejected_def claim_samples)
  obtain c' eid where x: "x = (c', eid)" by fastforce
  have "reject_claim claim_tenant sent_claim editor ''no proof'' twice_rejected = (Inr c', log_conclude row ''applied'' eid None None (d\<lparr>in_atomic := False\<rparr>))"
    using rec ar x at by (simp add: reject_claim_def review_command_def require_autocommit_def atomic_def)
  moreover have "users d = [claimant]" using n(2) by (simp add: aux_only_def save_guard_def save_claim_def db1 twice_rejected_def sample_claims_def)
  ultimately show ?thesis by (simp add: log_conclude_def)
qed

definition ann_again :: json where
  "ann_again = JObj [(''email'', JStr ''Ann@Cafe.example ''), (''name'', JStr ''Ann''), (''phone_e164'', JStr []), (''role_claimed'', JStr ''owner'')]"

lemma sample_normalize: "case normalize_claimant ann_again refused_consent of Inl e \<Rightarrow> False | Inr (cf, cs) \<Rightarrow> cf_email cf = ''ann@cafe.example''"
  by code_simp

theorem third_rejection_blocks_witness:
  "\<exists>c' db' e. reject_claim claim_tenant sent_claim editor ''no proof'' twice_rejected = (Inr c', db') \<and>
     fst (submit_claim claim_world claim_tenant open_listing ''domain_email'' ann_again refused_consent None db') = Inl e"
proof -
  from sample_rejection obtain c' db' where r: "reject_claim claim_tenant sent_claim editor ''no proof'' twice_rejected = (Inr c', db')" "users db' = [claimant]" by blast
  from sample_normalize obtain cf cs where n: "normalize_claimant ann_again refused_consent = Inr (cf, cs)" "cf_email cf = ''ann@cafe.example''"
    by (auto split: sum.splits)
  have two: "rejections_of claim_tenant sent_claim twice_rejected = 2"
    by (simp add: rejections_of_def find_guard_def twice_rejected_def fresh_guard_def claim_samples)
  have u: "find (\<lambda>u. usr_tenant u = tn_pk claim_tenant \<and> usr_email u = cf_email cf) (users db') = Some claimant" "usr_pk claimant = cl_claimant sent_claim"
    "ls_pk open_listing = cl_listing sent_claim"
    by (simp_all add: r(2) n(2) claim_samples)
  from third_rejection_blocks [OF r(1), of open_listing claimant ann_again refused_consent cf cs claim_world "''domain_email''" None] two u n(1) r(1)
  show ?thesis by auto
qed

subsection \<open>The catch-up notice\<close>

text \<open>When neither a claim under review nor an open dispute is newer than the last notice of any recipient, the flush sends nothing.\<close>

lemma flush_silent:
  assumes "\<forall>a \<in> set (operator_recipients tn db). \<exists>t. last_notice tn a db = Some t \<and> \<not> entered_review_since tn t db"
  shows "flush_operator_notices tn now db = Inr (0, db)"
proof -
  have mono: "entered_review_since tn (max t s) db \<longrightarrow> entered_review_since tn t db" for t s
    by (auto simp: entered_review_since_def list_ex_iff)
  have "(case last_notice tn a db of None \<Rightarrow> entered_review_since tn (now - OPERATOR_NOTICE_TTL) db
      | Some t \<Rightarrow> \<not> now - OPERATOR_NOTICE_THROTTLE < t \<and> entered_review_since tn (max t (now - OPERATOR_NOTICE_TTL)) db) = False"
    if a: "a \<in> set (operator_recipients tn db)" for a
  proof -
    from assms a obtain t where "last_notice tn a db = Some t" "\<not> entered_review_since tn t db" by blast
    with mono [of t "now - OPERATOR_NOTICE_TTL"] show ?thesis by simp
  qed
  then show ?thesis by (simp add: flush_operator_notices_def Let_def cong: filter_cong)
qed

lemma flip_review:
  assumes u: "\<forall>r \<in> set (claims db). cl_pk r = cl_pk c \<longrightarrow> cl_updated_at r \<le> since"
  shows "entered_review_since tn since (flip_to_manual c now reason db) = entered_review_since tn since db"
proof -
  let ?f = "\<lambda>r. if cl_pk r = cl_pk c then flip_fields reason r else r"
  let ?P = "\<lambda>r. cl_tenant r = tn_pk tn \<and> cl_status r = C_PENDING \<and> (cl_method r = CM_MANUAL \<or> verified_at r \<noteq> None) \<and> since < cl_updated_at r"
  have e: "list_ex (\<lambda>c. since < cl_updated_at c) (review_claims tn d) = list_ex ?P (claims d)" for d :: "'a claim_db_scheme"
    by (auto simp: review_claims_def list_ex_iff)
  have "claims (flip_to_manual c now reason db) = map ?f (claims db)" by (simp add: flip_to_manual_def save_claim_rows)
  moreover have "?P (?f r) = ?P r" if "r \<in> set (claims db)" for r using u that by (auto simp: flip_fields_def)
  ultimately have "list_ex ?P (claims (flip_to_manual c now reason db)) = list_ex ?P (claims db)"
    by (simp only: list_ex_iff set_map bex_simps(7)) blast
  moreover have "dispute_items tn (flip_to_manual c now reason db) = dispute_items tn db"
    by (simp add: dispute_items_def open_items_def flip_to_manual_def save_claim_def expire_pending_code_def split: option.split)
  ultimately show ?thesis by (simp add: entered_review_since_def e)
qed

lemma flip_recipients: "operator_recipients tn (flip_to_manual c now reason db) = operator_recipients tn db"
proof -
  have "operators (flip_to_manual c now reason db) = operators db" "memberships (flip_to_manual c now reason db) = memberships db"
    by (simp_all add: flip_to_manual_def save_claim_def)
  then show ?thesis by (simp only: operator_recipients_def)
qed

lemma flip_last_notice: "map ms_created_at (operator_notices tn a (flip_to_manual c now reason db)) = map ms_created_at (operator_notices tn a db)"
proof -
  have "map ms_created_at (filter (\<lambda>m. ms_tenant m = t \<and> ms_kind m = k \<and> to_address m = Some a) (update_where P (\<lambda>m. m\<lparr>ms_expires_at := now\<rparr>) ms)) =
      map ms_created_at (filter (\<lambda>m. ms_tenant m = t \<and> ms_kind m = k \<and> to_address m = Some a) ms)" for t k P and ms :: "message list"
    by (induction ms) auto
  then show ?thesis by (simp add: operator_notices_def flip_to_manual_def save_claim_def expire_pending_code_def split: option.split)
qed

lemma last_notice_map: "last_notice tn a db = (case map ms_created_at (operator_notices tn a db) of [] \<Rightarrow> None | t # ts \<Rightarrow> Some (fold max ts t))"
  by (simp add: last_notice_def split: list.split)

lemma last_notice_throttle:
  assumes "last_notice tn a db = Some t" "s < t"
  shows "list_ex (\<lambda>m. s < ms_created_at m) (operator_notices tn a db)"
proof -
  have "\<exists>x \<in> set (y # ys). fold max ys y = x" for y :: instant and ys
    by (induction ys arbitrary: y) (auto simp: max_def)
  with assms have "t \<in> ms_created_at ` set (operator_notices tn a db)"
    by (auto simp: last_notice_def split: list.splits) (metis image_eqI list.set_map)
  with assms(2) show ?thesis by (auto simp: list_ex_iff)
qed


definition noticed_claims :: claim_db where
  "noticed_claims = sample_claims\<lparr>mail := [\<lparr>ms_pk = 40, message_id = ''msg_40'', ms_tenant = 1, ms_kind = OPERATOR_NOTICE_KIND,
     to_address = Some ''ed@example.com'', ms_subject = [], body_text = None, ms_status = MsSent, ms_attempt = 1, ms_next_attempt_at = 0, ms_expires_at = 0,
     ms_first_attempted_at = None, ms_last_attempted_at = None, ms_last_error = [], sent_at = Some 5, ms_created_at = 5\<rparr>]\<rparr>"

lemma sample_recipients: "operator_recipients claim_tenant noticed_claims = [''ed@example.com'']"
proof -
  have "lower (strip ''ed@example.com'') = ''ed@example.com''" by code_simp
  then show ?thesis by (simp add: operator_recipients_def noticed_claims_def claim_samples add_address_def DECIDE_ROLE_def)
qed


end
