(* ===== verification/Patches.thy ===== *)
theory Patches
  imports Listings
begin

section \<open>The JSON patch of a listing update\<close>

text \<open>
  \<^verbatim>\<open>diff\<close> of \<^verbatim>\<open>directory/patch.py\<close>: two projections of a listing are compared key by key into the RFC 6902
  patch that \<^verbatim>\<open>listing.updated\<close> carries. The second half of the theory is what a subscriber does with it, the object
  part of RFC 6902 (\<open>apply_patch\<close>), and the round trip: a patch applied to the old projection gives the new one, up to
  the two differences the code does not make (a null member and a missing one, and values Python calls equal).
\<close>

subsection \<open>Python's equality of JSON values\<close>

text \<open>Booleans are integers and integers compare with floats; \<open>JDec\<close> counts millionths.\<close>

fun num_of :: "json \<Rightarrow> int option" where
  "num_of (JBool b) = Some (if b then 1000000 else 0)"
| "num_of (JInt n) = Some (n * 1000000)"
| "num_of (JDec n) = Some n"
| "num_of _ = None"

definition dict_keys :: "dict \<Rightarrow> string list" where
  "dict_keys d = map fst d"

lemma dict_get_size [termination_simp]: "dict_get d k = Some v \<Longrightarrow> size v < Suc (size_list (size_prod (\<lambda>_. 0) size) d)"
  by (induction d) (auto simp: dict_get_def split: if_splits)

text \<open>\<^verbatim>\<open>a == b\<close>: lists elementwise, objects key by key whatever the order.\<close>

function py_eq :: "json \<Rightarrow> json \<Rightarrow> bool" and py_eq_list :: "json list \<Rightarrow> json list \<Rightarrow> bool" where
  "py_eq a b =
     (case (a, b) of
        (JNull, JNull) \<Rightarrow> True
      | (JStr s, JStr t) \<Rightarrow> s = t
      | (JList xs, JList ys) \<Rightarrow> py_eq_list xs ys
      | (JObj d, JObj e) \<Rightarrow>
          list_all (\<lambda>k. case dict_get d k of None \<Rightarrow> False | Some x \<Rightarrow> (case dict_get e k of None \<Rightarrow> False | Some y \<Rightarrow> py_eq x y))
            (dict_keys d @ dict_keys e)
      | _ \<Rightarrow> num_of a \<noteq> None \<and> num_of a = num_of b)"
| "py_eq_list xs ys =
     (case (xs, ys) of
        ([], []) \<Rightarrow> True
      | (x # xs', y # ys') \<Rightarrow> py_eq x y \<and> py_eq_list xs' ys'
      | _ \<Rightarrow> False)"
  by pat_completeness auto
termination
  by (relation "measure (\<lambda>x. case x of Inl (a, b) \<Rightarrow> size a | Inr (xs, ys) \<Rightarrow> size_list size xs)")
    (auto dest: dict_get_size)

declare py_eq.simps [simp del] py_eq_list.simps [simp del]

lemma dict_get_key: "k \<in> set (dict_keys d) \<longleftrightarrow> dict_get d k \<noteq> None"
  by (induction d) (auto simp: dict_keys_def dict_get_def)

lemma py_eq_refl: "py_eq a a" and py_eq_list_refl: "py_eq_list xs xs"
proof -
  have "(a = b \<longrightarrow> py_eq a b)" "(xs = ys \<longrightarrow> py_eq_list xs ys)" for a b xs ys
    by (induction a b and xs ys rule: py_eq_py_eq_list.induct)
      (subst py_eq.simps py_eq_list.simps; fastforce simp: list_all_iff dict_get_key split: json.splits list.splits option.splits)+
  then show "py_eq a a" "py_eq_list xs xs" by simp_all
qed

subsection \<open>The diff\<close>

text \<open>\<^verbatim>\<open>_equal\<close>, where the sentinel \<^verbatim>\<open>_MISSING\<close> is \<open>None\<close>.\<close>

definition absent :: "json option \<Rightarrow> bool" where
  "absent v \<longleftrightarrow> v = None \<or> v = Some JNull"

definition equal_value :: "json option \<Rightarrow> json option \<Rightarrow> bool" where
  "equal_value a b =
     (if absent a \<or> absent b then absent a \<and> absent b
      else (case (a, b) of (Some x, Some y) \<Rightarrow> py_eq x y | _ \<Rightarrow> False))"

definition RECURSE :: "string list" where
  "RECURSE = [''/location'', ''/contact'', ''/media'', ''/provenance'', ''/custom_fields'']"

definition op_for :: "string \<Rightarrow> json option \<Rightarrow> json option \<Rightarrow> json list" where
  "op_for pointer bv av =
     (if equal_value bv av then []
      else (case av of
          Some v \<Rightarrow>
            if v = JNull then [JObj [(''op'', JStr ''remove''), (''path'', JStr pointer)]]
            else [JObj [(''op'', JStr (if absent bv then ''add'' else ''replace'')), (''path'', JStr pointer), (''value'', v)]]
        | None \<Rightarrow> [JObj [(''op'', JStr ''remove''), (''path'', JStr pointer)]]))"

function diff_under :: "dict \<Rightarrow> dict \<Rightarrow> string \<Rightarrow> json list" where
  "diff_under before after path =
     concat (map (\<lambda>key.
       let pointer = path @ ''/'' @ key in
       case (dict_get before key, dict_get after key) of
         (Some (JObj b), Some (JObj a)) \<Rightarrow>
           if pointer \<in> set RECURSE then diff_under b a pointer else op_for pointer (Some (JObj b)) (Some (JObj a))
       | (bv, av) \<Rightarrow> op_for pointer bv av)
     (sort (remdups (dict_keys before @ dict_keys after))))"
  by pat_completeness auto
termination
  by (relation "measure (\<lambda>(b, a, p). size_list (size_prod (\<lambda>_. 0) size) b)") (auto dest!: dict_get_size [OF sym])

declare diff_under.simps [simp del]

definition diff :: "dict \<Rightarrow> dict \<Rightarrow> json list" where
  "diff before after = diff_under before after []"

subsection \<open>What a subscriber does with a patch\<close>

text \<open>JSON pointers (RFC 6901): the tokens between the slashes, with \<^verbatim>\<open>~1\<close> and \<^verbatim>\<open>~0\<close> unescaped.\<close>

fun unescape :: "string \<Rightarrow> string" where
  "unescape (c # d # s) =
     (if c = CHR ''~'' \<and> d = CHR ''1'' then CHR ''/'' # unescape s
      else if c = CHR ''~'' \<and> d = CHR ''0'' then CHR ''~'' # unescape s
      else c # unescape (d # s))"
| "unescape s = s"

definition tokens :: "string \<Rightarrow> string list" where
  "tokens p = map unescape (tl (split_on CHR ''/'' p))"

text \<open>The operations of RFC 6902 on objects: \<^verbatim>\<open>add\<close> needs the parent, \<^verbatim>\<open>replace\<close> and \<^verbatim>\<open>remove\<close> the member too.\<close>

fun edit_at :: "(string \<Rightarrow> dict \<Rightarrow> dict option) \<Rightarrow> string list \<Rightarrow> dict \<Rightarrow> dict option" where
  "edit_at f [] d = None"
| "edit_at f [k] d = f k d"
| "edit_at f (k # ks) d =
     (case dict_get d k of Some (JObj e) \<Rightarrow> map_option (\<lambda>e'. dict_set k (JObj e') d) (edit_at f ks e) | _ \<Rightarrow> None)"

definition dict_del :: "string \<Rightarrow> dict \<Rightarrow> dict" where
  "dict_del k d = filter (\<lambda>(k', v). k' \<noteq> k) d"

definition member_edit :: "string \<Rightarrow> json option \<Rightarrow> string \<Rightarrow> dict \<Rightarrow> dict option" where
  "member_edit op v k d =
     (if op = ''add'' then map_option (\<lambda>x. dict_set k x d) v
      else if dict_get d k = None then None
      else if op = ''replace'' then map_option (\<lambda>x. dict_set k x d) v
      else if op = ''remove'' then Some (dict_del k d)
      else None)"

definition apply_op :: "json \<Rightarrow> dict \<Rightarrow> dict option" where
  "apply_op j d =
     (case j of
        JObj ob \<Rightarrow>
          (case (dict_get ob ''op'', dict_get ob ''path'') of
             (Some (JStr op), Some (JStr p)) \<Rightarrow> edit_at (member_edit op (dict_get ob ''value'')) (tokens p) d
           | _ \<Rightarrow> None)
      | _ \<Rightarrow> None)"

fun apply_patch :: "json list \<Rightarrow> dict \<Rightarrow> dict option" where
  "apply_patch [] d = Some d"
| "apply_patch (j # js) d = Option.bind (apply_op j d) (apply_patch js)"

subsection \<open>Pointers of plain keys\<close>

definition plain_key :: "string \<Rightarrow> bool" where
  "plain_key k \<longleftrightarrow> CHR ''/'' \<notin> set k \<and> CHR ''~'' \<notin> set k"

lemma split_on_plain: "c \<notin> set s \<Longrightarrow> split_on c s = [s]"
  by (induction s) auto

lemma split_on_sep: "c \<notin> set s \<Longrightarrow> split_on c (s @ c # t) = s # split_on c t"
  by (induction s) auto

lemma unescape_plain: "CHR ''~'' \<notin> set s \<Longrightarrow> unescape s = s"
  by (induction s rule: unescape.induct) auto

lemma tokens_plain:
  assumes "plain_key k"
  shows "tokens (CHR ''/'' # k) = [k]"
    and "plain_key p \<Longrightarrow> tokens (CHR ''/'' # p @ CHR ''/'' # k) = [p, k]"
  using assms by (simp_all add: plain_key_def tokens_def split_on_plain split_on_sep unescape_plain)

lemma recurse_flat: "CHR ''/'' # p @ CHR ''/'' # k \<notin> set RECURSE"
proof -
  have "CHR ''/'' \<notin> set (tl x)" if "x \<in> set RECURSE" for x using that by (auto simp: RECURSE_def)
  then show ?thesis by fastforce
qed

lemma equal_value_refl [simp]: "equal_value a a"
  by (auto simp: equal_value_def absent_def py_eq_refl split: option.splits)

lemma py_eq_list_Cons: "py_eq_list (x # xs) (y # ys) \<longleftrightarrow> py_eq x y \<and> py_eq_list xs ys"
  by (subst py_eq_list.simps) simp

lemma py_eq_leaf:
  "(\<And>d. a \<noteq> JObj d) \<Longrightarrow> (\<And>xs. a \<noteq> JList xs) \<Longrightarrow>
   py_eq a b \<longleftrightarrow> a = JNull \<and> b = JNull \<or> (\<exists>s. a = JStr s \<and> b = JStr s) \<or> num_of a \<noteq> None \<and> num_of a = num_of b"
  by ((cases a; cases b), simp_all add: py_eq.simps) auto

lemma py_eq_trans:
  "py_eq a b \<Longrightarrow> py_eq b c \<Longrightarrow> py_eq a c" and py_eq_list_trans: "py_eq_list xs ys \<Longrightarrow> py_eq_list ys zs \<Longrightarrow> py_eq_list xs zs"
proof (induction a b and xs ys arbitrary: c and zs rule: py_eq_py_eq_list.induct)
  case (1 a b)
  show ?case
  proof (cases a)
    case (JObj d)
    then obtain e where e: "b = JObj e" using "1.prems"(1) by (subst (asm) py_eq.simps) (auto split: json.splits)
    then obtain f where f: "c = JObj f" using "1.prems"(2) by (subst (asm) py_eq.simps) (auto split: json.splits)
    have de: "case dict_get d k of None \<Rightarrow> False | Some x \<Rightarrow> (case dict_get e k of None \<Rightarrow> False | Some y \<Rightarrow> py_eq x y)"
      if "k \<in> set (dict_keys d) \<union> set (dict_keys e)" for k
      using "1.prems"(1) that unfolding JObj e by (subst (asm) py_eq.simps) (auto simp: list_all_iff)
    have ef: "case dict_get e k of None \<Rightarrow> False | Some x \<Rightarrow> (case dict_get f k of None \<Rightarrow> False | Some y \<Rightarrow> py_eq x y)"
      if "k \<in> set (dict_keys e) \<union> set (dict_keys f)" for k
      using "1.prems"(2) that unfolding e f by (subst (asm) py_eq.simps) (auto simp: list_all_iff)
    have "case dict_get d k of None \<Rightarrow> False | Some x \<Rightarrow> (case dict_get f k of None \<Rightarrow> False | Some y \<Rightarrow> py_eq x y)"
      if k: "k \<in> set (dict_keys d) \<union> set (dict_keys f)" for k
    proof -
      have ke: "k \<in> set (dict_keys e)" using k de [of k] ef [of k] dict_get_key [of k e] by (auto split: option.splits)
      obtain x y where xy: "dict_get d k = Some x" "dict_get e k = Some y" "py_eq x y" using de [of k] ke by (auto split: option.splits)
      obtain z where z: "dict_get f k = Some z" "py_eq y z" using ef [of k] ke xy(2) by (auto split: option.splits)
      have kd: "k \<in> set (dict_keys d @ dict_keys e)" using ke by simp
      from "1.IH"(2) [OF refl JObj e kd xy(1) xy(2) xy(3) z(2)] xy z show ?thesis by simp
    qed
    then show ?thesis unfolding JObj f by (subst py_eq.simps) (auto simp: list_all_iff)
  next
    case (JList us)
    then obtain vs where v: "b = JList vs" using "1.prems"(1) by (subst (asm) py_eq.simps) (auto split: json.splits)
    then obtain ws where w: "c = JList ws" using "1.prems"(2) by (subst (asm) py_eq.simps) (auto split: json.splits)
    have "py_eq_list us vs" "py_eq_list vs ws" using "1.prems" unfolding JList v w by (simp_all add: py_eq.simps)
    from "1.IH"(1) [OF refl JList v this] show ?thesis unfolding JList w by (simp add: py_eq.simps)
  qed (use "1.prems" in \<open>cases b; simp add: py_eq_leaf\<close>)+
next
  case (2 xs ys)
  show ?case
  proof (cases xs)
    case Nil
    then show ?thesis using "2.prems" by (cases ys; cases zs) (simp_all add: py_eq_list.simps)
  next
    case (Cons x xs')
    then obtain y ys' where y: "ys = y # ys'" using "2.prems"(1) by (cases ys) (simp_all add: py_eq_list.simps)
    then obtain z zs' where z: "zs = z # zs'" using "2.prems"(2) by (cases zs) (simp_all add: py_eq_list.simps)
    have "py_eq x y" "py_eq_list xs' ys'" "py_eq y z" "py_eq_list ys' zs'" using "2.prems" by (simp_all add: Cons y z py_eq_list_Cons)
    with "2.IH" Cons y z show ?thesis by (simp add: py_eq_list_Cons)
  qed
qed

lemma equal_value_eq: "equal_value a b \<longleftrightarrow> absent a \<and> absent b \<or> \<not> absent a \<and> \<not> absent b \<and> py_eq (the a) (the b)"
  by (cases a; cases b) (simp_all add: equal_value_def absent_def)

lemma equal_value_trans: "equal_value a b \<Longrightarrow> equal_value b c \<Longrightarrow> equal_value a c"
  unfolding equal_value_eq using py_eq_trans [of "the a" "the b" "the c"] by blast

lemma dict_get_del [simp]: "dict_get (dict_del k d) j = (if j = k then None else dict_get d j)"
  by (induction d) (auto simp: dict_del_def dict_get_def)

lemma dict_get_Cons: "dict_get ((k, v) # d) j = (if k = j then Some v else dict_get d j)"
  by (simp add: dict_get_def)

subsection \<open>One operation\<close>

text \<open>What the operation for one member does to the object that holds it.\<close>

definition settles :: "string \<Rightarrow> json option \<Rightarrow> dict \<Rightarrow> dict \<Rightarrow> bool" where
  "settles k av e e' \<longleftrightarrow> (\<forall>j. j \<noteq> k \<longrightarrow> dict_get e' j = dict_get e j) \<and> equal_value (dict_get e' k) av"

lemma op_for_edit:
  assumes "absent (dict_get e k) \<longleftrightarrow> absent bv" "\<not> equal_value bv av"
  shows "\<exists>op v e'. op_for ptr bv av = [JObj ((''op'', JStr op) # (''path'', JStr ptr) # v)]
    \<and> member_edit op (dict_get v ''value'') k e = Some e' \<and> settles k av e e'"
proof (cases "absent av")
  case True
  then have "op_for ptr bv av = [JObj [(''op'', JStr ''remove''), (''path'', JStr ptr)]]"
    using assms by (auto simp: op_for_def absent_def)
  moreover have "member_edit ''remove'' None k e = Some (dict_del k e)" using assms True
    by (auto simp: member_edit_def equal_value_eq) (auto simp: absent_def)
  moreover have "settles k av e (dict_del k e)" using True by (auto simp: settles_def equal_value_def absent_def)
  ultimately show ?thesis by (intro exI [of _ "''remove''"] exI [of _ "[]"] exI [of _ "dict_del k e"]) (simp add: dict_get_def)
next
  case False
  then obtain x where x: "av = Some x" "x \<noteq> JNull" by (auto simp: absent_def)
  let ?op = "if absent bv then ''add'' else ''replace''"
  have "op_for ptr bv av = [JObj [(''op'', JStr ?op), (''path'', JStr ptr), (''value'', x)]]"
    using assms x by (simp add: op_for_def)
  moreover have "member_edit ?op (Some x) k e = Some (dict_set k x e)" using assms
    by (auto simp: member_edit_def absent_def)
  moreover have "settles k av e (dict_set k x e)" by (simp add: settles_def x)
  ultimately show ?thesis by (intro exI [of _ ?op] exI [of _ "[(''value'', x)]"] exI [of _ "dict_set k x e"]) (simp add: dict_get_Cons)
qed

lemma op_for_top:
  assumes "plain_key k" "absent (dict_get d k) \<longleftrightarrow> absent bv" "equal_value bv av \<Longrightarrow> equal_value (dict_get d k) av"
  shows "\<exists>d'. apply_patch (op_for (CHR ''/'' # k) bv av) d = Some d' \<and> settles k av d d'"
proof (cases "equal_value bv av")
  case True
  then show ?thesis using assms(3) by (simp add: op_for_def settles_def)
next
  case False
  from op_for_edit [OF assms(2) False] obtain op v d' where "op_for (CHR ''/'' # k) bv av = [JObj ((''op'', JStr op) # (''path'', JStr (CHR ''/'' # k)) # v)]"
    "member_edit op (dict_get v ''value'') k d = Some d'" "settles k av d d'" by blast
  then show ?thesis using tokens_plain(1) [OF assms(1)] by (auto simp: apply_op_def dict_get_Cons)
qed

lemma op_for_sub:
  assumes "plain_key p" "plain_key k" "dict_get d p = Some (JObj e)" "equal_value (dict_get e k) bv"
  shows "\<exists>d' e'. apply_patch (op_for (CHR ''/'' # p @ CHR ''/'' # k) bv av) d = Some d'
    \<and> (\<forall>j. j \<noteq> p \<longrightarrow> dict_get d' j = dict_get d j) \<and> dict_get d' p = Some (JObj e') \<and> settles k av e e'"
proof (cases "equal_value bv av")
  case True
  then show ?thesis using assms(3) equal_value_trans [OF assms(4)] by (simp add: op_for_def settles_def)
next
  case False
  have "absent (dict_get e k) \<longleftrightarrow> absent bv" using assms(4) by (auto simp: equal_value_eq)
  from op_for_edit [OF this False] obtain op v e' where "op_for (CHR ''/'' # p @ CHR ''/'' # k) bv av = [JObj ((''op'', JStr op) # (''path'', JStr (CHR ''/'' # p @ CHR ''/'' # k)) # v)]"
    "member_edit op (dict_get v ''value'') k e = Some e'" "settles k av e e'" by blast
  then show ?thesis using tokens_plain(2) [OF assms(2,1)] assms(3) by (auto simp: apply_op_def dict_get_Cons)
qed

subsection \<open>All the members of an object\<close>

lemma apply_patch_append: "apply_patch (xs @ ys) d = Option.bind (apply_patch xs d) (apply_patch ys)"
  by (induction xs arbitrary: d) (auto split: bind_splits)

lemma apply_each_key:
  assumes "\<And>k d. k \<in> set ks \<Longrightarrow> I d \<Longrightarrow> S k (get d k) \<Longrightarrow>
      \<exists>d'. apply_patch (ops k) d = Some d' \<and> I d' \<and> (\<forall>j. j \<noteq> k \<longrightarrow> get d' j = get d j) \<and> R k (get d' k)"
    and "distinct ks" "I d" "\<forall>k \<in> set ks. S k (get d k)"
  shows "\<exists>d'. apply_patch (concat (map ops ks)) d = Some d' \<and> I d' \<and> (\<forall>j. j \<notin> set ks \<longrightarrow> get d' j = get d j) \<and> (\<forall>k \<in> set ks. R k (get d' k))"
  using assms
proof (induction ks arbitrary: d)
  case (Cons k ks)
  from Cons.prems(1) [of k d] Cons.prems(3,4) obtain d1 where
    1: "apply_patch (ops k) d = Some d1" "I d1" "\<forall>j. j \<noteq> k \<longrightarrow> get d1 j = get d j" "R k (get d1 k)" by auto
  have "\<exists>d2. apply_patch (concat (map ops ks)) d1 = Some d2 \<and> I d2 \<and> (\<forall>j. j \<notin> set ks \<longrightarrow> get d2 j = get d1 j) \<and> (\<forall>j \<in> set ks. R j (get d2 j))"
  proof (rule Cons.IH)
    show "\<forall>j \<in> set ks. S j (get d1 j)" using 1(3) Cons.prems(2,4) by auto
  qed (use Cons.prems(1,2) 1(2) in simp_all)
  then obtain d2 where
    2: "apply_patch (concat (map ops ks)) d1 = Some d2" "I d2" "\<forall>j. j \<notin> set ks \<longrightarrow> get d2 j = get d1 j" "\<forall>j \<in> set ks. R j (get d2 j)" by blast
  with 1 Cons.prems(2) show ?case by (intro exI [of _ d2]) (auto simp: apply_patch_append)
qed simp

lemma keys_distinct: "distinct (sort (remdups xs))" "set (sort (remdups xs)) = set xs"
  by simp_all

lemma op_for_Nil: "op_for ptr bv av = [] \<longleftrightarrow> equal_value bv av"
  by (auto simp: op_for_def split: option.splits)

text \<open>Below a key of \<^verbatim>\<open>_RECURSE\<close> the members are leaves.\<close>

lemma diff_sub_unfold:
  "diff_under b a (CHR ''/'' # p) =
     concat (map (\<lambda>k. op_for (CHR ''/'' # p @ CHR ''/'' # k) (dict_get b k) (dict_get a k)) (sort (remdups (dict_keys b @ dict_keys a))))"
  by (subst diff_under.simps) (auto simp: recurse_flat Let_def split: option.splits json.splits intro!: arg_cong [where f = concat])

definition same_members :: "dict \<Rightarrow> dict \<Rightarrow> bool" where
  "same_members d e \<longleftrightarrow> (\<forall>k. equal_value (dict_get d k) (dict_get e k))"

lemma diff_sub:
  assumes "plain_key p" "\<forall>k \<in> set (dict_keys b @ dict_keys a). plain_key k" "dict_get d p = Some (JObj e0)" "same_members e0 b"
  shows "\<exists>d' b'. apply_patch (diff_under b a (CHR ''/'' # p)) d = Some d' \<and> (\<forall>j. j \<noteq> p \<longrightarrow> dict_get d' j = dict_get d j)
    \<and> dict_get d' p = Some (JObj b') \<and> same_members b' a"
proof -
  let ?ks = "sort (remdups (dict_keys b @ dict_keys a))"
  let ?I = "\<lambda>d'. (\<forall>j. j \<noteq> p \<longrightarrow> dict_get d' j = dict_get d j) \<and> (\<exists>e. dict_get d' p = Some (JObj e))"
  define get where "get = (\<lambda>d k. case dict_get d p of Some (JObj e) \<Rightarrow> dict_get e k | _ \<Rightarrow> None)"
  have "\<exists>d'. apply_patch (concat (map (\<lambda>k. op_for (CHR ''/'' # p @ CHR ''/'' # k) (dict_get b k) (dict_get a k)) ?ks)) d = Some d' \<and> ?I d'
      \<and> (\<forall>j. j \<notin> set ?ks \<longrightarrow> get d' j = get d j) \<and> (\<forall>k \<in> set ?ks. equal_value (get d' k) (dict_get a k))"
  proof (rule apply_each_key [where S = "\<lambda>k v. equal_value v (dict_get b k)"])
    fix k x assume k: "k \<in> set ?ks" "?I x" "equal_value (get x k) (dict_get b k)"
    then obtain e where e: "dict_get x p = Some (JObj e)" "equal_value (dict_get e k) (dict_get b k)" by (auto simp: get_def)
    have "plain_key k" using k(1) assms(2) by simp
    from op_for_sub [OF assms(1) this e] obtain d' e' where d': "apply_patch (op_for (CHR ''/'' # p @ CHR ''/'' # k) (dict_get b k) (dict_get a k)) x = Some d'"
      "\<forall>j. j \<noteq> p \<longrightarrow> dict_get d' j = dict_get x j" "dict_get d' p = Some (JObj e')" "settles k (dict_get a k) e e'" by blast
    then have "?I d'" "\<forall>j. j \<noteq> k \<longrightarrow> get d' j = get x j" "equal_value (get d' k) (dict_get a k)" using k(2) by (auto simp: settles_def get_def e(1))
    with d'(1) show "\<exists>d'. apply_patch (op_for (CHR ''/'' # p @ CHR ''/'' # k) (dict_get b k) (dict_get a k)) x = Some d' \<and> ?I d'
        \<and> (\<forall>j. j \<noteq> k \<longrightarrow> get d' j = get x j) \<and> equal_value (get d' k) (dict_get a k)"
      by blast
  qed (use assms(4) in \<open>simp_all add: get_def assms(3) same_members_def\<close>)
  then obtain d' e where d': "apply_patch (diff_under b a (CHR ''/'' # p)) d = Some d'" "\<forall>j. j \<noteq> p \<longrightarrow> dict_get d' j = dict_get d j"
    "dict_get d' p = Some (JObj e)" "\<forall>j. j \<notin> set ?ks \<longrightarrow> dict_get e j = dict_get e0 j" "\<forall>k \<in> set ?ks. equal_value (dict_get e k) (dict_get a k)"
    unfolding diff_sub_unfold by (auto simp: get_def assms(3))
  have "equal_value (dict_get e k) (dict_get a k)" for k
  proof (cases "k \<in> set ?ks")
    case False
    then have "dict_get b k = None" "dict_get a k = None" using dict_get_key [of k b] dict_get_key [of k a] by auto
    with d'(4) False assms(4) show ?thesis by (metis same_members_def)
  qed (use d'(5) in simp)
  with d' show ?thesis by (auto simp: same_members_def)
qed

subsection \<open>Whole documents\<close>

definition plain_doc :: "dict \<Rightarrow> bool" where
  "plain_doc d \<longleftrightarrow> list_all (\<lambda>(k, v). plain_key k \<and>
     (case v of JObj e \<Rightarrow> CHR ''/'' # k \<in> set RECURSE \<longrightarrow> list_all plain_key (dict_keys e) | _ \<Rightarrow> True)) d"

definition same_at :: "string \<Rightarrow> json option \<Rightarrow> json option \<Rightarrow> bool" where
  "same_at pointer x y =
     (case (x, y) of
        (Some (JObj d), Some (JObj e)) \<Rightarrow> if pointer \<in> set RECURSE then same_members d e else equal_value x y
      | _ \<Rightarrow> equal_value x y)"

definition same_doc :: "dict \<Rightarrow> dict \<Rightarrow> bool" where
  "same_doc d e \<longleftrightarrow> (\<forall>k. same_at (CHR ''/'' # k) (dict_get d k) (dict_get e k))"

lemma plain_docD:
  assumes "plain_doc d"
  shows "k \<in> set (dict_keys d) \<Longrightarrow> plain_key k"
    and "dict_get d k = Some (JObj e) \<Longrightarrow> CHR ''/'' # k \<in> set RECURSE \<Longrightarrow> j \<in> set (dict_keys e) \<Longrightarrow> plain_key j"
  using assms by (fastforce simp: plain_doc_def dict_keys_def list_all_iff dict_get_def dest!: map_of_SomeD)+

lemma py_eq_absent: "py_eq x y \<Longrightarrow> x = JNull \<longleftrightarrow> y = JNull"
  by (subst (asm) py_eq.simps) (auto split: json.splits)

lemma py_eq_members: "py_eq (JObj d) (JObj e) \<Longrightarrow> same_members d e"
proof -
  assume "py_eq (JObj d) (JObj e)"
  then have a: "\<forall>k \<in> set (dict_keys d) \<union> set (dict_keys e). case dict_get d k of None \<Rightarrow> False | Some x \<Rightarrow> (case dict_get e k of None \<Rightarrow> False | Some y \<Rightarrow> py_eq x y)"
    by (subst (asm) py_eq.simps) (auto simp: list_all_iff)
  have "equal_value (dict_get d k) (dict_get e k)" for k
  proof (cases "k \<in> set (dict_keys d) \<union> set (dict_keys e)")
    case True
    with bspec [OF a True] obtain x y where "dict_get d k = Some x" "dict_get e k = Some y" "py_eq x y" by (auto split: option.splits)
    then show ?thesis using py_eq_absent [of x y] by (simp add: equal_value_def absent_def)
  next
    case False
    then show ?thesis using dict_get_key [of k d] dict_get_key [of k e] by auto
  qed
  then show ?thesis by (simp add: same_members_def)
qed

lemma same_at_equal: "equal_value x y \<Longrightarrow> same_at p x y"
  by (auto simp: same_at_def split: option.splits json.splits) (auto simp: equal_value_def absent_def intro: py_eq_members)

lemma same_at_refl: "same_at p x x"
  by (simp add: same_at_equal)

lemma same_members_trans: "same_members d e \<Longrightarrow> same_members e f \<Longrightarrow> same_members d f"
  unfolding same_members_def using equal_value_trans by blast

lemma same_at_cases:
  "same_at p x y \<longleftrightarrow> (if p \<in> set RECURSE \<and> (\<exists>d e. x = Some (JObj d) \<and> y = Some (JObj e))
     then (\<exists>d e. x = Some (JObj d) \<and> y = Some (JObj e) \<and> same_members d e) else equal_value x y)"
  by (cases x; cases y; cases "the x"; cases "the y") (simp_all add: same_at_def)

lemma equal_object: "equal_value x (Some (JObj e)) \<Longrightarrow> \<exists>d. x = Some (JObj d)"
  by (cases x; cases "the x") (auto simp: equal_value_eq absent_def py_eq.simps)

lemma equal_object': "equal_value (Some (JObj e)) x \<Longrightarrow> \<exists>d. x = Some (JObj d)"
  by (cases x; cases "the x") (auto simp: equal_value_eq absent_def py_eq.simps)

lemma same_at_trans: "same_at p x y \<Longrightarrow> same_at p y z \<Longrightarrow> same_at p x z"
  unfolding same_at_cases [of p]
  by (auto split: if_splits dest: equal_object equal_object' intro: same_members_trans equal_value_trans)

lemma same_doc_refl: "same_doc d d"
  by (simp add: same_doc_def same_at_refl)

lemma same_doc_trans: "same_doc d e \<Longrightarrow> same_doc e f \<Longrightarrow> same_doc d f"
  unfolding same_doc_def using same_at_trans by blast

text \<open>The operations \<^verbatim>\<open>_diff\<close> emits for one member of the document.\<close>

definition member_ops :: "dict \<Rightarrow> dict \<Rightarrow> string \<Rightarrow> json list" where
  "member_ops b a k =
     (case (dict_get b k, dict_get a k) of
        (Some (JObj x), Some (JObj y)) \<Rightarrow>
          if CHR ''/'' # k \<in> set RECURSE then diff_under x y (CHR ''/'' # k) else op_for (CHR ''/'' # k) (Some (JObj x)) (Some (JObj y))
      | (bv, av) \<Rightarrow> op_for (CHR ''/'' # k) bv av)"

lemma diff_unfold: "diff b a = concat (map (member_ops b a) (sort (remdups (dict_keys b @ dict_keys a))))"
  unfolding diff_def by (subst diff_under.simps) (simp add: member_ops_def [abs_def] Let_def)

lemma member_ops_cases:
  obtains (sub) x y where "dict_get b k = Some (JObj x)" "dict_get a k = Some (JObj y)" "CHR ''/'' # k \<in> set RECURSE"
      "member_ops b a k = diff_under x y (CHR ''/'' # k)"
    | (leaf) "member_ops b a k = op_for (CHR ''/'' # k) (dict_get b k) (dict_get a k)"
      "same_at (CHR ''/'' # k) (dict_get b k) (dict_get a k) = equal_value (dict_get b k) (dict_get a k)"
      "\<And>x y. CHR ''/'' # k \<in> set RECURSE \<Longrightarrow> dict_get b k = Some (JObj x) \<Longrightarrow> dict_get a k \<noteq> Some (JObj y)"
  by (cases "dict_get b k"; cases "dict_get a k"; cases "the (dict_get b k)"; cases "the (dict_get a k)"; cases "CHR ''/'' # k \<in> set RECURSE")
    (auto simp: member_ops_def same_at_def)

lemma member_ops_apply:
  assumes "plain_doc b" "plain_doc a" "k \<in> set (dict_keys b) \<union> set (dict_keys a)"
    "same_at (CHR ''/'' # k) (dict_get d k) (dict_get b k)"
  shows "\<exists>d'. apply_patch (member_ops b a k) d = Some d' \<and> (\<forall>j. j \<noteq> k \<longrightarrow> dict_get d' j = dict_get d j)
    \<and> same_at (CHR ''/'' # k) (dict_get d' k) (dict_get a k)"
proof -
  have k: "plain_key k" using assms(1-3) plain_docD(1) by blast
  show ?thesis
  proof (cases rule: member_ops_cases [of b k a])
    case (sub x y)
    have "\<forall>j \<in> set (dict_keys x @ dict_keys y). plain_key j" using plain_docD(2) [OF assms(1) sub(1,3)] plain_docD(2) [OF assms(2) sub(2,3)] by auto
    note plain = this
    obtain e0 where e0: "dict_get d k = Some (JObj e0)" "same_members e0 x"
      using assms(4) sub(1,3) equal_object [of "dict_get d k" x] by (auto simp: same_at_cases split: if_splits)
    from diff_sub [OF k plain e0] sub show ?thesis by (auto simp: same_at_def)
  next
    case leaf
    note leaf = this
    have "(absent (dict_get d k) \<longleftrightarrow> absent (dict_get b k)) \<and>
      (equal_value (dict_get b k) (dict_get a k) \<longrightarrow> equal_value (dict_get d k) (dict_get a k))"
    proof (cases "equal_value (dict_get d k) (dict_get b k)")
      case True
      then show ?thesis using equal_value_trans [OF True] by (auto simp: equal_value_eq)
    next
      case False
      then obtain x y where xy: "CHR ''/'' # k \<in> set RECURSE" "dict_get d k = Some (JObj x)" "dict_get b k = Some (JObj y)"
        using assms(4) by (auto simp: same_at_cases split: if_splits)
      then show ?thesis using leaf(3) [OF xy(1,3)] equal_object' [of y "dict_get a k"] by (auto simp: absent_def)
    qed
    then show ?thesis using op_for_top [OF k, of d "dict_get b k" "dict_get a k"] leaf(1) by (auto simp: settles_def same_at_equal)
  qed
qed

lemma missing_key: "k \<notin> set (dict_keys b) \<union> set (dict_keys a) \<Longrightarrow> dict_get b k = None \<and> dict_get a k = None"
  using dict_get_key [of k b] dict_get_key [of k a] by auto

lemma member_ops_Nil: "member_ops b a k = [] \<longleftrightarrow> same_at (CHR ''/'' # k) (dict_get b k) (dict_get a k)"
proof (cases rule: member_ops_cases [of b k a])
  case (sub x y)
  have "diff_under x y (CHR ''/'' # k) = [] \<longleftrightarrow> (\<forall>j \<in> set (dict_keys x @ dict_keys y). equal_value (dict_get x j) (dict_get y j))"
    by (auto simp: diff_sub_unfold op_for_Nil)
  also have "\<dots> \<longleftrightarrow> same_members x y"
    using missing_key [of _ x y] by (metis same_members_def equal_value_refl Un_iff set_append)
  finally show ?thesis using sub by (simp add: same_at_def)
qed (simp add: op_for_Nil)

lemma diff_Nil: "diff b a = [] \<longleftrightarrow> same_doc b a"
  unfolding diff_unfold same_doc_def using missing_key [of _ b a]
  by (auto simp: member_ops_Nil same_at_refl) (metis UnI1 UnI2 Un_iff same_at_refl)

lemma diff_apply:
  assumes "plain_doc b" "plain_doc a" "same_doc d0 b"
  shows "\<exists>d. apply_patch (diff b a) d0 = Some d \<and> same_doc d a"
proof -
  let ?ks = "sort (remdups (dict_keys b @ dict_keys a))"
  have "\<exists>d. apply_patch (concat (map (member_ops b a) ?ks)) d0 = Some d \<and> True \<and> (\<forall>j. j \<notin> set ?ks \<longrightarrow> dict_get d j = dict_get d0 j)
      \<and> (\<forall>k \<in> set ?ks. same_at (CHR ''/'' # k) (dict_get d k) (dict_get a k))"
    by (rule apply_each_key [where S = "\<lambda>k v. same_at (CHR ''/'' # k) v (dict_get b k)"])
      (use member_ops_apply [OF assms(1,2)] assms(3) in \<open>simp_all add: same_doc_def\<close>)
  then obtain d where d: "apply_patch (diff b a) d0 = Some d" "\<forall>j. j \<notin> set ?ks \<longrightarrow> dict_get d j = dict_get d0 j"
    "\<forall>k \<in> set ?ks. same_at (CHR ''/'' # k) (dict_get d k) (dict_get a k)" by (auto simp: diff_unfold)
  have "same_at (CHR ''/'' # k) (dict_get d k) (dict_get a k)" for k
  proof (cases "k \<in> set ?ks")
    case False
    with d(2) missing_key [of k b a] have "dict_get d k = dict_get d0 k" "dict_get b k = dict_get a k" by simp_all
    with assms(3) show ?thesis by (metis same_doc_def)
  qed (use d(3) in simp)
  with d(1) show ?thesis by (auto simp: same_doc_def)
qed

text \<open>C34: The patch of a listing update says exactly what changed. A subscriber who holds the old document and applies
  the patch as RFC 6902 prescribes never hits an error and ends with the new document, a null member and a missing one
  taken as the same and values compared as Python compares them; and the patch is empty exactly when the two documents
  are the same in that sense, so an update that changes nothing emits nothing. The keys of the document, and of the five
  objects the diff looks into, must be free of \<^verbatim>\<open>/\<close> and \<^verbatim>\<open>~\<close>, which the code does not escape.\<close>

theorem diff_round_trip:
  assumes "plain_doc before" "plain_doc after"
  shows "(\<exists>d. apply_patch (diff before after) before = Some d \<and> same_doc d after)
    \<and> (diff before after = [] \<longleftrightarrow> same_doc before after)"
  using diff_apply [OF assms same_doc_refl] diff_Nil by blast

definition doc_before :: dict where
  "doc_before = [(''name'', JStr ''A''), (''description'', JNull),
     (''contact'', JObj [(''email'', JStr ''a@b.c''), (''website'', JNull), (''social'', JList [])]), (''attributes'', JObj [(''a/b'', JInt 1)])]"

definition doc_after :: dict where
  "doc_after = [(''name'', JStr ''B''), (''description'', JStr ''d''),
     (''contact'', JObj [(''email'', JNull), (''website'', JStr ''w''), (''social'', JList [])]), (''attributes'', JObj [(''a/b'', JInt 2)])]"

theorem diff_round_trip_witness:
  "(\<exists>d. apply_patch (diff doc_before doc_after) doc_before = Some d \<and> same_doc d doc_after)
    \<and> (diff doc_before doc_after = [] \<longleftrightarrow> same_doc doc_before doc_after)"
  by (rule diff_round_trip) (simp_all add: doc_before_def doc_after_def plain_doc_def plain_key_def dict_keys_def RECURSE_def)

end
