(* ===== verification/Py_Values.thy ===== *)
theory Py_Values
  imports Prelude
begin

section \<open>Python's text of values, and values of text\<close>

text \<open>
  What the directory's input layer uses of the Python language and standard library: \<^verbatim>\<open>str\<close> and \<^verbatim>\<open>repr\<close> of a JSON
  value, \<^verbatim>\<open>int(s)\<close>, \<^verbatim>\<open>Decimal(s)\<close> and its \<^verbatim>\<open>str\<close>, and \<^verbatim>\<open>date.fromisoformat(s)\<close>. Strings are ASCII here, as in the
  rest of the model. The limits of libmpdec on the exponent of a \<^verbatim>\<open>Decimal\<close> (18 digits) are not modelled.
\<close>

subsection \<open>Joining\<close>

fun join :: "string \<Rightarrow> string list \<Rightarrow> string" where
  "join sep [] = []"
| "join sep [s] = s"
| "join sep (s # ss) = s @ sep @ join sep ss"

subsection \<open>str and repr\<close>

definition hex_digit :: "nat \<Rightarrow> char" where
  "hex_digit n = (if n < 10 then char_of (48 + n) else char_of (87 + n))"

definition repr_char :: "char \<Rightarrow> char \<Rightarrow> string" where
  "repr_char q c =
     (let n = of_char c :: nat; bs = char_of (92::nat) in
      if c = q \<or> c = bs then [bs, c]
      else if n = 10 then [bs, CHR ''n'']
      else if n = 13 then [bs, CHR ''r'']
      else if n = 9 then [bs, CHR ''t'']
      else if n < 32 \<or> n = 127 then [bs, CHR ''x'', hex_digit (n div 16), hex_digit (n mod 16)]
      else [c])"

definition repr_text :: "string \<Rightarrow> string" where
  "repr_text s =
     (let sq = char_of (39::nat); dq = char_of (34::nat); q = (if sq \<in> set s \<and> dq \<notin> set s then dq else sq)
      in [q] @ concat (map (repr_char q) s) @ [q])"

text \<open>\<^verbatim>\<open>repr\<close> of the float \<open>n / 10 ^ 6\<close>: the shortest digits, in scientific notation below \<open>10 ^ -4\<close> and from
  \<open>10 ^ 16\<close> on.\<close>

definition sci_exponent :: "int \<Rightarrow> string" where
  "sci_exponent e = (if e < 0 then ''-'' else ''+'') @ (if \<bar>e\<bar> < 10 then pad 2 \<bar>e\<bar> else int_text \<bar>e\<bar>)"

definition positive_float_text :: "nat \<Rightarrow> string" where
  "positive_float_text n =
     (let all = nat_text n; ds = rev (dropWhile (\<lambda>c. c = CHR ''0'') (rev all)); point = int (length all) - 6 in
      if point < - 3 \<or> 16 < point then
        take 1 ds @ (if length ds = 1 then [] else ''.'' @ drop 1 ds) @ ''e'' @ sci_exponent (point - 1)
      else if point \<le> 0 then ''0.'' @ replicate (nat (- point)) CHR ''0'' @ ds
      else if length ds \<le> nat point then ds @ replicate (nat point - length ds) CHR ''0'' @ ''.0''
      else take (nat point) ds @ ''.'' @ drop (nat point) ds)"

definition float_text :: "int \<Rightarrow> string" where
  "float_text n = (if n = 0 then ''0.0'' else if n < 0 then ''-'' @ positive_float_text (nat (- n)) else positive_float_text (nat n))"

fun py_repr :: "json \<Rightarrow> string" where
  "py_repr JNull = ''None''"
| "py_repr (JBool b) = (if b then ''True'' else ''False'')"
| "py_repr (JInt n) = int_text n"
| "py_repr (JDec n) = float_text n"
| "py_repr (JStr s) = repr_text s"
| "py_repr (JList xs) = ''['' @ join '', '' (map py_repr xs) @ '']''"
| "py_repr (JObj d) = ''{'' @ join '', '' (map (\<lambda>(k, v). repr_text k @ '': '' @ py_repr v) d) @ ''}''"

definition py_str :: "json \<Rightarrow> string" where
  "py_str v = (case v of JStr s \<Rightarrow> s | _ \<Rightarrow> py_repr v)"

subsection \<open>Whole numbers\<close>

definition digit_value :: "char \<Rightarrow> nat" where
  "digit_value c = of_char c - 48"

definition digits_value :: "string \<Rightarrow> nat" where
  "digits_value s = foldl (\<lambda>n c. 10 * n + digit_value c) 0 s"

text \<open>\<^verbatim>\<open>int(s)\<close> of a stripped string: a sign, then digits with single underscores between them, at most 4300 of them.\<close>

fun digit_run :: "string \<Rightarrow> bool" where
  "digit_run [] = False"
| "digit_run [c] = is_digit c"
| "digit_run (c # d # s) = (is_digit c \<and> (if d = CHR ''_'' then digit_run s else digit_run (d # s)))"

definition unsigned :: "string \<Rightarrow> bool \<times> string" where
  "unsigned s = (case s of c # t \<Rightarrow> if c = CHR ''-'' then (True, t) else if c = CHR ''+'' then (False, t) else (False, s) | [] \<Rightarrow> (False, s))"

definition parse_int :: "string \<Rightarrow> int option" where
  "parse_int s =
     (let (neg, body) = unsigned s; ds = filter (\<lambda>c. c \<noteq> CHR ''_'') body in
      if digit_run body \<and> length ds \<le> 4300 then Some ((if neg then - 1 else 1) * int (digits_value ds)) else None)"

subsection \<open>Decimals\<close>

text \<open>A \<^verbatim>\<open>Decimal\<close>: sign, digits and exponent; an infinity; or a (signalling) NaN with its payload.\<close>

datatype decimal =
    DecNum bool string int
  | DecInf bool
  | DecNaN bool bool string

definition lower_text :: "string \<Rightarrow> string" where
  "lower_text s = map (\<lambda>c. let n = of_char c :: nat in if 65 \<le> n \<and> n \<le> 90 then char_of (n + 32) else c) s"

text \<open>Leading zeros go; nothing left is zero.\<close>

definition significant :: "string \<Rightarrow> string" where
  "significant s = (let t = dropWhile (\<lambda>c. c = CHR ''0'') s in if t = [] then ''0'' else t)"

definition all_digits :: "string \<Rightarrow> bool" where
  "all_digits s = list_all is_digit s"

definition parse_exponent :: "string \<Rightarrow> int option" where
  "parse_exponent s =
     (case s of
        [] \<Rightarrow> Some 0
      | c # t \<Rightarrow>
          if c = CHR ''e'' then
            (let (neg, ds) = unsigned t in
             if ds \<noteq> [] \<and> all_digits ds then Some ((if neg then - 1 else 1) * int (digits_value ds)) else None)
          else None)"

definition parse_finite :: "bool \<Rightarrow> string \<Rightarrow> decimal option" where
  "parse_finite neg s =
     (let whole = takeWhile is_digit s; rest = dropWhile is_digit s;
          frac = (case rest of c # t \<Rightarrow> if c = CHR ''.'' then takeWhile is_digit t else [] | [] \<Rightarrow> []);
          rest' = (case rest of c # t \<Rightarrow> if c = CHR ''.'' then dropWhile is_digit t else rest | [] \<Rightarrow> []) in
      if whole = [] \<and> frac = [] then None
      else map_option (\<lambda>e. DecNum neg (significant (whole @ frac)) (e - int (length frac))) (parse_exponent rest'))"

text \<open>\<^verbatim>\<open>Decimal(s)\<close> of a stripped string; underscores are dropped wherever they stand.\<close>

definition parse_decimal :: "string \<Rightarrow> decimal option" where
  "parse_decimal raw =
     (let (neg, s) = unsigned (lower_text (filter (\<lambda>c. c \<noteq> CHR ''_'') raw)) in
      if s = ''inf'' \<or> s = ''infinity'' then Some (DecInf neg)
      else if starts_with s ''nan'' then (if all_digits (drop 3 s) then Some (DecNaN neg False (drop 3 s)) else None)
      else if starts_with s ''snan'' then (if all_digits (drop 4 s) then Some (DecNaN neg True (drop 4 s)) else None)
      else parse_finite neg s)"

text \<open>\<^verbatim>\<open>str(d)\<close>. The payload of a NaN is written without its leading zeros.\<close>

definition signed_exponent :: "int \<Rightarrow> string" where
  "signed_exponent e = (if e < 0 then ''-'' else ''+'') @ int_text \<bar>e\<bar>"

definition finite_text :: "string \<Rightarrow> int \<Rightarrow> string" where
  "finite_text ds e =
     (let left = e + int (length ds); point = (if e \<le> 0 \<and> - 6 < left then left else 1);
          digits = (if point \<le> 0 then ''0.'' @ replicate (nat (- point)) CHR ''0'' @ ds
                    else if int (length ds) \<le> point then ds @ replicate (nat point - length ds) CHR ''0''
                    else take (nat point) ds @ ''.'' @ drop (nat point) ds)
      in digits @ (if left = point then [] else ''E'' @ signed_exponent (left - point)))"

fun decimal_text :: "decimal \<Rightarrow> string" where
  "decimal_text (DecNum neg ds e) = (if neg then ''-'' else []) @ finite_text ds e"
| "decimal_text (DecInf neg) = (if neg then ''-'' else []) @ ''Infinity''"
| "decimal_text (DecNaN neg sig payload) =
     (if neg then ''-'' else []) @ (if sig then ''sNaN'' else ''NaN'') @ dropWhile (\<lambda>c. c = CHR ''0'') payload"

subsection \<open>Dates\<close>

definition leap :: "int \<Rightarrow> bool" where
  "leap y \<longleftrightarrow> (y mod 4 = 0 \<and> y mod 100 \<noteq> 0) \<or> y mod 400 = 0"

definition days_in_month :: "int \<Rightarrow> int \<Rightarrow> int" where
  "days_in_month y m = (if m = 2 then (if leap y then 29 else 28) else if m \<in> {4, 6, 9, 11} then 30 else 31)"

definition valid_date :: "int \<Rightarrow> int \<Rightarrow> int \<Rightarrow> bool" where
  "valid_date y m d \<longleftrightarrow> 1 \<le> y \<and> y \<le> 9999 \<and> 1 \<le> m \<and> m \<le> 12 \<and> 1 \<le> d \<and> d \<le> days_in_month y m"

text \<open>The day number of a date, counted from 1970-01-01: the inverse of \<open>civil\<close>.\<close>

definition day_number :: "int \<Rightarrow> int \<Rightarrow> int \<Rightarrow> int" where
  "day_number y m d =
     (let y' = (if m \<le> 2 then y - 1 else y); era = y' div 400; yoe = y' - era * 400;
          doy = (153 * (if 2 < m then m - 3 else m + 9) + 2) div 5 + d - 1;
          doe = yoe * 365 + yoe div 4 - yoe div 100 + doy
      in era * 146097 + doe - 719468)"

text \<open>ISO weeks: day 1 of week 1 is the Monday of the week that holds January 4th. 1970-01-01 was a Thursday.\<close>

definition week_monday :: "int \<Rightarrow> int" where
  "week_monday y = (let jan1 = day_number y 1 1; wd = (jan1 + 3) mod 7; monday = jan1 - wd in if wd > 3 then monday + 7 else monday)"

definition weeks_of :: "int \<Rightarrow> int" where
  "weeks_of y = (week_monday (y + 1) - week_monday y) div 7"

definition number_at :: "string \<Rightarrow> int option" where
  "number_at s = (if s \<noteq> [] \<and> all_digits s then Some (int (digits_value s)) else None)"

definition week_date :: "int \<Rightarrow> int \<Rightarrow> int \<Rightarrow> (int \<times> int \<times> int) option" where
  "week_date y w d =
     (if 1 \<le> y \<and> y \<le> 9999 \<and> 1 \<le> w \<and> w \<le> weeks_of y \<and> 1 \<le> d \<and> d \<le> 7 then
        (let (y', m', d') = civil (week_monday y + (w - 1) * 7 + d - 1) in if valid_date y' m' d' then Some (y', m', d') else None)
      else None)"

text \<open>\<^verbatim>\<open>date.fromisoformat\<close> of Python 3.11 and later: \<^verbatim>\<open>YYYY-MM-DD\<close>, \<^verbatim>\<open>YYYYMMDD\<close>, \<^verbatim>\<open>YYYY-Www\<close>, \<^verbatim>\<open>YYYY-Www-D\<close>,
  \<^verbatim>\<open>YYYYWww\<close> and \<^verbatim>\<open>YYYYWwwD\<close>.\<close>

definition parse_date :: "string \<Rightarrow> (int \<times> int \<times> int) option" where
  "parse_date s =
     (let field = (\<lambda>i n. number_at (take n (drop i s))) in
      if length s \<notin> {7, 8, 10} then None
      else case field 0 4 of
        None \<Rightarrow> None
      | Some y \<Rightarrow>
          let sep = (s ! 4 = CHR ''-''); p = (if sep then 5 else 4) in
          if s ! p = CHR ''W'' then
            (case field (Suc p) 2 of
               None \<Rightarrow> None
             | Some w \<Rightarrow>
                 if length s = p + 3 then week_date y w 1
                 else if sep \<and> s ! (p + 3) \<noteq> CHR ''-'' then None
                 else if length s \<noteq> (if sep then p + 5 else p + 4) then None
                 else Option.bind (field (if sep then p + 4 else p + 3) 1) (week_date y w))
          else if length s \<noteq> (if sep then 10 else 8) \<or> (sep \<and> s ! 7 \<noteq> CHR ''-'') then None
          else (case (field p 2, field (if sep then 8 else 6) 2) of
                  (Some m, Some d) \<Rightarrow> if valid_date y m d then Some (y, m, d) else None
                | _ \<Rightarrow> None))"

definition date_text :: "int \<times> int \<times> int \<Rightarrow> string" where
  "date_text t = (case t of (y, m, d) \<Rightarrow> pad 4 y @ ''-'' @ pad 2 m @ ''-'' @ pad 2 d)"

subsection \<open>Digits read back\<close>

lemma is_digit_char [simp]: "is_digit (char_of (48 + n)) \<longleftrightarrow> n < 10" if "n < 10" for n :: nat
  using that by (simp add: is_digit_def)

lemma digit_value_char [simp]: "n < 10 \<Longrightarrow> digit_value (char_of (48 + n)) = n" for n :: nat
  by (simp add: digit_value_def)

lemma digits_value_snoc [simp]: "digits_value (s @ [c]) = 10 * digits_value s + digit_value c"
  by (simp add: digits_value_def)

lemma digits_value_Nil [simp]: "digits_value [] = 0"
  by (simp add: digits_value_def)

lemma all_digits_append [simp]: "all_digits (s @ t) \<longleftrightarrow> all_digits s \<and> all_digits t" "all_digits (c # s) \<longleftrightarrow> is_digit c \<and> all_digits s" "all_digits []"
  by (simp_all add: all_digits_def)

lemma all_digits_replicate [simp]: "all_digits (replicate n CHR ''0'')"
  by (induction n) (simp_all add: is_digit_def)

lemma nat_text_digits: "all_digits (nat_text n) \<and> nat_text n \<noteq> [] \<and> digits_value (nat_text n) = n"
proof (induction n rule: nat_text.induct)
  case (1 n)
  show ?case
  proof (cases "n < 10")
    case True
    then show ?thesis using digits_value_snoc [of "[]" "char_of (48 + n)"] by (subst (1 2 3) nat_text.simps) simp
  next
    case False
    then show ?thesis using 1 [OF False] by (subst (1 2 3) nat_text.simps) simp
  qed
qed

lemma length_digits_of [simp]: "length (digits_of w n) = w"
  by (induction w n rule: digits_of.induct) simp_all

lemma all_digits_of [simp]: "all_digits (digits_of w n)"
  by (induction w n rule: digits_of.induct) simp_all

lemma digits_value_of [simp]: "digits_value (digits_of w n) = n mod 10 ^ w"
proof (induction w n rule: digits_of.induct)
  case (2 w n)
  have "n mod 10 ^ Suc w = 10 * (n div 10 mod 10 ^ w) + n mod 10" by (simp add: mod_mult2_eq)
  with 2 show ?case by simp
qed simp

lemma strip_solid: "list_all (\<lambda>c. \<not> is_space c) s \<Longrightarrow> strip s = s"
proof -
  assume "list_all (\<lambda>c. \<not> is_space c) s"
  moreover have "dropWhile is_space t = t" if "list_all (\<lambda>c. \<not> is_space c) t" for t using that by (cases t) simp_all
  ultimately show ?thesis by (simp add: strip_def list_all_rev)
qed

lemma strip_idem [simp]: "strip (strip s) = strip s"
proof -
  let ?t = "dropWhile is_space s"
  let ?u = "rev (dropWhile is_space (rev ?t))"
  have "\<not> is_space (hd ?u)" if "?u \<noteq> []"
  proof -
    have "?t = ?u @ rev (takeWhile is_space (rev ?t))" by (metis rev_append rev_rev_ident takeWhile_dropWhile_id)
    then have "hd ?t = hd ?u" "?t \<noteq> []" using that by (metis hd_append2, force)
    then show ?thesis using hd_dropWhile [of is_space s] by simp
  qed
  moreover have "dropWhile is_space u = u" if "u \<noteq> [] \<longrightarrow> \<not> is_space (hd u)" for u using that by (cases u) simp_all
  ultimately have "dropWhile is_space ?u = ?u" by blast
  moreover have "dropWhile is_space (dropWhile is_space (rev ?t)) = dropWhile is_space (rev ?t)" by simp
  ultimately show ?thesis by (simp add: strip_def)
qed

lemma digit_not_space [simp]: "is_digit c \<Longrightarrow> \<not> is_space c"
  by (auto simp: is_digit_def is_space_def Let_def)

lemma solid_digits: "all_digits s \<Longrightarrow> list_all (\<lambda>c. \<not> is_space c) s"
  by (auto simp: all_digits_def list_all_iff)

subsection \<open>Decimals read back\<close>

definition canonical :: "string \<Rightarrow> bool" where
  "canonical ds \<longleftrightarrow> ds \<noteq> [] \<and> all_digits ds \<and> significant ds = ds"

lemma significant_canonical: "all_digits s \<Longrightarrow> canonical (significant s)"
proof -
  assume a: "all_digits s"
  define t where "t = dropWhile (\<lambda>c. c = CHR ''0'') s"
  have t: "all_digits t" using a by (auto simp: t_def all_digits_def list_all_iff dest: set_dropWhileD)
  have "dropWhile (\<lambda>c. c = CHR ''0'') t = t" by (simp add: t_def)
  with t have "canonical t" if "t \<noteq> []" using that by (simp add: canonical_def significant_def)
  moreover have "canonical ''0''" by (simp add: canonical_def significant_def is_digit_def)
  ultimately show ?thesis by (simp add: significant_def t_def [symmetric] Let_def)
qed

lemma significant_zeros: "significant (replicate n CHR ''0'' @ s) = significant s"
  by (induction n) (simp_all add: significant_def)

lemma take_while_digits:
  "all_digits s \<Longrightarrow> (t = [] \<or> \<not> is_digit (hd t)) \<Longrightarrow> takeWhile is_digit (s @ t) = s \<and> dropWhile is_digit (s @ t) = t"
  by (induction s) (cases t; simp add: all_digits_def)+

text \<open>A plain number, with and without a fraction, before an exponent.\<close>

lemma parse_finite_whole:
  assumes "all_digits w" "w \<noteq> []" "parse_exponent r = Some e" "r = [] \<or> hd r = CHR ''e''"
  shows "parse_finite neg (w @ r) = Some (DecNum neg (significant w) e)"
proof -
  have "takeWhile is_digit (w @ r) = w \<and> dropWhile is_digit (w @ r) = r"
    using assms(1,4) by (intro take_while_digits) (auto simp: is_digit_def)
  then have s: "takeWhile is_digit (w @ r) = w" "dropWhile is_digit (w @ r) = r" by simp_all
  show ?thesis unfolding parse_finite_def Let_def s using assms(2-4) by (cases r) auto
qed

lemma parse_finite_frac:
  assumes "all_digits w" "all_digits f" "w \<noteq> []" "parse_exponent r = Some e" "r = [] \<or> hd r = CHR ''e''"
  shows "parse_finite neg (w @ CHR ''.'' # f @ r) = Some (DecNum neg (significant (w @ f)) (e - int (length f)))"
proof -
  have "takeWhile is_digit (w @ CHR ''.'' # f @ r) = w \<and> dropWhile is_digit (w @ CHR ''.'' # f @ r) = CHR ''.'' # f @ r"
    using assms(1) by (intro take_while_digits) (auto simp: is_digit_def)
  moreover have "takeWhile is_digit (f @ r) = f \<and> dropWhile is_digit (f @ r) = r"
    using assms(2,5) by (intro take_while_digits) (auto simp: is_digit_def)
  ultimately have s: "takeWhile is_digit (w @ CHR ''.'' # f @ r) = w" "dropWhile is_digit (w @ CHR ''.'' # f @ r) = CHR ''.'' # f @ r"
    "takeWhile is_digit (f @ r) = f" "dropWhile is_digit (f @ r) = r" by simp_all
  show ?thesis unfolding parse_finite_def Let_def s using assms(3,4) by (simp add: s)
qed

lemma parse_signed_exponent: "parse_exponent (CHR ''e'' # signed_exponent e) = Some e"
proof -
  have "int_text \<bar>e\<bar> = nat_text (nat \<bar>e\<bar>)" by (simp add: int_text_def)
  with nat_text_digits [of "nat \<bar>e\<bar>"] show ?thesis by (cases "e < 0") (simp_all add: parse_exponent_def signed_exponent_def unsigned_def)
qed


lemma lower_digits: "all_digits s \<Longrightarrow> lower_text s = s"
  by (induction s) (auto simp: lower_text_def is_digit_def Let_def)

lemma lower_text_append [simp]: "lower_text (s @ t) = lower_text s @ lower_text t" "lower_text [] = []"
  by (simp_all add: lower_text_def)

lemma lower_exponent: "lower_text (''E'' @ signed_exponent e) = CHR ''e'' # signed_exponent e"
proof -
  have "int_text \<bar>e\<bar> = nat_text (nat \<bar>e\<bar>)" by (simp add: int_text_def)
  then have "lower_text (int_text \<bar>e\<bar>) = int_text \<bar>e\<bar>" using nat_text_digits [of "nat \<bar>e\<bar>"] lower_digits by simp
  moreover have "char_of (101 :: nat) = CHR ''e''" using char_of_char [of "CHR ''e''"] by simp
  ultimately show ?thesis unfolding signed_exponent_def by (simp add: lower_text_def)
qed

text \<open>The text of a finite decimal, and what the parser makes of it.\<close>

lemma parse_finite_text:
  assumes c: "canonical ds"
  shows "parse_finite neg (lower_text (finite_text ds e)) = Some (DecNum neg ds e)"
proof -
  let ?left = "e + int (length ds)"
  have d: "all_digits ds" "ds \<noteq> []" "significant ds = ds" using c by (auto simp: canonical_def)
  have tk: "all_digits (take n ds)" "all_digits (drop n ds)" for n using d(1) by (metis all_digits_append(1) append_take_drop_id)+
  have z: "all_digits ''0''" by (simp add: is_digit_def)
  have lw: "lower_text (CHR ''.'' # s) = CHR ''.'' # lower_text s" "lower_text (CHR ''0'' # s) = CHR ''0'' # lower_text s" for s
    by (simp_all add: lower_text_def)
  show ?thesis
  proof (cases "e \<le> 0 \<and> - 6 < ?left")
    case True
    consider "?left \<le> 0" | "0 < ?left" "int (length ds) \<le> ?left" | "0 < ?left" "?left < int (length ds)" by linarith
    then show ?thesis
    proof cases
      case 1
      let ?f = "replicate (nat (- ?left)) CHR ''0'' @ ds"
      have "finite_text ds e = ''0'' @ CHR ''.'' # ?f @ []" using True 1 by (simp add: finite_text_def Let_def)
      moreover have "parse_finite neg (''0'' @ CHR ''.'' # ?f @ []) = Some (DecNum neg (significant (''0'' @ ?f)) (0 - int (length ?f)))"
        by (rule parse_finite_frac) (use d z in \<open>simp_all add: parse_exponent_def\<close>)
      moreover have "significant (''0'' @ ?f) = ds" using significant_zeros [of "Suc (nat (- ?left))" ds] d(3) by simp
      moreover have "0 - int (length ?f) = e" using 1 by simp
      moreover have "lower_text (''0'' @ CHR ''.'' # ?f @ []) = ''0'' @ CHR ''.'' # ?f @ []"
        using lower_digits [of ?f] lower_digits [OF z] d(1) by (simp add: lw)
      ultimately show ?thesis by simp
    next
      case 2
      then have e: "e = 0" using True by simp
      have "finite_text ds e = ds @ []" using d(2) by (simp add: finite_text_def Let_def e)
      moreover have "parse_finite neg (ds @ []) = Some (DecNum neg (significant ds) 0)"
        by (rule parse_finite_whole) (use d in \<open>simp_all add: parse_exponent_def\<close>)
      ultimately show ?thesis using d lower_digits [OF d(1)] e by simp
    next
      case 3
      let ?n = "nat ?left"
      have "finite_text ds e = take ?n ds @ CHR ''.'' # drop ?n ds @ []" using True 3 by (simp add: finite_text_def Let_def)
      moreover have "parse_finite neg (take ?n ds @ CHR ''.'' # drop ?n ds @ [])
          = Some (DecNum neg (significant (take ?n ds @ drop ?n ds)) (0 - int (length (drop ?n ds))))"
        by (rule parse_finite_frac) (use d tk 3 in \<open>simp_all add: parse_exponent_def\<close>)
      moreover have "0 - int (length (drop ?n ds)) = e" using 3 by simp
      ultimately show ?thesis using d(3) lower_digits [OF tk(1), of ?n] lower_digits [OF tk(2), of ?n] by (simp add: lw)
    qed
  next
    case False
    then have "?left \<noteq> 1" using d(2) by (cases ds) auto
    let ?x = "''E'' @ signed_exponent (?left - 1)"
    note px = parse_signed_exponent [of "?left - 1"]
    show ?thesis
    proof (cases "length ds = 1")
      case True
      have "finite_text ds e = ds @ ?x" unfolding finite_text_def Let_def using False \<open>?left \<noteq> 1\<close> True by auto
      moreover have "parse_finite neg (ds @ CHR ''e'' # signed_exponent (?left - 1)) = Some (DecNum neg (significant ds) (?left - 1))"
        by (rule parse_finite_whole [OF d(1,2) px]) simp
      ultimately show ?thesis using d(3) lower_digits [OF d(1)] lower_exponent [of "?left - 1"] True by simp
    next
      case len: False
      then have "1 < length ds" using d(2) by (cases ds) auto
      then have "finite_text ds e = take 1 ds @ CHR ''.'' # drop 1 ds @ ?x" unfolding finite_text_def Let_def using False \<open>?left \<noteq> 1\<close> by auto
      moreover have "parse_finite neg (take 1 ds @ CHR ''.'' # drop 1 ds @ CHR ''e'' # signed_exponent (?left - 1))
          = Some (DecNum neg (significant (take 1 ds @ drop 1 ds)) (?left - 1 - int (length (drop 1 ds))))"
        by (rule parse_finite_frac [OF tk(1) tk(2) _ px]) (use d(2) in simp_all)
      ultimately show ?thesis using d(3) \<open>1 < length ds\<close> lower_digits [OF tk(1), of 1] lower_digits [OF tk(2), of 1] lower_exponent [of "?left - 1"] by (simp add: lw)
    qed
  qed
qed

definition number_char :: "char \<Rightarrow> bool" where
  "number_char c \<longleftrightarrow> is_digit c \<or> c \<in> set ''.+-EInfityNas''"

lemma number_char_plain: "number_char c \<Longrightarrow> c \<noteq> CHR ''_'' \<and> \<not> is_space c"
  by (auto simp: number_char_def is_digit_def is_space_def Let_def)

lemma number_chars_digits: "all_digits s \<Longrightarrow> list_all number_char s"
  by (auto simp: all_digits_def list_all_iff number_char_def)

lemma finite_text_shape:
  assumes "canonical ds"
  shows "list_all number_char (finite_text ds e) \<and> finite_text ds e \<noteq> [] \<and> is_digit (hd (finite_text ds e))"
proof -
  have a: "all_digits ds" "ds \<noteq> []" using assms by (simp_all add: canonical_def)
  then have d: "list_all number_char ds" "ds \<noteq> []" "is_digit (hd ds)" by (simp_all add: number_chars_digits) (cases ds; simp)
  have t: "list_all number_char (take n ds)" "list_all number_char (drop n ds)" for n
    using d(1) by (metis append_take_drop_id list_all_append)+
  have "int_text \<bar>x\<bar> = nat_text (nat \<bar>x\<bar>)" for x by (simp add: int_text_def)
  then have "list_all number_char (signed_exponent x)" for x
    using nat_text_digits [of "nat \<bar>x\<bar>"] by (simp add: signed_exponent_def number_chars_digits number_char_def)
  moreover have "list_all number_char (replicate n CHR ''0'')" for n by (simp add: number_chars_digits)
  ultimately show ?thesis using d t by (auto simp: finite_text_def Let_def number_char_def hd_append is_digit_def)
qed

lemma drop_payload: "all_digits s \<Longrightarrow> all_digits (dropWhile (\<lambda>c. c = CHR ''0'') s)"
  by (auto simp: all_digits_def list_all_iff dest: set_dropWhileD)

definition stored_decimal :: "decimal \<Rightarrow> bool" where
  "stored_decimal d = (case d of DecNum neg ds e \<Rightarrow> canonical ds | DecInf neg \<Rightarrow> True | DecNaN neg sig p \<Rightarrow> all_digits p)"

lemma parse_decimal_stored: "parse_decimal s = Some d \<Longrightarrow> stored_decimal d"
proof -
  assume a: "parse_decimal s = Some d"
  obtain neg t where u: "unsigned (lower_text (filter (\<lambda>c. c \<noteq> CHR ''_'') s)) = (neg, t)" by fastforce
  have "stored_decimal d" if "parse_finite neg t = Some d"
  proof -
    have "all_digits (takeWhile is_digit x)" for x by (simp add: all_digits_def list_all_iff) (metis set_takeWhileD)
    then show ?thesis using that
      by (auto simp: parse_finite_def Let_def stored_decimal_def split: if_splits list.splits intro!: significant_canonical)
  qed
  with a u show ?thesis by (auto simp: parse_decimal_def stored_decimal_def split: if_splits)
qed

lemma decimal_text_chars: "stored_decimal d \<Longrightarrow> list_all number_char (decimal_text d)"
  by (cases d) (auto simp: stored_decimal_def number_char_def finite_text_shape number_chars_digits drop_payload)

lemma decimal_text_solid: "stored_decimal d \<Longrightarrow> strip (decimal_text d) = decimal_text d"
  by (rule strip_solid, rule list.pred_mono_strong [OF decimal_text_chars]) (simp_all add: number_char_plain)

lemma unsigned_lower:
  assumes "s \<noteq> []" "hd s \<notin> set ''+-''"
  shows "unsigned (lower_text ((if neg then ''-'' else []) @ s)) = (neg, lower_text s)"
  using assms by (cases s) (auto simp: unsigned_def lower_text_def Let_def dest!: arg_cong [where f = "of_char :: char \<Rightarrow> nat"])

text \<open>A decimal that was read from text reads back from its own text, up to leading zeros in the payload of a NaN.\<close>

lemma parse_decimal_text:
  assumes "stored_decimal d"
  shows "\<exists>d'. parse_decimal (decimal_text d) = Some d' \<and> decimal_text d' = decimal_text d"
proof -
  have f: "filter (\<lambda>c. c \<noteq> CHR ''_'') (decimal_text d) = decimal_text d"
    using decimal_text_chars [OF assms] number_char_plain by (auto simp: list_all_iff filter_id_conv)
  show ?thesis
  proof (cases d)
    case (DecNum neg ds e)
    then have c: "canonical ds" using assms by (simp add: stored_decimal_def)
    have h: "finite_text ds e \<noteq> []" "is_digit (hd (finite_text ds e))" using finite_text_shape [OF c] by simp_all
    then have "hd (finite_text ds e) \<notin> set ''+-''" by (auto simp: is_digit_def)
    note u = unsigned_lower [OF h(1) this, of neg]
    have "is_digit (hd (lower_text (finite_text ds e)))" "lower_text (finite_text ds e) \<noteq> []"
      using h by (cases "finite_text ds e"; auto simp: lower_text_def is_digit_def Let_def)+
    then have "lower_text (finite_text ds e) \<notin> {''inf'', ''infinity''}" "\<not> starts_with (lower_text (finite_text ds e)) ''nan''"
      "\<not> starts_with (lower_text (finite_text ds e)) ''snan''"
      by (auto simp: is_digit_def starts_with_def prefix_def)
    then show ?thesis using u f parse_finite_text [OF c] DecNum by (simp add: parse_decimal_def)
  next
    case (DecInf neg)
    have "unsigned (lower_text ((if neg then ''-'' else []) @ ''Infinity'')) = (neg, lower_text ''Infinity'')" by (rule unsigned_lower) simp_all
    moreover have "lower_text ''Infinity'' = ''infinity''" by code_simp
    ultimately show ?thesis using f DecInf by (simp add: parse_decimal_def)
  next
    case (DecNaN neg sig p)
    let ?p = "dropWhile (\<lambda>c. c = CHR ''0'') p" and ?n = "if sig then ''sNaN'' else ''NaN''"
    have p: "all_digits ?p" using DecNaN assms drop_payload by (simp add: stored_decimal_def)
    have "unsigned (lower_text ((if neg then ''-'' else []) @ (?n @ ?p))) = (neg, lower_text (?n @ ?p))" by (rule unsigned_lower) simp_all
    moreover have "lower_text (?n @ ?p) = (if sig then ''snan'' else ''nan'') @ ?p"
    proof -
      have "lower_text ''sNaN'' = ''snan''" "lower_text ''NaN'' = ''nan''" by code_simp+
      then show ?thesis using lower_digits [OF p] by simp
    qed
    ultimately have "parse_decimal (decimal_text d) = Some (DecNaN neg sig ?p)" using f DecNaN p by (auto simp: parse_decimal_def)
    then show ?thesis using DecNaN by simp
  qed
qed

subsection \<open>Dates read back\<close>

lemma number_at_digits: "0 < w \<Longrightarrow> n < 10 ^ w \<Longrightarrow> number_at (digits_of w n) = Some (int n)"
  by (cases w) (auto simp: number_at_def)

lemma parse_date_text:
  assumes "valid_date y m d"
  shows "parse_date (date_text (y, m, d)) = Some (y, m, d) \<and> strip (date_text (y, m, d)) = date_text (y, m, d)"
proof -
  have b: "0 \<le> y" "y \<le> 9999" "0 \<le> m" "m \<le> 12" "0 \<le> d" "d \<le> 31"
    using assms by (auto simp: valid_date_def days_in_month_def split: if_splits)
  let ?y = "digits_of 4 (nat y)" and ?m = "digits_of 2 (nat m)" and ?d = "digits_of 2 (nat d)"
  have s: "date_text (y, m, d) = ?y @ ''-'' @ ?m @ ''-'' @ ?d" by (simp add: date_text_def pad_def)
  have f: "take 4 (drop 0 (date_text (y, m, d))) = ?y" "take 2 (drop 5 (date_text (y, m, d))) = ?m" "take 2 (drop 8 (date_text (y, m, d))) = ?d"
    "date_text (y, m, d) ! 4 = CHR ''-''" "date_text (y, m, d) ! 7 = CHR ''-''" "length (date_text (y, m, d)) = 10"
    by (simp_all add: s nth_append)
  have "date_text (y, m, d) ! 5 = ?m ! 0" by (simp add: s nth_append)
  moreover have "?m ! 0 \<in> set ?m" by (intro nth_mem) simp
  then have "is_digit (?m ! 0)" using all_digits_of [of 2 "nat m"] by (auto simp: all_digits_def list_all_iff)
  ultimately have w: "date_text (y, m, d) ! 5 \<noteq> CHR ''W''" by (auto simp: is_digit_def)
  have n: "number_at ?y = Some y" "number_at ?m = Some m" "number_at ?d = Some d" using b by (simp_all add: number_at_digits)
  have "list_all (\<lambda>c. \<not> is_space c) (date_text (y, m, d))"
    using solid_digits [of ?y] solid_digits [of ?m] solid_digits [of ?d] by (simp add: s is_space_def)
  then have "strip (date_text (y, m, d)) = date_text (y, m, d)" by (rule strip_solid)
  moreover have "parse_date (date_text (y, m, d)) = Some (y, m, d)"
    unfolding parse_date_def Let_def f n using w assms by (simp add: f n)
  ultimately show ?thesis by simp
qed

lemma parse_date_valid: "parse_date s = Some (y, m, d) \<Longrightarrow> valid_date y m d"
proof -
  assume a: "parse_date s = Some (y, m, d)"
  have "week_date a b c = Some (y, m, d) \<Longrightarrow> valid_date y m d" for a b c
    by (auto simp: week_date_def Let_def split: if_splits prod.splits)
  with a show ?thesis by (auto simp: parse_date_def Let_def bind_eq_Some_conv split: if_splits option.splits prod.splits)
qed

end
