(* ===== verification/Field_Schema.thy ===== *)
theory Field_Schema
  imports Py_Values Patches
begin

section \<open>The field schema of a listing type\<close>

text \<open>
  \<^verbatim>\<open>directory/field_schema.py\<close>: the validation of a schema edit (\<open>validate_type_schema\<close>), the form in which an accepted
  schema is stored (\<open>normalize_type_schema\<close>), and the validation and coercion of a listing's custom fields against it
  (\<open>coerce\<close>, \<open>validate_custom_fields\<close>). A field descriptor is the JSON object the code works on. Django's URL and email
  validators are parameters (\<open>validators\<close>).
\<close>

record validators =
  url_valid :: "string \<Rightarrow> bool"
  email_valid :: "string \<Rightarrow> bool"

subsection \<open>The closed sets\<close>

definition FIELD_TYPES :: "string list" where
  "FIELD_TYPES = [''text'', ''long_text'', ''integer'', ''decimal'', ''boolean'', ''date'', ''url'', ''email'', ''select'', ''multi_select'']"

definition CHOICE_TYPES :: "string list" where
  "CHOICE_TYPES = [''select'', ''multi_select'']"

definition SEARCHABLE_TYPES :: "string list" where
  "SEARCHABLE_TYPES = [''text'', ''long_text'', ''select'']"

definition RESERVED_KEYS :: "string list" where
  "RESERVED_KEYS = [''id'', ''slug'', ''name'', ''description'', ''status'', ''visibility'', ''tier'', ''categories'', ''location'',
     ''contact'', ''media'', ''provenance'', ''created_at'', ''updated_at'', ''owner'']"

definition BOOL_FLAGS :: "string list" where
  "BOOL_FLAGS = [''required'', ''public'', ''searchable'']"

text \<open>\<^verbatim>\<open>_KEY_RE.match\<close>.\<close>

definition key_char :: "char \<Rightarrow> bool" where
  "key_char c \<longleftrightarrow> is_lower c \<or> is_digit c \<or> c = CHR ''_''"

definition key_re :: "string \<Rightarrow> bool" where
  "key_re k = (let s = chomp k in s \<noteq> [] \<and> is_lower (hd s) \<and> list_all key_char s)"

subsection \<open>Validating a schema\<close>

text \<open>\<^verbatim>\<open>d.get(k)\<close>.\<close>

definition get_or_null :: "dict \<Rightarrow> string \<Rightarrow> json" where
  "get_or_null d k = (case dict_get d k of None \<Rightarrow> JNull | Some v \<Rightarrow> v)"

definition hashable :: "json \<Rightarrow> bool" where
  "hashable v = (case v of JList _ \<Rightarrow> False | JObj _ \<Rightarrow> False | _ \<Rightarrow> True)"

text \<open>\<open>Inl ()\<close> is the \<^verbatim>\<open>TypeError\<close> of an unhashable key or type, which the callers do not catch.\<close>

fun prev_types :: "json list \<Rightarrow> dict \<Rightarrow> unit + dict" where
  "prev_types [] acc = Inr acc"
| "prev_types (f # fs) acc =
     (case f of
        JObj d \<Rightarrow>
          let key = get_or_null d ''key'' in
          if \<not> truthy key then prev_types fs acc
          else if \<not> hashable key then Inl ()
          else prev_types fs (case key of JStr k \<Rightarrow> dict_set k (get_or_null d ''type'') acc | _ \<Rightarrow> acc)
      | _ \<Rightarrow> prev_types fs acc)"

definition field_key :: "dict \<Rightarrow> string option" where
  "field_key f = (case dict_get f ''key'' of Some (JStr k) \<Rightarrow> if k = [] then None else Some k | _ \<Rightarrow> None)"

definition field_type :: "dict \<Rightarrow> string option" where
  "field_type f = (case dict_get f ''type'' of Some (JStr t) \<Rightarrow> if t \<in> set FIELD_TYPES then Some t else None | _ \<Rightarrow> None)"

definition where_text :: "nat \<Rightarrow> dict \<Rightarrow> string" where
  "where_text index f = (case field_key f of None \<Rightarrow> ''field '' @ nat_text (index + 1) | Some k \<Rightarrow> ''field '' @ repr k)"

definition key_errors :: "string list \<Rightarrow> dict \<Rightarrow> string list" where
  "key_errors seen f =
     (case field_key f of
        None \<Rightarrow> ['': key is required'']
      | Some k \<Rightarrow>
          (if key_re k then [] else ['': key must be lowercase letters, digits and underscores, starting with a letter''])
          @ (if k \<in> set RESERVED_KEYS then ['': '' @ repr k @ '' is a reserved field name''] else [])
          @ (if k \<in> set seen then ['': duplicate key''] else []))"

definition label_errors :: "dict \<Rightarrow> string list" where
  "label_errors f = (case dict_get f ''label'' of Some (JStr l) \<Rightarrow> if strip l = [] then ['': label is required''] else [] | _ \<Rightarrow> ['': label is required''])"

definition type_errors :: "dict \<Rightarrow> string list" where
  "type_errors f = (if field_type f = None then ['': type must be one of '' @ join '', '' (sort FIELD_TYPES)] else [])"

definition flag_errors :: "dict \<Rightarrow> string list" where
  "flag_errors f = concat (map (\<lambda>flag. case dict_get f flag of None \<Rightarrow> [] | Some (JBool _) \<Rightarrow> [] | Some _ \<Rightarrow> ['': '' @ flag @ '' must be true or false'']) BOOL_FLAGS)"

definition searchable_errors :: "dict \<Rightarrow> string list" where
  "searchable_errors f =
     (case field_type f of
        None \<Rightarrow> []
      | Some t \<Rightarrow> if truthy (get_or_null f ''searchable'') \<and> t \<notin> set SEARCHABLE_TYPES
                  then ['': only text, long_text and select fields can be searchable''] else [])"

definition clean_options :: "json list \<Rightarrow> string list" where
  "clean_options xs = concat (map (\<lambda>x. case x of JStr s \<Rightarrow> if strip s = [] then [] else [s] | _ \<Rightarrow> []) xs)"

definition option_errors :: "dict \<Rightarrow> string list" where
  "option_errors f =
     (let options = get_or_null f ''options'' in
      case field_type f of
        Some t \<Rightarrow>
          if t \<in> set CHOICE_TYPES then
            (case options of
               JList xs \<Rightarrow>
                 if xs = [] then ['': '' @ t @ '' needs a non-empty options list'']
                 else if length (clean_options xs) \<noteq> length xs then ['': options must be non-empty strings'']
                 else if \<not> distinct (clean_options xs) then ['': options must be unique'']
                 else []
             | _ \<Rightarrow> ['': '' @ t @ '' needs a non-empty options list''])
          else if options = JNull \<or> options = JList [] then [] else ['': options are only valid on select and multi_select fields'']
      | None \<Rightarrow> if options = JNull \<or> options = JList [] then [] else ['': options are only valid on select and multi_select fields''])"

definition frozen_errors :: "dict \<Rightarrow> dict \<Rightarrow> string list" where
  "frozen_errors prev f =
     (case (field_key f, field_type f) of
        (Some k, Some t) \<Rightarrow>
          (case dict_get prev k of
             Some old \<Rightarrow> if old \<noteq> JNull \<and> old \<noteq> JStr t
               then ['': type is frozen once the field exists (was '' @ repr (py_str old) @ ''); add a new field with a different key''] else []
           | None \<Rightarrow> [])
      | _ \<Rightarrow> [])"

definition field_errors :: "dict \<Rightarrow> nat \<Rightarrow> string list \<Rightarrow> dict \<Rightarrow> string list" where
  "field_errors prev index seen f =
     map ((@) (where_text index f))
       (key_errors seen f @ label_errors f @ type_errors f @ flag_errors f @ searchable_errors f @ option_errors f @ frozen_errors prev f)"

fun schema_errors :: "dict \<Rightarrow> nat \<Rightarrow> string list \<Rightarrow> json list \<Rightarrow> unit + string list" where
  "schema_errors prev i seen [] = Inr []"
| "schema_errors prev i seen (j # js) =
     (case j of
        JObj f \<Rightarrow>
          if \<not> hashable (get_or_null f ''type'') then Inl ()
          else bind_result (schema_errors prev (Suc i) (case field_key f of None \<Rightarrow> seen | Some k \<Rightarrow> k # seen) js)
                 (\<lambda>es. Inr (field_errors prev i seen f @ es))
      | _ \<Rightarrow> bind_result (schema_errors prev (Suc i) seen js) (\<lambda>es. Inr ((''field '' @ nat_text (i + 1) @ '': not an object'') # es)))"

definition validate_type_schema :: "json \<Rightarrow> json list \<Rightarrow> unit + string list" where
  "validate_type_schema fs previous =
     (case fs of
        JList js \<Rightarrow> bind_result (prev_types previous []) (\<lambda>prev. schema_errors prev 0 [] js)
      | _ \<Rightarrow> Inr [''schema must be a list of field descriptors''])"

subsection \<open>Storing a schema\<close>

text \<open>\<open>None\<close> is the exception a schema that was not validated would raise.\<close>

definition normalize_field :: "json \<Rightarrow> dict option" where
  "normalize_field j =
     (case j of
        JObj f \<Rightarrow>
          (case (dict_get f ''key'', dict_get f ''label'', dict_get f ''type'') of
             (Some k, Some (JStr l), Some t) \<Rightarrow>
               Some ([(''key'', k), (''label'', JStr (strip l)), (''type'', t),
                      (''required'', JBool (truthy (get_or_null f ''required''))),
                      (''public'', JBool (case dict_get f ''public'' of None \<Rightarrow> True | Some v \<Rightarrow> truthy v)),
                      (''searchable'', JBool (truthy (get_or_null f ''searchable'')))]
                 @ (if t \<in> JStr ` set CHOICE_TYPES
                    then [(''options'', JList (map (\<lambda>s. JStr (strip s)) (case dict_get f ''options'' of Some (JList xs) \<Rightarrow> clean_options xs | _ \<Rightarrow> [])))] else []))
           | _ \<Rightarrow> None)
      | _ \<Rightarrow> None)"

fun normalize_type_schema :: "json list \<Rightarrow> dict list option" where
  "normalize_type_schema [] = Some []"
| "normalize_type_schema (j # js) =
     (case normalize_field j of None \<Rightarrow> None | Some d \<Rightarrow> map_option (Cons d) (normalize_type_schema js))"

subsection \<open>Coercing a value\<close>

definition options_of :: "dict \<Rightarrow> string list" where
  "options_of f = (case dict_get f ''options'' of Some (JList xs) \<Rightarrow> concat (map (\<lambda>x. case x of JStr s \<Rightarrow> [s] | _ \<Rightarrow> []) xs) | _ \<Rightarrow> [])"

definition trunc_micro :: "int \<Rightarrow> int" where
  "trunc_micro n = (if n < 0 then - ((- n) div 1000000) else n div 1000000)"

text \<open>\<^verbatim>\<open>_coerce\<close>: \<open>Inl\<close> is the message of the \<^verbatim>\<open>ValueError\<close>.\<close>

definition coerce :: "validators \<Rightarrow> dict \<Rightarrow> json \<Rightarrow> string + json" where
  "coerce v f raw =
     (let t = py_str (get_or_null f ''type''); value = strip (py_str raw) in
      if t = ''text'' \<or> t = ''long_text'' then Inr (if value = [] then JNull else JStr value)
      else if t = ''integer'' then
        (case (case raw of JStr s \<Rightarrow> parse_int (strip s) | JInt n \<Rightarrow> Some n | JBool b \<Rightarrow> Some (if b then 1 else 0)
                | JDec n \<Rightarrow> Some (trunc_micro n) | _ \<Rightarrow> None) of
           Some n \<Rightarrow> Inr (JInt n)
         | None \<Rightarrow> Inl ''must be a whole number'')
      else if t = ''decimal'' then
        (case parse_decimal value of Some d \<Rightarrow> Inr (JStr (decimal_text d)) | None \<Rightarrow> Inl ''must be a number'')
      else if t = ''boolean'' then
        (if list_ex (py_eq raw) [JBool True, JStr ''true'', JStr ''True'', JStr ''1''] then Inr (JBool True)
         else if list_ex (py_eq raw) [JBool False, JStr ''false'', JStr ''False'', JStr ''0''] then Inr (JBool False)
         else Inl ''must be true or false'')
      else if t = ''date'' then
        (case parse_date value of Some d \<Rightarrow> Inr (JStr (date_text d)) | None \<Rightarrow> Inl ''must be a date (YYYY-MM-DD)'')
      else if t = ''url'' then (if url_valid v value then Inr (JStr value) else Inl ''must be a valid URL'')
      else if t = ''email'' then
        (if email_valid v (lower_text value) then Inr (JStr (lower_text value)) else Inl ''must be a valid email address'')
      else if t = ''select'' then
        (if value \<in> set (options_of f) then Inr (JStr value) else Inl ''is not one of the allowed options'')
      else if t = ''multi_select'' then
        (case raw of
           JList xs \<Rightarrow>
             let values = map (\<lambda>x. strip (py_str x)) xs; bad = filter (\<lambda>s. s \<notin> set (options_of f)) values in
             if bad = [] then Inr (JList (map JStr values)) else Inl (''not allowed: '' @ join '', '' bad)
         | _ \<Rightarrow> Inl ''must be a list'')
      else Inl (''unknown field type '' @ py_repr (get_or_null f ''type'')))"

subsection \<open>Validating the custom fields of a listing\<close>

text \<open>\<^verbatim>\<open>{f["key"]: f for f in fields}\<close>; the keys of a stored schema are strings.\<close>

fun schema_set :: "string \<Rightarrow> dict \<Rightarrow> (string \<times> dict) list \<Rightarrow> (string \<times> dict) list" where
  "schema_set k f [] = [(k, f)]"
| "schema_set k f ((k', f') # s) = (if k = k' then (k, f) # s else (k', f') # schema_set k f s)"

definition schema_of :: "dict list \<Rightarrow> (string \<times> dict) list" where
  "schema_of fs = fold (\<lambda>f. schema_set (py_str (get_or_null f ''key'')) f) fs []"

definition blank :: "json \<Rightarrow> bool" where
  "blank raw = (case raw of JStr s \<Rightarrow> strip s = [] | JNull \<Rightarrow> True | _ \<Rightarrow> False)"

definition label_of :: "string \<Rightarrow> dict \<Rightarrow> string" where
  "label_of key f = (case dict_get f ''label'' of None \<Rightarrow> key | Some l \<Rightarrow> py_str l)"

text \<open>One descriptor: its errors, and the member it adds to the result.\<close>

definition check_field :: "validators \<Rightarrow> bool \<Rightarrow> bool \<Rightarrow> dict \<Rightarrow> string \<times> dict \<Rightarrow> string list \<times> dict" where
  "check_field v creating enforce_required values kf =
     (let (key, f) = kf; label = label_of key f; required = truthy (get_or_null f ''required'') \<and> enforce_required;
          missing = (if required then [repr label @ '' is required''] else []) in
      case dict_get values key of
        None \<Rightarrow> (if creating then missing else [], [])
      | Some raw \<Rightarrow>
          if blank raw then (missing, [(key, JNull)])
          else (case coerce v f raw of
                  Inr x \<Rightarrow> ([], [(key, x)])
                | Inl m \<Rightarrow> ([repr label @ '' '' @ m], [])))"

definition validate_custom_fields :: "validators \<Rightarrow> dict list \<Rightarrow> dict \<Rightarrow> bool \<Rightarrow> bool \<Rightarrow> string list + dict" where
  "validate_custom_fields v fs values creating enforce_required =
     (let schema = schema_of fs;
          unknown = concat (map (\<lambda>k. if k \<in> set (map fst schema) then [] else [repr k @ '' is not a field on this listing type'']) (dict_keys values));
          parts = map (check_field v creating enforce_required values) schema;
          errors = unknown @ concat (map fst parts)
      in if errors = [] then Inr (concat (map snd parts)) else Inl errors)"

end
