(* ===== verification/Schema_Props.thy ===== *)
theory Schema_Props
  imports Field_Schema
begin

section \<open>What an accepted schema and accepted custom fields look like\<close>

text \<open>
  The stored form of a schema (\<open>stored_field\<close>), that every accepted schema is stored in it, and when the stored schema
  would be accepted again; the types of coerced values (\<open>value_typed\<close>) and that coercion leaves its own results alone,
  which is what makes a second import of the same file change nothing.
\<close>

subsection \<open>The stored form\<close>

definition stored_options :: "dict \<Rightarrow> string \<Rightarrow> bool" where
  "stored_options f t =
     (if t \<in> set CHOICE_TYPES
      then (case dict_get f ''options'' of
              Some (JList xs) \<Rightarrow> xs \<noteq> [] \<and> list_all (\<lambda>x. case x of JStr s \<Rightarrow> s \<noteq> [] \<and> strip s = s | _ \<Rightarrow> False) xs
            | _ \<Rightarrow> False)
      else dict_get f ''options'' = None)"

definition is_flag :: "json option \<Rightarrow> bool" where
  "is_flag v = (case v of Some (JBool _) \<Rightarrow> True | _ \<Rightarrow> False)"

lemma is_flag_iff: "is_flag v \<longleftrightarrow> (\<exists>b. v = Some (JBool b))"
  by (auto simp: is_flag_def split: option.splits json.splits)

definition stored_field :: "dict \<Rightarrow> bool" where
  "stored_field f =
     ((case field_key f of None \<Rightarrow> False | Some k \<Rightarrow> key_re k \<and> k \<notin> set RESERVED_KEYS)
      \<and> (case dict_get f ''label'' of Some (JStr l) \<Rightarrow> l \<noteq> [] \<and> strip l = l | _ \<Rightarrow> False)
      \<and> (case field_type f of
           None \<Rightarrow> False
         | Some t \<Rightarrow> stored_options f t \<and> (dict_get f ''searchable'' = Some (JBool True) \<longrightarrow> t \<in> set SEARCHABLE_TYPES))
      \<and> list_all (\<lambda>flag. is_flag (dict_get f flag)) BOOL_FLAGS)"

text \<open>What a descriptor without errors is.\<close>

definition field_accepted :: "dict \<Rightarrow> dict \<Rightarrow> bool" where
  "field_accepted prev f \<longleftrightarrow> hashable (get_or_null f ''type'') \<and> key_errors [] f = [] \<and> label_errors f = [] \<and> type_errors f = [] \<and> flag_errors f = []
     \<and> searchable_errors f = [] \<and> option_errors f = [] \<and> frozen_errors prev f = []"

lemma key_errors_Nil: "key_errors seen f = [] \<longleftrightarrow> key_errors [] f = [] \<and> (\<forall>k. field_key f = Some k \<longrightarrow> k \<notin> set seen)"
  by (auto simp: key_errors_def split: option.splits if_splits)

lemma accepted_key: "key_errors seen f = [] \<Longrightarrow> \<exists>k. field_key f = Some k \<and> key_re k \<and> k \<notin> set RESERVED_KEYS \<and> k \<notin> set seen"
  by (auto simp: key_errors_def split: option.splits if_splits)

lemma schema_errors_Nil:
  "schema_errors prev i seen js = Inr [] \<longleftrightarrow>
     (\<exists>fs. js = map JObj fs \<and> (\<forall>f \<in> set fs. field_accepted prev f) \<and> distinct (map field_key fs)
       \<and> (\<forall>f \<in> set fs. \<forall>k. field_key f = Some k \<longrightarrow> k \<notin> set seen))"
proof (induction js arbitrary: i seen)
  case (Cons j js)
  show ?case
  proof (cases j)
    case (JObj f)
    show ?thesis
    proof (cases "key_errors seen f = []")
      case False
      then show ?thesis using JObj
        by (auto simp: field_errors_def bind_result_eq_Inr map_eq_Cons_conv key_errors_Nil [of seen] field_accepted_def)
    next
      case True
      then obtain k where k: "field_key f = Some k" "k \<notin> set seen" "key_errors [] f = []" using accepted_key key_errors_Nil by blast
      have "schema_errors prev i seen (j # js) = Inr [] \<longleftrightarrow> field_accepted prev f \<and> schema_errors prev (Suc i) (k # seen) js = Inr []"
        using JObj k True by (auto simp: field_errors_def bind_result_eq_Inr field_accepted_def)
      also have "\<dots> \<longleftrightarrow> (\<exists>fs. j # js = map JObj fs \<and> (\<forall>f \<in> set fs. field_accepted prev f) \<and> distinct (map field_key fs)
       \<and> (\<forall>f \<in> set fs. \<forall>k. field_key f = Some k \<longrightarrow> k \<notin> set seen))"
        (is "?l \<longleftrightarrow> ?r")
      proof
        assume ?l
        then obtain fs where "js = map JObj fs" "\<forall>f \<in> set fs. field_accepted prev f" "distinct (map field_key fs)" "field_accepted prev f"
          "\<forall>f \<in> set fs. \<forall>j. field_key f = Some j \<longrightarrow> j \<notin> set (k # seen)" unfolding Cons.IH by blast
        then show ?r using JObj k by (intro exI [of _ "f # fs"]) (auto simp: image_iff eq_commute [of "Some k"])
      next
        assume ?r
        then obtain zs where "js = map JObj zs" "\<forall>f \<in> set (f # zs). field_accepted prev f" "distinct (map field_key (f # zs))"
          "\<forall>f \<in> set zs. \<forall>k. field_key f = Some k \<longrightarrow> k \<notin> set seen" using JObj by (auto simp: Cons_eq_map_conv)
        then show ?l unfolding Cons.IH using k(1) by (intro conjI exI [of _ zs]) (auto simp: image_iff)
      qed
      finally show ?thesis .
    qed
  qed (auto simp: bind_result_eq_Inr)
qed auto

subsection \<open>Storing\<close>

lemma strip_nonempty: "strip s \<noteq> [] \<Longrightarrow> strip (strip s) = strip s \<and> strip s \<noteq> []"
  by simp

lemma clean_options_all: "length (clean_options xs) = length xs \<Longrightarrow> xs = map JStr (clean_options xs) \<and> (\<forall>s \<in> set (clean_options xs). strip s \<noteq> [])"
proof (induction xs)
  case (Cons x xs)
  have "length (clean_options xs) \<le> length xs" for xs
    by (induction xs) (auto simp: clean_options_def split: json.splits)
  then have le: "length (clean_options xs) \<le> length xs" .
  with Cons.prems obtain s where s: "x = JStr s" "strip s \<noteq> []"
    by (cases x) (auto simp: clean_options_def split: if_splits)
  then have c: "clean_options (x # xs) = s # clean_options xs" by (simp add: clean_options_def)
  with Cons have ih: "xs = map JStr (clean_options xs)" "\<forall>s \<in> set (clean_options xs). strip s \<noteq> []" by simp_all
  show ?case unfolding c using ih(1) [symmetric] ih(2) s by simp
qed (simp add: clean_options_def)

lemma accepted_label: "label_errors f = [] \<Longrightarrow> \<exists>l. dict_get f ''label'' = Some (JStr l) \<and> strip l \<noteq> []"
  by (auto simp: label_errors_def split: option.splits json.splits if_splits)

lemma accepted_type: "type_errors f = [] \<Longrightarrow> \<exists>t. dict_get f ''type'' = Some (JStr t) \<and> field_type f = Some t \<and> t \<in> set FIELD_TYPES"
  by (auto simp: type_errors_def field_type_def split: option.splits json.splits if_splits)

lemma accepted_options:
  assumes "option_errors f = []" "field_type f = Some t" "t \<in> set CHOICE_TYPES"
  shows "\<exists>ss. dict_get f ''options'' = Some (JList (map JStr ss)) \<and> ss \<noteq> [] \<and> distinct ss \<and> (\<forall>s \<in> set ss. strip s \<noteq> []) \<and> clean_options (map JStr ss) = ss"
proof -
  from assms obtain xs where x: "dict_get f ''options'' = Some (JList xs)" "xs \<noteq> []" "length (clean_options xs) = length xs" "distinct (clean_options xs)"
    by (auto simp: option_errors_def get_or_null_def Let_def split: option.splits json.splits if_splits)
  with clean_options_all [OF x(3)] show ?thesis by (intro exI [of _ "clean_options xs"]) auto
qed

definition stored :: "dict \<Rightarrow> dict" where
  "stored f = (case normalize_field (JObj f) of None \<Rightarrow> [] | Some d \<Rightarrow> d)"

lemma normalize_accepted:
  assumes "field_accepted prev f"
  shows "normalize_field (JObj f) = Some (stored f) \<and> stored_field (stored f) \<and> field_key (stored f) = field_key f"
proof -
  from assms obtain k where k: "field_key f = Some k" "key_re k" "k \<notin> set RESERVED_KEYS" using accepted_key [of "[]" f] by (auto simp: field_accepted_def)
  then have kf: "dict_get f ''key'' = Some (JStr k)" "k \<noteq> []" by (auto simp: field_key_def split: option.splits json.splits if_splits)
  from assms obtain l where l: "dict_get f ''label'' = Some (JStr l)" "strip l \<noteq> []" using accepted_label by (auto simp: field_accepted_def)
  from assms obtain t where t: "dict_get f ''type'' = Some (JStr t)" "field_type f = Some t" "t \<in> set FIELD_TYPES"
    using accepted_type by (auto simp: field_accepted_def)
  have se: "truthy (get_or_null f ''searchable'') \<Longrightarrow> t \<in> set SEARCHABLE_TYPES"
    using assms t by (auto simp: field_accepted_def searchable_errors_def split: if_splits)
  have n: "normalize_field (JObj f) = Some (stored f)" using kf l t by (simp add: stored_def normalize_field_def)
  note st = n [unfolded normalize_field_def json.case kf l t option.case prod.case option.inject, symmetric]
  have opts: "stored_options (stored f) t"
  proof (cases "t \<in> set CHOICE_TYPES")
    case True
    from assms accepted_options [OF _ t(2) True] obtain ss where "dict_get f ''options'' = Some (JList (map JStr ss))" "ss \<noteq> []" "\<forall>s \<in> set ss. strip s \<noteq> []"
      "clean_options (map JStr ss) = ss" by (auto simp: field_accepted_def)
    then show ?thesis using True st by (auto simp: stored_options_def dict_get_Cons list_all_iff)
  next
    case False
    then show ?thesis using st by (auto simp: stored_options_def dict_get_Cons dict_get_def)
  qed
  have g: "dict_get (stored f) ''key'' = Some (JStr k)" "dict_get (stored f) ''label'' = Some (JStr (strip l))" "dict_get (stored f) ''type'' = Some (JStr t)"
    "is_flag (dict_get (stored f) ''required'')" "is_flag (dict_get (stored f) ''public'')"
    "dict_get (stored f) ''searchable'' = Some (JBool (truthy (get_or_null f ''searchable'')))"
    using st by (auto simp: dict_get_Cons is_flag_def)
  then have ft: "field_type (stored f) = Some t" "field_key (stored f) = Some k" using t(3) kf(2) by (simp_all add: field_type_def field_key_def)
  have "stored_field (stored f)"
    using g ft k l opts se by (simp add: stored_field_def BOOL_FLAGS_def is_flag_def)
  then show ?thesis using n ft k by simp
qed

lemma normalize_schema_accepted:
  assumes "\<forall>f \<in> set fs. field_accepted prev f"
  shows "normalize_type_schema (map JObj fs) = Some (map stored fs)"
  using assms by (induction fs) (auto simp: normalize_accepted)

subsection \<open>Saving the stored schema again\<close>

lemma stored_fieldD:
  assumes "stored_field f"
  obtains k l t where "dict_get f ''key'' = Some (JStr k)" "field_key f = Some k" "k \<noteq> []" "key_re k" "k \<notin> set RESERVED_KEYS"
    "dict_get f ''label'' = Some (JStr l)" "l \<noteq> []" "strip l = l" "dict_get f ''type'' = Some (JStr t)" "field_type f = Some t" "t \<in> set FIELD_TYPES"
    "stored_options f t" "dict_get f ''searchable'' = Some (JBool True) \<longrightarrow> t \<in> set SEARCHABLE_TYPES" "\<forall>flag \<in> set BOOL_FLAGS. is_flag (dict_get f flag)"
proof -
  from assms obtain k l t where s: "field_key f = Some k" "key_re k" "k \<notin> set RESERVED_KEYS" "dict_get f ''label'' = Some (JStr l)" "l \<noteq> []" "strip l = l"
    "field_type f = Some t" "stored_options f t" "dict_get f ''searchable'' = Some (JBool True) \<longrightarrow> t \<in> set SEARCHABLE_TYPES"
    "\<forall>flag \<in> set BOOL_FLAGS. is_flag (dict_get f flag)"
    by (auto simp: stored_field_def list_all_iff split: option.splits json.splits)
  moreover have "dict_get f ''key'' = Some (JStr k)" "k \<noteq> []" using s(1) by (auto simp: field_key_def split: option.splits json.splits if_splits)
  moreover have "dict_get f ''type'' = Some (JStr t)" "t \<in> set FIELD_TYPES" using s(7) by (auto simp: field_type_def split: option.splits json.splits if_splits)
  ultimately show ?thesis by (intro that)
qed

lemma stored_optionsD:
  "stored_options f t \<Longrightarrow> t \<in> set CHOICE_TYPES \<Longrightarrow> \<exists>ss. dict_get f ''options'' = Some (JList (map JStr ss)) \<and> options_of f = ss \<and> ss \<noteq> []
    \<and> (\<forall>s \<in> set ss. s \<noteq> [] \<and> strip s = s)"
proof -
  assume a: "stored_options f t" "t \<in> set CHOICE_TYPES"
  then obtain xs where x: "dict_get f ''options'' = Some (JList xs)" "xs \<noteq> []" "list_all (\<lambda>x. case x of JStr s \<Rightarrow> s \<noteq> [] \<and> strip s = s | _ \<Rightarrow> False) xs"
    by (auto simp: stored_options_def split: option.splits json.splits)
  have "\<exists>ss. xs = map JStr ss \<and> (\<forall>s \<in> set ss. s \<noteq> [] \<and> strip s = s)"
    using x(3)
  proof (induction xs)
    case (Cons x xs)
    then obtain s ss where "x = JStr s" "s \<noteq> [] \<and> strip s = s" "xs = map JStr ss" "\<forall>s \<in> set ss. s \<noteq> [] \<and> strip s = s" by (auto split: json.splits)
    then show ?case by (intro exI [of _ "s # ss"]) simp
  qed simp
  then obtain ss where "xs = map JStr ss" "\<forall>s \<in> set ss. s \<noteq> [] \<and> strip s = s" by blast
  moreover have "options_of f = ss" using x(1) calculation by (simp add: options_of_def comp_def)
  ultimately show ?thesis using x by auto
qed

lemma clean_options_stored: "\<forall>s \<in> set ss. s \<noteq> [] \<and> strip s = s \<Longrightarrow> clean_options (map JStr ss) = ss"
  by (induction ss) (auto simp: clean_options_def)

lemma stored_accepted:
  assumes "stored_field f" "\<forall>k. field_key f = Some k \<longrightarrow> dict_get prev k = dict_get f ''type''"
  shows "field_accepted prev f \<longleftrightarrow> distinct (options_of f)"
proof -
  from assms(1) obtain k l t where s: "dict_get f ''key'' = Some (JStr k)" "field_key f = Some k" "k \<noteq> []" "key_re k" "k \<notin> set RESERVED_KEYS"
    "dict_get f ''label'' = Some (JStr l)" "l \<noteq> []" "strip l = l" "dict_get f ''type'' = Some (JStr t)" "field_type f = Some t" "t \<in> set FIELD_TYPES"
    "stored_options f t" "dict_get f ''searchable'' = Some (JBool True) \<longrightarrow> t \<in> set SEARCHABLE_TYPES" "\<forall>flag \<in> set BOOL_FLAGS. is_flag (dict_get f flag)"
    by (rule stored_fieldD)
  have fl: "is_flag (dict_get f ''searchable'')" "flag_errors f = []" using s(14)
    by (auto simp: BOOL_FLAGS_def flag_errors_def is_flag_iff)
  have "hashable (get_or_null f ''type'')" "key_errors [] f = []" "label_errors f = []" "type_errors f = []"
    using s by (simp_all add: hashable_def get_or_null_def key_errors_def label_errors_def type_errors_def)
  moreover have "searchable_errors f = []" using s(10,13) fl(1) by (auto simp: searchable_errors_def get_or_null_def is_flag_iff)
  moreover have "frozen_errors prev f = []" using assms(2) s by (simp add: frozen_errors_def)
  moreover have "option_errors f = [] \<longleftrightarrow> distinct (options_of f)"
  proof (cases "t \<in> set CHOICE_TYPES")
    case True
    from stored_optionsD [OF s(12) True] obtain ss where "dict_get f ''options'' = Some (JList (map JStr ss))" "options_of f = ss" "ss \<noteq> []"
      "clean_options (map JStr ss) = ss" using clean_options_stored by blast
    then show ?thesis using s(10) True by (simp add: option_errors_def get_or_null_def)
  next
    case False
    with s(12) have "dict_get f ''options'' = None" by (simp add: stored_options_def)
    then show ?thesis using s(10) False by (simp add: option_errors_def get_or_null_def options_of_def)
  qed
  ultimately show ?thesis using fl(2) by (simp add: field_accepted_def)
qed

lemma prev_types_stored:
  assumes "list_all stored_field fs" "distinct (map field_key fs)"
  shows "\<exists>prev. prev_types (map JObj fs) acc = Inr prev \<and> (\<forall>f \<in> set fs. \<forall>k. field_key f = Some k \<longrightarrow> dict_get prev k = dict_get f ''type'')
    \<and> (\<forall>k. Some k \<notin> field_key ` set fs \<longrightarrow> dict_get prev k = dict_get acc k)"
  using assms
proof (induction fs arbitrary: acc)
  case (Cons f fs)
  from Cons.prems(1) obtain k t where s: "dict_get f ''key'' = Some (JStr k)" "field_key f = Some k" "k \<noteq> []" "dict_get f ''type'' = Some (JStr t)"
    by (auto elim: stored_fieldD)
  let ?acc = "dict_set k (JStr t) acc"
  from Cons obtain prev where p: "prev_types (map JObj fs) ?acc = Inr prev" "\<forall>f \<in> set fs. \<forall>k. field_key f = Some k \<longrightarrow> dict_get prev k = dict_get f ''type''"
    "\<forall>k. Some k \<notin> field_key ` set fs \<longrightarrow> dict_get prev k = dict_get ?acc k" by fastforce
  have "prev_types (map JObj (f # fs)) acc = Inr prev" using p(1) s by (simp add: get_or_null_def hashable_def)
  moreover have "Some k \<notin> field_key ` set fs" using Cons.prems(2) s(2) by auto
  ultimately show ?case using p s by (intro exI [of _ prev]) auto
qed simp

lemma stored_schema_validates:
  assumes "list_all stored_field fs" "distinct (map field_key fs)"
  shows "validate_type_schema (JList (map JObj fs)) (map JObj fs) = Inr [] \<longleftrightarrow> (\<forall>f \<in> set fs. distinct (options_of f))"
proof -
  from prev_types_stored [OF assms, of "[]"] obtain prev where p: "prev_types (map JObj fs) [] = Inr prev"
    "\<forall>f \<in> set fs. \<forall>k. field_key f = Some k \<longrightarrow> dict_get prev k = dict_get f ''type''" by blast
  have "inj JObj" by (simp add: inj_def)
  then have "validate_type_schema (JList (map JObj fs)) (map JObj fs) = Inr [] \<longleftrightarrow> (\<forall>f \<in> set fs. field_accepted prev f)"
    using assms(2) by (auto simp: validate_type_schema_def p(1) schema_errors_Nil inj_map_eq_map)
  also have "\<dots> \<longleftrightarrow> (\<forall>f \<in> set fs. distinct (options_of f))"
    using stored_accepted p(2) assms(1) by (auto simp: list_all_iff)
  finally show ?thesis .
qed

lemma accepted_schema:
  assumes "validate_type_schema (JList js) previous = Inr []"
  shows "\<exists>fs. normalize_type_schema js = Some fs \<and> length fs = length js \<and> list_all stored_field fs \<and> distinct (map field_key fs)"
proof -
  from assms obtain prev fs where "js = map JObj fs" "\<forall>f \<in> set fs. field_accepted prev f" "distinct (map field_key fs)"
    by (auto simp: validate_type_schema_def bind_result_eq_Inr schema_errors_Nil)
  moreover have "\<forall>f \<in> set fs. field_key (stored f) = field_key f" using calculation(2) normalize_accepted by blast
  then have "map field_key (map stored fs) = map field_key fs" by simp
  ultimately have "normalize_type_schema js = Some (map stored fs)" "list_all stored_field (map stored fs)" "distinct (map field_key (map stored fs))"
    "length (map stored fs) = length js"
    using normalize_schema_accepted [of fs prev] normalize_accepted by (simp_all only: list_all_iff) auto
  then show ?thesis by blast
qed


definition sample_schema :: "json list" where
  "sample_schema =
    [JObj [(''key'', JStr ''beds''), (''label'', JStr '' Beds''), (''type'', JStr ''integer''), (''required'', JBool True)],
     JObj [(''key'', JStr ''view''), (''label'', JStr ''View''), (''type'', JStr ''select''), (''options'', JList [JStr ''sea'', JStr ''sea ''])]]"


subsection \<open>The type of a custom field\<close>

definition value_typed :: "validators \<Rightarrow> dict \<Rightarrow> json \<Rightarrow> bool" where
  "value_typed v f x =
     (case field_type f of
        None \<Rightarrow> False
      | Some t \<Rightarrow>
          (if t = ''integer'' then (case x of JInt _ \<Rightarrow> True | _ \<Rightarrow> False)
           else if t = ''boolean'' then (case x of JBool _ \<Rightarrow> True | _ \<Rightarrow> False)
           else if t = ''multi_select'' then (\<exists>ss. x = JList (map JStr ss) \<and> set ss \<subseteq> set (options_of f))
           else (\<exists>s. x = JStr s \<and> s \<noteq> [] \<and> strip s = s
                  \<and> (t = ''decimal'' \<longrightarrow> (\<exists>d. parse_decimal s = Some d \<and> decimal_text d = s))
                  \<and> (t = ''date'' \<longrightarrow> (\<exists>y m d. valid_date y m d \<and> s = date_text (y, m, d)))
                  \<and> (t = ''url'' \<longrightarrow> url_valid v s)
                  \<and> (t = ''email'' \<longrightarrow> email_valid v s \<and> lower_text s = s)
                  \<and> (t = ''select'' \<longrightarrow> s \<in> set (options_of f)))))"

lemma strip_Nil: "strip s = [] \<longleftrightarrow> list_all is_space s"
proof -
  have "strip s = [] \<longleftrightarrow> dropWhile is_space (rev (dropWhile is_space s)) = []" by (simp add: strip_def)
  also have "\<dots> \<longleftrightarrow> (\<forall>c \<in> set s. is_space c)" by (simp add: dropWhile_eq_Nil_conv) (metis dropWhile_eq_Nil_conv hd_dropWhile hd_in_set set_dropWhileD)
  finally show ?thesis by (simp add: list_all_iff)
qed

lemma float_text_point: "CHR ''.'' \<in> set (float_text n) \<or> CHR ''e'' \<in> set (float_text n)"
  by (auto simp: float_text_def positive_float_text_def Let_def)

lemma py_str_nonempty:
  assumes "\<not> blank raw"
  shows "strip (py_str raw) \<noteq> []"
proof -
  have ns: "\<not> list_all is_space s" if "c \<in> set s" "\<not> is_space c" for s c using that by (auto simp: list_all_iff)
  have dig: "\<not> list_all is_space (int_text n)" for n
  proof -
    have "\<exists>m. set (nat_text m) \<subseteq> set (int_text n)" by (auto simp: int_text_def)
    then obtain m where m: "set (nat_text m) \<subseteq> set (int_text n)" ..
    with nat_text_digits [of m] show ?thesis by (intro ns [of "hd (nat_text m)"]) (auto simp: all_digits_def list_all_iff)
  qed
  show ?thesis
  proof (cases raw)
    case (JDec n)
    then show ?thesis using float_text_point [of n] ns [of "CHR ''.''" "float_text n"] ns [of "CHR ''e''" "float_text n"]
      by (auto simp: py_str_def strip_Nil is_space_def)
  qed (use assms dig in \<open>auto simp: py_str_def strip_Nil blank_def is_space_def\<close>)
qed

lemma lower_space: "is_space (hd (lower_text [c])) = is_space c"
  by (auto simp: lower_text_def is_space_def Let_def)

lemma strip_map: "(\<And>c. is_space (g c) = is_space c) \<Longrightarrow> strip (map g s) = map g (strip s)"
  by (simp add: strip_def dropWhile_map comp_def rev_map)

lemma strip_lower: "strip (lower_text s) = lower_text (strip s)"
  unfolding lower_text_def by (rule strip_map) (use lower_space in \<open>simp add: lower_text_def\<close>)

lemma lower_text_Nil [simp]: "lower_text s = [] \<longleftrightarrow> s = []"
  by (simp add: lower_text_def)

lemma lower_idem: "lower_text (lower_text s) = lower_text s"
  by (auto simp: lower_text_def Let_def)

lemma decimal_text_nonempty: "stored_decimal d \<Longrightarrow> decimal_text d \<noteq> []"
  by (cases d) (auto simp: stored_decimal_def finite_text_shape)

lemma date_text_nonempty: "date_text d \<noteq> []"
  by (cases d) (simp add: date_text_def)

lemma field_type_get: "field_type f = Some t \<Longrightarrow> get_or_null f ''type'' = JStr t \<and> t \<in> set FIELD_TYPES"
  by (auto simp: field_type_def get_or_null_def split: option.splits json.splits if_splits)

lemma field_types: "t \<in> set FIELD_TYPES \<longleftrightarrow> t = ''text'' \<or> t = ''long_text'' \<or> t = ''integer'' \<or> t = ''decimal'' \<or> t = ''boolean'' \<or> t = ''date''
    \<or> t = ''url'' \<or> t = ''email'' \<or> t = ''select'' \<or> t = ''multi_select''"
  unfolding FIELD_TYPES_def list.set insert_iff empty_iff by (rule refl | simp only: simp_thms)

lemma coerce_decimal: "parse_decimal s = Some d \<Longrightarrow> parse_decimal (decimal_text d) \<noteq> None \<and> (\<forall>d'. parse_decimal (decimal_text d) = Some d' \<longrightarrow> decimal_text d' = decimal_text d)
    \<and> decimal_text d \<noteq> [] \<and> strip (decimal_text d) = decimal_text d"
  using parse_decimal_stored parse_decimal_text [of d] decimal_text_nonempty decimal_text_solid by fastforce

text \<open>A coerced value has the type of its field.\<close>

lemma coerce_typed:
  assumes "stored_field f" "\<not> blank raw" "coerce v f raw = Inr x"
  shows "value_typed v f x"
proof -
  from assms(1) obtain t where t: "field_type f = Some t" by (auto elim: stored_fieldD)
  note ty = field_type_get [OF t]
  have ne: "strip (py_str raw) \<noteq> []" by (rule py_str_nonempty [OF assms(2)])
  from ty have "t = ''decimal'' \<or> t = ''date'' \<or> t = ''multi_select'' \<or> t = ''text'' \<or> t = ''long_text'' \<or> t = ''integer'' \<or> t = ''boolean'' \<or> t = ''url'' \<or> t = ''email'' \<or> t = ''select''" unfolding field_types by (elim conjE disjE) simp_all
  then show ?thesis
  proof (elim disjE)
    assume "t = ''decimal''"
    with assms(3) obtain d where d: "parse_decimal (strip (py_str raw)) = Some d" "x = JStr (decimal_text d)"
      using ty by (auto simp: coerce_def py_str_def split: option.splits)
    from coerce_decimal [OF d(1)] d(2) \<open>t = _\<close> show ?thesis by (auto simp: value_typed_def t)
  next
    assume "t = ''date''"
    with assms(3) obtain y m d where d: "parse_date (strip (py_str raw)) = Some (y, m, d)" "x = JStr (date_text (y, m, d))"
      using ty by (auto simp: coerce_def py_str_def split: option.splits)
    from parse_date_valid [OF d(1)] parse_date_text d(2) \<open>t = _\<close> date_text_nonempty show ?thesis by (auto simp: value_typed_def t)
  next
    assume "t = ''multi_select''"
    with assms(3) have "\<exists>ss. x = JList (map JStr ss) \<and> set ss \<subseteq> set (options_of f)"
      using ty by (cases raw) (auto simp: coerce_def py_str_def [of "JStr _"] Let_def filter_empty_conv
        intro!: exI [of _ "map (\<lambda>x. strip (py_str x)) _"] split: if_splits)
    with \<open>t = _\<close> show ?thesis by (simp add: value_typed_def t)
  qed (use assms(3) ne ty in \<open>auto simp: coerce_def py_str_def [of "JStr _"] Let_def value_typed_def t strip_lower lower_idem split: option.splits if_splits\<close>)
qed

text \<open>And coercing it again changes nothing.\<close>

lemma coerce_fixed:
  assumes "stored_field f" "value_typed v f x"
  shows "coerce v f x = Inr x \<and> \<not> blank x"
proof -
  from assms(1) obtain t where t: "field_type f = Some t" "stored_options f t" by (auto elim: stored_fieldD)
  note ty = field_type_get [OF t(1)]
  from ty have "t = ''integer'' \<or> t = ''boolean'' \<or> t = ''multi_select'' \<or> t = ''date'' \<or> t = ''text'' \<or> t = ''long_text'' \<or> t = ''decimal'' \<or> t = ''url'' \<or> t = ''email'' \<or> t = ''select''" unfolding field_types by (elim conjE disjE) simp_all
  then show ?thesis
  proof (elim disjE)
    assume "t = ''integer''"
    with assms(2) t ty show ?thesis by (auto simp: value_typed_def coerce_def py_str_def [of "JStr _"] blank_def split: json.splits)
  next
    assume "t = ''boolean''"
    with assms(2) t ty show ?thesis by (auto simp: value_typed_def coerce_def py_str_def [of "JStr _"] blank_def py_eq.simps split: json.splits)
  next
    assume ms: "t = ''multi_select''"
    with assms(2) t obtain ss where ss: "x = JList (map JStr ss)" "set ss \<subseteq> set (options_of f)" by (auto simp: value_typed_def)
    have "strip s = s" if "s \<in> set ss" for s using stored_optionsD [OF t(2)] ms that ss(2) by (auto simp: CHOICE_TYPES_def)
    then have "map (\<lambda>x. strip (py_str x)) (map JStr ss) = ss" by (simp add: py_str_def map_idI)
    with ss ms ty show ?thesis by (auto simp: coerce_def py_str_def [of "JStr _"] blank_def Let_def filter_empty_conv)
  next
    assume dt: "t = ''date''"
    with assms(2) t obtain y m d where "valid_date y m d" "x = JStr (date_text (y, m, d))" by (auto simp: value_typed_def)
    with parse_date_text [of y m d] dt ty date_text_nonempty show ?thesis by (simp add: coerce_def py_str_def blank_def)
  qed (use assms(2) t ty in \<open>auto simp: value_typed_def coerce_def py_str_def blank_def\<close>)
qed

subsection \<open>A document of custom fields\<close>

definition key_of :: "dict \<Rightarrow> string" where
  "key_of f = the (field_key f)"

lemma distinct_key_of:
  assumes "list_all stored_field fs" "distinct (map field_key fs)"
  shows "distinct (map key_of fs)"
proof -
  have "\<forall>f \<in> set fs. field_key f = Some (key_of f)" using assms(1) by (auto simp: list_all_iff key_of_def elim!: stored_fieldD)
  then have "map field_key fs = map Some (map key_of fs)" by simp
  with assms(2) show ?thesis by (simp only: distinct_map)
qed

lemma schema_of_distinct:
  assumes "list_all stored_field fs" "distinct (map key_of fs)"
  shows "schema_of fs = map (\<lambda>f. (key_of f, f)) fs"
proof -
  have k: "\<forall>f \<in> set fs. py_str (get_or_null f ''key'') = key_of f"
    using assms(1) by (auto simp: list_all_iff get_or_null_def py_str_def key_of_def elim!: stored_fieldD)
  have new: "schema_set k f s = s @ [(k, f)]" if "k \<notin> fst ` set s" for k f s
    using that by (induction k f s rule: schema_set.induct) auto
  have "fold (\<lambda>f. schema_set (py_str (get_or_null f ''key'')) f) fs s = s @ map (\<lambda>f. (key_of f, f)) fs"
    if "\<forall>f \<in> set fs. py_str (get_or_null f ''key'') = key_of f" "distinct (map key_of fs)" "\<forall>f \<in> set fs. key_of f \<notin> fst ` set s" for s
    using that
  proof (induction fs arbitrary: s)
    case (Cons f fs)
    then have "\<forall>g \<in> set fs. key_of g \<notin> fst ` set (s @ [(key_of f, f)])" by (auto simp: image_iff)
    from Cons.IH [OF _ _ this] Cons.prems show ?case by (simp add: new)
  qed simp
  then show ?thesis using k assms(2) by (simp add: schema_of_def)
qed

lemma dict_get_append: "dict_get (xs @ ys) k = (case dict_get xs k of None \<Rightarrow> dict_get ys k | Some x \<Rightarrow> Some x)"
  by (simp add: dict_get_def map_add_def split: option.splits)

lemma dict_get_Nil [simp]: "dict_get [] k = None"
  by (simp add: dict_get_def)

lemma dict_get_concat:
  assumes "\<And>f. g f = [] \<or> (\<exists>x. g f = [(key f, x)])"
  shows "k \<notin> key ` set fs \<Longrightarrow> dict_get (concat (map g fs)) k = None"
    and "distinct (map key fs) \<Longrightarrow> f \<in> set fs \<Longrightarrow> dict_get (concat (map g fs)) (key f) = dict_get (g f) (key f)"
proof -
  have 1: "dict_get (concat (map g fs)) k = None" if "k \<notin> key ` set fs" for fs k
    using that
  proof (induction fs)
    case (Cons f fs)
    with assms [of f] show ?case by (auto simp: dict_get_append dict_get_Cons)
  qed simp
  show "k \<notin> key ` set fs \<Longrightarrow> dict_get (concat (map g fs)) k = None" by (rule 1)
  show "distinct (map key fs) \<Longrightarrow> f \<in> set fs \<Longrightarrow> dict_get (concat (map g fs)) (key f) = dict_get (g f) (key f)"
  proof (induction fs)
    case (Cons h fs)
    show ?case
    proof (cases "h = f")
      case True
      then have "key f \<notin> key ` set fs" using Cons.prems(1) by simp
      from 1 [OF this] show ?thesis by (simp add: dict_get_append True split: option.splits)
    next
      case False
      then have "f \<in> set fs" "key h \<noteq> key f" using Cons.prems by auto
      with Cons assms [of h] show ?thesis by (auto simp: dict_get_append dict_get_Cons)
    qed
  qed simp
qed

text \<open>The member of the result for one field.\<close>

definition member_ok :: "validators \<Rightarrow> bool \<Rightarrow> dict \<Rightarrow> json \<Rightarrow> bool" where
  "member_ok v enforce_required f x \<longleftrightarrow> (x = JNull \<and> \<not> (truthy (get_or_null f ''required'') \<and> enforce_required)) \<or> value_typed v f x"

lemma check_field_ok:
  assumes "stored_field f" "fst (check_field v creating enforce values (k, f)) = []"
  shows "(case dict_get values k of
      None \<Rightarrow> snd (check_field v creating enforce values (k, f)) = [] \<and> \<not> (creating \<and> truthy (get_or_null f ''required'') \<and> enforce)
    | Some raw \<Rightarrow> \<exists>x. snd (check_field v creating enforce values (k, f)) = [(k, x)] \<and> member_ok v enforce f x)"
proof (cases "dict_get values k")
  case None
  with assms(2) show ?thesis by (auto simp: check_field_def Let_def split: if_splits)
next
  case (Some raw)
  show ?thesis
  proof (cases "blank raw")
    case True
    with Some assms(2) show ?thesis by (auto simp: check_field_def Let_def member_ok_def split: if_splits)
  next
    case False
    with Some assms(2) obtain x where "coerce v f raw = Inr x" by (cases "coerce v f raw") (auto simp: check_field_def Let_def)
    with coerce_typed [OF assms(1) False] Some False show ?thesis by (auto simp: check_field_def Let_def member_ok_def)
  qed
qed

lemma check_field_again:
  assumes "stored_field f" "dict_get values k = Some x" "member_ok v enforce f x"
  shows "check_field v creating enforce values (k, f) = ([], [(k, x)])"
proof (cases "x = JNull")
  case True
  have "\<not> value_typed v f JNull" using coerce_fixed [OF assms(1), of v JNull] by (auto simp: blank_def)
  with True assms show ?thesis by (auto simp: check_field_def Let_def blank_def member_ok_def)
next
  case False
  with assms coerce_fixed [OF assms(1), of v x] show ?thesis by (auto simp: check_field_def Let_def member_ok_def)
qed

lemma check_field_snd: "snd (check_field v creating enforce values (k, f)) = [] \<or> (\<exists>x. snd (check_field v creating enforce values (k, f)) = [(k, x)])"
  by (auto simp: check_field_def Let_def split: option.splits sum.splits)

lemma validate_custom_fields_Inr:
  assumes "list_all stored_field fs" "distinct (map key_of fs)"
  shows "validate_custom_fields v fs values creating enforce = Inr cleaned \<longleftrightarrow>
    set (dict_keys values) \<subseteq> key_of ` set fs \<and> (\<forall>f \<in> set fs. fst (check_field v creating enforce values (key_of f, f)) = [])
    \<and> cleaned = concat (map (\<lambda>f. snd (check_field v creating enforce values (key_of f, f))) fs)"
  unfolding validate_custom_fields_def Let_def schema_of_distinct [OF assms]
  by (auto simp: comp_def split: if_splits)

lemma validate_custom_fields_members:
  assumes "list_all stored_field fs" "distinct (map key_of fs)" "validate_custom_fields v fs values creating enforce = Inr cleaned" "f \<in> set fs"
  shows "case dict_get values (key_of f) of
        None \<Rightarrow> dict_get cleaned (key_of f) = None \<and> \<not> (creating \<and> truthy (get_or_null f ''required'') \<and> enforce)
      | Some raw \<Rightarrow> \<exists>x. dict_get cleaned (key_of f) = Some x \<and> member_ok v enforce f x"
proof -
  let ?g = "\<lambda>f. snd (check_field v creating enforce values (key_of f, f))"
  from assms(3) [unfolded validate_custom_fields_Inr [OF assms(1,2)]] have e: "fst (check_field v creating enforce values (key_of f, f)) = []"
    and c: "cleaned = concat (map ?g fs)" using assms(4) by auto
  have g: "dict_get cleaned (key_of f) = dict_get (?g f) (key_of f)" unfolding c by (rule dict_get_concat(2) [OF check_field_snd assms(2,4)])
  have "stored_field f" using assms(1,4) by (simp add: list_all_iff)
  from check_field_ok [OF this e] show ?thesis unfolding g by (auto simp: dict_get_Cons split: option.splits)
qed

lemma cleaned_keys:
  assumes "list_all stored_field fs" "distinct (map key_of fs)" "validate_custom_fields v fs values creating enforce = Inr cleaned"
  shows "dict_get cleaned k = None \<longleftrightarrow> dict_get values k = None"
proof (cases "k \<in> key_of ` set fs")
  case True
  then obtain f where "f \<in> set fs" "k = key_of f" by blast
  with validate_custom_fields_members [OF assms, of f] show ?thesis by (auto split: option.splits)
next
  case False
  note c = assms(3) [unfolded validate_custom_fields_Inr [OF assms(1,2)]]
  have "dict_get cleaned k = None" unfolding conjunct2 [OF conjunct2 [OF c]]
    by (rule dict_get_concat(1) [OF check_field_snd False])
  moreover have "dict_get values k = None" using c False dict_get_key [of k "values"] by auto
  ultimately show ?thesis by simp
qed

text \<open>C36: Custom fields that are accepted are well typed. Against a well-formed schema, \<^verbatim>\<open>validate_custom_fields\<close> keeps exactly the keys it was
  given, all of them fields of the type; each value is null, which a required field is not when required fields are enforced, or has
  the type of its field: trimmed non-empty text, a whole number, the canonical text of a decimal, a boolean, a calendar date, a URL
  or lower-case address the validator accepts, or choices among the options. On a create no required field is missing.\<close>

theorem custom_fields_well_typed:
  assumes "list_all stored_field fs" "distinct (map field_key fs)" "validate_custom_fields v fs values creating enforce = Inr cleaned"
  shows "(\<forall>k. dict_get cleaned k = None \<longleftrightarrow> dict_get values k = None) \<and> set (dict_keys values) \<subseteq> key_of ` set fs
    \<and> (\<forall>f \<in> set fs. \<forall>x. dict_get cleaned (key_of f) = Some x \<longrightarrow> member_ok v enforce f x)
    \<and> (creating \<and> enforce \<longrightarrow> (\<forall>f \<in> set fs. truthy (get_or_null f ''required'') \<longrightarrow> dict_get cleaned (key_of f) \<noteq> None))"
proof -
  have d: "distinct (map key_of fs)" by (rule distinct_key_of [OF assms(1,2)])
  note k = cleaned_keys [OF assms(1) d assms(3)] and m = validate_custom_fields_members [OF assms(1) d assms(3)]
  have "member_ok v enforce f x" if "f \<in> set fs" "dict_get cleaned (key_of f) = Some x" for f x
    using m [OF that(1)] that(2) by (auto split: option.splits)
  moreover have "dict_get cleaned (key_of f) \<noteq> None" if "f \<in> set fs" "creating \<and> enforce" "truthy (get_or_null f ''required'')" for f
    using m [OF that(1)] that(2,3) k by (auto split: option.splits)
  ultimately show ?thesis using k assms(3) [unfolded validate_custom_fields_Inr [OF assms(1) d]] by blast
qed

text \<open>C37: Coercion is stable. What \<^verbatim>\<open>validate_custom_fields\<close> returns, it returns unchanged when it is given it again, on an update or on the
  create it came from: text is trimmed once, numbers, decimals and dates are written in a form that reads back as itself. So importing
  the values a listing already has produces no patch.\<close>

theorem custom_fields_stable:
  assumes "list_all stored_field fs" "distinct (map field_key fs)" "validate_custom_fields v fs values creating enforce = Inr cleaned"
  shows "validate_custom_fields v fs cleaned creating enforce = Inr cleaned \<and> validate_custom_fields v fs cleaned False enforce = Inr cleaned"
proof -
  have d: "distinct (map key_of fs)" by (rule distinct_key_of [OF assms(1,2)])
  note i = validate_custom_fields_Inr [OF assms(1) d] and k = cleaned_keys [OF assms(1) d assms(3)]
  have sub: "set (dict_keys cleaned) \<subseteq> key_of ` set fs"
    using assms(3) [unfolded i] k dict_get_key [of _ cleaned] dict_get_key [of _ "values"] by auto
  have c: "cleaned = concat (map (\<lambda>f. snd (check_field v creating enforce values (key_of f, f))) fs)" using assms(3) [unfolded i] by blast
  have same: "check_field v create enforce cleaned (key_of f, f) = ([], snd (check_field v creating enforce values (key_of f, f)))"
    if f: "f \<in> set fs" and cr: "create \<longrightarrow> creating" for f create
  proof (cases "dict_get values (key_of f)")
    case None
    with validate_custom_fields_members [OF assms(1) d assms(3) f] cr show ?thesis by (auto simp: check_field_def Let_def)
  next
    case (Some raw)
    have sf: "stored_field f" using assms(1) f by (simp add: list_all_iff)
    from Some validate_custom_fields_members [OF assms(1) d assms(3) f] obtain x where x: "dict_get cleaned (key_of f) = Some x" "member_ok v enforce f x" by auto
    have "dict_get (snd (check_field v creating enforce values (key_of f, f))) (key_of f) = Some x"
      using x(1) dict_get_concat(2) [OF check_field_snd d f] unfolding c by simp
    then have "snd (check_field v creating enforce values (key_of f, f)) = [(key_of f, x)]"
      using check_field_snd [of v creating enforce "values" "key_of f" f] by (auto simp: dict_get_Cons)
    with check_field_again [OF sf x] show ?thesis by simp
  qed
  have "validate_custom_fields v fs cleaned create enforce = Inr cleaned" if "create \<longrightarrow> creating" for create
    unfolding i using sub same [OF _ that] c by (auto intro!: arg_cong [where f = concat])
  then show ?thesis by simp
qed

definition sample_fields :: "dict list" where
  "sample_fields =
    [[(''key'', JStr ''beds''), (''label'', JStr ''Beds''), (''type'', JStr ''integer''), (''required'', JBool True), (''public'', JBool True), (''searchable'', JBool False)],
     [(''key'', JStr ''area''), (''label'', JStr ''Area''), (''type'', JStr ''decimal''), (''required'', JBool False), (''public'', JBool True), (''searchable'', JBool False)],
     [(''key'', JStr ''view''), (''label'', JStr ''View''), (''type'', JStr ''select''), (''required'', JBool False), (''public'', JBool True), (''searchable'', JBool True),
      (''options'', JList [JStr ''sea'', JStr ''hills''])]]"

definition sample_values :: dict where
  "sample_values = [(''beds'', JStr '' 3''), (''area'', JStr ''75.50''), (''view'', JStr '' sea '')]"

definition sample_cleaned :: dict where
  "sample_cleaned = [(''beds'', JInt 3), (''area'', JStr ''75.50''), (''view'', JStr ''sea'')]"

definition no_validators :: validators where
  "no_validators = \<lparr>url_valid = (\<lambda>s. s \<noteq> []), email_valid = (\<lambda>s. CHR ''@'' \<in> set s)\<rparr>"

lemma sample_fields_ok: "list_all stored_field sample_fields" "distinct (map field_key sample_fields)"
  unfolding sample_fields_def by code_simp+

lemma sample_custom: "validate_custom_fields no_validators sample_fields sample_values True True = Inr sample_cleaned"
  unfolding sample_fields_def sample_values_def sample_cleaned_def no_validators_def by code_simp

theorem custom_fields_well_typed_witness:
  "validate_custom_fields no_validators sample_fields sample_values True True = Inr sample_cleaned
    \<and> member_ok no_validators True (hd sample_fields) (JInt 3) \<and> dict_get sample_cleaned ''beds'' \<noteq> None \<and> dict_get sample_cleaned ''baths'' = None"
proof -
  have f: "hd sample_fields \<in> set sample_fields" "key_of (hd sample_fields) = ''beds''" "truthy (get_or_null (hd sample_fields) ''required'')"
    by (simp_all add: sample_fields_def key_of_def field_key_def get_or_null_def dict_get_def)
  have g: "dict_get sample_cleaned ''beds'' = Some (JInt 3)" "dict_get sample_values ''baths'' = None"
    by (simp_all add: sample_cleaned_def sample_values_def dict_get_def)
  note ok = custom_fields_well_typed [OF sample_fields_ok sample_custom]
  have "member_ok no_validators True (hd sample_fields) (JInt 3)" using ok f g(1) by metis
  moreover have "dict_get sample_cleaned ''beds'' \<noteq> None" using ok f by metis
  moreover have "dict_get sample_cleaned ''baths'' = None" using ok g(2) by metis
  ultimately show ?thesis using sample_custom by blast
qed

theorem custom_fields_stable_witness:
  "validate_custom_fields no_validators sample_fields sample_cleaned True True = Inr sample_cleaned
    \<and> validate_custom_fields no_validators sample_fields sample_cleaned False True = Inr sample_cleaned"
  by (rule custom_fields_stable [OF sample_fields_ok sample_custom])

end
