(* ===== verification/Owner_Auth.thy ===== *)
theory Owner_Auth
  imports Claims Tick
begin

section \<open>Owner sign-in\<close>

text \<open>
  \<^verbatim>\<open>directory/owner_auth.py\<close>, its limits (\<^verbatim>\<open>directory/owner_limits.py\<close>), its tables (\<^verbatim>\<open>OwnerSignInToken\<close> and \<^verbatim>\<open>OwnerSession\<close> of
  \<^verbatim>\<open>directory/models.py\<close>) and the tick job that prunes them (\<open>owner_auth_prune\<close> of \<^verbatim>\<open>directory/jobs.py\<close>): the emailed link, the session
  it opens and the guard that reads it. SHA-256 and the random secrets are parameters (\<open>ow_digest\<close>, and \<open>ow_secret n\<close> for the
  \<open>n\<close>-th draw); the commands take the instant \<open>now\<close> as the code does.
\<close>

subsection \<open>Rows\<close>

record signin_token =
  tk_pk :: nat
  tk_tenant :: nat
  tk_user :: nat
  tk_hash :: string
  tk_created_at :: instant
  tk_expires_at :: instant
  tk_used_at :: "instant option"
  tk_message :: "nat option"

record owner_session =
  se_pk :: nat
  se_tenant :: nat
  se_user :: nat
  se_hash :: string
  se_created_at :: instant
  se_last_seen_at :: instant
  se_expires_at :: instant

record owner_db = directory_db +
  tokens :: "signin_token list"
  sessions :: "owner_session list"

record owner_world = world +
  ow_digest :: "string \<Rightarrow> string"
  ow_secret :: "nat \<Rightarrow> string"

datatype owner_error =
    SignInRefused string
  | SignInLimited verdict
  | OwnerIntegrity
  | OwnerAudit audit_error

subsection \<open>Constants\<close>

definition SIGNIN_TTL :: duration where
  "SIGNIN_TTL = hours 12"

definition SESSION_IDLE :: duration where
  "SESSION_IDLE = hours 12"

definition SESSION_ABSOLUTE :: duration where
  "SESSION_ABSOLUTE = days 30"

definition TOUCH_INTERVAL :: duration where
  "TOUCH_INTERVAL = seconds 60"

definition MAX_LINKS_PER_HOUR :: nat where
  "MAX_LINKS_PER_HOUR = 3"

definition MIN_SECONDS_BETWEEN_LINKS :: int where
  "MIN_SECONDS_BETWEEN_LINKS = 60"

definition MAIL_KIND :: string where
  "MAIL_KIND = ''owner.signin_link''"

definition REQUEST_IP :: "limit_rule list" where
  "REQUEST_IP = [\<lparr>lr_name = ''owner.signin.ip.15m'', lr_limit = 10, lr_window = minutes 15\<rparr>,
     \<lparr>lr_name = ''owner.signin.ip.24h'', lr_limit = 40, lr_window = hours 24\<rparr>]"

definition check_request :: "'w owner_world_scheme \<Rightarrow> tenant \<Rightarrow> string option \<Rightarrow> instant \<Rightarrow> 'z core_db_scheme \<Rightarrow> audit_error + verdict \<times> 'z core_db_scheme" where
  "check_request w tn ip = check (w_hmac w) (w_bucket w) tn [(''ip'', ip, REQUEST_IP)]"

subsection \<open>Asking for a link\<close>

definition sign_in_available :: "'w owner_world_scheme \<Rightarrow> tenant \<Rightarrow> bool" where
  "sign_in_available w tn \<longleftrightarrow> w_mail w tn \<and> has_absolute_base tn"

definition owns_a_listing :: "tenant \<Rightarrow> nat \<Rightarrow> 'z directory_db_scheme \<Rightarrow> bool" where
  "owns_a_listing tn user db = list_ex (\<lambda>l. ls_tenant l = tn_pk tn \<and> ls_owner l = Some user) (listings db)"

definition tokens_of :: "tenant \<Rightarrow> nat \<Rightarrow> 'z owner_db_scheme \<Rightarrow> signin_token list" where
  "tokens_of tn user db = filter (\<lambda>t. tk_tenant t = tn_pk tn \<and> tk_user t = user) (tokens db)"

definition throttled :: "tenant \<Rightarrow> nat \<Rightarrow> instant \<Rightarrow> 'z owner_db_scheme \<Rightarrow> string option" where
  "throttled tn user now db =
     (let recent = tokens_of tn user db in
      if recent \<noteq> [] \<and> now - Max (set (map tk_created_at recent)) < seconds MIN_SECONDS_BETWEEN_LINKS then Some ''too_soon''
      else if MAX_LINKS_PER_HOUR \<le> length (filter (\<lambda>t. now - hours 1 < tk_created_at t) recent) then Some ''hourly_cap''
      else None)"

definition live_token :: "instant \<Rightarrow> signin_token \<Rightarrow> bool" where
  "live_token now t \<longleftrightarrow> tk_used_at t = None \<and> now < tk_expires_at t"

text \<open>A new link supersedes every earlier unused one, and its mail if that has not gone out.\<close>

definition expire_earlier :: "tenant \<Rightarrow> nat \<Rightarrow> instant \<Rightarrow> 'z owner_db_scheme \<Rightarrow> 'z owner_db_scheme" where
  "expire_earlier tn user now db =
     (let old = (\<lambda>t. tk_tenant t = tn_pk tn \<and> tk_user t = user \<and> live_token now t);
          msgs = List.map_filter tk_message (filter old (tokens db)) in
      db\<lparr>tokens := update_where old (\<lambda>t. t\<lparr>tk_expires_at := now\<rparr>) (tokens db),
         mail := update_where (\<lambda>m. ms_pk m \<in> set msgs \<and> ms_status m = MsPending) (\<lambda>m. m\<lparr>ms_expires_at := now\<rparr>) (mail db)\<rparr>)"

definition link_text :: "tenant \<Rightarrow> string \<Rightarrow> instant \<Rightarrow> string" where
  "link_text tn secret expires =
     ''Use this link to sign in and manage your listing on '' @ tn_name tn @ '':'' @ nl @ nl
     @ absolute_url tn (''/owner/signin/'' @ secret @ ''/'') @ nl @ nl
     @ ''It works once and expires at '' @ fmt_minute expires @ '' UTC. If you did not ask for it, ignore this email: nobody can sign in without the link.''"

definition create_token :: "tenant \<Rightarrow> nat \<Rightarrow> string \<Rightarrow> instant \<Rightarrow> nat \<Rightarrow> 'z owner_db_scheme \<Rightarrow> owner_error + unit \<times> 'z owner_db_scheme" where
  "create_token tn user digest expires msg db =
     (if digest \<in> tk_hash ` set (tokens db) then Inl OwnerIntegrity
      else Inr ((), db\<lparr>tokens := tokens db @ [\<lparr>tk_pk = Suc (seq db), tk_tenant = tn_pk tn, tk_user = user, tk_hash = digest, tk_created_at = wall db,
             tk_expires_at = expires, tk_used_at = None, tk_message = Some msg\<rparr>], seq := Suc (seq db)\<rparr>))"

definition send_link :: "'w owner_world_scheme \<Rightarrow> tenant \<Rightarrow> user \<Rightarrow> instant \<Rightarrow> 'z owner_db_scheme \<Rightarrow> owner_error + (string \<times> string) \<times> 'z owner_db_scheme" where
  "send_link w tn u now db =
     (let db1 = expire_earlier tn (usr_pk u) now db; secret = ow_secret w (draws db1); db2 = db1\<lparr>draws := Suc (draws db1)\<rparr>; expires = now + SIGNIN_TTL in
      case enqueue (tn_pk tn) MAIL_KIND (usr_email u) (''Your sign-in link for '' @ tn_name tn) (link_text tn secret expires) expires db2 of
        Inl e \<Rightarrow> Inl (OwnerAudit e)
      | Inr (m, db3) \<Rightarrow> then_do (create_token tn (usr_pk u) (ow_digest w secret) expires (ms_pk m)) (\<lambda>v d. Inr ((''sent'', []), d)) db3)"

definition apply_request :: "'w owner_world_scheme \<Rightarrow> tenant \<Rightarrow> string \<Rightarrow> instant \<Rightarrow> 'z owner_db_scheme \<Rightarrow> owner_error + (string \<times> string) \<times> 'z owner_db_scheme" where
  "apply_request w tn address now = atomic (\<lambda>db.
     if \<not> sign_in_available w tn then Inr ((''unavailable'', ''unavailable''), db)
     else (case (if address = [] then None else find (\<lambda>u. usr_tenant u = tn_pk tn \<and> usr_email u = address) (users db)) of
             None \<Rightarrow> Inr ((''ignored'', ''not_an_owner''), db)
           | Some u \<Rightarrow>
               if \<not> owns_a_listing tn (usr_pk u) db then Inr ((''ignored'', ''not_an_owner''), db)
               else (case throttled tn (usr_pk u) now db of
                       Some why \<Rightarrow> Inr ((''ignored'', why), db)
                     | None \<Rightarrow> send_link w tn u now db)))"

definition anonymous :: dict where
  "anonymous = [(''type'', JStr ''visitor''), (''id'', JStr [])]"

definition request_sign_in :: "'w owner_world_scheme \<Rightarrow> tenant \<Rightarrow> string \<Rightarrow> string option \<Rightarrow> instant \<Rightarrow> 'z owner_db_scheme
    \<Rightarrow> (owner_error + string) \<times> 'z owner_db_scheme" where
  "request_sign_in w tn mail_address ip now db =
     (case require_autocommit db of
        Inl e \<Rightarrow> (Inl (OwnerAudit e), db)
      | Inr u \<Rightarrow>
          let address = lower (strip mail_address) in
          (case check_request w tn ip now db of
             Inl e \<Rightarrow> (Inl (OwnerAudit e), db)
           | Inr (v, db1) \<Rightarrow>
               if \<not> allowed v then
                 (Inl (SignInLimited v),
                  if first_block v then
                    (let (row, db2) = log_received ''owner.request_signin'' (Some (tn_pk tn)) None anonymous [] [] (Some (JObj [])) db1
                     in log_conclude row ''blocked'' [] (Some (JObj [(''rate_limited'', jopt JStr (v_rule v))])) None db2)
                  else db1)
               else
                 (let (row, db2) = log_received ''owner.request_signin'' (Some (tn_pk tn)) None anonymous [] [] (Some (JObj [])) db1 in
                  case apply_request w tn address now db2 of
                    Inl e \<Rightarrow> (Inl e, db2)
                  | Inr ((outcome, reason), db3) \<Rightarrow>
                      (Inr outcome,
                       if outcome = ''sent'' then log_conclude row ''applied'' [] None None db3
                       else log_conclude row ''rejected'' [] (Some (JObj [(''reason'', JStr reason)])) None db3))))"

subsection \<open>Exchanging the link for a session\<close>

definition peek_token :: "'w owner_world_scheme \<Rightarrow> tenant \<Rightarrow> string \<Rightarrow> instant \<Rightarrow> 'z owner_db_scheme \<Rightarrow> signin_token option" where
  "peek_token w tn secret now db =
     (case find (\<lambda>t. tk_tenant t = tn_pk tn \<and> tk_hash t = ow_digest w secret \<and> live_token now t) (tokens db) of
        None \<Rightarrow> None
      | Some t \<Rightarrow> if owns_a_listing tn (tk_user t) db then Some t else None)"

definition new_session :: "tenant \<Rightarrow> nat \<Rightarrow> string \<Rightarrow> instant \<Rightarrow> 'z owner_db_scheme \<Rightarrow> owner_session" where
  "new_session tn user digest now db =
     \<lparr>se_pk = Suc (seq db), se_tenant = tn_pk tn, se_user = user, se_hash = digest, se_created_at = wall db, se_last_seen_at = now,
      se_expires_at = now + SESSION_ABSOLUTE\<rparr>"

definition apply_sign_in :: "'w owner_world_scheme \<Rightarrow> tenant \<Rightarrow> string \<Rightarrow> instant \<Rightarrow> 'z owner_db_scheme \<Rightarrow> owner_error + (string \<times> owner_session) \<times> 'z owner_db_scheme" where
  "apply_sign_in w tn secret now = atomic (\<lambda>db.
     case find (\<lambda>t. tk_tenant t = tn_pk tn \<and> tk_hash t = ow_digest w secret) (tokens db) of
       None \<Rightarrow> Inl (SignInRefused ''unknown'')
     | Some t \<Rightarrow>
         if tk_used_at t \<noteq> None then Inl (SignInRefused ''used'')
         else if tk_expires_at t \<le> now then Inl (SignInRefused ''expired'')
         else if \<not> owns_a_listing tn (tk_user t) db then Inl (SignInRefused ''not_an_owner'')
         else
           let db1 = db\<lparr>tokens := update_where (\<lambda>x. tk_pk x = tk_pk t) (\<lambda>x. x\<lparr>tk_used_at := Some now\<rparr>) (tokens db)\<rparr>;
               cookie = ow_secret w (draws db1); s = new_session tn (tk_user t) (ow_digest w cookie) now db1 in
           if se_hash s \<in> se_hash ` set (sessions db1) then Inl OwnerIntegrity
           else Inr ((cookie, s), db1\<lparr>sessions := sessions db1 @ [s], seq := Suc (seq db1), draws := Suc (draws db1)\<rparr>))"

definition sign_in :: "'w owner_world_scheme \<Rightarrow> tenant \<Rightarrow> string \<Rightarrow> instant \<Rightarrow> 'z owner_db_scheme \<Rightarrow> (owner_error + string \<times> owner_session) \<times> 'z owner_db_scheme" where
  "sign_in w tn secret now db =
     (case require_autocommit db of
        Inl e \<Rightarrow> (Inl (OwnerAudit e), db)
      | Inr u \<Rightarrow>
          let (row, db1) = log_received ''owner.sign_in'' (Some (tn_pk tn)) None anonymous [] [] (Some (JObj [])) db in
          case apply_sign_in w tn secret now db1 of
            Inl (SignInRefused reason) \<Rightarrow> (Inl (SignInRefused reason), log_conclude row ''rejected'' [] (Some (JObj [(''reason'', JStr reason)])) None db1)
          | Inl e \<Rightarrow> (Inl e, db1)
          | Inr (new, db2) \<Rightarrow> (Inr new, log_conclude row ''applied'' [] None None db2))"

subsection \<open>The session\<close>

definition resolve_session :: "'w owner_world_scheme \<Rightarrow> tenant \<Rightarrow> string \<Rightarrow> instant \<Rightarrow> 'z owner_db_scheme \<Rightarrow> owner_session option \<times> 'z owner_db_scheme" where
  "resolve_session w tn cookie now db =
     (if cookie = [] then (None, db)
      else case find (\<lambda>s. se_tenant s = tn_pk tn \<and> se_hash s = ow_digest w cookie) (sessions db) of
        None \<Rightarrow> (None, db)
      | Some s \<Rightarrow>
          if se_expires_at s \<le> now \<or> se_last_seen_at s + SESSION_IDLE \<le> now then
            (None, db\<lparr>sessions := filter (\<lambda>x. se_pk x \<noteq> se_pk s) (sessions db)\<rparr>)
          else if TOUCH_INTERVAL \<le> now - se_last_seen_at s then
            (Some (s\<lparr>se_last_seen_at := now\<rparr>),
             db\<lparr>sessions := update_where (\<lambda>x. se_pk x = se_pk s) (\<lambda>x. x\<lparr>se_last_seen_at := now\<rparr>) (sessions db)\<rparr>)
          else (Some s, db))"

definition sign_out :: "tenant \<Rightarrow> owner_session \<Rightarrow> bool \<Rightarrow> 'z owner_db_scheme \<Rightarrow> (owner_error + nat) \<times> 'z owner_db_scheme" where
  "sign_out tn s everywhere db =
     (case require_autocommit db of
        Inl e \<Rightarrow> (Inl (OwnerAudit e), db)
      | Inr u \<Rightarrow>
          let who = (case find_by usr_pk (se_user s) (users db) of None \<Rightarrow> [] | Some x \<Rightarrow> usr_public_id x);
              (row, db1) = log_received ''owner.sign_out'' (Some (tn_pk tn)) None [(''type'', JStr ''owner''), (''id'', JStr who)] [] []
                (Some (JObj [(''everywhere'', JBool everywhere)])) db;
              chosen = (\<lambda>x. se_tenant x = tn_pk tn \<and> (if everywhere then se_user x = se_user s else se_pk x = se_pk s)) in
          (Inr (length (filter chosen (sessions db1))),
           log_conclude row ''applied'' [] None None (db1\<lparr>sessions := filter (\<lambda>x. \<not> chosen x) (sessions db1)\<rparr>)))"

text \<open>The guard of an owner view: a 404 off a tenant host, the sign-in page (dropping a dead cookie), or the view with the owner.\<close>

datatype guard_answer = NotFound | ToSignIn bool | Proceed owner_session

definition owner_required :: "'w owner_world_scheme \<Rightarrow> string \<Rightarrow> tenant option \<Rightarrow> string \<Rightarrow> 'z owner_db_scheme \<Rightarrow> guard_answer \<times> 'z owner_db_scheme" where
  "owner_required w host_kind tenant cookie db =
     (case tenant of
        None \<Rightarrow> (NotFound, db)
      | Some tn \<Rightarrow>
          if host_kind \<noteq> ''tenant'' then (NotFound, db)
          else (case resolve_session w tn cookie (wall db) db of
                  (None, db1) \<Rightarrow> (ToSignIn (cookie \<noteq> []), db1)
                | (Some s, db1) \<Rightarrow> (Proceed s, db1)))"

subsection \<open>Pruning\<close>

definition OWNER_AUTH_CHUNK :: nat where
  "OWNER_AUTH_CHUNK = 1000"

definition OWNER_AUTH_KEEP :: duration where
  "OWNER_AUTH_KEEP = days 1"

definition owner_auth_prune :: "instant \<Rightarrow> 'z owner_db_scheme \<Rightarrow> tick_result \<times> 'z owner_db_scheme" where
  "owner_auth_prune now db =
     (let cutoff = now - OWNER_AUTH_KEEP;
          tids = map tk_pk (take OWNER_AUTH_CHUNK (filter (\<lambda>t. tk_expires_at t < cutoff) (tokens db)));
          sids = map se_pk (take OWNER_AUTH_CHUNK (filter (\<lambda>s. se_expires_at s < cutoff \<or> se_last_seen_at s < cutoff - SESSION_IDLE) (sessions db)));
          dead_t = (\<lambda>t. tk_pk t \<in> set tids); dead_s = (\<lambda>s. se_pk s \<in> set sids) in
      (\<lparr>tick_done = length (filter dead_t (tokens db)) + length (filter dead_s (sessions db)),
        tick_more = (length tids = OWNER_AUTH_CHUNK \<or> length sids = OWNER_AUTH_CHUNK)\<rparr>,
       db\<lparr>tokens := filter (\<lambda>t. \<not> dead_t t) (tokens db), sessions := filter (\<lambda>s. \<not> dead_s s) (sessions db)\<rparr>))"

end
