(* ===== verification/Owner_Runs.thy ===== *)
theory Owner_Runs
  imports Owner_Auth Samples
begin

section \<open>Runs of owner sign-in\<close>

text \<open>
  The commands of \<open>Owner_Auth\<close> as a step relation, interleaved with anything the rest of the system does and with the passing of
  time, and what holds of every run: a link opens one session at most, an owner is mailed three links an hour at most, and a
  session lives within its two limits.
\<close>

subsection \<open>What each command writes\<close>

definition superseded :: "tenant \<Rightarrow> nat \<Rightarrow> instant \<Rightarrow> signin_token list \<Rightarrow> signin_token list" where
  "superseded tn user now = update_where (\<lambda>t. tk_tenant t = tn_pk tn \<and> tk_user t = user \<and> live_token now t) (\<lambda>t. t\<lparr>tk_expires_at := now\<rparr>)"

definition links_to :: "'w owner_world_scheme \<Rightarrow> tenant \<Rightarrow> user \<Rightarrow> instant \<Rightarrow> 'z owner_db_scheme \<Rightarrow> 'z owner_db_scheme \<Rightarrow> bool" where
  "links_to w tn u now db db' \<longleftrightarrow> throttled tn (usr_pk u) now db = None \<and> usr_tenant u = tn_pk tn \<and> owns_a_listing tn (usr_pk u) db
     \<and> ow_digest w (ow_secret w (draws db)) \<notin> tk_hash ` set (tokens db) \<and> draws db < draws db'
     \<and> (\<exists>t. tokens db' = superseded tn (usr_pk u) now (tokens db) @ [t] \<and> tk_tenant t = tn_pk tn \<and> tk_user t = usr_pk u
          \<and> tk_hash t = ow_digest w (ow_secret w (draws db)) \<and> tk_created_at t = wall db \<and> tk_expires_at t = now + SIGNIN_TTL
          \<and> tk_used_at t = None \<and> seq db < tk_pk t \<and> tk_pk t \<le> seq db')"

text \<open>The rest of the state moves forward only.\<close>

definition forward :: "'z owner_db_scheme \<Rightarrow> 'z owner_db_scheme \<Rightarrow> bool" where
  "forward db db' \<longleftrightarrow> wall db \<le> wall db' \<and> seq db \<le> seq db' \<and> draws db \<le> draws db'"

lemma forward_refl [simp]: "forward db db"
  by (simp add: forward_def)

lemma send_link_effect:
  assumes "send_link w tn u now db = Inr (x, db')"
  shows "x = (''sent'', []) \<and> sessions db' = sessions db \<and> listings db' = listings db \<and> wall db' = wall db \<and> draws db < draws db'
    \<and> ow_digest w (ow_secret w (draws db)) \<notin> tk_hash ` set (tokens db)
    \<and> (\<exists>t. tokens db' = superseded tn (usr_pk u) now (tokens db) @ [t] \<and> tk_tenant t = tn_pk tn \<and> tk_user t = usr_pk u
          \<and> tk_hash t = ow_digest w (ow_secret w (draws db)) \<and> tk_created_at t = wall db \<and> tk_expires_at t = now + SIGNIN_TTL
          \<and> tk_used_at t = None \<and> seq db < tk_pk t \<and> tk_pk t \<le> seq db') \<and> seq db \<le> seq db'"
proof -
  have h: "tk_hash ` set (tokens (expire_earlier tn (usr_pk u) now db)) = tk_hash ` set (tokens db)"
    unfolding expire_earlier_def Let_def by (simp add: set_map [symmetric] map_update_where del: set_map)
  show ?thesis using assms h
    by (auto simp: send_link_def Let_def enqueue_def then_do_Inr create_token_def superseded_def expire_earlier_def split: if_splits sum.splits)
qed

lemma apply_request_effect:
  assumes "apply_request w tn address now db = Inr ((outc, why), db')"
  shows "sessions db' = sessions db \<and> forward db db' \<and> wall db' = wall db \<and> in_atomic db' = in_atomic db
    \<and> (if outc = ''sent'' then \<exists>u. links_to w tn u now db db' else tokens db' = tokens db)"
proof -
  let ?db = "db\<lparr>in_atomic := True\<rparr>"
  from assms obtain d where body: "(if \<not> sign_in_available w tn then Inr ((''unavailable'', ''unavailable''), ?db)
     else (case (if address = [] then None else find (\<lambda>u. usr_tenant u = tn_pk tn \<and> usr_email u = address) (users ?db)) of
             None \<Rightarrow> Inr ((''ignored'', ''not_an_owner''), ?db)
           | Some u \<Rightarrow>
               if \<not> owns_a_listing tn (usr_pk u) ?db then Inr ((''ignored'', ''not_an_owner''), ?db)
               else (case throttled tn (usr_pk u) now ?db of
                       Some why \<Rightarrow> Inr ((''ignored'', why), ?db)
                     | None \<Rightarrow> send_link w tn u now ?db))) = Inr ((outc, why), d)" and d: "db' = d\<lparr>in_atomic := in_atomic db\<rparr>"
    unfolding apply_request_def atomic_Inr by blast
  have same: "owns_a_listing tn x ?db = owns_a_listing tn x db" "throttled tn x now ?db = throttled tn x now db" for x
    by (simp_all add: owns_a_listing_def throttled_def tokens_of_def)
  show ?thesis
  proof (cases "\<exists>u. sign_in_available w tn \<and> address \<noteq> [] \<and> find (\<lambda>u. usr_tenant u = tn_pk tn \<and> usr_email u = address) (users db) = Some u
      \<and> owns_a_listing tn (usr_pk u) db \<and> throttled tn (usr_pk u) now db = None")
    case True
    then obtain u where u: "sign_in_available w tn" "address \<noteq> []" "find (\<lambda>u. usr_tenant u = tn_pk tn \<and> usr_email u = address) (users db) = Some u"
      "owns_a_listing tn (usr_pk u) db" "throttled tn (usr_pk u) now db = None" by blast
    with body have "send_link w tn u now ?db = Inr ((outc, why), d)" by (simp add: same)
    from send_link_effect [OF this] u find_SomeD [OF u(3)] have "links_to w tn u now db db'" "outc = ''sent''" "sessions d = sessions db" "wall d = wall db" "seq db \<le> seq d" "draws db < draws d"
      by (auto simp: links_to_def d)
    then show ?thesis by (auto simp: d forward_def)
  next
    case False
    with body have "d = ?db" "outc \<noteq> ''sent''" by (auto simp: same split: if_splits option.splits)
    then show ?thesis by (simp add: d)
  qed
qed

lemma forward_trans: "forward a b \<Longrightarrow> forward b c \<Longrightarrow> forward a c"
  by (auto simp: forward_def)

lemma links_to_log:
  assumes "links_to w tn u now db2 db3" "tokens db2 = tokens db" "listings db2 = listings db" "draws db2 = draws db" "wall db2 = wall db" "seq db \<le> seq db2"
    "tokens db' = tokens db3" "draws db' = draws db3" "seq db' = seq db3"
  shows "links_to w tn u now db db'"
proof -
  have "throttled tn (usr_pk u) now db2 = throttled tn (usr_pk u) now db" "owns_a_listing tn (usr_pk u) db2 = owns_a_listing tn (usr_pk u) db"
    by (simp_all add: throttled_def tokens_of_def owns_a_listing_def assms(2,3))
  then show ?thesis using assms unfolding links_to_def by (auto intro: le_less_trans)
qed

text \<open>Every command leaves the two tables alone but for what it says.\<close>

lemma request_effect:
  assumes "request_sign_in w tn addr ip now db = (r, db')"
  shows "sessions db' = sessions db \<and> forward db db' \<and> wall db' = wall db \<and> in_atomic db' = in_atomic db
    \<and> (if r = Inr ''sent'' then \<exists>u. links_to w tn u now db db' else tokens db' = tokens db)"
proof (cases "in_atomic db")
  case True
  then show ?thesis using assms by (auto simp: request_sign_in_def require_autocommit_def)
next
  case False
  then obtain v db1 where c: "check_request w tn ip now db = Inr (v, db1)" 
    by (cases "check_groups (w_hmac w) (w_bucket w) tn now [(''ip'', ip, REQUEST_IP)] db")
      (simp add: check_request_def check_def require_autocommit_def del: check_groups.simps)
  from only_counted_check [OF c [unfolded check_request_def]] obtain cs n where d1: "db1 = db\<lparr>counters := cs, seq := n\<rparr>" "seq db \<le> n" by (auto simp: only_counted_def)
  obtain row db2 where lr: "log_received ''owner.request_signin'' (Some (tn_pk tn)) None anonymous [] [] (Some (JObj [])) db1 = (row, db2)" by fastforce
  note d2 = log_received_simps(8) [OF lr]
  show ?thesis
  proof (cases "allowed v")
    case na: False
    with assms False c lr have "tokens db' = tokens db" "sessions db' = sessions db" "r \<noteq> Inr ''sent''" "forward db db'" "wall db' = wall db" "in_atomic db' = in_atomic db"
      using d1 d2 by (auto simp: request_sign_in_def require_autocommit_def Let_def log_conclude_def forward_def split: if_splits)
    then show ?thesis by simp
  next
    case True
    show ?thesis
    proof (cases "apply_request w tn (lower (strip addr)) now db2")
      case (Inl e)
      with assms False c lr True have "db' = db2" "r = Inl e" by (auto simp: request_sign_in_def require_autocommit_def Let_def)
      then show ?thesis using d1 by (simp add: d2 forward_def)
    next
      case (Inr x)
      obtain outc why db3 where x: "apply_request w tn (lower (strip addr)) now db2 = Inr ((outc, why), db3)" using Inr by (cases x) auto
      with assms False c lr True have r: "r = Inr outc"
        and "db' = log_conclude row ''applied'' [] None None db3 \<or> db' = log_conclude row ''rejected'' [] (Some (JObj [(''reason'', JStr why)])) None db3"
        by (auto simp: request_sign_in_def require_autocommit_def Let_def)
      then have d: "tokens db' = tokens db3" "sessions db' = sessions db3" "draws db' = draws db3" "seq db' = seq db3" "wall db' = wall db3" "in_atomic db' = in_atomic db3"
        by (auto simp: log_conclude_def)
      from apply_request_effect [OF x] have e: "sessions db3 = sessions db2" "forward db2 db3" "wall db3 = wall db2" "in_atomic db3 = in_atomic db2"
        "if outc = ''sent'' then \<exists>u. links_to w tn u now db2 db3 else tokens db3 = tokens db2" by auto
      have "\<exists>u. links_to w tn u now db db'" if "\<exists>u. links_to w tn u now db2 db3"
      proof -
        from that obtain u where "links_to w tn u now db2 db3" by blast
        then have "links_to w tn u now db db'" by (rule links_to_log) (use d1 in \<open>simp_all add: d2 d\<close>)
        then show ?thesis by blast
      qed
      then show ?thesis using e d r d1 by (auto simp: d2 forward_def split: if_splits)
    qed
  qed
qed

definition opens :: "'w owner_world_scheme \<Rightarrow> tenant \<Rightarrow> string \<Rightarrow> instant \<Rightarrow> 'z owner_db_scheme \<Rightarrow> owner_session \<Rightarrow> 'z owner_db_scheme \<Rightarrow> bool" where
  "opens w tn digest now db s db' \<longleftrightarrow>
     (\<exists>t. t \<in> set (tokens db) \<and> tk_tenant t = tn_pk tn \<and> tk_hash t = digest \<and> live_token now t \<and> owns_a_listing tn (tk_user t) db
        \<and> tokens db' = update_where (\<lambda>x. tk_pk x = tk_pk t) (\<lambda>x. x\<lparr>tk_used_at := Some now\<rparr>) (tokens db)
        \<and> sessions db' = sessions db @ [s] \<and> se_tenant s = tn_pk tn \<and> se_user s = tk_user t \<and> se_created_at s = wall db \<and> se_last_seen_at s = now
        \<and> se_expires_at s = now + SESSION_ABSOLUTE \<and> seq db < se_pk s \<and> se_pk s \<le> seq db')"

lemma apply_sign_in_effect:
  assumes "apply_sign_in w tn secret now db = Inr ((cookie, s), db')"
  shows "opens w tn (ow_digest w secret) now db s db' \<and> forward db db' \<and> wall db' = wall db \<and> in_atomic db' = in_atomic db"
  using assms unfolding apply_sign_in_def atomic_Inr
  by (auto simp: Let_def opens_def live_token_def forward_def new_session_def owns_a_listing_def dest!: find_SomeD split: option.splits if_splits)

lemma sign_in_effect:
  assumes "sign_in w tn secret now db = (r, db')"
  shows "forward db db' \<and> wall db' = wall db \<and> in_atomic db' = in_atomic db
    \<and> (case r of Inr (cookie, s) \<Rightarrow> opens w tn (ow_digest w secret) now db s db' | Inl e \<Rightarrow> tokens db' = tokens db \<and> sessions db' = sessions db)"
proof (cases "in_atomic db")
  case True
  then show ?thesis using assms by (auto simp: sign_in_def require_autocommit_def)
next
  case False
  obtain row db1 where lr: "log_received ''owner.sign_in'' (Some (tn_pk tn)) None anonymous [] [] (Some (JObj [])) db = (row, db1)" by fastforce
  note d1 = log_received_simps(8) [OF lr]
  show ?thesis
  proof (cases "apply_sign_in w tn secret now db1")
    case (Inl e)
    then show ?thesis using assms False lr
      by (cases e) (auto simp: sign_in_def require_autocommit_def Let_def log_conclude_def forward_def d1)
  next
    case (Inr x)
    obtain cookie s db2 where x: "apply_sign_in w tn secret now db1 = Inr ((cookie, s), db2)" using Inr by (cases x) auto
    with assms False lr have r: "r = Inr (cookie, s)" "db' = log_conclude row ''applied'' [] None None db2"
      by (auto simp: sign_in_def require_autocommit_def Let_def)
    have "opens w tn (ow_digest w secret) now db s db'"
      using conjunct1 [OF apply_sign_in_effect [OF x]] unfolding opens_def r log_conclude_def by (auto simp: d1 owns_a_listing_def)
    with apply_sign_in_effect [OF x] show ?thesis by (auto simp: r forward_def log_conclude_def d1)
  qed
qed

subsection \<open>Steps\<close>

datatype owner_act =
    Asked instant nat "nat option"
  | Entered instant nat string "nat option"
  | Seen instant nat
  | Quiet

text \<open>The commands run at the time of the wall clock; \<open>other\<close> is any step of the rest of the system, or time passing.
  A step is labelled with what it was and when: the owner a link went to, which a request that sends one always has
  (\<open>request_effect\<close>), and the session a sign-in opened or a visit was answered with.\<close>

definition opened_pk :: "owner_error + string \<times> owner_session \<Rightarrow> nat option" where
  "opened_pk r = (case r of Inl e \<Rightarrow> None | Inr (cookie, s) \<Rightarrow> Some (se_pk s))"

inductive owner_step :: "'w owner_world_scheme \<Rightarrow> 'z owner_db_scheme \<Rightarrow> owner_act \<Rightarrow> 'z owner_db_scheme \<Rightarrow> bool" for w where
  sent: "request_sign_in w tn addr ip (wall db) db = (Inr ''sent'', db') \<Longrightarrow> links_to w tn u (wall db) db db'
     \<Longrightarrow> owner_step w db (Asked (wall db) (tn_pk tn) (Some (usr_pk u))) db'"
| unsent: "request_sign_in w tn addr ip (wall db) db = (r, db') \<Longrightarrow> r \<noteq> Inr ''sent'' \<Longrightarrow> owner_step w db (Asked (wall db) (tn_pk tn) None) db'"
| enter: "sign_in w tn secret (wall db) db = (r, db') \<Longrightarrow> owner_step w db (Entered (wall db) (tn_pk tn) (ow_digest w secret) (opened_pk r)) db'"
| seen: "resolve_session w tn cookie (wall db) db = (Some s, db') \<Longrightarrow> owner_step w db (Seen (wall db) (se_pk s)) db'"
| unseen: "resolve_session w tn cookie (wall db) db = (None, db') \<Longrightarrow> owner_step w db Quiet db'"
| leave: "sign_out tn s everywhere db = (r, db') \<Longrightarrow> owner_step w db Quiet db'"
| prune: "owner_auth_prune (wall db) db = (r, db') \<Longrightarrow> owner_step w db Quiet db'"
| other: "tokens db' = tokens db \<Longrightarrow> sessions db' = sessions db \<Longrightarrow> forward db db' \<Longrightarrow> owner_step w db Quiet db'"

inductive owner_run :: "'w owner_world_scheme \<Rightarrow> 'z owner_db_scheme \<Rightarrow> owner_act list \<Rightarrow> 'z owner_db_scheme \<Rightarrow> bool" for w where
  start: "owner_run w db [] db"
| more: "owner_run w db as db1 \<Longrightarrow> owner_step w db1 a db2 \<Longrightarrow> owner_run w db (as @ [a]) db2"

subsection \<open>What a step keeps of the tables\<close>

definition tokens_ok :: "'w owner_world_scheme \<Rightarrow> 'z owner_db_scheme \<Rightarrow> bool" where
  "tokens_ok w db \<longleftrightarrow> distinct (map tk_pk (tokens db)) \<and> distinct (map tk_hash (tokens db))
     \<and> (\<forall>t \<in> set (tokens db). tk_pk t \<le> seq db \<and> (\<exists>n < draws db. tk_hash t = ow_digest w (ow_secret w n)))"

lemma superseded_simps:
  "map tk_pk (superseded tn u now ts) = map tk_pk ts" "map tk_hash (superseded tn u now ts) = map tk_hash ts"
  "map tk_created_at (superseded tn u now ts) = map tk_created_at ts"
  by (simp_all add: superseded_def map_update_where)

lemma superseded_unused: "filter (\<lambda>t. tk_hash t = h \<and> tk_used_at t = None) (superseded tn u now ts) = []
    \<longleftrightarrow> filter (\<lambda>t. tk_hash t = h \<and> tk_used_at t = None) ts = []"
  by (induction ts) (auto simp: superseded_def)

text \<open>How a step changes the tokens: nothing, one more, one used, or some deleted.\<close>

lemma owner_step_cases:
  assumes "owner_step w db a db'"
  obtains (sent) tn u where "a = Asked (wall db) (tn_pk tn) (Some (usr_pk u))" "links_to w tn u (wall db) db db'" "sessions db' = sessions db" "forward db db'" "wall db' = wall db"
    | (opened) tn h s where "a = Entered (wall db) (tn_pk tn) h (Some (se_pk s))" "opens w tn h (wall db) db s db'" "forward db db'" "wall db' = wall db"
    | (pruned) P Q where "a = Quiet" "tokens db' = filter P (tokens db)" "sessions db' = filter Q (sessions db)" "forward db db'"
        "\<And>t. t \<in> set (tokens db) \<Longrightarrow> \<not> P t \<Longrightarrow> \<exists>t' \<in> set (tokens db). tk_pk t' = tk_pk t \<and> tk_expires_at t' < wall db - OWNER_AUTH_KEEP"
    | (touched) s where "a = Seen (wall db) (se_pk s)" "tokens db' = tokens db" "forward db db'" "wall db' = wall db"
        "\<exists>tn cookie. resolve_session w tn cookie (wall db) db = (Some s, db')"
    | (same) "\<forall>x t h k. a \<noteq> Entered x t h (Some k)" "\<forall>x t u. a \<noteq> Asked x t (Some u)" "\<forall>x s. a \<noteq> Seen x s" "tokens db' = tokens db" "sessions db' = sessions db" "forward db db'"
  using assms
proof cases
  case (sent tn addr ip u)
  with request_effect [OF sent(2)] that(1) show ?thesis by auto
next
  case (unsent tn addr ip r)
  with request_effect [OF unsent(2)] that(5) show ?thesis by auto
next
  case (enter tn secret r)
  show ?thesis
  proof (cases r)
    case (Inl e)
    with enter sign_in_effect [OF enter(2)] that(5) show ?thesis by (auto simp: opened_pk_def)
  next
    case (Inr x)
    with enter sign_in_effect [OF enter(2)] that(2) [of tn "ow_digest w secret" "snd x"] show ?thesis by (cases x) (auto simp: opened_pk_def)
  qed
next
  case (seen tn cookie s)
  have "tokens db' = tokens db \<and> forward db db' \<and> wall db' = wall db"
    using seen(2) by (auto simp: resolve_session_def forward_def split: if_splits option.splits)
  with seen that(4) [of s] show ?thesis by blast
next
  case (unseen tn cookie)
  have "tokens db' = filter (\<lambda>t. True) (tokens db) \<and> (\<exists>Q. sessions db' = filter Q (sessions db)) \<and> forward db db'"
    using unseen(2) by (auto simp: resolve_session_def forward_def split: if_splits option.splits intro: exI [of _ "\<lambda>x. True"])
  with unseen(1) that(3) [of "\<lambda>t. True"] show ?thesis by auto
next
  case (leave tn s everywhere r)
  have "tokens db' = filter (\<lambda>t. True) (tokens db) \<and> (\<exists>Q. sessions db' = filter Q (sessions db)) \<and> forward db db'"
    using leave(2) by (auto simp: sign_out_def Let_def require_autocommit_def log_received_def log_conclude_def forward_def split: if_splits intro: exI [of _ "\<lambda>x. True"])
  with leave(1) that(3) [of "\<lambda>t. True"] show ?thesis by auto
next
  case (prune r)
  let ?ids = "map tk_pk (take OWNER_AUTH_CHUNK (filter (\<lambda>t. tk_expires_at t < wall db - OWNER_AUTH_KEEP) (tokens db)))"
  have "tokens db' = filter (\<lambda>t. \<not> tk_pk t \<in> set ?ids) (tokens db)" "\<exists>Q. sessions db' = filter Q (sessions db)" "forward db db'"
    using prune(2) by (auto simp: owner_auth_prune_def Let_def forward_def)
  moreover have "\<exists>t' \<in> set (tokens db). tk_pk t' = tk_pk t \<and> tk_expires_at t' < wall db - OWNER_AUTH_KEEP" if "tk_pk t \<in> set ?ids" for t
    using that by (auto dest!: in_set_takeD)
  ultimately show ?thesis using prune(1) that(3) [of "\<lambda>t. \<not> tk_pk t \<in> set ?ids"] by blast
next
  case other
  with that(5) show ?thesis by auto
qed

lemma tokens_ok_same: "tokens_ok w db \<Longrightarrow> tokens db' = tokens db \<Longrightarrow> forward db db' \<Longrightarrow> tokens_ok w db'"
  unfolding tokens_ok_def forward_def by (metis le_trans less_le_trans)

lemma tokens_ok_step:
  assumes "tokens_ok w db" "owner_step w db a db'"
  shows "tokens_ok w db'"
  using assms(2)
proof (cases rule: owner_step_cases)
  case (sent tn u)
  from sent(2) obtain t where t: "tokens db' = superseded tn (usr_pk u) (wall db) (tokens db) @ [t]" "tk_hash t = ow_digest w (ow_secret w (draws db))"
    "seq db < tk_pk t" "tk_pk t \<le> seq db'" "ow_digest w (ow_secret w (draws db)) \<notin> tk_hash ` set (tokens db)" "draws db < draws db'" by (auto simp: links_to_def)
  have m: "map tk_pk (tokens db') = map tk_pk (tokens db) @ [tk_pk t]" "map tk_hash (tokens db') = map tk_hash (tokens db) @ [tk_hash t]"
    by (simp_all add: t(1) superseded_simps)
  have "\<exists>t0 \<in> set (tokens db). tk_pk x = tk_pk t0 \<and> tk_hash x = tk_hash t0" if "x \<in> set (superseded tn (usr_pk u) (wall db) (tokens db))" for x
    using that by (auto simp: superseded_def set_update_where)
  then have "tk_pk x \<le> seq db' \<and> (\<exists>n < draws db'. tk_hash x = ow_digest w (ow_secret w n))" if "x \<in> set (superseded tn (usr_pk u) (wall db) (tokens db))" for x
    using that assms(1) sent(4) unfolding tokens_ok_def forward_def by (metis le_trans less_le_trans)
  then have "\<forall>x \<in> set (tokens db'). tk_pk x \<le> seq db' \<and> (\<exists>n < draws db'. tk_hash x = ow_digest w (ow_secret w n))"
    using t by auto
  moreover have "distinct (map tk_pk (tokens db'))" "distinct (map tk_hash (tokens db'))"
    unfolding m using assms(1) t(2,3,5) by (auto simp: tokens_ok_def)
  ultimately show ?thesis by (simp add: tokens_ok_def)
next
  case (opened tn h s)
  then obtain t :: signin_token where t: "tokens db' = update_where (\<lambda>x. tk_pk x = tk_pk t) (\<lambda>x. x\<lparr>tk_used_at := Some (wall db)\<rparr>) (tokens db)" unfolding opens_def by blast
  have m: "map tk_pk (tokens db') = map tk_pk (tokens db)" "map tk_hash (tokens db') = map tk_hash (tokens db)" by (simp_all add: t map_update_where)
  have old: "\<exists>t0 \<in> set (tokens db). tk_pk x = tk_pk t0 \<and> tk_hash x = tk_hash t0" if x: "x \<in> set (tokens db')" for x
  proof -
    from x obtain y where "y \<in> set (tokens db)" "x = (if tk_pk y = tk_pk t then y\<lparr>tk_used_at := Some (wall db)\<rparr> else y)"
      unfolding t by (auto simp: set_update_where)
    then show ?thesis by (intro bexI [of _ y]) auto
  qed
  have "tk_pk x \<le> seq db' \<and> (\<exists>n < draws db'. tk_hash x = ow_digest w (ow_secret w n))" if "x \<in> set (tokens db')" for x
    using old [OF that] assms(1) opened(3) unfolding tokens_ok_def forward_def by (metis le_trans less_le_trans)
  then show ?thesis using assms(1) by (simp add: tokens_ok_def m)
next
  case (pruned P Q)
  have "distinct (map tk_pk (tokens db'))" "distinct (map tk_hash (tokens db'))" using assms(1) by (simp_all add: pruned(2) tokens_ok_def distinct_map_filter)
  moreover have "set (tokens db') \<subseteq> set (tokens db)" by (auto simp: pruned(2))
  ultimately show ?thesis using assms(1) pruned(4) unfolding tokens_ok_def forward_def by (meson subsetD le_trans less_le_trans)
qed (simp_all add: tokens_ok_same [OF assms(1)])

subsection \<open>A link opens one session\<close>

definition entries :: "string \<Rightarrow> owner_act list \<Rightarrow> nat" where
  "entries h as = length (filter (\<lambda>a. case a of Entered t tn d k \<Rightarrow> d = h \<and> k \<noteq> None | _ \<Rightarrow> False) as)"

text \<open>Whether a session may still be opened with a link of digest \<open>h\<close>: there is an unused link, or the secret is still to be drawn.\<close>

definition may_open :: "'w owner_world_scheme \<Rightarrow> string \<Rightarrow> 'z owner_db_scheme \<Rightarrow> bool" where
  "may_open w h db \<longleftrightarrow> filter (\<lambda>t. tk_hash t = h \<and> tk_used_at t = None) (tokens db) \<noteq> [] \<or> (\<exists>n \<ge> draws db. ow_digest w (ow_secret w n) = h)"

lemma may_open_step:
  assumes ok: "tokens_ok w db" and step: "owner_step w db a db'" and inj: "inj (\<lambda>n. ow_digest w (ow_secret w n))"
  shows "entries h [a] + of_bool (may_open w h db') \<le> (of_bool (may_open w h db) :: nat)"
  using step
proof (cases rule: owner_step_cases)
  case (sent tn u)
  then obtain t where t: "tokens db' = superseded tn (usr_pk u) (wall db) (tokens db) @ [t]" "tk_hash t = ow_digest w (ow_secret w (draws db))" "draws db < draws db'"
    unfolding links_to_def by blast
  have "may_open w h db' \<longrightarrow> may_open w h db"
    using superseded_unused [of h tn "usr_pk u" "wall db" "tokens db"] t unfolding may_open_def by (auto split: if_splits intro: less_imp_le order_trans)
  then show ?thesis using sent(1) by (simp add: entries_def)
next
  case (opened tn d s)
  then obtain t where t: "t \<in> set (tokens db)" "tk_hash t = d" "tk_used_at t = None"
    "tokens db' = update_where (\<lambda>x. tk_pk x = tk_pk t) (\<lambda>x. x\<lparr>tk_used_at := Some (wall db)\<rparr>) (tokens db)"
    unfolding opens_def live_token_def by blast
  have dr: "draws db \<le> draws db'" using opened(3) by (simp add: forward_def)
  have keep: "may_open w h db' \<longrightarrow> may_open w h db"
    using dr unfolding may_open_def t(4) by (auto simp: filter_empty_conv set_update_where split: if_splits intro: order_trans)
  show ?thesis
  proof (cases "d = h")
    case True
    have "may_open w h db" using t True by (auto simp: may_open_def filter_empty_conv)
    moreover have "\<not> may_open w h db'"
    proof -
      have one: "tk_pk x = tk_pk t" if "x \<in> set (tokens db)" "tk_hash x = h" for x
        using that t(1,2) True ok by (auto simp: tokens_ok_def distinct_map dest: inj_onD)
      have "tk_used_at x \<noteq> None" if x: "x \<in> set (tokens db')" "tk_hash x = h" for x
      proof -
        from x(1) obtain y where y: "y \<in> set (tokens db)" "x = (if tk_pk y = tk_pk t then y\<lparr>tk_used_at := Some (wall db)\<rparr> else y)"
          unfolding t(4) by (auto simp: set_update_where)
        with x(2) have "tk_hash y = h" by (simp split: if_splits)
        from one [OF y(1) this] y(2) show ?thesis by simp
      qed
      then have "filter (\<lambda>t. tk_hash t = h \<and> tk_used_at t = None) (tokens db') = []" by (auto simp: filter_empty_conv)
      moreover obtain m where "m < draws db" "h = ow_digest w (ow_secret w m)" using ok t(1,2) True by (auto simp: tokens_ok_def)
      then have "ow_digest w (ow_secret w n) \<noteq> h" if "draws db' \<le> n" for n using injD [OF inj, of n m] that dr by auto
      ultimately show ?thesis by (auto simp: may_open_def)
    qed
    ultimately show ?thesis using opened(1) True by (simp add: entries_def)
  qed (use opened(1) keep in \<open>simp add: entries_def\<close>)
next
  case (pruned P Q)
  then have "may_open w h db' \<longrightarrow> may_open w h db" by (auto simp: may_open_def forward_def filter_empty_conv intro: order_trans)
  then show ?thesis using pruned(1) by (simp add: entries_def)
next
  case (touched s)
  then have "may_open w h db' \<longrightarrow> may_open w h db" by (auto simp: may_open_def forward_def intro: order_trans)
  then show ?thesis using touched(1) by (simp add: entries_def)
next
  case same
  then have "may_open w h db' \<longrightarrow> may_open w h db" by (auto simp: may_open_def forward_def intro: order_trans)
  moreover have "entries h [a] = 0" using same(1) by (auto simp: entries_def split: owner_act.splits)
  ultimately show ?thesis by simp
qed

lemma tokens_ok_run: "owner_run w db as db' \<Longrightarrow> tokens_ok w db \<Longrightarrow> tokens_ok w db'"
  by (induction rule: owner_run.induct) (auto intro: tokens_ok_step)

lemma entries_run:
  "owner_run w db as db' \<Longrightarrow> tokens_ok w db \<Longrightarrow> inj (\<lambda>n. ow_digest w (ow_secret w n)) \<Longrightarrow> entries h as + of_bool (may_open w h db') \<le> 1"
proof (induction rule: owner_run.induct)
  case (more db as db1 a db2)
  have "entries h (as @ [a]) = entries h as + entries h [a]" by (simp add: entries_def)
  moreover from may_open_step [OF tokens_ok_run [OF more(1,4)] more(2) more(5)] have "entries h [a] + of_bool (may_open w h db2) \<le> (of_bool (may_open w h db1) :: nat)" .
  ultimately show ?case using more by linarith
qed (simp add: entries_def)

text \<open>C31: A sign-in link opens one session at most. In any run of link requests, sign-ins, visits, sign-outs and prunings, by any number of
  owners and tenants and interleaved with anything else the system does, the sign-ins that succeed with one secret number at most one,
  whether the link was superseded, used, expired or deleted meanwhile. (Two draws of the random generator never have the same digest.)\<close>

theorem link_opens_one_session:
  assumes "owner_run w db as db'" "tokens_ok w db" "inj (\<lambda>n. ow_digest w (ow_secret w n))"
  shows "entries (ow_digest w secret) as \<le> 1"
  using entries_run [OF assms, of "ow_digest w secret"] by simp

definition owner_w :: owner_world where
  "owner_w = \<lparr>w_hash = (\<lambda>pid code. pid @ code), w_hmac = (\<lambda>s. s), w_bucket = (\<lambda>s. s), w_mail = (\<lambda>t. True), w_ipv6 = (\<lambda>s. False), w_locked = (\<lambda>n. False),
     ow_digest = (\<lambda>s. s), ow_secret = (\<lambda>n. replicate n CHR ''x'')\<rparr>"

definition linked_db :: owner_db where
  "linked_db = \<lparr>wall = sample_now, entropy = (\<lambda>n. n), draws = 2, seq = 100, in_atomic = False,
     tenants = [sample_tenant], memberships = [], outbox = [], deliveries = [], mail = [], counters = [],
     commands = [], accesses = [], listings = [sample_listing], users = [sample_user],
     tokens = [\<lparr>tk_pk = 30, tk_tenant = 1, tk_user = 7, tk_hash = ''x'', tk_created_at = sample_now - hours 1, tk_expires_at = sample_now + hours 11,
        tk_used_at = None, tk_message = None\<rparr>], sessions = []\<rparr>"

lemma linked_entry: "\<exists>s db'. sign_in owner_w sample_tenant ''x'' sample_now linked_db = (Inr (''xx'', s), db') \<and> se_pk s = 102"
  by (simp add: sign_in_def require_autocommit_def linked_db_def log_received_def apply_sign_in_def atomic_def owner_w_def sample_tenant_def
      owns_a_listing_def sample_listing_def new_session_def Let_def SIGNIN_TTL_def update_where_def numeral_2_eq_2 hours_def)

theorem link_opens_one_session_witness:
  "\<exists>db' k. owner_run owner_w linked_db [Entered sample_now 1 ''x'' (Some k)] db' \<and> entries ''x'' [Entered sample_now 1 ''x'' (Some k)] = 1 \<and> (1::nat) \<le> 1"
proof -
  from linked_entry obtain s db' where e: "sign_in owner_w sample_tenant ''x'' (wall linked_db) linked_db = (Inr (''xx'', s), db')" by (auto simp: linked_db_def)
  have step: "owner_step owner_w linked_db (Entered sample_now 1 ''x'' (Some (se_pk s))) db'"
    using owner_step.enter [OF e] by (simp add: opened_pk_def linked_db_def sample_tenant_def owner_w_def)
  have run: "owner_run owner_w linked_db [Entered sample_now 1 ''x'' (Some (se_pk s))] db'"
    using owner_run.more [OF owner_run.start step] by simp
  have ok: "tokens_ok owner_w linked_db"
    by (auto simp: tokens_ok_def linked_db_def owner_w_def intro!: exI [of _ "Suc 0"])
  have inj: "inj (\<lambda>n. ow_digest owner_w (ow_secret owner_w n))" by (auto simp: owner_w_def inj_on_def)
  from link_opens_one_session [OF run ok inj, of "''x''"] run show ?thesis
    by (auto simp: entries_def owner_w_def)
qed

subsection \<open>How often an owner is mailed a link\<close>

definition mailed :: "nat \<Rightarrow> nat \<Rightarrow> owner_act list \<Rightarrow> instant list" where
  "mailed tn u as = List.map_filter (\<lambda>a. case a of Asked t tn' (Some u') \<Rightarrow> if tn' = tn \<and> u' = u then Some t else None | _ \<Rightarrow> None) as"

definition paced :: "instant list \<Rightarrow> bool" where
  "paced ts \<longleftrightarrow> sorted_wrt (\<lambda>a b. a + seconds MIN_SECONDS_BETWEEN_LINKS \<le> b) ts
     \<and> (\<forall>t. length (filter (\<lambda>x. t - hours 1 < x \<and> x \<le> t) ts) \<le> MAX_LINKS_PER_HOUR)"

definition link_times :: "nat \<Rightarrow> nat \<Rightarrow> signin_token list \<Rightarrow> instant list" where
  "link_times tn u ts = map tk_created_at (filter (\<lambda>t. tk_tenant t = tn \<and> tk_user t = u) ts)"

text \<open>The token table remembers the last day of links, whatever was superseded, used or pruned.\<close>

definition tokens_dated :: "'z owner_db_scheme \<Rightarrow> bool" where
  "tokens_dated db \<longleftrightarrow> distinct (map tk_pk (tokens db)) \<and> (\<forall>t \<in> set (tokens db). tk_pk t \<le> seq db \<and> tk_created_at t \<le> tk_expires_at t \<and> tk_created_at t \<le> wall db)"

definition remembers :: "nat \<Rightarrow> nat \<Rightarrow> instant list \<Rightarrow> 'z owner_db_scheme \<Rightarrow> bool" where
  "remembers tn u ts db \<longleftrightarrow> tokens_dated db \<and> (\<forall>x \<in> set ts. x \<le> wall db)
     \<and> filter (\<lambda>x. wall db - OWNER_AUTH_KEEP < x) ts = filter (\<lambda>x. wall db - OWNER_AUTH_KEEP < x) (link_times tn u (tokens db))"

lemma mailed_append [simp]: "mailed tn u (as @ [Asked t tn' (Some u')]) = mailed tn u as @ (if tn' = tn \<and> u' = u then [t] else [])"
  by (simp add: mailed_def map_filter_def)

lemma mailed_other: "\<forall>x t u'. a \<noteq> Asked x t (Some u') \<Longrightarrow> mailed tn u (as @ [a]) = mailed tn u as"
  by (auto simp: mailed_def map_filter_def split: owner_act.splits option.splits)

lemma link_times_update [simp]:
  assumes "\<And>t. tk_tenant (f t) = tk_tenant t \<and> tk_user (f t) = tk_user t \<and> tk_created_at (f t) = tk_created_at t"
  shows "link_times tn u (update_where P f ts) = link_times tn u ts"
  using assms by (induction ts) (auto simp: link_times_def)

lemma link_times_append [simp]: "link_times tn u (ts @ [t]) = link_times tn u ts @ (if tk_tenant t = tn \<and> tk_user t = u then [tk_created_at t] else [])"
  by (simp add: link_times_def)

lemma tokens_dated_step:
  assumes ok: "tokens_dated db" and step: "owner_step w db a db'"
  shows "tokens_dated db'"
proof -
  have later: "tk_pk t \<le> seq db' \<and> tk_created_at t \<le> tk_expires_at t \<and> tk_created_at t \<le> wall db'" if "forward db db'" "t \<in> set (tokens db)" for t
    using ok that by (auto simp: tokens_dated_def forward_def)
  show ?thesis using step
  proof (cases rule: owner_step_cases)
    case (sent tn u)
    then obtain t where t: "tokens db' = superseded tn (usr_pk u) (wall db) (tokens db) @ [t]" "seq db < tk_pk t" "tk_pk t \<le> seq db'" "tk_created_at t = wall db"
      "tk_expires_at t = wall db + SIGNIN_TTL" unfolding links_to_def by blast
    have "tk_pk x \<le> seq db' \<and> tk_created_at x \<le> tk_expires_at x \<and> tk_created_at x \<le> wall db'" if x: "x \<in> set (superseded tn (usr_pk u) (wall db) (tokens db))" for x
    proof -
      from x obtain y where y: "y \<in> set (tokens db)" "x = y \<or> x = y\<lparr>tk_expires_at := wall db\<rparr>" unfolding superseded_def by (auto simp: set_update_where)
      with later [OF sent(4) y(1)] sent(5) show ?thesis by auto
    qed
    moreover have "distinct (map tk_pk (tokens db'))" using ok t(2) by (auto simp: t(1) superseded_simps tokens_dated_def)
    ultimately show ?thesis using t sent(5) by (auto simp: tokens_dated_def SIGNIN_TTL_def hours_def)
  next
    case (opened tn h s)
    then obtain t :: signin_token where t: "tokens db' = update_where (\<lambda>x. tk_pk x = tk_pk t) (\<lambda>x. x\<lparr>tk_used_at := Some (wall db)\<rparr>) (tokens db)" unfolding opens_def by blast
    have "tk_pk x \<le> seq db' \<and> tk_created_at x \<le> tk_expires_at x \<and> tk_created_at x \<le> wall db'" if x: "x \<in> set (tokens db')" for x
    proof -
      from x obtain y where y: "y \<in> set (tokens db)" "x = y \<or> x = y\<lparr>tk_used_at := Some (wall db)\<rparr>" unfolding t by (auto simp: set_update_where)
      with later [OF opened(3) y(1)] show ?thesis by auto
    qed
    then show ?thesis using ok by (simp add: tokens_dated_def t map_update_where)
  next
    case (pruned P Q)
    then show ?thesis using ok later [OF pruned(4)] by (simp add: tokens_dated_def distinct_map_filter)
  qed (use ok later in \<open>simp_all add: tokens_dated_def\<close>)
qed

lemma filter_later:
  fixes b c :: int
  assumes "b \<le> c" "filter (\<lambda>x. b < x) xs = filter (\<lambda>x. b < x) ys"
  shows "filter (\<lambda>x. c < x) xs = filter (\<lambda>x. c < x) ys"
proof -
  have "filter (\<lambda>x. c < x) zs = filter (\<lambda>x. c < x) (filter (\<lambda>x. b < x) zs)" for zs
    using assms(1) by (auto intro: filter_cong)
  then show ?thesis using assms(2) by metis
qed

lemma remembers_later:
  assumes "remembers tn u ts db" "tokens_dated db'" "forward db db'"
    "filter (\<lambda>x. wall db - OWNER_AUTH_KEEP < x) (link_times tn u (tokens db')) = filter (\<lambda>x. wall db - OWNER_AUTH_KEEP < x) (link_times tn u (tokens db))"
  shows "remembers tn u ts db'"
proof -
  have "wall db - OWNER_AUTH_KEEP \<le> wall db' - OWNER_AUTH_KEEP" using assms(3) by (simp add: forward_def)
  moreover have "filter (\<lambda>x. wall db - OWNER_AUTH_KEEP < x) ts = filter (\<lambda>x. wall db - OWNER_AUTH_KEEP < x) (link_times tn u (tokens db'))"
    using assms(1,4) by (simp add: remembers_def)
  ultimately have "filter (\<lambda>x. wall db' - OWNER_AUTH_KEEP < x) ts = filter (\<lambda>x. wall db' - OWNER_AUTH_KEEP < x) (link_times tn u (tokens db'))"
    by (rule filter_later)
  then show ?thesis using assms(1-3) unfolding remembers_def forward_def by (blast intro: order_trans)
qed

lemma remembers_step:
  assumes r: "remembers tn u (mailed tn u as) db" and step: "owner_step w db a db'"
  shows "remembers tn u (mailed tn u (as @ [a])) db'"
proof -
  have dated: "tokens_dated db'" using tokens_dated_step [OF _ step] r by (simp add: remembers_def)
  show ?thesis using step
  proof (cases rule: owner_step_cases)
    case (sent tn' u')
    then obtain t where t: "tokens db' = superseded tn' (usr_pk u') (wall db) (tokens db) @ [t]" "tk_created_at t = wall db" "tk_tenant t = tn_pk tn'" "tk_user t = usr_pk u'"
      unfolding links_to_def by blast
    have "link_times tn u (superseded tn' (usr_pk u') (wall db) (tokens db)) = link_times tn u (tokens db)" by (simp add: superseded_def)
    then show ?thesis using r dated sent(5) by (auto simp: remembers_def t sent(1))
  next
    case (opened tn' h s)
    then obtain t :: signin_token where t: "tokens db' = update_where (\<lambda>x. tk_pk x = tk_pk t) (\<lambda>x. x\<lparr>tk_used_at := Some (wall db)\<rparr>) (tokens db)" unfolding opens_def by blast
    have "remembers tn u (mailed tn u as) db'" by (rule remembers_later [OF r dated opened(3)]) (simp add: t)
    then show ?thesis by (simp add: opened(1) mailed_other)
  next
    case (pruned P Q)
    have "P t" if t: "t \<in> set (tokens db)" "wall db - OWNER_AUTH_KEEP < tk_created_at t" for t
    proof (rule ccontr)
      assume "\<not> P t"
      from pruned(5) [OF t(1) this] obtain t' where "t' \<in> set (tokens db)" "tk_pk t' = tk_pk t" "tk_expires_at t' < wall db - OWNER_AUTH_KEEP" by blast
      moreover from this t(1) r have "t' = t" by (auto simp: remembers_def tokens_dated_def distinct_map dest: inj_onD)
      ultimately show False using t r by (auto simp: remembers_def tokens_dated_def)
    qed
    then have "remembers tn u (mailed tn u as) db'"
      by (intro remembers_later [OF r dated pruned(4)]) (auto simp: pruned(2) link_times_def filter_map comp_def intro!: arg_cong [of _ _ "map tk_created_at"] filter_cong)
    then show ?thesis by (simp add: pruned(1) mailed_other)
  next
    case (touched s)
    have "remembers tn u (mailed tn u as) db'" by (rule remembers_later [OF r dated touched(3)]) (simp add: touched(2))
    then show ?thesis by (simp add: touched(1) mailed_other)
  next
    case same
    have "remembers tn u (mailed tn u as) db'" by (rule remembers_later [OF r dated same(6)]) (simp add: same(4))
    then show ?thesis by (simp add: mailed_other same(2))
  qed
qed

text \<open>What the throttle reads in the table is what it means to read.\<close>

lemma paced_step:
  assumes p: "paced ts" and r: "remembers (tn_pk tn) u ts db" and th: "throttled tn u (wall db) db = None"
  shows "paced (ts @ [wall db])"
proof -
  let ?mine = "tokens_of tn u db" and ?k = "wall db - OWNER_AUTH_KEEP"
  have lt: "link_times (tn_pk tn) u (tokens db) = map tk_created_at ?mine" by (simp add: link_times_def tokens_of_def)
  have old: "x \<in> tk_created_at ` set ?mine" if "x \<in> set ts" "?k < x" for x
  proof -
    have "filter (\<lambda>x. ?k < x) ts = filter (\<lambda>x. ?k < x) (map tk_created_at ?mine)" using r lt by (simp add: remembers_def)
    moreover have "x \<in> set (filter (\<lambda>x. ?k < x) ts)" using that by simp
    ultimately have "x \<in> set (filter (\<lambda>x. ?k < x) (map tk_created_at ?mine))" by metis
    then show ?thesis by simp
  qed
  have far: "x + seconds MIN_SECONDS_BETWEEN_LINKS \<le> wall db" if "x \<in> set ts" for x
  proof (cases "?k < x")
    case True
    then have x: "x \<in> set (map tk_created_at ?mine)" using old that by simp
    then have "x \<le> Max (set (map tk_created_at ?mine))" by simp
    moreover have "\<not> wall db - Max (set (map tk_created_at ?mine)) < seconds MIN_SECONDS_BETWEEN_LINKS"
      using th x by (auto simp: throttled_def Let_def split: if_splits)
    ultimately show ?thesis by linarith
  qed (simp add: OWNER_AUTH_KEEP_def MIN_SECONDS_BETWEEN_LINKS_def days_def seconds_def)
  have "filter (\<lambda>x. wall db - hours 1 < x) zs = filter (\<lambda>x. wall db - hours 1 < x) (filter (\<lambda>x. ?k < x) zs)" for zs
    by (auto intro!: filter_cong simp: OWNER_AUTH_KEEP_def days_def hours_def)
  then have "filter (\<lambda>x. wall db - hours 1 < x) ts = filter (\<lambda>x. wall db - hours 1 < x) (map tk_created_at ?mine)"
    using r lt unfolding remembers_def by metis
  moreover have "length (filter (\<lambda>t. wall db - hours 1 < tk_created_at t) ?mine) < MAX_LINKS_PER_HOUR"
    using th by (auto simp: throttled_def Let_def split: if_splits)
  ultimately have few: "length (filter (\<lambda>x. wall db - hours 1 < x) ts) < MAX_LINKS_PER_HOUR" by (simp add: filter_map comp_def)
  have "length (filter (\<lambda>x. t - hours 1 < x \<and> x \<le> t) (ts @ [wall db])) \<le> MAX_LINKS_PER_HOUR" for t
  proof (cases "wall db \<le> t")
    case True
    then have "length (filter (\<lambda>x. t - hours 1 < x \<and> x \<le> t) ts) \<le> length (filter (\<lambda>x. wall db - hours 1 < x) ts)"
      by (induction ts) auto
    with few show ?thesis by simp
  qed (use p in \<open>simp add: paced_def\<close>)
  then show ?thesis using p far by (auto simp: paced_def sorted_wrt_append)
qed

lemma paced_run: "owner_run w db as db' \<Longrightarrow> tokens db = [] \<Longrightarrow> remembers tn u (mailed tn u as) db' \<and> paced (mailed tn u as)"
proof (induction rule: owner_run.induct)
  case (more db as db1 a db2)
  then have r: "remembers tn u (mailed tn u as) db1" and p: "paced (mailed tn u as)" by auto
  have "paced (mailed tn u (as @ [a]))"
  proof (cases "\<exists>x. a = Asked x tn (Some u)")
    case True
    with more(2) obtain tn' where "a = Asked (wall db1) tn (Some u)" "tn_pk tn' = tn" "throttled tn' u (wall db1) db1 = None"
      by (auto elim!: owner_step_cases simp: links_to_def)
    with paced_step p r show ?thesis by auto
  next
    case False
    then have "mailed tn u (as @ [a]) = mailed tn u as" by (auto simp: mailed_def map_filter_def split: owner_act.splits option.splits)
    with p show ?thesis by simp
  qed
  with remembers_step [OF r more(2)] show ?case by simp
qed (simp add: remembers_def tokens_dated_def link_times_def mailed_def paced_def map_filter_def)


definition quiet_db :: owner_db where
  "quiet_db = linked_db\<lparr>tokens := []\<rparr>"

lemma quiet_address: "lower (strip ''Owner@example.com'') = ''owner@example.com''"
  by code_simp

lemma quiet_request: "\<exists>db'. request_sign_in owner_w sample_tenant ''Owner@example.com'' None sample_now quiet_db = (Inr ''sent'', db')"
proof -
  have "\<exists>db'. apply_request owner_w sample_tenant ''owner@example.com'' sample_now db = Inr ((''sent'', []), db')"
    if "tokens db = []" "users db = [sample_user]" "listings db = [sample_listing]" for db :: owner_db
    using that by (simp add: apply_request_def atomic_def sign_in_available_def owner_w_def has_absolute_base_def sample_tenant_def sample_user_def sample_listing_def
        owns_a_listing_def throttled_def tokens_of_def send_link_def expire_earlier_def enqueue_def create_token_def then_do_def Let_def MAX_LINKS_PER_HOUR_def)
  then obtain f where "apply_request owner_w sample_tenant ''owner@example.com'' sample_now db = Inr ((''sent'', []), f db)"
    if "tokens db = []" "users db = [sample_user]" "listings db = [sample_listing]" for db :: owner_db by metis
  then show ?thesis by (simp add: request_sign_in_def require_autocommit_def check_request_def check_def quiet_db_def linked_db_def allow_def log_received_def
        quiet_address Let_def)
qed


subsection \<open>How long a session lives\<close>

definition sessions_dated :: "owner_act list \<Rightarrow> 'z owner_db_scheme \<Rightarrow> bool" where
  "sessions_dated as db \<longleftrightarrow> distinct (map se_pk (sessions db)) \<and> (\<forall>s \<in> set (sessions db). se_pk s \<le> seq db \<and> se_expires_at s = se_created_at s + SESSION_ABSOLUTE
     \<and> se_created_at s \<le> wall db \<and> (\<exists>h. Entered (se_created_at s) (se_tenant s) h (Some (se_pk s)) \<in> set as)
     \<and> (se_last_seen_at s = se_created_at s \<or> Seen (se_last_seen_at s) (se_pk s) \<in> set as))"

text \<open>Whatever is left of the table, with the log grown and the clock moved on, is still in order.\<close>

lemma sessions_dated_less:
  assumes "sessions_dated as db" "forward db db'" "sessions db' = filter Q (sessions db)"
  shows "sessions_dated (as @ bs) db'"
  using assms by (auto simp: sessions_dated_def forward_def distinct_map_filter intro: order_trans)

lemma resolve_Some:
  assumes "resolve_session w tn cookie now db = (Some s, db')"
  obtains s0 where "s0 \<in> set (sessions db)" "se_tenant s0 = tn_pk tn" "now < se_expires_at s0" "now < se_last_seen_at s0 + SESSION_IDLE"
    "se_pk s = se_pk s0" "se_created_at s = se_created_at s0" "forward db db'"
    "sessions db' = sessions db \<or> sessions db' = update_where (\<lambda>x. se_pk x = se_pk s0) (\<lambda>x. x\<lparr>se_last_seen_at := now\<rparr>) (sessions db)"
  using assms by (auto simp: resolve_session_def forward_def dest!: find_SomeD split: if_splits option.splits)

lemma sessions_dated_step:
  assumes ok: "sessions_dated as db" and step: "owner_step w db a db'"
  shows "sessions_dated (as @ [a]) db'"
  using step
proof (cases rule: owner_step_cases)
  case (sent tn u)
  show ?thesis by (rule sessions_dated_less [OF ok sent(4), of "\<lambda>s. True"]) (simp add: sent(3))
next
  case (opened tn h s)
  then have s: "sessions db' = sessions db @ [s]" "se_tenant s = tn_pk tn" "se_created_at s = wall db" "se_last_seen_at s = wall db"
    "se_expires_at s = wall db + SESSION_ABSOLUTE" "seq db < se_pk s" "se_pk s \<le> seq db'" unfolding opens_def by blast+
  have "sessions_dated (as @ [a]) (db'\<lparr>sessions := sessions db\<rparr>)"
    by (rule sessions_dated_less [OF ok, of _ "\<lambda>s. True"]) (use opened(3) in \<open>simp_all add: forward_def\<close>)
  moreover have "se_pk s \<notin> se_pk ` set (sessions db)" using ok s(6) by (auto simp: sessions_dated_def)
  ultimately show ?thesis using s opened(1,4) by (auto simp: sessions_dated_def)
next
  case (pruned P Q)
  show ?thesis by (rule sessions_dated_less [OF ok pruned(4,3)])
next
  case (touched s)
  then obtain tn cookie where "resolve_session w tn cookie (wall db) db = (Some s, db')" by blast
  from resolve_Some [OF this] obtain s0 where s0: "s0 \<in> set (sessions db)" "se_pk s = se_pk s0"
    "sessions db' = sessions db \<or> sessions db' = update_where (\<lambda>x. se_pk x = se_pk s0) (\<lambda>x. x\<lparr>se_last_seen_at := wall db\<rparr>) (sessions db)" by metis
  have "sessions_dated (as @ [a]) (db'\<lparr>sessions := sessions db\<rparr>)"
    by (rule sessions_dated_less [OF ok, of _ "\<lambda>s. True"]) (use touched(3) in \<open>simp_all add: forward_def\<close>)
  then have old: "distinct (map se_pk (sessions db))" "x \<in> set (sessions db) \<Longrightarrow> se_pk x \<le> seq db' \<and> se_expires_at x = se_created_at x + SESSION_ABSOLUTE
     \<and> se_created_at x \<le> wall db' \<and> (\<exists>h. Entered (se_created_at x) (se_tenant x) h (Some (se_pk x)) \<in> set (as @ [a]))
     \<and> (se_last_seen_at x = se_created_at x \<or> Seen (se_last_seen_at x) (se_pk x) \<in> set (as @ [a]))" for x unfolding sessions_dated_def by auto
  from s0(3) show ?thesis
  proof
    assume e: "sessions db' = sessions db"
    show ?thesis unfolding sessions_dated_def e using old by blast
  next
    assume e: "sessions db' = update_where (\<lambda>x. se_pk x = se_pk s0) (\<lambda>x. x\<lparr>se_last_seen_at := wall db\<rparr>) (sessions db)"
    have "se_pk x \<le> seq db' \<and> se_expires_at x = se_created_at x + SESSION_ABSOLUTE
     \<and> se_created_at x \<le> wall db' \<and> (\<exists>h. Entered (se_created_at x) (se_tenant x) h (Some (se_pk x)) \<in> set (as @ [a]))
     \<and> (se_last_seen_at x = se_created_at x \<or> Seen (se_last_seen_at x) (se_pk x) \<in> set (as @ [a]))" if x: "x \<in> set (sessions db')" for x
    proof -
      from x obtain y where y: "y \<in> set (sessions db)" "x = (if se_pk y = se_pk s0 then y\<lparr>se_last_seen_at := wall db\<rparr> else y)"
        unfolding e by (auto simp: set_update_where)
      with old(2) [OF y(1)] show ?thesis by (auto simp: touched(1) s0(2))
    qed
    then show ?thesis using old(1) by (simp add: sessions_dated_def e map_update_where)
  qed
next
  case same
  show ?thesis by (rule sessions_dated_less [OF ok same(6), of "\<lambda>s. True"]) (simp add: same(5))
qed

lemma sessions_dated_run: "owner_run w db as db' \<Longrightarrow> sessions db = [] \<Longrightarrow> sessions_dated as db'"
  by (induction rule: owner_run.induct) (simp_all add: sessions_dated_step, simp add: sessions_dated_def)

text \<open>C33: A session a visit is answered with was opened, on the same tenant, by a successful sign-in less than thirty days ago, and it was opened or
  visited less than twelve hours ago. This holds in any run that starts with no sessions, whatever cookie the visit carries.\<close>

theorem session_lives_within_limits:
  assumes "owner_run w db as db1" "sessions db = []" "resolve_session w tn cookie (wall db1) db1 = (Some s, db2)"
  shows "\<exists>opened h seen. Entered opened (tn_pk tn) h (Some (se_pk s)) \<in> set as \<and> opened \<le> wall db1 \<and> wall db1 < opened + days 30
    \<and> (seen = opened \<or> Seen seen (se_pk s) \<in> set as) \<and> wall db1 < seen + hours 12"
proof -
  from resolve_Some [OF assms(3)] obtain s0 where s0: "s0 \<in> set (sessions db1)" "se_tenant s0 = tn_pk tn" "wall db1 < se_expires_at s0"
    "wall db1 < se_last_seen_at s0 + SESSION_IDLE" "se_pk s = se_pk s0" by metis
  with sessions_dated_run [OF assms(1,2)] obtain h where
    "se_expires_at s0 = se_created_at s0 + SESSION_ABSOLUTE" "se_created_at s0 \<le> wall db1" "Entered (se_created_at s0) (tn_pk tn) h (Some (se_pk s)) \<in> set as"
    "se_last_seen_at s0 = se_created_at s0 \<or> Seen (se_last_seen_at s0) (se_pk s) \<in> set as" by (auto simp: sessions_dated_def)
  with s0 show ?thesis unfolding SESSION_ABSOLUTE_def SESSION_IDLE_def
    by (intro exI [of _ "se_created_at s0"] exI [of _ h] exI [of _ "se_last_seen_at s0"]) simp
qed

theorem session_lives_within_limits_witness:
  "\<exists>opened h seen db1 as. \<exists>s :: owner_session. owner_run owner_w linked_db as db1 \<and> Entered opened 1 h (Some (se_pk s)) \<in> set as \<and> wall db1 < opened + days 30
    \<and> (seen = opened \<or> Seen seen (se_pk s) \<in> set as) \<and> wall db1 < seen + hours 12"
proof -
  have wl: "wall linked_db = sample_now" "sessions linked_db = []" "tn_pk sample_tenant = 1" by (simp_all add: linked_db_def sample_tenant_def)
  from linked_entry obtain s db1 where e: "sign_in owner_w sample_tenant ''x'' (wall linked_db) linked_db = (Inr (''xx'', s), db1)" by (auto simp: wl)
  from owner_run.more [OF owner_run.start owner_step.enter [OF e]]
  have run: "owner_run owner_w linked_db [Entered sample_now 1 ''x'' (Some (se_pk s))] db1" by (simp add: opened_pk_def wl owner_w_def)
  have "resolve_session owner_w sample_tenant ''xx'' (wall db1) db1 \<noteq> (None, d)" for d
    using e by (auto simp: sign_in_def require_autocommit_def linked_db_def log_received_def log_conclude_def apply_sign_in_def atomic_def owner_w_def sample_tenant_def
      owns_a_listing_def sample_listing_def new_session_def Let_def update_where_def numeral_2_eq_2 hours_def
      resolve_session_def SESSION_ABSOLUTE_def SESSION_IDLE_def TOUCH_INTERVAL_def days_def seconds_def split: if_splits)
  then obtain s' db2 where "resolve_session owner_w sample_tenant ''xx'' (wall db1) db1 = (Some s', db2)"
    by (metis option.exhaust surj_pair)
  from session_lives_within_limits [OF run wl(2) this] run show ?thesis unfolding wl by blast
qed

end
