(* ===== verification/Leads.thy ===== *)
theory Leads
  imports Claims Tick
begin

section \<open>Leads\<close>

text \<open>
  \<^verbatim>\<open>directory/leads.py\<close> (\<open>create_lead\<close>, \<open>reject_spam_trap\<close>, \<open>mark_lead_spam\<close>), the notices of \<^verbatim>\<open>directory/lead_notices.py\<close>, the limits of
  \<^verbatim>\<open>directory/lead_limits.py\<close> and the two notice jobs of \<^verbatim>\<open>directory/jobs.py\<close>. A lead is a visitor's message to a business; its owner,
  or the staff when it has none, is told by mail, at most once in fifteen minutes, with the number of new leads. The contact and
  the consent a visitor sends are JSON values, since the command checks their types itself. The errors are those of the claim
  commands.
\<close>

subsection \<open>Rows\<close>

record lead =
  ld_pk :: nat
  ld_tenant :: nat
  ld_listing :: nat
  ld_public_id :: string
  ld_kind :: string
  ld_name :: string
  ld_email :: string
  ld_phone :: string
  ld_message :: string
  ld_spam_score :: nat \<comment> \<open>in thousandths\<close>
  ld_marked_spam :: bool
  ld_spam_marked_by :: "nat option"
  ld_source_page :: string
  ld_status :: string
  ld_created_at :: instant

record lead_db = claim_db +
  leads :: "lead list"

text \<open>\<^verbatim>\<open>storable_ip\<close> of \<^verbatim>\<open>osds/client_ip.py\<close>: the address in canonical form if \<^verbatim>\<open>ipaddress\<close> can read it.\<close>

record lead_world = world +
  lw_address :: "string \<Rightarrow> string option"

definition storable_ip :: "'w lead_world_scheme \<Rightarrow> string option \<Rightarrow> string option" where
  "storable_ip w ip = (case ip of None \<Rightarrow> None | Some s \<Rightarrow> if s = [] then None else lw_address w s)"

definition LEAD_KINDS :: "string list" where
  "LEAD_KINDS = [''contact_form'', ''phone_reveal'', ''quote_request'', ''booking'', ''message'']"

abbreviation LeadRefused :: "string \<Rightarrow> claim_error" where
  "LeadRefused \<equiv> ReviewRefused"

subsection \<open>Constants\<close>

definition LEAD_CONSENT_TEXT_KEY :: string where
  "LEAD_CONSENT_TEXT_KEY = ''lead-consent''"

definition LEAD_CONSENT_CHANNEL :: string where
  "LEAD_CONSENT_CHANNEL = ''contact_by_business''"

definition DEFAULT_LEAD_CONSENT_BODY :: string where
  "DEFAULT_LEAD_CONSENT_BODY =
     ''By sending this message you agree that the business named above may contact you about your inquiry, using the email address and, if you gave one, the phone number you provided. We pass your message and contact details on to the business and keep a record of this agreement.''"

definition NAME_MAX :: nat where
  "NAME_MAX = 100"

definition MESSAGE_MIN :: nat where
  "MESSAGE_MIN = 10"

definition MESSAGE_MAX :: nat where
  "MESSAGE_MAX = 1000"

definition DUPLICATE_WINDOW :: duration where
  "DUPLICATE_WINDOW = hours 1"

definition SPAM_THRESHOLD :: nat where
  "SPAM_THRESHOLD = 800"

definition MODERATE_ROLE :: int where
  "MODERATE_ROLE = ROLE_MODERATOR"

definition CREATE_IP :: "limit_rule list" where
  "CREATE_IP = [\<lparr>lr_name = ''lead.create.ip.10m'', lr_limit = 6, lr_window = minutes 10\<rparr>,
     \<lparr>lr_name = ''lead.create.ip.24h'', lr_limit = 30, lr_window = hours 24\<rparr>]"

definition CREATE_EMAIL :: "limit_rule list" where
  "CREATE_EMAIL = [\<lparr>lr_name = ''lead.create.email.24h'', lr_limit = 10, lr_window = hours 24\<rparr>]"

definition SPAM_TRAP_IP :: "limit_rule list" where
  "SPAM_TRAP_IP = [\<lparr>lr_name = ''lead.spam_trap.ip.1h'', lr_limit = 3, lr_window = hours 1\<rparr>]"

definition check_create :: "'w world_scheme \<Rightarrow> tenant \<Rightarrow> string option \<Rightarrow> string \<Rightarrow> instant \<Rightarrow> 'z core_db_scheme \<Rightarrow> audit_error + verdict \<times> 'z core_db_scheme" where
  "check_create w tn ip mail_address = check (w_hmac w) (w_bucket w) tn [(''ip'', ip, CREATE_IP), (''email'', Some mail_address, CREATE_EMAIL)]"

definition check_spam_trap :: "'w world_scheme \<Rightarrow> tenant \<Rightarrow> string option \<Rightarrow> instant \<Rightarrow> 'z core_db_scheme \<Rightarrow> audit_error + verdict \<times> 'z core_db_scheme" where
  "check_spam_trap w tn ip = check (w_hmac w) (w_bucket w) tn [(''ip'', ip, SPAM_TRAP_IP)]"

subsection \<open>Switch and wording\<close>

definition leads_enabled :: "tenant \<Rightarrow> bool" where
  "leads_enabled tn = (case dict_get (settings_dict (tn_settings tn) ''leads'') ''enabled'' of None \<Rightarrow> False | Some v \<Rightarrow> truthy v)"

definition get_lead_consent_text :: "tenant \<Rightarrow> 'z claim_db_scheme \<Rightarrow> consent_text \<times> 'z claim_db_scheme" where
  "get_lead_consent_text tn db =
     (case find (\<lambda>t. ct_tenant t = tn_pk tn \<and> ct_key t = LEAD_CONSENT_TEXT_KEY \<and> ct_version t = ''v1'') (consent_texts db) of
        Some t \<Rightarrow> (t, db)
      | None \<Rightarrow>
          let t = \<lparr>ct_pk = Suc (seq db), ct_tenant = tn_pk tn, ct_key = LEAD_CONSENT_TEXT_KEY, ct_version = ''v1'', ct_body = DEFAULT_LEAD_CONSENT_BODY\<rparr>
          in (t, db\<lparr>consent_texts := consent_texts db @ [t], seq := Suc (seq db)\<rparr>))"

subsection \<open>The message\<close>

definition is_control :: "char \<Rightarrow> bool" where
  "is_control c = (let n = of_char c :: nat in n \<le> 8 \<or> n = 11 \<or> n = 12 \<or> (14 \<le> n \<and> n \<le> 31) \<or> n = 127)"

definition newline :: char where
  "newline = char_of (10::nat)"

definition carriage :: char where
  "carriage = char_of (13::nat)"

fun unix_lines :: "string \<Rightarrow> string" where
  "unix_lines [] = []"
| "unix_lines [c] = [if c = carriage then newline else c]"
| "unix_lines (c # d # s) = (if c = carriage \<and> d = newline then newline # unix_lines s else (if c = carriage then newline else c) # unix_lines (d # s))"

text \<open>Three newlines or more become two.\<close>

fun collapse_lines :: "string \<Rightarrow> string" where
  "collapse_lines (a # b # c # s) =
     (if a = newline \<and> b = newline \<and> c = newline then collapse_lines (b # c # s) else a # collapse_lines (b # c # s))"
| "collapse_lines s = s"

definition clean_message :: "string \<Rightarrow> string" where
  "clean_message s = strip (collapse_lines (unix_lines (filter (\<lambda>c. \<not> is_control c) s)))"

subsection \<open>The spam score\<close>

text \<open>The length of a match of \<^verbatim>\<open>https?://|www\.\<close> at the start, 0 for none; and the number of matches \<^verbatim>\<open>findall\<close> sees.\<close>

definition url_match :: "string \<Rightarrow> nat" where
  "url_match s =
     (let t = lower (take 8 s) in
      if starts_with t ''http://'' then 7 else if starts_with t ''https://'' then 8 else if starts_with t ''www.'' then 4 else 0)"

function count_urls :: "string \<Rightarrow> nat" where
  "count_urls [] = 0"
| "count_urls (c # s) = (let k = url_match (c # s) in if k = 0 then count_urls s else Suc (count_urls (drop (k - 1) s)))"
  by pat_completeness auto
termination by (relation "measure length") auto

fun has_run :: "string \<Rightarrow> bool" where
  "has_run [] = False"
| "has_run (c # s) = (c \<noteq> newline \<and> take 7 s = replicate 7 c \<or> has_run s)"

definition shouting :: "string \<Rightarrow> bool" where
  "shouting s =
     (let letters = filter (\<lambda>c. is_lower c \<or> is_upper c) s in
      20 \<le> length letters \<and> 7 * length letters < 10 * length (filter is_upper letters))"

text \<open>The signals with their weights in thousandths.\<close>

definition spam_signals :: "string \<Rightarrow> string \<Rightarrow> (string \<times> nat) list" where
  "spam_signals name msg =
     (let links = count_urls msg in
      (if 0 < links then [(''links_in_message'', min (350 * links) 700)] else [])
      @ (if shouting msg then [(''shouting'', 200)] else [])
      @ (if has_run msg then [(''repeated_characters'', 200)] else [])
      @ (if 0 < count_urls name \<or> CHR ''@'' \<in> set name then [(''link_or_address_in_name'', 300)] else []))"

definition spam_score :: "string \<Rightarrow> string \<Rightarrow> nat \<times> string list" where
  "spam_score name msg = (let ss = spam_signals name msg in (min (sum_list (map snd ss)) 1000, map fst ss))"

subsection \<open>Notices\<close>

definition OWNER_NOTICE_KIND :: string where
  "OWNER_NOTICE_KIND = ''lead.owner_notice''"

definition LEAD_NOTICE_KIND :: string where
  "LEAD_NOTICE_KIND = ''lead.operator_notice''"

definition OWNER_NOTICE_TTL :: duration where
  "OWNER_NOTICE_TTL = days 7"

definition LEAD_NOTICE_TTL :: duration where
  "LEAD_NOTICE_TTL = hours 48"

definition NOTICE_THROTTLE :: duration where
  "NOTICE_THROTTLE = minutes 15"

definition notices_to :: "tenant \<Rightarrow> string \<Rightarrow> string \<Rightarrow> 'z core_db_scheme \<Rightarrow> message list" where
  "notices_to tn kind address db = filter (\<lambda>m. ms_tenant m = tn_pk tn \<and> ms_kind m = kind \<and> to_address m = Some address) (mail db)"

definition last_sent :: "tenant \<Rightarrow> string \<Rightarrow> string \<Rightarrow> 'z core_db_scheme \<Rightarrow> instant option" where
  "last_sent tn kind address db =
     (case notices_to tn kind address db of [] \<Rightarrow> None | m # ms \<Rightarrow> Some (fold max (map ms_created_at ms) (ms_created_at m)))"

text \<open>The leads not marked as spam since an instant, on the listings that satisfy \<open>P\<close>.\<close>

definition leads_since :: "tenant \<Rightarrow> (listing \<Rightarrow> bool) \<Rightarrow> instant \<Rightarrow> 'z lead_db_scheme \<Rightarrow> lead list" where
  "leads_since tn P since db =
     filter (\<lambda>d. ld_tenant d = tn_pk tn \<and> \<not> ld_marked_spam d \<and> since < ld_created_at d
        \<and> (case find_by ls_pk (ld_listing d) (listings db) of None \<Rightarrow> False | Some l \<Rightarrow> P l)) (leads db)"

definition noun :: "nat \<Rightarrow> string" where
  "noun n = (if n = 1 then ''inquiry'' else ''inquiries'')"

definition HURRY_LINE :: string where
  "HURRY_LINE = nl @ nl @ ''You get at most one of these every 15 minutes, so the number may be higher by the time you look.''"

definition owner_notice_text :: "tenant \<Rightarrow> lead list \<Rightarrow> 'z lead_db_scheme \<Rightarrow> string" where
  "owner_notice_text tn ds db =
     ''You have '' @ nat_text (length ds) @ '' new '' @ noun (length ds) @ '' ''
     @ (case remdups (map ld_listing ds) of
          [pk] \<Rightarrow> ''on '' @ (case find_by ls_pk pk (listings db) of None \<Rightarrow> [] | Some l \<Rightarrow> ls_name l)
        | _ \<Rightarrow> ''across your listings on '' @ tn_name tn)
     @ ''.''
     @ (case link tn ''/owner/leads/'' of
          Some url \<Rightarrow> nl @ nl @ ''See them at: '' @ url
        | None \<Rightarrow> nl @ nl @ ''Sign in to your owner page on '' @ tn_name tn @ '' to see them.'')
     @ HURRY_LINE"

definition notify_owner :: "tenant \<Rightarrow> user \<Rightarrow> instant \<Rightarrow> 'z lead_db_scheme \<Rightarrow> claim_error + nat \<times> 'z lead_db_scheme" where
  "notify_owner tn u now db =
     (let address = lower (strip (usr_email u)); last = last_sent tn OWNER_NOTICE_KIND address db in
      if (case last of None \<Rightarrow> False | Some t \<Rightarrow> now - NOTICE_THROTTLE < t) then Inr (0, db)
      else let ds = leads_since tn (\<lambda>l. ls_owner l = Some (usr_pk u)) (case last of None \<Rightarrow> now - OWNER_NOTICE_TTL | Some t \<Rightarrow> t) db in
           if ds = [] then Inr (0, db)
           else then_do (claim_mail tn OWNER_NOTICE_KIND address (''New '' @ noun (length ds) @ '' on '' @ tn_name tn) (owner_notice_text tn ds db) (now + OWNER_NOTICE_TTL))
                  (\<lambda>m d. Inr (1, d)) db)"

definition lead_notice_text :: "tenant \<Rightarrow> nat \<Rightarrow> string" where
  "lead_notice_text tn n =
     nat_text n @ '' new '' @ noun n @ '' arrived on listings that no one has claimed on '' @ tn_name tn @ ''.''
     @ (case link tn ''/admin/leads/'' of Some url \<Rightarrow> nl @ nl @ ''See them at: '' @ url | None \<Rightarrow> []) @ HURRY_LINE"

text \<open>The recipients are those of the claim notices: active operators of the tenant from editor up.\<close>

definition notify_operator :: "tenant \<Rightarrow> instant \<Rightarrow> string \<Rightarrow> 'z lead_db_scheme \<Rightarrow> claim_error + nat \<times> 'z lead_db_scheme" where
  "notify_operator tn now address db =
     (let last = last_sent tn LEAD_NOTICE_KIND address db in
      if (case last of None \<Rightarrow> False | Some t \<Rightarrow> now - NOTICE_THROTTLE < t) then Inr (0, db)
      else let n = length (leads_since tn (\<lambda>l. ls_owner l = None) (case last of None \<Rightarrow> now - LEAD_NOTICE_TTL | Some t \<Rightarrow> t) db) in
           if n = 0 then Inr (0, db)
           else then_do (claim_mail tn LEAD_NOTICE_KIND address (''New '' @ noun n @ '' on unclaimed listings at '' @ tn_name tn) (lead_notice_text tn n) (now + LEAD_NOTICE_TTL))
                  (\<lambda>m d. Inr (1, d)) db)"

fun notify_each :: "tenant \<Rightarrow> instant \<Rightarrow> string list \<Rightarrow> 'z lead_db_scheme \<Rightarrow> claim_error + nat \<times> 'z lead_db_scheme" where
  "notify_each tn now [] db = Inr (0, db)"
| "notify_each tn now (a # as) db =
     then_do (notify_operator tn now a) (\<lambda>n. then_do (notify_each tn now as) (\<lambda>k d. Inr (n + k, d))) db"

definition notify_staff :: "tenant \<Rightarrow> instant \<Rightarrow> 'z lead_db_scheme \<Rightarrow> claim_error + nat \<times> 'z lead_db_scheme" where
  "notify_staff tn now db = notify_each tn now (operator_recipients tn db) db"

definition notify_for_lead :: "tenant \<Rightarrow> listing \<Rightarrow> instant \<Rightarrow> 'z lead_db_scheme \<Rightarrow> claim_error + nat \<times> 'z lead_db_scheme" where
  "notify_for_lead tn l now db =
     (case (case ls_owner l of None \<Rightarrow> None | Some pk \<Rightarrow> find_by usr_pk pk (users db)) of
        Some u \<Rightarrow> if strip (usr_email u) \<noteq> [] then notify_owner tn u now db else notify_staff tn now db
      | None \<Rightarrow> notify_staff tn now db)"

subsection \<open>Capturing a lead\<close>

record lead_facts =
  lf_name :: string
  lf_email :: string
  lf_phone :: "string option"
  lf_message :: string
  lf_kind :: string
  lf_source :: string

text \<open>The block that raises \<^verbatim>\<open>ValueError\<close>: \<open>Inl\<close> of its message, else the normalised lead and the consent object. A phone of white space
  alone is normalised to none.\<close>

definition normalize_lead :: "string \<Rightarrow> json \<Rightarrow> string \<Rightarrow> json \<Rightarrow> string \<Rightarrow> string + lead_facts \<times> dict" where
  "normalize_lead kind contact msg consent source_page =
     bind_result (mapping_arg contact ''contact'') (\<lambda>d.
     bind_result (mapping_arg consent ''consent'') (\<lambda>cs.
     bind_result (text_arg d ''email'' ''email'') (\<lambda>e.
     bind_result (text_arg d ''name'' ''name'') (\<lambda>nm.
     bind_result (text_arg d ''phone_e164'' ''phone'') (\<lambda>phone.
     case normalize_email e of
       None \<Rightarrow> Inl ''email is required''
     | Some address \<Rightarrow>
         let name = take NAME_MAX (case normalize_text nm of None \<Rightarrow> [] | Some t \<Rightarrow> t) in
         if name = [] then Inl ''name is required''
         else
         bind_result (case normalize_phone phone of Inl _ \<Rightarrow> Inl ''phone is not a valid E.164 number'' | Inr p \<Rightarrow> Inr (if phone = [] then Some [] else p)) (\<lambda>p.
         let text = clean_message msg in
         if \<not> (MESSAGE_MIN \<le> length text \<and> length text \<le> MESSAGE_MAX) then Inl ''the message must be 10 to 1000 characters''
         else if kind \<notin> set LEAD_KINDS then Inl ''kind is not one of booking, contact_form, message, phone_reveal, quote_request''
         else Inr (\<lparr>lf_name = name, lf_email = address, lf_phone = p, lf_message = text, lf_kind = kind, lf_source = take 500 source_page\<rparr>, cs)))))))"

definition new_lead :: "tenant \<Rightarrow> listing \<Rightarrow> lead_facts \<Rightarrow> string \<Rightarrow> 'z lead_db_scheme \<Rightarrow> lead" where
  "new_lead tn l lf phone db =
     (let (score, signals) = spam_score (lf_name lf) (lf_message lf) in
      \<lparr>ld_pk = Suc (seq db), ld_tenant = tn_pk tn, ld_listing = ls_pk l, ld_public_id = prefixed ''lead_'' (draw_ulid db), ld_kind = lf_kind lf,
       ld_name = lf_name lf, ld_email = lf_email lf, ld_phone = phone, ld_message = lf_message lf, ld_spam_score = score,
       ld_marked_spam = (SPAM_THRESHOLD \<le> score), ld_spam_marked_by = None, ld_source_page = lf_source lf, ld_status = ''captured'', ld_created_at = wall db\<rparr>)"

definition lead_consent :: "tenant \<Rightarrow> lead \<Rightarrow> string option \<Rightarrow> string \<Rightarrow> instant \<Rightarrow> 'z lead_db_scheme \<Rightarrow> consent" where
  "lead_consent tn d ip label now db =
     \<lparr>cn_pk = Suc (seq db), cn_tenant = tn_pk tn, cn_public_id = prefixed ''cns_'' (draw_ulid db), cn_claim = None, cn_lead = Some (ld_pk d),
      cn_channel = LEAD_CONSENT_CHANNEL, cn_granted = True, cn_granted_at = Some now, cn_ip = ip, cn_text_version = label\<rparr>"

definition captured_data :: "lead \<Rightarrow> listing \<Rightarrow> string option \<Rightarrow> string \<Rightarrow> instant \<Rightarrow> dict" where
  "captured_data d l ip label now =
     [(''lead'', JObj [(''id'', JStr (ld_public_id d)), (''kind'', JStr (ld_kind d)), (''name'', JStr (ld_name d)), (''email'', JStr (ld_email d)),
         (''phone_e164'', JStr (ld_phone d)), (''message'', JStr (ld_message d)), (''spam_score'', JDec (int (ld_spam_score d) * 1000))]),
      (''listing_id'', JStr (ls_public_id l)), (''source_page'', JStr (ld_source_page d)),
      (''consent'', JObj [(LEAD_CONSENT_CHANNEL, JObj [(''granted'', JBool True), (''at'', JStr (isoformat now)),
         (''ip'', case ip of Some s \<Rightarrow> str_or_null s | None \<Rightarrow> JNull), (''text_version'', JStr label)])])]"

definition VISITOR :: dict where
  "VISITOR = [(''type'', JStr ''visitor''), (''id'', JStr [])]"

definition spam_event :: "tenant \<Rightarrow> lead \<Rightarrow> dict \<Rightarrow> string \<Rightarrow> string list \<Rightarrow> 'z lead_db_scheme \<Rightarrow> claim_error + outbox_event \<times> 'z lead_db_scheme" where
  "spam_event tn d actor by signals =
     claim_emit LEAD_MARKED_SPAM (ld_public_id d) tn actor
       [(''lead_id'', JStr (ld_public_id d)), (''by'', JStr by), (''signals'', JList (map JStr signals))]"

definition insert_lead :: "tenant \<Rightarrow> listing \<Rightarrow> lead_facts \<Rightarrow> string option \<Rightarrow> string \<Rightarrow> instant \<Rightarrow> 'z lead_db_scheme \<Rightarrow> claim_error + (lead \<times> string \<times> bool) \<times> 'z lead_db_scheme" where
  "insert_lead tn l lf ip label now db =
     (case lf_phone lf of
        None \<Rightarrow> Inl ClaimIntegrity
      | Some phone \<Rightarrow>
          let d = new_lead tn l lf phone db; db1 = db\<lparr>leads := leads db @ [d], seq := Suc (seq db), draws := Suc (draws db)\<rparr>;
              db2 = db1\<lparr>consents := consents db1 @ [lead_consent tn d ip label now db1], seq := Suc (seq db1), draws := Suc (draws db1)\<rparr> in
          then_do (claim_emit LEAD_CAPTURED (ld_public_id d) tn VISITOR (captured_data d l ip label now)) (\<lambda>ev.
          then_do (if ld_marked_spam d
                   then then_do (spam_event tn d [(''type'', JStr ''system''), (''id'', JStr [])] ''system'' (snd (spam_score (lf_name lf) (lf_message lf)))) (\<lambda>e2 d'. Inr ((), d'))
                   else then_do (notify_for_lead tn l now) (\<lambda>n d'. Inr ((), d')))
            (\<lambda>u d'. Inr ((d, event_id ev, False), d'))) db2)"

definition find_duplicate :: "tenant \<Rightarrow> listing \<Rightarrow> lead_facts \<Rightarrow> instant \<Rightarrow> 'z lead_db_scheme \<Rightarrow> lead option" where
  "find_duplicate tn l lf now db =
     find (\<lambda>d. ld_tenant d = tn_pk tn \<and> ld_listing d = ls_pk l \<and> ld_email d = lf_email lf \<and> ld_message d = lf_message lf \<and> now - DUPLICATE_WINDOW < ld_created_at d)
       (rev (leads db))"

definition apply_create_lead :: "tenant \<Rightarrow> listing \<Rightarrow> lead_facts \<Rightarrow> dict \<Rightarrow> string option \<Rightarrow> 'z lead_db_scheme \<Rightarrow> claim_error + (lead \<times> string \<times> bool) \<times> 'z lead_db_scheme" where
  "apply_create_lead tn given lf cs ip = atomic (\<lambda>db.
     if \<not> leads_enabled tn then Inl (ClaimSchemaError [''inquiries are not enabled for this directory''])
     else case find (\<lambda>l. ls_pk l = ls_pk given \<and> ls_tenant l = tn_pk tn) (listings db) of
       None \<Rightarrow> Inl DoesNotExist
     | Some l \<Rightarrow>
         if visibility l \<noteq> V_PUBLISHED \<or> ls_status l = L_SUSPENDED then Inl (ClaimSchemaError [''this listing is not accepting inquiries''])
         else if \<not> granted cs LEAD_CONSENT_CHANNEL then Inl (ConsentRequired LEAD_CONSENT_CHANNEL)
         else let (text, db1) = get_lead_consent_text tn db; now = wall db1 in
           (case find_duplicate tn l lf now db1 of
              Some d \<Rightarrow> Inr ((d, [], True), db1)
            | None \<Rightarrow> insert_lead tn l lf ip (consent_label text) now db1))"

definition create_lead :: "'w lead_world_scheme \<Rightarrow> tenant \<Rightarrow> listing \<Rightarrow> string \<Rightarrow> json \<Rightarrow> string \<Rightarrow> json \<Rightarrow> string \<Rightarrow> string option \<Rightarrow> 'z lead_db_scheme
    \<Rightarrow> (claim_error + lead) \<times> 'z lead_db_scheme" where
  "create_lead w tn l kind contact msg consent source_page ip db =
     (case require_autocommit db of
        Inl e \<Rightarrow> (Inl (ClaimAudit e), db)
      | Inr _ \<Rightarrow>
     (case normalize_lead kind contact msg consent source_page of
        Inl text \<Rightarrow>
          (case log_received ''lead.create'' (Some (tn_pk tn)) None VISITOR [] [] None db of
             (row, d) \<Rightarrow> (Inl (ClaimSchemaError [text]), log_conclude row ''rejected'' [] (Some (JObj [(''payload'', JStr text)])) None d))
      | Inr (lf, cs) \<Rightarrow>
          let payload = [(''listing_id'', JStr (ls_public_id l)), (''kind'', JStr kind), (''consent'', JObj cs)] in
          (case check_create w tn ip (lf_email lf) (wall db) db of
             Inl e \<Rightarrow> (Inl (ClaimAudit e), db)
           | Inr (v, db1) \<Rightarrow>
               if \<not> allowed v then (Inl (RateLimited v), blocked_row ''lead.create'' tn VISITOR payload v db1)
               else (case log_received ''lead.create'' (Some (tn_pk tn)) None VISITOR [] [] (Some (JObj payload)) db1 of
                 (row, db2) \<Rightarrow>
                   (case apply_create_lead tn l lf cs (storable_ip w ip) db2 of
                      Inl (ConsentRequired ch) \<Rightarrow> (Inl (ConsentRequired ch), log_conclude row ''rejected'' [] (Some (JObj [(''missing_consent'', JStr ch)])) None db2)
                    | Inl (ClaimSchemaError es) \<Rightarrow> (Inl (ClaimSchemaError es), log_conclude row ''rejected'' [] (Some (JObj [(''errors'', JList (map JStr es))])) None db2)
                    | Inl e \<Rightarrow> (Inl e, db2)
                    | Inr ((d, eid, duplicate), db3) \<Rightarrow>
                        (Inr d, log_conclude row ''applied'' eid (if duplicate then Some (JObj [(''duplicate_of'', JStr (ld_public_id d))]) else None) None db3))))))"

definition reject_spam_trap :: "'w lead_world_scheme \<Rightarrow> tenant \<Rightarrow> listing \<Rightarrow> string option \<Rightarrow> 'z lead_db_scheme \<Rightarrow> (claim_error + unit) \<times> 'z lead_db_scheme" where
  "reject_spam_trap w tn l ip db =
     (case require_autocommit db of
        Inl e \<Rightarrow> (Inl (ClaimAudit e), db)
      | Inr _ \<Rightarrow>
     (case check_spam_trap w tn ip (wall db) db of
        Inl e \<Rightarrow> (Inl (ClaimAudit e), db)
      | Inr (v, db1) \<Rightarrow>
          if allowed v then (Inr (), db1)
          else (Inl (RateLimited v), blocked_row ''lead.create'' tn VISITOR [(''listing_id'', JStr (ls_public_id l)), (''spam_trap'', JBool True)] v db1)))"

subsection \<open>Marking spam\<close>

definition apply_mark_spam :: "tenant \<Rightarrow> lead \<Rightarrow> operator \<Rightarrow> membership option \<Rightarrow> dict \<Rightarrow> 'z lead_db_scheme \<Rightarrow> claim_error + (lead \<times> string) \<times> 'z lead_db_scheme" where
  "apply_mark_spam tn given oper m actor db =
     (if (case m of None \<Rightarrow> True | Some mb \<Rightarrow> mb_role mb < MODERATE_ROLE) then Inl (LeadRefused ''forbidden'')
      else case find (\<lambda>d. ld_pk d = ld_pk given \<and> ld_tenant d = tn_pk tn) (leads db) of
        None \<Rightarrow> Inl DoesNotExist
      | Some d \<Rightarrow>
          if ld_marked_spam d then Inl (LeadRefused ''already_marked'')
          else let mark = (\<lambda>x. x\<lparr>ld_marked_spam := True, ld_spam_marked_by := Some (op_pk oper)\<rparr>) in
            then_do (spam_event tn d actor (op_public_id oper) [''moderator'']) (\<lambda>ev d'. Inr ((mark d, event_id ev), d'))
              (db\<lparr>leads := update_where (\<lambda>x. ld_pk x = ld_pk d) mark (leads db)\<rparr>))"

definition mark_lead_spam :: "tenant \<Rightarrow> lead \<Rightarrow> operator \<Rightarrow> 'z lead_db_scheme \<Rightarrow> (claim_error + lead) \<times> 'z lead_db_scheme" where
  "mark_lead_spam tn d oper = review_command tn ''lead.mark_spam'' oper [(''lead_id'', JStr (ld_public_id d))] (apply_mark_spam tn d oper)"

subsection \<open>The notices a throttle deferred\<close>

definition owners_waiting :: "tenant \<Rightarrow> instant \<Rightarrow> 'z lead_db_scheme \<Rightarrow> user list" where
  "owners_waiting tn now db =
     filter (\<lambda>u. usr_tenant u = tn_pk tn \<and> leads_since tn (\<lambda>l. ls_owner l = Some (usr_pk u)) (now - OWNER_NOTICE_TTL) db \<noteq> []) (users db)"

fun flush_owners :: "tenant \<Rightarrow> instant \<Rightarrow> nat \<Rightarrow> nat \<Rightarrow> user list \<Rightarrow> 'z lead_db_scheme \<Rightarrow> claim_error + (nat \<times> bool) \<times> 'z lead_db_scheme" where
  "flush_owners tn now limit queued [] db = Inr ((queued, False), db)"
| "flush_owners tn now limit queued (u # us) db =
     (if limit \<le> queued then Inr ((queued, True), db)
      else then_do (notify_owner tn u now) (\<lambda>n. flush_owners tn now limit (queued + n) us) db)"

definition flush_tenant :: "tenant \<Rightarrow> instant \<Rightarrow> nat \<Rightarrow> 'z lead_db_scheme \<Rightarrow> claim_error + (nat \<times> bool) \<times> 'z lead_db_scheme" where
  "flush_tenant tn now limit db =
     then_do (flush_owners tn now limit 0 (owners_waiting tn now db)) (\<lambda>(queued, stopped) d.
       if stopped then Inr ((queued, True), d)
       else if leads_since tn (\<lambda>l. ls_owner l = None) (now - LEAD_NOTICE_TTL) d \<noteq> []
       then then_do (notify_staff tn now) (\<lambda>n d'. Inr ((queued + n, False), d')) d
       else Inr ((queued, False), d)) db"

definition LEAD_FLUSH_LIMIT :: nat where
  "LEAD_FLUSH_LIMIT = 200"

text \<open>One transaction per tenant; an exception ends the call, with what was committed before.\<close>

fun flush_leads :: "instant \<Rightarrow> nat \<Rightarrow> bool \<Rightarrow> tenant list \<Rightarrow> 'z lead_db_scheme \<Rightarrow> (claim_error + tick_result) \<times> 'z lead_db_scheme" where
  "flush_leads now queued waiting [] db = (Inr \<lparr>tick_done = queued, tick_more = waiting\<rparr>, db)"
| "flush_leads now queued waiting (tn # tns) db =
     (if LEAD_FLUSH_LIMIT \<le> queued then (Inr \<lparr>tick_done = queued, tick_more = True\<rparr>, db)
      else case atomic (flush_tenant tn now (LEAD_FLUSH_LIMIT - queued)) db of
        Inl e \<Rightarrow> (Inl e, db)
      | Inr ((n, stopped), d) \<Rightarrow> flush_leads now (queued + n) (waiting \<or> stopped) tns d)"

definition lead_notice_flush :: "instant \<Rightarrow> 'z lead_db_scheme \<Rightarrow> (claim_error + tick_result) \<times> 'z lead_db_scheme" where
  "lead_notice_flush now db =
     flush_leads now 0 False
       (filter (\<lambda>tn. tn_status tn \<noteq> ''suspended'' \<and> list_ex (\<lambda>d. ld_tenant d = tn_pk tn \<and> \<not> ld_marked_spam d \<and> now - OWNER_NOTICE_TTL < ld_created_at d) (leads db))
         (tenants db)) db"

fun flush_claims :: "instant \<Rightarrow> nat \<Rightarrow> tenant list \<Rightarrow> 'z claim_db_scheme \<Rightarrow> (claim_error + tick_result) \<times> 'z claim_db_scheme" where
  "flush_claims now queued [] db = (Inr \<lparr>tick_done = queued, tick_more = False\<rparr>, db)"
| "flush_claims now queued (tn # tns) db =
     (case atomic (flush_operator_notices tn now) db of
        Inl e \<Rightarrow> (Inl e, db)
      | Inr (n, d) \<Rightarrow> flush_claims now (queued + n) tns d)"

definition claim_notice_flush :: "instant \<Rightarrow> 'z claim_db_scheme \<Rightarrow> (claim_error + tick_result) \<times> 'z claim_db_scheme" where
  "claim_notice_flush now db =
     (let cutoff = now - OPERATOR_NOTICE_TTL in
      flush_claims now 0
        (filter (\<lambda>tn. tn_status tn \<noteq> ''suspended''
           \<and> (list_ex (\<lambda>c. cl_tenant c = tn_pk tn \<and> cl_status c = C_PENDING \<and> cutoff < cl_updated_at c) (claims db)
              \<or> list_ex (\<lambda>it. it_tenant it = tn_pk tn \<and> it_open it \<and> it_type it = I_DISPUTE \<and> cutoff < it_created_at it) (items db))) (tenants db)) db)"

end
