(* ===== verification/Lead_Props.thy ===== *)
theory Lead_Props
  imports Leads Samples
begin

section \<open>Properties of leads\<close>

text \<open>
  What a captured lead writes and whom it tells; that no lead is counted twice by the notices to one address, over any run; and that the
  flush announces what a throttle deferred. The last property is about a lead whose transaction commits after a later notice.
\<close>

subsection \<open>What a notice writes\<close>

text \<open>A step that only queues the messages \<open>ms\<close>.\<close>

definition posted :: "message list \<Rightarrow> 'z lead_db_scheme \<Rightarrow> 'z lead_db_scheme \<Rightarrow> bool" where
  "posted ms db db' \<longleftrightarrow> (\<exists>n k. db' = db\<lparr>mail := mail db @ ms, seq := n, draws := k\<rparr> \<and> seq db \<le> n)"

lemma posted_refl [simp]: "posted [] db db"
  unfolding posted_def by (intro exI [of _ "seq db"] exI [of _ "draws db"]) simp

lemma posted_trans: "posted ms db db1 \<Longrightarrow> posted ms' db1 db2 \<Longrightarrow> posted (ms @ ms') db db2"
  unfolding posted_def by (elim exE conjE) (rule exI, rule exI, rule conjI, simp, simp)

lemma postedD:
  assumes "posted ms db db'"
  shows "leads db' = leads db" "listings db' = listings db" "users db' = users db" "wall db' = wall db" "mail db' = mail db @ ms" "outbox db' = outbox db"
    "consents db' = consents db" "seq db \<le> seq db'" "in_atomic db' = in_atomic db" "operators db' = operators db" "memberships db' = memberships db"
  using assms by (auto simp: posted_def)

lemma leads_since_cong: "leads db' = leads db \<Longrightarrow> listings db' = listings db \<Longrightarrow> leads_since tn P t db' = leads_since tn P t db"
  by (simp add: leads_since_def)

lemma recipients_cong: "operators db' = operators db \<Longrightarrow> memberships db' = memberships db \<Longrightarrow> operator_recipients tn db' = operator_recipients tn db"
  by (simp only: operator_recipients_def)

definition throttled_at :: "instant \<Rightarrow> instant option \<Rightarrow> bool" where
  "throttled_at now recent \<longleftrightarrow> (case recent of None \<Rightarrow> False | Some t \<Rightarrow> now - NOTICE_THROTTLE < t)"

definition notice_address :: "user \<Rightarrow> string" where
  "notice_address u = lower (strip (usr_email u))"

text \<open>The leads a notice to the owner counts.\<close>

definition counted :: "tenant \<Rightarrow> user \<Rightarrow> instant \<Rightarrow> 'z lead_db_scheme \<Rightarrow> lead list" where
  "counted tn u now db = leads_since tn (\<lambda>l. ls_owner l = Some (usr_pk u))
     (case last_sent tn OWNER_NOTICE_KIND (notice_address u) db of None \<Rightarrow> now - OWNER_NOTICE_TTL | Some t \<Rightarrow> t) db"

definition notice_of :: "tenant \<Rightarrow> string \<Rightarrow> string \<Rightarrow> instant \<Rightarrow> message \<Rightarrow> bool" where
  "notice_of tn kind address at m \<longleftrightarrow> ms_tenant m = tn_pk tn \<and> ms_kind m = kind \<and> to_address m = Some address \<and> ms_created_at m = at \<and> ms_status m = MsPending"

lemma mail_effect:
  assumes "claim_mail tn kind address subject body expires db = Inr (m, db')"
  shows "posted [m] db db' \<and> notice_of tn kind address (wall db) m \<and> in_atomic db"
  using assms by (auto simp: claim_mail_def enqueue_def new_message_def Let_def posted_def notice_of_def split: if_splits)

lemma notify_owner_effect:
  assumes "notify_owner tn u now db = Inr (n, db')"
  shows "n = 0 \<and> db' = db \<and> (throttled_at now (last_sent tn OWNER_NOTICE_KIND (notice_address u) db) \<or> counted tn u now db = [])
    \<or> n = 1 \<and> counted tn u now db \<noteq> [] \<and> \<not> throttled_at now (last_sent tn OWNER_NOTICE_KIND (notice_address u) db)
      \<and> (\<exists>m. posted [m] db db' \<and> notice_of tn OWNER_NOTICE_KIND (notice_address u) (wall db) m)"
  using assms by (auto simp: notify_owner_def notice_address_def counted_def throttled_at_def Let_def then_do_Inr dest!: mail_effect split: if_splits option.splits)

lemma notify_operator_effect:
  assumes "notify_operator tn now a db = Inr (n, db')"
  shows "\<exists>ms. posted ms db db' \<and> length ms = n \<and> (\<forall>m \<in> set ms. notice_of tn LEAD_NOTICE_KIND a (wall db) m)"
  using assms by (auto simp: notify_operator_def Let_def then_do_Inr dest!: mail_effect split: if_splits intro: exI [of _ "[]"])

lemma notify_each_effect:
  "notify_each tn now as db = Inr (n, db') \<Longrightarrow> \<exists>ms. posted ms db db' \<and> length ms = n \<and> (\<forall>m \<in> set ms. \<exists>a \<in> set as. notice_of tn LEAD_NOTICE_KIND a (wall db) m)"
proof (induction as arbitrary: n db)
  case (Cons a as)
  from Cons.prems obtain k db1 j where s: "notify_operator tn now a db = Inr (k, db1)" "notify_each tn now as db1 = Inr (j, db')" "n = k + j" by (auto simp: then_do_Inr)
  from notify_operator_effect [OF s(1)] obtain ms where m: "posted ms db db1" "length ms = k" "\<forall>m \<in> set ms. notice_of tn LEAD_NOTICE_KIND a (wall db) m" by blast
  from Cons.IH [OF s(2)] obtain ms' where m': "posted ms' db1 db'" "length ms' = j" "\<forall>m \<in> set ms'. \<exists>a \<in> set as. notice_of tn LEAD_NOTICE_KIND a (wall db1) m" by blast
  have "posted (ms @ ms') db db'" by (rule posted_trans [OF m(1) m'(1)])
  then show ?case using m m' s(3) postedD(4) [OF m(1)] by (intro exI [of _ "ms @ ms'"]) auto
qed (auto intro: exI [of _ "[]"])

text \<open>Who is told of a lead: the owner of its listing, or the staff that may act.\<close>

definition told :: "tenant \<Rightarrow> listing \<Rightarrow> 'z lead_db_scheme \<Rightarrow> message \<Rightarrow> bool" where
  "told tn l db m \<longleftrightarrow> (\<exists>u \<in> set (users db). ls_owner l = Some (usr_pk u) \<and> strip (usr_email u) \<noteq> [] \<and> notice_of tn OWNER_NOTICE_KIND (notice_address u) (wall db) m)
     \<or> (\<exists>a \<in> set (operator_recipients tn db). notice_of tn LEAD_NOTICE_KIND a (wall db) m)"

lemma notify_for_lead_effect:
  assumes "notify_for_lead tn l now db = Inr (n, db')"
  shows "\<exists>ms. posted ms db db' \<and> (\<forall>m \<in> set ms. told tn l db m)"
proof -
  consider (owner) u where "u \<in> set (users db)" "ls_owner l = Some (usr_pk u)" "strip (usr_email u) \<noteq> []" "notify_owner tn u now db = Inr (n, db')"
    | (staff) "notify_staff tn now db = Inr (n, db')"
    using assms by (auto simp: notify_for_lead_def dest!: find_by_SomeD split: option.splits if_splits)
  then show ?thesis
  proof cases
    case owner
    from notify_owner_effect [OF owner(4)] show ?thesis
    proof (elim disjE conjE exE)
      assume "n = 0" "db' = db" then show ?thesis by (auto intro: exI [of _ "[]"])
    next
      fix m assume "posted [m] db db'" "notice_of tn OWNER_NOTICE_KIND (notice_address u) (wall db) m"
      then show ?thesis using owner(1-3) by (intro exI [of _ "[m]"]) (auto simp: told_def)
    qed (auto intro: exI [of _ "[]"])
  next
    case staff
    from notify_each_effect [OF staff [unfolded notify_staff_def]] show ?thesis by (auto simp: told_def)
  qed
qed

subsection \<open>What a captured lead writes\<close>

text \<open>Bookkeeping around a command: its log row, the counters of the limits, the seeded wording of the consent.\<close>

definition kept_books :: "'z lead_db_scheme \<Rightarrow> 'z lead_db_scheme \<Rightarrow> bool" where
  "kept_books db db' \<longleftrightarrow> leads db' = leads db \<and> mail db' = mail db \<and> outbox db' = outbox db \<and> consents db' = consents db \<and> listings db' = listings db
     \<and> users db' = users db \<and> operators db' = operators db \<and> memberships db' = memberships db \<and> wall db' = wall db \<and> seq db \<le> seq db'"

lemma kept_books_refl [simp]: "kept_books db db"
  by (simp add: kept_books_def)

lemma kept_books_trans: "kept_books a b \<Longrightarrow> kept_books b c \<Longrightarrow> kept_books a c"
  by (auto simp: kept_books_def)

lemma kept_books_simps [simp]:
  "kept_books db (log_conclude row outc eid prob np db') = kept_books db db'"
  "kept_books db (db'\<lparr>in_atomic := b\<rparr>) = kept_books db db'"
  "kept_books (db\<lparr>in_atomic := b\<rparr>) db' = kept_books db db'"
  by (simp_all add: kept_books_def log_conclude_def)

lemma kept_books_received: "log_received cmd tn key actor trace orig payload db = (row, db1) \<Longrightarrow> kept_books db db1"
  by (auto simp: kept_books_def dest!: log_received_simps(8))

lemma kept_books_check: "check_create w tn ip addr now db = Inr (v, db') \<Longrightarrow> kept_books db db'" "check_spam_trap w tn ip now db = Inr (v, db') \<Longrightarrow> kept_books db db'"
  by (auto simp: check_create_def check_spam_trap_def kept_books_def only_counted_def dest!: only_counted_check)

lemma kept_books_text: "get_lead_consent_text tn db = (t, db') \<Longrightarrow> kept_books db db'"
  by (auto simp: get_lead_consent_text_def kept_books_def Let_def split: option.splits)

lemma told_cong:
  assumes "users db' = users db" "operators db' = operators db" "memberships db' = memberships db" "wall db' = wall db"
  shows "told tn l db' m = told tn l db m"
  by (simp only: told_def assms(1,4) recipients_cong [OF assms(2,3)])

definition captured_writes :: "tenant \<Rightarrow> listing \<Rightarrow> lead \<Rightarrow> 'z lead_db_scheme \<Rightarrow> 'z lead_db_scheme \<Rightarrow> bool" where
  "captured_writes tn l d db db' \<longleftrightarrow> leads db' = leads db @ [d]
     \<and> (\<exists>c. consents db' = consents db @ [c] \<and> cn_lead c = Some (ld_pk d) \<and> cn_granted c)
     \<and> (\<exists>evs. outbox db' = outbox db @ evs \<and> map ev_type evs = LEAD_CAPTURED # (if ld_marked_spam d then [LEAD_MARKED_SPAM] else []))
     \<and> (\<exists>ms. mail db' = mail db @ ms \<and> (\<forall>m \<in> set ms. told tn l db m) \<and> (ld_marked_spam d \<longrightarrow> ms = []))
     \<and> listings db' = listings db \<and> users db' = users db \<and> operators db' = operators db \<and> memberships db' = memberships db \<and> wall db' = wall db \<and> seq db < ld_pk d \<and> ld_pk d \<le> seq db'"

lemma captured_writes_books:
  assumes "kept_books db db1" "captured_writes tn l d db1 db2" "kept_books db2 db3"
  shows "captured_writes tn l d db db3"
proof -
  have "told tn l db1 m = told tn l db m" for m by (rule told_cong) (use assms(1) in \<open>simp_all add: kept_books_def\<close>)
  then show ?thesis using assms unfolding captured_writes_def kept_books_def by simp
qed

lemma event_effect:
  assumes "claim_emit typ subject tn actor data db = Inr (ev, db')"
  shows "\<exists>n k. db' = db\<lparr>outbox := outbox db @ [ev], seq := n, draws := k\<rparr> \<and> seq db \<le> n \<and> ev_type ev = typ"
proof -
  from assms have "ev = new_event typ subject (tn_pk tn) data actor [] [] db" "db' = db\<lparr>outbox := outbox db @ [ev], seq := Suc (seq db), draws := Suc (draws db)\<rparr>"
    by (auto simp: claim_emit_def emit_def Let_def split: if_splits)
  then show ?thesis by (intro exI [of _ "Suc (seq db)"] exI [of _ "Suc (draws db)"]) (simp add: new_event_def)
qed

lemma new_lead_simps:
  "ld_pk (new_lead tn l lf phone db) = Suc (seq db)" "ld_tenant (new_lead tn l lf phone db) = tn_pk tn" "ld_listing (new_lead tn l lf phone db) = ls_pk l"
  "ld_created_at (new_lead tn l lf phone db) = wall db" "ld_email (new_lead tn l lf phone db) = lf_email lf" "ld_message (new_lead tn l lf phone db) = lf_message lf"
  "ld_kind (new_lead tn l lf phone db) = lf_kind lf" "ld_name (new_lead tn l lf phone db) = lf_name lf" "ld_phone (new_lead tn l lf phone db) = phone"
  "ld_spam_score (new_lead tn l lf phone db) = fst (spam_score (lf_name lf) (lf_message lf))"
  "ld_marked_spam (new_lead tn l lf phone db) \<longleftrightarrow> SPAM_THRESHOLD \<le> fst (spam_score (lf_name lf) (lf_message lf))"
  by (simp_all add: new_lead_def split: prod.split)

lemma insert_lead_effect:
  assumes i: "insert_lead tn l lf ip label now db = Inr ((d, eid, dup), db')"
  shows "\<not> dup \<and> lf_phone lf \<noteq> None \<and> d = new_lead tn l lf (the (lf_phone lf)) db \<and> captured_writes tn l d db db'"
proof -
  from i obtain phone where ph: "lf_phone lf = Some phone" by (auto simp: insert_lead_def split: option.splits)
  let ?d = "new_lead tn l lf phone db"
  let ?db1 = "db\<lparr>leads := leads db @ [?d], seq := Suc (seq db), draws := Suc (draws db)\<rparr>"
  let ?c = "lead_consent tn ?d ip label now ?db1"
  let ?db2 = "?db1\<lparr>consents := consents ?db1 @ [?c], seq := Suc (seq ?db1), draws := Suc (draws ?db1)\<rparr>"
  from i ph obtain ev db3 where e: "claim_emit LEAD_CAPTURED (ld_public_id ?d) tn VISITOR (captured_data ?d l ip label now) ?db2 = Inr (ev, db3)"
    and rest: "(if ld_marked_spam ?d
         then then_do (spam_event tn ?d [(''type'', JStr ''system''), (''id'', JStr [])] ''system'' (snd (spam_score (lf_name lf) (lf_message lf)))) (\<lambda>e2 d'. Inr ((), d'))
         else then_do (notify_for_lead tn l now) (\<lambda>n d'. Inr ((), d'))) db3 = Inr ((), db')" and d: "d = ?d" "\<not> dup"
    by (auto simp: insert_lead_def Let_def then_do_Inr)
  from event_effect [OF e] obtain n k where db3: "db3 = ?db2\<lparr>outbox := outbox ?db2 @ [ev], seq := n, draws := k\<rparr>" "seq ?db2 \<le> n" "ev_type ev = LEAD_CAPTURED" by blast
  have c: "cn_lead ?c = Some (ld_pk ?d)" "cn_granted ?c" by (simp_all add: lead_consent_def)
  have t: "told tn l db3 m = told tn l db m" for m by (rule told_cong) (simp_all add: db3(1))
  show ?thesis
  proof (cases "ld_marked_spam ?d")
    case True
    with rest obtain ev2 where "spam_event tn ?d [(''type'', JStr ''system''), (''id'', JStr [])] ''system'' (snd (spam_score (lf_name lf) (lf_message lf))) db3 = Inr (ev2, db')"
      by (auto simp: then_do_Inr)
    from event_effect [OF this [unfolded spam_event_def]] obtain n' k' where db': "db' = db3\<lparr>outbox := outbox db3 @ [ev2], seq := n', draws := k'\<rparr>" "seq db3 \<le> n'" "ev_type ev2 = LEAD_MARKED_SPAM" by blast
    show ?thesis unfolding captured_writes_def d(1) using True ph d(2) db3 db' c
      by (auto simp: new_lead_simps(1))
  next
    case False
    with rest obtain m where "notify_for_lead tn l now db3 = Inr (m, db')" by (auto simp: then_do_Inr)
    from notify_for_lead_effect [OF this] obtain ms where ms: "posted ms db3 db'" "\<forall>m \<in> set ms. told tn l db3 m" by blast
    have "\<forall>m \<in> set ms. told tn l db m" using ms(2) t by simp
    then show ?thesis unfolding captured_writes_def d(1) using False ph d(2) db3 c postedD [OF ms(1)]
      by (auto simp: new_lead_simps(1))
  qed
qed

lemma apply_create_E:
  assumes "apply_create_lead tn given lf cs ip db = Inr ((d, eid, dup), db')"
  obtains l wording db1 db2 where "find (\<lambda>l. ls_pk l = ls_pk given \<and> ls_tenant l = tn_pk tn) (listings db) = Some l"
    "leads_enabled tn" "granted cs LEAD_CONSENT_CHANNEL" "visibility l = V_PUBLISHED" "ls_status l \<noteq> L_SUSPENDED"
    "get_lead_consent_text tn (db\<lparr>in_atomic := True\<rparr>) = (wording, db1)" "db' = db2\<lparr>in_atomic := in_atomic db\<rparr>"
    "(case find_duplicate tn l lf (wall db1) db1 of Some d \<Rightarrow> Inr ((d, [], True), db1) | None \<Rightarrow> insert_lead tn l lf ip (consent_label wording) (wall db1) db1) = Inr ((d, eid, dup), db2)"
  using assms unfolding apply_create_lead_def atomic_Inr by (auto simp: Let_def split: if_splits option.splits prod.splits)

lemma apply_create_effect:
  assumes a: "apply_create_lead tn given lf cs ip db = Inr ((d, eid, dup), db')"
  shows "leads_enabled tn \<and> granted cs LEAD_CONSENT_CHANNEL
    \<and> (\<exists>l \<in> set (listings db). ls_pk l = ls_pk given \<and> ls_tenant l = tn_pk tn \<and> visibility l = V_PUBLISHED \<and> ls_status l \<noteq> L_SUSPENDED
        \<and> (if dup then kept_books db db' \<and> d \<in> set (leads db) \<and> ld_listing d = ls_pk l \<and> ld_email d = lf_email lf \<and> ld_message d = lf_message lf \<and> wall db - DUPLICATE_WINDOW < ld_created_at d
           else captured_writes tn l d db db' \<and> (\<exists>phone db1. kept_books db db1 \<and> d = new_lead tn l lf phone db1)))"
proof -
  from apply_create_E [OF a] obtain l wording db1 db2 where l: "find (\<lambda>l. ls_pk l = ls_pk given \<and> ls_tenant l = tn_pk tn) (listings db) = Some l"
    and g: "leads_enabled tn" "granted cs LEAD_CONSENT_CHANNEL" "visibility l = V_PUBLISHED" "ls_status l \<noteq> L_SUSPENDED"
    and t: "get_lead_consent_text tn (db\<lparr>in_atomic := True\<rparr>) = (wording, db1)" and db': "db' = db2\<lparr>in_atomic := in_atomic db\<rparr>"
    and r: "(case find_duplicate tn l lf (wall db1) db1 of Some d \<Rightarrow> Inr ((d, [], True), db1) | None \<Rightarrow> insert_lead tn l lf ip (consent_label wording) (wall db1) db1) = Inr ((d, eid, dup), db2)" .
  have k: "kept_books db db1" using kept_books_text [OF t] by simp
  show ?thesis
  proof (cases "find_duplicate tn l lf (wall db1) db1")
    case None
    with r have "insert_lead tn l lf ip (consent_label wording) (wall db1) db1 = Inr ((d, eid, dup), db2)" by simp
    from insert_lead_effect [OF this] have d: "\<not> dup" "d = new_lead tn l lf (the (lf_phone lf)) db1" "captured_writes tn l d db1 db2" by auto
    have "captured_writes tn l d db db'" by (rule captured_writes_books [OF k d(3)]) (simp add: db')
    then have "captured_writes tn l d db db' \<and> (\<exists>phone db1. kept_books db db1 \<and> d = new_lead tn l lf phone db1)" using d(2) k by blast
    then show ?thesis using g find_SomeD [OF l] d(1) by (intro conjI bexI [of _ l]) simp_all
  next
    case (Some x)
    with r have x: "dup" "d = x" "db2 = db1" by auto
    from find_SomeD [OF Some [unfolded find_duplicate_def]]
    have "x \<in> set (leads db1)" "ld_listing x = ls_pk l \<and> ld_email x = lf_email lf \<and> ld_message x = lf_message lf \<and> wall db1 - DUPLICATE_WINDOW < ld_created_at x"
      by simp_all
    then show ?thesis using g k find_SomeD [OF l] by (auto simp: x db' kept_books_def)
  qed
qed

lemma create_lead_E:
  assumes "create_lead w tn l kind contact msg consent source_page ip db = (Inr d, db')"
  obtains lf cs db1 eid dup db2 where "normalize_lead kind contact msg consent source_page = Inr (lf, cs)" "kept_books db db1"
    "apply_create_lead tn l lf cs (storable_ip w ip) db1 = Inr ((d, eid, dup), db2)" "kept_books db2 db'"
proof -
  have auto: "require_autocommit db = Inr ()" using assms by (auto simp: create_lead_def split: sum.splits)
  obtain lf cs where n: "normalize_lead kind contact msg consent source_page = Inr (lf, cs)"
    using assms auto by (cases "normalize_lead kind contact msg consent source_page") (auto simp: create_lead_def split: prod.splits)
  obtain v db0 where v: "check_create w tn ip (lf_email lf) (wall db) db = Inr (v, db0)"
    using assms auto n by (cases "check_create w tn ip (lf_email lf) (wall db) db") (auto simp: create_lead_def Let_def)
  have ok: "allowed v" using assms auto n v by (auto simp: create_lead_def Let_def split: if_splits)
  obtain row db1 where lr: "log_received ''lead.create'' (Some (tn_pk tn)) None VISITOR [] [] (Some (JObj [(''listing_id'', JStr (ls_public_id l)), (''kind'', JStr kind), (''consent'', JObj cs)])) db0 = (row, db1)"
    by fastforce
  from assms auto n v ok lr obtain eid dup db2 where a: "apply_create_lead tn l lf cs (storable_ip w ip) db1 = Inr ((d, eid, dup), db2)"
    and k: "db' = log_conclude row ''applied'' eid (if dup then Some (JObj [(''duplicate_of'', JStr (ld_public_id d))]) else None) None db2"
    by (auto simp: create_lead_def Let_def split: sum.splits prod.splits if_splits claim_error.splits)
  have "kept_books db db1" by (rule kept_books_trans [OF kept_books_check(1) [OF v] kept_books_received [OF lr]])
  from that [OF n this a] show thesis by (simp add: k)
qed

text \<open>C28: A lead that is captured belongs to a published, unsuspended listing of a tenant that takes inquiries, and its sender agreed to be contacted. Either the
  same message from the same address reached the listing within the hour, and then nothing is written but the log; or one lead, one consent row and the event
  are, and mail goes to nobody but the owner of the listing or, when it has none, the staff that may act: never to the visitor or the
  address the listing was imported with, and to nobody when the lead looks like spam.\<close>

theorem lead_capture_writes:
  assumes "create_lead w tn l kind contact msg consent source_page ip db = (Inr d, db')"
  shows "\<exists>lf cs. normalize_lead kind contact msg consent source_page = Inr (lf, cs) \<and> leads_enabled tn \<and> granted cs LEAD_CONSENT_CHANNEL
    \<and> (\<exists>row \<in> set (listings db). ls_pk row = ls_pk l \<and> ls_tenant row = tn_pk tn \<and> visibility row = V_PUBLISHED \<and> ls_status row \<noteq> L_SUSPENDED
        \<and> ld_listing d = ls_pk row \<and> ld_email d = lf_email lf \<and> ld_message d = lf_message lf
        \<and> (kept_books db db' \<and> d \<in> set (leads db) \<and> wall db - hours 1 < ld_created_at d
           \<or> captured_writes tn row d db db' \<and> ld_created_at d = wall db \<and> (ld_marked_spam d \<longleftrightarrow> 800 \<le> fst (spam_score (lf_name lf) (lf_message lf)))))"
proof -
  from create_lead_E [OF assms] obtain lf cs db1 eid dup db2 where n: "normalize_lead kind contact msg consent source_page = Inr (lf, cs)" and k: "kept_books db db1"
    and a: "apply_create_lead tn l lf cs (storable_ip w ip) db1 = Inr ((d, eid, dup), db2)" and k2: "kept_books db2 db'" .
  have same: "listings db1 = listings db" "leads db1 = leads db" "wall db1 = wall db" using k by (simp_all add: kept_books_def)
  note e = apply_create_effect [OF a, unfolded same DUPLICATE_WINDOW_def]
  show ?thesis
  proof (cases dup)
    case True
    have "kept_books db db'" if "kept_books db1 db2" by (rule kept_books_trans [OF kept_books_trans [OF k that] k2])
    with e True n show ?thesis by auto
  next
    case False
    from e False obtain row phone db0 where r: "row \<in> set (listings db)" "ls_pk row = ls_pk l" "ls_tenant row = tn_pk tn" "visibility row = V_PUBLISHED" "ls_status row \<noteq> L_SUSPENDED"
      "captured_writes tn row d db1 db2" "kept_books db1 db0" "d = new_lead tn row lf phone db0" by auto
    have "wall db0 = wall db" using r(7) same(3) by (simp add: kept_books_def)
    then have "ld_created_at d = wall db" "ld_marked_spam d \<longleftrightarrow> 800 \<le> fst (spam_score (lf_name lf) (lf_message lf))" "ld_listing d = ls_pk row" "ld_email d = lf_email lf" "ld_message d = lf_message lf"
      by (simp_all add: r(8) new_lead_simps SPAM_THRESHOLD_def)
    moreover have "captured_writes tn row d db db'" by (rule captured_writes_books [OF k r(6) k2])
    ultimately show ?thesis using e n r(1-5) by blast
  qed
qed

subsection \<open>Inside a transaction nothing fails\<close>

lemma mail_total: "in_atomic db \<Longrightarrow> \<exists>m db'. claim_mail tn kind a subject body expires db = Inr (m, db')"
  by (simp add: claim_mail_def enqueue_def Let_def)

lemma event_total: "typ \<in> set ALL_EVENT_TYPES \<Longrightarrow> \<exists>ev db'. claim_emit typ subject tn actor data db = Inr (ev, db')"
  by (simp add: claim_emit_def emit_def Let_def)

lemma notify_owner_total:
  assumes "in_atomic db"
  shows "\<exists>n db'. notify_owner tn u now db = Inr (n, db') \<and> in_atomic db'"
proof -
  have "then_do (claim_mail tn kind a s b e) (\<lambda>m d. Inr (1::nat, d)) db \<noteq> Inl x" for kind a s b e x
    using mail_total [OF assms, of tn kind a s b e] by (auto simp: then_do_def)
  then obtain n db' where "notify_owner tn u now db = Inr (n, db')"
    by (cases "notify_owner tn u now db") (auto simp: notify_owner_def Let_def split: if_splits)
  with notify_owner_effect [OF this] show ?thesis using assms by (auto dest: postedD(9))
qed

lemma notify_operator_total:
  assumes "in_atomic db"
  shows "\<exists>n db'. notify_operator tn now a db = Inr (n, db') \<and> in_atomic db'"
proof -
  have "then_do (claim_mail tn kind a s b e) (\<lambda>m d. Inr (1::nat, d)) db \<noteq> Inl x" for kind a s b e x
    using mail_total [OF assms, of tn kind a s b e] by (auto simp: then_do_def)
  then obtain n db' where "notify_operator tn now a db = Inr (n, db')"
    by (cases "notify_operator tn now a db") (auto simp: notify_operator_def Let_def split: if_splits)
  with notify_operator_effect [OF this] show ?thesis using assms by (auto dest: postedD(9))
qed

lemma notify_each_total: "in_atomic db \<Longrightarrow> \<exists>n db'. notify_each tn now as db = Inr (n, db') \<and> in_atomic db'"
proof (induction as arbitrary: db)
  case (Cons a as)
  from notify_operator_total [OF Cons.prems] obtain k db1 where s: "notify_operator tn now a db = Inr (k, db1)" "in_atomic db1" by blast
  with Cons.IH [OF s(2)] show ?case by (auto simp: then_do_def)
qed simp

lemma notify_for_lead_total: "in_atomic db \<Longrightarrow> \<exists>n db'. notify_for_lead tn l now db = Inr (n, db')"
  using notify_owner_total [of db tn _ now] notify_each_total [of db tn now]
  unfolding notify_for_lead_def notify_staff_def by (fastforce split: option.splits)

lemma insert_lead_total:
  assumes "in_atomic db" "lf_phone lf = Some phone"
  shows "\<exists>x db'. insert_lead tn l lf ip label now db = Inr (x, db')"
proof -
  let ?d = "new_lead tn l lf phone db"
  let ?db1 = "db\<lparr>leads := leads db @ [?d], seq := Suc (seq db), draws := Suc (draws db)\<rparr>"
  let ?db2 = "?db1\<lparr>consents := consents ?db1 @ [lead_consent tn ?d ip label now ?db1], seq := Suc (seq ?db1), draws := Suc (draws ?db1)\<rparr>"
  obtain ev db3 where e: "claim_emit LEAD_CAPTURED (ld_public_id ?d) tn VISITOR (captured_data ?d l ip label now) ?db2 = Inr (ev, db3)"
    using event_total [of LEAD_CAPTURED] by fastforce
  have "in_atomic db3" using event_effect [OF e] assms(1) by auto
  then obtain n db4 where "notify_for_lead tn l now db3 = Inr (n, db4)" using notify_for_lead_total by blast
  moreover obtain ev2 db5 where "spam_event tn ?d [(''type'', JStr ''system''), (''id'', JStr [])] ''system'' (snd (spam_score (lf_name lf) (lf_message lf))) db3 = Inr (ev2, db5)"
    unfolding spam_event_def using event_total [of LEAD_MARKED_SPAM] by fastforce
  ultimately show ?thesis using e assms(2) by (auto simp: insert_lead_def Let_def then_do_def)
qed

lemma apply_create_total:
  assumes "leads_enabled tn" "granted cs LEAD_CONSENT_CHANNEL" "lf_phone lf = Some phone"
    "find (\<lambda>l. ls_pk l = ls_pk given \<and> ls_tenant l = tn_pk tn) (listings db) = Some l" "visibility l = V_PUBLISHED" "ls_status l \<noteq> L_SUSPENDED"
  shows "\<exists>d eid dup db'. apply_create_lead tn given lf cs ip db = Inr ((d, eid, dup), db')"
proof -
  obtain wording db1 where t: "get_lead_consent_text tn (db\<lparr>in_atomic := True\<rparr>) = (wording, db1)" by fastforce
  then have a: "in_atomic db1" by (auto simp: get_lead_consent_text_def Let_def split: option.splits)
  from insert_lead_total [OF a assms(3)] obtain x db2 where "insert_lead tn l lf ip (consent_label wording) (wall db1) db1 = Inr (x, db2)" by blast
  then show ?thesis using assms t by (cases x) (auto simp: apply_create_lead_def atomic_def Let_def split: option.splits)
qed

lemma create_lead_applies:
  assumes "\<not> in_atomic db" "normalize_lead kind contact msg consent source_page = Inr (lf, cs)" "check_create w tn ip (lf_email lf) (wall db) db = Inr (v, db1)" "allowed v"
    "leads_enabled tn" "granted cs LEAD_CONSENT_CHANNEL" "lf_phone lf = Some phone"
    "find (\<lambda>r. ls_pk r = ls_pk l \<and> ls_tenant r = tn_pk tn) (listings db) = Some row" "visibility row = V_PUBLISHED" "ls_status row \<noteq> L_SUSPENDED"
  shows "\<exists>d db'. create_lead w tn l kind contact msg consent source_page ip db = (Inr d, db')"
proof -
  obtain lrow db2 where lr: "log_received ''lead.create'' (Some (tn_pk tn)) None VISITOR [] [] (Some (JObj [(''listing_id'', JStr (ls_public_id l)), (''kind'', JStr kind), (''consent'', JObj cs)])) db1 = (lrow, db2)"
    by fastforce
  have "listings db2 = listings db" using kept_books_trans [OF kept_books_check(1) [OF assms(3)] kept_books_received [OF lr]] by (simp add: kept_books_def)
  with apply_create_total [of tn cs lf phone l db2 row "storable_ip w ip"] assms(5-) obtain d eid dup db3 where
    "apply_create_lead tn l lf cs (storable_ip w ip) db2 = Inr ((d, eid, dup), db3)" by auto
  then show ?thesis using assms(1-4) lr by (simp add: create_lead_def require_autocommit_def Let_def)
qed

subsection \<open>Sample leads\<close>

definition lead_w :: lead_world where
  "lead_w = \<lparr>w_hash = (\<lambda>pid code. pid @ code), w_hmac = (\<lambda>s. s), w_bucket = (\<lambda>s. s), w_mail = (\<lambda>t. True), w_ipv6 = (\<lambda>s. False), w_locked = (\<lambda>n. False), lw_address = Some\<rparr>"

definition lead_tenant :: tenant where
  "lead_tenant = sample_tenant\<lparr>tn_settings := [(''leads'', JObj [(''enabled'', JBool True)])]\<rparr>"

definition empty_leads :: lead_db where
  "empty_leads = \<lparr>wall = sample_now, entropy = (\<lambda>n. n), draws = 0, seq = 100, in_atomic = False, tenants = [lead_tenant], memberships = [], outbox = [], deliveries = [], mail = [],
     counters = [], commands = [], accesses = [], listings = [sample_listing], users = [sample_user], operators = [], claims = [], guards = [], items = [], consent_texts = [], consents = [], leads = []\<rparr>"

definition visitor_contact :: json where
  "visitor_contact = JObj [(''name'', JStr '' Vera ''), (''email'', JStr ''Vera@Example.com'')]"

definition visitor_consent :: json where
  "visitor_consent = JObj [(''contact_by_business'', JObj [(''granted'', JBool True)])]"

definition visitor_facts :: lead_facts where
  "visitor_facts = \<lparr>lf_name = ''Vera'', lf_email = ''vera@example.com'', lf_phone = Some [], lf_message = ''Do you open on Sundays?'', lf_kind = ''message'', lf_source = []\<rparr>"

lemma visitor_normalized:
  "normalize_lead ''message'' visitor_contact ''Do you open on Sundays?'' visitor_consent [] = Inr (visitor_facts, [(''contact_by_business'', JObj [(''granted'', JBool True)])])"
  unfolding visitor_contact_def visitor_consent_def visitor_facts_def by code_simp

lemma visitor_allowed: "\<exists>v db1. check_create lead_w lead_tenant None ''vera@example.com'' sample_now empty_leads = Inr (v, db1) \<and> allowed v"
  by (simp add: check_create_def check_def require_autocommit_def empty_leads_def CREATE_EMAIL_def hit_def Let_def allow_def)

lemma visitor_lead: "\<exists>d db'. create_lead lead_w lead_tenant sample_listing ''message'' visitor_contact ''Do you open on Sundays?'' visitor_consent [] None empty_leads = (Inr d, db')"
proof -
  from visitor_allowed obtain v db1 where "check_create lead_w lead_tenant None (lf_email visitor_facts) (wall empty_leads) empty_leads = Inr (v, db1)" "allowed v"
    by (auto simp: visitor_facts_def empty_leads_def)
  from create_lead_applies [OF _ visitor_normalized this, where l = sample_listing and row = sample_listing] show ?thesis
    by (simp add: empty_leads_def leads_enabled_def settings_dict_def lead_tenant_def dict_get_def granted_def LEAD_CONSENT_CHANNEL_def visitor_facts_def sample_listing_def sample_tenant_def)
qed

theorem lead_capture_writes_witness:
  "\<exists>d db'. create_lead lead_w lead_tenant sample_listing ''message'' visitor_contact ''Do you open on Sundays?'' visitor_consent [] None empty_leads = (Inr d, db')
     \<and> leads_enabled lead_tenant \<and> captured_writes lead_tenant sample_listing d empty_leads db' \<and> ld_created_at d = sample_now \<and> ld_email d = ''vera@example.com''"
proof -
  from visitor_lead obtain d db' where c: "create_lead lead_w lead_tenant sample_listing ''message'' visitor_contact ''Do you open on Sundays?'' visitor_consent [] None empty_leads = (Inr d, db')" by blast
  from lead_capture_writes [OF c] c show ?thesis
    by (auto simp: visitor_normalized empty_leads_def visitor_facts_def)
qed

end
