(* ===== verification/Lead_Runs.thy ===== *)
theory Lead_Runs
  imports Lead_Props Retention
begin

section \<open>Runs of lead notices\<close>

text \<open>
  The notices to the owners of listings over any run of the system. A run is a sequence of notices, each labelled with its address and the
  leads it counted, between which anything else may happen: leads captured, marked or deleted, listings changing hands, old addresses
  nulled by the retention sweep. No lead is counted twice for an address; a flush leaves no lead of the last week unannounced unless
  the owner was told within the quarter hour; and a lead that commits after a later notice is never announced.
\<close>

subsection \<open>What the mail table remembers\<close>

definition sent :: "tenant \<Rightarrow> 'z core_db_scheme \<Rightarrow> (string \<times> instant) set" where
  "sent tn db = {(a, ms_created_at m) | a m. m \<in> set (mail db) \<and> ms_tenant m = tn_pk tn \<and> ms_kind m = OWNER_NOTICE_KIND \<and> to_address m = Some a}"

lemma fold_max: "fold max xs (y :: 'a :: linorder) \<in> set (y # xs) \<and> (\<forall>x \<in> set (y # xs). x \<le> fold max xs y)"
proof (induction xs arbitrary: y)
  case (Cons x xs)
  from Cons.IH [of "max x y"] show ?case by (auto simp: max_def split: if_splits)
qed simp

lemma in_notices: "(a, t) \<in> sent tn db \<longleftrightarrow> t \<in> ms_created_at ` set (notices_to tn OWNER_NOTICE_KIND a db)"
  by (auto simp: sent_def notices_to_def)

lemma last_sent_Some:
  assumes "last_sent tn OWNER_NOTICE_KIND a db = Some t"
  shows "(a, t) \<in> sent tn db" "(a, s) \<in> sent tn db \<Longrightarrow> s \<le> t"
proof -
  from assms obtain m ms where n: "notices_to tn OWNER_NOTICE_KIND a db = m # ms" "t = fold max (map ms_created_at ms) (ms_created_at m)"
    by (auto simp: last_sent_def split: list.splits)
  have f: "t \<in> set (ms_created_at m # map ms_created_at ms)" "\<forall>x \<in> set (ms_created_at m # map ms_created_at ms). x \<le> t"
    using fold_max [of "map ms_created_at ms" "ms_created_at m"] by (simp_all add: n(2))
  show "(a, t) \<in> sent tn db" using f(1) by (auto simp: in_notices n(1))
  show "s \<le> t" if "(a, s) \<in> sent tn db" using f(2) that by (auto simp: in_notices n(1))
qed

lemma last_sent_None: "last_sent tn OWNER_NOTICE_KIND a db = None \<Longrightarrow> (a, t) \<notin> sent tn db"
  by (auto simp: in_notices last_sent_def split: list.splits)

lemma sent_posted: "posted ms db db' \<Longrightarrow> sent tn db' = sent tn db \<union> {(a, ms_created_at m) | a m. m \<in> set ms \<and> ms_tenant m = tn_pk tn \<and> ms_kind m = OWNER_NOTICE_KIND \<and> to_address m = Some a}"
  unfolding sent_def by (auto simp: postedD(5))

lemma sent_notice:
  assumes "posted [m] db db'" "notice_of tn OWNER_NOTICE_KIND a (wall db) m"
  shows "sent tn db' = insert (a, wall db) (sent tn db)"
  using assms(2) by (auto simp: sent_posted [OF assms(1)] notice_of_def)

subsection \<open>Runs\<close>

definition leads_ok :: "'z lead_db_scheme \<Rightarrow> bool" where
  "leads_ok db \<longleftrightarrow> distinct (map ld_pk (leads db)) \<and> (\<forall>d \<in> set (leads db). ld_pk d \<le> seq db \<and> ld_created_at d \<le> wall db)"

text \<open>Anything but a notice to an owner of the tenant. A new lead may carry any time up to the present, since its transaction may have begun long
  before it committed.\<close>

definition goes_on :: "tenant \<Rightarrow> 'z lead_db_scheme \<Rightarrow> 'z lead_db_scheme \<Rightarrow> bool" where
  "goes_on tn db db' \<longleftrightarrow> wall db \<le> wall db' \<and> seq db \<le> seq db' \<and> leads_ok db'
     \<and> (\<forall>d' \<in> set (leads db'). seq db < ld_pk d' \<or> (\<exists>d \<in> set (leads db). ld_pk d = ld_pk d' \<and> ld_created_at d = ld_created_at d'))
     \<and> sent tn db' \<subseteq> sent tn db \<and> (\<forall>a t. (a, t) \<in> sent tn db \<longrightarrow> wall db' - RETENTION \<le> t \<or> (\<exists>s \<le> t. (a, s) \<in> sent tn db') \<longrightarrow> (a, t) \<in> sent tn db')"

text \<open>The time a pass carries is that of its start, at most a day ago.\<close>

inductive lead_run :: "tenant \<Rightarrow> 'z lead_db_scheme \<Rightarrow> (string \<times> nat list) list \<Rightarrow> 'z lead_db_scheme \<Rightarrow> bool" for tn where
  start: "lead_run tn db [] db"
| notice: "lead_run tn db as db1 \<Longrightarrow> notify_owner tn u now db1 = Inr (1, db2) \<Longrightarrow> wall db1 - days 1 \<le> now
     \<Longrightarrow> lead_run tn db (as @ [(notice_address u, map ld_pk (counted tn u now db1))]) db2"
| between: "lead_run tn db as db1 \<Longrightarrow> goes_on tn db1 db2 \<Longrightarrow> lead_run tn db as db2"

definition counted_for :: "string \<Rightarrow> (string \<times> nat list) list \<Rightarrow> nat list" where
  "counted_for a as = concat (map snd (filter (\<lambda>x. fst x = a) as))"

lemma counted_for_simps [simp]:
  "counted_for a [] = []" "counted_for a (as @ [(b, ks)]) = counted_for a as @ (if b = a then ks else [])"
  by (simp_all add: counted_for_def)

text \<open>A lead the owner at \<open>a\<close> will not be told of any more: it is no newer than a notice, or all notices are forgotten and it is older still.\<close>

definition passed :: "tenant \<Rightarrow> string \<Rightarrow> instant \<Rightarrow> 'z lead_db_scheme \<Rightarrow> bool" where
  "passed tn a at db \<longleftrightarrow> (\<exists>t. (a, t) \<in> sent tn db \<and> at \<le> t) \<or> (\<forall>t. (a, t) \<notin> sent tn db) \<and> at < wall db - RETENTION"

definition passed_all :: "tenant \<Rightarrow> string \<Rightarrow> nat set \<Rightarrow> 'z lead_db_scheme \<Rightarrow> bool" where
  "passed_all tn a ks db \<longleftrightarrow> leads_ok db \<and> (\<forall>k \<in> ks. k \<le> seq db) \<and> (\<forall>d \<in> set (leads db). ld_pk d \<in> ks \<longrightarrow> passed tn a (ld_created_at d) db)"

lemma counted_in: "d \<in> set (counted tn u now db) \<Longrightarrow> d \<in> set (leads db)"
  by (simp add: counted_def leads_since_def)

lemma counted_not_passed:
  assumes "d \<in> set (counted tn u now db)" "wall db - days 1 \<le> now"
  shows "\<not> passed tn (notice_address u) (ld_created_at d) db"
proof (cases "last_sent tn OWNER_NOTICE_KIND (notice_address u) db")
  case None
  with assms(1) have "now - OWNER_NOTICE_TTL < ld_created_at d" by (simp add: counted_def leads_since_def)
  then show ?thesis using assms(2) last_sent_None [OF None] by (auto simp: passed_def OWNER_NOTICE_TTL_def RETENTION_def days_def)
next
  case (Some t)
  with assms(1) have "t < ld_created_at d" by (simp add: counted_def leads_since_def)
  then show ?thesis using last_sent_Some [OF Some] by (fastforce simp: passed_def)
qed

lemma passed_goes_on:
  assumes "passed tn a at db" "goes_on tn db db'"
  shows "passed tn a at db'"
proof (cases "\<exists>s. (a, s) \<in> sent tn db'")
  case True
  then obtain s where s: "(a, s) \<in> sent tn db'" "(a, s) \<in> sent tn db" using assms(2) by (auto simp: goes_on_def)
  with assms(1) obtain t where t: "(a, t) \<in> sent tn db" "at \<le> t" by (auto simp: passed_def)
  then have "(a, t) \<in> sent tn db' \<or> at \<le> s" using s assms(2) unfolding goes_on_def by (meson linorder_le_cases order_trans)
  then show ?thesis using s(1) t(2) by (auto simp: passed_def)
next
  case False
  have w: "wall db \<le> wall db'" using assms(2) by (simp add: goes_on_def)
  from assms(1) have "at < wall db' - RETENTION" unfolding passed_def
  proof
    assume "\<exists>t. (a, t) \<in> sent tn db \<and> at \<le> t"
    then obtain t where "(a, t) \<in> sent tn db" "at \<le> t" by blast
    moreover from this(1) False assms(2) have "\<not> wall db' - RETENTION \<le> t" unfolding goes_on_def by blast
    ultimately show ?thesis by linarith
  qed (use w in linarith)
  with False show ?thesis by (auto simp: passed_def)
qed

lemma passed_notice: "sent tn db' = insert (b, wall db) (sent tn db) \<Longrightarrow> wall db' = wall db \<Longrightarrow> at \<le> wall db \<Longrightarrow> passed tn a at db \<or> a = b \<Longrightarrow> passed tn a at db'"
  by (auto simp: passed_def)

lemma notice_step:
  assumes "notify_owner tn u now db = Inr (1, db')"
  shows "sent tn db' = insert (notice_address u, wall db) (sent tn db)" "leads db' = leads db" "wall db' = wall db" "seq db \<le> seq db'"
proof -
  from notify_owner_effect [OF assms] obtain m where m: "posted [m] db db'" "notice_of tn OWNER_NOTICE_KIND (notice_address u) (wall db) m" by auto
  show "sent tn db' = insert (notice_address u, wall db) (sent tn db)" by (rule sent_notice [OF m])
  show "leads db' = leads db" "wall db' = wall db" "seq db \<le> seq db'" by (rule postedD [OF m(1)])+
qed

lemma passed_run:
  "lead_run tn db as db' \<Longrightarrow> passed_all tn a ks db \<Longrightarrow>
     passed_all tn a (ks \<union> set (counted_for a as)) db' \<and> distinct (counted_for a as) \<and> ks \<inter> set (counted_for a as) = {}"
proof (induction rule: lead_run.induct)
  case (notice db as db1 u now db2)
  let ?ks = "ks \<union> set (counted_for a as)" and ?new = "map ld_pk (counted tn u now db1)"
  from notice have IH: "passed_all tn a ?ks db1" "distinct (counted_for a as)" "ks \<inter> set (counted_for a as) = {}" by auto
  note n = notice_step [OF notice(2)]
  have ok: "leads_ok db1" using IH(1) by (simp add: passed_all_def)
  have ok2: "leads_ok db2" using ok n(2-4) by (auto simp: leads_ok_def)
  have same: "x = y" if "x \<in> set (leads db1)" "y \<in> set (leads db1)" "ld_pk x = ld_pk y" for x y
    using that ok by (auto simp: leads_ok_def distinct_map dest: inj_onD)
  show ?case
  proof (cases "notice_address u = a")
    case True
    have "distinct ?new" using ok by (auto simp: leads_ok_def counted_def leads_since_def distinct_map_filter)
    moreover have "k \<notin> ?ks" if "k \<in> set ?new" for k
    proof
      assume k: "k \<in> ?ks"
      from that obtain d where d: "d \<in> set (counted tn u now db1)" "k = ld_pk d" by auto
      with IH(1) k counted_in [OF d(1)] have "passed tn a (ld_created_at d) db1" by (auto simp: passed_all_def)
      with counted_not_passed [OF d(1) notice(3)] True show False by simp
    qed
    moreover have "passed_all tn a (?ks \<union> set ?new) db2"
      unfolding passed_all_def
    proof (intro conjI ballI impI)
      fix k assume "k \<in> ?ks \<union> set ?new"
      then have "k \<le> seq db1" using IH(1) ok counted_in [of _ tn u now db1] unfolding passed_all_def leads_ok_def by auto
      then show "k \<le> seq db2" using n(4) by simp
    next
      fix d assume "d \<in> set (leads db2)"
      then have "ld_created_at d \<le> wall db1" using ok n(2) by (simp add: leads_ok_def)
      then show "passed tn a (ld_created_at d) db2" using passed_notice [OF n(1,3)] True by simp
    qed (rule ok2)
    ultimately show ?thesis using IH True by (auto simp: Un_assoc)
  next
    case False
    have "passed_all tn a ?ks db2" unfolding passed_all_def
    proof (intro conjI ballI impI)
      fix d assume d: "d \<in> set (leads db2)" "ld_pk d \<in> ?ks"
      then have "passed tn a (ld_created_at d) db1" "ld_created_at d \<le> wall db1" using IH(1) ok n(2) by (auto simp: passed_all_def leads_ok_def)
      then show "passed tn a (ld_created_at d) db2" using passed_notice [OF n(1,3)] by simp
    next
      fix k assume "k \<in> ?ks"
      then have "k \<le> seq db1" using IH(1) by (simp add: passed_all_def)
      then show "k \<le> seq db2" using n(4) by simp
    qed (rule ok2)
    with IH False show ?thesis by simp
  qed
next
  case (between db as db1 db2)
  then have IH: "passed_all tn a (ks \<union> set (counted_for a as)) db1" by simp
  have "passed_all tn a (ks \<union> set (counted_for a as)) db2" unfolding passed_all_def
  proof (intro conjI ballI impI)
    fix d assume d: "d \<in> set (leads db2)" "ld_pk d \<in> ks \<union> set (counted_for a as)"
    with IH have "ld_pk d \<le> seq db1" unfolding passed_all_def by blast
    then have "\<not> seq db1 < ld_pk d" by simp
    with d(1) between(2) obtain d0 where "d0 \<in> set (leads db1)" "ld_pk d0 = ld_pk d" "ld_created_at d0 = ld_created_at d" unfolding goes_on_def by blast
    with IH d(2) have "passed tn a (ld_created_at d) db1" by (auto simp: passed_all_def)
    then show "passed tn a (ld_created_at d) db2" by (rule passed_goes_on [OF _ between(2)])
  next
    fix k assume "k \<in> ks \<union> set (counted_for a as)"
    then have "k \<le> seq db1" using IH by (simp add: passed_all_def)
    then show "k \<le> seq db2" using between(2) by (simp add: goes_on_def)
  qed (use between(2) in \<open>simp add: goes_on_def\<close>)
  with between show ?case by simp
qed simp


text \<open>A lead that is no newer than a notice already sent to its owner is never announced, although that notice may not have counted it. This is the fate of
  a lead whose transaction began before the notice and committed after it: another capture, for another listing of the same owner, sends its
  notice meanwhile without seeing the lead, which then finds its recipient throttled; and the later flushes, which count from the last
  notice on, pass it over.\<close>

theorem late_lead_never_announced:
  assumes "lead_run tn db as db'" "leads_ok db" "d \<in> set (leads db)" "(a, t) \<in> sent tn db" "ld_created_at d \<le> t"
  shows "ld_pk d \<notin> set (counted_for a as)"
proof -
  have "passed_all tn a {ld_pk d} db"
    unfolding passed_all_def
  proof (intro conjI ballI impI)
    fix x assume "x \<in> set (leads db)" "ld_pk x \<in> {ld_pk d}"
    then have "x = d" using assms(2,3) by (auto simp: leads_ok_def distinct_map dest: inj_onD)
    then show "passed tn a (ld_created_at x) db" using assms(4,5) by (auto simp: passed_def)
  qed (use assms(2,3) in \<open>auto simp: leads_ok_def\<close>)
  from passed_run [OF assms(1) this] show ?thesis by blast
qed

subsection \<open>The commands are runs\<close>

lemma lead_run_trans: "lead_run tn db1 bs db2 \<Longrightarrow> lead_run tn db as db1 \<Longrightarrow> lead_run tn db (as @ bs) db2"
  by (induction rule: lead_run.induct) (auto intro: lead_run.intros simp flip: append_assoc)

definition runs :: "tenant \<Rightarrow> 'z lead_db_scheme \<Rightarrow> 'z lead_db_scheme \<Rightarrow> bool" where
  "runs tn db db' \<longleftrightarrow> (leads_ok db \<longrightarrow> leads_ok db' \<and> (\<exists>as. lead_run tn db as db'))"

lemma runs_refl [simp]: "runs tn db db"
  by (auto simp: runs_def intro: lead_run.start)

lemma runs_trans: "runs tn a b \<Longrightarrow> runs tn b c \<Longrightarrow> runs tn a c"
  by (auto simp: runs_def dest: lead_run_trans)

lemma runs_goes_on: "(leads_ok db \<Longrightarrow> goes_on tn db db') \<Longrightarrow> runs tn db db'"
  unfolding runs_def using lead_run.between [OF lead_run.start, of tn db db'] by (metis goes_on_def)

lemma runs_same:
  assumes "leads db' = leads db" "sent tn db' = sent tn db" "wall db' = wall db" "seq db \<le> seq db'"
  shows "runs tn db db'"
proof (rule runs_goes_on)
  assume "leads_ok db"
  then have "leads_ok db'" using assms by (auto simp: leads_ok_def)
  then show "goes_on tn db db'" using assms unfolding goes_on_def by auto
qed

lemma runs_books: "kept_books db db' \<Longrightarrow> runs tn db db'"
  by (rule runs_same) (simp_all add: kept_books_def sent_def)

lemma runs_notify_owner:
  assumes "notify_owner tn u now db = Inr (n, db')" "wall db - days 1 \<le> now"
  shows "runs tn db db'"
proof (cases "n = 0")
  case True
  then show ?thesis using notify_owner_effect [OF assms(1)] by auto
next
  case False
  with notify_owner_effect [OF assms(1)] have n: "notify_owner tn u now db = Inr (1, db')" using assms(1) by auto
  note s = notice_step [OF n]
  have "leads_ok db \<longrightarrow> leads_ok db'" using s(2-4) by (auto simp: leads_ok_def)
  then show ?thesis using lead_run.notice [OF lead_run.start n assms(2)] by (auto simp: runs_def)
qed

lemma sent_other: "posted ms db db' \<Longrightarrow> \<forall>m \<in> set ms. \<exists>a t. notice_of tn LEAD_NOTICE_KIND a t m \<Longrightarrow> sent tn db' = sent tn db"
  by (auto simp: sent_posted notice_of_def OWNER_NOTICE_KIND_def LEAD_NOTICE_KIND_def)

lemma runs_notify_staff:
  assumes "notify_staff tn now db = Inr (n, db')"
  shows "runs tn db db'"
proof -
  from notify_each_effect [OF assms [unfolded notify_staff_def]] obtain ms where m: "posted ms db db'" "\<forall>m \<in> set ms. \<exists>a \<in> set (operator_recipients tn db). notice_of tn LEAD_NOTICE_KIND a (wall db) m" by blast
  have "sent tn db' = sent tn db" by (rule sent_other [OF m(1)]) (use m(2) in blast)
  then show ?thesis by (intro runs_same postedD [OF m(1)])
qed

lemma runs_notify:
  assumes "notify_for_lead tn l now db = Inr (n, db')" "wall db - days 1 \<le> now"
  shows "runs tn db db'"
  using assms(1) runs_notify_owner [OF _ assms(2)] runs_notify_staff by (auto simp: notify_for_lead_def split: option.splits if_splits)

lemma runs_event: "claim_emit typ subject tn' actor data db = Inr (ev, db') \<Longrightarrow> runs tn db db'"
  by (drule event_effect) (auto intro: runs_same simp: sent_def)

lemma runs_insert:
  assumes i: "insert_lead tn l lf ip label (wall db) db = Inr (x, db')"
  shows "runs tn db db'"
proof -
  from i obtain phone where ph: "lf_phone lf = Some phone" by (auto simp: insert_lead_def split: option.splits)
  let ?d = "new_lead tn l lf phone db"
  let ?db1 = "db\<lparr>leads := leads db @ [?d], seq := Suc (seq db), draws := Suc (draws db)\<rparr>"
  let ?db2 = "?db1\<lparr>consents := consents ?db1 @ [lead_consent tn ?d ip label (wall db) ?db1], seq := Suc (seq ?db1), draws := Suc (draws ?db1)\<rparr>"
  from i ph obtain ev db3 where e: "claim_emit LEAD_CAPTURED (ld_public_id ?d) tn VISITOR (captured_data ?d l ip label (wall db)) ?db2 = Inr (ev, db3)"
    and rest: "(if ld_marked_spam ?d
         then then_do (spam_event tn ?d [(''type'', JStr ''system''), (''id'', JStr [])] ''system'' (snd (spam_score (lf_name lf) (lf_message lf)))) (\<lambda>e2 d'. Inr ((), d'))
         else then_do (notify_for_lead tn l (wall db)) (\<lambda>n d'. Inr ((), d'))) db3 = Inr ((), db')"
    by (auto simp: insert_lead_def Let_def then_do_Inr)
  have "runs tn db ?db2"
  proof (rule runs_goes_on)
    assume ok: "leads_ok db"
    have "seq db < ld_pk ?d" by (simp add: new_lead_simps)
    then have "ld_pk ?d \<notin> ld_pk ` set (leads db)" using ok by (auto simp: leads_ok_def)
    then have "leads_ok ?db2" using ok by (auto simp: leads_ok_def new_lead_simps le_SucI)
    then show "goes_on tn db ?db2" by (auto simp: goes_on_def sent_def new_lead_simps)
  qed
  moreover have "runs tn ?db2 db3" by (rule runs_event [OF e])
  moreover have "wall db3 = wall db" using event_effect [OF e] by auto
  then have "runs tn db3 db'"
    using rest runs_notify [of tn l "wall db" db3] by (auto simp: then_do_Inr spam_event_def days_def intro: runs_event split: if_splits)
  ultimately show ?thesis by (blast intro: runs_trans)
qed

lemma runs_apply_create:
  assumes a: "apply_create_lead tn given lf cs ip db = Inr ((d, eid, dup), db')"
  shows "runs tn db db'"
proof -
  from apply_create_E [OF a] obtain l wording db1 db2 where t: "get_lead_consent_text tn (db\<lparr>in_atomic := True\<rparr>) = (wording, db1)" and db': "db' = db2\<lparr>in_atomic := in_atomic db\<rparr>"
    and r: "(case find_duplicate tn l lf (wall db1) db1 of Some d \<Rightarrow> Inr ((d, [], True), db1) | None \<Rightarrow> insert_lead tn l lf ip (consent_label wording) (wall db1) db1) = Inr ((d, eid, dup), db2)" .
  have "runs tn db db1" using kept_books_text [OF t] by (intro runs_books) simp
  moreover have "runs tn db1 db2" using r runs_insert by (auto split: option.splits)
  moreover have "runs tn db2 db'" by (rule runs_books) (simp add: db')
  ultimately show ?thesis by (blast intro: runs_trans)
qed

lemma kept_books_blocked: "kept_books db (blocked_row cmd tn actor payload v db)"
  by (auto simp: blocked_row_def dest: kept_books_received split: prod.splits)

lemma create_lead_runs:
  assumes c: "create_lead w tn l kind contact msg consent source_page ip db = (r, db')"
  shows "runs tn db db'"
proof (cases r)
  case (Inr d)
  from create_lead_E [OF c [unfolded Inr]] obtain lf cs db1 eid dup db2 where "kept_books db db1"
    "apply_create_lead tn l lf cs (storable_ip w ip) db1 = Inr ((d, eid, dup), db2)" "kept_books db2 db'" .
  then have "runs tn db db1" "runs tn db1 db2" "runs tn db2 db'" by (auto intro: runs_books runs_apply_create)
  then show ?thesis by (metis runs_trans)
next
  case (Inl e)
  have "kept_books db db'"
  proof (cases "require_autocommit db")
    case (Inr u)
    show ?thesis
    proof (cases "normalize_lead kind contact msg consent source_page")
      case (Inl why)
      with c Inr show ?thesis by (auto simp: create_lead_def dest: kept_books_received split: prod.splits)
    next
      case n: (Inr nf)
      obtain lf cs where nf: "nf = (lf, cs)" by fastforce
      show ?thesis
      proof (cases "check_create w tn ip (lf_email lf) (wall db) db")
        case (Inl a)
        with c Inr n nf show ?thesis by (auto simp: create_lead_def Let_def)
      next
        case v: (Inr vd)
        obtain vd1 db1 where vd: "vd = (vd1, db1)" by fastforce
        have k: "kept_books db db1" using kept_books_check(1) v vd by blast
        obtain row db2 where lr: "log_received ''lead.create'' (Some (tn_pk tn)) None VISITOR [] [] (Some (JObj [(''listing_id'', JStr (ls_public_id l)), (''kind'', JStr kind), (''consent'', JObj cs)])) db1 = (row, db2)"
          by fastforce
        have k2: "kept_books db db2" by (rule kept_books_trans [OF k kept_books_received [OF lr]])
        show ?thesis
        proof (cases "allowed vd1")
          case False
          with c Inr n nf v vd have "db' = blocked_row ''lead.create'' tn VISITOR [(''listing_id'', JStr (ls_public_id l)), (''kind'', JStr kind), (''consent'', JObj cs)] vd1 db1"
            by (auto simp: create_lead_def Let_def)
          then show ?thesis using kept_books_trans [OF k kept_books_blocked] by simp
        next
          case True
          obtain e' where a: "apply_create_lead tn l lf cs (storable_ip w ip) db2 = Inl e'"
            using c True Inr n nf v vd lr \<open>r = Inl e\<close> by (cases "apply_create_lead tn l lf cs (storable_ip w ip) db2") (auto simp: create_lead_def Let_def)
          have "db' = db2 \<or> (\<exists>outc eid prob np. db' = log_conclude row outc eid prob np db2)"
            using c True Inr n nf v vd lr a by (cases e') (auto simp: create_lead_def Let_def)
          then show ?thesis using k2 by auto
        qed
      qed
    qed
  qed (use c in \<open>auto simp: create_lead_def\<close>)
  then show ?thesis by (rule runs_books)
qed

lemma runs_flush_owners:
  "flush_owners tn now limit q us db = Inr (x, db') \<Longrightarrow> wall db - days 1 \<le> now \<Longrightarrow> runs tn db db'"
proof (induction us arbitrary: q db)
  case (Cons u us)
  show ?case
  proof (cases "limit \<le> q")
    case False
    with Cons.prems(1) obtain n db1 where n: "notify_owner tn u now db = Inr (n, db1)" "flush_owners tn now limit (q + n) us db1 = Inr (x, db')" by (auto simp: then_do_Inr)
    have "wall db1 = wall db" using notify_owner_effect [OF n(1)] by (auto dest: postedD(4))
    then have "runs tn db1 db'" using Cons.IH [OF n(2)] Cons.prems(2) by simp
    then show ?thesis by (rule runs_trans [OF runs_notify_owner [OF n(1) Cons.prems(2)]])
  qed (use Cons.prems in simp)
qed simp

lemma flush_tenant_runs:
  assumes "flush_tenant tn now limit db = Inr (x, db')" "wall db - days 1 \<le> now"
  shows "runs tn db db'"
proof -
  from assms(1) obtain q b db1 where f: "flush_owners tn now limit 0 (owners_waiting tn now db) db = Inr ((q, b), db1)"
    and rest: "db' = db1 \<or> (\<exists>n. notify_staff tn now db1 = Inr (n, db'))"
    by (auto simp: flush_tenant_def then_do_Inr split: if_splits)
  show ?thesis using runs_flush_owners [OF f assms(2)] rest runs_notify_staff runs_trans by blast
qed

subsection \<open>A flush leaves nothing unannounced\<close>

text \<open>A lead of the week on a listing of \<open>u\<close>, and that its owner knows of it or was told something within the quarter hour.\<close>

definition owed :: "tenant \<Rightarrow> user \<Rightarrow> instant \<Rightarrow> lead \<Rightarrow> 'z lead_db_scheme \<Rightarrow> bool" where
  "owed tn u now d db \<longleftrightarrow> d \<in> set (leads db) \<and> ld_tenant d = tn_pk tn \<and> \<not> ld_marked_spam d \<and> now - OWNER_NOTICE_TTL < ld_created_at d
     \<and> (\<exists>l. find_by ls_pk (ld_listing d) (listings db) = Some l \<and> ls_owner l = Some (usr_pk u))"

definition announced :: "tenant \<Rightarrow> user \<Rightarrow> instant \<Rightarrow> lead \<Rightarrow> 'z lead_db_scheme \<Rightarrow> bool" where
  "announced tn u now d db \<longleftrightarrow> (\<exists>t. (notice_address u, t) \<in> sent tn db \<and> (ld_created_at d \<le> t \<or> now - NOTICE_THROTTLE < t))"

lemma owed_in: "owed tn u now d db \<longleftrightarrow> d \<in> set (leads_since tn (\<lambda>l. ls_owner l = Some (usr_pk u)) (now - OWNER_NOTICE_TTL) db)"
  by (auto simp: owed_def leads_since_def split: option.splits)

lemma notify_announces:
  assumes "notify_owner tn u now db = Inr (n, db')" "owed tn u now d db" "leads_ok db"
  shows "announced tn u now d db'"
proof -
  let ?last = "last_sent tn OWNER_NOTICE_KIND (notice_address u) db"
  have told: "announced tn u now d db" if "throttled_at now ?last \<or> counted tn u now db = []"
  proof (cases ?last)
    case None
    with assms(2) that show ?thesis by (auto simp: throttled_at_def counted_def owed_in)
  next
    case (Some t)
    have "ld_created_at d \<le> t \<or> now - NOTICE_THROTTLE < t"
    proof (rule ccontr)
      assume c: "\<not> ?thesis"
      then have "d \<in> set (counted tn u now db)" using assms(2) Some by (auto simp: counted_def owed_def leads_since_def)
      with that c Some show False by (auto simp: throttled_at_def)
    qed
    with last_sent_Some(1) [OF Some] show ?thesis by (auto simp: announced_def)
  qed
  have "ld_created_at d \<le> wall db" using assms(2,3) by (auto simp: owed_def leads_ok_def)
  with notify_owner_effect [OF assms(1)] told show ?thesis by (auto simp: announced_def dest: sent_notice)
qed

lemma notify_owner_keeps:
  assumes "notify_owner tn u now db = Inr (n, db')"
  shows "leads db' = leads db \<and> listings db' = listings db \<and> users db' = users db \<and> operators db' = operators db \<and> memberships db' = memberships db
    \<and> wall db' = wall db \<and> seq db \<le> seq db' \<and> sent tn db \<subseteq> sent tn db'"
  using notify_owner_effect [OF assms] by (auto dest: postedD sent_notice)

lemma flush_owners_announces:
  "flush_owners tn now limit q us db = Inr ((n, stopped), db') \<Longrightarrow> leads_ok db \<Longrightarrow>
     q \<le> n \<and> (stopped \<longrightarrow> limit \<le> n) \<and> leads db' = leads db \<and> listings db' = listings db \<and> users db' = users db \<and> sent tn db \<subseteq> sent tn db'
     \<and> (\<not> stopped \<longrightarrow> (\<forall>u \<in> set us. \<forall>d. owed tn u now d db \<longrightarrow> announced tn u now d db'))"
proof (induction us arbitrary: q db)
  case (Cons u us)
  show ?case
  proof (cases "limit \<le> q")
    case False
    with Cons.prems(1) obtain k db1 where n: "notify_owner tn u now db = Inr (k, db1)" "flush_owners tn now limit (q + k) us db1 = Inr ((n, stopped), db')" by (auto simp: then_do_Inr)
    note keep = notify_owner_keeps [OF n(1)]
    have "leads_ok db1" using Cons.prems(2) keep by (auto simp: leads_ok_def)
    note IH = Cons.IH [OF n(2) this]
    have same: "owed tn x now d db1 = owed tn x now d db" for x d using keep by (simp add: owed_def)
    have "announced tn u now d db'" if "owed tn u now d db" for d
      using notify_announces [OF n(1) that Cons.prems(2)] IH by (auto simp: announced_def)
    then show ?thesis using IH keep by (auto simp: same)
  qed (use Cons.prems in auto)
qed simp

lemma flush_owners_total: "in_atomic db \<Longrightarrow> \<exists>n stopped db'. flush_owners tn now limit q us db = Inr ((n, stopped), db') \<and> in_atomic db'"
proof (induction us arbitrary: q db)
  case (Cons u us)
  from notify_owner_total [OF Cons.prems] obtain k db1 where n: "notify_owner tn u now db = Inr (k, db1)" "in_atomic db1" by blast
  with Cons.IH [OF n(2)] Cons.prems show ?case by (auto simp: then_do_def)
qed auto


subsection \<open>A sample run\<close>

text \<open>Two leads for the same owner. The first began before the notice of an hour ago and committed after it.\<close>

definition vera_lead :: "nat \<Rightarrow> instant \<Rightarrow> lead" where
  "vera_lead pk at = \<lparr>ld_pk = pk, ld_tenant = 1, ld_listing = 10, ld_public_id = ''lead_1'', ld_kind = ''message'', ld_name = ''Vera'', ld_email = ''vera@example.com'', ld_phone = [],
     ld_message = ''Do you open on Sundays?'', ld_spam_score = 0, ld_marked_spam = False, ld_spam_marked_by = None, ld_source_page = [], ld_status = ''captured'', ld_created_at = at\<rparr>"

definition early_notice :: message where
  "early_notice = \<lparr>ms_pk = 40, message_id = ''msg_40'', ms_tenant = 1, ms_kind = OWNER_NOTICE_KIND, to_address = Some ''owner@example.com'', ms_subject = [], body_text = None,
     ms_status = MsSent, ms_attempt = 1, ms_next_attempt_at = sample_now - hours 1, ms_expires_at = sample_now + days 6, ms_first_attempted_at = None, ms_last_attempted_at = None,
     ms_last_error = [], sent_at = None, ms_created_at = sample_now - hours 1\<rparr>"

definition late_db :: lead_db where
  "late_db = empty_leads\<lparr>in_atomic := True, mail := [early_notice], leads := [vera_lead 50 (sample_now - hours 1 - seconds 1), vera_lead 51 (sample_now - minutes 1)]\<rparr>"

lemma owner_address: "notice_address sample_user = ''owner@example.com''"
  unfolding notice_address_def sample_user_def by code_simp

lemma late_db_simps: "wall late_db = sample_now" "in_atomic late_db" "leads_ok late_db" "users late_db = [sample_user]"
  by (simp_all add: late_db_def empty_leads_def leads_ok_def vera_lead_def hours_def minutes_def seconds_def)

lemma late_last: "last_sent lead_tenant OWNER_NOTICE_KIND ''owner@example.com'' late_db = Some (sample_now - hours 1)"
  by (simp add: last_sent_def notices_to_def late_db_def early_notice_def lead_tenant_def sample_tenant_def)

lemma late_counted: "map ld_pk (counted lead_tenant sample_user sample_now late_db) = [51]"
  by (simp add: counted_def owner_address late_last) (simp add: leads_since_def late_db_def empty_leads_def vera_lead_def lead_tenant_def sample_tenant_def sample_listing_def sample_user_def
      hours_def minutes_def seconds_def)

lemma late_run: "\<exists>db'. lead_run lead_tenant late_db [(''owner@example.com'', [51])] db'"
proof -
  obtain n db' where n: "notify_owner lead_tenant sample_user sample_now late_db = Inr (n, db')" using notify_owner_total [OF late_db_simps(2)] by blast
  have "counted lead_tenant sample_user sample_now late_db \<noteq> []" using late_counted by auto
  moreover have "\<not> throttled_at sample_now (last_sent lead_tenant OWNER_NOTICE_KIND (notice_address sample_user) late_db)"
    by (simp add: owner_address late_last throttled_at_def NOTICE_THROTTLE_def hours_def minutes_def)
  ultimately have "notify_owner lead_tenant sample_user sample_now late_db = Inr (1, db')" using notify_owner_effect [OF n] n by auto
  from lead_run.notice [OF lead_run.start this] show ?thesis by (auto simp: late_counted owner_address late_db_simps days_def)
qed


theorem late_lead_never_announced_witness:
  "\<exists>db'. lead_run lead_tenant late_db [(''owner@example.com'', [51])] db' \<and> vera_lead 50 (sample_now - hours 1 - seconds 1) \<in> set (leads late_db)
     \<and> ld_pk (vera_lead 50 (sample_now - hours 1 - seconds 1)) \<notin> set (counted_for ''owner@example.com'' [(''owner@example.com'', [51])])"
proof -
  from late_run obtain db' where r: "lead_run lead_tenant late_db [(''owner@example.com'', [51])] db'" by blast
  have d: "vera_lead 50 (sample_now - hours 1 - seconds 1) \<in> set (leads late_db)" by (simp add: late_db_def)
  have "ld_created_at (vera_lead 50 (sample_now - hours 1 - seconds 1)) \<le> sample_now - hours 1" by (simp add: vera_lead_def seconds_def)
  from late_lead_never_announced [OF r late_db_simps(3) d last_sent_Some(1) [OF late_last] this] r d show ?thesis by blast
qed


end
