(* ===== verification/Catalog.thy ===== *)
theory Catalog
  imports Leads Field_Schema
begin

section \<open>The catalogue: listing types, categories, redirects\<close>

text \<open>
  The first part of \<^verbatim>\<open>directory/services.py\<close>: the commands by which an operator configures a directory, each one
  \<^verbatim>\<open>settings.update\<close> row of the command log (\<open>settings_command\<close> of \<^verbatim>\<open>audit/command_log.py\<close>). They keep the listing types with
  their field schema, the category tree of each type, the redirects left behind when a public path moves and the markers of the
  search index. The tables of the import (batches, provenance rows, suppression keys) are declared here too. A listing names its
  type by tenant and key and its categories by their slugs, which are unique in a type, so that renaming or deleting a category
  shows in the rows.
\<close>

subsection \<open>Tables\<close>

record listing_type = listing_type_row +
  lt_pk :: nat
  lt_public_id :: string
  label_singular :: string
  label_plural :: string
  path_segment :: string
  lt_claimable :: bool
  lt_created_at :: instant
  lt_updated_at :: instant

record category =
  cat_pk :: nat
  cat_tenant :: nat
  cat_type :: nat
  cat_public_id :: string
  cat_slug :: string
  cat_name :: string
  cat_parent :: "nat option"
  cat_order :: nat
  cat_created_at :: instant

record path_redirect =
  pr_pk :: nat
  pr_tenant :: nat
  old_prefix :: string
  new_prefix :: string
  pr_created_at :: instant

record reindex_job =
  rj_pk :: nat
  rj_tenant :: nat
  rj_scope :: string
  rj_scope_ref :: string
  rj_reason :: string
  rj_requested_at :: instant
  rj_cursor :: nat
  rj_done_at :: "instant option"

record suppression_key =
  sk_pk :: nat
  sk_tenant :: nat
  key_hash :: string
  source_listing_public_id :: string
  sk_created_at :: instant

datatype batch_status = B_MAPPING | B_PENDING | B_PROCESSING | B_COMPLETED | B_ROLLED_BACK | B_FAILED

record import_batch =
  ib_pk :: nat
  ib_tenant :: nat
  ib_type :: "nat option"
  ib_public_id :: string
  ib_source :: string
  ib_status :: batch_status
  original_filename :: string
  stored_path :: string
  detected_headers :: "string list"
  delimiter :: string
  ib_encoding :: string
  has_header :: bool
  column_mapping :: "(string \<times> string) list"
  row_count :: nat
  processed_row_count :: nat
  created_count :: nat
  updated_count :: nat
  skipped_count :: nat
  suppressed_count :: nat
  error_count :: nat
  ib_errors :: "json list"
  ib_notes :: "json list"
  started_by :: "nat option"
  ib_started_at :: "instant option"
  ib_completed_at :: "instant option"
  rolled_back_by :: "nat option"
  rolled_back_at :: "instant option"
  ib_created_at :: instant

datatype row_action = A_CREATED | A_UPDATED

record batch_row =
  br_pk :: nat
  br_tenant :: nat
  br_batch :: nat
  br_listing :: nat
  br_action :: row_action
  pre_image :: "dict option"
  pre_image_nulled_at :: "instant option"
  br_created_at :: instant

text \<open>What the search vector of a listing is computed from: the configuration, and the texts of the weights A to D. The category names of
  weight B are kept sorted; their order in the text does not matter to a match.\<close>

record search_doc =
  sd_config :: string
  sd_name :: string
  sd_categories :: "string list"
  sd_description :: string
  sd_rest :: string

record catalog_db = lead_db +
  listing_types :: "listing_type list"
  category_rows :: "category list"
  redirects :: "path_redirect list"
  reindex_jobs :: "reindex_job list"
  suppression_keys :: "suppression_key list"
  batches :: "import_batch list"
  batch_rows :: "batch_row list"
  search_docs :: "nat \<rightharpoonup> search_doc"

subsection \<open>Exceptions\<close>

text \<open>\<open>SchemaError\<close> is a \<^verbatim>\<open>ValueError\<close>. \<open>IntegrityError\<close> and \<open>DataError\<close> are the database's, a violated constraint and a value a column does
  not take; \<open>TypeError\<close> stands for the exceptions of a value of the wrong type.\<close>

datatype catalog_error =
    SchemaError "string list"
  | ValueError string
  | RejectedField string
  | Suppressed string
  | RollbackRefused string string
  | OwnerEditRefused string "string list"
  | IntegrityError
  | DataError
  | TypeError
  | CatalogAudit audit_error

definition lift_catalog :: "audit_error + 'a \<Rightarrow> catalog_error + 'a" where
  "lift_catalog r = (case r of Inl e \<Rightarrow> Inl (CatalogAudit e) | Inr x \<Rightarrow> Inr x)"

lemma lift_catalog_simps [simp]: "lift_catalog (Inl e) = Inl (CatalogAudit e)" "lift_catalog (Inr x) = Inr x"
  by (simp_all add: lift_catalog_def)

text \<open>\<^verbatim>\<open>_CONFIG_REFUSED\<close>.\<close>

definition config_refused :: "catalog_error \<Rightarrow> bool" where
  "config_refused e = (case e of SchemaError _ \<Rightarrow> True | ValueError _ \<Rightarrow> True | _ \<Rightarrow> False)"

subsection \<open>One settings.update row around a save\<close>

definition SETTINGS_UPDATE :: string where
  "SETTINGS_UPDATE = ''settings.update''"

text \<open>\<^verbatim>\<open>SettingsSave.changed\<close>: the keys whose values differ.\<close>

definition changed_names :: "dict \<Rightarrow> dict \<Rightarrow> string list" where
  "changed_names old new =
     filter (\<lambda>k. \<not> py_eq (get_or_null old k) (get_or_null new k)) (remdups (dict_keys old @ dict_keys new))"

definition settings_payload :: "string \<Rightarrow> string \<Rightarrow> string list \<Rightarrow> json" where
  "settings_payload page op names =
     JObj [(''page'', JStr page), (''op'', JStr op), (''fields'', JList (map JStr (sort (remdups names))))]"

definition admin_actor :: "operator \<Rightarrow> dict" where
  "admin_actor operator = [(''type'', JStr ''admin''), (''id'', JStr (op_public_id operator))]"

text \<open>The body returns its value and the names it gave to \<^verbatim>\<open>cmd\<close>. The result keeps the log rows of a failed save.\<close>

definition settings_command :: "(audit_error \<Rightarrow> 'e) \<Rightarrow> ('e \<Rightarrow> bool) \<Rightarrow> tenant \<Rightarrow> operator \<Rightarrow> string \<Rightarrow> string
    \<Rightarrow> ('z core_db_scheme \<Rightarrow> 'e + ('r \<times> string list) \<times> 'z core_db_scheme) \<Rightarrow> 'z core_db_scheme \<Rightarrow> ('e + 'r) \<times> 'z core_db_scheme" where
  "settings_command lift refused tn operator page op body db =
     (case require_autocommit db of
        Inl e \<Rightarrow> (Inl (lift e), db)
      | Inr _ \<Rightarrow>
          let (row, db1) = log_received SETTINGS_UPDATE (Some (tn_pk tn)) None (admin_actor operator) [] [] (Some (settings_payload page op [])) db in
          case body db1 of
            Inl e \<Rightarrow> (Inl e, if refused e then log_conclude row ''rejected'' [] (Some (JObj [(''reason'', JStr ''invalid'')])) None db1 else db1)
          | Inr ((r, names), db2) \<Rightarrow> (Inr r, log_conclude row ''applied'' [] None (Some (settings_payload page op names)) db2))"

definition catalog_command :: "tenant \<Rightarrow> operator \<Rightarrow> string \<Rightarrow> string
    \<Rightarrow> ('z core_db_scheme \<Rightarrow> catalog_error + ('r \<times> string list) \<times> 'z core_db_scheme) \<Rightarrow> 'z core_db_scheme \<Rightarrow> (catalog_error + 'r) \<times> 'z core_db_scheme" where
  "catalog_command = settings_command CatalogAudit config_refused"

definition emit_settings_change :: "tenant \<Rightarrow> operator \<Rightarrow> json list \<Rightarrow> 'z core_db_scheme \<Rightarrow> catalog_error + outbox_event \<times> 'z core_db_scheme" where
  "emit_settings_change tn operator changes db =
     lift_catalog (emit TENANT_SETTINGS_CHANGED (tn_public_id tn) (tn_pk tn)
       [(''changes'', JList changes), (''changed_by'', JStr (op_public_id operator))] (admin_actor operator) [] [] db)"

definition type_value :: "'t listing_type_scheme \<Rightarrow> dict" where
  "type_value t =
     [(''key'', JStr (lt_key t)), (''label_singular'', JStr (label_singular t)), (''label_plural'', JStr (label_plural t)),
      (''path_segment'', JStr (path_segment t)), (''claimable'', JBool (lt_claimable t)), (''fields'', JList (map JObj (lt_fields t)))]"

definition category_fields :: "category \<Rightarrow> dict" where
  "category_fields c =
     [(''name'', JStr (cat_name c)), (''slug'', JStr (cat_slug c)), (''parent'', jopt (\<lambda>n. JInt (int n)) (cat_parent c)), (''order'', JInt (int (cat_order c)))]"

definition category_value :: "category \<Rightarrow> 'z catalog_db_scheme \<Rightarrow> dict" where
  "category_value c db =
     [(''name'', JStr (cat_name c)),
      (''parent'', case cat_parent c of None \<Rightarrow> JNull | Some p \<Rightarrow> jopt (\<lambda>q. JStr (cat_slug q)) (find_by cat_pk p (category_rows db))),
      (''order'', JInt (int (cat_order c)))]"

definition patch_op :: "string \<Rightarrow> string \<Rightarrow> dict option \<Rightarrow> json" where
  "patch_op op path v = JObj ([(''op'', JStr op), (''path'', JStr path)] @ (case v of None \<Rightarrow> [] | Some d \<Rightarrow> [(''value'', JObj d)]))"

subsection \<open>Rows and their constraints\<close>

definition fits :: "nat \<Rightarrow> string \<Rightarrow> bool" where
  "fits n s \<longleftrightarrow> length s \<le> n"

definition type_columns :: "'t listing_type_scheme \<Rightarrow> bool" where
  "type_columns t \<longleftrightarrow> fits 50 (lt_key t) \<and> fits 100 (label_singular t) \<and> fits 100 (label_plural t) \<and> fits 50 (path_segment t)"

definition types_of :: "nat \<Rightarrow> 'z catalog_db_scheme \<Rightarrow> listing_type list" where
  "types_of tenant db = filter (\<lambda>t. lt_tenant t = tenant) (listing_types db)"

text \<open>An insert or a save of a type row: the two unique constraints, then the columns.\<close>

definition type_clash :: "listing_type \<Rightarrow> 'z catalog_db_scheme \<Rightarrow> bool" where
  "type_clash t db \<longleftrightarrow> list_ex (\<lambda>r. lt_pk r \<noteq> lt_pk t \<and> (lt_key r = lt_key t \<or> path_segment r = path_segment t)) (types_of (lt_tenant t) db)"

definition insert_type :: "listing_type \<Rightarrow> 'z catalog_db_scheme \<Rightarrow> catalog_error + unit \<times> 'z catalog_db_scheme" where
  "insert_type t db =
     (if \<not> type_columns t then Inl DataError else if type_clash t db then Inl IntegrityError
      else Inr ((), db\<lparr>listing_types := listing_types db @ [t], seq := Suc (seq db), draws := Suc (draws db)\<rparr>))"

definition save_type :: "listing_type \<Rightarrow> 'z catalog_db_scheme \<Rightarrow> catalog_error + unit \<times> 'z catalog_db_scheme" where
  "save_type t db =
     (if \<not> type_columns t then Inl DataError else if type_clash t db then Inl IntegrityError
      else Inr ((), db\<lparr>listing_types := update_where (\<lambda>r. lt_pk r = lt_pk t) (\<lambda>_. t\<lparr>lt_updated_at := wall db\<rparr>) (listing_types db)\<rparr>))"

definition category_columns :: "category \<Rightarrow> bool" where
  "category_columns c \<longleftrightarrow> fits 100 (cat_slug c) \<and> fits 200 (cat_name c)"

definition category_clash :: "category \<Rightarrow> 'z catalog_db_scheme \<Rightarrow> bool" where
  "category_clash c db \<longleftrightarrow>
     list_ex (\<lambda>r. cat_pk r \<noteq> cat_pk c \<and> cat_tenant r = cat_tenant c \<and> cat_type r = cat_type c \<and> cat_slug r = cat_slug c) (category_rows db)"

definition insert_category :: "category \<Rightarrow> 'z catalog_db_scheme \<Rightarrow> catalog_error + unit \<times> 'z catalog_db_scheme" where
  "insert_category c db =
     (if \<not> category_columns c then Inl DataError else if category_clash c db then Inl IntegrityError
      else Inr ((), db\<lparr>category_rows := category_rows db @ [c], seq := Suc (seq db), draws := Suc (draws db)\<rparr>))"

text \<open>A save of a category also moves its slug in the rows of the listings that carry it.\<close>

definition replace_slug :: "string \<Rightarrow> string \<Rightarrow> string list \<Rightarrow> string list" where
  "replace_slug old new = map (\<lambda>s. if s = old then new else s)"

definition type_of_listing :: "listing \<Rightarrow> 'z catalog_db_scheme \<Rightarrow> listing_type option" where
  "type_of_listing l db = find (\<lambda>t. lt_tenant t = ls_tenant l \<and> lt_key t = ls_type_key l) (listing_types db)"

definition categories_of_listing :: "listing \<Rightarrow> 'z catalog_db_scheme \<Rightarrow> category list" where
  "categories_of_listing l db =
     (case type_of_listing l db of
        None \<Rightarrow> []
      | Some t \<Rightarrow> filter (\<lambda>c. cat_type c = lt_pk t \<and> cat_slug c \<in> set (categories l)) (category_rows db))"

definition type_key_of :: "nat \<Rightarrow> 'z catalog_db_scheme \<Rightarrow> string option" where
  "type_key_of pk db = map_option lt_key (find_by lt_pk pk (listing_types db))"

definition carries_type :: "nat \<Rightarrow> string option \<Rightarrow> listing \<Rightarrow> bool" where
  "carries_type tenant key l \<longleftrightarrow> ls_tenant l = tenant \<and> key = Some (ls_type_key l)"

definition save_category :: "string \<Rightarrow> category \<Rightarrow> 'z catalog_db_scheme \<Rightarrow> catalog_error + unit \<times> 'z catalog_db_scheme" where
  "save_category old_slug c db =
     (if \<not> category_columns c then Inl DataError else if category_clash c db then Inl IntegrityError
      else Inr ((), db\<lparr>category_rows := update_where (\<lambda>r. cat_pk r = cat_pk c) (\<lambda>_. c) (category_rows db),
        listings := update_where (carries_type (cat_tenant c) (type_key_of (cat_type c) db))
          (\<lambda>l. l\<lparr>categories := replace_slug old_slug (cat_slug c) (categories l)\<rparr>) (listings db)\<rparr>))"

definition redirect_columns :: "string \<Rightarrow> string \<Rightarrow> bool" where
  "redirect_columns old new \<longleftrightarrow> fits 64 old \<and> fits 64 new"

definition has_redirect :: "nat \<Rightarrow> string \<Rightarrow> 'z catalog_db_scheme \<Rightarrow> bool" where
  "has_redirect tenant old db \<longleftrightarrow> list_ex (\<lambda>r. pr_tenant r = tenant \<and> old_prefix r = old) (redirects db)"

text \<open>\<^verbatim>\<open>PathRedirect.objects.get_or_create\<close> and \<^verbatim>\<open>update_or_create\<close>.\<close>

definition insert_redirect :: "nat \<Rightarrow> string \<Rightarrow> string \<Rightarrow> 'z catalog_db_scheme \<Rightarrow> catalog_error + unit \<times> 'z catalog_db_scheme" where
  "insert_redirect tenant old new db =
     (if \<not> redirect_columns old new then Inl DataError
      else Inr ((), db\<lparr>redirects := redirects db @ [\<lparr>pr_pk = Suc (seq db), pr_tenant = tenant, old_prefix = old, new_prefix = new, pr_created_at = wall db\<rparr>],
                       seq := Suc (seq db)\<rparr>))"

definition get_or_create_redirect :: "nat \<Rightarrow> string \<Rightarrow> string \<Rightarrow> 'z catalog_db_scheme \<Rightarrow> catalog_error + unit \<times> 'z catalog_db_scheme" where
  "get_or_create_redirect tenant old new db = (if has_redirect tenant old db then Inr ((), db) else insert_redirect tenant old new db)"

definition update_or_create_redirect :: "nat \<Rightarrow> string \<Rightarrow> string \<Rightarrow> 'z catalog_db_scheme \<Rightarrow> catalog_error + unit \<times> 'z catalog_db_scheme" where
  "update_or_create_redirect tenant old new db =
     (if \<not> has_redirect tenant old db then insert_redirect tenant old new db
      else if \<not> redirect_columns old new then Inl DataError
      else Inr ((), db\<lparr>redirects := update_where (\<lambda>r. pr_tenant r = tenant \<and> old_prefix r = old) (\<lambda>r. r\<lparr>new_prefix := new\<rparr>) (redirects db)\<rparr>))"

definition mark_reindex :: "nat \<Rightarrow> string \<Rightarrow> string \<Rightarrow> string \<Rightarrow> 'z catalog_db_scheme \<Rightarrow> 'z catalog_db_scheme" where
  "mark_reindex tenant scope ref reason db =
     db\<lparr>reindex_jobs := reindex_jobs db @ [\<lparr>rj_pk = Suc (seq db), rj_tenant = tenant, rj_scope = scope, rj_scope_ref = ref, rj_reason = reason,
          rj_requested_at = wall db, rj_cursor = 0, rj_done_at = None\<rparr>], seq := Suc (seq db)\<rparr>"

subsection \<open>Listing types\<close>

definition store_schema :: "json \<Rightarrow> catalog_error + dict list" where
  "store_schema fs = (case fs of JList js \<Rightarrow> (case normalize_type_schema js of None \<Rightarrow> Inl TypeError | Some ds \<Rightarrow> Inr ds) | _ \<Rightarrow> Inl TypeError)"

definition check_schema :: "json \<Rightarrow> dict list \<Rightarrow> catalog_error + dict list" where
  "check_schema fs previous =
     (case validate_type_schema fs (map JObj previous) of
        Inl _ \<Rightarrow> Inl TypeError
      | Inr errors \<Rightarrow> if errors \<noteq> [] then Inl (SchemaError errors) else store_schema fs)"

record type_form =
  tf_key :: string
  tf_singular :: string
  tf_plural :: string
  tf_segment :: string
  tf_claimable :: bool
  tf_fields :: json

definition new_type :: "tenant \<Rightarrow> type_form \<Rightarrow> dict list \<Rightarrow> 'z core_db_scheme \<Rightarrow> listing_type" where
  "new_type tn f fs db =
     \<lparr>lt_tenant = tn_pk tn, lt_key = tf_key f, lt_fields = fs, lt_pk = Suc (seq db), lt_public_id = prefixed ''lt_'' (draw_ulid db),
      label_singular = tf_singular f, label_plural = tf_plural f, path_segment = tf_segment f, lt_claimable = tf_claimable f,
      lt_created_at = wall db, lt_updated_at = wall db\<rparr>"

text \<open>\<^verbatim>\<open>_create_listing_type\<close>: the second type of a tenant leaves the redirect of the root behind.\<close>

definition create_type_body :: "tenant \<Rightarrow> operator \<Rightarrow> type_form \<Rightarrow> 'z catalog_db_scheme \<Rightarrow> catalog_error + listing_type \<times> 'z catalog_db_scheme" where
  "create_type_body tn operator f = atomic (\<lambda>db.
     case check_schema (tf_fields f) [] of
       Inl e \<Rightarrow> Inl e
     | Inr fs \<Rightarrow>
         let existing = types_of (tn_pk tn) db; t = new_type tn f fs db in
         then_do (insert_type t) (\<lambda>_.
         then_do (case existing of [first] \<Rightarrow> get_or_create_redirect (tn_pk tn) [] (''/'' @ path_segment first) | _ \<Rightarrow> (\<lambda>d. Inr ((), d))) (\<lambda>_.
         then_do (emit_settings_change tn operator [patch_op ''add'' (''/listing_types/'' @ lt_key t) (Some (type_value t))]) (\<lambda>_ d. Inr (t, d)))) db)"

definition create_listing_type :: "tenant \<Rightarrow> operator \<Rightarrow> type_form \<Rightarrow> 'z catalog_db_scheme \<Rightarrow> (catalog_error + listing_type) \<times> 'z catalog_db_scheme" where
  "create_listing_type tn operator f =
     catalog_command tn operator ''listing_types'' ''add''
       (then_do (create_type_body tn operator f) (\<lambda>t d. Inr ((t, dict_keys (type_value t)), d)))"

text \<open>\<^verbatim>\<open>**changes\<close>: \<open>None\<close> is a key that is not given.\<close>

record type_changes =
  tc_key :: "string option"
  tc_singular :: "string option"
  tc_plural :: "string option"
  tc_segment :: "string option"
  tc_claimable :: "bool option"
  tc_fields :: "json option"

definition given :: "'a option \<Rightarrow> 'a \<Rightarrow> 'a" where
  "given c old = (case c of None \<Rightarrow> old | Some v \<Rightarrow> v)"

definition changed_type :: "type_changes \<Rightarrow> dict list option \<Rightarrow> listing_type \<Rightarrow> listing_type" where
  "changed_type c fs t =
     t\<lparr>label_singular := given (tc_singular c) (label_singular t), label_plural := given (tc_plural c) (label_plural t),
       path_segment := given (tc_segment c) (path_segment t), lt_claimable := given (tc_claimable c) (lt_claimable t),
       lt_fields := given fs (lt_fields t)\<rparr>"

definition FROZEN_KEY :: catalog_error where
  "FROZEN_KEY = ValueError ''a listing type's key is frozen after creation''"

definition same_schema :: "dict list \<Rightarrow> dict list \<Rightarrow> bool" where
  "same_schema a b = py_eq_list (map JObj a) (map JObj b)"

definition checked_fields :: "type_changes \<Rightarrow> listing_type \<Rightarrow> catalog_error + dict list option" where
  "checked_fields c t =
     (case tc_fields c of None \<Rightarrow> Inr None | Some fs \<Rightarrow> bind_result (check_schema fs (lt_fields t)) (\<lambda>ds. Inr (Some ds)))"

definition update_type_body :: "tenant \<Rightarrow> operator \<Rightarrow> listing_type \<Rightarrow> type_changes \<Rightarrow> 'z catalog_db_scheme \<Rightarrow> catalog_error + listing_type \<times> 'z catalog_db_scheme" where
  "update_type_body tn operator t c = atomic (\<lambda>db.
     if tc_key c \<noteq> None then Inl FROZEN_KEY
     else case checked_fields c t of
       Inl e \<Rightarrow> Inl e
     | Inr fs \<Rightarrow>
         let t' = changed_type c fs t in
         then_do (save_type t') (\<lambda>_ d1.
           let d2 = (case fs of Some ds \<Rightarrow> if same_schema ds (lt_fields t) then d1
                                  else mark_reindex (tn_pk tn) ''listing_type'' (lt_public_id t) ''field schema changed'' d1
                     | None \<Rightarrow> d1) in
           then_do (if tc_segment c \<noteq> None \<and> path_segment t' \<noteq> path_segment t \<and> 1 < length (types_of (tn_pk tn) d2)
                    then update_or_create_redirect (tn_pk tn) (''/'' @ path_segment t) (''/'' @ path_segment t') else (\<lambda>d. Inr ((), d))) (\<lambda>_.
           then_do (emit_settings_change tn operator [patch_op ''replace'' (''/listing_types/'' @ lt_key t) (Some (type_value t'))]) (\<lambda>_ d. Inr (t', d))) d2) db)"

definition update_listing_type :: "tenant \<Rightarrow> operator \<Rightarrow> listing_type \<Rightarrow> type_changes \<Rightarrow> 'z catalog_db_scheme \<Rightarrow> (catalog_error + listing_type) \<times> 'z catalog_db_scheme" where
  "update_listing_type tn operator t c db =
     (if tc_key c \<noteq> None then (Inl FROZEN_KEY, db)
      else catalog_command tn operator ''listing_types'' ''replace''
        (then_do (update_type_body tn operator t c) (\<lambda>t' d. Inr ((t', changed_names (type_value t) (type_value t')), d))) db)"

text \<open>Deleting: a type that a listing or an import batch refers to is protected; its categories go with it, and theirs.\<close>

lemma filter_shrinks:
  "x \<in> set xs \<Longrightarrow> Q x \<Longrightarrow> \<not> P x \<Longrightarrow> length (filter (\<lambda>y. Q y \<and> P y) xs) < length (filter Q xs)"
proof (induction xs)
  case (Cons y ys)
  have "length (filter (\<lambda>y. Q y \<and> P y) ys) \<le> length (filter Q ys)" by (induction ys) auto
  with Cons show ?case by auto
qed simp

definition new_children :: "category list \<Rightarrow> nat list \<Rightarrow> category list" where
  "new_children rows ks = filter (\<lambda>c. cat_pk c \<notin> set ks \<and> (case cat_parent c of None \<Rightarrow> False | Some p \<Rightarrow> p \<in> set ks)) rows"

function spread :: "category list \<Rightarrow> nat list \<Rightarrow> nat list" where
  "spread rows ks = (if new_children rows ks = [] then ks else spread rows (ks @ map cat_pk (new_children rows ks)))"
  by pat_completeness auto
termination
proof (relation "measure (\<lambda>(rows, ks). length (filter (\<lambda>c. cat_pk c \<notin> set ks) rows))")
  fix rows ks
  assume "new_children rows ks \<noteq> []"
  then obtain c where c: "c \<in> set (new_children rows ks)" by (cases "new_children rows ks") auto
  then have "c \<in> set rows" "cat_pk c \<notin> set ks" by (auto simp: new_children_def)
  with c show "((rows, ks @ map cat_pk (new_children rows ks)), rows, ks) \<in> measure (\<lambda>(rows, ks). length (filter (\<lambda>c. cat_pk c \<notin> set ks) rows))"
    using filter_shrinks [of c rows "\<lambda>c. cat_pk c \<notin> set ks" "\<lambda>c. cat_pk c \<notin> cat_pk ` set (new_children rows ks)"] by auto
qed simp

declare spread.simps [simp del]

definition drop_categories :: "nat list \<Rightarrow> 'z catalog_db_scheme \<Rightarrow> 'z catalog_db_scheme" where
  "drop_categories ks db =
     (let gone = filter (\<lambda>c. cat_pk c \<in> set ks) (category_rows db) in
      db\<lparr>category_rows := filter (\<lambda>c. cat_pk c \<notin> set ks) (category_rows db),
         listings := map (\<lambda>l. l\<lparr>categories := filter (\<lambda>s. \<not> list_ex (\<lambda>c. cat_slug c = s \<and> carries_type (cat_tenant c) (type_key_of (cat_type c) db) l) gone) (categories l)\<rparr>)
           (listings db)\<rparr>)"

definition protected_type :: "listing_type \<Rightarrow> 'z catalog_db_scheme \<Rightarrow> bool" where
  "protected_type t db \<longleftrightarrow>
     list_ex (carries_type (lt_tenant t) (Some (lt_key t))) (listings db) \<or> list_ex (\<lambda>b. ib_type b = Some (lt_pk t)) (batches db)"

definition delete_type_body :: "tenant \<Rightarrow> operator \<Rightarrow> listing_type \<Rightarrow> 'z catalog_db_scheme \<Rightarrow> catalog_error + unit \<times> 'z catalog_db_scheme" where
  "delete_type_body tn operator t = atomic (\<lambda>db.
     if protected_type t db then Inl (ValueError ''this type still has listings; move or delete them first'')
     else
       let ks = spread (category_rows db) (map cat_pk (filter (\<lambda>c. cat_type c = lt_pk t) (category_rows db)));
           d = (drop_categories ks db)\<lparr>listing_types := filter (\<lambda>r. lt_pk r \<noteq> lt_pk t) (listing_types db)\<rparr> in
       then_do (emit_settings_change tn operator [patch_op ''remove'' (''/listing_types/'' @ lt_key t) None]) (\<lambda>_ d'. Inr ((), d')) d)"

definition delete_listing_type :: "tenant \<Rightarrow> operator \<Rightarrow> listing_type \<Rightarrow> 'z catalog_db_scheme \<Rightarrow> (catalog_error + unit) \<times> 'z catalog_db_scheme" where
  "delete_listing_type tn operator t =
     catalog_command tn operator ''listing_types'' ''remove'' (then_do (delete_type_body tn operator t) (\<lambda>_ d. Inr (((), []), d)))"

subsection \<open>Categories\<close>

definition RESERVED_SLUGS :: "string list" where
  "RESERVED_SLUGS = [''search'', ''admin'', ''media'', ''claim'', ''lead'', ''owner'', ''_adapters'', ''_internal'', ''robots.txt'', ''sitemap.xml'',
     ''sitemaps'', ''.well-known'']"

definition reserved_slug :: "string \<Rightarrow> catalog_error" where
  "reserved_slug s = SchemaError [repr s @ '' is a reserved slug'']"

definition create_category_body :: "tenant \<Rightarrow> operator \<Rightarrow> listing_type \<Rightarrow> string \<Rightarrow> string \<Rightarrow> nat option \<Rightarrow> nat \<Rightarrow> 'z catalog_db_scheme \<Rightarrow> catalog_error + category \<times> 'z catalog_db_scheme" where
  "create_category_body tn operator t name slug parent order = atomic (\<lambda>db.
     if slug \<in> set RESERVED_SLUGS then Inl (reserved_slug slug)
     else
       let c = \<lparr>cat_pk = Suc (seq db), cat_tenant = tn_pk tn, cat_type = lt_pk t, cat_public_id = prefixed ''cat_'' (draw_ulid db), cat_slug = slug,
                cat_name = name, cat_parent = parent, cat_order = order, cat_created_at = wall db\<rparr> in
       then_do (insert_category c) (\<lambda>_ d.
       then_do (emit_settings_change tn operator [patch_op ''add'' (''/categories/'' @ lt_key t @ ''/'' @ cat_slug c) (Some (category_value c d))]) (\<lambda>_ d'. Inr (c, d')) d) db)"

definition create_category :: "tenant \<Rightarrow> operator \<Rightarrow> listing_type \<Rightarrow> string \<Rightarrow> string \<Rightarrow> nat option \<Rightarrow> nat \<Rightarrow> 'z catalog_db_scheme \<Rightarrow> (catalog_error + category) \<times> 'z catalog_db_scheme" where
  "create_category tn operator t name slug parent order =
     catalog_command tn operator ''categories'' ''add''
       (then_do (create_category_body tn operator t name slug parent order) (\<lambda>c d. Inr ((c, dict_keys (category_fields c)), d)))"

definition category_url_prefix :: "listing_type \<Rightarrow> 'z catalog_db_scheme \<Rightarrow> string" where
  "category_url_prefix t db = (if 1 < length (types_of (lt_tenant t) db) then ''/'' @ path_segment t else [])"

record category_changes =
  cc_name :: "string option"
  cc_slug :: "string option"
  cc_parent :: "nat option option"
  cc_order :: "nat option"

definition changed_category :: "category_changes \<Rightarrow> category \<Rightarrow> category" where
  "changed_category ch c =
     c\<lparr>cat_name := given (cc_name ch) (cat_name c), cat_slug := given (cc_slug ch) (cat_slug c),
       cat_parent := given (cc_parent ch) (cat_parent c), cat_order := given (cc_order ch) (cat_order c)\<rparr>"

text \<open>\<open>t\<close> is \<^verbatim>\<open>category.listing_type\<close>.\<close>

definition update_category_rows :: "tenant \<Rightarrow> operator \<Rightarrow> listing_type \<Rightarrow> category \<Rightarrow> category_changes \<Rightarrow> 'z catalog_db_scheme \<Rightarrow> catalog_error + category \<times> 'z catalog_db_scheme" where
  "update_category_rows tn operator t c ch =
     (let c' = changed_category ch c in
      then_do (save_category (cat_slug c) c') (\<lambda>_ d1.
        let pre = category_url_prefix t d1 in
        then_do (if cc_slug ch \<noteq> None \<and> cat_slug c' \<noteq> cat_slug c
                 then update_or_create_redirect (tn_pk tn) (pre @ ''/'' @ cat_slug c) (pre @ ''/'' @ cat_slug c') else (\<lambda>d. Inr ((), d))) (\<lambda>_ d2.
          let d3 = (if cc_name ch \<noteq> None \<and> cat_name c' \<noteq> cat_name c then mark_reindex (tn_pk tn) ''category'' (cat_public_id c) ''renamed'' d2 else d2) in
          then_do (emit_settings_change tn operator [patch_op ''replace'' (''/categories/'' @ lt_key t @ ''/'' @ cat_slug c') (Some (category_value c' d3))])
            (\<lambda>_ d. Inr (c', d)) d3) d1))"

definition update_category_body :: "tenant \<Rightarrow> operator \<Rightarrow> listing_type \<Rightarrow> category \<Rightarrow> category_changes \<Rightarrow> 'z catalog_db_scheme \<Rightarrow> catalog_error + category \<times> 'z catalog_db_scheme" where
  "update_category_body tn operator t c ch = atomic (\<lambda>db.
     case cc_slug ch of
       Some s \<Rightarrow> if s \<in> set RESERVED_SLUGS then Inl (reserved_slug s) else update_category_rows tn operator t c ch db
     | None \<Rightarrow> update_category_rows tn operator t c ch db)"

definition update_category :: "tenant \<Rightarrow> operator \<Rightarrow> listing_type \<Rightarrow> category \<Rightarrow> category_changes \<Rightarrow> 'z catalog_db_scheme \<Rightarrow> (catalog_error + category) \<times> 'z catalog_db_scheme" where
  "update_category tn operator t c ch =
     catalog_command tn operator ''categories'' ''replace''
       (then_do (update_category_body tn operator t c ch) (\<lambda>c' d. Inr ((c', changed_names (category_fields c) (category_fields c')), d)))"

definition delete_category_body :: "tenant \<Rightarrow> operator \<Rightarrow> listing_type \<Rightarrow> category \<Rightarrow> 'z catalog_db_scheme \<Rightarrow> catalog_error + unit \<times> 'z catalog_db_scheme" where
  "delete_category_body tn operator t c = atomic (\<lambda>db.
     then_do (emit_settings_change tn operator [patch_op ''remove'' (''/categories/'' @ lt_key t @ ''/'' @ cat_slug c) None]) (\<lambda>_ d. Inr ((), d))
       (drop_categories (spread (category_rows db) [cat_pk c]) db))"

definition delete_category :: "tenant \<Rightarrow> operator \<Rightarrow> listing_type \<Rightarrow> category \<Rightarrow> 'z catalog_db_scheme \<Rightarrow> (catalog_error + unit) \<times> 'z catalog_db_scheme" where
  "delete_category tn operator t c =
     catalog_command tn operator ''categories'' ''remove'' (then_do (delete_category_body tn operator t c) (\<lambda>_ d. Inr (((), []), d)))"

end
