(* ===== verification/Public_Site.thy ===== *)
theory Public_Site
  imports Catalog "HOL-Library.Product_Lexorder"
begin

section \<open>The public site: paths, redirects, pages\<close>

text \<open>
  \<^verbatim>\<open>directory/routing.py\<close> and the dispatcher of \<^verbatim>\<open>directory/public_views.py\<close>: the URL of a type, a category and a listing, the redirect
  table in front of them, and which page a path shows. A page is the data its template receives. The order and the pages of a
  list are the database's and the paginator's, and a parameter (\<open>paginate\<close>).
\<close>

subsection \<open>URLs\<close>

definition type_prefix :: "'t listing_type_scheme \<Rightarrow> bool \<Rightarrow> string" where
  "type_prefix t multi = (if multi then ''/'' @ path_segment t else [])"

definition type_url :: "'t listing_type_scheme \<Rightarrow> bool \<Rightarrow> string" where
  "type_url t multi = (if multi then ''/'' @ path_segment t @ ''/'' else ''/'')"

definition category_url :: "'t listing_type_scheme \<Rightarrow> category \<Rightarrow> bool \<Rightarrow> string" where
  "category_url t c multi = type_prefix t multi @ ''/'' @ cat_slug c @ ''/''"

definition listing_url :: "'t listing_type_scheme \<Rightarrow> category option \<Rightarrow> listing \<Rightarrow> bool \<Rightarrow> string option" where
  "listing_url t c l multi = map_option (\<lambda>k. type_prefix t multi @ ''/'' @ cat_slug k @ ''/'' @ ls_slug l) c"

definition canonical_category :: "listing \<Rightarrow> 'z catalog_db_scheme \<Rightarrow> category option" where
  "canonical_category l db =
     (case sort_key (\<lambda>c. (cat_order c, cat_slug c)) (categories_of_listing l db) of [] \<Rightarrow> None | c # _ \<Rightarrow> Some c)"

subsection \<open>Redirects\<close>

definition RESERVED_TOP :: "string list" where
  "RESERVED_TOP = [''robots.txt'', ''sitemap.xml'', ''sitemaps'', ''lead'']"

definition strip_slashes :: "string \<Rightarrow> string" where
  "strip_slashes s = rev (dropWhile (\<lambda>c. c = CHR ''/'') (rev (dropWhile (\<lambda>c. c = CHR ''/'') s)))"

definition first_segment :: "string \<Rightarrow> string" where
  "first_segment path = takeWhile (\<lambda>c. c \<noteq> CHR ''/'') (strip_slashes path)"

definition redirect_applies :: "path_redirect \<Rightarrow> string \<Rightarrow> bool" where
  "redirect_applies r path \<longleftrightarrow> old_prefix r = [] \<or> path = old_prefix r \<or> starts_with path (old_prefix r @ ''/'')"

definition match_redirect :: "nat \<Rightarrow> string \<Rightarrow> 'z catalog_db_scheme \<Rightarrow> string option" where
  "match_redirect tenant path db =
     (if first_segment path \<in> set RESERVED_TOP then None
      else map_option (\<lambda>r. new_prefix r @ drop (length (old_prefix r)) path)
        (find (\<lambda>r. redirect_applies r path)
          (sort_key (\<lambda>r. - int (length (old_prefix r))) (filter (\<lambda>r. pr_tenant r = tenant) (redirects db)))))"

subsection \<open>Pages\<close>

datatype page =
    NotFound
  | MovedTo string
  | Home "listing_type option" "category list"
  | HomeTypes "listing_type list"
  | TypeLanding listing_type "category list"
  | CategoryPage listing_type category "category list" "listing list" nat string
  | ListingPage listing_type listing category "string option" "(json \<times> json) list"

record site =
  st_paginate :: "string \<Rightarrow> listing list \<Rightarrow> listing list"

definition root_categories :: "listing_type \<Rightarrow> 'z catalog_db_scheme \<Rightarrow> category list" where
  "root_categories t db = filter (\<lambda>c. cat_type c = lt_pk t \<and> cat_parent c = None) (category_rows db)"

definition home :: "tenant \<Rightarrow> 'z catalog_db_scheme \<Rightarrow> page" where
  "home tn db =
     (case types_of (tn_pk tn) db of
        [] \<Rightarrow> Home None []
      | [t] \<Rightarrow> Home (Some t) (root_categories t db)
      | ts \<Rightarrow> HomeTypes ts)"

definition category_or_404 :: "listing_type \<Rightarrow> string \<Rightarrow> 'z catalog_db_scheme \<Rightarrow> category option" where
  "category_or_404 t slug db = find (\<lambda>c. cat_type c = lt_pk t \<and> cat_slug c = slug) (category_rows db)"

definition of_type :: "listing_type \<Rightarrow> listing \<Rightarrow> bool" where
  "of_type t l \<longleftrightarrow> ls_tenant l = lt_tenant t \<and> ls_type_key l = lt_key t"

definition published :: "listing_type \<Rightarrow> 'z directory_db_scheme \<Rightarrow> listing list" where
  "published t db = filter (\<lambda>l. of_type t l \<and> visibility l = V_PUBLISHED) (listings db)"

definition category_page :: "site \<Rightarrow> tenant \<Rightarrow> listing_type \<Rightarrow> string \<Rightarrow> bool \<Rightarrow> string \<Rightarrow> 'z catalog_db_scheme \<Rightarrow> page" where
  "category_page st tn t slug multi number db =
     (case category_or_404 t slug db of
        None \<Rightarrow> NotFound
      | Some c \<Rightarrow>
          let base = filter (\<lambda>l. cat_slug c \<in> set (categories l)) (published t db) in
          CategoryPage t c (filter (\<lambda>k. cat_type k = lt_pk t \<and> cat_parent k = Some (cat_pk c)) (category_rows db))
            (st_paginate st number base) (length base) (absolute_url tn (category_url t c multi)))"

definition public_fields :: "listing_type \<Rightarrow> listing \<Rightarrow> (json \<times> json) list" where
  "public_fields t l =
     concat (map (\<lambda>f.
       let v = get_or_null (custom_fields l) (py_str (get_or_null f ''key'')) in
       if (case dict_get f ''public'' of None \<Rightarrow> True | Some p \<Rightarrow> truthy p) \<and> v \<noteq> JNull \<and> v \<noteq> JStr []
       then [(get_or_null f ''label'', v)] else []) (lt_fields t))"

definition listing_detail :: "tenant \<Rightarrow> listing_type \<Rightarrow> string \<Rightarrow> string \<Rightarrow> bool \<Rightarrow> 'z catalog_db_scheme \<Rightarrow> page" where
  "listing_detail tn t category_slug listing_slug multi db =
     (case find (\<lambda>l. ls_slug l = listing_slug) (published t db) of
        None \<Rightarrow> NotFound
      | Some l \<Rightarrow>
          (case category_or_404 t category_slug db of
             None \<Rightarrow> NotFound
           | Some c \<Rightarrow>
               if cat_slug c \<notin> set (categories l) then NotFound
               else
                 let canonical = (case canonical_category l db of None \<Rightarrow> c | Some k \<Rightarrow> k) in
                 ListingPage t l c (map_option (absolute_url tn) (listing_url t (Some canonical) l multi)) (public_fields t l)))"

definition segments_of :: "string \<Rightarrow> string list" where
  "segments_of path = filter (\<lambda>s. s \<noteq> []) (split_on CHR ''/'' path)"

definition type_landing :: "listing_type \<Rightarrow> 'z catalog_db_scheme \<Rightarrow> page" where
  "type_landing t db = TypeLanding t (root_categories t db)"

definition show_segments :: "site \<Rightarrow> tenant \<Rightarrow> listing_type \<Rightarrow> bool \<Rightarrow> string \<Rightarrow> string list \<Rightarrow> 'z catalog_db_scheme \<Rightarrow> page" where
  "show_segments st tn t multi number segs db =
     (case segs of
        [] \<Rightarrow> type_landing t db
      | [c] \<Rightarrow> category_page st tn t c multi number db
      | [c, l] \<Rightarrow> listing_detail tn t c l multi db
      | _ \<Rightarrow> NotFound)"

text \<open>\<open>path\<close> is the path without its leading slash, \<open>number\<close> the page of the query string.\<close>

definition public_dispatch :: "site \<Rightarrow> tenant \<Rightarrow> string \<Rightarrow> string \<Rightarrow> 'z catalog_db_scheme \<Rightarrow> page" where
  "public_dispatch st tn path number db =
     (case match_redirect (tn_pk tn) (''/'' @ path) db of
        Some target \<Rightarrow> MovedTo target
      | None \<Rightarrow>
          (case types_of (tn_pk tn) db of
             [] \<Rightarrow> NotFound
           | [t] \<Rightarrow> show_segments st tn t False number (segments_of path) db
           | ts \<Rightarrow>
               (case segments_of path of
                  [] \<Rightarrow> NotFound
                | s # segs \<Rightarrow>
                    (case find (\<lambda>t. path_segment t = s) ts of
                       None \<Rightarrow> NotFound
                     | Some t \<Rightarrow> show_segments st tn t True number segs db))))"

end
