(* ===== verification/Search.thy ===== *)
theory Search
  imports Catalog
begin

section \<open>The search index and its reindex markers\<close>

text \<open>
  \<^verbatim>\<open>directory/search.py\<close>, as far as it does not run inside PostgreSQL: the document a listing's vector is computed from, and the drain
  of the markers that a schema change or a renamed category leaves behind. The store keeps the document instead of the vector. The
  query side (ranking, distance, trigrams) is the database's.
\<close>

definition DEFAULT_SEARCH_CONFIG :: string where
  "DEFAULT_SEARCH_CONFIG = ''english''"

definition SEARCHABLE_CUSTOM_TYPES :: "string list" where
  "SEARCHABLE_CUSTOM_TYPES = [''text'', ''long_text'', ''select'']"

definition search_config_for :: "tenant \<Rightarrow> string" where
  "search_config_for tn =
     (case dict_get (tn_settings tn) ''search_config'' of None \<Rightarrow> DEFAULT_SEARCH_CONFIG | Some v \<Rightarrow> if truthy v then py_str v else DEFAULT_SEARCH_CONFIG)"

definition searchable_custom_text :: "dict list \<Rightarrow> listing \<Rightarrow> string" where
  "searchable_custom_text fs l =
     join '' '' (concat (map (\<lambda>(k, v).
       case map_of (schema_of fs) k of
         None \<Rightarrow> []
       | Some f \<Rightarrow> if f \<noteq> [] \<and> truthy (get_or_null f ''searchable'') \<and> get_or_null f ''type'' \<in> JStr ` set SEARCHABLE_CUSTOM_TYPES
                    \<and> v \<noteq> JNull \<and> v \<noteq> JStr [] then [py_str v] else []) (custom_fields l)))"

text \<open>\<^verbatim>\<open>recompute_search_vector_v1\<close>.\<close>

definition search_document :: "tenant \<Rightarrow> listing \<Rightarrow> 'z catalog_db_scheme \<Rightarrow> search_doc" where
  "search_document tn l db =
     \<lparr>sd_config = search_config_for tn, sd_name = ls_name l,
      sd_categories = sort (map cat_name (categories_of_listing l db)), sd_description = description l,
      sd_rest = join '' '' (filter (\<lambda>part. part \<noteq> [])
        [searchable_custom_text (case type_of_listing l db of None \<Rightarrow> [] | Some t \<Rightarrow> lt_fields t) l, locality l, region l])\<rparr>"

definition recompute_search_vector :: "tenant \<Rightarrow> listing \<Rightarrow> 'z catalog_db_scheme \<Rightarrow> 'z catalog_db_scheme" where
  "recompute_search_vector tn l db = db\<lparr>search_docs := (search_docs db)(ls_pk l \<mapsto> search_document tn l db)\<rparr>"

subsection \<open>The drain\<close>

definition REINDEX_CHUNK :: nat where
  "REINDEX_CHUNK = 200"

record reindex_result =
  rr_listings :: nat
  rr_markers_done :: nat
  rr_more :: bool

definition marker_covers :: "reindex_job \<Rightarrow> 'z catalog_db_scheme \<Rightarrow> listing \<Rightarrow> bool" where
  "marker_covers j db l \<longleftrightarrow> ls_tenant l = rj_tenant j \<and>
     (if rj_scope j = ''listing_type'' then (case type_of_listing l db of None \<Rightarrow> False | Some t \<Rightarrow> lt_public_id t = rj_scope_ref j)
      else if rj_scope j = ''category'' then list_ex (\<lambda>c. cat_public_id c = rj_scope_ref j) (categories_of_listing l db)
      else True)"

definition pending_marker :: "nat option \<Rightarrow> reindex_job \<Rightarrow> bool" where
  "pending_marker tenant j \<longleftrightarrow> rj_done_at j = None \<and> (case tenant of None \<Rightarrow> True | Some t \<Rightarrow> rj_tenant j = t)"

definition marker_chunk :: "reindex_job \<Rightarrow> nat \<Rightarrow> 'z catalog_db_scheme \<Rightarrow> listing list" where
  "marker_chunk j limit db = take limit (filter (\<lambda>l. marker_covers j db l \<and> rj_cursor j < ls_pk l) (listings db))"

text \<open>The marker's tenant is a foreign key.\<close>

definition drain_reindex_markers :: "instant \<Rightarrow> nat \<Rightarrow> nat option \<Rightarrow> 'z catalog_db_scheme \<Rightarrow> reindex_result \<times> 'z catalog_db_scheme" where
  "drain_reindex_markers now limit tenant db =
     (case find (pending_marker tenant) (reindex_jobs db) of
        None \<Rightarrow> (\<lparr>rr_listings = 0, rr_markers_done = 0, rr_more = False\<rparr>, db)
      | Some j \<Rightarrow>
          (case find_by tn_pk (rj_tenant j) (tenants db) of
             None \<Rightarrow> (\<lparr>rr_listings = 0, rr_markers_done = 0, rr_more = False\<rparr>, db)
           | Some tn \<Rightarrow>
               let chunk = marker_chunk j limit db; finished = length chunk < limit;
                   d = fold (recompute_search_vector tn) chunk db;
                   d' = d\<lparr>reindex_jobs := update_where (\<lambda>r. rj_pk r = rj_pk j \<and> rj_done_at r = None)
                     (\<lambda>r. r\<lparr>rj_cursor := if chunk = [] then rj_cursor j else ls_pk (last chunk), rj_done_at := if finished then Some now else None\<rparr>) (reindex_jobs d)\<rparr> in
               (\<lparr>rr_listings = length chunk, rr_markers_done = (if finished then 1 else 0),
                 rr_more = (\<not> finished \<or> list_ex (\<lambda>r. pending_marker tenant r \<and> rj_pk r \<noteq> rj_pk j) (reindex_jobs d'))\<rparr>, d')))"

end
