(* ===== verification/Upsert.thy ===== *)
theory Upsert
  imports Search
begin

section \<open>The listing upsert\<close>

text \<open>
  \<^verbatim>\<open>upsert_listing\<close> of \<^verbatim>\<open>directory/services.py\<close>, the one write path of a listing for manual entry, CSV import and owner edits, with
  \<^verbatim>\<open>directory/normalize.py\<close> and \<^verbatim>\<open>directory/suppression.py\<close>: the payload becomes a JSON document, is logged, matched to a row by id or slug,
  normalised and checked member by member, saved under the constraints of the table, and published as \<^verbatim>\<open>listing.created\<close> or as the
  patch of \<^verbatim>\<open>listing.updated\<close>. Django's \<^verbatim>\<open>slugify\<close> and SHA-256 are parameters. A text member that is not a string is kept as its \<^verbatim>\<open>str\<close>, which is
  what the column stores.
\<close>

record upsert_world = validators +
  up_slugify :: "string \<Rightarrow> string"
  up_sha256 :: "string \<Rightarrow> string"

subsection \<open>JSON documents\<close>

text \<open>The Python values a caller may pass. A key of a dictionary is \<open>None\<close> when it is not a string; \<open>PBad\<close> is a number with no JSON
  representation, with its \<^verbatim>\<open>repr\<close>, and \<open>POther\<close> a value of any other type, with the name of the type.\<close>

datatype pyval =
    PNone
  | PBool bool
  | PInt int
  | PNum int \<comment> \<open>a finite float or \<^verbatim>\<open>Decimal\<close>, in millionths\<close>
  | PBad string
  | PText string
  | PDate string
  | PList "pyval list"
  | PDict "(string option \<times> pyval) list"
  | POther string

fun jsonable :: "pyval \<Rightarrow> string + json" and jsonable_all :: "pyval list \<Rightarrow> string + json list"
  and jsonable_items :: "(string option \<times> pyval) list \<Rightarrow> string + dict" where
  "jsonable PNone = Inr JNull"
| "jsonable (PBool b) = Inr (JBool b)"
| "jsonable (PInt n) = Inr (JInt n)"
| "jsonable (PNum n) = Inr (JDec n)"
| "jsonable (PBad r) = Inl (r @ '' has no JSON representation'')"
| "jsonable (PText s) = Inr (JStr s)"
| "jsonable (PDate s) = Inr (JStr s)"
| "jsonable (PList xs) = bind_result (jsonable_all xs) (\<lambda>js. Inr (JList js))"
| "jsonable (PDict kvs) = bind_result (jsonable_items kvs) (\<lambda>d. Inr (JObj d))"
| "jsonable (POther t) = Inl (t @ '' has no JSON representation'')"
| "jsonable_all [] = Inr []"
| "jsonable_all (x # xs) = bind_result (jsonable x) (\<lambda>j. bind_result (jsonable_all xs) (\<lambda>js. Inr (j # js)))"
| "jsonable_items [] = Inr []"
| "jsonable_items ((k, x) # kvs) =
     (case k of
        None \<Rightarrow> Inl ''an object key is not a string''
      | Some s \<Rightarrow> bind_result (jsonable x) (\<lambda>j. bind_result (jsonable_items kvs) (\<lambda>d. Inr ((s, j) # d))))"

subsection \<open>Normalising a member\<close>

definition text_of :: "json \<Rightarrow> json" where
  "text_of v = (case v of JStr s \<Rightarrow> if strip s = [] then JNull else JStr (strip s) | _ \<Rightarrow> v)"

text \<open>\<^verbatim>\<open>normalize.text(v) or ""\<close>, as the column stores it.\<close>

definition text_column :: "json \<Rightarrow> string" where
  "text_column v = (if truthy (text_of v) then py_str (text_of v) else [])"

text \<open>A normaliser that goes on to a string method: another type raises.\<close>

definition string_column :: "(string \<Rightarrow> string) \<Rightarrow> json \<Rightarrow> catalog_error + string" where
  "string_column f v =
     (case text_of v of JStr s \<Rightarrow> Inr (f s) | t \<Rightarrow> if truthy t then Inl TypeError else Inr [])"

definition website_text :: "string \<Rightarrow> string" where
  "website_text s =
     (let scheme = takeWhile (\<lambda>c. c \<noteq> CHR '':'') s; tail = drop (length scheme) s;
          host = takeWhile (\<lambda>c. c \<noteq> CHR ''/'') (drop 3 tail); rest = drop (length host) (drop 3 tail) in
      if scheme \<noteq> [] \<and> (is_lower (hd scheme) \<or> is_upper (hd scheme)) \<and> list_all is_scheme_char scheme
         \<and> starts_with tail ''://'' \<and> host \<noteq> [] \<and> newline \<notin> set rest
      then lower (scheme @ ''://'' @ host) @ (if rest = ''/'' then [] else rest)
      else s)"

definition phone_column :: "json \<Rightarrow> catalog_error + string" where
  "phone_column v =
     (case text_of v of
        JStr s \<Rightarrow> (case normalize_phone s of
                     Inl _ \<Rightarrow> Inl (SchemaError [''phone is not a valid E.164 number''])
                   | Inr p \<Rightarrow> Inr (case p of None \<Rightarrow> [] | Some t \<Rightarrow> t))
      | t \<Rightarrow> if truthy t then Inl TypeError else Inr [])"

definition slug_of :: "'w upsert_world_scheme \<Rightarrow> json \<Rightarrow> json" where
  "slug_of w v = (let t = text_of v in if truthy t then JStr (up_slugify w (py_str t)) else t)"

subsection \<open>Coordinates\<close>

text \<open>\<^verbatim>\<open>Decimal.quantize\<close> to six places under the default context: half to even, at most 28 digits. The result counts millionths.\<close>

definition half_even :: "nat \<Rightarrow> nat \<Rightarrow> nat" where
  "half_even n m = (let q = n div m; r = n mod m in if m < 2 * r \<or> (2 * r = m \<and> odd q) then q + 1 else q)"

definition quantize6 :: "bool \<Rightarrow> string \<Rightarrow> int \<Rightarrow> int option" where
  "quantize6 neg ds e =
     (let n = digits_value ds; sh = e + 6;
          m = (if 0 \<le> sh then (if int (length ds) + sh \<le> 28 then n * 10 ^ nat sh else 10 ^ 28)
               else if int (length ds) < - sh then 0 else half_even n (10 ^ nat (- sh))) in
      if n = 0 then Some 0 else if 10 ^ 28 \<le> m then None else Some (if neg then - int m else int m))"

datatype coordinate = Micro int | NotANumber

definition decimal6 :: "json \<Rightarrow> unit + coordinate option" where
  "decimal6 v =
     (if v = JNull \<or> v = JStr [] then Inr None
      else case parse_decimal (strip (py_str v)) of
        Some (DecNum neg ds e) \<Rightarrow> (case quantize6 neg ds e of None \<Rightarrow> Inl () | Some n \<Rightarrow> Inr (Some (Micro n)))
      | Some (DecNaN neg signalling payload) \<Rightarrow> if signalling then Inl () else Inr (Some NotANumber)
      | _ \<Rightarrow> Inl ())"

subsection \<open>The suppression key\<close>

definition squeeze :: "string \<Rightarrow> string" where
  "squeeze s = join '' '' (filter (\<lambda>p. p \<noteq> []) (split_on CHR '' '' (map (\<lambda>c. if is_space c then CHR '' '' else c) s)))"

definition canon :: "json \<Rightarrow> string" where
  "canon v = squeeze (lower (if v = JNull then [] else py_str v))"

definition canon_phone :: "json \<Rightarrow> string" where
  "canon_phone v =
     (let cleaned = filter (\<lambda>c. is_digit c \<or> c = CHR ''+'') (if v = JNull then [] else py_str v) in
      if starts_with cleaned ''+'' then ''+'' @ dropWhile (\<lambda>c. c = CHR ''+'') cleaned else cleaned)"

definition SEP :: string where
  "SEP = [char_of (31::nat)]"

definition fingerprint_text :: "json \<Rightarrow> json list \<Rightarrow> json \<Rightarrow> string option" where
  "fingerprint_text name address phone =
     (if canon name = [] then None
      else Some (join SEP [canon name, join '', '' (filter (\<lambda>p. p \<noteq> []) (map canon address)), canon_phone phone]))"

definition fingerprint :: "'w upsert_world_scheme \<Rightarrow> json \<Rightarrow> json list \<Rightarrow> json \<Rightarrow> catalog_error + string" where
  "fingerprint w name address phone =
     (case fingerprint_text name address phone of
        None \<Rightarrow> Inl (ValueError ''fingerprint requires a non-empty name'')
      | Some s \<Rightarrow> Inr (up_sha256 w s))"

text \<open>\<^verbatim>\<open>payload.get(key) or {}\<close>, and \<^verbatim>\<open>key in c\<close> followed by \<^verbatim>\<open>c[key]\<close> for a container that need not be an object.\<close>

definition container :: "dict \<Rightarrow> string \<Rightarrow> json" where
  "container payload key = (let v = get_or_null payload key in if truthy v then v else JObj [])"

definition member :: "json \<Rightarrow> string \<Rightarrow> catalog_error + json option" where
  "member c k =
     (case c of
        JObj d \<Rightarrow> Inr (dict_get d k)
      | JList xs \<Rightarrow> if JStr k \<in> set xs then Inl TypeError else Inr None
      | JStr s \<Rightarrow> if contains k s then Inl TypeError else Inr None
      | _ \<Rightarrow> Inl TypeError)"

definition check_suppressed :: "'w upsert_world_scheme \<Rightarrow> tenant \<Rightarrow> dict \<Rightarrow> 'z catalog_db_scheme \<Rightarrow> catalog_error + unit" where
  "check_suppressed w tn payload db =
     (if \<not> truthy (text_of (get_or_null payload ''name'')) then Inr ()
      else case (container payload ''location'', container payload ''contact'') of
        (JObj loc, JObj contact) \<Rightarrow>
          bind_result (fingerprint w (get_or_null payload ''name'')
              (map (get_or_null loc) [''address_line1'', ''locality'', ''region'', ''postal_code'', ''country'']) (get_or_null contact ''phone_e164''))
            (\<lambda>h. if list_ex (\<lambda>k. sk_tenant k = tn_pk tn \<and> key_hash k = h) (suppression_keys db) then Inl (Suppressed h) else Inr ())
      | _ \<Rightarrow> Inl TypeError)"

subsection \<open>Applying a payload\<close>

text \<open>The listing in memory: the row, and whether an attribute holds a value no column takes (a null slug, a NaN).\<close>

record draft =
  dr_row :: listing
  dr_null_slug :: bool
  dr_nan :: bool

type_synonym edit = "draft \<Rightarrow> catalog_error + draft"

definition on_row :: "(listing \<Rightarrow> listing) \<Rightarrow> draft \<Rightarrow> draft" where
  "on_row f d = d\<lparr>dr_row := f (dr_row d)\<rparr>"

definition given_member :: "dict \<Rightarrow> string \<Rightarrow> (json \<Rightarrow> edit) \<Rightarrow> edit" where
  "given_member payload k f d = (case dict_get payload k of None \<Rightarrow> Inr d | Some v \<Rightarrow> f v d)"

definition given_in :: "json \<Rightarrow> string \<Rightarrow> (json \<Rightarrow> edit) \<Rightarrow> edit" where
  "given_in c k f d = bind_result (member c k) (\<lambda>m. case m of None \<Rightarrow> Inr d | Some v \<Rightarrow> f v d)"

fun edits :: "edit list \<Rightarrow> edit" where
  "edits [] d = Inr d"
| "edits (f # fs) d = bind_result (f d) (edits fs)"

definition edit_name :: "json \<Rightarrow> edit" where
  "edit_name v d =
     (if truthy (text_of v) then Inr (on_row (\<lambda>l. l\<lparr>ls_name := text_column v\<rparr>) d) else Inl (SchemaError [''name cannot be empty'']))"

definition edit_slug :: "'w upsert_world_scheme \<Rightarrow> json \<Rightarrow> edit" where
  "edit_slug w v d =
     (let raw = lower (strip (if truthy v then py_str v else [])); slug = slug_of w v in
      if raw \<in> set RESERVED_SLUGS \<or> slug \<in> JStr ` set RESERVED_SLUGS then Inl (reserved_slug (py_str v))
      else Inr ((on_row (\<lambda>l. l\<lparr>ls_slug := py_str slug\<rparr>) d)\<lparr>dr_null_slug := (slug = JNull)\<rparr>))"

definition edit_text :: "(string \<Rightarrow> listing \<Rightarrow> listing) \<Rightarrow> json \<Rightarrow> edit" where
  "edit_text upd v d = Inr (on_row (upd (text_column v)) d)"

definition edit_string :: "(string \<Rightarrow> string) \<Rightarrow> (string \<Rightarrow> listing \<Rightarrow> listing) \<Rightarrow> json \<Rightarrow> edit" where
  "edit_string f upd v d = bind_result (string_column f v) (\<lambda>s. Inr (on_row (upd s) d))"

definition edit_phone :: "json \<Rightarrow> edit" where
  "edit_phone v d = bind_result (phone_column v) (\<lambda>s. Inr (on_row (\<lambda>l. l\<lparr>phone_e164 := s\<rparr>) d))"

definition read_coordinate :: "dict \<Rightarrow> string \<Rightarrow> int option \<Rightarrow> catalog_error + coordinate option" where
  "read_coordinate loc k old =
     (case dict_get loc k of
        None \<Rightarrow> Inr (map_option Micro old)
      | Some v \<Rightarrow> (case decimal6 v of Inl _ \<Rightarrow> Inl (SchemaError [''coordinate is not a valid number'']) | Inr c \<Rightarrow> Inr c))"

definition micro_of :: "coordinate option \<Rightarrow> int option" where
  "micro_of c = (case c of Some (Micro n) \<Rightarrow> Some n | _ \<Rightarrow> None)"

definition GEO_NONE :: string where
  "GEO_NONE = ''none''"

definition apply_geo :: "dict \<Rightarrow> edit" where
  "apply_geo loc d =
     bind_result (read_coordinate loc ''lat'' (lat (dr_row d))) (\<lambda>la.
     bind_result (read_coordinate loc ''lon'' (lon (dr_row d))) (\<lambda>lo.
     let explicit = get_or_null loc ''geo_precision'' in
     if la = None \<or> lo = None then Inr (on_row (\<lambda>l. l\<lparr>lat := None, lon := None, geo_precision := GEO_NONE\<rparr>) d)
     else if explicit = JStr GEO_NONE then Inl (SchemaError [''geo_precision cannot be 'none' when coordinates are present''])
     else Inr ((on_row (\<lambda>l. l\<lparr>lat := micro_of la, lon := micro_of lo,
                 geo_precision := if truthy explicit then py_str explicit else if geo_precision l = GEO_NONE then ''locality'' else geo_precision l\<rparr>) d)
               \<lparr>dr_nan := (la = Some NotANumber \<or> lo = Some NotANumber)\<rparr>)))"

definition edit_geo :: "json \<Rightarrow> edit" where
  "edit_geo loc d =
     (case loc of
        JObj e \<Rightarrow> if list_ex (\<lambda>k. dict_get e k \<noteq> None) [''lat'', ''lon'', ''geo_precision''] then apply_geo e d else Inr d
      | _ \<Rightarrow> bind_result (member loc ''lat'') (\<lambda>_. bind_result (member loc ''lon'') (\<lambda>_. bind_result (member loc ''geo_precision'') (\<lambda>_. Inr d))))"

definition edit_social :: "json \<Rightarrow> edit" where
  "edit_social v d =
     (case v of
        JNull \<Rightarrow> Inr (on_row (\<lambda>l. l\<lparr>social := []\<rparr>) d)
      | JList xs \<Rightarrow> Inr (on_row (\<lambda>l. l\<lparr>social := xs\<rparr>) d)
      | _ \<Rightarrow> Inl (SchemaError [''contact.social must be a list'']))"

definition edit_blob :: "string \<Rightarrow> (dict \<Rightarrow> listing \<Rightarrow> listing) \<Rightarrow> json \<Rightarrow> edit" where
  "edit_blob name upd v d =
     (case v of
        JNull \<Rightarrow> Inr (on_row (upd []) d)
      | JObj e \<Rightarrow> Inr (on_row (upd e) d)
      | _ \<Rightarrow> Inl (SchemaError [name @ '' must be an object'']))"

text \<open>\<^verbatim>\<open>validate_custom_fields\<close> on a value that is not an object: with a schema it raises on \<^verbatim>\<open>values.get\<close>, without one every element is unknown.\<close>

definition checked_custom :: "validators \<Rightarrow> dict list \<Rightarrow> json \<Rightarrow> bool \<Rightarrow> bool \<Rightarrow> catalog_error + dict" where
  "checked_custom v fs values creating enforce_required =
     (let unknown = (\<lambda>xs. Inl (SchemaError (map (\<lambda>x. repr (py_str x) @ '' is not a field on this listing type'') xs))) in
      case values of
        JObj d \<Rightarrow> (case validate_custom_fields v fs d creating enforce_required of Inl es \<Rightarrow> Inl (SchemaError es) | Inr c \<Rightarrow> Inr c)
      | JList xs \<Rightarrow> if fs = [] \<and> list_all hashable xs then unknown xs else Inl TypeError
      | JStr s \<Rightarrow> if fs = [] then unknown (map (\<lambda>c. JStr [c]) s) else Inl TypeError
      | _ \<Rightarrow> Inl TypeError)"

definition merge_custom :: "dict \<Rightarrow> dict \<Rightarrow> dict" where
  "merge_custom cleaned current = fold (\<lambda>(k, v) d. if v = JNull then dict_del k d else dict_set k v d) cleaned current"

definition edit_custom :: "validators \<Rightarrow> dict list \<Rightarrow> bool \<Rightarrow> bool \<Rightarrow> json \<Rightarrow> edit" where
  "edit_custom v fs creating enforce_required values d =
     bind_result (checked_custom v fs (if truthy values then values else JObj []) creating enforce_required)
       (\<lambda>cleaned. Inr (on_row (\<lambda>l. l\<lparr>custom_fields := merge_custom cleaned (custom_fields l)\<rparr>) d))"

definition the_validators :: "'w upsert_world_scheme \<Rightarrow> validators" where
  "the_validators w = \<lparr>url_valid = url_valid w, email_valid = email_valid w\<rparr>"

definition apply_payload :: "'w upsert_world_scheme \<Rightarrow> listing_type \<Rightarrow> dict \<Rightarrow> bool \<Rightarrow> bool \<Rightarrow> edit" where
  "apply_payload w t payload creating enforce_required =
     (let loc = container payload ''location''; contact = container payload ''contact'' in
      edits
        [given_member payload ''name'' edit_name,
         given_member payload ''slug'' (edit_slug w),
         given_member payload ''description'' (edit_text (\<lambda>s l. l\<lparr>description := s\<rparr>)),
         given_member payload ''reviews_disabled'' (\<lambda>v d. Inr (on_row (\<lambda>l. l\<lparr>reviews_disabled := truthy v\<rparr>) d)),
         given_in loc ''address_line1'' (edit_text (\<lambda>s l. l\<lparr>address_line1 := s\<rparr>)),
         given_in loc ''address_line2'' (edit_text (\<lambda>s l. l\<lparr>address_line2 := s\<rparr>)),
         given_in loc ''locality'' (edit_text (\<lambda>s l. l\<lparr>locality := s\<rparr>)),
         given_in loc ''region'' (edit_text (\<lambda>s l. l\<lparr>region := s\<rparr>)),
         given_in loc ''postal_code'' (edit_text (\<lambda>s l. l\<lparr>postal_code := s\<rparr>)),
         given_in loc ''country'' (edit_string upper (\<lambda>s l. l\<lparr>country := s\<rparr>)),
         edit_geo loc,
         given_in contact ''phone_e164'' edit_phone,
         given_in contact ''email'' (edit_string lower (\<lambda>s l. l\<lparr>email := s\<rparr>)),
         given_in contact ''website'' (edit_string website_text (\<lambda>s l. l\<lparr>website := s\<rparr>)),
         given_in contact ''social'' edit_social,
         given_member payload ''external_profiles'' (edit_blob ''external_profiles'' (\<lambda>e l. l\<lparr>external_profiles := e\<rparr>)),
         given_member payload ''attributes'' (edit_blob ''attributes'' (\<lambda>e l. l\<lparr>attributes := e\<rparr>)),
         given_member payload ''custom_fields'' (edit_custom (the_validators w) (lt_fields t) creating enforce_required)])"

subsection \<open>Saving a listing\<close>

definition coordinate_fits :: "int option \<Rightarrow> bool" where
  "coordinate_fits c \<longleftrightarrow> (case c of None \<Rightarrow> True | Some n \<Rightarrow> \<bar>n\<bar> < 10 ^ 9)"

definition listing_columns :: "listing \<Rightarrow> bool" where
  "listing_columns l \<longleftrightarrow>
     fits 200 (ls_slug l) \<and> fits 255 (ls_name l) \<and> fits 255 (address_line1 l) \<and> fits 255 (address_line2 l) \<and> fits 120 (locality l)
     \<and> fits 120 (region l) \<and> fits 20 (postal_code l) \<and> fits 2 (country l) \<and> fits 10 (geo_precision l) \<and> fits 16 (phone_e164 l)
     \<and> fits 254 (email l) \<and> fits 200 (website l) \<and> fits 20 (source l) \<and> coordinate_fits (lat l) \<and> coordinate_fits (lon l)"

definition geo_consistent :: "listing \<Rightarrow> bool" where
  "geo_consistent l \<longleftrightarrow> (if geo_precision l = GEO_NONE then lat l = None \<and> lon l = None else lat l \<noteq> None \<and> lon l \<noteq> None)"

definition same_path :: "listing \<Rightarrow> listing \<Rightarrow> bool" where
  "same_path a b \<longleftrightarrow> ls_tenant a = ls_tenant b \<and> ls_type_key a = ls_type_key b \<and> ls_slug a = ls_slug b"

definition save_listing :: "bool \<Rightarrow> draft \<Rightarrow> 'z directory_db_scheme \<Rightarrow> catalog_error + unit \<times> 'z directory_db_scheme" where
  "save_listing creating d db =
     (let l = (dr_row d)\<lparr>ls_updated_at := wall db\<rparr> in
      if dr_nan d \<or> \<not> listing_columns l then Inl DataError
      else if dr_null_slug d \<or> \<not> geo_consistent l \<or> list_ex (\<lambda>r. ls_pk r \<noteq> ls_pk l \<and> same_path r l) (listings db) then Inl IntegrityError
      else Inr ((), if creating then db\<lparr>listings := listings db @ [l]\<rparr>
                    else db\<lparr>listings := update_where (\<lambda>r. ls_pk r = ls_pk l) (\<lambda>_. l) (listings db)\<rparr>))"

definition blank_listing :: "tenant \<Rightarrow> listing_type \<Rightarrow> string \<Rightarrow> nat option \<Rightarrow> nat option \<Rightarrow> 'z core_db_scheme \<Rightarrow> listing" where
  "blank_listing tn t src batch submitter db =
     \<lparr>ls_pk = Suc (seq db), ls_tenant = tn_pk tn, ls_type_key = lt_key t, ls_public_id = prefixed ''listing_'' (draw_ulid db),
      ls_slug = [], ls_name = [], description = [], ls_status = L_UNCLAIMED, visibility = V_DRAFT, current_tier = None, ls_owner = None,
      categories = [], address_line1 = [], address_line2 = [], locality = [], region = [], postal_code = [], country = [],
      lat = None, lon = None, geo_precision = GEO_NONE, phone_e164 = [], email = [], website = [], social = [],
      external_profiles = [], attributes = [], custom_fields = [], ls_media = \<lparr>logo = JNull, cover = JNull, gallery = []\<rparr>,
      reviews_disabled = False, source = src, provenance_notes = [], ls_updated_at = wall db, ls_created_at = wall db,
      ls_import_batch = batch, ls_submitted_by = submitter\<rparr>"

text \<open>\<^verbatim>\<open>_resolve_categories\<close>: the slugs asked for, as a set; one that no category has is reported, sorted, and values that do not sort
  together raise.\<close>

definition wanted_slugs :: "json \<Rightarrow> catalog_error + json list" where
  "wanted_slugs v =
     (if \<not> truthy v then Inr []
      else case v of
        JList xs \<Rightarrow> let ys = filter truthy xs in if list_all hashable ys then Inr (remdups ys) else Inl TypeError
      | JStr s \<Rightarrow> Inr (remdups (map (\<lambda>c. JStr [c]) s))
      | JObj d \<Rightarrow> Inr (filter truthy (map JStr (dict_keys d)))
      | _ \<Rightarrow> Inl TypeError)"

definition is_text :: "json \<Rightarrow> bool" where
  "is_text v \<longleftrightarrow> (case v of JStr _ \<Rightarrow> True | _ \<Rightarrow> False)"

definition sorted_missing :: "json list \<Rightarrow> catalog_error + string list" where
  "sorted_missing xs =
     (if list_all is_text xs then Inr (sort (map py_str xs))
      else if list_all (\<lambda>x. num_of x \<noteq> None) xs then Inr (map py_str (sort_key (\<lambda>x. the (num_of x)) xs))
      else Inl TypeError)"

definition resolve_categories :: "listing_type \<Rightarrow> json \<Rightarrow> 'z catalog_db_scheme \<Rightarrow> catalog_error + string list" where
  "resolve_categories t slugs db =
     bind_result (wanted_slugs slugs) (\<lambda>wanted.
       let found = filter (\<lambda>c. cat_type c = lt_pk t \<and> cat_slug c \<in> py_str ` set wanted) (category_rows db);
           missing = filter (\<lambda>s. s \<notin> JStr ` cat_slug ` set found) wanted in
       if missing = [] then Inr (map cat_slug found)
       else bind_result (sorted_missing missing) (\<lambda>ms. Inl (SchemaError (map (\<lambda>s. ''unknown category: '' @ s) ms))))"

definition set_categories :: "nat \<Rightarrow> string list \<Rightarrow> 'z directory_db_scheme \<Rightarrow> 'z directory_db_scheme" where
  "set_categories pk slugs db = db\<lparr>listings := update_where (\<lambda>r. ls_pk r = pk) (\<lambda>r. r\<lparr>categories := slugs\<rparr>) (listings db)\<rparr>"

text \<open>\<^verbatim>\<open>_record_import_row\<close>: the first touch of a listing by a batch wins.\<close>

definition record_import_row :: "nat \<Rightarrow> listing \<Rightarrow> row_action \<Rightarrow> dict option \<Rightarrow> 'z catalog_db_scheme \<Rightarrow> 'z catalog_db_scheme" where
  "record_import_row batch l action pre db =
     (if list_ex (\<lambda>r. br_batch r = batch \<and> br_listing r = ls_pk l) (batch_rows db) then db
      else db\<lparr>batch_rows := batch_rows db @ [\<lparr>br_pk = Suc (seq db), br_tenant = ls_tenant l, br_batch = batch, br_listing = ls_pk l, br_action = action,
             pre_image = pre, pre_image_nulled_at = None, br_created_at = wall db\<rparr>], seq := Suc (seq db)\<rparr>)"

subsection \<open>One upsert\<close>

definition REJECTED_KEYS :: "string list" where
  "REJECTED_KEYS = [''tier'', ''status'', ''visibility'', ''media'']"

record upsert_args =
  ua_type :: listing_type
  ua_actor :: dict
  ua_source :: string
  ua_key :: "string option"
  ua_trace :: string
  ua_origin :: string
  ua_enforce :: bool
  ua_batch :: "nat option"
  ua_submitter :: "nat option"
  ua_must_create :: bool
  ua_suppression :: bool

datatype upsert_outcome = U_CREATED | U_UPDATED | U_UNCHANGED | U_REPLAYED

record upsert_result =
  ur_listing :: "listing option"
  ur_outcome :: upsert_outcome
  ur_event_id :: "string option"
  ur_changes :: "json list option"

text \<open>The match by id or by slug.\<close>

definition match_listing :: "'w upsert_world_scheme \<Rightarrow> tenant \<Rightarrow> listing_type \<Rightarrow> dict \<Rightarrow> 'z directory_db_scheme \<Rightarrow> catalog_error + listing option" where
  "match_listing w tn t payload db =
     (let id = get_or_null payload ''id''; slug = slug_of w (get_or_null payload ''slug'') in
      if truthy id then
        (case find (\<lambda>l. ls_tenant l = tn_pk tn \<and> ls_public_id l = py_str id) (listings db) of
           None \<Rightarrow> Inl (SchemaError [''no listing with id '' @ py_str id])
         | Some l \<Rightarrow> if ls_type_key l \<noteq> lt_key t then Inl (RejectedField ''listing_type'') else Inr (Some l))
      else if truthy slug then Inr (find (\<lambda>l. ls_tenant l = tn_pk tn \<and> ls_type_key l = lt_key t \<and> ls_slug l = py_str slug) (listings db))
      else Inr None)"

definition upsert_emit :: "string \<Rightarrow> tenant \<Rightarrow> upsert_args \<Rightarrow> listing \<Rightarrow> dict \<Rightarrow> 'z core_db_scheme \<Rightarrow> catalog_error + outbox_event \<times> 'z core_db_scheme" where
  "upsert_emit event tn a l data db = lift_catalog (emit event (ls_public_id l) (tn_pk tn) data (ua_actor a) (ua_origin a) (ua_trace a) db)"

text \<open>The end of \<^verbatim>\<open>_apply_upsert\<close>: provenance and event of the saved row. \<open>old\<close> is the projection of the matched row, \<open>None\<close> for a create.\<close>

definition import_row_of :: "upsert_args \<Rightarrow> listing \<Rightarrow> row_action \<Rightarrow> dict option \<Rightarrow> 'z catalog_db_scheme \<Rightarrow> 'z catalog_db_scheme" where
  "import_row_of a l action pre db = (case ua_batch a of None \<Rightarrow> db | Some b \<Rightarrow> record_import_row b l action pre db)"

definition announce_listing :: "tenant \<Rightarrow> upsert_args \<Rightarrow> dict option \<Rightarrow> listing \<Rightarrow> 'z catalog_db_scheme \<Rightarrow> catalog_error + upsert_result \<times> 'z catalog_db_scheme" where
  "announce_listing tn a old l db =
     (let new = project l; kind = (''type'', JStr (lt_key (ua_type a))) in
      case old of
        None \<Rightarrow>
          then_do (upsert_emit LISTING_CREATED tn a l (dict_merge new [kind])) (\<lambda>ev d.
            Inr (\<lparr>ur_listing = Some l, ur_outcome = U_CREATED, ur_event_id = Some (event_id ev), ur_changes = None\<rparr>, d))
            (import_row_of a l A_CREATED None db)
      | Some img \<Rightarrow>
          let patch = diff img new in
          if patch = [] then Inr (\<lparr>ur_listing = Some l, ur_outcome = U_UNCHANGED, ur_event_id = None, ur_changes = None\<rparr>, db)
          else
            then_do (upsert_emit LISTING_UPDATED tn a l [(''changes'', JList patch), kind]) (\<lambda>ev d.
              Inr (\<lparr>ur_listing = Some l, ur_outcome = U_UPDATED, ur_event_id = Some (event_id ev), ur_changes = Some patch\<rparr>, d))
              (import_row_of a l A_UPDATED (Some img) db))"

text \<open>From the row in memory on.\<close>

definition write_listing :: "'w upsert_world_scheme \<Rightarrow> tenant \<Rightarrow> upsert_args \<Rightarrow> dict \<Rightarrow> dict option \<Rightarrow> listing \<Rightarrow> 'z catalog_db_scheme \<Rightarrow> catalog_error + upsert_result \<times> 'z catalog_db_scheme" where
  "write_listing w tn a payload old l db =
     (let t = ua_type a in
      bind_result (apply_payload w t payload (old = None) (ua_enforce a) \<lparr>dr_row = l, dr_null_slug = False, dr_nan = False\<rparr>) (\<lambda>d.
      then_do (save_listing (old = None) d) (\<lambda>_ d1.
      bind_result (case dict_get payload ''categories'' of None \<Rightarrow> Inr (categories (dr_row d)) | Some v \<Rightarrow> resolve_categories t v d1) (\<lambda>slugs.
        let l' = (dr_row d)\<lparr>ls_updated_at := wall d1, categories := slugs\<rparr> in
        announce_listing tn a old l' (recompute_search_vector tn l' (set_categories (ls_pk l') slugs d1)))) db))"

definition apply_upsert :: "'w upsert_world_scheme \<Rightarrow> tenant \<Rightarrow> upsert_args \<Rightarrow> dict \<Rightarrow> 'z catalog_db_scheme \<Rightarrow> catalog_error + upsert_result \<times> 'z catalog_db_scheme" where
  "apply_upsert w tn a payload = atomic (\<lambda>db.
     case find (\<lambda>k. dict_get payload k \<noteq> None) REJECTED_KEYS of
       Some k \<Rightarrow> Inl (RejectedField k)
     | None \<Rightarrow>
         bind_result (match_listing w tn (ua_type a) payload db) (\<lambda>m.
           case m of
             None \<Rightarrow>
               if \<not> truthy (get_or_null payload ''slug'') \<or> \<not> truthy (get_or_null payload ''name'')
               then Inl (SchemaError [''slug and name are required to create a listing''])
               else bind_result (if ua_suppression a then check_suppressed w tn payload db else Inr ()) (\<lambda>_.
                 write_listing w tn a payload None (blank_listing tn (ua_type a) (ua_source a) (ua_batch a) (ua_submitter a) db)
                   (db\<lparr>seq := Suc (seq db), draws := Suc (draws db)\<rparr>))
           | Some l \<Rightarrow>
               if ua_must_create a then Inl (SchemaError [''a listing with slug '' @ repr (ls_slug l) @ '' already exists''])
               else write_listing w tn a payload (Some (project l)) l db))"

subsection \<open>The command\<close>

definition LISTING_UPSERT :: string where
  "LISTING_UPSERT = ''listing.upsert''"

definition prior_upsert :: "tenant \<Rightarrow> string \<Rightarrow> 'z core_db_scheme \<Rightarrow> command_row option" where
  "prior_upsert tn key db =
     find (\<lambda>r. cmd_command r = LISTING_UPSERT \<and> cmd_tenant r = Some (tn_pk tn) \<and> cmd_idempotency_key r = Some key \<and> cmd_outcome r = Some ''applied'')
       (commands db)"

text \<open>The problem a refusal concludes the row with; \<open>None\<close> is an exception that is not caught.\<close>

definition upsert_problem :: "catalog_error \<Rightarrow> json option" where
  "upsert_problem e =
     (case e of
        Suppressed h \<Rightarrow> Some (JObj [(''suppressed'', JStr h)])
      | RejectedField f \<Rightarrow> Some (JObj [(''field'', JStr f)])
      | SchemaError es \<Rightarrow> Some (JObj [(''errors'', JList (map JStr es))])
      | _ \<Rightarrow> None)"

definition log_upsert :: "tenant \<Rightarrow> upsert_args \<Rightarrow> json option \<Rightarrow> 'z core_db_scheme \<Rightarrow> command_row \<times> 'z core_db_scheme" where
  "log_upsert tn a payload = log_received LISTING_UPSERT (Some (tn_pk tn)) (ua_key a) (ua_actor a) (ua_trace a) (ua_origin a) payload"

definition run_upsert :: "'w upsert_world_scheme \<Rightarrow> tenant \<Rightarrow> upsert_args \<Rightarrow> (string option \<times> pyval) list \<Rightarrow> 'z catalog_db_scheme \<Rightarrow> (catalog_error + upsert_result) \<times> 'z catalog_db_scheme" where
  "run_upsert w tn a payload db =
     (case jsonable_items payload of
        Inl m \<Rightarrow>
          let (row, db1) = log_upsert tn a None db in
          (Inl (SchemaError [m]), log_conclude row ''rejected'' [] (Some (JObj [(''payload'', JStr m)])) None db1)
      | Inr doc \<Rightarrow>
          let (row, db1) = log_upsert tn a (Some (JObj doc)) db in
          case apply_upsert w tn a doc db1 of
            Inl e \<Rightarrow> (Inl e, case upsert_problem e of None \<Rightarrow> db1 | Some p \<Rightarrow> log_conclude row ''rejected'' [] (Some p) None db1)
          | Inr (r, db2) \<Rightarrow> (Inr r, log_conclude row ''applied'' (case ur_event_id r of None \<Rightarrow> [] | Some e \<Rightarrow> e) None None db2))"

definition upsert_listing :: "'w upsert_world_scheme \<Rightarrow> tenant \<Rightarrow> upsert_args \<Rightarrow> (string option \<times> pyval) list \<Rightarrow> 'z catalog_db_scheme \<Rightarrow> (catalog_error + upsert_result) \<times> 'z catalog_db_scheme" where
  "upsert_listing w tn a payload db =
     (case require_autocommit db of
        Inl e \<Rightarrow> (Inl (CatalogAudit e), db)
      | Inr _ \<Rightarrow>
          (case (case or_none (ua_key a) of None \<Rightarrow> None | Some k \<Rightarrow> prior_upsert tn k db) of
             Some prior \<Rightarrow>
               (Inr \<lparr>ur_listing = None, ur_outcome = U_REPLAYED, ur_event_id = or_none (Some (cmd_result_event_id prior)), ur_changes = None\<rparr>,
                log_replay LISTING_UPSERT (Some (tn_pk tn)) (ua_key a) (ua_actor a) (ua_trace a) prior db)
           | None \<Rightarrow> run_upsert w tn a payload db))"

end
