(* ===== verification/Catalog_Props.thy ===== *)
theory Catalog_Props
  imports Public_Site Upsert Samples
begin

section \<open>What the catalogue and the public site keep\<close>

text \<open>
  The theorems about \<open>Catalog\<close>, \<open>Search\<close> and \<open>Public_Site\<close>: every configuration command is one row of the command log and all or
  nothing; a moved path leaves a redirect that leads to the new one; a page shows published listings and public fields only, and
  the canonical URL of a listing shows that listing; the redirect of the root hides the site from the second type on.
\<close>

subsection \<open>Paths\<close>

definition plain_segment :: "string \<Rightarrow> bool" where
  "plain_segment s \<longleftrightarrow> s \<noteq> [] \<and> CHR ''/'' \<notin> set s"

lemma strip_end:
  assumes "s \<noteq> []" "last s \<noteq> c"
  shows "\<exists>u. rev (dropWhile (\<lambda>x. x = c) (rev (s @ r))) = s @ u \<and> (u = [] \<or> hd u = hd r)"
proof (induction r rule: rev_induct)
  case Nil
  then show ?case using assms by (cases s rule: rev_cases) auto
next
  case (snoc y r)
  show ?case
  proof (cases "y = c")
    case True
    with snoc obtain u where u: "rev (dropWhile (\<lambda>x. x = c) (rev (s @ r))) = s @ u" "u = [] \<or> hd u = hd r" by blast
    show ?thesis
    proof (cases "r = []")
      case True
      with \<open>y = c\<close> u(1) assms show ?thesis by (cases s rule: rev_cases) auto
    next
      case False
      with \<open>y = c\<close> u show ?thesis by (intro exI [of _ u]) auto
    qed
  next
    case False
    then have "rev (dropWhile (\<lambda>x. x = c) (rev (s @ r @ [y]))) = s @ (r @ [y])" by simp
    then show ?thesis by blast
  qed
qed

lemma first_segment_plain:
  assumes "plain_segment s" "r = [] \<or> hd r = CHR ''/''"
  shows "first_segment (CHR ''/'' # s @ r) = s"
proof -
  from assms(1) obtain x xs where s: "s = x # xs" "x \<noteq> CHR ''/''" by (cases s) (auto simp: plain_segment_def)
  from assms(1) have l: "last s \<noteq> CHR ''/''" by (metis last_in_set plain_segment_def)
  obtain u where u: "rev (dropWhile (\<lambda>x. x = CHR ''/'') (rev (s @ r))) = s @ u" "u = [] \<or> hd u = hd r"
    using strip_end [of s "CHR ''/''" r] l s by auto
  have strip: "strip_slashes (CHR ''/'' # s @ r) = s @ u"
    using u(1) s by (simp add: strip_slashes_def)
  have "u = [] \<or> hd u = CHR ''/''" if "r \<noteq> []" using u(2) assms(2) that by auto
  moreover have "length (s @ u) \<le> length (s @ r)" unfolding u(1) [symmetric] by (metis length_dropWhile_le length_rev)
  then have "u = []" if "r = []" using that by simp
  ultimately have "u = [] \<or> hd u = CHR ''/''" by blast
  moreover have "takeWhile (\<lambda>c. c \<noteq> CHR ''/'') (s @ u) = s @ takeWhile (\<lambda>c. c \<noteq> CHR ''/'') u"
    using assms(1) by (intro takeWhile_append2) (auto simp: plain_segment_def)
  ultimately show ?thesis unfolding first_segment_def strip by (cases u) auto
qed

lemma segments_one: "plain_segment s \<Longrightarrow> segments_of s = [s]"
  by (simp add: segments_of_def plain_segment_def split_on_plain)

lemma segments_step: "plain_segment s \<Longrightarrow> segments_of (s @ CHR ''/'' # r) = s # segments_of r"
  by (simp add: segments_of_def plain_segment_def split_on_sep)

subsection \<open>The redirect table\<close>

abbreviation redirects_of :: "nat \<Rightarrow> 'z catalog_db_scheme \<Rightarrow> path_redirect list" where
  "redirects_of tenant db \<equiv> filter (\<lambda>r. pr_tenant r = tenant) (redirects db)"

lemma match_none: "(\<And>r. r \<in> set (redirects_of tenant db) \<Longrightarrow> \<not> redirect_applies r path) \<Longrightarrow> match_redirect tenant path db = None"
  by (auto simp: match_redirect_def find_None_iff)

text \<open>The longest prefix that applies decides.\<close>

lemma find_longest:
  assumes r: "r \<in> set rows" "P r"
  shows "\<exists>q. find P (sort_key f rows) = Some q \<and> q \<in> set rows \<and> P q \<and> f q \<le> (f r :: int)"
proof -
  obtain q where q: "find P (sort_key f rows) = Some q"
    using r by (cases "find P (sort_key f rows)") (auto simp: find_None_iff)
  then obtain i where i: "i < length rows" "P (sort_key f rows ! i)" "q = sort_key f rows ! i" "\<And>j. j < i \<Longrightarrow> \<not> P (sort_key f rows ! j)"
    by (auto simp: find_Some_iff)
  from r obtain k where k: "k < length rows" "sort_key f rows ! k = r" by (metis in_set_conv_nth length_sort set_sort)
  have "i \<le> k" using i(4) k r(2) by (meson not_le)
  then have "f q \<le> f r" using i(1,3) k sorted_nth_mono [of "map f (sort_key f rows)" i k] by simp
  moreover have "q \<in> set rows" using i(1,3) by (metis length_sort nth_mem set_sort)
  ultimately show ?thesis using q i(2,3) by blast
qed

lemma match_longest:
  assumes r: "r \<in> set (redirects_of tenant db)" "redirect_applies r path" and top: "first_segment path \<notin> set RESERVED_TOP"
    and longest: "\<And>q. q \<in> set (redirects_of tenant db) \<Longrightarrow> redirect_applies q path \<Longrightarrow>
      length (old_prefix q) < length (old_prefix r) \<or> old_prefix q = old_prefix r \<and> new_prefix q = new_prefix r"
  shows "match_redirect tenant path db = Some (new_prefix r @ drop (length (old_prefix r)) path)"
proof -
  obtain q where q: "find (\<lambda>r. redirect_applies r path) (sort_key (\<lambda>r. - int (length (old_prefix r))) (redirects_of tenant db)) = Some q"
      "q \<in> set (redirects_of tenant db)" "redirect_applies q path" "length (old_prefix r) \<le> length (old_prefix q)"
    using find_longest [OF r(1), of "\<lambda>r. redirect_applies r path" "\<lambda>r. - int (length (old_prefix r))"] r(2) by auto
  from longest [OF q(2,3)] q(4) have "old_prefix q = old_prefix r" "new_prefix q = new_prefix r" by auto
  with q(1) top show ?thesis by (simp add: match_redirect_def)
qed

lemma applies_same_length:
  "redirect_applies q path \<Longrightarrow> redirect_applies r path \<Longrightarrow> length (old_prefix q) = length (old_prefix r) \<Longrightarrow> old_prefix q = old_prefix r"
  by (auto simp: redirect_applies_def starts_with_def prefix_def dest: arg_cong [where f = length])

text \<open>Writing a redirect decides every path below its old prefix that no longer prefix decides.\<close>

lemma written_redirect:
  assumes w: "update_or_create_redirect tenant old new db = Inr ((), d)" and old: "path = old @ rest" "rest = [] \<or> hd rest = CHR ''/''"
    and top: "first_segment path \<notin> set RESERVED_TOP"
    and longest: "\<And>q. q \<in> set (redirects_of tenant db) \<Longrightarrow> redirect_applies q path \<Longrightarrow> length (old_prefix q) \<le> length old"
  shows "match_redirect tenant path d = Some (new @ rest)"
proof -
  have row: "\<exists>r \<in> set (redirects_of tenant d). old_prefix r = old \<and> new_prefix r = new"
  proof (cases "has_redirect tenant old db")
    case True
    then obtain r where r: "r \<in> set (redirects db)" "pr_tenant r = tenant" "old_prefix r = old" by (auto simp: has_redirect_def list_ex_iff)
    with w True have "r\<lparr>new_prefix := new\<rparr> \<in> set (redirects d)"
      by (auto simp: update_or_create_redirect_def set_update_where split: if_splits)
    with r(2,3) show ?thesis by (intro bexI [of _ "r\<lparr>new_prefix := new\<rparr>"]) auto
  next
    case False
    with w show ?thesis by (auto simp: update_or_create_redirect_def insert_redirect_def split: if_splits)
  qed
  have each: "\<exists>p \<in> set (redirects_of tenant db). old_prefix p = old_prefix q \<and> (old_prefix q = old \<longrightarrow> new_prefix q = new)"
    if "q \<in> set (redirects_of tenant d)" "\<not> (old_prefix q = old \<and> new_prefix q = new)" for q
  proof (cases "has_redirect tenant old db")
    case True
    with w have "redirects d = update_where (\<lambda>r. pr_tenant r = tenant \<and> old_prefix r = old) (\<lambda>r. r\<lparr>new_prefix := new\<rparr>) (redirects db)"
      by (auto simp: update_or_create_redirect_def split: if_splits)
    with that obtain x where x: "x \<in> set (redirects db)" "q = (if pr_tenant x = tenant \<and> old_prefix x = old then x\<lparr>new_prefix := new\<rparr> else x)"
      by (auto simp: set_update_where)
    with that show ?thesis by (intro bexI [of _ x]) (auto split: if_splits)
  next
    case False
    define n where "n = \<lparr>pr_pk = Suc (seq db), pr_tenant = tenant, old_prefix = old, new_prefix = new, pr_created_at = wall db\<rparr>"
    have n: "old_prefix n = old" "new_prefix n = new" by (simp_all add: n_def)
    from w False have "redirects d = redirects db @ [n]"
      by (auto simp: update_or_create_redirect_def insert_redirect_def n_def split: if_splits)
    with that(1) have "pr_tenant q = tenant" "q \<in> set (redirects db) \<or> q = n" by (auto split: if_splits)
    moreover have "q \<noteq> n" using that(2) n by blast
    ultimately have q: "q \<in> set (redirects_of tenant db)" by simp
    then have "old_prefix q \<noteq> old" using False unfolding has_redirect_def list_ex_iff by auto
    with q show ?thesis by blast
  qed
  from row obtain r where r: "r \<in> set (redirects_of tenant d)" "old_prefix r = old" "new_prefix r = new" by blast
  have ap: "redirect_applies r path" using old r(2) by (cases rest) (auto simp: redirect_applies_def starts_with_def)
  have "match_redirect tenant path d = Some (new_prefix r @ drop (length (old_prefix r)) path)"
  proof (rule match_longest [OF r(1) ap top])
    fix q assume q: "q \<in> set (redirects_of tenant d)" "redirect_applies q path"
    have applies_cong: "redirect_applies p path = redirect_applies q path" if "old_prefix p = old_prefix q" for p
      using that by (simp add: redirect_applies_def)
    have le: "length (old_prefix q) \<le> length old"
    proof (cases "old_prefix q = old \<and> new_prefix q = new")
      case False
      from each [OF q(1) this] obtain p where p: "p \<in> set (redirects_of tenant db)" "old_prefix p = old_prefix q" by blast
      from longest [OF p(1)] applies_cong [OF p(2)] q(2) p(2) show ?thesis by simp
    qed simp
    moreover have "old_prefix q = old" if "length (old_prefix q) = length old"
      using applies_same_length [OF q(2) ap] that r(2) by simp
    moreover have "new_prefix q = new" if "old_prefix q = old" using each [OF q(1)] that by blast
    ultimately show "length (old_prefix q) < length (old_prefix r) \<or> old_prefix q = old_prefix r \<and> new_prefix q = new_prefix r"
      using r by (auto simp: le_less)
  qed
  then show ?thesis using old r by simp
qed

subsection \<open>The effect of the configuration commands\<close>

lemma emit_settings_change_eq:
  "emit_settings_change tn operator ch db =
     Inr (new_event TENANT_SETTINGS_CHANGED (tn_public_id tn) (tn_pk tn) [(''changes'', JList ch), (''changed_by'', JStr (op_public_id operator))]
            (admin_actor operator) [] [] db,
          db\<lparr>outbox := outbox db @ [new_event TENANT_SETTINGS_CHANGED (tn_public_id tn) (tn_pk tn)
            [(''changes'', JList ch), (''changed_by'', JStr (op_public_id operator))] (admin_actor operator) [] [] db],
             seq := Suc (seq db), draws := Suc (draws db)\<rparr>)"
  by (simp add: emit_settings_change_def emit_def Let_def)

lemma catalog_command_E:
  fixes db :: "'z catalog_db_scheme"
  assumes "catalog_command tn operator page op body db = (Inr r, db')"
  obtains row names and db1 db2 :: "'z catalog_db_scheme" where "\<not> in_atomic db"
    "log_received SETTINGS_UPDATE (Some (tn_pk tn)) None (admin_actor operator) [] [] (Some (settings_payload page op [])) db = (row, db1)"
    "body db1 = Inr ((r, names), db2)" "db' = log_conclude row ''applied'' [] None (Some (settings_payload page op names)) db2"
  using assms by (auto simp: catalog_command_def settings_command_def require_autocommit_def Let_def split: if_splits prod.splits sum.splits)

lemma types_of_updates [simp]:
  fixes db :: "'z catalog_db_scheme"
  shows "types_of k (db\<lparr>in_atomic := b\<rparr>) = types_of k db" "types_of k (db\<lparr>seq := n\<rparr>) = types_of k db"
    "types_of k (db\<lparr>redirects := rs\<rparr>) = types_of k db" "types_of k (db\<lparr>reindex_jobs := js\<rparr>) = types_of k db"
    "types_of k (db\<lparr>outbox := es\<rparr>) = types_of k db" "types_of k (db\<lparr>draws := n\<rparr>) = types_of k db"
    "types_of k (db\<lparr>listings := ls\<rparr>) = types_of k db" "types_of k (db\<lparr>category_rows := cs\<rparr>) = types_of k db"
  by (simp_all add: types_of_def)

lemma received_tables:
  assumes "log_received c tn k a tr og p (db :: 'z catalog_db_scheme) = (row, db1)"
  shows "redirects db1 = redirects db" "listing_types db1 = listing_types db" "category_rows db1 = category_rows db" "listings db1 = listings db"
    "in_atomic db1 = in_atomic db" "outbox db1 = outbox db" "wall db1 = wall db"
  using assms by (auto simp: log_received_def Let_def)

lemma concluded_tables [simp]:
  "redirects (log_conclude row oc eid pb np db) = redirects db" "listing_types (log_conclude row oc eid pb np db) = listing_types db"
  "category_rows (log_conclude row oc eid pb np db) = category_rows db" "listings (log_conclude row oc eid pb np db) = listings db"
  by (simp_all add: log_conclude_def)


lemma create_type_redirects:
  fixes db :: "'z catalog_db_scheme"
  assumes "create_type_body tn operator f db = Inr (t, db')" "types_of (tn_pk tn) db = [first]"
  shows "redirects db' = redirects db \<or>
    (\<exists>r. redirects db' = redirects db @ [r] \<and> pr_tenant r = tn_pk tn \<and> old_prefix r = [] \<and> new_prefix r = ''/'' @ path_segment first)"
    "has_redirect (tn_pk tn) [] db'"
proof -
  obtain d1 d2 :: "'z catalog_db_scheme" where d: "redirects d1 = redirects db"
      "get_or_create_redirect (tn_pk tn) [] (CHR ''/'' # path_segment first) d1 = Inr ((), d2)" "redirects db' = redirects d2"
    using assms apply (clarsimp simp: create_type_body_def atomic_Inr insert_type_def then_do_Inr emit_settings_change_eq Let_def
        split: sum.splits if_splits)
    apply (rule that [rotated], assumption)
     apply simp_all
    done
  show "redirects db' = redirects db \<or>
    (\<exists>r. redirects db' = redirects db @ [r] \<and> pr_tenant r = tn_pk tn \<and> old_prefix r = [] \<and> new_prefix r = ''/'' @ path_segment first)"
    "has_redirect (tn_pk tn) [] db'"
    using d by (auto simp: get_or_create_redirect_def insert_redirect_def has_redirect_def split: if_splits)
qed

lemma create_type_E:
  fixes db :: "'z catalog_db_scheme"
  assumes "create_listing_type tn operator f db = (Inr t, db')"
  obtains d1 :: "'z catalog_db_scheme" and d2 :: "'z catalog_db_scheme" where "redirects d1 = redirects db" "listing_types d1 = listing_types db" "create_type_body tn operator f d1 = Inr (t, d2)"
    "redirects db' = redirects d2" "listing_types db' = listing_types d2"
proof -
  from assms obtain row names and d1 d2 :: "'z catalog_db_scheme" where 1: "log_received SETTINGS_UPDATE (Some (tn_pk tn)) None (admin_actor operator) [] []
      (Some (settings_payload ''listing_types'' ''add'' [])) db = (row, d1)"
    "then_do (create_type_body tn operator f) (\<lambda>t d. Inr ((t, dict_keys (type_value t)), d)) d1 = Inr ((t, names), d2)"
    "db' = log_conclude row ''applied'' [] None (Some (settings_payload ''listing_types'' ''add'' names)) d2"
    by (auto simp: create_listing_type_def elim: catalog_command_E)
  from 1(2) have "create_type_body tn operator f d1 = Inr (t, d2)" by (auto simp: then_do_Inr)
  with 1(3) show thesis using that [of d1 d2] received_tables [OF 1(1)] by simp
qed

lemma drop_first: "''/'' @ s = CHR ''/'' # s"
  by simp

text \<open>From the moment a tenant has its second listing type no page of its public site is shown again: the redirect the command writes
  for the root applies to every path, the paths it leads to included. Whatever page is asked for (outside the reserved names), the
  answer is a redirect, to the same path under one more copy of the first type's segment, and so on without end.\<close>

theorem second_type_hides_site:
  fixes db :: "'z catalog_db_scheme"
  assumes cmd: "create_listing_type tn operator f db = (Inr t, db')"
    and first: "types_of (tn_pk tn) db = [first]"
    and none: "redirects_of (tn_pk tn) db = []"
    and seg: "plain_segment (path_segment first)" "path_segment first \<notin> set RESERVED_TOP"
    and path: "first_segment (''/'' @ path) \<notin> set RESERVED_TOP"
  shows "public_dispatch st tn (concat (replicate n (path_segment first @ ''/'')) @ path) page db' =
     MovedTo (''/'' @ concat (replicate (Suc n) (path_segment first @ ''/'')) @ path)"
proof -
  let ?seg = "path_segment first"
  from create_type_E [OF cmd] obtain d1 d2 :: "'z catalog_db_scheme" where d: "redirects d1 = redirects db" "listing_types d1 = listing_types db"
      "create_type_body tn operator f d1 = Inr (t, d2)" "redirects db' = redirects d2" by metis
  have one: "types_of (tn_pk tn) d1 = [first]" using first d(2) by (simp add: types_of_def)
  from create_type_redirects [OF d(3) one] none d(1,4)
  obtain r where r: "redirects db' = redirects db @ [r]" "pr_tenant r = tn_pk tn" "old_prefix r = []" "new_prefix r = ''/'' @ ?seg"
    by (auto simp: has_redirect_def filter_empty_conv list_ex_iff)
  define p where "p = concat (replicate n (?seg @ ''/'')) @ path"
  have "first_segment (''/'' @ p) \<notin> set RESERVED_TOP"
  proof (cases n)
    case 0
    with path show ?thesis by (simp add: p_def)
  next
    case (Suc k)
    have "''/'' @ p = CHR ''/'' # ?seg @ (CHR ''/'' # concat (replicate k (?seg @ ''/'')) @ path)" by (simp add: p_def Suc)
    with seg show ?thesis by (simp add: first_segment_plain)
  qed
  then have "match_redirect (tn_pk tn) (''/'' @ p) db' = Some (new_prefix r @ ''/'' @ p)"
    using match_longest [of r "tn_pk tn" db' "''/'' @ p"] none r by (simp add: redirect_applies_def filter_empty_conv)
  then show ?thesis
    by (simp add: public_dispatch_def r(4) p_def)
qed


lemma update_type_E:
  fixes db :: "'z catalog_db_scheme"
  assumes "update_type_body tn operator t c db = Inr (t', db')"
  obtains fs and d2 d3 :: "'z catalog_db_scheme" where "checked_fields c t = Inr fs" "t' = changed_type c fs t" "redirects d2 = redirects db"
    "(if tc_segment c \<noteq> None \<and> path_segment t' \<noteq> path_segment t \<and> 1 < length (types_of (tn_pk tn) d2)
      then update_or_create_redirect (tn_pk tn) (''/'' @ path_segment t) (''/'' @ path_segment t') else (\<lambda>d. Inr ((), d))) d2 = Inr ((), d3)"
    "redirects db' = redirects d3" "types_of (tn_pk tn) db' = types_of (tn_pk tn) d3"
proof -
  from assms obtain fs where fs: "checked_fields c t = Inr fs" by (auto simp: update_type_body_def atomic_Inr split: sum.splits if_splits)
  define s where "s = db\<lparr>in_atomic := True\<rparr>"
  define mark where "mark d1 = (case fs of Some ds \<Rightarrow> if same_schema ds (lt_fields t) then d1
      else mark_reindex (tn_pk tn) ''listing_type'' (lt_public_id t) ''field schema changed'' d1 | None \<Rightarrow> d1)" for d1 :: "'z catalog_db_scheme"
  from assms fs obtain d where body: "then_do (save_type (changed_type c fs t)) (\<lambda>_ d1.
      then_do (if tc_segment c \<noteq> None \<and> path_segment (changed_type c fs t) \<noteq> path_segment t \<and> 1 < length (types_of (tn_pk tn) (mark d1))
          then update_or_create_redirect (tn_pk tn) (''/'' @ path_segment t) (''/'' @ path_segment (changed_type c fs t)) else (\<lambda>d. Inr ((), d)))
        (\<lambda>_. then_do (emit_settings_change tn operator [patch_op ''replace'' (''/listing_types/'' @ lt_key t) (Some (type_value (changed_type c fs t)))])
           (\<lambda>_ d. Inr (changed_type c fs t, d))) (mark d1)) s = Inr (t', d)" "db' = d\<lparr>in_atomic := in_atomic db\<rparr>"
    unfolding update_type_body_def atomic_Inr s_def mark_def by (auto simp: Let_def split: if_splits)
  then obtain d1 d3 :: "'z catalog_db_scheme" where st: "save_type (changed_type c fs t) s = Inr ((), d1)"
      and red: "(if tc_segment c \<noteq> None \<and> path_segment (changed_type c fs t) \<noteq> path_segment t \<and> 1 < length (types_of (tn_pk tn) (mark d1))
          then update_or_create_redirect (tn_pk tn) (''/'' @ path_segment t) (''/'' @ path_segment (changed_type c fs t)) else (\<lambda>d. Inr ((), d))) (mark d1) = Inr ((), d3)"
      and t': "t' = changed_type c fs t" and last: "redirects d = redirects d3" "types_of (tn_pk tn) d = types_of (tn_pk tn) d3"
    by (auto simp: then_do_Inr emit_settings_change_eq)
  from st have start: "redirects (mark d1) = redirects db"
    by (auto simp: save_type_def mark_def s_def mark_reindex_def split: if_splits option.split)
  show thesis
    by (rule that [OF fs t' start, of d3]) (use red t' last body(2) in \<open>simp_all only: types_of_updates, simp_all\<close>)
qed

text \<open>When the path of a listing type moves in a directory with several types, every address under the old segment is redirected to
  the same address under the new one, unless a redirect of a longer prefix already decides it.\<close>

theorem moved_type_redirects:
  fixes db :: "'z catalog_db_scheme"
  assumes cmd: "update_listing_type tn operator t c db = (Inr t', db')"
    and moved: "path_segment t' \<noteq> path_segment t" and multi: "1 < length (types_of (tn_pk tn) db')"
    and seg: "plain_segment (path_segment t)" "path_segment t \<notin> set RESERVED_TOP"
    and rest: "rest = [] \<or> hd rest = CHR ''/''"
    and longest: "\<And>q. q \<in> set (redirects_of (tn_pk tn) db) \<Longrightarrow> redirect_applies q (''/'' @ path_segment t @ rest) \<Longrightarrow>
      length (old_prefix q) \<le> Suc (length (path_segment t))"
  shows "match_redirect (tn_pk tn) (''/'' @ path_segment t @ rest) db' = Some (''/'' @ path_segment t' @ rest)"
proof -
  from cmd have "tc_key c = None" by (auto simp: update_listing_type_def split: if_splits)
  with cmd have "catalog_command tn operator ''listing_types'' ''replace''
      (then_do (update_type_body tn operator t c) (\<lambda>t' d. Inr ((t', changed_names (type_value t) (type_value t')), d))) db = (Inr t', db')"
    by (simp add: update_listing_type_def)
  then obtain row names and d1 d2 :: "'z catalog_db_scheme" where "\<not> in_atomic db" and 1: "log_received SETTINGS_UPDATE (Some (tn_pk tn)) None (admin_actor operator) [] []
      (Some (settings_payload ''listing_types'' ''replace'' [])) db = (row, d1)"
    "then_do (update_type_body tn operator t c) (\<lambda>t' d. Inr ((t', changed_names (type_value t) (type_value t')), d)) d1 = Inr ((t', names), d2)"
    "db' = log_conclude row ''applied'' [] None (Some (settings_payload ''listing_types'' ''replace'' names)) d2"
    by (rule catalog_command_E)
  from 1(2) have "update_type_body tn operator t c d1 = Inr (t', d2)" by (auto simp: then_do_Inr)
  then obtain fs and s s' :: "'z catalog_db_scheme" where 2: "t' = changed_type c fs t" "redirects s = redirects d1"
      "(if tc_segment c \<noteq> None \<and> path_segment t' \<noteq> path_segment t \<and> 1 < length (types_of (tn_pk tn) s)
        then update_or_create_redirect (tn_pk tn) (''/'' @ path_segment t) (''/'' @ path_segment t') else (\<lambda>d. Inr ((), d))) s = Inr ((), s')"
      "redirects d2 = redirects s'" "types_of (tn_pk tn) d2 = types_of (tn_pk tn) s'"
    by (rule update_type_E)
  have same: "redirects db' = redirects s'" "types_of (tn_pk tn) db' = types_of (tn_pk tn) s'"
    using 1(3) 2(4,5) by (simp_all add: types_of_def)
  have "tc_segment c \<noteq> None" using moved 2(1) by (cases "tc_segment c") (auto simp: changed_type_def given_def)
  moreover have "types_of (tn_pk tn) s = types_of (tn_pk tn) s'"
    using 2(3) by (auto simp: update_or_create_redirect_def insert_redirect_def split: if_splits)
  ultimately have w: "update_or_create_redirect (tn_pk tn) (''/'' @ path_segment t) (''/'' @ path_segment t') s = Inr ((), s')"
    using 2(3) moved multi same(2) by simp
  have "match_redirect (tn_pk tn) (''/'' @ path_segment t @ rest) s' = Some ((''/'' @ path_segment t') @ rest)"
    using written_redirect [OF w, of "''/'' @ path_segment t @ rest" rest] rest longest 2(2) received_tables(1) [OF 1(1)] first_segment_plain [OF seg(1) rest] seg(2)
    by simp
  moreover have "match_redirect k p db' = match_redirect k p s'" for k p by (simp only: match_redirect_def same(1))
  ultimately show ?thesis by simp
qed


subsection \<open>Pages\<close>

fun listings_shown :: "page \<Rightarrow> listing set" where
  "listings_shown (CategoryPage t c ks ls n u) = set ls"
| "listings_shown (ListingPage t l c u fs) = {l}"
| "listings_shown _ = {}"

fun fields_shown :: "page \<Rightarrow> (json \<times> json) list" where
  "fields_shown (ListingPage t l c u fs) = fs"
| "fields_shown _ = []"

definition is_public :: "dict \<Rightarrow> bool" where
  "is_public f \<longleftrightarrow> (case dict_get f ''public'' of None \<Rightarrow> True | Some p \<Rightarrow> truthy p)"

lemma types_of_member: "t \<in> set (types_of k db) \<longleftrightarrow> t \<in> set (listing_types db) \<and> lt_tenant t = k"
  by (auto simp: types_of_def)

lemma dispatch_cases:
  assumes "public_dispatch st tn path number db = pg" "pg \<noteq> NotFound" "\<And>u. pg \<noteq> MovedTo u"
  obtains t multi segs where "t \<in> set (listing_types db)" "lt_tenant t = tn_pk tn" "pg = show_segments st tn t multi number segs db"
proof -
  from assms have m: "match_redirect (tn_pk tn) (''/'' @ path) db = None" by (auto simp: public_dispatch_def split: option.splits)
  show thesis
  proof (cases "types_of (tn_pk tn) db")
    case Nil
    with assms m show ?thesis by (simp add: public_dispatch_def)
  next
    case (Cons t ts)
    show ?thesis
    proof (cases ts)
      case Nil
      with Cons m assms(1) have "pg = show_segments st tn t False number (segments_of path) db" by (simp add: public_dispatch_def)
      moreover have "t \<in> set (types_of (tn_pk tn) db)" using Cons by simp
      ultimately show ?thesis using that unfolding types_of_member by blast
    next
      case (Cons t2 ts2)
      with \<open>types_of (tn_pk tn) db = t # ts\<close> m assms obtain s segs u where
        "find (\<lambda>t. path_segment t = s) (types_of (tn_pk tn) db) = Some u" "pg = show_segments st tn u True number segs db"
        by (auto simp: public_dispatch_def split: list.splits option.splits)
      moreover from this(1) have "u \<in> set (types_of (tn_pk tn) db)" by (auto dest: find_SomeD)
      ultimately show ?thesis using that unfolding types_of_member by blast
    qed
  qed
qed

lemma listing_detail_shows:
  assumes "listing_detail tn t cs s multi db = ListingPage t' l c u fs"
  shows "t' = t \<and> l \<in> set (published t db) \<and> ls_slug l = s \<and> category_or_404 t cs db = Some c \<and> cat_slug c \<in> set (categories l) \<and> fs = public_fields t l"
  using assms by (auto simp: listing_detail_def Let_def split: option.splits if_splits dest: find_SomeD)

lemma segments_show:
  assumes "show_segments st tn t multi number segs db = pg" "\<And>n ls. set (st_paginate st n ls) \<subseteq> set ls"
  shows "listings_shown pg \<subseteq> set (published t db)"
    and "x \<in> set (fields_shown pg) \<Longrightarrow> \<exists>l \<in> set (published t db). x \<in> set (public_fields t l)"
proof -
  have page: "listings_shown (category_page st tn t c multi number db) \<subseteq> set (published t db)" for c
    by (auto simp: category_page_def Let_def split: option.split dest!: subsetD [OF assms(2)])
  have fs: "fields_shown (category_page st tn t c multi number db) = []" for c
    by (simp add: category_page_def Let_def split: option.split)
  have detail: "listings_shown (listing_detail tn t c l multi db) \<subseteq> set (published t db)"
      "x \<in> set (fields_shown (listing_detail tn t c l multi db)) \<Longrightarrow> \<exists>k \<in> set (published t db). x \<in> set (public_fields t k)" for c l
    by (auto simp: listing_detail_def Let_def split: option.splits if_splits dest: find_SomeD)
  show "listings_shown pg \<subseteq> set (published t db)"
    unfolding assms(1) [symmetric] using page detail(1) by (simp add: show_segments_def type_landing_def split: list.split)
  show "\<exists>l \<in> set (published t db). x \<in> set (public_fields t l)" if "x \<in> set (fields_shown pg)"
    using that unfolding assms(1) [symmetric] by (auto simp: show_segments_def type_landing_def fs detail(2) split: list.splits)
qed

lemma public_fields_public:
  "(label, v) \<in> set (public_fields t l) \<Longrightarrow> \<exists>f \<in> set (lt_fields t). is_public f \<and> v = get_or_null (custom_fields l) (py_str (get_or_null f ''key''))"
  by (auto simp: public_fields_def is_public_def Let_def split: if_splits)

text \<open>Whatever path is asked for, the public site of a tenant shows published listings of that tenant only, and of their custom fields
  only those whose descriptor is public.\<close>

theorem public_site_shows_published:
  assumes paginate: "\<And>n ls. set (st_paginate st n ls) \<subseteq> set ls"
    and page: "public_dispatch st tn path number db = pg"
  shows "(\<forall>l \<in> listings_shown pg. l \<in> set (listings db) \<and> ls_tenant l = tn_pk tn \<and> visibility l = V_PUBLISHED)
    \<and> (\<forall>(label, v) \<in> set (fields_shown pg). \<exists>t \<in> set (listing_types db). \<exists>l \<in> set (published t db). lt_tenant t = tn_pk tn
      \<and> (\<exists>f \<in> set (lt_fields t). is_public f \<and> v = get_or_null (custom_fields l) (py_str (get_or_null f ''key''))))"
proof (cases "pg = NotFound \<or> (\<exists>u. pg = MovedTo u)")
  case False
  then obtain t multi segs where t: "t \<in> set (listing_types db)" "lt_tenant t = tn_pk tn" "show_segments st tn t multi number segs db = pg"
    using dispatch_cases [OF page] by metis
  have "\<forall>l \<in> listings_shown pg. l \<in> set (published t db)" using segments_show(1) [OF t(3) paginate] by blast
  moreover have "\<exists>l \<in> set (published t db). \<exists>f \<in> set (lt_fields t). is_public f \<and> v = get_or_null (custom_fields l) (py_str (get_or_null f ''key''))"
    if "(label, v) \<in> set (fields_shown pg)" for label v
    using segments_show(2) [OF t(3) paginate that] public_fields_public by blast
  ultimately show ?thesis using t(1,2) by (fastforce simp: published_def of_type_def)
qed auto

subsection \<open>The URL of a listing\<close>

text \<open>What the tables and the naming rules guarantee.\<close>

definition site_ok :: "tenant \<Rightarrow> 'z catalog_db_scheme \<Rightarrow> bool" where
  "site_ok tn db \<longleftrightarrow>
     distinct (map path_segment (types_of (tn_pk tn) db)) \<and> distinct (map lt_key (types_of (tn_pk tn) db))
     \<and> (\<forall>t \<in> set (listing_types db). plain_segment (path_segment t))
     \<and> (\<forall>c \<in> set (category_rows db). plain_segment (cat_slug c))
     \<and> (\<forall>l \<in> set (listings db). plain_segment (ls_slug l))
     \<and> (\<forall>c \<in> set (category_rows db). \<forall>d \<in> set (category_rows db). cat_type c = cat_type d \<and> cat_slug c = cat_slug d \<longrightarrow> c = d)
     \<and> (\<forall>k \<in> set (listings db). \<forall>l \<in> set (listings db). same_path k l \<longrightarrow> k = l)"


lemma site_type_of_listing:
  assumes "site_ok tn db" "t \<in> set (types_of (tn_pk tn) db)" "of_type t l"
  shows "type_of_listing l db = Some t"
proof -
  from assms(2,3) have t: "t \<in> set (listing_types db)" "lt_tenant t = ls_tenant l \<and> lt_key t = ls_type_key l" by (auto simp: types_of_member of_type_def)
  then obtain t' where f: "type_of_listing l db = Some t'" "t' \<in> set (listing_types db)" "lt_tenant t' = ls_tenant l" "lt_key t' = ls_type_key l"
    unfolding type_of_listing_def by (cases "find (\<lambda>t. lt_tenant t = ls_tenant l \<and> lt_key t = ls_type_key l) (listing_types db)")
      (auto simp: find_None_iff dest: find_SomeD)
  from f t assms(2) have "t' \<in> set (types_of (tn_pk tn) db)" by (auto simp: types_of_member)
  with assms(1,2) f t have "t' = t" by (auto simp: site_ok_def distinct_map inj_on_def)
  with f show ?thesis by simp
qed

lemma sort_key_hd: "sort_key f xs = c # cs \<Longrightarrow> c \<in> set xs"
  by (metis list.set_intros(1) set_sort)

lemma canonical_member:
  assumes "site_ok tn db" "t \<in> set (types_of (tn_pk tn) db)" "of_type t l" "canonical_category l db = Some c"
  shows "c \<in> set (category_rows db)" "cat_type c = lt_pk t" "cat_slug c \<in> set (categories l)"
  using assms(4) site_type_of_listing [OF assms(1-3)]
  by (auto simp: canonical_category_def categories_of_listing_def split: list.splits dest!: sort_key_hd)

lemma category_found:
  assumes "site_ok tn db" "c \<in> set (category_rows db)" "cat_type c = lt_pk t"
  shows "category_or_404 t (cat_slug c) db = Some c"
proof -
  from assms obtain d where d: "category_or_404 t (cat_slug c) db = Some d" unfolding category_or_404_def
    by (cases "find (\<lambda>d. cat_type d = lt_pk t \<and> cat_slug d = cat_slug c) (category_rows db)") (auto simp: find_None_iff)
  then have "d \<in> set (category_rows db)" "cat_type d = lt_pk t" "cat_slug d = cat_slug c" by (auto simp: category_or_404_def dest: find_SomeD)
  with assms have "d = c" unfolding site_ok_def by metis
  with d show ?thesis by simp
qed

lemma listing_found:
  assumes "site_ok tn db" "l \<in> set (published t db)"
  shows "find (\<lambda>k. ls_slug k = ls_slug l) (published t db) = Some l"
proof -
  from assms(2) obtain k where k: "find (\<lambda>k. ls_slug k = ls_slug l) (published t db) = Some k"
    by (cases "find (\<lambda>k. ls_slug k = ls_slug l) (published t db)") (auto simp: find_None_iff)
  then have "k \<in> set (published t db)" "ls_slug k = ls_slug l" by (auto dest: find_SomeD)
  with assms(2) have "k \<in> set (listings db)" "l \<in> set (listings db)" "same_path k l" by (auto simp: published_def of_type_def same_path_def)
  with assms(1) have "k = l" unfolding site_ok_def by metis
  with k show ?thesis by simp
qed

lemma detail_of:
  assumes ok: "site_ok tn db" and t: "t \<in> set (types_of (tn_pk tn) db)" and l: "l \<in> set (published t db)" and c: "canonical_category l db = Some c"
  shows "listing_detail tn t (cat_slug c) (ls_slug l) multi db = ListingPage t l c (map_option (absolute_url tn) (listing_url t (Some c) l multi)) (public_fields t l)"
proof -
  have "of_type t l" using l by (simp add: published_def)
  note m = canonical_member [OF ok t this c]
  show ?thesis using listing_found [OF ok l] category_found [OF ok m(1,2)] m(3) c by (simp add: listing_detail_def)
qed

text \<open>The canonical URL of a published listing, asked for, shows that listing, with itself as the canonical URL, unless a redirect
  takes it.\<close>

theorem listing_url_resolves:
  assumes ok: "site_ok tn db" and t: "t \<in> set (types_of (tn_pk tn) db)" and l: "l \<in> set (published t db)" and c: "canonical_category l db = Some c"
    and url: "listing_url t (Some c) l (1 < length (types_of (tn_pk tn) db)) = Some (''/'' @ path)"
    and free: "match_redirect (tn_pk tn) (''/'' @ path) db = None"
  shows "public_dispatch st tn path number db = ListingPage t l c (Some (absolute_url tn (''/'' @ path))) (public_fields t l)"
proof -
  let ?multi = "1 < length (types_of (tn_pk tn) db)"
  have "of_type t l" using l by (simp add: published_def)
  note m = canonical_member [OF ok t this c]
  have plain: "plain_segment (cat_slug c)" "plain_segment (ls_slug l)" "plain_segment (path_segment t)"
    using ok m(1) l t by (auto simp: site_ok_def published_def types_of_member)
  have tail: "segments_of (cat_slug c @ CHR ''/'' # ls_slug l) = [cat_slug c, ls_slug l]"
    using plain by (simp add: segments_step segments_one)
  have show_it: "show_segments st tn t ?multi number [cat_slug c, ls_slug l] db = ListingPage t l c (Some (absolute_url tn (''/'' @ path))) (public_fields t l)"
    using detail_of [OF ok t l c, of ?multi] url by (simp add: show_segments_def)
  show ?thesis
  proof (cases "types_of (tn_pk tn) db")
    case Nil
    with t show ?thesis by simp
  next
    case (Cons t1 ts)
    show ?thesis
    proof (cases ts)
      case Nil
      with Cons t url have "t1 = t" "path = cat_slug c @ CHR ''/'' # ls_slug l" by (auto simp: listing_url_def type_prefix_def)
      with Nil Cons free show_it tail show ?thesis by (simp add: public_dispatch_def)
    next
      case (Cons t2 ts2)
      with \<open>types_of (tn_pk tn) db = t1 # ts\<close> have many: "types_of (tn_pk tn) db = t1 # t2 # ts2" by simp
      with url have path: "path = path_segment t @ CHR ''/'' # cat_slug c @ CHR ''/'' # ls_slug l" by (auto simp: listing_url_def type_prefix_def)
      obtain u where u: "find (\<lambda>u. path_segment u = path_segment t) (types_of (tn_pk tn) db) = Some u"
        using t by (cases "find (\<lambda>u. path_segment u = path_segment t) (types_of (tn_pk tn) db)") (auto simp: find_None_iff)
      then have "u = t" using ok t by (auto simp: site_ok_def distinct_map inj_on_def dest!: find_SomeD)
      with u many have found: "find (\<lambda>u. path_segment u = path_segment t) (t1 # t2 # ts2) = Some t" by simp
      have "segments_of path = path_segment t # [cat_slug c, ls_slug l]" unfolding path using plain(3) tail by (simp add: segments_step)
      with found free show_it many show ?thesis by (simp add: public_dispatch_def del: find.simps)
    qed
  qed
qed

subsection \<open>One logged save\<close>

datatype catalog_cmd =
    CreateType operator type_form
  | UpdateType operator listing_type type_changes
  | DeleteType operator listing_type
  | CreateCategory operator listing_type string string "nat option" nat
  | UpdateCategory operator listing_type category category_changes
  | DeleteCategory operator listing_type category

definition void :: "('e + 'a) \<times> 'z \<Rightarrow> ('e + unit) \<times> 'z" where
  "void r = (case r of (Inl e, d) \<Rightarrow> (Inl e, d) | (Inr _, d) \<Rightarrow> (Inr (), d))"

fun run_catalog :: "tenant \<Rightarrow> catalog_cmd \<Rightarrow> 'z catalog_db_scheme \<Rightarrow> (catalog_error + unit) \<times> 'z catalog_db_scheme" where
  "run_catalog tn (CreateType op f) db = void (create_listing_type tn op f db)"
| "run_catalog tn (UpdateType op t c) db = void (update_listing_type tn op t c db)"
| "run_catalog tn (DeleteType op t) db = void (delete_listing_type tn op t db)"
| "run_catalog tn (CreateCategory op t n s p k) db = void (create_category tn op t n s p k db)"
| "run_catalog tn (UpdateCategory op t c ch) db = void (update_category tn op t c ch db)"
| "run_catalog tn (DeleteCategory op t c) db = void (delete_category tn op t c db)"

fun frozen_change :: "catalog_cmd \<Rightarrow> bool" where
  "frozen_change (UpdateType op t c) = (tc_key c \<noteq> None)"
| "frozen_change _ = False"

text \<open>A step that writes neither the log nor the outbox, and one that adds one event of the tenant.\<close>

definition silent :: "'z core_db_scheme \<Rightarrow> 'z core_db_scheme \<Rightarrow> bool" where
  "silent d d' \<longleftrightarrow> commands d' = commands d \<and> outbox d' = outbox d \<and> in_atomic d' = in_atomic d \<and> seq d \<le> seq d' \<and> wall d' = wall d"

definition speaks :: "tenant \<Rightarrow> 'z core_db_scheme \<Rightarrow> 'z core_db_scheme \<Rightarrow> bool" where
  "speaks tn d d' \<longleftrightarrow> commands d' = commands d \<and> in_atomic d' = in_atomic d \<and> seq d \<le> seq d' \<and> wall d' = wall d
     \<and> (\<exists>ev. outbox d' = outbox d @ [ev] \<and> ev_type ev = TENANT_SETTINGS_CHANGED \<and> ev_tenant ev = tn_pk tn)"

lemma silent_refl [simp]: "silent d d"
  by (simp add: silent_def)

lemma silent_trans: "silent a b \<Longrightarrow> silent b c \<Longrightarrow> silent a c"
  by (simp add: silent_def)

lemma silent_speaks: "silent a b \<Longrightarrow> speaks tn b c \<Longrightarrow> speaks tn a c"
  by (simp add: silent_def speaks_def)

lemma silent_insert_type: "insert_type t d = Inr (x, d') \<Longrightarrow> silent d d'"
  by (auto simp: insert_type_def silent_def split: if_splits)

lemma silent_save_type: "save_type t d = Inr (x, d') \<Longrightarrow> silent d d'"
  by (auto simp: save_type_def silent_def split: if_splits)

lemma silent_insert_category: "insert_category t d = Inr (x, d') \<Longrightarrow> silent d d'"
  by (auto simp: insert_category_def silent_def split: if_splits)

lemma silent_save_category: "save_category s t d = Inr (x, d') \<Longrightarrow> silent d d'"
  by (auto simp: save_category_def silent_def split: if_splits)

lemma silent_redirects:
  "insert_redirect k a b d = Inr (x, d') \<Longrightarrow> silent d d'"
  "get_or_create_redirect k a b d = Inr (x, d') \<Longrightarrow> silent d d'"
  "update_or_create_redirect k a b d = Inr (x, d') \<Longrightarrow> silent d d'"
  by (auto simp: insert_redirect_def get_or_create_redirect_def update_or_create_redirect_def silent_def split: if_splits)

lemma silent_mark: "silent d (mark_reindex k a b c d)"
  by (simp add: mark_reindex_def silent_def)

lemma silent_drop: "silent d (drop_categories ks d)"
  by (simp add: drop_categories_def silent_def Let_def)

lemma speaks_settings: "emit_settings_change tn operator ch d = Inr (ev, d') \<Longrightarrow> speaks tn d d'"
  by (auto simp: emit_settings_change_eq speaks_def new_event_def)

lemma speaks_atomic:
  assumes "atomic body db = Inr (x, db')" "\<And>d x d'. body d = Inr (x, d') \<Longrightarrow> speaks tn d d'"
  shows "speaks tn db db'"
proof -
  from assms(1) obtain d where d: "body (db\<lparr>in_atomic := True\<rparr>) = Inr (x, d)" "db' = d\<lparr>in_atomic := in_atomic db\<rparr>" by (auto simp: atomic_Inr)
  from assms(2) [OF d(1)] d(2) show ?thesis by (simp add: speaks_def)
qed

lemma speaks_last:
  assumes "then_do (emit_settings_change tn operator ch) (\<lambda>_ d. Inr (y, d)) d = Inr (x, d')"
  shows "speaks tn d d'"
  using assms by (auto simp: then_do_Inr intro: speaks_settings)

lemma speaks_then:
  assumes "then_do m f d = Inr (y, d')" "\<And>x d1. m d = Inr (x, d1) \<Longrightarrow> silent d d1"
    and "\<And>x d1. m d = Inr (x, d1) \<Longrightarrow> f x d1 = Inr (y, d') \<Longrightarrow> speaks tn d1 d'"
  shows "speaks tn d d'"
proof -
  from assms(1) obtain x d1 where "m d = Inr (x, d1)" "f x d1 = Inr (y, d')" by (auto simp: then_do_Inr)
  with assms(2,3) show ?thesis by (blast intro: silent_speaks)
qed

lemma speaks_create_type: "create_type_body tn operator f db = Inr (x, db') \<Longrightarrow> speaks tn db db'"
  unfolding create_type_body_def Let_def
  apply (erule speaks_atomic)
  apply (split sum.splits; clarify?)
  apply (erule speaks_then, erule silent_insert_type)
  apply (erule speaks_then, force split: list.splits intro: silent_redirects)
  apply (erule speaks_last)
  done

lemma speaks_update_type:
  assumes "update_type_body tn operator t c db = Inr (x, db')"
  shows "speaks tn db db'"
proof -
  from assms obtain fs where k: "tc_key c = None" "checked_fields c t = Inr fs" by (auto simp: update_type_body_def atomic_Inr split: sum.splits if_splits)
  show ?thesis
    using assms unfolding update_type_body_def Let_def k sum.case not_True_eq_False if_False simp_thms
    apply (elim speaks_atomic)
    apply (erule speaks_then, erule silent_save_type)
    apply (rule silent_speaks [rotated])
     apply (erule speaks_then, force split: if_splits intro: silent_redirects)
     apply (erule speaks_last)
    apply (auto split: option.split simp: silent_mark)
    done
qed

lemma speaks_delete_type: "delete_type_body tn operator t db = Inr (x, db') \<Longrightarrow> speaks tn db db'"
  unfolding delete_type_body_def Let_def
  apply (erule speaks_atomic)
  apply (split if_splits; clarify?)
  apply (rule silent_speaks [rotated], erule speaks_last)
  apply (simp add: drop_categories_def silent_def Let_def)
  done

lemma speaks_create_category: "create_category_body tn operator t n s p k db = Inr (x, db') \<Longrightarrow> speaks tn db db'"
  unfolding create_category_body_def Let_def
  apply (erule speaks_atomic)
  apply (split if_splits; clarify?)
  apply (erule speaks_then, erule silent_insert_category)
  apply (erule speaks_last)
  done

lemma speaks_category_rows: "update_category_rows tn operator t c ch d = Inr (x, d') \<Longrightarrow> speaks tn d d'"
  unfolding update_category_rows_def Let_def
  apply (erule speaks_then, erule silent_save_category)
  apply (erule speaks_then, force split: if_splits intro: silent_redirects)
  apply (rule silent_speaks [rotated], erule speaks_last)
  apply (auto simp: silent_mark)
  done

lemma speaks_update_category: "update_category_body tn operator t c ch db = Inr (x, db') \<Longrightarrow> speaks tn db db'"
  unfolding update_category_body_def
  by (erule speaks_atomic) (auto split: option.splits if_splits intro: speaks_category_rows)

lemma speaks_delete_category: "delete_category_body tn operator t c db = Inr (x, db') \<Longrightarrow> speaks tn db db'"
  unfolding delete_category_body_def
  by (erule speaks_atomic) (blast intro: silent_speaks speaks_last silent_drop)


definition SETTING_NAMES :: "string list" where
  "SETTING_NAMES = [''key'', ''label_singular'', ''label_plural'', ''path_segment'', ''claimable'', ''fields'', ''name'', ''slug'', ''parent'', ''order'']"

text \<open>What one configuration command leaves behind: \<open>res\<close> is its result.\<close>

definition saved_once :: "tenant \<Rightarrow> catalog_error + 'r \<Rightarrow> 'z catalog_db_scheme \<Rightarrow> 'z catalog_db_scheme \<Rightarrow> bool" where
  "saved_once tn res db db' \<longleftrightarrow>
     (\<exists>row page op. commands db' = commands db @ [row] \<and> cmd_command row = SETTINGS_UPDATE \<and> cmd_tenant row = Some (tn_pk tn)
       \<and> (case res of
            Inr _ \<Rightarrow> cmd_outcome row = Some ''applied'' \<and> (\<exists>names. set names \<subseteq> set SETTING_NAMES \<and> cmd_payload row = Some (settings_payload page op names))
              \<and> (\<exists>ev. outbox db' = outbox db @ [ev] \<and> ev_type ev = TENANT_SETTINGS_CHANGED \<and> ev_tenant ev = tn_pk tn)
          | Inl e \<Rightarrow> cmd_outcome row = (if config_refused e then Some ''rejected'' else None) \<and> cmd_payload row = Some (settings_payload page op [])
              \<and> db' = db\<lparr>commands := commands db @ [row], seq := Suc (seq db)\<rparr>))"

lemma conclude_received:
  assumes "log_ok db" "log_received c tn k a tr og pl db = (row, db1)"
  shows "log_conclude row oc eid pb None db1 = db1\<lparr>commands := commands db @ [concluded_row row oc eid pb None (wall db1)]\<rparr>"
proof -
  have "commands (log_conclude row oc eid pb None db1) = commands db @ [concluded_row row oc eid pb None (wall db1)]"
    using log_conclude_own [OF assms refl] .
  then show ?thesis by (simp add: log_conclude_def)
qed

lemma catalog_command_saves:
  fixes db :: "'z catalog_db_scheme"
  assumes out: "\<not> in_atomic db" and ok: "log_ok db"
    and body: "\<And>d r names d'. body d = Inr ((r, names), d') \<Longrightarrow> speaks tn d d' \<and> set names \<subseteq> set SETTING_NAMES"
    and run: "catalog_command tn operator page op body db = (res, db')"
  shows "saved_once tn res db db' \<and> log_ok db' \<and> \<not> in_atomic db'"
proof -
  obtain row db1 where r: "log_received SETTINGS_UPDATE (Some (tn_pk tn)) None (admin_actor operator) [] [] (Some (settings_payload page op [])) db = (row, db1)"
    by (cases "log_received SETTINGS_UPDATE (Some (tn_pk tn)) None (admin_actor operator) [] [] (Some (settings_payload page op [])) db")
  note s = log_received_simps [OF r]
  have run': "(case body db1 of
      Inl e \<Rightarrow> (Inl e, if config_refused e then log_conclude row ''rejected'' [] (Some (JObj [(''reason'', JStr ''invalid'')])) None db1 else db1)
    | Inr ((r, names), db2) \<Rightarrow> (Inr r, log_conclude row ''applied'' [] None (Some (settings_payload page op names)) db2)) = (res, db')"
    using run out r by (simp add: catalog_command_def settings_command_def require_autocommit_def Let_def)
  show ?thesis
  proof (cases "body db1")
    case (Inl e)
    define fin where "fin = (if config_refused e then concluded_row row ''rejected'' [] (Some (JObj [(''reason'', JStr ''invalid'')])) None (wall db1) else row)"
    have "db' = db\<lparr>commands := commands db @ [fin], seq := Suc (seq db)\<rparr>"
      using run' Inl conclude_received [OF ok r] s(8) by (auto simp: fin_def)
    moreover have "cmd_command fin = SETTINGS_UPDATE" "cmd_tenant fin = Some (tn_pk tn)" "cmd_payload fin = Some (settings_payload page op [])"
        "cmd_outcome fin = (if config_refused e then Some ''rejected'' else None)" "cmd_pk fin = Suc (seq db)"
      using s(2,4,6,7) r by (auto simp: fin_def log_received_def Let_def)
    moreover have "res = Inl e" using run' Inl by auto
    ultimately show ?thesis using ok out by (auto simp: saved_once_def log_ok_def)
  next
    case (Inr x)
    obtain v names db2 where x: "x = ((v, names), db2)" by (metis prod.exhaust)
    with body Inr have sp: "speaks tn db1 db2" "set names \<subseteq> set SETTING_NAMES" by blast+
    have res: "res = Inr v" "db' = log_conclude row ''applied'' [] None (Some (settings_payload page op names)) db2" using run' Inr x by auto
    have c: "commands db' = commands db @ [concluded_row row ''applied'' [] None (Some (settings_payload page op names)) (wall db2)]"
      unfolding res(2) by (rule log_conclude_own [OF ok r]) (use sp(1) in \<open>simp add: speaks_def\<close>)
    from sp(1) obtain ev where ev: "outbox db2 = outbox db1 @ [ev]" "ev_type ev = TENANT_SETTINGS_CHANGED" "ev_tenant ev = tn_pk tn"
      by (auto simp: speaks_def)
    have "outbox db' = outbox db @ [ev]" using ev(1) res(2) received_tables(6) [OF r] by simp
    then have "saved_once tn res db db'"
      unfolding saved_once_def using c s(4,7) sp(2) ev(2,3) res(1) by (auto simp: concluded_row_def)
    moreover have "log_ok db'" unfolding log_ok_def c
      using ok s(2,3) sp(1) res(2) by (auto simp: speaks_def log_ok_def)
    moreover have "\<not> in_atomic db'" using out sp(1) res(2) received_tables(5) [OF r] by (simp add: speaks_def)
    ultimately show ?thesis by blast
  qed
qed

lemma saved_void: "saved_once tn (fst r) db (snd r) \<Longrightarrow> saved_once tn (fst (void r)) db (snd (void r))"
  by (cases r; cases "fst r") (auto simp: void_def saved_once_def)

lemma snd_void [simp]: "snd (void r) = snd r"
  by (cases r; cases "fst r") (auto simp: void_def)

lemma changed_names_keys: "set (changed_names a b) \<subseteq> set (dict_keys a) \<union> set (dict_keys b)"
  by (auto simp: changed_names_def)

lemma setting_keys: "set (dict_keys (type_value t)) \<subseteq> set SETTING_NAMES" "set (dict_keys (category_fields c)) \<subseteq> set SETTING_NAMES"
  by (auto simp: type_value_def category_fields_def dict_keys_def SETTING_NAMES_def)

lemma logged_body:
  assumes "then_do m (\<lambda>x d. Inr ((g x, h x), d)) d = Inr ((r, names), d')" "\<And>x d'. m d = Inr (x, d') \<Longrightarrow> speaks tn d d'" "\<And>x. set (h x) \<subseteq> set SETTING_NAMES"
  shows "speaks tn d d' \<and> set names \<subseteq> set SETTING_NAMES"
  using assms by (auto simp: then_do_Inr)

lemma run_catalog_saves:
  assumes "\<not> in_atomic db" "log_ok db" "\<not> frozen_change cmd"
  shows "saved_once tn (fst (run_catalog tn cmd db)) db (snd (run_catalog tn cmd db)) \<and> log_ok (snd (run_catalog tn cmd db)) \<and> \<not> in_atomic (snd (run_catalog tn cmd db))"
proof -
  have *: "saved_once tn (fst (void r)) db (snd (void r)) \<and> log_ok (snd (void r)) \<and> \<not> in_atomic (snd (void r))"
    if r: "catalog_command tn operator page op (then_do m (\<lambda>x d. Inr ((g x, h x), d))) db = r" and m: "\<And>d x d'. m d = Inr (x, d') \<Longrightarrow> speaks tn d d'"
       and h: "\<And>x. set (h x) \<subseteq> set SETTING_NAMES" for r operator page op m g h
  proof -
    have body: "speaks tn d d' \<and> set names \<subseteq> set SETTING_NAMES"
      if "then_do m (\<lambda>x d. Inr ((g x, h x), d)) d = Inr ((v, names), d')" for d v names d'
      using logged_body [OF that m h] .
    have "catalog_command tn operator page op (then_do m (\<lambda>x d. Inr ((g x, h x), d))) db = (fst r, snd r)" using r by simp
    from catalog_command_saves [OF assms(1,2) body this] show ?thesis using saved_void [of tn r] by simp
  qed
  note run = * [OF refl]
  have keys: "set (dict_keys (type_value t)) \<subseteq> set SETTING_NAMES" "set (dict_keys (category_fields c)) \<subseteq> set SETTING_NAMES"
    "set (changed_names (type_value t) (type_value u)) \<subseteq> set SETTING_NAMES" "set (changed_names (category_fields c) (category_fields d)) \<subseteq> set SETTING_NAMES"
    for t u :: listing_type and c d :: category
    using changed_names_keys [of "type_value t" "type_value u"] changed_names_keys [of "category_fields c" "category_fields d"]
      setting_keys(1) [of t] setting_keys(1) [of u] setting_keys(2) [of c] setting_keys(2) [of d] by blast+
  show ?thesis
  proof (cases cmd)
    case (CreateType op f)
    show ?thesis unfolding CreateType run_catalog.simps create_listing_type_def by (rule run, erule speaks_create_type, rule keys)
  next
    case (UpdateType op t c)
    with assms(3) have k: "(tc_key c \<noteq> None) = False" by simp
    show ?thesis unfolding UpdateType run_catalog.simps update_listing_type_def k if_False by (rule run, erule speaks_update_type, rule keys)
  next
    case (DeleteType op t)
    show ?thesis unfolding DeleteType run_catalog.simps delete_listing_type_def by (rule run, erule speaks_delete_type, simp)
  next
    case (CreateCategory op t n s p k)
    show ?thesis unfolding CreateCategory run_catalog.simps create_category_def by (rule run, erule speaks_create_category, rule keys)
  next
    case (UpdateCategory op t c ch)
    show ?thesis unfolding UpdateCategory run_catalog.simps update_category_def by (rule run, erule speaks_update_category, rule keys)
  next
    case (DeleteCategory op t c)
    show ?thesis unfolding DeleteCategory run_catalog.simps delete_category_def by (rule run, erule speaks_delete_category, simp)
  qed
qed

text \<open>A configuration command, outside a transaction and not naming the frozen key, writes exactly one row of the command log. If it
  succeeds the row is concluded as applied and names fields only, never values, and one event is emitted; if it is refused the row is
  rejected, after any other exception it stays open, and either way nothing else of the store has changed.\<close>

theorem catalog_commands_logged:
  assumes "\<not> in_atomic db" "log_ok db" "\<not> frozen_change cmd" "run_catalog tn cmd db = (res, db')"
  shows "saved_once tn res db db'"
  using run_catalog_saves [OF assms(1-3), of tn] assms(4) by simp

text \<open>The commands that meet no unexpected exception keep the contract of a logged command.\<close>

definition expected :: "tenant \<Rightarrow> catalog_cmd \<Rightarrow> 'z catalog_db_scheme \<Rightarrow> bool" where
  "expected tn cmd db \<longleftrightarrow> \<not> frozen_change cmd \<and> (case fst (run_catalog tn cmd db) of Inl e \<Rightarrow> config_refused e | Inr _ \<Rightarrow> True)"

lemma command_in_transaction: "in_atomic db \<Longrightarrow> catalog_command tn operator page op body db = (Inl (CatalogAudit MustNotBeInTransaction), db)"
  by (simp add: catalog_command_def settings_command_def require_autocommit_def)

lemma run_in_transaction: "in_atomic db \<Longrightarrow> isl (fst (run_catalog tn cmd db)) \<and> snd (run_catalog tn cmd db) = db"
  by (cases cmd) (simp_all add: create_listing_type_def update_listing_type_def delete_listing_type_def create_category_def update_category_def
      delete_category_def command_in_transaction void_def)

interpretation catalog: logged_command "run_catalog tn" "expected tn" for tn
proof
  fix cmd and db :: "'z catalog_db_scheme"
  assume "\<not> in_atomic db" "log_ok db" "expected tn cmd db"
  with run_catalog_saves [of db cmd tn] show "(\<exists>row. commands (snd (run_catalog tn cmd db)) = commands db @ [row] \<and> cmd_outcome row \<noteq> None
         \<and> (cmd_outcome row = Some ''applied'' \<longleftrightarrow> \<not> isl (fst (run_catalog tn cmd db))))
      \<and> log_ok (snd (run_catalog tn cmd db)) \<and> \<not> in_atomic (snd (run_catalog tn cmd db))"
    by (cases "fst (run_catalog tn cmd db)") (auto simp: expected_def saved_once_def)
qed (rule run_in_transaction)

subsection \<open>A small directory\<close>

definition shop_type :: listing_type where
  "shop_type = \<lparr>lt_tenant = 1, lt_key = ''business'', lt_fields = [], lt_pk = 30, lt_public_id = ''lt_30'', label_singular = ''Business'',
     label_plural = ''Businesses'', path_segment = ''businesses'', lt_claimable = True, lt_created_at = 0, lt_updated_at = 0\<rparr>"

definition shop_category :: category where
  "shop_category = \<lparr>cat_pk = 31, cat_tenant = 1, cat_type = 30, cat_public_id = ''cat_31'', cat_slug = ''cafes'', cat_name = ''Cafes'', cat_parent = None,
     cat_order = 0, cat_created_at = 0\<rparr>"

definition shop_listing :: listing where
  "shop_listing = sample_listing\<lparr>categories := [''cafes'']\<rparr>"

definition shop_db :: catalog_db where
  "shop_db = \<lparr>wall = sample_now, entropy = (\<lambda>n. n), draws = 0, seq = 100, in_atomic = False, tenants = [sample_tenant], memberships = [], outbox = [],
     deliveries = [], mail = [], counters = [], commands = [], accesses = [], listings = [shop_listing], users = [sample_user], operators = [sample_operator],
     claims = [], guards = [], items = [], consent_texts = [], consents = [], leads = [], listing_types = [shop_type], category_rows = [shop_category],
     redirects = [], reindex_jobs = [], suppression_keys = [], batches = [], batch_rows = [], search_docs = Map.empty\<rparr>"

definition second_form :: type_form where
  "second_form = \<lparr>tf_key = ''tool'', tf_singular = ''Tool'', tf_plural = ''Tools'', tf_segment = ''tools'', tf_claimable = False, tf_fields = JList []\<rparr>"

lemma second_type_created: "\<exists>t db'. create_listing_type sample_tenant sample_operator second_form shop_db = (Inr t, db')"
  by (simp add: create_listing_type_def catalog_command_def settings_command_def require_autocommit_def log_received_def create_type_body_def
      atomic_def check_schema_def validate_type_schema_def store_schema_def then_do_def insert_type_def type_columns_def fits_def type_clash_def types_of_def
      get_or_create_redirect_def has_redirect_def insert_redirect_def redirect_columns_def emit_settings_change_eq new_type_def Let_def
      shop_db_def shop_type_def second_form_def sample_tenant_def)

lemma shop_types: "types_of (tn_pk sample_tenant) shop_db = [shop_type]"
  by (simp add: types_of_def shop_db_def shop_type_def sample_tenant_def)

text \<open>The front page of the category, and the page it moves to.\<close>

theorem second_type_hides_site_witness:
  "\<exists>t db'. create_listing_type sample_tenant sample_operator second_form shop_db = (Inr t, db')
     \<and> public_dispatch st sample_tenant ''cafes/'' [] db' = MovedTo ''/businesses/cafes/''
     \<and> public_dispatch st sample_tenant ''businesses/cafes/'' [] db' = MovedTo ''/businesses/businesses/cafes/''"
proof -
  from second_type_created obtain t db' where c: "create_listing_type sample_tenant sample_operator second_form shop_db = (Inr t, db')" by blast
  have "public_dispatch st sample_tenant (concat (replicate n (path_segment shop_type @ ''/'')) @ ''cafes/'') [] db' =
      MovedTo (''/'' @ concat (replicate (Suc n) (path_segment shop_type @ ''/'')) @ ''cafes/'')" for n
    by (rule second_type_hides_site [OF c shop_types])
      (simp_all add: shop_db_def shop_type_def plain_segment_def RESERVED_TOP_def first_segment_def strip_slashes_def)
  from this [of 0] this [of 1] c show ?thesis by (simp add: shop_type_def)
qed

definition one_page :: site where
  "one_page = \<lparr>st_paginate = (\<lambda>n ls. ls)\<rparr>"

lemma shop_tables:
  "listings shop_db = [shop_listing]" "category_rows shop_db = [shop_category]" "listing_types shop_db = [shop_type]" "redirects shop_db = []"
  by (simp_all add: shop_db_def)

lemma shop_rows:
  "ls_tenant shop_listing = 1" "ls_type_key shop_listing = ''business''" "visibility shop_listing = V_PUBLISHED" "categories shop_listing = [''cafes'']"
  "lt_tenant shop_type = 1" "lt_key shop_type = ''business''" "lt_pk shop_type = 30" "cat_type shop_category = 30" "cat_slug shop_category = ''cafes''"
  "cat_parent shop_category = None" "cat_pk shop_category = 31"
  by (simp_all add: shop_listing_def sample_listing_def shop_type_def shop_category_def)

lemma shop_page: "public_dispatch one_page sample_tenant ''cafes'' [] shop_db =
    CategoryPage shop_type shop_category [] [shop_listing] 1 (absolute_url sample_tenant ''/cafes/'')"
proof -
  have "match_redirect k p shop_db = None" for k p by (rule match_none) (simp add: shop_tables)
  then show ?thesis
    by (simp add: public_dispatch_def shop_types segments_of_def show_segments_def category_page_def category_or_404_def published_def
      of_type_def category_url_def type_prefix_def one_page_def Let_def shop_tables shop_rows)
qed

theorem public_site_shows_published_witness:
  "public_dispatch one_page sample_tenant ''cafes'' [] shop_db =
      CategoryPage shop_type shop_category [] [shop_listing] 1 (absolute_url sample_tenant ''/cafes/'')
   \<and> shop_listing \<in> set (listings shop_db) \<and> visibility shop_listing = V_PUBLISHED"
  using public_site_shows_published [OF _ shop_page] shop_page by (simp add: one_page_def)

lemma shop_ok: "site_ok sample_tenant shop_db"
  by (simp add: site_ok_def shop_types) (simp add: shop_db_def shop_type_def shop_category_def shop_listing_def sample_listing_def plain_segment_def)

lemma shop_canonical: "canonical_category shop_listing shop_db = Some shop_category"
  by (simp add: canonical_category_def categories_of_listing_def type_of_listing_def)
    (simp add: shop_db_def shop_type_def shop_category_def shop_listing_def sample_listing_def)

theorem listing_url_resolves_witness:
  "listing_url shop_type (Some shop_category) shop_listing False = Some ''/cafes/cafe''
   \<and> public_dispatch one_page sample_tenant ''cafes/cafe'' [] shop_db =
      ListingPage shop_type shop_listing shop_category (Some ''https://acme.example/cafes/cafe'') []"
proof -
  have url: "listing_url shop_type (Some shop_category) shop_listing False = Some ''/cafes/cafe''"
    by (simp add: listing_url_def type_prefix_def shop_category_def shop_listing_def sample_listing_def)
  have "shop_listing \<in> set (published shop_type shop_db)"
    by (simp add: published_def of_type_def shop_db_def shop_type_def shop_listing_def sample_listing_def)
  moreover have "match_redirect (tn_pk sample_tenant) (''/'' @ ''cafes/cafe'') shop_db = None"
    by (rule match_none) (simp add: shop_db_def)
  ultimately have "public_dispatch one_page sample_tenant ''cafes/cafe'' [] shop_db =
      ListingPage shop_type shop_listing shop_category (Some (absolute_url sample_tenant (''/'' @ ''cafes/cafe''))) (public_fields shop_type shop_listing)"
    using listing_url_resolves [OF shop_ok _ _ shop_canonical, of shop_type "''cafes/cafe''"] url shop_types by simp
  then show ?thesis using url by (simp add: absolute_url_def has_absolute_base_def sample_tenant_def public_fields_def shop_type_def)
qed

definition tool_type :: listing_type where
  "tool_type = shop_type\<lparr>lt_key := ''tool'', lt_pk := 32, path_segment := ''tools''\<rparr>"

definition mall_db :: catalog_db where
  "mall_db = shop_db\<lparr>listing_types := [shop_type, tool_type]\<rparr>"

definition new_segment :: type_changes where
  "new_segment = \<lparr>tc_key = None, tc_singular = None, tc_plural = None, tc_segment = Some ''companies'', tc_claimable = None, tc_fields = None\<rparr>"

lemma segment_moved: "\<exists>db'. update_listing_type sample_tenant sample_operator shop_type new_segment mall_db = (Inr (shop_type\<lparr>path_segment := ''companies''\<rparr>), db')
    \<and> length (types_of (tn_pk sample_tenant) db') = 2"
  by (simp add: update_listing_type_def catalog_command_def settings_command_def require_autocommit_def log_received_def update_type_body_def
      atomic_def checked_fields_def then_do_def save_type_def type_columns_def fits_def type_clash_def types_of_def changed_type_def given_def
      update_or_create_redirect_def has_redirect_def insert_redirect_def redirect_columns_def emit_settings_change_eq log_conclude_def Let_def
      mall_db_def shop_db_def shop_type_def tool_type_def new_segment_def sample_tenant_def)

theorem moved_type_redirects_witness:
  "\<exists>t' db'. update_listing_type sample_tenant sample_operator shop_type new_segment mall_db = (Inr t', db')
     \<and> match_redirect (tn_pk sample_tenant) ''/businesses/cafes/cafe'' db' = Some ''/companies/cafes/cafe''"
proof -
  from segment_moved obtain db' where m: "update_listing_type sample_tenant sample_operator shop_type new_segment mall_db = (Inr (shop_type\<lparr>path_segment := ''companies''\<rparr>), db')"
      "length (types_of (tn_pk sample_tenant) db') = 2" by blast
  have "match_redirect (tn_pk sample_tenant) (''/'' @ path_segment shop_type @ ''/cafes/cafe'') db' = Some (''/'' @ path_segment (shop_type\<lparr>path_segment := ''companies''\<rparr>) @ ''/cafes/cafe'')"
    by (rule moved_type_redirects [OF m(1)]) (use m(2) in \<open>simp_all add: shop_type_def plain_segment_def RESERVED_TOP_def mall_db_def shop_db_def\<close>)
  with m(1) show ?thesis by (simp add: shop_type_def)
qed

theorem catalog_commands_logged_witness:
  "\<exists>db'. run_catalog sample_tenant (CreateType sample_operator second_form) shop_db = (Inr (), db')
     \<and> saved_once sample_tenant (Inr () :: catalog_error + unit) shop_db db'"
proof -
  from second_type_created obtain t db' where "create_listing_type sample_tenant sample_operator second_form shop_db = (Inr t, db')" by blast
  then have r: "run_catalog sample_tenant (CreateType sample_operator second_form) shop_db = (Inr (), db')" by (simp add: void_def)
  from catalog_commands_logged [OF _ _ _ r] r show ?thesis by (simp add: shop_db_def log_ok_def)
qed

text \<open>Renaming a type there and back leaves two redirects that lead to each other.\<close>

lemma applies_segment:
  assumes "plain_segment s" "plain_segment s'" "rest = [] \<or> hd rest = CHR ''/''" "redirect_applies r (''/'' @ s @ rest)" "old_prefix r = ''/'' @ s'"
  shows "s' = s"
proof -
  from assms(4,5) obtain u where u: "CHR ''/'' # s @ rest = CHR ''/'' # s' @ u" "u = [] \<or> hd u = CHR ''/''"
    by (auto simp: redirect_applies_def starts_with_def prefix_def)
  have "first_segment (CHR ''/'' # s @ rest) = s" using assms(1,3) by (rule first_segment_plain)
  moreover have "first_segment (CHR ''/'' # s' @ u) = s'" using assms(2) u(2) by (rule first_segment_plain)
  ultimately show ?thesis using u(1) by simp
qed

theorem moved_back_loops:
  fixes db d1 d2 :: "'z catalog_db_scheme"
  assumes w: "update_or_create_redirect k (''/'' @ a) (''/'' @ b) db = Inr ((), d1)" "update_or_create_redirect k (''/'' @ b) (''/'' @ a) d1 = Inr ((), d2)"
    and none: "redirects_of k db = []" and plain: "plain_segment a" "plain_segment b" "a \<noteq> b"
    and top: "a \<notin> set RESERVED_TOP" "b \<notin> set RESERVED_TOP" and rest: "rest = [] \<or> hd rest = CHR ''/''"
  shows "match_redirect k (''/'' @ a @ rest) d2 = Some (''/'' @ b @ rest) \<and> match_redirect k (''/'' @ b @ rest) d2 = Some (''/'' @ a @ rest)"
proof -
  have no: "\<not> has_redirect k old db" for old using none by (auto simp: has_redirect_def list_ex_iff filter_empty_conv)
  obtain r where r: "redirects_of k d1 = [r]" "pr_tenant r = k" "old_prefix r = ''/'' @ a" "new_prefix r = ''/'' @ b"
    using w(1) no none by (auto simp: update_or_create_redirect_def insert_redirect_def filter_empty_conv split: if_splits)
  have "\<not> has_redirect k (''/'' @ b) d1"
  proof
    assume "has_redirect k (''/'' @ b) d1"
    then obtain q where "q \<in> set (redirects_of k d1)" "old_prefix q = ''/'' @ b" by (auto simp: has_redirect_def list_ex_iff)
    with r plain(3) show False by simp
  qed
  then obtain q where q: "redirects_of k d2 = [r, q]" "old_prefix q = ''/'' @ b" "new_prefix q = ''/'' @ a"
    using w(2) r(1) by (auto simp: update_or_create_redirect_def insert_redirect_def split: if_splits)
  have ap: "redirect_applies r (''/'' @ a @ rest)" "redirect_applies q (''/'' @ b @ rest)"
    using r(3) q(2) rest by (cases rest; auto simp: redirect_applies_def starts_with_def)+
  have "match_redirect k (''/'' @ a @ rest) d2 = Some (new_prefix r @ drop (length (old_prefix r)) (''/'' @ a @ rest))"
    by (rule match_longest) (use q r ap top plain rest applies_segment [OF plain(1,2) rest, of q] first_segment_plain [OF plain(1) rest] in auto)
  moreover have "match_redirect k (''/'' @ b @ rest) d2 = Some (new_prefix q @ drop (length (old_prefix q)) (''/'' @ b @ rest))"
    by (rule match_longest) (use q r ap top plain rest applies_segment [OF plain(2,1) rest, of r] first_segment_plain [OF plain(2) rest] in auto)
  ultimately show ?thesis using r q by simp
qed

end
