(* ===== verification/Owner_Edit.thy ===== *)
theory Owner_Edit
  imports Upsert
begin

section \<open>What an owner may change\<close>

text \<open>
  \<^verbatim>\<open>directory/owner_edit.py\<close>: the guard an owner's edit passes before it becomes an upsert. The keyword arguments of a change are the fields
  of \<open>owner_changes\<close>; of the keys it does not accept only the names are read.
\<close>

record owner_changes =
  oc_description :: "pyval option"
  oc_phone :: "pyval option"
  oc_custom :: "(string \<times> pyval) list option"
  oc_other :: "string list"

definition FREE_KEYS :: "string list" where
  "FREE_KEYS = [''description'', ''phone_e164'', ''custom_fields'']"

definition OPERATOR_ONLY_KEYS :: "string list" where
  "OPERATOR_ONLY_KEYS = [''name'', ''slug'', ''categories'', ''website'', ''email'', ''address_line1'', ''address_line2'', ''locality'', ''region'',
     ''postal_code'', ''country'', ''lat'', ''lon'', ''geo_precision'', ''location'', ''contact'']"

definition changed_keys :: "owner_changes \<Rightarrow> string list" where
  "changed_keys c =
     (if oc_description c = None then [] else [''description'']) @ (if oc_phone c = None then [] else [''phone_e164''])
     @ (if oc_custom c = None then [] else [''custom_fields'']) @ oc_other c"

definition owner_edit_actor :: "user \<Rightarrow> dict" where
  "owner_edit_actor u = [(''type'', JStr ''owner''), (''id'', JStr (usr_public_id u))]"

definition editable_custom_keys :: "dict list \<Rightarrow> string list" where
  "editable_custom_keys fs =
     map (\<lambda>f. py_str (get_or_null f ''key'')) (filter (\<lambda>f. case dict_get f ''public'' of None \<Rightarrow> True | Some p \<Rightarrow> truthy p) fs)"

definition refuse_owner :: "tenant \<Rightarrow> user \<Rightarrow> string \<Rightarrow> string list \<Rightarrow> string list \<Rightarrow> listing \<Rightarrow> 'z core_db_scheme \<Rightarrow> (catalog_error + 'r) \<times> 'z core_db_scheme" where
  "refuse_owner tn u reason fs keys l db =
     (let (row, db1) = log_received LISTING_UPSERT (Some (tn_pk tn)) None (owner_edit_actor u) [] []
            (Some (JObj [(''id'', JStr (ls_public_id l)), (''keys'', JList (map JStr (sort (remdups keys))))])) db in
      (Inl (OwnerEditRefused reason (sort (remdups fs))),
       log_conclude row (if reason = ''not_owner'' then ''blocked'' else ''rejected'') []
         (Some (JObj [(''reason'', JStr reason), (''fields'', JList (map JStr (sort (remdups fs))))])) None db1))"

definition blank_to_none :: "pyval \<Rightarrow> pyval" where
  "blank_to_none v = (case v of PText s \<Rightarrow> if strip s = [] then PNone else v | _ \<Rightarrow> v)"

definition owner_payload :: "owner_changes \<Rightarrow> listing \<Rightarrow> (string option \<times> pyval) list" where
  "owner_payload c l =
     [(Some ''id'', PText (ls_public_id l))]
     @ (case oc_description c of None \<Rightarrow> [] | Some v \<Rightarrow> [(Some ''description'', blank_to_none v)])
     @ (case oc_phone c of None \<Rightarrow> [] | Some v \<Rightarrow> [(Some ''contact'', PDict [(Some ''phone_e164'', blank_to_none v)])])
     @ (case oc_custom c of None \<Rightarrow> [] | Some kvs \<Rightarrow> [(Some ''custom_fields'', PDict (map (\<lambda>(k, v). (Some k, blank_to_none v)) kvs))])"

definition owner_args :: "listing_type \<Rightarrow> user \<Rightarrow> upsert_args" where
  "owner_args t u =
     \<lparr>ua_type = t, ua_actor = owner_edit_actor u, ua_source = ''owner_submission'', ua_key = None, ua_trace = [], ua_origin = [],
      ua_enforce = True, ua_batch = None, ua_submitter = None, ua_must_create = False, ua_suppression = False\<rparr>"

text \<open>The reason for which an edit is refused, with the offending keys.\<close>

definition owner_refusal :: "listing_type \<Rightarrow> user \<Rightarrow> listing \<Rightarrow> owner_changes \<Rightarrow> 'z directory_db_scheme \<Rightarrow> (string \<times> string list) option" where
  "owner_refusal t u l c db =
     (let keys = changed_keys c;
          operator_only = filter (\<lambda>k. k \<in> set OPERATOR_ONLY_KEYS) keys;
          unknown = filter (\<lambda>k. k \<notin> set FREE_KEYS) keys;
          custom = map fst (case oc_custom c of None \<Rightarrow> [] | Some kvs \<Rightarrow> kvs);
          not_editable = filter (\<lambda>k. k \<notin> set (editable_custom_keys (lt_fields t))) custom in
      if operator_only \<noteq> [] then Some (''operator_only'', operator_only)
      else if unknown \<noteq> [] then Some (''not_accepted'', unknown)
      else if not_editable \<noteq> [] then Some (''custom_field'', not_editable)
      else case find_by ls_pk (ls_pk l) (listings db) of
        None \<Rightarrow> Some (''not_owner'', [])
      | Some fresh \<Rightarrow>
          if ls_owner fresh \<noteq> Some (usr_pk u) then Some (''not_owner'', [])
          else if ls_status fresh = L_SUSPENDED then Some (''listing_suspended'', [])
          else None)"

definition owner_update_listing :: "'w upsert_world_scheme \<Rightarrow> tenant \<Rightarrow> listing_type \<Rightarrow> user \<Rightarrow> listing \<Rightarrow> owner_changes \<Rightarrow> 'z catalog_db_scheme \<Rightarrow> (catalog_error + upsert_result) \<times> 'z catalog_db_scheme" where
  "owner_update_listing w tn t u l c db =
     (case require_autocommit db of
        Inl e \<Rightarrow> (Inl (CatalogAudit e), db)
      | Inr _ \<Rightarrow>
          (case owner_refusal t u l c db of
             Some (reason, fs) \<Rightarrow> refuse_owner tn u reason fs (changed_keys c) l db
           | None \<Rightarrow> upsert_listing w tn (owner_args t u) (owner_payload c l) db))"

end
