(* ===== verification/Rollback.thy ===== *)
theory Rollback
  imports Upsert
begin

section \<open>Undoing an import\<close>

text \<open>
  \<^verbatim>\<open>rollback_import_batch\<close> of \<^verbatim>\<open>directory/services.py\<close>: one transaction deletes the listings a batch created, gives the ones it updated their
  pre-image back, spends the pre-images and emits \<^verbatim>\<open>import.rolled_back\<close>. The rows that cascade with a listing are those of this store;
  the billing and media rows that hang on a listing are not in it.
\<close>

fun status_display :: "batch_status \<Rightarrow> string" where
  "status_display B_MAPPING = ''Awaiting column mapping''"
| "status_display B_PENDING = ''Pending''"
| "status_display B_PROCESSING = ''Processing''"
| "status_display B_COMPLETED = ''Completed''"
| "status_display B_ROLLED_BACK = ''Rolled back''"
| "status_display B_FAILED = ''Failed''"

definition ROLLBACKABLE :: "batch_status list" where
  "ROLLBACKABLE = [B_COMPLETED, B_FAILED]"

subsection \<open>Assigning a projection back\<close>

definition sub_object :: "dict \<Rightarrow> string \<Rightarrow> dict" where
  "sub_object d k = (case get_or_null d k of JObj e \<Rightarrow> e | _ \<Rightarrow> [])"

definition text_or_empty :: "dict \<Rightarrow> string \<Rightarrow> string" where
  "text_or_empty d k = (if truthy (get_or_null d k) then py_str (get_or_null d k) else [])"

definition stored_coordinate :: "dict \<Rightarrow> string \<Rightarrow> catalog_error + int option" where
  "stored_coordinate d k = (case decimal6 (get_or_null d k) of Inl _ \<Rightarrow> Inl TypeError | Inr c \<Rightarrow> Inr (micro_of c))"

definition json_items :: "dict \<Rightarrow> string \<Rightarrow> json list" where
  "json_items d k = (case get_or_null d k of JList xs \<Rightarrow> xs | _ \<Rightarrow> [])"

definition restored_row :: "dict \<Rightarrow> listing \<Rightarrow> catalog_error + listing" where
  "restored_row pre l =
     (let loc = sub_object pre ''location''; contact = sub_object pre ''contact''; prov = sub_object pre ''provenance'' in
      bind_result (stored_coordinate loc ''lat'') (\<lambda>la.
      bind_result (stored_coordinate loc ''lon'') (\<lambda>lo.
      Inr (l\<lparr>ls_slug := py_str (get_or_null pre ''slug''), ls_name := py_str (get_or_null pre ''name''),
        description := text_or_empty pre ''description'', reviews_disabled := truthy (get_or_null pre ''reviews_disabled''),
        address_line1 := text_or_empty loc ''address_line1'', address_line2 := text_or_empty loc ''address_line2'',
        locality := text_or_empty loc ''locality'', region := text_or_empty loc ''region'', postal_code := text_or_empty loc ''postal_code'',
        country := text_or_empty loc ''country'', lat := la, lon := lo,
        geo_precision := (if truthy (get_or_null loc ''geo_precision'') then py_str (get_or_null loc ''geo_precision'') else GEO_NONE),
        phone_e164 := text_or_empty contact ''phone_e164'', email := text_or_empty contact ''email'', website := text_or_empty contact ''website'',
        social := json_items contact ''social'', external_profiles := sub_object pre ''external_profiles'',
        attributes := sub_object pre ''attributes'', custom_fields := sub_object pre ''custom_fields'',
        source := (if truthy (get_or_null prov ''source'') then py_str (get_or_null prov ''source'') else source l),
        provenance_notes := text_or_empty prov ''notes''\<rparr>))))"

definition surviving_slugs :: "listing \<Rightarrow> dict \<Rightarrow> 'z catalog_db_scheme \<Rightarrow> string list" where
  "surviving_slugs l pre db =
     map cat_slug (filter (\<lambda>c. (case type_of_listing l db of None \<Rightarrow> False | Some t \<Rightarrow> cat_type c = lt_pk t)
       \<and> JStr (cat_slug c) \<in> set (json_items pre ''categories'')) (category_rows db))"

definition restore_listing :: "tenant \<Rightarrow> listing \<Rightarrow> dict \<Rightarrow> 'z catalog_db_scheme \<Rightarrow> catalog_error + unit \<times> 'z catalog_db_scheme" where
  "restore_listing tn l pre db =
     bind_result (restored_row pre l) (\<lambda>l1.
     then_do (save_listing False \<lparr>dr_row = l1, dr_null_slug = False, dr_nan = False\<rparr>) (\<lambda>_ d.
       let slugs = surviving_slugs l1 pre d; l2 = l1\<lparr>ls_updated_at := wall d, categories := slugs\<rparr> in
       Inr ((), recompute_search_vector tn l2 (set_categories (ls_pk l1) slugs d))) db)"

fun restore_rows :: "tenant \<Rightarrow> batch_row list \<Rightarrow> 'z catalog_db_scheme \<Rightarrow> catalog_error + nat \<times> 'z catalog_db_scheme" where
  "restore_rows tn [] db = Inr (0, db)"
| "restore_rows tn (r # rs) db =
     (case pre_image r of
        None \<Rightarrow> restore_rows tn rs db
      | Some pre \<Rightarrow>
          (case find_by ls_pk (br_listing r) (listings db) of
             None \<Rightarrow> Inl IntegrityError
           | Some l \<Rightarrow> then_do (restore_listing tn l pre) (\<lambda>_. then_do (restore_rows tn rs) (\<lambda>n d. Inr (Suc n, d))) db))"

subsection \<open>The rollback\<close>

definition delete_listings :: "nat list \<Rightarrow> 'z catalog_db_scheme \<Rightarrow> 'z catalog_db_scheme" where
  "delete_listings pks db =
     db\<lparr>listings := filter (\<lambda>l. ls_pk l \<notin> set pks) (listings db), guards := filter (\<lambda>g. gd_listing g \<notin> set pks) (guards db),
        items := filter (\<lambda>i. it_listing i \<notin> set pks) (items db), batch_rows := filter (\<lambda>r. br_listing r \<notin> set pks) (batch_rows db),
        search_docs := (search_docs db) |` (- set pks)\<rparr>"

definition named :: "listing \<Rightarrow> string" where
  "named l = ls_name l @ '' ('' @ ls_public_id l @ '')''"

definition refuse_for :: "string \<Rightarrow> string \<Rightarrow> string \<Rightarrow> listing list \<Rightarrow> catalog_error" where
  "refuse_for reason verb rest ls =
     RollbackRefused reason (''these imported listings now carry '' @ verb @ '' and cannot be removed: '' @ join '', '' (sort (map named ls)) @ rest)"

definition created_listings :: "nat \<Rightarrow> 'z catalog_db_scheme \<Rightarrow> listing list" where
  "created_listings batch db =
     filter (\<lambda>l. list_ex (\<lambda>r. br_batch r = batch \<and> br_action r = A_CREATED \<and> br_listing r = ls_pk l) (batch_rows db)) (listings db)"

definition rollback_guard :: "nat \<Rightarrow> 'z catalog_db_scheme \<Rightarrow> catalog_error option" where
  "rollback_guard batch db =
     (let created = created_listings batch db;
          claimed = filter (\<lambda>l. list_ex (\<lambda>c. cl_listing c = ls_pk l) (claims db)) created;
          with_leads = filter (\<lambda>l. list_ex (\<lambda>d. ld_listing d = ls_pk l) (leads db)) created in
      if list_ex (\<lambda>r. br_batch r = batch \<and> pre_image_nulled_at r \<noteq> None) (batch_rows db)
      then Some (RollbackRefused ''past_rollback_window'' ''this import is past its 90-day rollback window -- its pre-images have been cleared'')
      else if claimed \<noteq> [] then Some (refuse_for ''created_listing_claimed'' ''a claim'' ''. Resolve the claims first.'' claimed)
      else if with_leads \<noteq> [] then Some (refuse_for ''created_listing_has_leads'' ''leads'' ''. A lead's consent record is kept as evidence.'' with_leads)
      else None)"

definition spend_batch :: "import_batch \<Rightarrow> operator \<Rightarrow> 'z catalog_db_scheme \<Rightarrow> 'z catalog_db_scheme" where
  "spend_batch b operator db =
     db\<lparr>batch_rows := update_where (\<lambda>r. br_batch r = ib_pk b) (\<lambda>r. r\<lparr>pre_image := None, pre_image_nulled_at := Some (wall db)\<rparr>) (batch_rows db),
        batches := update_where (\<lambda>r. ib_pk r = ib_pk b)
          (\<lambda>r. r\<lparr>ib_status := B_ROLLED_BACK, rolled_back_by := Some (op_pk operator), rolled_back_at := Some (wall db)\<rparr>) (batches db)\<rparr>"

definition undo_batch :: "tenant \<Rightarrow> import_batch \<Rightarrow> operator \<Rightarrow> 'z catalog_db_scheme \<Rightarrow> catalog_error + string \<times> 'z catalog_db_scheme" where
  "undo_batch tn b operator db =
     (let rows = filter (\<lambda>r. br_batch r = ib_pk b) (batch_rows db);
          create_ids = map br_listing (filter (\<lambda>r. br_action r = A_CREATED) rows) in
      then_do (restore_rows tn (filter (\<lambda>r. br_action r = A_UPDATED) rows)) (\<lambda>restored d.
        then_do (\<lambda>s. lift_catalog (emit IMPORT_ROLLED_BACK (ib_public_id b) (tn_pk tn)
            [(''batch_id'', JStr (ib_public_id b)), (''listings_removed'', JInt (int (length create_ids))),
             (''listings_restored'', JInt (int restored)), (''rolled_back_by'', JStr (op_public_id operator))] (admin_actor operator) [] [] s))
          (\<lambda>ev d'. Inr (event_id ev, d')) (spend_batch b operator d)) (delete_listings create_ids db))"

text \<open>\<open>b\<close> is the caller's object, which the locked row replaces.\<close>

definition do_rollback :: "tenant \<Rightarrow> import_batch \<Rightarrow> operator \<Rightarrow> 'z catalog_db_scheme \<Rightarrow> catalog_error + string \<times> 'z catalog_db_scheme" where
  "do_rollback tn b operator db0 =
     (if ib_status b \<notin> set ROLLBACKABLE
      then Inl (RollbackRefused ''not_rollbackable'' (''an import in state '' @ repr (status_display (ib_status b)) @ '' cannot be rolled back''))
      else atomic (\<lambda>db.
        case find_by ib_pk (ib_pk b) (batches db) of
          None \<Rightarrow> Inl IntegrityError
        | Some locked \<Rightarrow>
            if ib_status locked \<notin> set ROLLBACKABLE then Inl (RollbackRefused ''not_rollbackable'' ''this import was already rolled back'')
            else (case rollback_guard (ib_pk b) db of Some e \<Rightarrow> Inl e | None \<Rightarrow> undo_batch tn locked operator db)) db0)"

definition rollback_import_batch :: "tenant \<Rightarrow> import_batch \<Rightarrow> operator \<Rightarrow> 'z catalog_db_scheme \<Rightarrow> (catalog_error + string) \<times> 'z catalog_db_scheme" where
  "rollback_import_batch tn b operator db =
     (case require_autocommit db of
        Inl e \<Rightarrow> (Inl (CatalogAudit e), db)
      | Inr _ \<Rightarrow>
          let (row, db1) = log_received ''import.rollback'' (Some (tn_pk tn)) (Some (''import.rollback:'' @ ib_public_id b)) (admin_actor operator) [] []
                (Some (JObj [(''batch_id'', JStr (ib_public_id b))])) db in
          (case do_rollback tn b operator db1 of
             Inl e \<Rightarrow> (Inl e, case e of RollbackRefused reason m \<Rightarrow> log_conclude row ''rejected'' [] (Some (JObj [(reason, JStr m)])) None db1 | _ \<Rightarrow> db1)
           | Inr (eid, db2) \<Rightarrow> (Inr eid, log_conclude row ''applied'' eid None None db2)))"

end
