(* ===== verification/Imports.thy ===== *)
theory Imports
  imports Rollback
begin

section \<open>The CSV import\<close>

text \<open>
  \<^verbatim>\<open>directory/csv_import.py\<close> (the column mapping and the payload of one row) and \<^verbatim>\<open>directory/importing.py\<close>: one worker pass claims the oldest
  open batch, sends up to \<^verbatim>\<open>limit\<close> of its rows through the upsert, advances the cursor after each, and settles the batch at the end of
  the file or at the first row that fails in a way the code does not expect. What the stored file parses to and the text of an
  unexpected exception are parameters.
\<close>

record import_world = upsert_world +
  iw_file :: "import_batch \<Rightarrow> string + string list list"
  iw_message :: "catalog_error \<Rightarrow> string"

subsection \<open>Columns\<close>

definition ROWS_PER_PASS :: nat where
  "ROWS_PER_PASS = 50"

definition IMPORT_TARGETS :: "string list" where
  "IMPORT_TARGETS = [''id'', ''slug'', ''name'', ''description'', ''reviews_disabled'', ''categories'', ''location.address_line1'',
     ''location.address_line2'', ''location.locality'', ''location.region'', ''location.postal_code'', ''location.country'', ''location.lat'',
     ''location.lon'', ''location.geo_precision'', ''contact.phone_e164'', ''contact.email'', ''contact.website'']"

definition custom_field_targets :: "dict list \<Rightarrow> string list" where
  "custom_field_targets fs = map (\<lambda>f. ''custom_fields.'' @ py_str (get_or_null f ''key'')) fs"

definition allowed_targets :: "dict list \<Rightarrow> string list" where
  "allowed_targets fs = IMPORT_TARGETS @ custom_field_targets fs"

text \<open>\<^verbatim>\<open>validate_mapping\<close>: \<open>Inl\<close> is the message of the \<^verbatim>\<open>MappingError\<close>.\<close>

fun map_columns :: "string list \<Rightarrow> string list \<Rightarrow> (string \<times> string) list \<Rightarrow> (string \<times> string) list \<Rightarrow> string + (string \<times> string) list" where
  "map_columns hs ts acc [] = Inr acc"
| "map_columns hs ts acc ((header, target) # cols) =
     (if target = [] then map_columns hs ts acc cols
      else if header \<notin> set hs then Inl (''unknown column: '' @ repr_text header)
      else if target \<notin> set ts then Inl (repr_text target @ '' is not a mappable field'')
      else if target \<in> set (map snd acc) then Inl (repr_text target @ '' is mapped to more than one column'')
      else map_columns hs ts (acc @ [(header, target)]) cols)"

definition validate_mapping :: "(string \<times> string) list \<Rightarrow> string list \<Rightarrow> dict list \<Rightarrow> string + (string \<times> string) list" where
  "validate_mapping submitted headers fs =
     bind_result (map_columns headers (allowed_targets fs) [] submitted) (\<lambda>cleaned.
       let seen = map snd cleaned in
       if ''id'' \<notin> set seen \<and> ''slug'' \<notin> set seen then Inl ''map a column to either the ID or the slug''
       else if ''id'' \<notin> set seen \<and> ''name'' \<notin> set seen then Inl ''map a column to the name (needed to create a listing)''
       else Inr cleaned)"

text \<open>\<^verbatim>\<open>build_payload\<close>; of two columns with one header the later counts.\<close>

definition add_cell :: "(string \<times> string) list \<Rightarrow> string \<times> string \<Rightarrow> dict \<Rightarrow> dict" where
  "add_cell row col payload =
     (let (header, target) = col; v = strip (case map_of (rev row) header of None \<Rightarrow> [] | Some s \<Rightarrow> s) in
      if v = [] then payload
      else if target = ''categories'' then
        dict_set ''categories'' (JList (map JStr (filter (\<lambda>p. p \<noteq> []) (map strip (split_on CHR ''|'' v))))) payload
      else if CHR ''.'' \<in> set target then
        (let head = takeWhile (\<lambda>c. c \<noteq> CHR ''.'') target; leaf = drop (Suc (length head)) target in
         dict_set head (JObj (dict_set leaf (JStr v) (sub_object payload head))) payload)
      else dict_set target (JStr v) payload)"

definition build_payload :: "string list \<Rightarrow> string list \<Rightarrow> (string \<times> string) list \<Rightarrow> dict" where
  "build_payload cells headers mapping = fold (add_cell (zip headers cells)) mapping []"

fun of_json :: "json \<Rightarrow> pyval" where
  "of_json JNull = PNone"
| "of_json (JBool b) = PBool b"
| "of_json (JInt n) = PInt n"
| "of_json (JDec n) = PNum n"
| "of_json (JStr s) = PText s"
| "of_json (JList xs) = PList (map of_json xs)"
| "of_json (JObj d) = PDict (map (\<lambda>(k, v). (Some k, of_json v)) d)"

definition of_dict :: "dict \<Rightarrow> (string option \<times> pyval) list" where
  "of_dict d = map (\<lambda>(k, v). (Some k, of_json v)) d"

subsection \<open>The life of a batch\<close>

definition save_batch :: "import_batch \<Rightarrow> (import_batch \<Rightarrow> import_batch) \<Rightarrow> 'z catalog_db_scheme \<Rightarrow> 'z catalog_db_scheme" where
  "save_batch b upd db = db\<lparr>batches := update_where (\<lambda>r. ib_pk r = ib_pk b) upd (batches db)\<rparr>"

definition import_actor :: "import_batch \<Rightarrow> 'z catalog_db_scheme \<Rightarrow> dict" where
  "import_actor b db =
     (case (case started_by b of None \<Rightarrow> None | Some pk \<Rightarrow> find_by op_pk pk (operators db)) of
        None \<Rightarrow> [(''type'', JStr ''system'')]
      | Some o' \<Rightarrow> [(''type'', JStr ''staff''), (''id'', JStr (op_public_id o'))])"

definition starter :: "import_batch \<Rightarrow> 'z catalog_db_scheme \<Rightarrow> json" where
  "starter b db =
     (case (case started_by b of None \<Rightarrow> None | Some pk \<Rightarrow> find_by op_pk pk (operators db)) of None \<Rightarrow> JNull | Some o' \<Rightarrow> JStr (op_public_id o'))"

text \<open>An event of the batch, in autocommit; the two event types are registered.\<close>

definition import_emit :: "string \<Rightarrow> import_batch \<Rightarrow> dict \<Rightarrow> 'z catalog_db_scheme \<Rightarrow> 'z catalog_db_scheme" where
  "import_emit event b data db =
     (case emit event (ib_public_id b) (ib_tenant b) data (import_actor b db) [] [] db of Inl e \<Rightarrow> db | Inr (ev, db') \<Rightarrow> db')"

definition open_batch :: "import_batch \<Rightarrow> bool" where
  "open_batch b \<longleftrightarrow> ib_status b \<in> {B_PENDING, B_PROCESSING} \<and> ib_type b \<noteq> None"

definition claim_batch :: "instant \<Rightarrow> 'z catalog_db_scheme \<Rightarrow> (import_batch \<times> bool) option \<times> 'z catalog_db_scheme" where
  "claim_batch now db =
     (case find open_batch (batches db) of
        None \<Rightarrow> (None, db)
      | Some b \<Rightarrow>
          if ib_status b = B_PENDING
          then (Some (b\<lparr>ib_status := B_PROCESSING, ib_started_at := Some now\<rparr>, True),
                save_batch b (\<lambda>r. r\<lparr>ib_status := B_PROCESSING, ib_started_at := Some now\<rparr>) db)
          else (Some (b, False), db))"

definition read_rows :: "'w import_world_scheme \<Rightarrow> import_batch \<Rightarrow> string + string list list" where
  "read_rows w b = bind_result (iw_file w b) (\<lambda>rows. Inr (if has_header b then drop 1 rows else rows))"

definition begin_batch :: "import_batch \<Rightarrow> nat \<Rightarrow> 'z catalog_db_scheme \<Rightarrow> import_batch \<times> 'z catalog_db_scheme" where
  "begin_batch b n db =
     (let b' = b\<lparr>row_count := n\<rparr>; d = save_batch b (\<lambda>r. r\<lparr>row_count := n\<rparr>) db in
      (b', import_emit IMPORT_STARTED b'
         [(''batch_id'', JStr (ib_public_id b')), (''source'', JStr (ib_source b')), (''row_count'', JInt (int n)), (''started_by'', starter b' d)] d))"

definition finish_batch :: "import_batch \<Rightarrow> instant \<Rightarrow> bool \<Rightarrow> json list \<Rightarrow> 'z catalog_db_scheme \<Rightarrow> 'z catalog_db_scheme" where
  "finish_batch b now ok extra db =
     (let b' = b\<lparr>ib_errors := ib_errors b @ extra, ib_status := if ok then B_COMPLETED else B_FAILED, ib_completed_at := Some now\<rparr>;
          d = save_batch b (\<lambda>r. r\<lparr>ib_status := ib_status b', ib_completed_at := Some now, ib_errors := ib_errors b'\<rparr>) db in
      import_emit IMPORT_COMPLETED b'
        [(''batch_id'', JStr (ib_public_id b')), (''status'', JStr (if ok then ''completed'' else ''failed'')), (''created'', JInt (int (created_count b'))),
         (''updated'', JInt (int (updated_count b'))), (''skipped'', JInt (int (skipped_count b'))), (''suppressed'', JInt (int (suppressed_count b'))),
         (''errors'', JList (ib_errors b'))] d)"

subsection \<open>The row loop\<close>

text \<open>\<^verbatim>\<open>_bump\<close>: \<open>count\<close> is the counter of the outcome.\<close>

definition bumped :: "nat \<Rightarrow> (import_batch \<Rightarrow> import_batch) \<Rightarrow> json list \<Rightarrow> json list \<Rightarrow> import_batch \<Rightarrow> import_batch" where
  "bumped n count errors notes b =
     (count b)\<lparr>processed_row_count := n, ib_errors := ib_errors b @ errors, ib_notes := ib_notes b @ notes\<rparr>"

definition bump :: "import_batch \<Rightarrow> nat \<Rightarrow> (import_batch \<Rightarrow> import_batch) \<Rightarrow> json list \<Rightarrow> json list \<Rightarrow> 'z catalog_db_scheme \<Rightarrow> import_batch \<times> 'z catalog_db_scheme" where
  "bump b n count errors notes db =
     (let b' = bumped n count errors notes b in
      (b', save_batch b (\<lambda>r. r\<lparr>created_count := created_count b', updated_count := updated_count b', skipped_count := skipped_count b',
         suppressed_count := suppressed_count b', error_count := error_count b', processed_row_count := n, ib_errors := ib_errors b',
         ib_notes := ib_notes b'\<rparr>) db))"

definition count_created :: "import_batch \<Rightarrow> import_batch" where
  "count_created b = b\<lparr>created_count := created_count b + 1\<rparr>"

definition count_updated :: "import_batch \<Rightarrow> import_batch" where
  "count_updated b = b\<lparr>updated_count := updated_count b + 1\<rparr>"

definition count_skipped :: "import_batch \<Rightarrow> import_batch" where
  "count_skipped b = b\<lparr>skipped_count := skipped_count b + 1\<rparr>"

definition count_suppressed :: "import_batch \<Rightarrow> import_batch" where
  "count_suppressed b = b\<lparr>suppressed_count := suppressed_count b + 1\<rparr>"

definition count_error :: "import_batch \<Rightarrow> import_batch" where
  "count_error b = b\<lparr>error_count := error_count b + 1\<rparr>"

fun outcome_counter :: "upsert_outcome \<Rightarrow> import_batch \<Rightarrow> import_batch" where
  "outcome_counter U_CREATED = count_created"
| "outcome_counter U_UPDATED = count_updated"
| "outcome_counter U_UNCHANGED = count_skipped"
| "outcome_counter U_REPLAYED = count_updated"

definition row_key :: "import_batch \<Rightarrow> nat \<Rightarrow> string" where
  "row_key b n = ''csv:'' @ ib_public_id b @ '':row_'' @ nat_text n"

definition import_args :: "listing_type \<Rightarrow> import_batch \<Rightarrow> nat \<Rightarrow> 'z catalog_db_scheme \<Rightarrow> upsert_args" where
  "import_args t b n db =
     \<lparr>ua_type = t, ua_actor = import_actor b db, ua_source = ''csv_import'', ua_key = Some (row_key b n), ua_trace = [], ua_origin = [],
      ua_enforce = True, ua_batch = Some (ib_pk b), ua_submitter = None, ua_must_create = False, ua_suppression = True\<rparr>"

definition row_error :: "nat \<Rightarrow> catalog_error \<Rightarrow> json option" where
  "row_error n e =
     (case e of
        RejectedField f \<Rightarrow> Some (JObj [(''row'', JInt (int n)), (''field'', JStr f)])
      | SchemaError es \<Rightarrow> Some (JObj [(''row'', JInt (int n)), (''errors'', JList (map JStr es))])
      | _ \<Rightarrow> None)"

text \<open>One row: the batch after its bump, and whether the row was fatal.\<close>

definition import_row :: "'w import_world_scheme \<Rightarrow> tenant \<Rightarrow> listing_type \<Rightarrow> import_batch \<Rightarrow> nat \<Rightarrow> string list \<Rightarrow> 'z catalog_db_scheme \<Rightarrow> (import_batch \<times> bool) \<times> 'z catalog_db_scheme" where
  "import_row w tn t b n cells db =
     (case upsert_listing w tn (import_args t b n db) (of_dict (build_payload cells (detected_headers b) (column_mapping b))) db of
        (Inr r, d) \<Rightarrow>
          let note = (if ur_outcome r = U_REPLAYED then [JObj [(''row'', JInt (int n)), (''note'', JStr ''reprocessed after worker restart'')]] else []);
              (b', d') = bump b n (outcome_counter (ur_outcome r)) [] note d in ((b', False), d')
      | (Inl (Suppressed h), d) \<Rightarrow> let (b', d') = bump b n count_suppressed [] [] d in ((b', False), d')
      | (Inl e, d) \<Rightarrow>
          (case row_error n e of
             Some j \<Rightarrow> let (b', d') = bump b n count_error [j] [] d in ((b', False), d')
           | None \<Rightarrow> let (b', d') = bump b n count_error [JObj [(''row'', JInt (int n)), (''message'', JStr (iw_message w e))]] [] d in ((b', True), d')))"

text \<open>The chunk: rows processed, whether the batch is settled.\<close>

fun process_chunk :: "'w import_world_scheme \<Rightarrow> tenant \<Rightarrow> listing_type \<Rightarrow> instant \<Rightarrow> nat \<Rightarrow> string list list \<Rightarrow> import_batch \<Rightarrow> 'z catalog_db_scheme \<Rightarrow> (nat \<times> bool) \<times> 'z catalog_db_scheme" where
  "process_chunk w tn t now n [] b db =
     (if row_count b \<le> processed_row_count b then ((0, True), finish_batch b now True [] db) else ((0, False), db))"
| "process_chunk w tn t now n (cells # rest) b db =
     (case import_row w tn t b (Suc n) cells db of
        ((b', fatal), d) \<Rightarrow>
          if fatal then ((1, True), finish_batch b' now False [] d)
          else (case process_chunk w tn t now (Suc n) rest b' d of ((k, settled), d') \<Rightarrow> ((Suc k, settled), d')))"

record import_stats =
  is_batch :: "string option"
  is_rows :: nat
  is_completed :: bool

definition import_claimed :: "'w import_world_scheme \<Rightarrow> tenant \<Rightarrow> listing_type \<Rightarrow> instant \<Rightarrow> nat \<Rightarrow> import_batch \<Rightarrow> bool \<Rightarrow> 'z catalog_db_scheme \<Rightarrow> (nat \<times> bool) \<times> 'z catalog_db_scheme" where
  "import_claimed w tn t now limit b first_pass db =
     (case read_rows w b of
        Inl m \<Rightarrow>
          let (b', d) = (if first_pass then begin_batch b 0 db else (b, db)) in
          ((0, True), finish_batch b' now False [JObj [(''message'', JStr m)]] d)
      | Inr rows \<Rightarrow>
          let (b', d) = (if first_pass then begin_batch b (length rows) db else (b, db)) in
          process_chunk w tn t now (processed_row_count b') (take limit (drop (processed_row_count b') rows)) b' d)"

text \<open>The tenant and the type of a batch are foreign keys.\<close>

definition import_once :: "'w import_world_scheme \<Rightarrow> instant \<Rightarrow> nat \<Rightarrow> 'z catalog_db_scheme \<Rightarrow> import_stats \<times> 'z catalog_db_scheme" where
  "import_once w now limit db =
     (case claim_batch now db of
        (None, d) \<Rightarrow> (\<lparr>is_batch = None, is_rows = 0, is_completed = False\<rparr>, d)
      | (Some (b, first_pass), d) \<Rightarrow>
          (case (find_by tn_pk (ib_tenant b) (tenants d), case ib_type b of None \<Rightarrow> None | Some k \<Rightarrow> find_by lt_pk k (listing_types d)) of
             (Some tn, Some t) \<Rightarrow>
               (case import_claimed w tn t now limit b first_pass d of
                  ((k, settled), d') \<Rightarrow> (\<lparr>is_batch = Some (ib_public_id b), is_rows = k, is_completed = settled\<rparr>, d'))
           | _ \<Rightarrow> (\<lparr>is_batch = Some (ib_public_id b), is_rows = 0, is_completed = False\<rparr>, d)))"

subsection \<open>Clearing the pre-images\<close>

definition PRE_IMAGE_TTL :: duration where
  "PRE_IMAGE_TTL = days 90"

definition pre_image_due :: "instant \<Rightarrow> 'z catalog_db_scheme \<Rightarrow> batch_row \<Rightarrow> bool" where
  "pre_image_due now db r \<longleftrightarrow> pre_image_nulled_at r = None \<and>
     list_ex (\<lambda>b. ib_pk b = br_batch r \<and> (case ib_completed_at b of None \<Rightarrow> False | Some t \<Rightarrow> t < now - PRE_IMAGE_TTL)) (batches db)"

definition null_import_pre_images :: "instant \<Rightarrow> nat option \<Rightarrow> 'z catalog_db_scheme \<Rightarrow> nat \<times> 'z catalog_db_scheme" where
  "null_import_pre_images now limit db =
     (let due = map br_pk (filter (pre_image_due now db) (batch_rows db)); ids = (case limit of None \<Rightarrow> due | Some k \<Rightarrow> take k due) in
      (length ids, db\<lparr>batch_rows := update_where (\<lambda>r. br_pk r \<in> set ids) (\<lambda>r. r\<lparr>pre_image := None, pre_image_nulled_at := Some now\<rparr>) (batch_rows db)\<rparr>))"

end
