(* ===== verification/Upsert_Effects.thy ===== *)
theory Upsert_Effects
  imports Upsert Patches
begin

section \<open>What an upsert does to the store\<close>

text \<open>
  The effect of \<open>Upsert\<close>, one lemma per step: what an edit of the row in memory keeps, what saving it does to the table, and what the
  transaction leaves in the tables for each of its outcomes. The theorems of \<open>Upsert_Props\<close>, \<open>Owner_Props\<close> and \<open>Import_Props\<close> rest on
  these.
\<close>

subsection \<open>Edits of a row\<close>

lemma edits_keep:
  assumes "edits fs d = Inr d'"
    and "\<And>f d d'. f \<in> set fs \<Longrightarrow> f d = Inr d' \<Longrightarrow> R (dr_row d) (dr_row d')"
    and "\<And>l. R l l" and "\<And>k l m. R k l \<Longrightarrow> R l m \<Longrightarrow> R k m"
  shows "R (dr_row d) (dr_row d')"
  using assms(1,2)
proof (induction fs arbitrary: d)
  case Nil
  then show ?case using assms(3) by simp
next
  case (Cons f fs)
  then obtain e where e: "f d = Inr e" "edits fs e = Inr d'" by (auto simp: bind_result_eq_Inr)
  have "R (dr_row d) (dr_row e)" using Cons.prems(2) [of f d e] e(1) by simp
  moreover have "R (dr_row e) (dr_row d')" by (rule Cons.IH [OF e(2)]) (rule Cons.prems(2) [OF list.set_intros(2)])
  ultimately show ?case using assms(4) by blast
qed

lemma given_member_cases:
  assumes "given_member p k f d = Inr d'" "\<And>v. dict_get p k = Some v \<Longrightarrow> f v d = Inr d' \<Longrightarrow> R (dr_row d) (dr_row d')" "R (dr_row d) (dr_row d)"
  shows "R (dr_row d) (dr_row d')"
  using assms by (auto simp: given_member_def split: option.splits)

lemma given_in_cases:
  assumes "given_in c k f d = Inr d'" "\<And>v. member c k = Inr (Some v) \<Longrightarrow> f v d = Inr d' \<Longrightarrow> R (dr_row d) (dr_row d')" "R (dr_row d) (dr_row d)"
  shows "R (dr_row d) (dr_row d')"
  using assms by (auto simp: given_in_def bind_result_eq_Inr split: option.splits)

text \<open>The columns an upsert never writes.\<close>

definition same_identity :: "listing \<Rightarrow> listing \<Rightarrow> bool" where
  "same_identity k l \<longleftrightarrow>
     ls_pk l = ls_pk k \<and> ls_tenant l = ls_tenant k \<and> ls_type_key l = ls_type_key k \<and> ls_public_id l = ls_public_id k \<and> ls_status l = ls_status k
     \<and> visibility l = visibility k \<and> current_tier l = current_tier k \<and> ls_owner l = ls_owner k \<and> ls_media l = ls_media k
     \<and> source l = source k \<and> provenance_notes l = provenance_notes k \<and> ls_created_at l = ls_created_at k
     \<and> ls_import_batch l = ls_import_batch k \<and> ls_submitted_by l = ls_submitted_by k"

lemma same_identity_refl: "same_identity l l"
  by (simp add: same_identity_def)

lemma same_identity_trans: "same_identity k l \<Longrightarrow> same_identity l m \<Longrightarrow> same_identity k m"
  by (simp add: same_identity_def)

lemma dr_row_on_row [simp]: "dr_row (on_row f d) = f (dr_row d)" "dr_null_slug (on_row f d) = dr_null_slug d" "dr_nan (on_row f d) = dr_nan d"
  by (simp_all add: on_row_def)

lemma dr_row_nan: "dr_row (d\<lparr>dr_nan := b\<rparr>) = dr_row d"
  by simp

text \<open>An edit writes one column, or nothing.\<close>

lemmas edit_defs = edit_name_def edit_slug_def edit_text_def edit_string_def edit_phone_def edit_social_def edit_blob_def edit_custom_def

lemma apply_geo_row:
  assumes "apply_geo loc d = Inr d'"
  shows "\<exists>a b p. dr_row d' = (dr_row d)\<lparr>lat := a, lon := b, geo_precision := p\<rparr>"
proof -
  from assms obtain la lo where eq: "(if la = None \<or> lo = None then Inr (on_row (\<lambda>l. l\<lparr>lat := None, lon := None, geo_precision := GEO_NONE\<rparr>) d)
     else if get_or_null loc ''geo_precision'' = JStr GEO_NONE then Inl (SchemaError [''geo_precision cannot be 'none' when coordinates are present''])
     else Inr ((on_row (\<lambda>l. l\<lparr>lat := micro_of la, lon := micro_of lo,
                 geo_precision := if truthy (get_or_null loc ''geo_precision'') then py_str (get_or_null loc ''geo_precision'')
                   else if geo_precision l = GEO_NONE then ''locality'' else geo_precision l\<rparr>) d)
               \<lparr>dr_nan := (la = Some NotANumber \<or> lo = Some NotANumber)\<rparr>)) = Inr d'"
    unfolding apply_geo_def Let_def by (simp only: bind_result_eq_Inr) blast
  show ?thesis
  proof (cases "la = None \<or> lo = None")
    case True
    with eq have "d' = on_row (\<lambda>l. l\<lparr>lat := None, lon := None, geo_precision := GEO_NONE\<rparr>) d" by (simp only: if_True sum.inject)
    then have "dr_row d' = (dr_row d)\<lparr>lat := None, lon := None, geo_precision := GEO_NONE\<rparr>" by (simp only: dr_row_on_row)
    then show ?thesis by blast
  next
    case False
    with eq have "get_or_null loc ''geo_precision'' \<noteq> JStr GEO_NONE" by (simp only: if_False) (auto split: if_splits)
    with eq False have "d' = (on_row (\<lambda>l. l\<lparr>lat := micro_of la, lon := micro_of lo,
        geo_precision := if truthy (get_or_null loc ''geo_precision'') then py_str (get_or_null loc ''geo_precision'')
          else if geo_precision l = GEO_NONE then ''locality'' else geo_precision l\<rparr>) d)\<lparr>dr_nan := (la = Some NotANumber \<or> lo = Some NotANumber)\<rparr>"
      by (simp only: if_False sum.inject)
    then have "dr_row d' = (dr_row d)\<lparr>lat := micro_of la, lon := micro_of lo,
        geo_precision := if truthy (get_or_null loc ''geo_precision'') then py_str (get_or_null loc ''geo_precision'')
          else if geo_precision (dr_row d) = GEO_NONE then ''locality'' else geo_precision (dr_row d)\<rparr>"
      by (simp only: dr_row_nan dr_row_on_row)
    then show ?thesis by blast
  qed
qed

lemma edit_geo_row:
  "edit_geo loc d = Inr d' \<Longrightarrow> \<exists>a b p. dr_row d' = (dr_row d)\<lparr>lat := a, lon := b, geo_precision := p\<rparr>"
proof -
  have "\<exists>a b p. dr_row d = (dr_row d)\<lparr>lat := a, lon := b, geo_precision := p\<rparr>"
    by (intro exI [of _ "lat (dr_row d)"] exI [of _ "lon (dr_row d)"] exI [of _ "geo_precision (dr_row d)"]) simp
  then show "edit_geo loc d = Inr d' \<Longrightarrow> ?thesis"
    by (auto simp: edit_geo_def bind_result_eq_Inr split: json.splits if_splits dest: apply_geo_row)
qed

lemma edit_name_row: "edit_name v d = Inr d' \<Longrightarrow> \<exists>s. dr_row d' = (dr_row d)\<lparr>ls_name := s\<rparr>"
  by (auto simp: edit_name_def split: if_splits)

lemma edit_slug_row: "edit_slug w v d = Inr d' \<Longrightarrow> \<exists>s. dr_row d' = (dr_row d)\<lparr>ls_slug := s\<rparr>"
  by (auto simp: edit_slug_def Let_def split: if_splits)

lemma edit_text_row: "edit_text upd v d = Inr d' \<Longrightarrow> \<exists>s. dr_row d' = upd s (dr_row d)"
  by (auto simp: edit_text_def)

lemma edit_string_row: "edit_string f upd v d = Inr d' \<Longrightarrow> \<exists>s. dr_row d' = upd s (dr_row d)"
  by (auto simp: edit_string_def bind_result_eq_Inr)

lemma edit_phone_row: "edit_phone v d = Inr d' \<Longrightarrow> \<exists>s. dr_row d' = (dr_row d)\<lparr>phone_e164 := s\<rparr>"
  by (auto simp: edit_phone_def bind_result_eq_Inr)

lemma edit_social_row: "edit_social v d = Inr d' \<Longrightarrow> \<exists>xs. dr_row d' = (dr_row d)\<lparr>social := xs\<rparr>"
  by (auto simp: edit_social_def split: json.splits)

lemma edit_blob_row: "edit_blob n upd v d = Inr d' \<Longrightarrow> \<exists>e. dr_row d' = upd e (dr_row d)"
  by (auto simp: edit_blob_def split: json.splits)

lemma edit_custom_row: "edit_custom v fs cr en x d = Inr d' \<Longrightarrow>
  \<exists>c. checked_custom v fs (if truthy x then x else JObj []) cr en = Inr c \<and> dr_row d' = (dr_row d)\<lparr>custom_fields := merge_custom c (custom_fields (dr_row d))\<rparr>"
  by (auto simp: edit_custom_def bind_result_eq_Inr)

lemmas edit_rows = edit_name_row edit_slug_row edit_text_row edit_string_row edit_phone_row edit_social_row edit_blob_row edit_geo_row

text \<open>A payload keeps every relation on rows that each of its edits keeps.\<close>

lemma apply_payload_keeps:
  assumes run: "apply_payload w t payload creating en d = Inr d'"
    and refl: "\<And>l. R l l" and trans: "\<And>k l m. R k l \<Longrightarrow> R l m \<Longrightarrow> R k m"
    and "\<And>l s. dict_get payload ''name'' \<noteq> None \<Longrightarrow> R l (l\<lparr>ls_name := s\<rparr>)"
    and "\<And>l s. dict_get payload ''slug'' \<noteq> None \<Longrightarrow> R l (l\<lparr>ls_slug := s\<rparr>)"
    and "\<And>l s. dict_get payload ''description'' \<noteq> None \<Longrightarrow> R l (l\<lparr>description := s\<rparr>)"
    and "\<And>l s. dict_get payload ''reviews_disabled'' \<noteq> None \<Longrightarrow> R l (l\<lparr>reviews_disabled := s\<rparr>)"
    and "\<And>l s. container payload ''location'' \<noteq> JObj [] \<Longrightarrow> R l (l\<lparr>address_line1 := s\<rparr>)"
    and "\<And>l s. container payload ''location'' \<noteq> JObj [] \<Longrightarrow> R l (l\<lparr>address_line2 := s\<rparr>)"
    and "\<And>l s. container payload ''location'' \<noteq> JObj [] \<Longrightarrow> R l (l\<lparr>locality := s\<rparr>)"
    and "\<And>l s. container payload ''location'' \<noteq> JObj [] \<Longrightarrow> R l (l\<lparr>region := s\<rparr>)"
    and "\<And>l s. container payload ''location'' \<noteq> JObj [] \<Longrightarrow> R l (l\<lparr>postal_code := s\<rparr>)"
    and "\<And>l s. container payload ''location'' \<noteq> JObj [] \<Longrightarrow> R l (l\<lparr>country := s\<rparr>)"
    and "\<And>l a b p. container payload ''location'' \<noteq> JObj [] \<Longrightarrow> R l (l\<lparr>lat := a, lon := b, geo_precision := p\<rparr>)"
    and "\<And>l s. member (container payload ''contact'') ''phone_e164'' \<noteq> Inr None \<Longrightarrow> R l (l\<lparr>phone_e164 := s\<rparr>)"
    and "\<And>l s. member (container payload ''contact'') ''email'' \<noteq> Inr None \<Longrightarrow> R l (l\<lparr>email := s\<rparr>)"
    and "\<And>l s. member (container payload ''contact'') ''website'' \<noteq> Inr None \<Longrightarrow> R l (l\<lparr>website := s\<rparr>)"
    and "\<And>l s. member (container payload ''contact'') ''social'' \<noteq> Inr None \<Longrightarrow> R l (l\<lparr>social := s\<rparr>)"
    and "\<And>l s. dict_get payload ''external_profiles'' \<noteq> None \<Longrightarrow> R l (l\<lparr>external_profiles := s\<rparr>)"
    and "\<And>l s. dict_get payload ''attributes'' \<noteq> None \<Longrightarrow> R l (l\<lparr>attributes := s\<rparr>)"
    and "\<And>l x c. dict_get payload ''custom_fields'' = Some x \<Longrightarrow>
      checked_custom (the_validators w) (lt_fields t) (if truthy x then x else JObj []) creating en = Inr c \<Longrightarrow>
      R l (l\<lparr>custom_fields := merge_custom c (custom_fields l)\<rparr>)"
  shows "R (dr_row d) (dr_row d')"
proof -
  note rs = assms(4-)
  have loc: "container payload ''location'' \<noteq> JObj []" if "member (container payload ''location'') k = Inr (Some v)" for k v
    using that by (auto simp: member_def dict_get_def)
  have geo: "R (dr_row x) (dr_row x')" if "edit_geo (container payload ''location'') x = Inr x'" for x x'
  proof (cases "container payload ''location'' = JObj []")
    case True
    with that have "x' = x" by (simp add: edit_geo_def dict_get_def)
    then show ?thesis using refl by simp
  next
    case False
    from edit_geo_row [OF that] obtain a b p where "dr_row x' = (dr_row x)\<lparr>lat := a, lon := b, geo_precision := p\<rparr>" by blast
    with rs(11) [OF False] show ?thesis by simp
  qed
  show ?thesis
    apply (rule edits_keep [OF run [unfolded apply_payload_def Let_def]])
    subgoal premises p for f x x'
      using p(1) unfolding list.set insert_iff empty_iff simp_thms
      apply (elim disjE)
      subgoal using p(2) by (simp only:) (erule given_member_cases; use refl rs(1) edit_name_row in fastforce)
      subgoal using p(2) by (simp only:) (erule given_member_cases; use refl rs(2) edit_slug_row in fastforce)
      subgoal using p(2) by (simp only:) (erule given_member_cases; use refl rs(3) in \<open>fastforce dest: edit_text_row\<close>)
      subgoal using p(2) by (simp only:) (erule given_member_cases; use refl rs(4) in fastforce)
      subgoal using p(2) by (simp only:) (erule given_in_cases; use refl rs(5) loc in \<open>fastforce dest: edit_text_row\<close>)
      subgoal using p(2) by (simp only:) (erule given_in_cases; use refl rs(6) loc in \<open>fastforce dest: edit_text_row\<close>)
      subgoal using p(2) by (simp only:) (erule given_in_cases; use refl rs(7) loc in \<open>fastforce dest: edit_text_row\<close>)
      subgoal using p(2) by (simp only:) (erule given_in_cases; use refl rs(8) loc in \<open>fastforce dest: edit_text_row\<close>)
      subgoal using p(2) by (simp only:) (erule given_in_cases; use refl rs(9) loc in \<open>fastforce dest: edit_text_row\<close>)
      subgoal using p(2) by (simp only:) (erule given_in_cases; use refl rs(10) loc in \<open>fastforce dest: edit_string_row\<close>)
      subgoal using p(2) by (simp only: geo)
      subgoal using p(2) by (simp only:) (erule given_in_cases; use refl rs(12) in \<open>fastforce dest: edit_phone_row\<close>)
      subgoal using p(2) by (simp only:) (erule given_in_cases; use refl rs(13) in \<open>fastforce dest: edit_string_row\<close>)
      subgoal using p(2) by (simp only:) (erule given_in_cases; use refl rs(14) in \<open>fastforce dest: edit_string_row\<close>)
      subgoal using p(2) by (simp only:) (erule given_in_cases; use refl rs(15) in \<open>fastforce dest: edit_social_row\<close>)
      subgoal using p(2) by (simp only:) (erule given_member_cases; use refl rs(16) in \<open>fastforce dest: edit_blob_row\<close>)
      subgoal using p(2) by (simp only:) (erule given_member_cases; use refl rs(17) in \<open>fastforce dest: edit_blob_row\<close>)
      subgoal using p(2) by (simp only:) (erule given_member_cases; use refl rs(18) in \<open>fastforce dest: edit_custom_row\<close>)
      done
     apply (rule refl)
    apply (erule trans, assumption)
    done
qed

lemma apply_payload_identity:
  "apply_payload w t payload creating en d = Inr d' \<Longrightarrow> same_identity (dr_row d) (dr_row d') \<and> categories (dr_row d') = categories (dr_row d)"
  by (erule apply_payload_keeps) (auto simp: same_identity_def)

subsection \<open>Saving\<close>

definition stored_rows :: "bool \<Rightarrow> listing \<Rightarrow> listing list \<Rightarrow> listing list" where
  "stored_rows creating l rows = (if creating then rows @ [l] else update_where (\<lambda>r. ls_pk r = ls_pk l) (\<lambda>_. l) rows)"

lemma save_listing_E:
  assumes "save_listing creating d db = Inr (x, db')"
  obtains l where "l = (dr_row d)\<lparr>ls_updated_at := wall db\<rparr>" "listing_columns l" "geo_consistent l" "\<not> dr_nan d" "\<not> dr_null_slug d"
    "\<forall>r \<in> set (listings db). same_path r l \<longrightarrow> ls_pk r = ls_pk l" "db' = db\<lparr>listings := stored_rows creating l (listings db)\<rparr>"
proof (rule that [OF refl])
  define l where "l = (dr_row d)\<lparr>ls_updated_at := wall db\<rparr>"
  have eq: "(if dr_nan d \<or> \<not> listing_columns l then Inl DataError
      else if dr_null_slug d \<or> \<not> geo_consistent l \<or> list_ex (\<lambda>r. ls_pk r \<noteq> ls_pk l \<and> same_path r l) (listings db) then Inl IntegrityError
      else Inr ((), if creating then db\<lparr>listings := listings db @ [l]\<rparr>
                    else db\<lparr>listings := update_where (\<lambda>r. ls_pk r = ls_pk l) (\<lambda>_. l) (listings db)\<rparr>)) = Inr (x, db')"
    using assms unfolding save_listing_def Let_def l_def .
  then have 1: "\<not> dr_nan d" "listing_columns l" by (meson Inl_Inr_False)+
  with eq have 2: "\<not> dr_null_slug d" "geo_consistent l" "\<not> list_ex (\<lambda>r. ls_pk r \<noteq> ls_pk l \<and> same_path r l) (listings db)" by (meson Inl_Inr_False)+
  from 1 2 show "listing_columns ((dr_row d)\<lparr>ls_updated_at := wall db\<rparr>)" "geo_consistent ((dr_row d)\<lparr>ls_updated_at := wall db\<rparr>)"
    "\<not> dr_nan d" "\<not> dr_null_slug d" by (simp_all add: l_def)
  from 2(3) show "\<forall>r \<in> set (listings db). same_path r ((dr_row d)\<lparr>ls_updated_at := wall db\<rparr>) \<longrightarrow> ls_pk r = ls_pk ((dr_row d)\<lparr>ls_updated_at := wall db\<rparr>)"
    unfolding l_def [symmetric] list_ex_iff by blast
  from eq 1 2 show "db' = db\<lparr>listings := stored_rows creating ((dr_row d)\<lparr>ls_updated_at := wall db\<rparr>) (listings db)\<rparr>"
    unfolding l_def [symmetric] by (cases creating) (simp_all add: stored_rows_def)
qed

lemma update_where_twice:
  "(\<And>x. P x \<Longrightarrow> Q (f x)) \<Longrightarrow> (\<And>x. \<not> P x \<Longrightarrow> \<not> Q x) \<Longrightarrow> update_where Q g (update_where P f xs) = update_where P (\<lambda>x. g (f x)) xs"
  by (induction xs) auto

lemma set_categories_stored:
  assumes "creating \<Longrightarrow> \<forall>r \<in> set rows. ls_pk r \<noteq> ls_pk l"
  shows "update_where (\<lambda>r. ls_pk r = ls_pk l) (\<lambda>r. r\<lparr>categories := slugs\<rparr>) (stored_rows creating l rows) = stored_rows creating (l\<lparr>categories := slugs\<rparr>) rows"
proof (cases creating)
  case True
  with assms show ?thesis by (simp add: stored_rows_def update_where_none)
next
  case False
  then show ?thesis by (simp add: stored_rows_def update_where_twice)
qed

lemma upsert_emit_eq:
  assumes "event \<in> {LISTING_CREATED, LISTING_UPDATED}"
  shows "upsert_emit event tn a l data db =
     (let ev = new_event event (ls_public_id l) (tn_pk tn) data (ua_actor a) (ua_origin a) (ua_trace a) db in
      Inr (ev, db\<lparr>outbox := outbox db @ [ev], seq := Suc (seq db), draws := Suc (draws db)\<rparr>))"
  using assms by (auto simp: upsert_emit_def emit_def Let_def)

text \<open>The tables a write of a listing may touch.\<close>

definition same_elsewhere :: "'z catalog_db_scheme \<Rightarrow> 'z catalog_db_scheme \<Rightarrow> bool" where
  "same_elsewhere db db' \<longleftrightarrow> (\<exists>ls s b os n k. db' = db\<lparr>listings := ls, search_docs := s, batch_rows := b, outbox := os, seq := n, draws := k\<rparr>)"

lemma same_elsewhereI:
  "db' = db\<lparr>listings := ls, search_docs := s, batch_rows := b, outbox := os, seq := n, draws := k\<rparr> \<Longrightarrow> same_elsewhere db db'"
  unfolding same_elsewhere_def by blast

lemma same_elsewhere_simps:
  assumes "same_elsewhere db db'"
  shows "commands db' = commands db" "in_atomic db' = in_atomic db" "category_rows db' = category_rows db" "listing_types db' = listing_types db"
    "batches db' = batches db" "wall db' = wall db" "claims db' = claims db" "leads db' = leads db" "tenants db' = tenants db" "suppression_keys db' = suppression_keys db"
    "operators db' = operators db"
  using assms by (auto simp: same_elsewhere_def)

text \<open>How a written listing is published.\<close>

definition announced :: "tenant \<Rightarrow> upsert_args \<Rightarrow> dict option \<Rightarrow> listing \<Rightarrow> upsert_result \<Rightarrow> outbox_event list \<Rightarrow> bool" where
  "announced tn a old row r evs \<longleftrightarrow> ur_listing r = Some row \<and>
     (case old of
        None \<Rightarrow> ur_outcome r = U_CREATED \<and> (\<exists>ev. evs = [ev] \<and> ev_type ev = LISTING_CREATED \<and> ev_subject ev = ls_public_id row \<and> ev_tenant ev = tn_pk tn
          \<and> ev_data ev = dict_merge (project row) [(''type'', JStr (lt_key (ua_type a)))] \<and> ur_event_id r = Some (event_id ev) \<and> event_id ev \<noteq> [])
      | Some img \<Rightarrow>
          if diff img (project row) = [] then ur_outcome r = U_UNCHANGED \<and> evs = [] \<and> ur_event_id r = None
          else ur_outcome r = U_UPDATED \<and> (\<exists>ev. evs = [ev] \<and> ev_type ev = LISTING_UPDATED \<and> ev_subject ev = ls_public_id row \<and> ev_tenant ev = tn_pk tn
            \<and> ev_data ev = [(''changes'', JList (diff img (project row))), (''type'', JStr (lt_key (ua_type a)))] \<and> ur_event_id r = Some (event_id ev) \<and> event_id ev \<noteq> []))"

definition provenance :: "upsert_args \<Rightarrow> dict option \<Rightarrow> listing \<Rightarrow> 'z catalog_db_scheme \<Rightarrow> batch_row list" where
  "provenance a old row db =
     (case ua_batch a of
        None \<Rightarrow> batch_rows db
      | Some b \<Rightarrow>
          if (case old of None \<Rightarrow> False | Some img \<Rightarrow> diff img (project row) = []) \<or> list_ex (\<lambda>r. br_batch r = b \<and> br_listing r = ls_pk row) (batch_rows db)
          then batch_rows db
          else batch_rows db @ [\<lparr>br_pk = Suc (seq db), br_tenant = ls_tenant row, br_batch = b, br_listing = ls_pk row,
             br_action = (if old = None then A_CREATED else A_UPDATED), pre_image = old, pre_image_nulled_at = None, br_created_at = wall db\<rparr>])"

lemma record_import_row_eq:
  "record_import_row b l action pre db = db\<lparr>batch_rows := if list_ex (\<lambda>r. br_batch r = b \<and> br_listing r = ls_pk l) (batch_rows db) then batch_rows db
     else batch_rows db @ [\<lparr>br_pk = Suc (seq db), br_tenant = ls_tenant l, br_batch = b, br_listing = ls_pk l, br_action = action,
             pre_image = pre, pre_image_nulled_at = None, br_created_at = wall db\<rparr>],
     seq := if list_ex (\<lambda>r. br_batch r = b \<and> br_listing r = ls_pk l) (batch_rows db) then seq db else Suc (seq db)\<rparr>"
  by (simp add: record_import_row_def)

lemma search_document_cong:
  "category_rows d = category_rows e \<Longrightarrow> listing_types d = listing_types e \<Longrightarrow> search_document tn l d = search_document tn l e"
  unfolding search_document_def categories_of_listing_def type_of_listing_def by (simp only:)

lemma provenance_cong:
  "batch_rows d = batch_rows e \<Longrightarrow> seq d = seq e \<Longrightarrow> wall d = wall e \<Longrightarrow> provenance a old l d = provenance a old l e"
  unfolding provenance_def by (simp only:)

lemma import_row_of_E:
  fixes db :: "'z catalog_db_scheme"
  assumes "\<And>img. old = Some img \<Longrightarrow> diff img (project l) \<noteq> []"
  obtains n where "import_row_of a l (if old = None then A_CREATED else A_UPDATED) old db = db\<lparr>batch_rows := provenance a old l db, seq := n\<rparr>" "seq db \<le> n"
proof (cases "ua_batch a")
  case None
  then show thesis using that [of "seq db"] by (simp add: import_row_of_def provenance_def)
next
  case (Some b)
  have "\<not> (case old of None \<Rightarrow> False | Some img \<Rightarrow> diff img (project l) = [])" using assms by (simp split: option.split)
  then show thesis
    using that [of "if list_ex (\<lambda>r. br_batch r = b \<and> br_listing r = ls_pk l) (batch_rows db) then seq db else Suc (seq db)"]
    by (simp add: import_row_of_def provenance_def Some record_import_row_eq)
qed

lemma drawn_id: "draw_ulid db \<noteq> []"
  using new_ulid_length by (auto simp: draw_ulid_def simp flip: length_0_conv)

lemma announce_E:
  fixes db :: "'z catalog_db_scheme"
  assumes "announce_listing tn a old l db = Inr (r, db')"
  obtains evs n k where "announced tn a old l r evs" "seq db \<le> n"
    "db' = db\<lparr>batch_rows := provenance a old l db, outbox := outbox db @ evs, seq := n, draws := k\<rparr>"
proof (cases old)
  case None
  obtain n where n: "import_row_of a l A_CREATED None db = db\<lparr>batch_rows := provenance a old l db, seq := n\<rparr>" "seq db \<le> n"
    by (rule import_row_of_E [of old l a db]) (simp_all add: None)
  from assms have r: "r = \<lparr>ur_listing = Some l, ur_outcome = U_CREATED, ur_event_id = Some (event_id (new_event LISTING_CREATED (ls_public_id l) (tn_pk tn)
        (dict_merge (project l) [(''type'', JStr (lt_key (ua_type a)))]) (ua_actor a) (ua_origin a) (ua_trace a) (db\<lparr>batch_rows := provenance a old l db, seq := n\<rparr>))), ur_changes = None\<rparr>"
    and db': "db' = db\<lparr>batch_rows := provenance a old l db, outbox := outbox db @ [new_event LISTING_CREATED (ls_public_id l) (tn_pk tn)
        (dict_merge (project l) [(''type'', JStr (lt_key (ua_type a)))]) (ua_actor a) (ua_origin a) (ua_trace a) (db\<lparr>batch_rows := provenance a old l db, seq := n\<rparr>)],
        seq := Suc n, draws := Suc (draws db)\<rparr>"
    by (simp_all add: announce_listing_def None then_do_def upsert_emit_eq Let_def n)
  show thesis by (rule that [OF _ _ db']) (use n(2) in \<open>simp_all add: announced_def None r new_event_def drawn_id\<close>)
next
  case (Some img)
  note old = this
  show thesis
  proof (cases "diff img (project l) = []")
    case True
    with assms have "r = \<lparr>ur_listing = Some l, ur_outcome = U_UNCHANGED, ur_event_id = None, ur_changes = None\<rparr>" "db' = db"
      by (simp_all add: announce_listing_def old)
    then show thesis using that [of "[]" "seq db" "draws db"] by (simp add: announced_def old True provenance_def split: option.split)
  next
    case False
    obtain n where n: "import_row_of a l A_UPDATED (Some img) db = db\<lparr>batch_rows := provenance a old l db, seq := n\<rparr>" "seq db \<le> n"
      by (rule import_row_of_E [of old l a db]) (use False in \<open>simp_all add: old\<close>)
    from assms False have r: "r = \<lparr>ur_listing = Some l, ur_outcome = U_UPDATED, ur_event_id = Some (event_id (new_event LISTING_UPDATED (ls_public_id l) (tn_pk tn)
          [(''changes'', JList (diff img (project l))), (''type'', JStr (lt_key (ua_type a)))] (ua_actor a) (ua_origin a) (ua_trace a) (db\<lparr>batch_rows := provenance a old l db, seq := n\<rparr>))),
          ur_changes = Some (diff img (project l))\<rparr>"
      and db': "db' = db\<lparr>batch_rows := provenance a old l db, outbox := outbox db @ [new_event LISTING_UPDATED (ls_public_id l) (tn_pk tn)
          [(''changes'', JList (diff img (project l))), (''type'', JStr (lt_key (ua_type a)))] (ua_actor a) (ua_origin a) (ua_trace a) (db\<lparr>batch_rows := provenance a old l db, seq := n\<rparr>)],
          seq := Suc n, draws := Suc (draws db)\<rparr>"
      by (simp_all add: announce_listing_def old then_do_def upsert_emit_eq Let_def n)
    show thesis by (rule that [OF _ _ db']) (use n(2) False in \<open>simp_all add: announced_def old r new_event_def drawn_id\<close>)
  qed
qed

lemma write_listing_E:
  fixes db :: "'z catalog_db_scheme"
  assumes run: "write_listing w tn a payload old l db = Inr (r, db')" and fresh: "old = None \<Longrightarrow> \<forall>x \<in> set (listings db). ls_pk x \<noteq> ls_pk l"
  obtains d slugs row evs where
    "apply_payload w (ua_type a) payload (old = None) (ua_enforce a) \<lparr>dr_row = l, dr_null_slug = False, dr_nan = False\<rparr> = Inr d"
    "row = (dr_row d)\<lparr>ls_updated_at := wall db, categories := slugs\<rparr>"
    "dict_get payload ''categories'' = None \<longrightarrow> slugs = categories l"
    "listings db' = stored_rows (old = None) row (listings db)" "outbox db' = outbox db @ evs" "announced tn a old row r evs"
    "listing_columns row" "geo_consistent row" "\<forall>x \<in> set (listings db). same_path x row \<longrightarrow> ls_pk x = ls_pk row"
    "batch_rows db' = provenance a old row db" "search_docs db' = (search_docs db)(ls_pk row \<mapsto> search_document tn row db)"
    "seq db \<le> seq db'" "same_elsewhere db db'"
proof -
  from run obtain d where d: "apply_payload w (ua_type a) payload (old = None) (ua_enforce a) \<lparr>dr_row = l, dr_null_slug = False, dr_nan = False\<rparr> = Inr d"
    unfolding write_listing_def Let_def bind_result_eq_Inr by blast
  from run obtain u slugs and d1 :: "'z catalog_db_scheme" where d1: "save_listing (old = None) d db = Inr (u, d1)"
      and slugs: "(case dict_get payload ''categories'' of None \<Rightarrow> Inr (categories (dr_row d)) | Some v \<Rightarrow> resolve_categories (ua_type a) v d1) = Inr slugs"
      and ann: "announce_listing tn a old ((dr_row d)\<lparr>ls_updated_at := wall d1, categories := slugs\<rparr>)
        (recompute_search_vector tn ((dr_row d)\<lparr>ls_updated_at := wall d1, categories := slugs\<rparr>)
          (set_categories (ls_pk ((dr_row d)\<lparr>ls_updated_at := wall d1, categories := slugs\<rparr>)) slugs d1)) = Inr (r, db')"
    unfolding write_listing_def Let_def d bind_result_simps then_do_Inr bind_result_eq_Inr by blast
  from save_listing_E [OF d1] obtain row1 where row1: "row1 = (dr_row d)\<lparr>ls_updated_at := wall db\<rparr>" "listing_columns row1" "geo_consistent row1"
      "\<forall>x \<in> set (listings db). same_path x row1 \<longrightarrow> ls_pk x = ls_pk row1" "d1 = db\<lparr>listings := stored_rows (old = None) row1 (listings db)\<rparr>"
    by metis
  define row where "row = (dr_row d)\<lparr>ls_updated_at := wall db, categories := slugs\<rparr>"
  have row: "row = row1\<lparr>categories := slugs\<rparr>" by (simp add: row_def row1(1))
  from apply_payload_identity [OF d] have id: "same_identity l (dr_row d)" "categories (dr_row d) = categories l" by simp_all
  then have pk: "ls_pk row = ls_pk l" "ls_pk row1 = ls_pk l" by (simp_all add: row_def row1(1) same_identity_def)
  define d2 where "d2 = db\<lparr>listings := stored_rows (old = None) row (listings db), search_docs := (search_docs db)(ls_pk row \<mapsto> search_document tn row db)\<rparr>"
  have "set_categories (ls_pk row) slugs d1 = db\<lparr>listings := stored_rows (old = None) row (listings db)\<rparr>"
    using set_categories_stored [of "old = None" "listings db" row1 slugs] fresh pk by (simp add: set_categories_def row1(5) row)
  moreover have "search_document tn row (db\<lparr>listings := stored_rows (old = None) row (listings db)\<rparr>) = search_document tn row db"
    by (rule search_document_cong) simp_all
  ultimately have d2: "recompute_search_vector tn row (set_categories (ls_pk row) slugs d1) = d2"
    by (simp add: recompute_search_vector_def d2_def)
  have "wall d1 = wall db" by (simp add: row1(5))
  with ann have "announce_listing tn a old row d2 = Inr (r, db')" by (simp only: row_def [symmetric] d2)
  then obtain evs n k where ev: "announced tn a old row r evs" "seq d2 \<le> n"
      "db' = d2\<lparr>batch_rows := provenance a old row d2, outbox := outbox d2 @ evs, seq := n, draws := k\<rparr>" by (rule announce_E)
  have prov: "provenance a old row d2 = provenance a old row db" by (rule provenance_cong) (simp_all add: d2_def)
  show thesis
  proof (rule that [OF d row_def, of evs])
    show "dict_get payload ''categories'' = None \<longrightarrow> slugs = categories l" using slugs id(2) by auto
    show "listings db' = stored_rows (old = None) row (listings db)" "outbox db' = outbox db @ evs" "batch_rows db' = provenance a old row db"
      "search_docs db' = (search_docs db)(ls_pk row \<mapsto> search_document tn row db)" "seq db \<le> seq db'"
      using ev(2) by (simp_all only: ev(3) prov) (simp_all add: d2_def)
    show "same_elsewhere db db'" using ev(3) unfolding d2_def by (rule same_elsewhereI)
    show "announced tn a old row r evs" by fact
    show "listing_columns row" "geo_consistent row" "\<forall>x \<in> set (listings db). same_path x row \<longrightarrow> ls_pk x = ls_pk row"
      using row1(2-4) by (simp_all add: row listing_columns_def geo_consistent_def same_path_def)
  qed
qed

subsection \<open>The transaction\<close>

definition pks_ok :: "'z directory_db_scheme \<Rightarrow> bool" where
  "pks_ok db \<longleftrightarrow> distinct (map ls_pk (listings db)) \<and> (\<forall>l \<in> set (listings db). ls_pk l \<le> seq db)"

lemma match_listing_D:
  assumes "match_listing w tn t payload db = Inr (Some l)"
  shows "l \<in> set (listings db)" "ls_tenant l = tn_pk tn" "ls_type_key l = lt_key t"
proof -
  from assms have "l \<in> set (listings db) \<and> ls_tenant l = tn_pk tn \<and> ls_type_key l = lt_key t"
    by (auto simp: match_listing_def Let_def split: if_splits option.splits dest!: find_SomeD)
  then show "l \<in> set (listings db)" "ls_tenant l = tn_pk tn" "ls_type_key l = lt_key t" by simp_all
qed

lemma match_listing_cong: "listings d = listings e \<Longrightarrow> match_listing w tn t payload d = match_listing w tn t payload e"
  unfolding match_listing_def by (simp only:)

lemma branch_Inr:
  "(if c then Inl e else x) = Inr y \<longleftrightarrow> \<not> c \<and> x = Inr y"
  "(case z of None \<Rightarrow> x | Some k \<Rightarrow> Inl (g k)) = Inr y \<longleftrightarrow> z = None \<and> x = Inr y"
  by (auto split: option.split)

text \<open>What one transaction did: \<open>start\<close> is the row in memory it began with, \<open>row\<close> the one it stored.\<close>

definition upserted :: "'w upsert_world_scheme \<Rightarrow> tenant \<Rightarrow> upsert_args \<Rightarrow> dict \<Rightarrow> dict option \<Rightarrow> listing \<Rightarrow> draft \<Rightarrow> listing
    \<Rightarrow> upsert_result \<Rightarrow> 'z catalog_db_scheme \<Rightarrow> 'z catalog_db_scheme \<Rightarrow> bool" where
  "upserted w tn a payload old start d row r db db' \<longleftrightarrow>
     (case old of
        None \<Rightarrow> match_listing w tn (ua_type a) payload db = Inr None \<and> start = blank_listing tn (ua_type a) (ua_source a) (ua_batch a) (ua_submitter a) db
      | Some img \<Rightarrow> match_listing w tn (ua_type a) payload db = Inr (Some start) \<and> img = project start)
     \<and> apply_payload w (ua_type a) payload (old = None) (ua_enforce a) \<lparr>dr_row = start, dr_null_slug = False, dr_nan = False\<rparr> = Inr d
     \<and> (\<exists>slugs. row = (dr_row d)\<lparr>ls_updated_at := wall db, categories := slugs\<rparr> \<and> (dict_get payload ''categories'' = None \<longrightarrow> slugs = categories start))
     \<and> listings db' = stored_rows (old = None) row (listings db)
     \<and> listing_columns row \<and> geo_consistent row \<and> (\<forall>x \<in> set (listings db). same_path x row \<longrightarrow> ls_pk x = ls_pk row)
     \<and> (\<exists>evs. outbox db' = outbox db @ evs \<and> announced tn a old row r evs)
     \<and> (\<exists>n. batch_rows db' = provenance a old row (db\<lparr>seq := n\<rparr>))
     \<and> search_docs db' = (search_docs db)(ls_pk row \<mapsto> search_document tn row db)
     \<and> seq db + (if old = None then 1 else 0) \<le> seq db' \<and> same_elsewhere db db'"

lemma apply_upsert_E:
  fixes db :: "'z catalog_db_scheme"
  assumes run: "apply_upsert w tn a payload db = Inr (r, db')" and ok: "pks_ok db"
  obtains old start d row where "upserted w tn a payload old start d row r db db'"
proof -
  let ?in = "db\<lparr>in_atomic := True\<rparr>"
  have ml: "match_listing w tn (ua_type a) payload ?in = match_listing w tn (ua_type a) payload db" by (rule match_listing_cong) simp
  from run obtain m and d0 :: "'z catalog_db_scheme" where m: "match_listing w tn (ua_type a) payload db = Inr m"
      and body: "(case m of
             None \<Rightarrow>
               if \<not> truthy (get_or_null payload ''slug'') \<or> \<not> truthy (get_or_null payload ''name'')
               then Inl (SchemaError [''slug and name are required to create a listing''])
               else bind_result (if ua_suppression a then check_suppressed w tn payload ?in else Inr ()) (\<lambda>_.
                 write_listing w tn a payload None (blank_listing tn (ua_type a) (ua_source a) (ua_batch a) (ua_submitter a) ?in)
                   (?in\<lparr>seq := Suc (seq ?in), draws := Suc (draws ?in)\<rparr>))
           | Some l \<Rightarrow>
               if ua_must_create a then Inl (SchemaError [''a listing with slug '' @ repr (ls_slug l) @ '' already exists''])
               else write_listing w tn a payload (Some (project l)) l ?in) = Inr (r, d0)"
      and db': "db' = d0\<lparr>in_atomic := in_atomic db\<rparr>"
    unfolding apply_upsert_def atomic_Inr branch_Inr ml bind_result_eq_Inr [of "match_listing w tn (ua_type a) payload db"] by blast
  have outer: "same_elsewhere db (d0\<lparr>in_atomic := in_atomic db\<rparr>)" if "same_elsewhere (db\<lparr>in_atomic := b, seq := n, draws := k\<rparr>) d0" for b n k
    using that unfolding same_elsewhere_def by (elim exE) (simp, blast)
  show thesis
  proof (cases m)
    case None
    let ?start = "blank_listing tn (ua_type a) (ua_source a) (ua_batch a) (ua_submitter a) db"
    have start: "blank_listing tn (ua_type a) (ua_source a) (ua_batch a) (ua_submitter a) ?in = ?start" by (simp add: blank_listing_def draw_ulid_def)
    let ?d = "?in\<lparr>seq := Suc (seq ?in), draws := Suc (draws ?in)\<rparr>"
    from body have wr: "write_listing w tn a payload None ?start ?d = Inr (r, d0)"
      unfolding None option.case start branch_Inr bind_result_eq_Inr by blast
    have fresh: "\<forall>x \<in> set (listings ?d). ls_pk x \<noteq> ls_pk ?start" using ok by (auto simp: pks_ok_def blank_listing_def)
    obtain d slugs row evs where e: "apply_payload w (ua_type a) payload (None = (None :: dict option)) (ua_enforce a) \<lparr>dr_row = ?start, dr_null_slug = False, dr_nan = False\<rparr> = Inr d"
        "row = (dr_row d)\<lparr>ls_updated_at := wall ?d, categories := slugs\<rparr>" "dict_get payload ''categories'' = None \<longrightarrow> slugs = categories ?start"
        "listings d0 = stored_rows (None = (None :: dict option)) row (listings ?d)" "outbox d0 = outbox ?d @ evs" "announced tn a None row r evs"
        "listing_columns row" "geo_consistent row" "\<forall>x \<in> set (listings ?d). same_path x row \<longrightarrow> ls_pk x = ls_pk row"
        "batch_rows d0 = provenance a None row ?d" "search_docs d0 = (search_docs ?d)(ls_pk row \<mapsto> search_document tn row ?d)"
        "seq ?d \<le> seq d0" "same_elsewhere ?d d0"
      by (rule write_listing_E [OF wr fresh])
    have sd: "search_document tn row ?d = search_document tn row db" by (rule search_document_cong) simp_all
    have pv: "provenance a None row ?d = provenance a None row (db\<lparr>seq := Suc (seq db)\<rparr>)" by (rule provenance_cong) simp_all
    have "upserted w tn a payload None ?start d row r db db'"
      unfolding upserted_def
      using e(1-9,11,12) e(10) [unfolded pv] m None outer [OF e(13)] unfolding sd db' by auto
    then show thesis by (rule that)
  next
    case (Some l)
    from body have wr: "write_listing w tn a payload (Some (project l)) l ?in = Inr (r, d0)"
      unfolding Some option.case branch_Inr by blast
    obtain d slugs row evs where e: "apply_payload w (ua_type a) payload (Some (project l) = None) (ua_enforce a) \<lparr>dr_row = l, dr_null_slug = False, dr_nan = False\<rparr> = Inr d"
        "row = (dr_row d)\<lparr>ls_updated_at := wall ?in, categories := slugs\<rparr>" "dict_get payload ''categories'' = None \<longrightarrow> slugs = categories l"
        "listings d0 = stored_rows (Some (project l) = None) row (listings ?in)" "outbox d0 = outbox ?in @ evs" "announced tn a (Some (project l)) row r evs"
        "listing_columns row" "geo_consistent row" "\<forall>x \<in> set (listings ?in). same_path x row \<longrightarrow> ls_pk x = ls_pk row"
        "batch_rows d0 = provenance a (Some (project l)) row ?in" "search_docs d0 = (search_docs ?in)(ls_pk row \<mapsto> search_document tn row ?in)"
        "seq ?in \<le> seq d0" "same_elsewhere ?in d0"
      by (rule write_listing_E [OF wr]) auto
    have sd: "search_document tn row ?in = search_document tn row db" by (rule search_document_cong) simp_all
    have pn: "\<exists>n. batch_rows d0 = provenance a (Some (project l)) row (db\<lparr>seq := n\<rparr>)"
      unfolding e(10) by (rule exI [of _ "seq db"], rule provenance_cong) simp_all
    have fr: "same_elsewhere db (d0\<lparr>in_atomic := in_atomic db\<rparr>)" using outer [where b = True and n = "seq db" and k = "draws db"] e(13) by simp
    have sl: "\<exists>s. row = (dr_row d)\<lparr>ls_updated_at := wall db, categories := s\<rparr> \<and> (dict_get payload ''categories'' = None \<longrightarrow> s = categories l)"
      using e(2,3) by (intro exI [of _ slugs]) simp
    have ev: "\<exists>evs. outbox d0 = outbox db @ evs \<and> announced tn a (Some (project l)) row r evs" using e(5,6) by simp
    have "upserted w tn a payload (Some (project l)) l d row r db db'"
      unfolding upserted_def
      using e(1,4,7-9,11,12) pn m Some fr sl ev unfolding sd db' by simp
    then show thesis by (rule that)
  qed
qed

end
