(* ===== verification/Upsert_Props.thy ===== *)
theory Upsert_Props
  imports Upsert_Effects Catalog_Props Schema_Props
begin

section \<open>What an upsert promises\<close>

text \<open>
  The theorems about \<open>Upsert\<close>. A subscriber that applies the events of the upserts to its own copies keeps them equal to the listings; an
  upsert answers every call with one row of the command log and touches at most one listing, none of whose protected columns changes;
  the constraints of the table hold after it; a call that was applied once is never applied again under its idempotency key.
\<close>

subsection \<open>The command\<close>

definition only_log :: "'z core_db_scheme \<Rightarrow> 'z core_db_scheme \<Rightarrow> bool" where
  "only_log db db' \<longleftrightarrow> (\<exists>cs n. db' = db\<lparr>commands := cs, seq := n\<rparr> \<and> seq db \<le> n)"

lemma only_logI: "db' = db\<lparr>commands := cs, seq := n\<rparr> \<Longrightarrow> seq db \<le> n \<Longrightarrow> only_log db db'"
  unfolding only_log_def by blast

lemma only_log_refl: "only_log db db"
  by (rule only_logI [where cs = "commands db" and n = "seq db"]) simp_all

lemma only_log_received: "log_received c tn k a tr og p db = (row, db1) \<Longrightarrow> only_log db db1"
  by (rule only_logI [OF log_received_simps(8)]) simp_all

lemma only_log_conclude:
  assumes "only_log db db1"
  shows "only_log db (log_conclude row oc eid pb np db1)"
proof -
  from assms obtain cs n where d: "db1 = db\<lparr>commands := cs, seq := n\<rparr>" "seq db \<le> n" unfolding only_log_def by blast
  show ?thesis by (rule only_logI [where cs = "commands (log_conclude row oc eid pb np db1)", OF _ d(2)]) (simp add: log_conclude_def d(1))
qed

lemma only_log_replay: "only_log db (log_replay c tn k a tr prior db)"
  unfolding log_replay_def by (rule only_logI [OF refl]) simp

lemma only_log_tables:
  assumes "only_log db (db' :: 'z catalog_db_scheme)"
  shows "listings db' = listings db" "outbox db' = outbox db" "batch_rows db' = batch_rows db" "search_docs db' = search_docs db"
    "category_rows db' = category_rows db" "listing_types db' = listing_types db" "batches db' = batches db" "wall db' = wall db" "seq db \<le> seq db'"
    "in_atomic db' = in_atomic db" "draws db' = draws db"
  using assms by (auto simp: only_log_def)

lemma upsert_cases:
  fixes db :: "'z catalog_db_scheme"
  assumes run: "upsert_listing w tn a payload db = (res, db')"
  obtains (inside) "in_atomic db" "res = Inl (CatalogAudit MustNotBeInTransaction)" "db' = db"
    | (replayed) key prior where "\<not> in_atomic db" "or_none (ua_key a) = Some key" "prior_upsert tn key db = Some prior"
        "res = Inr \<lparr>ur_listing = None, ur_outcome = U_REPLAYED, ur_event_id = or_none (Some (cmd_result_event_id prior)), ur_changes = None\<rparr>"
        "db' = log_replay LISTING_UPSERT (Some (tn_pk tn)) (ua_key a) (ua_actor a) (ua_trace a) prior db"
    | (malformed) m row db1 where "\<not> in_atomic db" "jsonable_items payload = Inl m" "log_upsert tn a None db = (row, db1)" "res = Inl (SchemaError [m])"
        "db' = log_conclude row ''rejected'' [] (Some (JObj [(''payload'', JStr m)])) None db1"
    | (failed) doc row db1 e where "\<not> in_atomic db" "jsonable_items payload = Inr doc" "log_upsert tn a (Some (JObj doc)) db = (row, db1)"
        "apply_upsert w tn a doc db1 = Inl e" "res = Inl e"
        "db' = (case upsert_problem e of None \<Rightarrow> db1 | Some p \<Rightarrow> log_conclude row ''rejected'' [] (Some p) None db1)"
    | (applied) doc row db1 r db2 where "\<not> in_atomic db" "jsonable_items payload = Inr doc" "log_upsert tn a (Some (JObj doc)) db = (row, db1)"
        "apply_upsert w tn a doc db1 = Inr (r, db2)" "res = Inr r"
        "db' = log_conclude row ''applied'' (case ur_event_id r of None \<Rightarrow> [] | Some e \<Rightarrow> e) None None db2"
        "(case or_none (ua_key a) of None \<Rightarrow> None | Some k \<Rightarrow> prior_upsert tn k db) = None"
proof (cases "in_atomic db")
  case True
  then show thesis using inside run by (simp add: upsert_listing_def require_autocommit_def)
next
  case out: False
  show thesis
  proof (cases "case or_none (ua_key a) of None \<Rightarrow> None | Some k \<Rightarrow> prior_upsert tn k db")
    case (Some prior)
    then obtain key where "or_none (ua_key a) = Some key" "prior_upsert tn key db = Some prior" by (cases "or_none (ua_key a)") auto
    with run Some out show thesis using replayed [of key prior] by (auto simp: upsert_listing_def require_autocommit_def)
  next
    case None
    with run out have go: "run_upsert w tn a payload db = (res, db')" by (simp add: upsert_listing_def require_autocommit_def)
    show thesis
    proof (cases "jsonable_items payload")
      case (Inl m)
      obtain row and db1 :: "'z catalog_db_scheme" where r: "log_upsert tn a None db = (row, db1)" by (cases "log_upsert tn a None db")
      from go show thesis using malformed [OF out Inl r] by (simp add: run_upsert_def Inl r)
    next
      case (Inr doc)
      obtain row and db1 :: "'z catalog_db_scheme" where r: "log_upsert tn a (Some (JObj doc)) db = (row, db1)" by (cases "log_upsert tn a (Some (JObj doc)) db")
      show thesis
      proof (cases "apply_upsert w tn a doc db1")
        case e: (Inl e)
        from go show thesis using failed [OF out Inr r e] by (simp add: run_upsert_def Inr r e)
      next
        case ok: (Inr x)
        then obtain q and db2 :: "'z catalog_db_scheme" where x: "apply_upsert w tn a doc db1 = Inr (q, db2)" by (cases x) auto
        from go show thesis using applied [OF out Inr r x] None by (simp add: run_upsert_def Inr r x)
      qed
    qed
  qed
qed

text \<open>A call either leaves everything but the log as it was, or is one transaction.\<close>

lemma upsert_effect:
  fixes db :: "'z catalog_db_scheme"
  assumes run: "upsert_listing w tn a payload db = (res, db')" and ok: "pks_ok db"
  obtains (quiet) "only_log db db'" "\<And>r. res = Inr r \<Longrightarrow> ur_outcome r = U_REPLAYED"
    | (wrote) doc db1 db2 old start d row r where "jsonable_items payload = Inr doc" "only_log db db1" "upserted w tn a doc old start d row r db1 db2"
        "only_log db2 db'" "res = Inr r" "\<not> in_atomic db"
  using run
proof (cases rule: upsert_cases)
  case inside
  then show thesis using quiet only_log_refl [of db] by simp
next
  case replayed
  show thesis by (rule quiet) (use replayed only_log_replay in simp_all)
next
  case (malformed m row db1)
  have "only_log db db1" using malformed(3) unfolding log_upsert_def by (rule only_log_received)
  then show thesis by (intro quiet) (use malformed only_log_conclude in simp_all)
next
  case (failed doc row db1 e)
  have "only_log db db1" using failed(3) unfolding log_upsert_def by (rule only_log_received)
  then have "only_log db db'" unfolding failed(6) by (simp add: only_log_conclude split: option.split)
  then show thesis using quiet failed(5) by simp
next
  case (applied doc row db1 r db2)
  have l: "only_log db db1" using applied(3) unfolding log_upsert_def by (rule only_log_received)
  then have "pks_ok db1" using ok only_log_tables(1,9) [OF l] by (auto simp: pks_ok_def)
  from apply_upsert_E [OF applied(4) this] obtain old start d lrow where u: "upserted w tn a doc old start d lrow r db1 db2" .
  have "only_log db2 db'" unfolding applied(6) by (rule only_log_conclude [OF only_log_refl])
  from wrote [OF applied(2) l u this applied(5,1)] show thesis .
qed

subsection \<open>What it may touch\<close>

lemma stored_rows_simps:
  "stored_rows True l rows = rows @ [l]" "stored_rows False l rows = update_where (\<lambda>r. ls_pk r = ls_pk l) (\<lambda>_. l) rows"
  by (simp_all add: stored_rows_def)

definition untouched :: "'z catalog_db_scheme \<Rightarrow> 'z catalog_db_scheme \<Rightarrow> bool" where
  "untouched db db' \<longleftrightarrow> (\<exists>ls s b os n k cs. db' = db\<lparr>listings := ls, search_docs := s, batch_rows := b, outbox := os, seq := n, draws := k, commands := cs\<rparr>)"

lemma untouched_log: "only_log db (db' :: 'z catalog_db_scheme) \<Longrightarrow> untouched db db'"
proof -
  assume "only_log db db'"
  then obtain cs n where "db' = db\<lparr>commands := cs, seq := n\<rparr>" unfolding only_log_def by blast
  then have "db' = db\<lparr>listings := listings db, search_docs := search_docs db, batch_rows := batch_rows db, outbox := outbox db, seq := n, draws := draws db, commands := cs\<rparr>" by simp
  then show ?thesis unfolding untouched_def by blast
qed

lemma untouched_else: "same_elsewhere db db' \<Longrightarrow> untouched db db'"
proof -
  assume "same_elsewhere db db'"
  then obtain ls s b os n k where "db' = db\<lparr>listings := ls, search_docs := s, batch_rows := b, outbox := os, seq := n, draws := k\<rparr>"
    unfolding same_elsewhere_def by blast
  then have "db' = db\<lparr>listings := ls, search_docs := s, batch_rows := b, outbox := os, seq := n, draws := k, commands := commands db\<rparr>" by simp
  then show ?thesis unfolding untouched_def by blast
qed

lemma untouched_trans: "untouched a b \<Longrightarrow> untouched b c \<Longrightarrow> untouched a c"
  unfolding untouched_def by (elim exE) (simp, blast)

lemma upserted_row:
  assumes "upserted w tn a doc old start d row r db1 db2"
  shows "same_identity start row"
    and "old = None \<Longrightarrow> start = blank_listing tn (ua_type a) (ua_source a) (ua_batch a) (ua_submitter a) db1"
    and "old = Some img \<Longrightarrow> start \<in> set (listings db1) \<and> ls_tenant start = tn_pk tn \<and> ls_type_key start = lt_key (ua_type a) \<and> img = project start"
proof -
  have p: "apply_payload w (ua_type a) doc (old = None) (ua_enforce a) \<lparr>dr_row = start, dr_null_slug = False, dr_nan = False\<rparr> = Inr d"
    and s: "\<exists>slugs. row = (dr_row d)\<lparr>ls_updated_at := wall db1, categories := slugs\<rparr>"
    and m: "case old of
        None \<Rightarrow> start = blank_listing tn (ua_type a) (ua_source a) (ua_batch a) (ua_submitter a) db1
      | Some img \<Rightarrow> match_listing w tn (ua_type a) doc db1 = Inr (Some start) \<and> img = project start"
    using assms unfolding upserted_def by (auto split: option.splits)
  from apply_payload_identity [OF p] s show "same_identity start row" by (auto simp: same_identity_def)
  from m show "old = None \<Longrightarrow> start = blank_listing tn (ua_type a) (ua_source a) (ua_batch a) (ua_submitter a) db1" by simp
  from m match_listing_D [of w tn "ua_type a" doc db1 start]
  show "old = Some img \<Longrightarrow> start \<in> set (listings db1) \<and> ls_tenant start = tn_pk tn \<and> ls_type_key start = lt_key (ua_type a) \<and> img = project start"
    by simp
qed

lemma upserted_tables:
  assumes "upserted w tn a doc old start d row r db1 db2"
  shows "listings db2 = stored_rows (old = None) row (listings db1)" "same_elsewhere db1 db2"
    "listing_columns row" "geo_consistent row" "\<forall>x \<in> set (listings db1). same_path x row \<longrightarrow> ls_pk x = ls_pk row"
    "\<exists>evs. outbox db2 = outbox db1 @ evs \<and> announced tn a old row r evs" "seq db1 + (if old = None then 1 else 0) \<le> seq db2"
    "\<exists>n. batch_rows db2 = provenance a old row (db1\<lparr>seq := n\<rparr>)"
  using assms unfolding upserted_def by blast+

text \<open>C0: An upsert touches at most one listing. Whatever the payload, the actor and the outcome, the table afterwards is the table before,
  or one more row, or the same rows with one replaced; a new row is an unclaimed draft of the tenant and type of the call with no owner
  and no tier, a replaced one is of that tenant and type and keeps its owner, status, visibility, tier, media and provenance. No table
  but the listings, their search documents, the provenance rows, the outbox and the command log is written.\<close>

theorem upsert_scope:
  fixes db :: "'z catalog_db_scheme"
  assumes run: "upsert_listing w tn a payload db = (res, db')" and ok: "pks_ok db"
  shows "untouched db db' \<and>
    (listings db' = listings db
     \<or> (\<exists>l \<in> set (listings db). \<exists>l'. ls_tenant l = tn_pk tn \<and> ls_type_key l = lt_key (ua_type a) \<and> same_identity l l'
         \<and> listings db' = update_where (\<lambda>r. ls_pk r = ls_pk l) (\<lambda>_. l') (listings db))
     \<or> (\<exists>l'. listings db' = listings db @ [l'] \<and> ls_tenant l' = tn_pk tn \<and> ls_type_key l' = lt_key (ua_type a) \<and> ls_status l' = L_UNCLAIMED
         \<and> visibility l' = V_DRAFT \<and> ls_owner l' = None \<and> current_tier l' = None \<and> source l' = ua_source a \<and> seq db < ls_pk l'))"
  using run ok
proof (cases rule: upsert_effect)
  case quiet
  then show ?thesis using untouched_log only_log_tables(1) by blast
next
  case (wrote doc db1 db2 old start d row r)
  note t = upserted_tables [OF wrote(3)] and l1 = only_log_tables [OF wrote(2)] and l2 = only_log_tables [OF wrote(4)]
  have un: "untouched db db'"
    by (rule untouched_trans [OF untouched_log [OF wrote(2)] untouched_trans [OF untouched_else [OF t(2)] untouched_log [OF wrote(4)]]])
  have ls: "listings db' = stored_rows (old = None) row (listings db)" using t(1) l1(1) l2(1) by simp
  note id = upserted_row(1) [OF wrote(3)]
  show ?thesis
  proof (cases old)
    case None
    note start = upserted_row(2) [OF wrote(3) None]
    have "listings db' = listings db @ [row]" using ls by (simp add: None stored_rows_simps)
    moreover have "ls_tenant row = tn_pk tn" "ls_type_key row = lt_key (ua_type a)" "ls_status row = L_UNCLAIMED" "visibility row = V_DRAFT" "ls_owner row = None"
        "current_tier row = None" "source row = ua_source a" "seq db < ls_pk row"
      using id l1(9) unfolding same_identity_def start blank_listing_def by simp_all
    ultimately show ?thesis using un by blast
  next
    case (Some img)
    from upserted_row(3) [OF wrote(3) Some] l1(1) have "start \<in> set (listings db)" "ls_tenant start = tn_pk tn" "ls_type_key start = lt_key (ua_type a)" by simp_all
    moreover have "listings db' = update_where (\<lambda>r. ls_pk r = ls_pk start) (\<lambda>_. row) (listings db)"
      using ls id by (simp add: Some stored_rows_simps same_identity_def)
    ultimately show ?thesis using un id by blast
  qed
qed

subsection \<open>The constraints of the table\<close>

definition table_ok :: "'z directory_db_scheme \<Rightarrow> bool" where
  "table_ok db \<longleftrightarrow> pks_ok db \<and> (\<forall>x \<in> set (listings db). listing_columns x \<and> geo_consistent x \<and> (\<forall>y \<in> set (listings db). same_path x y \<longrightarrow> ls_pk x = ls_pk y))"

lemma stored_rows_ok:
  assumes ok: "table_ok db" and row: "listing_columns row" "geo_consistent row" "\<forall>x \<in> set (listings db). same_path x row \<longrightarrow> ls_pk x = ls_pk row"
    and fresh: "creating \<Longrightarrow> ls_pk row \<notin> ls_pk ` set (listings db)" and kept: "\<not> creating \<Longrightarrow> ls_pk row \<in> ls_pk ` set (listings db)"
    and db': "listings db' = stored_rows creating row (listings db)" "seq db \<le> seq db'" "ls_pk row \<le> seq db'"
  shows "table_ok db'"
proof -
  have mem: "x \<in> set (listings db) \<and> ls_pk x \<noteq> ls_pk row \<or> x = row" if "x \<in> set (listings db')" for x
    using that fresh by (cases creating) (auto simp: db'(1) stored_rows_simps set_update_where split: if_splits, metis imageI)
  have "distinct (map ls_pk (listings db'))"
  proof (cases creating)
    case True
    with fresh ok show ?thesis by (simp add: db'(1) stored_rows_simps table_ok_def pks_ok_def)
  next
    case False
    have "map ls_pk (listings db') = map ls_pk (listings db)" by (simp add: db'(1) False stored_rows_simps update_where_def)
    then show ?thesis using ok by (simp add: table_ok_def pks_ok_def)
  qed
  moreover have "ls_pk x \<le> seq db'" if "x \<in> set (listings db')" for x
    using mem [OF that] ok db'(2,3) by (auto simp: table_ok_def pks_ok_def)
  moreover have "listing_columns x \<and> geo_consistent x" if "x \<in> set (listings db')" for x
    using mem [OF that] ok row(1,2) by (auto simp: table_ok_def)
  moreover have "ls_pk x = ls_pk y" if "x \<in> set (listings db')" "y \<in> set (listings db')" "same_path x y" for x y
  proof -
    have sym: "same_path u v \<Longrightarrow> same_path v u" for u v by (simp add: same_path_def)
    from mem [OF that(1)] mem [OF that(2)] that(3) ok row(3) sym [OF that(3)] show ?thesis unfolding table_ok_def by metis
  qed
  ultimately show ?thesis by (simp add: table_ok_def pks_ok_def)
qed

text \<open>C0: An upsert keeps the constraints of the listing table: primary keys and public paths (tenant, type, slug) unique, coordinates
  present exactly when their precision is not none, every value within its column.\<close>

theorem upsert_keeps_table:
  fixes db :: "'z catalog_db_scheme"
  assumes run: "upsert_listing w tn a payload db = (res, db')" and ok: "table_ok db"
  shows "table_ok db'"
proof -
  have pks: "pks_ok db" using ok by (simp add: table_ok_def)
  from run pks show ?thesis
  proof (cases rule: upsert_effect)
    case quiet
    with ok only_log_tables(1,9) [OF quiet(1)] show ?thesis by (auto simp: table_ok_def pks_ok_def)
  next
    case (wrote doc db1 db2 old start d row r)
    note t = upserted_tables [OF wrote(3)] and l1 = only_log_tables [OF wrote(2)] and l2 = only_log_tables [OF wrote(4)]
    have id: "ls_pk row = ls_pk start" using upserted_row(1) [OF wrote(3)] by (simp add: same_identity_def)
    show ?thesis
    proof (rule stored_rows_ok [OF ok t(3,4)])
      show "\<forall>x \<in> set (listings db). same_path x row \<longrightarrow> ls_pk x = ls_pk row" using t(5) l1(1) by simp
      show "listings db' = stored_rows (old = None) row (listings db)" using t(1) l1(1) l2(1) by simp
      show "seq db \<le> seq db'" using l1(9) l2(9) t(7) by simp
      show "ls_pk row \<le> seq db'"
      proof (cases old)
        case None
        have "ls_pk row = Suc (seq db1)" using upserted_row(2) [OF wrote(3) None] id by (simp add: blank_listing_def)
        then show ?thesis using t(7) l2(9) by (simp add: None)
      next
        case (Some img)
        have "ls_pk row \<le> seq db" using upserted_row(3) [OF wrote(3) Some] id pks l1(1) by (auto simp: pks_ok_def)
        then show ?thesis using l1(9) l2(9) t(7) by simp
      qed
      show "ls_pk row \<notin> ls_pk ` set (listings db)" if "old = None"
        using upserted_row(2) [OF wrote(3) that] id pks l1(9) by (auto simp: blank_listing_def pks_ok_def)
      show "ls_pk row \<in> ls_pk ` set (listings db)" if "old \<noteq> None"
        using upserted_row(3) [OF wrote(3)] that id l1(1) by auto
    qed
  qed
qed

subsection \<open>A subscriber's mirror\<close>

text \<open>What a subscriber does with an event: it stores the document of a created listing, without the type, and applies the patch of an
  updated one to its copy. \<open>None\<close> is a subscriber that cannot follow: it has no copy, or the patch does not apply.\<close>

definition follow :: "outbox_event \<Rightarrow> (string \<rightharpoonup> dict) \<Rightarrow> (string \<rightharpoonup> dict) option" where
  "follow ev m =
     (if ev_type ev = LISTING_CREATED then Some (m(ev_subject ev \<mapsto> dict_del ''type'' (ev_data ev)))
      else if ev_type ev = LISTING_UPDATED then
        (case (m (ev_subject ev), dict_get (ev_data ev) ''changes'') of
           (Some d, Some (JList ops)) \<Rightarrow> map_option (\<lambda>d'. m(ev_subject ev \<mapsto> d')) (apply_patch ops d)
         | _ \<Rightarrow> None)
      else Some m)"

fun follow_all :: "outbox_event list \<Rightarrow> (string \<rightharpoonup> dict) \<Rightarrow> (string \<rightharpoonup> dict) option" where
  "follow_all [] m = Some m"
| "follow_all (ev # evs) m = Option.bind (follow ev m) (follow_all evs)"

lemma follow_all_append: "follow_all (xs @ ys) m = Option.bind (follow_all xs m) (follow_all ys)"
  by (induction xs arbitrary: m) (auto split: bind_splits)

definition mirrors :: "(string \<rightharpoonup> dict) \<Rightarrow> listing list \<Rightarrow> bool" where
  "mirrors m ls \<longleftrightarrow> (\<forall>l \<in> set ls. \<exists>d. m (ls_public_id l) = Some d \<and> same_doc d (project l))"

text \<open>The keys of the custom fields stay free of the two characters a JSON pointer escapes.\<close>

definition plain_schema :: "dict list \<Rightarrow> bool" where
  "plain_schema fs \<longleftrightarrow> list_all (\<lambda>f. plain_key (py_str (get_or_null f ''key''))) fs"

definition plain_row :: "listing \<Rightarrow> bool" where
  "plain_row l \<longleftrightarrow> list_all plain_key (dict_keys (custom_fields l))"

lemma not_object: "(case str_or_null s of JObj e \<Rightarrow> P e | _ \<Rightarrow> True) = True"
  by (simp add: str_or_null_def)

lemma plain_project: "plain_row l \<Longrightarrow> plain_doc (project l)"
  unfolding plain_row_def plain_doc_def project_def
  by (simp only: list.pred_inject case_prod_conv json.case not_object)
    (simp add: plain_key_def dict_keys_def RECURSE_def)

lemma schema_of_keys: "fst ` set (schema_of fs) \<subseteq> (\<lambda>f. py_str (get_or_null f ''key'')) ` set fs"
proof -
  have "fst ` set (schema_set k f s) \<subseteq> insert k (fst ` set s)" for k f s
    by (induction k f s rule: schema_set.induct) auto
  then have "fst ` set (fold (\<lambda>f. schema_set (py_str (get_or_null f ''key'')) f) fs s) \<subseteq> (\<lambda>f. py_str (get_or_null f ''key'')) ` set fs \<union> fst ` set s" for s
  proof (induction fs arbitrary: s)
    case (Cons f fs)
    from Cons.IH [OF Cons.prems, of "schema_set (py_str (get_or_null f ''key'')) f s"] Cons.prems [of "py_str (get_or_null f ''key'')" f s]
    show ?case by auto
  qed simp
  from this [of "[]"] show ?thesis by (simp add: schema_of_def)
qed

lemma checked_custom_keys:
  assumes "checked_custom v fs x creating en = Inr c"
  shows "set (dict_keys c) \<subseteq> (\<lambda>f. py_str (get_or_null f ''key'')) ` set fs"
proof -
  from assms obtain d where "validate_custom_fields v fs d creating en = Inr c"
    by (auto simp: checked_custom_def Let_def split: json.splits sum.splits if_splits)
  then have c: "c = concat (map (\<lambda>e. snd (check_field v creating en d e)) (schema_of fs))"
    by (simp add: validate_custom_fields_def Let_def comp_def split: if_splits)
  have "fst p = fst e" if "p \<in> set (snd (check_field v creating en d e))" for p e
    using check_field_snd [of v creating en d "fst e" "snd e"] that by auto
  then have "set (dict_keys c) \<subseteq> fst ` set (schema_of fs)" by (auto simp: c dict_keys_def) (metis fst_conv imageI)
  with schema_of_keys show ?thesis by blast
qed

lemma merge_custom_keys: "set (dict_keys (merge_custom c d)) \<subseteq> set (dict_keys c) \<union> set (dict_keys d)"
proof (induction c arbitrary: d)
  case (Cons p c)
  obtain k v where p: "p = (k, v)" by (cases p)
  define d1 where "d1 = (if v = JNull then dict_del k d else dict_set k v d)"
  have "set (dict_keys d1) \<subseteq> insert k (set (dict_keys d))"
    using dict_set_keys [of k v d] by (auto simp: d1_def dict_keys_def dict_del_def)
  moreover have "merge_custom (p # c) d = merge_custom c d1" by (simp add: merge_custom_def p d1_def)
  moreover have "set (dict_keys (p # c)) = insert k (set (dict_keys c))" by (simp add: dict_keys_def p)
  ultimately show ?case using Cons.IH [of d1] by auto
qed (simp add: merge_custom_def)

lemma apply_payload_plain:
  assumes "apply_payload w t payload creating en d = Inr d'" "plain_schema (lt_fields t)" "plain_row (dr_row d)"
  shows "plain_row (dr_row d')"
proof -
  have c: "plain_row (l\<lparr>custom_fields := merge_custom c (custom_fields l)\<rparr>)"
    if "plain_row l" "checked_custom (the_validators w) (lt_fields t) x creating en = Inr c" for l x c
    using merge_custom_keys [of c "custom_fields l"] checked_custom_keys [OF that(2)] that(1) assms(2)
    by (auto simp: plain_row_def plain_schema_def list_all_iff)
  have "plain_row (dr_row d) \<longrightarrow> plain_row (dr_row d')"
    by (rule apply_payload_keeps [where R = "\<lambda>l l'. plain_row l \<longrightarrow> plain_row l'", OF assms(1)]) (blast intro: c | simp add: plain_row_def)+
  with assms(3) show ?thesis by simp
qed

lemma created_doc: "same_doc (dict_del ''type'' (dict_merge (project l) [(''type'', v)])) (project l)"
proof -
  have "dict_get (dict_del ''type'' (dict_merge (project l) [(''type'', v)])) k = dict_get (project l) k" for k
    by (simp add: dict_merge_def) (simp add: project_def dict_get_def)
  then show ?thesis by (simp add: same_doc_def same_at_refl)
qed

lemma mirrors_replace:
  assumes m: "mirrors m ls" and d: "same_doc d (project row)" and ids: "distinct (map ls_public_id ls')"
    and mem: "row \<in> set ls'" "\<And>x. x \<in> set ls' \<Longrightarrow> x = row \<or> x \<in> set ls"
  shows "mirrors (m(ls_public_id row \<mapsto> d)) ls'"
  unfolding mirrors_def
proof
  fix x assume x: "x \<in> set ls'"
  show "\<exists>e. (m(ls_public_id row \<mapsto> d)) (ls_public_id x) = Some e \<and> same_doc e (project x)"
  proof (cases "x = row")
    case True
    with d show ?thesis by simp
  next
    case False
    then have "ls_public_id x \<noteq> ls_public_id row" using ids x mem(1) by (auto simp: distinct_map dest: inj_onD)
    with mem(2) [OF x] False m show ?thesis by (auto simp: mirrors_def)
  qed
qed

lemma mirror_step:
  assumes u: "upserted w tn a doc old start d row r db1 db2" and m: "mirrors m (listings db1)" and ids: "distinct (map ls_public_id (listings db2))"
    and plain: "\<forall>l \<in> set (listings db1). plain_row l" "plain_schema (lt_fields (ua_type a))"
  shows "\<exists>m' evs. outbox db2 = outbox db1 @ evs \<and> follow_all evs m = Some m' \<and> mirrors m' (listings db2)" "\<forall>l \<in> set (listings db2). plain_row l"
proof -
  note t = upserted_tables [OF u]
  have id: "ls_pk row = ls_pk start" "ls_public_id row = ls_public_id start" using upserted_row(1) [OF u] by (simp_all add: same_identity_def)
  have start: "plain_row start"
  proof (cases old)
    case None
    then show ?thesis using upserted_row(2) [OF u None] by (simp add: plain_row_def blank_listing_def dict_keys_def)
  next
    case (Some img)
    then show ?thesis using upserted_row(3) [OF u Some] plain(1) by blast
  qed
  have "apply_payload w (ua_type a) doc (old = None) (ua_enforce a) \<lparr>dr_row = start, dr_null_slug = False, dr_nan = False\<rparr> = Inr d"
    "\<exists>slugs. row = (dr_row d)\<lparr>ls_updated_at := wall db1, categories := slugs\<rparr>" using u unfolding upserted_def by blast+
  with apply_payload_plain [of w "ua_type a" doc "old = None" "ua_enforce a" _ d] plain(2) start have row: "plain_row row"
    by (auto simp: plain_row_def)
  have mem: "x = row \<or> x \<in> set (listings db1)" if "x \<in> set (listings db2)" for x
    using that unfolding t(1) by (cases old) (auto simp: stored_rows_simps set_update_where split: if_splits)
  show "\<forall>l \<in> set (listings db2). plain_row l" using mem row plain(1) by blast
  have rowin: "row \<in> set (listings db2)"
  proof (cases old)
    case None
    then show ?thesis by (simp add: t(1) stored_rows_simps)
  next
    case (Some img)
    from upserted_row(3) [OF u Some] have "start \<in> set (listings db1)" by simp
    then show ?thesis using id(1) by (auto simp: t(1) Some stored_rows_simps set_update_where intro!: exI [of _ start])
  qed
  from t(6) obtain evs where evs: "outbox db2 = outbox db1 @ evs" "announced tn a old row r evs" by blast
  have "\<exists>m'. follow_all evs m = Some m' \<and> mirrors m' (listings db2)"
  proof (cases old)
    case None
    from evs(2) obtain ev where ev: "evs = [ev]" "ev_type ev = LISTING_CREATED" "ev_subject ev = ls_public_id row"
        "ev_data ev = dict_merge (project row) [(''type'', JStr (lt_key (ua_type a)))]" by (auto simp: announced_def None)
    have "mirrors (m(ls_public_id row \<mapsto> dict_del ''type'' (ev_data ev))) (listings db2)"
      by (rule mirrors_replace [OF m _ ids rowin mem]) (simp add: ev(4) created_doc)
    then show ?thesis by (simp add: ev(1-3) follow_def)
  next
    case (Some img)
    from upserted_row(3) [OF u Some] have st: "start \<in> set (listings db1)" "img = project start" by simp_all
    with m obtain d0 where d0: "m (ls_public_id start) = Some d0" "same_doc d0 (project start)" by (auto simp: mirrors_def)
    show ?thesis
    proof (cases "diff img (project row) = []")
      case True
      with evs(2) have "evs = []" by (auto simp: announced_def Some)
      moreover have "same_doc d0 (project row)" using same_doc_trans [OF d0(2)] True by (simp add: st(2) diff_Nil)
      from mirrors_replace [OF m this ids rowin mem] have "mirrors m (listings db2)" by (simp add: id(2) d0(1) map_upd_triv)
      ultimately show ?thesis by simp
    next
      case False
      with evs(2) obtain ev where ev: "evs = [ev]" "ev_type ev = LISTING_UPDATED" "ev_subject ev = ls_public_id row"
          "ev_data ev = [(''changes'', JList (diff img (project row))), (''type'', JStr (lt_key (ua_type a)))]" by (auto simp: announced_def Some)
      from diff_apply [OF plain_project [OF start] plain_project [OF row] d0(2)]
      obtain d' where d': "apply_patch (diff img (project row)) d0 = Some d'" "same_doc d' (project row)" unfolding st(2) by blast
      have "follow ev m = Some (m(ls_public_id row \<mapsto> d'))"
        using ev(2) by (simp add: follow_def ev(3,4) id(2) d0(1) d'(1) dict_get_Cons LISTING_CREATED_def LISTING_UPDATED_def)
      with mirrors_replace [OF m d'(2) ids rowin mem] show ?thesis by (simp add: ev(1))
    qed
  qed
  with evs(1) show "\<exists>m' evs. outbox db2 = outbox db1 @ evs \<and> follow_all evs m = Some m' \<and> mirrors m' (listings db2)" by blast
qed

text \<open>A sequence of upserts, each with its arguments.\<close>

fun upsert_all :: "'w upsert_world_scheme \<Rightarrow> tenant \<Rightarrow> (upsert_args \<times> (string option \<times> pyval) list) list \<Rightarrow> 'z catalog_db_scheme \<Rightarrow> 'z catalog_db_scheme" where
  "upsert_all w tn [] db = db"
| "upsert_all w tn ((a, payload) # us) db = upsert_all w tn us (snd (upsert_listing w tn a payload db))"

lemma upsert_once_mirrored:
  fixes db :: "'z catalog_db_scheme"
  assumes run: "upsert_listing w tn a payload db = (res, db')" and ok: "pks_ok db" and m: "mirrors m (listings db)"
    and ids: "distinct (map ls_public_id (listings db'))" and plain: "\<forall>l \<in> set (listings db). plain_row l" "plain_schema (lt_fields (ua_type a))"
  shows "(\<exists>m' evs. outbox db' = outbox db @ evs \<and> follow_all evs m = Some m' \<and> mirrors m' (listings db')) \<and> (\<forall>l \<in> set (listings db'). plain_row l)"
  using run ok
proof (cases rule: upsert_effect)
  case quiet
  note t = only_log_tables [OF quiet(1)]
  have "outbox db' = outbox db @ [] \<and> follow_all [] m = Some m \<and> mirrors m (listings db')" using m by (simp add: t)
  with plain(1) show ?thesis unfolding t(1) by blast
next
  case (wrote doc db1 db2 old start d row r)
  note l1 = only_log_tables [OF wrote(2)] and l2 = only_log_tables [OF wrote(4)]
  have "mirrors m (listings db1)" "distinct (map ls_public_id (listings db2))" "\<forall>l \<in> set (listings db1). plain_row l"
    using m ids plain(1) unfolding l1(1) l2(1) .
  from mirror_step [OF wrote(3) this plain(2)] show ?thesis unfolding l1(2) l2(1,2) by blast
qed

lemma upsert_ids:
  fixes db :: "'z catalog_db_scheme"
  assumes run: "upsert_listing w tn a payload db = (res, db')" and ok: "pks_ok db"
  shows "pks_ok db' \<and> (\<exists>new. map ls_public_id (listings db') = map ls_public_id (listings db) @ new)"
  using run ok
proof (cases rule: upsert_effect)
  case quiet
  with ok only_log_tables(1,9) [OF quiet(1)] show ?thesis by (auto simp: pks_ok_def)
next
  case (wrote doc db1 db2 old start d row r)
  note t = upserted_tables [OF wrote(3)] and l1 = only_log_tables [OF wrote(2)] and l2 = only_log_tables [OF wrote(4)]
  have ls: "listings db' = stored_rows (old = None) row (listings db)" and le: "seq db + (if old = None then 1 else 0) \<le> seq db'"
    using t(1,7) l1(1,9) l2(1,9) by simp_all
  have id: "ls_pk row = ls_pk start" "ls_public_id row = ls_public_id start" using upserted_row(1) [OF wrote(3)] by (simp_all add: same_identity_def)
  show ?thesis
  proof (cases old)
    case None
    have pk: "ls_pk row = Suc (seq db1)" using upserted_row(2) [OF wrote(3) None] id(1) by (simp add: blank_listing_def)
    have "ls_pk row \<le> seq db'" using pk t(7) l2(9) by (simp add: None)
    moreover have "seq db < ls_pk row" using pk l1(9) by simp
    ultimately show ?thesis using ok le by (auto simp: ls None stored_rows_simps pks_ok_def)
  next
    case (Some img)
    have start: "start \<in> set (listings db)" using upserted_row(3) [OF wrote(3) Some] l1(1) by simp
    have "x = start" if "x \<in> set (listings db)" "ls_pk x = ls_pk row" for x
      using ok that start id(1) by (auto simp: pks_ok_def distinct_map dest: inj_onD)
    then have "map ls_public_id (listings db') = map ls_public_id (listings db)" "map ls_pk (listings db') = map ls_pk (listings db)"
      unfolding ls by (auto simp: Some stored_rows_simps update_where_def id)
    moreover have "\<forall>l \<in> set (listings db'). ls_pk l \<in> ls_pk ` set (listings db)"
      using calculation(2) by (metis image_eqI set_map)
    ultimately show ?thesis using ok le unfolding pks_ok_def by (auto simp: Some) fastforce
  qed
qed

lemma upsert_all_ids:
  fixes db :: "'z catalog_db_scheme"
  shows "pks_ok db \<Longrightarrow> \<exists>new. map ls_public_id (listings (upsert_all w tn us db)) = map ls_public_id (listings db) @ new"
proof (induction us arbitrary: db)
  case (Cons u us)
  obtain a p where u: "u = (a, p)" by (cases u)
  obtain res and db1 :: "'z catalog_db_scheme" where run: "upsert_listing w tn a p db = (res, db1)" by (cases "upsert_listing w tn a p db")
  from upsert_ids [OF run Cons.prems] obtain new where "pks_ok db1" "map ls_public_id (listings db1) = map ls_public_id (listings db) @ new" by blast
  with Cons.IH [of db1] show ?case by (auto simp: u run)
qed simp

text \<open>C0: The events of the upserts are a faithful replication log. A subscriber whose copies agree with the listings (a null member and
  a missing one taken as the same) and who stores the document of every \<^verbatim>\<open>listing.created\<close> and applies the patch of every
  \<^verbatim>\<open>listing.updated\<close> after any sequence of upserts, successful, rejected, replayed or failed, never meets a patch it cannot apply, and its
  copies agree with the listings again.\<close>

theorem upserts_mirrored:
  fixes db :: "'z catalog_db_scheme"
  assumes "pks_ok db" "mirrors m (listings db)" "distinct (map ls_public_id (listings (upsert_all w tn us db)))"
    "\<forall>l \<in> set (listings db). plain_row l" "\<forall>(a, p) \<in> set us. plain_schema (lt_fields (ua_type a))"
  shows "\<exists>evs m'. outbox (upsert_all w tn us db) = outbox db @ evs \<and> follow_all evs m = Some m' \<and> mirrors m' (listings (upsert_all w tn us db))"
  using assms
proof (induction us arbitrary: db m)
  case Nil
  then show ?case by auto
next
  case (Cons u us)
  obtain a p where u: "u = (a, p)" by (cases u)
  obtain res and db1 :: "'z catalog_db_scheme" where run: "upsert_listing w tn a p db = (res, db1)" by (cases "upsert_listing w tn a p db")
  from upsert_ids [OF run Cons.prems(1)] have ok1: "pks_ok db1" by simp
  from upsert_all_ids [OF ok1, of w tn us] Cons.prems(3) have ids: "distinct (map ls_public_id (listings db1))" by (auto simp: u run)
  have pl: "plain_schema (lt_fields (ua_type a))" using Cons.prems(5) by (auto simp: u)
  from upsert_once_mirrored [OF run Cons.prems(1,2) ids Cons.prems(4) pl] obtain m1 es where
    1: "outbox db1 = outbox db @ es" "follow_all es m = Some m1" "mirrors m1 (listings db1)" "\<forall>l \<in> set (listings db1). plain_row l" by blast
  have all: "upsert_all w tn (u # us) db = upsert_all w tn us db1" by (simp add: u run)
  from Cons.IH [OF ok1 1(3) _ 1(4)] Cons.prems(3,5) obtain evs m' where
    2: "outbox (upsert_all w tn us db1) = outbox db1 @ evs" "follow_all evs m1 = Some m'" "mirrors m' (listings (upsert_all w tn us db1))"
    unfolding all by auto
  have "follow_all (es @ evs) m = Some m'" by (simp add: follow_all_append 1(2) 2(2))
  with 1(1) 2(1,3) show ?case unfolding all by (intro exI [of _ "es @ evs"]) simp
qed

definition plain_world :: upsert_world where
  "plain_world = \<lparr>url_valid = (\<lambda>s. True), email_valid = (\<lambda>s. True), up_slugify = lower, up_sha256 = (\<lambda>s. s)\<rparr>"

definition shop_args :: upsert_args where
  "shop_args = \<lparr>ua_type = shop_type, ua_actor = [(''type'', JStr ''admin'')], ua_source = ''manual'', ua_key = Some ''k1'', ua_trace = [], ua_origin = [],
     ua_enforce = True, ua_batch = None, ua_submitter = None, ua_must_create = False, ua_suppression = False\<rparr>"

definition bar_payload :: "(string option \<times> pyval) list" where
  "bar_payload = [(Some ''slug'', PText ''Bar''), (Some ''name'', PText '' Bar ''), (Some ''categories'', PList [PText ''cafes''])]"

definition cafe_payload :: "(string option \<times> pyval) list" where
  "cafe_payload = [(Some ''slug'', PText ''cafe''), (Some ''name'', PText ''Grand Cafe''), (Some ''contact'', PDict [(Some ''email'', PText ''New@Example.com'')])]"

definition cafe_doc :: dict where
  "cafe_doc = [(''slug'', JStr ''cafe''), (''name'', JStr ''Grand Cafe''), (''contact'', JObj [(''email'', JStr ''New@Example.com'')])]"

definition bar_doc :: dict where
  "bar_doc = [(''slug'', JStr ''Bar''), (''name'', JStr '' Bar ''), (''categories'', JList [JStr ''cafes''])]"

lemma sample_docs: "jsonable_items cafe_payload = Inr cafe_doc" "jsonable_items bar_payload = Inr bar_doc"
  by (simp_all add: cafe_payload_def bar_payload_def cafe_doc_def bar_doc_def)

lemma cafe_edit: "apply_payload plain_world shop_type cafe_doc False True \<lparr>dr_row = shop_listing, dr_null_slug = False, dr_nan = False\<rparr> =
    Inr \<lparr>dr_row = shop_listing\<lparr>ls_name := ''Grand Cafe'', email := ''new@example.com''\<rparr>, dr_null_slug = False, dr_nan = False\<rparr>"
  by code_simp

lemma cafe_match: "match_listing plain_world sample_tenant shop_type cafe_doc shop_db = Inr (Some shop_listing)"
  by code_simp

lemma announce_ok: "\<exists>r d. announce_listing tn a old l db = Inr (r, d)"
  by (cases old) (simp_all add: announce_listing_def then_do_def upsert_emit_eq Let_def)

lemma write_ok:
  assumes "apply_payload w (ua_type a) payload (old = None) (ua_enforce a) \<lparr>dr_row = l, dr_null_slug = False, dr_nan = False\<rparr> = Inr d"
    and "save_listing (old = None) d db = Inr ((), d1)"
    and "(case dict_get payload ''categories'' of None \<Rightarrow> Inr (categories (dr_row d)) | Some v \<Rightarrow> resolve_categories (ua_type a) v d1) = Inr slugs"
  shows "\<exists>r d'. write_listing w tn a payload old l db = Inr (r, d')"
  unfolding write_listing_def Let_def assms(1) bind_result_simps then_do_def assms(2) sum.case prod.case assms(3) by (rule announce_ok)

lemma shop_args_simps: "ua_type shop_args = shop_type" "ua_enforce shop_args = True" "ua_suppression shop_args = False" "ua_must_create shop_args = False"
    "ua_key shop_args = Some ''k1''" "ua_batch shop_args = None" "ua_source shop_args = ''manual''"
  by (simp_all add: shop_args_def)

lemma cafe_columns: "listing_columns (shop_listing\<lparr>ls_name := ''Grand Cafe'', email := ''new@example.com'', ls_updated_at := t\<rparr>)"
    "geo_consistent (shop_listing\<lparr>ls_name := ''Grand Cafe'', email := ''new@example.com'', ls_updated_at := t\<rparr>)"
  by (simp_all add: listing_columns_def geo_consistent_def shop_listing_def sample_listing_def fits_def coordinate_fits_def GEO_NONE_def)

lemma cafe_applied:
  fixes db :: catalog_db
  assumes "listings db = [shop_listing]"
  shows "\<exists>r d. apply_upsert plain_world sample_tenant shop_args cafe_doc db = Inr (r, d)"
proof -
  let ?in = "db\<lparr>in_atomic := True\<rparr>"
  have m: "match_listing plain_world sample_tenant shop_type cafe_doc ?in = Inr (Some shop_listing)"
    using match_listing_cong [of ?in shop_db plain_world] cafe_match assms by (simp add: shop_tables)
  have save: "save_listing (Some (project shop_listing) = None) \<lparr>dr_row = shop_listing\<lparr>ls_name := ''Grand Cafe'', email := ''new@example.com''\<rparr>, dr_null_slug = False, dr_nan = False\<rparr> ?in
      = Inr ((), ?in\<lparr>listings := [shop_listing\<lparr>ls_name := ''Grand Cafe'', email := ''new@example.com'', ls_updated_at := wall db\<rparr>]\<rparr>)"
    using cafe_columns [of "wall db"] by (simp add: save_listing_def assms)
  have "\<exists>r d. write_listing plain_world sample_tenant shop_args cafe_doc (Some (project shop_listing)) shop_listing ?in = Inr (r, d)"
    by (rule write_ok [OF _ save, of plain_world shop_args cafe_doc shop_listing "categories shop_listing"])
      (simp_all add: shop_args_simps cafe_edit, simp add: cafe_doc_def dict_get_def)
  moreover have "find (\<lambda>k. dict_get cafe_doc k \<noteq> None) REJECTED_KEYS = None" by (simp add: REJECTED_KEYS_def cafe_doc_def dict_get_def)
  ultimately show ?thesis by (auto simp: apply_upsert_def atomic_def m shop_args_simps)
qed

lemma sample_run:
  fixes db :: catalog_db
  assumes "\<not> in_atomic db" "commands db = []" "ua_key a = Some ''k1''" "jsonable_items payload = Inr doc"
    and go: "\<And>db1 :: catalog_db. only_log db db1 \<Longrightarrow> \<exists>r d. apply_upsert w tn a doc db1 = Inr (r, d)"
  shows "\<exists>r d. upsert_listing w tn a payload db = (Inr r, d)"
proof -
  obtain row and db1 :: catalog_db where l: "log_upsert tn a (Some (JObj doc)) db = (row, db1)" by (cases "log_upsert tn a (Some (JObj doc)) db")
  then have "only_log db db1" unfolding log_upsert_def by (rule only_log_received)
  from go [OF this] obtain r d where "apply_upsert w tn a doc db1 = Inr (r, d)" by blast
  then show ?thesis using assms(1-4) l by (simp add: upsert_listing_def run_upsert_def require_autocommit_def or_none_def prior_upsert_def)
qed

lemma cafe_run: "\<exists>r d. upsert_listing plain_world sample_tenant shop_args cafe_payload shop_db = (Inr r, d)"
  by (rule sample_run [OF _ _ _ sample_docs(1) cafe_applied])
    (simp_all add: shop_args_simps only_log_tables(1) shop_tables, simp_all add: shop_db_def)

end
